(* ===== verification/Prelude.thy ===== *)
theory Prelude
  imports Main "HOL-Library.AList" "HOL-Library.Word" "HOL-Library.List_Lexorder"
    "HOL-Library.Char_ord" "HOL-Library.Product_Lexorder"
begin

text \<open>
  Shared vocabulary of the development: identifiers, the two map types of the Rust
  standard library, the inputs an operation reads from its environment, and the 64-bit
  arithmetic the counters use.

  \<^item> A \<open>HashMap\<close> is an association list with distinct keys. Its order stands for the
    iteration order of the hash table, which Rust leaves unspecified; a theorem about every
    such list is a theorem about every iteration order.
  \<^item> A \<open>BTreeMap\<close> is an association list whose keys ascend strictly; a \<open>BTreeSet\<close> is
    a strictly ascending list. Strings compare by their bytes, as in Rust.
  \<^item> \<open>generate_id()\<close> and \<open>now_ms()\<close> are inputs: the \<open>env\<close> of an operation holds
    the identifiers it draws, in order, and the time it reads.
  \<^item> A panic (\<open>expect\<close>, \<open>unreachable!\<close>) is the value \<open>None\<close> of the result.
\<close>

named_theorems hmap_simps \<open>lookups and key lists of updated association lists\<close>

type_synonym id = string
type_synonym timestamp_ms = int
type_synonym u64 = "64 word"
type_synonym ('k, 'v) hash_map = "('k \<times> 'v) list"
type_synonym ('k, 'v) btree_map = "('k \<times> 'v) list"
type_synonym 'a may_panic = "'a option"

record env =
  env_id :: "nat \<Rightarrow> id"
  env_now :: timestamp_ms


subsection \<open>Hash maps\<close>

declare map_of_eq_Some_iff [simp del] Some_eq_map_of_iff [simp del]

abbreviation hm_insert :: "'k \<Rightarrow> 'v \<Rightarrow> ('k, 'v) hash_map \<Rightarrow> ('k, 'v) hash_map" where
  "hm_insert \<equiv> AList.update"

abbreviation hm_remove :: "'k \<Rightarrow> ('k, 'v) hash_map \<Rightarrow> ('k, 'v) hash_map" where
  "hm_remove \<equiv> AList.delete"

abbreviation hm_values :: "('k, 'v) hash_map \<Rightarrow> 'v list" where
  "hm_values m \<equiv> map snd m"

abbreviation hm_keys :: "('k, 'v) hash_map \<Rightarrow> 'k list" where
  "hm_keys m \<equiv> map fst m"

definition hm_modify :: "'k \<Rightarrow> ('v \<Rightarrow> 'v) \<Rightarrow> ('k, 'v) hash_map \<Rightarrow> ('k, 'v) hash_map" where
  "hm_modify k f m = map (\<lambda>(k', v). (k', if k' = k then f v else v)) m"

definition hm_map_values :: "('v \<Rightarrow> 'v) \<Rightarrow> ('k, 'v) hash_map \<Rightarrow> ('k, 'v) hash_map" where
  "hm_map_values f m = map (\<lambda>(k, v). (k, f v)) m"

lemma map_of_hm_insert [simp, hmap_simps]:
  "map_of (hm_insert k v m) = (map_of m)(k \<mapsto> v)"
  by (rule update_conv')

lemma map_of_hm_remove [simp, hmap_simps]:
  "map_of (hm_remove k m) = (map_of m)(k := None)"
  by (rule delete_conv')

lemma hm_keys_modify [simp, hmap_simps]: "hm_keys (hm_modify k f m) = hm_keys m"
  by (induction m) (auto simp: hm_modify_def)

lemma map_of_hm_modify [simp, hmap_simps]:
  "map_of (hm_modify k f m) x = (if x = k then map_option f (map_of m x) else map_of m x)"
  by (induction m) (auto simp: hm_modify_def)

lemma hm_modify_None: "map_of m k = None \<Longrightarrow> hm_modify k f m = m"
  by (induction m) (auto simp: hm_modify_def split: if_splits)

lemma hm_keys_map_values [simp, hmap_simps]: "hm_keys (hm_map_values f m) = hm_keys m"
  by (induction m) (auto simp: hm_map_values_def)

lemma map_of_hm_map_values [simp, hmap_simps]:
  "map_of (hm_map_values f m) x = map_option f (map_of m x)"
  by (induction m) (auto simp: hm_map_values_def)

lemma distinct_hm_insert [simp]:
  "distinct (hm_keys m) \<Longrightarrow> distinct (hm_keys (hm_insert k v m))"
  by (rule distinct_update)

lemma distinct_hm_remove [simp]:
  "distinct (hm_keys m) \<Longrightarrow> distinct (hm_keys (hm_remove k m))"
  by (rule distinct_delete)

lemma hm_values_iff:
  "distinct (hm_keys m) \<Longrightarrow> v \<in> set (hm_values m) \<longleftrightarrow> (\<exists>k. map_of m k = Some v)"
  by (force simp: map_of_eq_Some_iff)

lemma map_of_fold_hm_remove [hmap_simps]:
  "map_of (fold hm_remove ks m) k = (if k \<in> set ks then None else map_of m k)"
  by (induction ks arbitrary: m) auto

lemma distinct_fold_hm_remove:
  "distinct (hm_keys m) \<Longrightarrow> distinct (hm_keys (fold hm_remove ks m))"
  by (induction ks arbitrary: m) auto

lemma map_of_fold_hm_modify [hmap_simps]:
  assumes "\<And>v. f (f v) = f v"
  shows "map_of (fold (\<lambda>k. hm_modify k f) ks m) x =
    (if x \<in> set ks then map_option f (map_of m x) else map_of m x)"
  using assms by (induction ks arbitrary: m) (auto simp: option.map_comp comp_def)

lemma hm_keys_fold_hm_modify [simp, hmap_simps]:
  "hm_keys (fold (\<lambda>k. hm_modify k f) ks m) = hm_keys m"
  by (induction ks arbitrary: m) auto


subsection \<open>Ordered maps and sets\<close>

fun bt_insert :: "'k::linorder \<Rightarrow> 'v \<Rightarrow> ('k, 'v) btree_map \<Rightarrow> ('k, 'v) btree_map" where
  "bt_insert k v [] = [(k, v)]"
| "bt_insert k v ((k', v') # m) =
     (if k < k' then (k, v) # (k', v') # m
      else if k = k' then (k, v) # m
      else (k', v') # bt_insert k v m)"

definition btree_set :: "'a::linorder list \<Rightarrow> 'a list" where
  "btree_set xs = sort (remdups xs)"

abbreviation bt_sorted :: "('k::linorder, 'v) btree_map \<Rightarrow> bool" where
  "bt_sorted m \<equiv> sorted_wrt (<) (hm_keys m)"

lemma map_of_bt_insert_same: "map_of (bt_insert k v m) k = Some v"
  by (induction m) auto

lemma map_of_bt_insert_other: "x \<noteq> k \<Longrightarrow> map_of (bt_insert k v m) x = map_of m x"
  by (induction m) auto

lemma map_of_bt_insert [simp, hmap_simps]: "map_of (bt_insert k v m) = (map_of m)(k \<mapsto> v)"
  by (rule ext) (auto simp: map_of_bt_insert_same map_of_bt_insert_other)

lemma set_keys_bt_insert: "set (hm_keys (bt_insert k v m)) = insert k (set (hm_keys m))"
  by (simp add: dom_map_of_conv_image_fst [symmetric])

lemma bt_sorted_insert [simp]: "bt_sorted m \<Longrightarrow> bt_sorted (bt_insert k v m)"
proof (induction m)
  case Nil
  then show ?case by simp
next
  case (Cons kv m)
  obtain k' v' where [simp]: "kv = (k', v')" by (cases kv)
  have "\<forall>x \<in> set (hm_keys (bt_insert k v m)). k' < x" if "k' < k"
    using Cons.prems that by (simp add: set_keys_bt_insert del: set_map)
  with Cons show ?case by auto
qed

lemma bt_sorted_distinct: "bt_sorted m \<Longrightarrow> distinct (hm_keys m)"
  by (simp add: strict_sorted_iff)

lemma set_btree_set [simp]: "set (btree_set xs) = set xs"
  by (simp add: btree_set_def)

lemma distinct_btree_set [simp]: "distinct (btree_set xs)"
  by (simp add: btree_set_def)

lemma sorted_btree_set [simp]: "sorted (btree_set xs)"
  by (simp add: btree_set_def)

text \<open>A \<open>BTreeSet\<close> is determined by its elements, whatever order they were collected in.\<close>

lemma btree_set_cong: "set xs = set ys \<Longrightarrow> btree_set xs = btree_set ys"
  by (rule sorted_distinct_set_unique) auto


subsection \<open>Iterator helpers\<close>

fun find_map :: "('a \<Rightarrow> 'b option) \<Rightarrow> 'a list \<Rightarrow> 'b option" where
  "find_map f [] = None"
| "find_map f (x # xs) = (case f x of None \<Rightarrow> find_map f xs | Some y \<Rightarrow> Some y)"

definition option_list :: "'a option \<Rightarrow> 'a list" where
  "option_list x = (case x of None \<Rightarrow> [] | Some y \<Rightarrow> [y])"

definition or_default :: "'a list option \<Rightarrow> 'a list" where
  "or_default x = (case x of Some xs \<Rightarrow> xs | None \<Rightarrow> [])"

definition list_first :: "'a list \<Rightarrow> 'a option" where
  "list_first xs = (case xs of [] \<Rightarrow> None | x # _ \<Rightarrow> Some x)"

definition push_new :: "'a list \<Rightarrow> 'a \<Rightarrow> 'a list" where
  "push_new xs x = (if x \<in> set xs then xs else xs @ [x])"

definition filter_map :: "('a \<Rightarrow> 'b option) \<Rightarrow> 'a list \<Rightarrow> 'b list" where
  "filter_map f xs = concat (map (\<lambda>x. option_list (f x)) xs)"

lemma option_list_simps [simp]: "option_list None = []" "option_list (Some x) = [x]"
  by (simp_all add: option_list_def)

lemma set_option_list [simp]: "x \<in> set (option_list y) \<longleftrightarrow> y = Some x"
  by (cases y) auto

lemma filter_map_simps [simp]:
  "filter_map f [] = []"
  "filter_map f (x # xs) = option_list (f x) @ filter_map f xs"
  by (simp_all add: filter_map_def)

lemma set_filter_map [simp]: "y \<in> set (filter_map f xs) \<longleftrightarrow> (\<exists>x \<in> set xs. f x = Some y)"
  by (induction xs) auto

lemma filter_map_Nil: "filter_map f xs = [] \<longleftrightarrow> (\<forall>x \<in> set xs. f x = None)"
  by (induction xs) (auto simp: option_list_def split: option.splits)

lemma filter_map_append: "filter_map f (xs @ ys) = filter_map f xs @ filter_map f ys"
  by (induction xs) auto

lemma filter_map_comp: "filter_map f (map g xs) = filter_map (\<lambda>x. f (g x)) xs"
  by (induction xs) auto

lemma distinct_filter_map_fst:
  assumes "\<And>k v y. f (k, v) = Some y \<Longrightarrow> fst y = k" and "distinct (map fst m)"
  shows "distinct (map fst (filter_map f m))"
proof -
  have "fst y \<in> set (map fst xs)" if y: "y \<in> set (filter_map f xs)" for y xs
  proof -
    obtain k v where "(k, v) \<in> set xs" "f (k, v) = Some y" using y by auto
    then show ?thesis using assms(1) [of k v y] by force
  qed
  with assms(2) show ?thesis
  proof (induction m)
    case (Cons kv m)
    then show ?case
      using assms(1) [of "fst kv" "snd kv"] by (cases "f kv") auto
  qed simp
qed

lemma set_push_new [simp]: "set (push_new xs x) = insert x (set xs)"
  by (auto simp: push_new_def)

lemma distinct_push_new: "distinct xs \<Longrightarrow> distinct (push_new xs x)"
  by (auto simp: push_new_def)

lemma set_foldl_push_new: "set (foldl push_new acc xs) = set acc \<union> set xs"
  by (induction xs arbitrary: acc) auto

lemma distinct_foldl_push_new: "distinct acc \<Longrightarrow> distinct (foldl push_new acc xs)"
  by (induction xs arbitrary: acc) (auto simp: distinct_push_new)

lemma find_map_Some: "find_map f xs = Some y \<Longrightarrow> \<exists>x \<in> set xs. f x = Some y"
  by (induction xs) (auto split: option.splits)

lemma find_map_None: "find_map f xs = None \<longleftrightarrow> (\<forall>x \<in> set xs. f x = None)"
  by (induction xs) (auto split: option.splits)


lemma filter_unique_key:
  assumes "distinct (map f xs)" "x \<in> set xs"
  shows "filter (\<lambda>y. f y = f x) xs = [x]"
  using assms
  by (induction xs) (auto simp: filter_empty_conv image_iff)


subsection \<open>64-bit counters\<close>

definition saturating_add :: "u64 \<Rightarrow> u64 \<Rightarrow> u64" where
  "saturating_add a b = (if unat a + unat b < 2 ^ 64 then a + b else - 1)"

definition saturating_sub :: "u64 \<Rightarrow> u64 \<Rightarrow> u64" where
  "saturating_sub a b = (if b \<le> a then a - b else 0)"

lemma unat_u64: "unat (a :: u64) < 2 ^ 64"
  using unsigned_less [of a] by simp

lemma unat_max_u64: "unat (- 1 :: u64) = 2 ^ 64 - 1"
  by (simp add: unsigned_minus_1_eq_mask mask_eq_exp_minus_1)

lemma unat_saturating_add: "unat (saturating_add a b) = min (unat a + unat b) (2 ^ 64 - 1)"
proof (cases "unat a + unat b < 2 ^ 64")
  case True
  then have "unat (a + b) = unat a + unat b"
    by (simp add: unat_word_ariths)
  with True show ?thesis by (simp add: saturating_add_def)
next
  case False
  then show ?thesis by (simp add: saturating_add_def unat_max_u64)
qed

text \<open>The sum saturates exactly when the wrapped sum is smaller than a summand.\<close>

lemma saturating_add_code [code]: "saturating_add a b = (if a + b < a then - 1 else a + b)"
proof -
  have "unat a + unat b < 2 ^ 64 \<longleftrightarrow> \<not> a + b < a"
  proof (cases "unat a + unat b < 2 ^ 64")
    case True
    then have "unat (a + b) = unat a + unat b" by (simp add: unat_word_ariths)
    with True show ?thesis by (simp add: word_less_nat_alt)
  next
    case False
    then have "unat (a + b) = unat a + unat b - 2 ^ 64"
      using unat_u64 [of a] unat_u64 [of b]
      by (simp add: unat_word_ariths le_mod_geq)
    with False show ?thesis
      using unat_u64 [of a] unat_u64 [of b] by (simp add: word_less_nat_alt)
  qed
  then show ?thesis by (simp add: saturating_add_def)
qed

lemma saturating_add_ge: "a \<le> saturating_add a b"
  using unat_u64 [of a] by (simp add: word_le_nat_alt unat_saturating_add)

lemma unat_saturating_sub: "unat (saturating_sub a b) = unat a - unat b"
  by (simp add: saturating_sub_def unat_sub_if' word_le_nat_alt)


subsection \<open>Strings\<close>

text \<open>Strings are lists of bytes; \<open>contains\<close>, \<open>to_ascii_lowercase\<close> and \<open>join\<close>.\<close>

definition str_contains :: "string \<Rightarrow> string \<Rightarrow> bool" where
  "str_contains needle s = list_ex (\<lambda>i. take (length needle) (drop i s) = needle) [0..<Suc (length s)]"

definition ascii_lower :: "string \<Rightarrow> string" where
  "ascii_lower = map (\<lambda>c. if CHR ''A'' \<le> c \<and> c \<le> CHR ''Z'' then char_of (of_char c + 32 :: nat) else c)"

text \<open>\<open>str::to_lowercase\<close> and \<open>str::chars\<close> go by the Unicode tables.\<close>

record text_lib =
  tl_lower :: "string \<Rightarrow> string"
  tl_chars :: "string \<Rightarrow> nat list"

fun str_join :: "string \<Rightarrow> string list \<Rightarrow> string" where
  "str_join sep [] = []"
| "str_join sep [s] = s"
| "str_join sep (s # t # ss) = s @ sep @ str_join sep (t # ss)"

text \<open>The UTF-8 encodings of the characters with the Unicode property \<open>White_Space\<close>;
  \<open>trim().is_empty()\<close> holds of the strings made of them.\<close>

definition white_space :: "string list" where
  "white_space = map (map char_of)
     ([[9], [10], [11], [12], [13], [32], [194, 133], [194, 160], [225, 154, 128 :: nat]] @
      map (\<lambda>n. [226, 128, n]) ([128..<139] @ [168, 169, 175]) @ [[226, 129, 159], [227, 128, 128]])"

lemma white_space_nonempty: "w \<in> set white_space \<Longrightarrow> w \<noteq> []"
  by (auto simp: white_space_def)

function str_blank :: "string \<Rightarrow> bool" where
  "str_blank s =
     (if s = [] then True
      else \<exists>w \<in> set white_space. take (length w) s = w \<and> str_blank (drop (length w) s))"
  by pat_completeness auto

termination
  by (relation "measure length") (auto dest: white_space_nonempty)

declare str_blank.simps [simp del]

text \<open>\<open>trim\<close> drops such characters at both ends; no character of UTF-8 ends with the encoding of another.\<close>

function trim_start :: "string \<Rightarrow> string" where
  "trim_start s =
     (case find (\<lambda>w. take (length w) s = w) white_space of
        Some w \<Rightarrow> trim_start (drop (length w) s)
      | None \<Rightarrow> s)"
  by pat_completeness auto

termination
proof (relation "measure length")
  fix s w
  assume "find (\<lambda>w. take (length w) s = w) white_space = Some w"
  then have "w \<noteq> []" and "take (length w) s = w"
    by (auto simp: find_Some_iff dest: white_space_nonempty [OF nth_mem])
  then show "(drop (length w) s, s) \<in> measure length"
    by (cases s) auto
qed simp

declare trim_start.simps [simp del]

function trim_end :: "string \<Rightarrow> string" where
  "trim_end s =
     (case find (\<lambda>w. length w \<le> length s \<and> drop (length s - length w) s = w) white_space of
        Some w \<Rightarrow> trim_end (take (length s - length w) s)
      | None \<Rightarrow> s)"
  by pat_completeness auto

termination
proof (relation "measure length")
  fix s w
  assume "find (\<lambda>w. length w \<le> length s \<and> drop (length s - length w) s = w) white_space = Some w"
  then have "w \<noteq> []" and "length w \<le> length s"
    by (auto simp: find_Some_iff dest: white_space_nonempty [OF nth_mem])
  then show "(take (length s - length w) s, s) \<in> measure length"
    by (cases w) auto
qed simp

declare trim_end.simps [simp del]

definition str_trim :: "string \<Rightarrow> string" where
  "str_trim s = trim_end (trim_start s)"

text \<open>Texts without white space at their ends are not changed.\<close>

definition printable :: "char \<Rightarrow> bool" where
  "printable c \<longleftrightarrow> 32 < (of_char c :: nat) \<and> (of_char c :: nat) < 127"

lemma white_space_unprintable: "w \<in> set white_space \<Longrightarrow> w \<noteq> [] \<and> \<not> printable (hd w) \<and> \<not> printable (last w)"
proof -
  have "\<forall>w \<in> set white_space. w \<noteq> [] \<and> \<not> printable (hd w) \<and> \<not> printable (last w)"
    by (simp add: white_space_def printable_def upt_rec)
  then show "w \<in> set white_space \<Longrightarrow> w \<noteq> [] \<and> \<not> printable (hd w) \<and> \<not> printable (last w)"
    by blast
qed

lemma trim_start_printable:
  assumes "s = [] \<or> printable (hd s)"
  shows "trim_start s = s"
proof -
  have "take (length w) s \<noteq> w" if "w \<in> set white_space" for w
  proof
    assume prefix: "take (length w) s = w"
    then have "s \<noteq> []" and "hd w = hd s"
      using white_space_unprintable [OF that] by (auto, metis hd_take length_greater_0_conv)
    then show False
      using assms white_space_unprintable [OF that] by simp
  qed
  then have "find (\<lambda>w. take (length w) s = w) white_space = None"
    by (simp add: find_None_iff)
  then show ?thesis
    by (subst trim_start.simps) simp
qed

lemma trim_end_printable:
  assumes "s = [] \<or> printable (last s)"
  shows "trim_end s = s"
proof -
  have "\<not> (length w \<le> length s \<and> drop (length s - length w) s = w)" if "w \<in> set white_space" for w
  proof
    assume "length w \<le> length s \<and> drop (length s - length w) s = w"
    then have "s \<noteq> []" and "last w = last s"
      using white_space_unprintable [OF that] by (auto, metis drop_eq_Nil last_drop not_le)
    then show False
      using assms white_space_unprintable [OF that] by simp
  qed
  then have "find (\<lambda>w. length w \<le> length s \<and> drop (length s - length w) s = w) white_space = None"
    by (simp add: find_None_iff)
  then show ?thesis
    by (subst trim_end.simps) simp
qed

lemma str_trim_printable: "s = [] \<or> printable (hd s) \<and> printable (last s) \<Longrightarrow> str_trim s = s"
  by (auto simp: str_trim_def trim_start_printable trim_end_printable)

end
