(* ===== verification/Work_Model.thy ===== *)
theory Work_Model
  imports Prelude
begin

text \<open>
  The data of the team work coordinator (\<open>crates/aionui-team/src/work_source.rs\<close> and
  \<open>work_coordinator/model.rs\<close>): where a piece of work comes from, its priority lane, the
  life cycle of an intent, the handles given to callers (enqueue leases and work batches), the
  reports it publishes, and the \<open>RunCausalityPort\<close> trait through which it talks to the
  team-run manager. A trait object is a record of functions over the state of the object
  behind it.

  Names: a Rust field \<open>f\<close> of a struct is prefixed by the initials of the struct; enum
  variants keep their names, with a prefix where two enums share one. \<open>WorkIntentState\<close>
  keeps the bare names.
\<close>

section \<open>Work sources and priorities\<close>

datatype target_role = RoleLead | RoleTeammate

datatype work_priority = Foreground | Control | Background

datatype work_source =
    UserMessage
  | UserCommand
  | UserIntervention
  | McpSendMessage
  | McpShutdownRequest
  | SpawnWelcome
  | TeamMembershipChanged
  | SpawnAttachFailure
  | IdleNotification
  | InterruptedNotification
  | ShutdownRejected
  | RecoveryDrain

fun source_priority :: "work_source \<Rightarrow> work_priority" where
  "source_priority UserMessage = Foreground"
| "source_priority UserCommand = Foreground"
| "source_priority UserIntervention = Foreground"
| "source_priority McpShutdownRequest = Control"
| "source_priority ShutdownRejected = Control"
| "source_priority McpSendMessage = Background"
| "source_priority SpawnWelcome = Background"
| "source_priority TeamMembershipChanged = Background"
| "source_priority SpawnAttachFailure = Background"
| "source_priority IdleNotification = Background"
| "source_priority InterruptedNotification = Background"
| "source_priority RecoveryDrain = Background"

definition resumes_paused_slot :: "work_source \<Rightarrow> bool" where
  "resumes_paused_slot s \<longleftrightarrow> s = UserMessage \<or> s = UserCommand \<or> s = UserIntervention"

fun requires_mailbox_message :: "work_source \<Rightarrow> bool" where
  "requires_mailbox_message TeamMembershipChanged = False"
| "requires_mailbox_message IdleNotification = False"
| "requires_mailbox_message _ = True"

text \<open>The \<open>{:?}\<close> rendering of a source: the variant's name.\<close>

fun work_source_debug :: "work_source \<Rightarrow> string" where
  "work_source_debug UserMessage = ''UserMessage''"
| "work_source_debug UserCommand = ''UserCommand''"
| "work_source_debug UserIntervention = ''UserIntervention''"
| "work_source_debug McpSendMessage = ''McpSendMessage''"
| "work_source_debug McpShutdownRequest = ''McpShutdownRequest''"
| "work_source_debug SpawnWelcome = ''SpawnWelcome''"
| "work_source_debug TeamMembershipChanged = ''TeamMembershipChanged''"
| "work_source_debug SpawnAttachFailure = ''SpawnAttachFailure''"
| "work_source_debug IdleNotification = ''IdleNotification''"
| "work_source_debug InterruptedNotification = ''InterruptedNotification''"
| "work_source_debug ShutdownRejected = ''ShutdownRejected''"
| "work_source_debug RecoveryDrain = ''RecoveryDrain''"

fun work_source_display :: "work_source \<Rightarrow> string" where
  "work_source_display UserMessage = ''user_message''"
| "work_source_display UserCommand = ''user_command''"
| "work_source_display UserIntervention = ''user_intervention''"
| "work_source_display McpSendMessage = ''mcp_send_message''"
| "work_source_display McpShutdownRequest = ''mcp_shutdown_request''"
| "work_source_display SpawnWelcome = ''spawn_welcome''"
| "work_source_display TeamMembershipChanged = ''team_membership_changed''"
| "work_source_display SpawnAttachFailure = ''spawn_attach_failure''"
| "work_source_display IdleNotification = ''idle_notification''"
| "work_source_display InterruptedNotification = ''interrupted_notification''"
| "work_source_display ShutdownRejected = ''shutdown_rejected''"
| "work_source_display RecoveryDrain = ''recovery_drain''"

text \<open>
  The lanes are served in the order Foreground, Control, Background; the order of the type
  is that order of service.
\<close>

fun lane_index :: "work_priority \<Rightarrow> nat" where
  "lane_index Foreground = 0"
| "lane_index Control = 1"
| "lane_index Background = 2"

lemma all_priority: "(\<forall>p. P p) \<longleftrightarrow> P Foreground \<and> P Control \<and> P Background"
  using work_priority.induct [of P] by blast

lemma ex_priority: "(\<exists>p. P p) \<longleftrightarrow> P Foreground \<or> P Control \<or> P Background"
  using all_priority [of "\<lambda>p. \<not> P p"] by blast

lemma lane_index_inj: "lane_index p = lane_index q \<longleftrightarrow> p = q"
  by (cases p; cases q) auto

instantiation work_priority :: linorder
begin

definition less_eq_work_priority :: "work_priority \<Rightarrow> work_priority \<Rightarrow> bool" where
  "p \<le> q \<longleftrightarrow> lane_index p \<le> lane_index q"

definition less_work_priority :: "work_priority \<Rightarrow> work_priority \<Rightarrow> bool" where
  "p < q \<longleftrightarrow> lane_index p < lane_index q"

instance
  by standard
    (auto simp: less_eq_work_priority_def less_work_priority_def lane_index_inj)

end


section \<open>Constraints, phases and intents\<close>

datatype runtime_constraint =
    RcReady
  | RcStarting u64
  | RcFailed u64 string
  | RcRemoving u64
  | RcSessionStopped

datatype slot_phase = PhIdle | PhQueued | PhStarting | PhRunning | PhPaused | PhBlocked

datatype work_intent_state =
    Queued
  | Starting id u64
  | Running id u64 id
  | Completed
  | Failed string
  | Cancelled string

fun is_terminal :: "work_intent_state \<Rightarrow> bool" where
  "is_terminal Completed = True"
| "is_terminal (Failed _) = True"
| "is_terminal (Cancelled _) = True"
| "is_terminal _ = False"

fun is_in_flight :: "work_intent_state \<Rightarrow> bool" where
  "is_in_flight (Starting _ _) = True"
| "is_in_flight (Running _ _ _) = True"
| "is_in_flight _ = False"

fun is_cancelled :: "work_intent_state \<Rightarrow> bool" where
  "is_cancelled (Cancelled _) = True"
| "is_cancelled _ = False"

fun is_failed :: "work_intent_state \<Rightarrow> bool" where
  "is_failed (Failed _) = True"
| "is_failed _ = False"

lemma intent_state_cases3:
  "s = Queued \<or> is_in_flight s \<or> is_terminal s"
  by (cases s) auto

lemma in_flight_not_terminal [simp]: "is_in_flight s \<Longrightarrow> \<not> is_terminal s"
  by (cases s) auto

lemma not_terminal_iff: "\<not> is_terminal s \<longleftrightarrow> s = Queued \<or> is_in_flight s"
  by (cases s) auto

lemma is_cancelled_iff: "is_cancelled s \<longleftrightarrow> (\<exists>c. s = Cancelled c)"
  by (cases s) auto

record work_intent =
  wi_intent_id :: id
  wi_session_generation :: id
  wi_slot_id :: id
  wi_role :: target_role
  wi_source :: work_source
  wi_priority :: work_priority
  wi_mailbox_message_id :: "id option"
  wi_team_run_id :: "id option"
  wi_created_at_ms :: timestamp_ms
  wi_state :: work_intent_state


section \<open>Requests, leases and batches\<close>

datatype causal_binding =
    UserVisible
  | InheritRunningBatch id
  | ActiveRunOrBackground
  | BackgroundBinding
  | SystemInitiated "id option"

record enqueue_request =
  er_slot_id :: id
  er_role :: target_role
  er_source :: work_source
  er_binding :: causal_binding

record enqueue_lease =
  el_lease_id :: id
  el_session_generation :: id
  el_slot_id :: id
  el_role :: target_role
  el_source :: work_source
  el_team_run_id :: "id option"

record work_batch =
  wb_batch_id :: id
  wb_session_generation :: id
  wb_slot_id :: id
  wb_intent_ids :: "id list"
  wb_mailbox_message_ids :: "id list"
  wb_highest_priority :: work_priority
  wb_team_run_ids :: "id list"
  wb_operation_id :: u64
  wb_is_command :: bool

datatype reconcile_decision =
    Claim work_batch
  | WaitingForCompletion
  | Blocked runtime_constraint
  | SettleSignals "id list"
  | Quiescent

datatype commit_result = Committed | StaleOwner | Rejected

datatype start_commit_result = StartAccepted | CancelImmediately | StartStaleOwner

datatype enqueue_disposition = EnqAccepted | EnqQueued | BlockedRuntimeStarting


section \<open>Reports\<close>

record slot_work_snapshot =
  sn_slot_id :: id
  sn_role :: target_role
  sn_state :: slot_phase
  sn_queued_foreground_count :: nat
  sn_queued_background_count :: nat
  sn_active_batch :: "work_batch option"
  sn_active_turn_id :: "id option"
  sn_active_turn_started_at_ms :: "timestamp_ms option"
  sn_runtime_constraint :: runtime_constraint
  sn_team_run_id :: "id option"

record enqueue_commit =
  ec_intent_id :: id
  ec_team_run_id :: "id option"
  ec_disposition :: enqueue_disposition
  ec_slot :: slot_work_snapshot

record run_work_summary =
  rs_team_run_id :: id
  rs_queued_intent_count :: nat
  rs_starting_batch_count :: nat
  rs_running_batch_count :: nat
  rs_active_enqueue_lease_count :: nat
  rs_paused_intent_count :: nat
  rs_failed_intent_count :: nat
  rs_slots :: "slot_work_snapshot list"

record coordinator_snapshot =
  cn_session_generation :: id
  cn_slots :: "slot_work_snapshot list"
  cn_active_run_summary :: "run_work_summary option"

record reconcile_projection =
  rp_created_recovery_intent_ids :: "id list"
  rp_retained_intent_ids :: "id list"
  rp_cleared_stale_intent_ids :: "id list"

record batch_cancel_target =
  bc_batch :: work_batch
  bc_turn_id :: "id option"

record pause_work_result =
  pw_cancel_target :: "batch_cancel_target option"
  pw_slot :: slot_work_snapshot

record remove_work_result =
  rw_cancel_target :: "batch_cancel_target option"
  rw_terminal_message_ids :: "id list"
  rw_affected_run_summaries :: "run_work_summary list"

record cancel_run_work_result =
  cr_cancel_targets :: "batch_cancel_target list"
  cr_terminal_message_ids :: "id list"
  cr_summary :: run_work_summary

record runtime_constraint_update =
  ru_slot :: slot_work_snapshot
  ru_terminal_message_ids :: "id list"
  ru_affected_run_summaries :: "run_work_summary list"

record run_binding =
  rb_team_run_id :: "id option"
  rb_created_new_run :: bool
  rb_user_intervention :: bool

text \<open>The trait \<open>RunCausalityPort\<close>: the methods of an object whose state is a \<open>'p\<close>.\<close>

record 'p run_causality_port =
  port_bind_enqueue :: "env \<Rightarrow> enqueue_request \<Rightarrow> 'p \<Rightarrow> run_binding \<times> 'p"
  port_bind_system_enqueue :: "env \<Rightarrow> enqueue_request \<Rightarrow> 'p \<Rightarrow> run_binding \<times> 'p"
  port_abort_binding :: "run_binding \<Rightarrow> 'p \<Rightarrow> 'p"
  port_apply_work_summary :: "env \<Rightarrow> run_work_summary \<Rightarrow> 'p \<Rightarrow> 'p"
  port_publish_slot_work :: "env \<Rightarrow> slot_work_snapshot \<Rightarrow> 'p \<Rightarrow> 'p"


section \<open>Errors\<close>

text \<open>\<open>TeamError\<close>; the payloads of the two foreign variants are their rendered text.\<close>

datatype team_error =
    TeamNotFound string
  | AgentNotFound string
  | TaskNotFound string
  | InvalidRequest string
  | LeaderOnly string
  | Forbidden string
  | SessionNotFound string
  | BlockedTaskNotFound string
  | BackendNotAllowed string
  | DuplicateAgentName string
  | RuntimeNotReady string
  | MemberRuntimeFailed string string string string
  | WorkspacePathUnavailable string
  | WorkspacePathRuntimeUnavailable string
  | DatabaseError string
  | JsonError string

end
