(* ===== verification/Work_State.thy ===== *)
theory Work_State
  imports Work_Model
begin

text \<open>
  The state of the work coordinator (\<open>work_coordinator/coordinator.rs\<close>, the structs and
  \<open>impl SlotState\<close>) and the projections that read it (\<open>work_coordinator/snapshot.rs\<close>):
  the snapshot of a slot, the summary of a run, the set of runs with work.
\<close>

section \<open>Slots and the coordinator's state\<close>

record enqueue_lease_record =
  lr_lease :: enqueue_lease
  lr_binding :: run_binding

record active_batch =
  ab_batch :: work_batch
  ab_turn_id :: "id option"
  ab_started_at_ms :: "timestamp_ms option"

record slot_state =
  sl_role :: target_role
  sl_foreground :: "id list"
  sl_control :: "id list"
  sl_background :: "id list"
  sl_active :: "active_batch option"
  sl_paused :: bool
  sl_runtime_constraint :: runtime_constraint
  sl_known_unread_message_ids :: "id set"
  sl_removed :: bool

record coordinator_state =
  cs_slots :: "(id, slot_state) btree_map"
  cs_intents :: "(id, work_intent) hash_map"
  cs_enqueue_leases :: "(id, enqueue_lease_record) hash_map"
  cs_next_operation_id :: u64

record 'p slot_work_coordinator =
  co_team_id :: id
  co_session_generation :: id
  co_run_causality :: 'p
  co_state :: coordinator_state

definition coordinator_state_default :: coordinator_state where
  "coordinator_state_default =
     \<lparr>cs_slots = [], cs_intents = [], cs_enqueue_leases = [], cs_next_operation_id = 0\<rparr>"

definition coordinator_new :: "id \<Rightarrow> id \<Rightarrow> 'p \<Rightarrow> 'p slot_work_coordinator" where
  "coordinator_new team generation port =
     \<lparr>co_team_id = team, co_session_generation = generation, co_run_causality = port,
      co_state = coordinator_state_default\<rparr>"

definition slot_state_new :: "target_role \<Rightarrow> slot_state" where
  "slot_state_new role =
     \<lparr>sl_role = role, sl_foreground = [], sl_control = [], sl_background = [],
      sl_active = None, sl_paused = False, sl_runtime_constraint = RcStarting 0,
      sl_known_unread_message_ids = {}, sl_removed = False\<rparr>"

fun slot_queue :: "work_priority \<Rightarrow> slot_state \<Rightarrow> id list" where
  "slot_queue Foreground sl = sl_foreground sl"
| "slot_queue Control sl = sl_control sl"
| "slot_queue Background sl = sl_background sl"

fun slot_queue_mut :: "work_priority \<Rightarrow> (id list \<Rightarrow> id list) \<Rightarrow> slot_state \<Rightarrow> slot_state" where
  "slot_queue_mut Foreground f sl = sl\<lparr>sl_foreground := f (sl_foreground sl)\<rparr>"
| "slot_queue_mut Control f sl = sl\<lparr>sl_control := f (sl_control sl)\<rparr>"
| "slot_queue_mut Background f sl = sl\<lparr>sl_background := f (sl_background sl)\<rparr>"

definition queued_ids :: "slot_state \<Rightarrow> id list" where
  "queued_ids sl = sl_foreground sl @ sl_control sl @ sl_background sl"

definition remove_queued :: "id \<Rightarrow> slot_state \<Rightarrow> slot_state" where
  "remove_queued intent sl =
     sl\<lparr>sl_foreground := filter (\<lambda>c. c \<noteq> intent) (sl_foreground sl),
        sl_control := filter (\<lambda>c. c \<noteq> intent) (sl_control sl),
        sl_background := filter (\<lambda>c. c \<noteq> intent) (sl_background sl)\<rparr>"

text \<open>\<open>VecDeque::push_back\<close> and \<open>push_front\<close> on the lane of a priority.\<close>

definition queue_push_back :: "work_priority \<Rightarrow> id \<Rightarrow> slot_state \<Rightarrow> slot_state" where
  "queue_push_back p x = slot_queue_mut p (\<lambda>q. q @ [x])"

definition queue_push_front :: "work_priority \<Rightarrow> id \<Rightarrow> slot_state \<Rightarrow> slot_state" where
  "queue_push_front p x = slot_queue_mut p (\<lambda>q. x # q)"

definition clear_slot_work :: "slot_state \<Rightarrow> slot_state" where
  "clear_slot_work sl =
     sl\<lparr>sl_foreground := [], sl_control := [], sl_background := [], sl_active := None\<rparr>"

definition active_ids :: "slot_state \<Rightarrow> id list" where
  "active_ids sl = (case sl_active sl of None \<Rightarrow> [] | Some a \<Rightarrow> wb_intent_ids (ab_batch a))"

abbreviation intent_of :: "coordinator_state \<Rightarrow> id \<Rightarrow> work_intent option" where
  "intent_of st \<equiv> map_of (cs_intents st)"

abbreviation slot_of :: "coordinator_state \<Rightarrow> id \<Rightarrow> slot_state option" where
  "slot_of st \<equiv> map_of (cs_slots st)"

abbreviation lease_of :: "coordinator_state \<Rightarrow> id \<Rightarrow> enqueue_lease_record option" where
  "lease_of st \<equiv> map_of (cs_enqueue_leases st)"

abbreviation intents :: "coordinator_state \<Rightarrow> work_intent list" where
  "intents st \<equiv> hm_values (cs_intents st)"

abbreviation leases :: "coordinator_state \<Rightarrow> enqueue_lease_record list" where
  "leases st \<equiv> hm_values (cs_enqueue_leases st)"

definition set_intent_state ::
  "id \<Rightarrow> work_intent_state \<Rightarrow> (id, work_intent) hash_map \<Rightarrow> (id, work_intent) hash_map" where
  "set_intent_state k s = hm_modify k (\<lambda>i. i\<lparr>wi_state := s\<rparr>)"

definition set_intent_states ::
  "id list \<Rightarrow> work_intent_state \<Rightarrow> (id, work_intent) hash_map \<Rightarrow> (id, work_intent) hash_map" where
  "set_intent_states ks s = fold (\<lambda>k. set_intent_state k s) ks"

definition modify_slot :: "id \<Rightarrow> (slot_state \<Rightarrow> slot_state) \<Rightarrow> coordinator_state \<Rightarrow> coordinator_state" where
  "modify_slot s f st = st\<lparr>cs_slots := hm_modify s f (cs_slots st)\<rparr>"

definition slot_or_new :: "id \<Rightarrow> target_role \<Rightarrow> coordinator_state \<Rightarrow> slot_state" where
  "slot_or_new s role st = (case slot_of st s of Some sl \<Rightarrow> sl | None \<Rightarrow> slot_state_new role)"

definition put_slot :: "id \<Rightarrow> slot_state \<Rightarrow> coordinator_state \<Rightarrow> coordinator_state" where
  "put_slot s sl st = st\<lparr>cs_slots := bt_insert s sl (cs_slots st)\<rparr>"

section \<open>Snapshots and summaries\<close>

definition slot_phase_of :: "slot_state \<Rightarrow> slot_phase" where
  "slot_phase_of sl =
     (let active_batch = map_option ab_batch (sl_active sl);
          active_turn_id = Option.bind (sl_active sl) ab_turn_id
      in if sl_paused sl then PhPaused
         else if active_turn_id \<noteq> None then PhRunning
         else if active_batch \<noteq> None then PhStarting
         else if sl_runtime_constraint sl \<noteq> RcReady then PhBlocked
         else if queued_ids sl \<noteq> [] then PhQueued
         else PhIdle)"

text \<open>The snapshot of a slot whose entry has been looked up, and of a slot by its key.\<close>

definition snapshot_of_slot :: "coordinator_state \<Rightarrow> id \<Rightarrow> slot_state \<Rightarrow> slot_work_snapshot" where
  "snapshot_of_slot st s sl =
     (let active_batch = map_option ab_batch (sl_active sl)
      in \<lparr>sn_slot_id = s, sn_role = sl_role sl, sn_state = slot_phase_of sl,
          sn_queued_foreground_count = length (sl_foreground sl),
          sn_queued_background_count = length (sl_control sl) + length (sl_background sl),
          sn_active_batch = active_batch,
          sn_active_turn_id = Option.bind (sl_active sl) ab_turn_id,
          sn_active_turn_started_at_ms = Option.bind (sl_active sl) ab_started_at_ms,
          sn_runtime_constraint = sl_runtime_constraint sl,
          sn_team_run_id =
            (case Option.bind active_batch (\<lambda>b. list_first (wb_team_run_ids b)) of
               Some r \<Rightarrow> Some r
             | None \<Rightarrow> find_map (\<lambda>k. Option.bind (intent_of st k) wi_team_run_id) (queued_ids sl))\<rparr>)"

definition slot_snapshot_locked :: "coordinator_state \<Rightarrow> id \<Rightarrow> slot_work_snapshot option" where
  "slot_snapshot_locked st s = map_option (snapshot_of_slot st s) (slot_of st s)"

fun starting_batch :: "work_intent_state \<Rightarrow> id option" where
  "starting_batch (Starting b _) = Some b"
| "starting_batch _ = None"

fun running_batch :: "work_intent_state \<Rightarrow> id option" where
  "running_batch (Running b _ _) = Some b"
| "running_batch _ = None"

definition run_intents :: "coordinator_state \<Rightarrow> id \<Rightarrow> work_intent list" where
  "run_intents st run = filter (\<lambda>i. wi_team_run_id i = Some run) (intents st)"

definition run_leases :: "coordinator_state \<Rightarrow> id \<Rightarrow> enqueue_lease_record list" where
  "run_leases st run = filter (\<lambda>r. el_team_run_id (lr_lease r) = Some run) (leases st)"

definition run_summary_locked :: "coordinator_state \<Rightarrow> id \<Rightarrow> run_work_summary" where
  "run_summary_locked st run =
     (let associated = run_intents st run;
          slot_ids = btree_set (map wi_slot_id associated
                       @ map (\<lambda>r. el_slot_id (lr_lease r)) (run_leases st run))
      in \<lparr>rs_team_run_id = run,
          rs_queued_intent_count = length (filter (\<lambda>i. wi_state i = Queued) associated),
          rs_starting_batch_count =
            length (remdups (filter_map (\<lambda>i. starting_batch (wi_state i)) associated)),
          rs_running_batch_count =
            length (remdups (filter_map (\<lambda>i. running_batch (wi_state i)) associated)),
          rs_active_enqueue_lease_count = length (run_leases st run),
          rs_paused_intent_count =
            length (filter (\<lambda>i. wi_state i = Queued \<and>
              (case slot_of st (wi_slot_id i) of None \<Rightarrow> False | Some sl \<Rightarrow> sl_paused sl)) associated),
          rs_failed_intent_count = length (filter (\<lambda>i. is_failed (wi_state i)) associated),
          rs_slots = filter_map (slot_snapshot_locked st) slot_ids\<rparr>)"

definition run_summaries_locked :: "coordinator_state \<Rightarrow> id list \<Rightarrow> run_work_summary list" where
  "run_summaries_locked st runs = map (run_summary_locked st) (btree_set runs)"

definition all_run_ids :: "coordinator_state \<Rightarrow> id list" where
  "all_run_ids st =
     btree_set (filter_map wi_team_run_id (intents st)
       @ filter_map (\<lambda>r. el_team_run_id (lr_lease r)) (leases st))"

definition no_work :: "run_work_summary \<Rightarrow> bool" where
  "no_work s \<longleftrightarrow>
     rs_queued_intent_count s = 0 \<and> rs_starting_batch_count s = 0 \<and>
     rs_running_batch_count s = 0 \<and> rs_active_enqueue_lease_count s = 0 \<and>
     rs_paused_intent_count s = 0"

definition coordinator_snapshot_of :: "'p slot_work_coordinator \<Rightarrow> coordinator_snapshot" where
  "coordinator_snapshot_of c =
     \<lparr>cn_session_generation = co_session_generation c,
      cn_slots = filter_map (slot_snapshot_locked (co_state c)) (hm_keys (cs_slots (co_state c))),
      cn_active_run_summary =
        List.find (\<lambda>s. rs_queued_intent_count s > 0 \<or> rs_starting_batch_count s > 0 \<or>
                       rs_running_batch_count s > 0 \<or> rs_active_enqueue_lease_count s > 0 \<or>
                       rs_paused_intent_count s > 0)
          (map (run_summary_locked (co_state c)) (all_run_ids (co_state c)))\<rparr>"

text \<open>Publishing, done after the state lock is released.\<close>

definition publish_run_summaries ::
  "'p run_causality_port \<Rightarrow> env \<Rightarrow> run_work_summary list \<Rightarrow> 'p \<Rightarrow> 'p" where
  "publish_run_summaries P e summaries = fold (port_apply_work_summary P e) summaries"

definition publish_slot_work_snapshot ::
  "'p run_causality_port \<Rightarrow> env \<Rightarrow> slot_work_snapshot option \<Rightarrow> 'p \<Rightarrow> 'p" where
  "publish_slot_work_snapshot P e snapshot port =
     (case snapshot of None \<Rightarrow> port | Some s \<Rightarrow> port_publish_slot_work P e s port)"

section \<open>Lemmas on slots and states\<close>

named_theorems slot_simps \<open>lanes of an updated slot\<close>

lemma slot_queue_mut_queue [simp, slot_simps]:
  "slot_queue p (slot_queue_mut q f sl) = (if p = q then f (slot_queue q sl) else slot_queue p sl)"
  by (cases p; cases q) auto

lemma slot_queue_mut_frame [simp, slot_simps]:
  "sl_active (slot_queue_mut q f sl) = sl_active sl"
  "sl_paused (slot_queue_mut q f sl) = sl_paused sl"
  "sl_role (slot_queue_mut q f sl) = sl_role sl"
  "sl_removed (slot_queue_mut q f sl) = sl_removed sl"
  "sl_runtime_constraint (slot_queue_mut q f sl) = sl_runtime_constraint sl"
  by (cases q; simp)+

lemma slot_queue_push [simp, slot_simps]:
  "slot_queue p (queue_push_back q x sl) = (if p = q then slot_queue q sl @ [x] else slot_queue p sl)"
  "slot_queue p (queue_push_front q x sl) = (if p = q then x # slot_queue q sl else slot_queue p sl)"
  by (simp_all add: queue_push_back_def queue_push_front_def)

lemma queue_push_frame [simp, slot_simps]:
  "sl_active (queue_push_back q x sl) = sl_active sl"
  "sl_active (queue_push_front q x sl) = sl_active sl"
  "sl_paused (queue_push_back q x sl) = sl_paused sl"
  "sl_paused (queue_push_front q x sl) = sl_paused sl"
  "sl_removed (queue_push_back q x sl) = sl_removed sl"
  "sl_removed (queue_push_front q x sl) = sl_removed sl"
  "sl_runtime_constraint (queue_push_back q x sl) = sl_runtime_constraint sl"
  "sl_runtime_constraint (queue_push_front q x sl) = sl_runtime_constraint sl"
  by (simp_all add: queue_push_back_def queue_push_front_def)

lemma slot_queue_remove [simp, slot_simps]:
  "slot_queue p (remove_queued x sl) = filter (\<lambda>c. c \<noteq> x) (slot_queue p sl)"
  by (cases p) (simp_all add: remove_queued_def)

lemma remove_queued_frame [simp, slot_simps]:
  "sl_active (remove_queued x sl) = sl_active sl"
  "sl_paused (remove_queued x sl) = sl_paused sl"
  "sl_removed (remove_queued x sl) = sl_removed sl"
  "sl_runtime_constraint (remove_queued x sl) = sl_runtime_constraint sl"
  by (simp_all add: remove_queued_def)

lemma slot_queue_clear [simp, slot_simps]: "slot_queue p (clear_slot_work sl) = []"
  by (cases p) (simp_all add: clear_slot_work_def)

lemma clear_slot_work_frame [simp, slot_simps]:
  "sl_active (clear_slot_work sl) = None"
  "sl_paused (clear_slot_work sl) = sl_paused sl"
  "sl_removed (clear_slot_work sl) = sl_removed sl"
  "sl_runtime_constraint (clear_slot_work sl) = sl_runtime_constraint sl"
  by (simp_all add: clear_slot_work_def)

lemma slot_queue_new [simp, slot_simps]: "slot_queue p (slot_state_new r) = []"
  by (cases p) (simp_all add: slot_state_new_def)

lemma slot_state_new_frame [simp, slot_simps]:
  "sl_active (slot_state_new r) = None"
  "sl_removed (slot_state_new r) = False"
  "sl_paused (slot_state_new r) = False"
  "sl_runtime_constraint (slot_state_new r) = RcStarting 0"
  by (simp_all add: slot_state_new_def)

lemma slot_queue_frame [simp, slot_simps]:
  "slot_queue p (sl\<lparr>sl_role := r\<rparr>) = slot_queue p sl"
  "slot_queue p (sl\<lparr>sl_active := a\<rparr>) = slot_queue p sl"
  "slot_queue p (sl\<lparr>sl_paused := b\<rparr>) = slot_queue p sl"
  "slot_queue p (sl\<lparr>sl_runtime_constraint := c\<rparr>) = slot_queue p sl"
  "slot_queue p (sl\<lparr>sl_known_unread_message_ids := u\<rparr>) = slot_queue p sl"
  "slot_queue p (sl\<lparr>sl_removed := b\<rparr>) = slot_queue p sl"
  by (cases p; simp)+

lemma slot_queue_fold_remove [simp, slot_simps]:
  "slot_queue p (fold remove_queued xs sl) = filter (\<lambda>c. c \<notin> set xs) (slot_queue p sl)"
  by (induction xs arbitrary: sl) (auto intro: filter_cong)

lemma fold_remove_queued_frame [simp, slot_simps]:
  "sl_active (fold remove_queued xs sl) = sl_active sl"
  "sl_paused (fold remove_queued xs sl) = sl_paused sl"
  "sl_removed (fold remove_queued xs sl) = sl_removed sl"
  "sl_runtime_constraint (fold remove_queued xs sl) = sl_runtime_constraint sl"
  by (induction xs arbitrary: sl) auto

lemma in_queued_ids: "x \<in> set (queued_ids sl) \<longleftrightarrow> (\<exists>p. x \<in> set (slot_queue p sl))"
  by (simp add: ex_priority queued_ids_def)

lemma queued_ids_Nil: "queued_ids sl = [] \<longleftrightarrow> (\<forall>p. slot_queue p sl = [])"
  by (simp add: all_priority queued_ids_def)

lemma active_ids_simps [simp]:
  "sl_active sl = None \<Longrightarrow> active_ids sl = []"
  "sl_active sl = Some a \<Longrightarrow> active_ids sl = wb_intent_ids (ab_batch a)"
  by (simp_all add: active_ids_def)

lemma map_of_set_intent_state [simp, hmap_simps]:
  "map_of (set_intent_state k s m) x =
     (if x = k then map_option (\<lambda>i. i\<lparr>wi_state := s\<rparr>) (map_of m x) else map_of m x)"
  by (simp add: set_intent_state_def)

lemma map_of_set_intent_states [simp, hmap_simps]:
  "map_of (set_intent_states ks s m) x =
     (if x \<in> set ks then map_option (\<lambda>i. i\<lparr>wi_state := s\<rparr>) (map_of m x) else map_of m x)"
  unfolding set_intent_states_def set_intent_state_def
  by (rule map_of_fold_hm_modify) simp

lemma hm_keys_set_intent_state [simp, hmap_simps]:
  "hm_keys (set_intent_state k s m) = hm_keys m"
  "hm_keys (set_intent_states ks s m) = hm_keys m"
  by (simp_all only: set_intent_states_def set_intent_state_def hm_keys_modify hm_keys_fold_hm_modify)

lemma modify_slot_simps [simp]:
  "cs_intents (modify_slot s f st) = cs_intents st"
  "cs_enqueue_leases (modify_slot s f st) = cs_enqueue_leases st"
  "cs_next_operation_id (modify_slot s f st) = cs_next_operation_id st"
  "slot_of (modify_slot s f st) x = (if x = s then map_option f (slot_of st x) else slot_of st x)"
  "hm_keys (cs_slots (modify_slot s f st)) = hm_keys (cs_slots st)"
  by (simp_all add: modify_slot_def del: map_map)

lemma put_slot_simps [simp]:
  "cs_intents (put_slot s sl st) = cs_intents st"
  "cs_enqueue_leases (put_slot s sl st) = cs_enqueue_leases st"
  "cs_next_operation_id (put_slot s sl st) = cs_next_operation_id st"
  "slot_of (put_slot s sl st) = (slot_of st)(s \<mapsto> sl)"
  by (simp_all add: put_slot_def)

lemma slot_snapshot_locked_is_Some:
  "slot_snapshot_locked st s \<noteq> None \<longleftrightarrow> slot_of st s \<noteq> None"
  by (simp add: slot_snapshot_locked_def)

end
