(* ===== verification/Work_Coordinator.thy ===== *)
theory Work_Coordinator
  imports Work_State
begin

text \<open>
  The operations of \<open>SlotWorkCoordinator\<close> (\<open>work_coordinator/coordinator.rs\<close>). Each one
  takes the state lock, updates the state, releases the lock and then publishes run summaries
  and a slot snapshot through the port. The critical section of an operation \<open>op\<close> is the
  function \<open>op_locked\<close> on the coordinator's state; \<open>op\<close> adds the publishing.

  An \<open>expect\<close> on a map entry that the same critical section has just looked up or stored is
  modelled by that entry; an \<open>expect\<close> that rests on an invariant between the maps, and an
  \<open>unreachable!\<close> arm, is the panic \<open>None\<close>. Logging is not modelled.
\<close>

definition release_and_publish ::
  "'p run_causality_port \<Rightarrow> env \<Rightarrow> run_work_summary list \<Rightarrow> slot_work_snapshot option \<Rightarrow>
   coordinator_state \<Rightarrow> 'p slot_work_coordinator \<Rightarrow> 'p slot_work_coordinator" where
  "release_and_publish P e summaries snapshot st c =
     c\<lparr>co_state := st,
       co_run_causality := publish_slot_work_snapshot P e snapshot
         (publish_run_summaries P e summaries (co_run_causality c))\<rparr>"

section \<open>Enqueueing: acquire, commit, abort\<close>

definition validate_enqueue_constraint :: "id \<Rightarrow> slot_state \<Rightarrow> team_error + unit" where
  "validate_enqueue_constraint s sl =
     (if sl_removed sl then Inl (InvalidRequest (''Team slot was removed: '' @ s))
      else case sl_runtime_constraint sl of
        RcReady \<Rightarrow> Inr ()
      | RcStarting _ \<Rightarrow> Inr ()
      | RcFailed _ cl \<Rightarrow>
          Inl (InvalidRequest (''Team slot runtime failed ('' @ cl @ ''): '' @ s))
      | RcRemoving _ \<Rightarrow> Inl (InvalidRequest (''Team slot is being removed: '' @ s))
      | RcSessionStopped \<Rightarrow> Inl (InvalidRequest (''Team session stopped for slot: '' @ s)))"

definition plain_binding :: "id option \<Rightarrow> run_binding" where
  "plain_binding run =
     \<lparr>rb_team_run_id = run, rb_created_new_run = False, rb_user_intervention = False\<rparr>"

text \<open>The first run of the batch the caller's slot is executing.\<close>

definition inherited_run :: "coordinator_state \<Rightarrow> id \<Rightarrow> id option" where
  "inherited_run st caller =
     Option.bind (slot_of st caller)
       (\<lambda>sl. Option.bind (sl_active sl) (\<lambda>a. list_first (wb_team_run_ids (ab_batch a))))"

definition resolve_binding ::
  "'p run_causality_port \<Rightarrow> env \<Rightarrow> enqueue_request \<Rightarrow> coordinator_state \<Rightarrow> 'p \<Rightarrow> run_binding \<times> 'p" where
  "resolve_binding P e req st port =
     (case er_binding req of
        BackgroundBinding \<Rightarrow> (plain_binding None, port)
      | InheritRunningBatch caller \<Rightarrow>
          (case inherited_run st caller of
             Some r \<Rightarrow> (plain_binding (Some r), port)
           | None \<Rightarrow> port_bind_system_enqueue P e req port)
      | UserVisible \<Rightarrow> port_bind_enqueue P e req port
      | ActiveRunOrBackground \<Rightarrow> port_bind_enqueue P e req port
      | SystemInitiated inherit_from \<Rightarrow>
          (case Option.bind inherit_from (inherited_run st) of
             Some r \<Rightarrow> (plain_binding (Some r), port)
           | None \<Rightarrow> port_bind_system_enqueue P e req port))"

text \<open>
  The port may draw the identifier \<open>env_id e 0\<close> for a new run; the lease is \<open>env_id e 1\<close>.
  A slot seen for the first time is created before its constraint is checked.
\<close>

definition acquire_enqueue ::
  "'p run_causality_port \<Rightarrow> env \<Rightarrow> enqueue_request \<Rightarrow> 'p slot_work_coordinator \<Rightarrow>
   (team_error + enqueue_lease) \<times> 'p slot_work_coordinator" where
  "acquire_enqueue P e req c =
     (let s = er_slot_id req;
          sl = (slot_or_new s (er_role req) (co_state c))\<lparr>sl_role := er_role req\<rparr>;
          st = put_slot s sl (co_state c)
      in case validate_enqueue_constraint s sl of
           Inl err \<Rightarrow> (Inl err, c\<lparr>co_state := st\<rparr>)
         | Inr _ \<Rightarrow>
             (let (binding, port) = resolve_binding P e req st (co_run_causality c);
                  lease = \<lparr>el_lease_id = env_id e 1,
                           el_session_generation = co_session_generation c,
                           el_slot_id = s, el_role = er_role req, el_source = er_source req,
                           el_team_run_id = rb_team_run_id binding\<rparr>
              in (Inr lease,
                  c\<lparr>co_state := st\<lparr>cs_enqueue_leases :=
                       hm_insert (el_lease_id lease) \<lparr>lr_lease = lease, lr_binding = binding\<rparr>
                         (cs_enqueue_leases st)\<rparr>,
                    co_run_causality := port\<rparr>)))"

definition commit_disposition :: "slot_state \<Rightarrow> enqueue_disposition may_panic" where
  "commit_disposition sl =
     (case sl_runtime_constraint sl of
        RcStarting _ \<Rightarrow> Some BlockedRuntimeStarting
      | RcReady \<Rightarrow> Some (if sl_active sl = None \<and> queued_ids sl = [] then EnqAccepted else EnqQueued)
      | _ \<Rightarrow> None)"

definition committed_slot :: "enqueue_lease \<Rightarrow> id option \<Rightarrow> id \<Rightarrow> slot_state \<Rightarrow> slot_state" where
  "committed_slot lease message intent sl =
     (let sl1 = (if resumes_paused_slot (el_source lease) then sl\<lparr>sl_paused := False\<rparr> else sl);
          sl2 = (case message of None \<Rightarrow> sl1
                 | Some m \<Rightarrow> sl1\<lparr>sl_known_unread_message_ids :=
                                insert m (sl_known_unread_message_ids sl1)\<rparr>)
      in queue_push_back (source_priority (el_source lease)) intent sl2)"

definition committed_intent :: "id \<Rightarrow> env \<Rightarrow> enqueue_lease \<Rightarrow> id option \<Rightarrow> work_intent" where
  "committed_intent generation e lease message =
     \<lparr>wi_intent_id = env_id e 0, wi_session_generation = generation,
      wi_slot_id = el_slot_id lease, wi_role = el_role lease, wi_source = el_source lease,
      wi_priority = source_priority (el_source lease), wi_mailbox_message_id = message,
      wi_team_run_id = el_team_run_id lease, wi_created_at_ms = env_now e, wi_state = Queued\<rparr>"

definition commit_enqueue_locked ::
  "id \<Rightarrow> env \<Rightarrow> enqueue_lease \<Rightarrow> id option \<Rightarrow> coordinator_state \<Rightarrow>
   (team_error + enqueue_commit \<times> run_work_summary list \<times> coordinator_state) may_panic" where
  "commit_enqueue_locked generation e lease message st =
     (case lease_of st (el_lease_id lease) of
        None \<Rightarrow> Some (Inl (InvalidRequest ''enqueue lease is no longer active''))
      | Some record \<Rightarrow>
          if lr_lease record \<noteq> lease \<or> el_session_generation lease \<noteq> generation
          then Some (Inl (InvalidRequest ''stale enqueue lease owner''))
          else if requires_mailbox_message (el_source lease) \<and> message = None
          then Some (Inl (InvalidRequest
                 (work_source_debug (el_source lease) @ '' requires a mailbox message'')))
          else case slot_of st (el_slot_id lease) of
            None \<Rightarrow> Some (Inl (AgentNotFound (el_slot_id lease)))
          | Some sl \<Rightarrow>
              (case validate_enqueue_constraint (el_slot_id lease) sl of
                 Inl err \<Rightarrow> Some (Inl err)
               | Inr _ \<Rightarrow>
                   (case commit_disposition sl of
                      None \<Rightarrow> None
                    | Some disposition \<Rightarrow>
                        let intent = committed_intent generation e lease message;
                            k = wi_intent_id intent;
                            sl' = committed_slot lease message k sl;
                            st' = put_slot (el_slot_id lease) sl'
                              (st\<lparr>cs_enqueue_leases :=
                                   hm_remove (el_lease_id lease) (cs_enqueue_leases st),
                                 cs_intents := hm_insert k intent (cs_intents st)\<rparr>)
                        in Some (Inr (\<lparr>ec_intent_id = k, ec_team_run_id = el_team_run_id lease,
                             ec_disposition = disposition,
                             ec_slot = snapshot_of_slot st' (el_slot_id lease) sl'\<rparr>,
                           run_summaries_locked st' (option_list (el_team_run_id lease)), st')))))"

definition commit_enqueue ::
  "'p run_causality_port \<Rightarrow> env \<Rightarrow> enqueue_lease \<Rightarrow> id option \<Rightarrow> 'p slot_work_coordinator \<Rightarrow>
   ((team_error + enqueue_commit) \<times> 'p slot_work_coordinator) may_panic" where
  "commit_enqueue P e lease message c =
     (case commit_enqueue_locked (co_session_generation c) e lease message (co_state c) of
        None \<Rightarrow> None
      | Some (Inl err) \<Rightarrow> Some (Inl err, c)
      | Some (Inr (commit, summaries, st)) \<Rightarrow>
          Some (Inr commit, release_and_publish P e summaries (Some (ec_slot commit)) st c))"

text \<open>Whether a run has neither an intent nor a lease.\<close>

definition run_is_empty :: "coordinator_state \<Rightarrow> id \<Rightarrow> bool" where
  "run_is_empty st run \<longleftrightarrow>
     (\<forall>i \<in> set (intents st). wi_team_run_id i \<noteq> Some run) \<and>
     (\<forall>r \<in> set (leases st). el_team_run_id (lr_lease r) \<noteq> Some run)"

definition abort_enqueue ::
  "'p run_causality_port \<Rightarrow> env \<Rightarrow> enqueue_lease \<Rightarrow> 'p slot_work_coordinator \<Rightarrow>
   commit_result \<times> 'p slot_work_coordinator" where
  "abort_enqueue P e lease c =
     (let st = co_state c in
      case lease_of st (el_lease_id lease) of
        None \<Rightarrow> (StaleOwner, c)
      | Some record \<Rightarrow>
          let st1 = st\<lparr>cs_enqueue_leases := hm_remove (el_lease_id lease) (cs_enqueue_leases st)\<rparr> in
          if lr_lease record \<noteq> lease \<or> el_session_generation lease \<noteq> co_session_generation c
          then (StaleOwner,
                c\<lparr>co_state := st1\<lparr>cs_enqueue_leases :=
                     hm_insert (el_lease_id (lr_lease record)) record (cs_enqueue_leases st1)\<rparr>\<rparr>)
          else
            let remove_empty_run =
                  (case el_team_run_id lease of None \<Rightarrow> False | Some r \<Rightarrow> run_is_empty st1 r);
                port = (if remove_empty_run
                        then port_abort_binding P (lr_binding record) (co_run_causality c)
                        else co_run_causality c)
            in (Committed,
                release_and_publish P e
                  (run_summaries_locked st1 (option_list (el_team_run_id lease)))
                  (slot_snapshot_locked st1 (el_slot_id lease)) st1
                  (c\<lparr>co_run_causality := port\<rparr>)))"

section \<open>Mailbox reconciliation\<close>

text \<open>
  The loop over the queued intents of the slot: those without a message or with an unread
  message are retained, the others are completed and cleared.
\<close>

fun reconcile_queued ::
  "id list \<Rightarrow> id list \<Rightarrow> (id, work_intent) hash_map \<Rightarrow>
   id list \<times> id list \<times> (id, work_intent) hash_map" where
  "reconcile_queued unread [] ins = ([], [], ins)"
| "reconcile_queued unread (k # ks) ins =
     (case map_of ins k of
        None \<Rightarrow> reconcile_queued unread ks ins
      | Some i \<Rightarrow>
          (case wi_mailbox_message_id i of
             None \<Rightarrow>
               (let (retained, cleared, ins') = reconcile_queued unread ks ins
                in (k # retained, cleared, ins'))
           | Some m \<Rightarrow>
               if m \<in> set unread then
                 (let (retained, cleared, ins') = reconcile_queued unread ks ins
                  in (k # retained, cleared, ins'))
               else
                 (let (retained, cleared, ins') =
                        reconcile_queued unread ks (set_intent_state k Completed ins)
                  in (retained, k # cleared, ins'))))"

definition recovery_intent :: "id \<Rightarrow> env \<Rightarrow> id \<Rightarrow> target_role \<Rightarrow> id \<Rightarrow> id \<Rightarrow> work_intent" where
  "recovery_intent generation e s role k message =
     \<lparr>wi_intent_id = k, wi_session_generation = generation, wi_slot_id = s, wi_role = role,
      wi_source = RecoveryDrain, wi_priority = Background,
      wi_mailbox_message_id = Some message, wi_team_run_id = None,
      wi_created_at_ms = env_now e, wi_state = Queued\<rparr>"

definition already_owned :: "coordinator_state \<Rightarrow> id \<Rightarrow> id \<Rightarrow> bool" where
  "already_owned st s message \<longleftrightarrow>
     (\<exists>i \<in> set (intents st). wi_slot_id i = s \<and> wi_mailbox_message_id i = Some message \<and>
        \<not> is_terminal (wi_state i))"

text \<open>
  The loop over the unread messages: a message no live intent of the slot owns gets a
  recovery intent. The third argument counts the identifiers drawn so far.
\<close>

fun recover_unread ::
  "id \<Rightarrow> env \<Rightarrow> id \<Rightarrow> target_role \<Rightarrow> nat \<Rightarrow> id list \<Rightarrow> coordinator_state \<Rightarrow>
   id list \<times> coordinator_state" where
  "recover_unread generation e s role n [] st = ([], st)"
| "recover_unread generation e s role n (m # ms) st =
     (if already_owned st s m then recover_unread generation e s role n ms st
      else
        let k = env_id e n;
            st1 = modify_slot s (queue_push_back Background k)
              (st\<lparr>cs_intents := hm_insert k (recovery_intent generation e s role k m) (cs_intents st)\<rparr>);
            (created, st2) = recover_unread generation e s role (Suc n) ms st1
        in (k # created, st2))"

definition reconcile_mailbox_locked ::
  "id \<Rightarrow> env \<Rightarrow> id \<Rightarrow> id list \<Rightarrow> target_role \<Rightarrow> coordinator_state \<Rightarrow>
   reconcile_projection \<times> coordinator_state" where
  "reconcile_mailbox_locked generation e s unread role st =
     (let sl = (slot_or_new s role st)\<lparr>sl_role := role, sl_known_unread_message_ids := set unread\<rparr>;
          st1 = put_slot s sl st;
          (retained, cleared, ins) = reconcile_queued unread (queued_ids sl) (cs_intents st1);
          st2 = modify_slot s (fold remove_queued cleared) (st1\<lparr>cs_intents := ins\<rparr>);
          (created, st3) = recover_unread generation e s role 0 unread st2
      in (\<lparr>rp_created_recovery_intent_ids = created, rp_retained_intent_ids = retained,
           rp_cleared_stale_intent_ids = cleared\<rparr>, st3))"

definition reconcile_mailbox ::
  "env \<Rightarrow> id \<Rightarrow> id list \<Rightarrow> target_role \<Rightarrow> 'p slot_work_coordinator \<Rightarrow>
   reconcile_projection \<times> 'p slot_work_coordinator" where
  "reconcile_mailbox e s unread role c =
     (let (projection, st) =
            reconcile_mailbox_locked (co_session_generation c) e s unread role (co_state c)
      in (projection, c\<lparr>co_state := st\<rparr>))"

section \<open>Claiming and running a batch\<close>

definition has_message :: "coordinator_state \<Rightarrow> id \<Rightarrow> bool" where
  "has_message st k =
     (case intent_of st k of None \<Rightarrow> False | Some i \<Rightarrow> wi_mailbox_message_id i \<noteq> None)"

definition is_command_intent :: "coordinator_state \<Rightarrow> id \<Rightarrow> bool" where
  "is_command_intent st k =
     (case intent_of st k of None \<Rightarrow> False | Some i \<Rightarrow> wi_source i = UserCommand)"

definition selected_priority :: "slot_state \<Rightarrow> work_priority option" where
  "selected_priority sl =
     List.find (\<lambda>p. slot_queue p sl \<noteq> []) [Foreground, Control, Background]"

text \<open>A command is claimed alone; plain messages are merged up to the first command.\<close>

definition claim_selection :: "coordinator_state \<Rightarrow> id \<Rightarrow> id list \<Rightarrow> id list \<times> bool" where
  "claim_selection st head fifo =
     (if is_command_intent st head then ([head], True)
      else (takeWhile (\<lambda>k. \<not> is_command_intent st k) fifo, False))"

definition claimed_batch ::
  "id \<Rightarrow> env \<Rightarrow> id \<Rightarrow> work_priority \<Rightarrow> id list \<Rightarrow> bool \<Rightarrow> coordinator_state \<Rightarrow> work_batch" where
  "claimed_batch generation e s p ks is_command st =
     \<lparr>wb_batch_id = env_id e 0, wb_session_generation = generation, wb_slot_id = s,
      wb_intent_ids = ks,
      wb_mailbox_message_ids =
        filter_map (\<lambda>k. Option.bind (intent_of st k) wi_mailbox_message_id) ks,
      wb_highest_priority = p,
      wb_team_run_ids =
        foldl push_new [] (filter_map (\<lambda>k. Option.bind (intent_of st k) wi_team_run_id) ks),
      wb_operation_id = saturating_add (cs_next_operation_id st) 1,
      wb_is_command = is_command\<rparr>"

definition claim_batch :: "work_batch \<Rightarrow> coordinator_state \<Rightarrow> coordinator_state" where
  "claim_batch b st =
     modify_slot (wb_slot_id b)
       (\<lambda>sl. (fold remove_queued (wb_intent_ids b) sl)
          \<lparr>sl_active := Some \<lparr>ab_batch = b, ab_turn_id = None, ab_started_at_ms = None\<rparr>\<rparr>)
       (st\<lparr>cs_next_operation_id := wb_operation_id b,
           cs_intents := set_intent_states (wb_intent_ids b)
             (Starting (wb_batch_id b) (wb_operation_id b)) (cs_intents st)\<rparr>)"

definition next_locked ::
  "id \<Rightarrow> env \<Rightarrow> id \<Rightarrow> coordinator_state \<Rightarrow> reconcile_decision \<times> coordinator_state" where
  "next_locked generation e s st =
     (case slot_of st s of
        None \<Rightarrow> (Quiescent, st)
      | Some sl \<Rightarrow>
          if sl_active sl \<noteq> None then (WaitingForCompletion, st)
          else if sl_runtime_constraint sl \<noteq> RcReady
          then (Blocked (sl_runtime_constraint sl), st)
          else if sl_paused sl then (Quiescent, st)
          else case selected_priority sl of
            None \<Rightarrow> (Quiescent, st)
          | Some p \<Rightarrow>
              (case filter (has_message st) (slot_queue p sl) of
                 [] \<Rightarrow> (SettleSignals (slot_queue p sl), st)
               | head # rest \<Rightarrow>
                   let (ks, is_command) = claim_selection st head (head # rest);
                       b = claimed_batch generation e s p ks is_command st
                   in (Claim b, claim_batch b st)))"

definition coordinator_next ::
  "'p run_causality_port \<Rightarrow> env \<Rightarrow> id \<Rightarrow> 'p slot_work_coordinator \<Rightarrow>
   reconcile_decision \<times> 'p slot_work_coordinator" where
  "coordinator_next P e s c =
     (case next_locked (co_session_generation c) e s (co_state c) of
        (Claim b, st) \<Rightarrow>
          (Claim b, release_and_publish P e (run_summaries_locked st (wb_team_run_ids b))
                      (slot_snapshot_locked st s) st c)
      | (decision, st) \<Rightarrow> (decision, c\<lparr>co_state := st\<rparr>))"

definition is_current_batch :: "id \<Rightarrow> coordinator_state \<Rightarrow> work_batch \<Rightarrow> bool" where
  "is_current_batch generation st b \<longleftrightarrow>
     wb_session_generation b = generation \<and>
     (case Option.bind (slot_of st (wb_slot_id b)) sl_active of
        None \<Rightarrow> False
      | Some a \<Rightarrow>
          wb_batch_id (ab_batch a) = wb_batch_id b \<and>
          wb_operation_id (ab_batch a) = wb_operation_id b \<and>
          wb_session_generation (ab_batch a) = wb_session_generation b)"

definition batch_was_cancelled :: "coordinator_state \<Rightarrow> work_batch \<Rightarrow> bool" where
  "batch_was_cancelled st b \<longleftrightarrow>
     (\<forall>k \<in> set (wb_intent_ids b).
        case intent_of st k of None \<Rightarrow> False | Some i \<Rightarrow> is_cancelled (wi_state i))"

definition start_batch :: "env \<Rightarrow> work_batch \<Rightarrow> id \<Rightarrow> coordinator_state \<Rightarrow> coordinator_state" where
  "start_batch e b turn st =
     modify_slot (wb_slot_id b)
       (\<lambda>sl. sl\<lparr>sl_active := map_option
          (\<lambda>a. a\<lparr>ab_turn_id := Some turn, ab_started_at_ms := Some (env_now e)\<rparr>) (sl_active sl)\<rparr>)
       (st\<lparr>cs_intents := set_intent_states (wb_intent_ids b)
             (Running (wb_batch_id b) (wb_operation_id b) turn) (cs_intents st)\<rparr>)"

definition mark_started_locked ::
  "id \<Rightarrow> env \<Rightarrow> work_batch \<Rightarrow> id \<Rightarrow> coordinator_state \<Rightarrow> start_commit_result \<times> coordinator_state" where
  "mark_started_locked generation e b turn st =
     (if \<not> is_current_batch generation st b
      then (if batch_was_cancelled st b then CancelImmediately else StartStaleOwner, st)
      else
        (if (case slot_of st (wb_slot_id b) of None \<Rightarrow> False
             | Some sl \<Rightarrow> sl_paused sl \<or> sl_runtime_constraint sl \<noteq> RcReady)
         then CancelImmediately else StartAccepted,
         start_batch e b turn st))"

definition mark_started ::
  "'p run_causality_port \<Rightarrow> env \<Rightarrow> work_batch \<Rightarrow> id \<Rightarrow> 'p slot_work_coordinator \<Rightarrow>
   start_commit_result \<times> 'p slot_work_coordinator" where
  "mark_started P e b turn c =
     (let (result, st) = mark_started_locked (co_session_generation c) e b turn (co_state c)
      in if is_current_batch (co_session_generation c) (co_state c) b
         then (result, release_and_publish P e (run_summaries_locked st (wb_team_run_ids b))
                 (slot_snapshot_locked st (wb_slot_id b)) st c)
         else (result, c))"

definition retry_start_locked ::
  "id \<Rightarrow> work_batch \<Rightarrow> coordinator_state \<Rightarrow> commit_result \<times> coordinator_state" where
  "retry_start_locked generation b st =
     (if \<not> is_current_batch generation st b then (StaleOwner, st)
      else
        (Committed,
         modify_slot (wb_slot_id b)
           (\<lambda>sl. foldr (queue_push_front (wb_highest_priority b)) (wb_intent_ids b)
              (sl\<lparr>sl_active := None\<rparr>))
           (st\<lparr>cs_intents := set_intent_states (wb_intent_ids b) Queued (cs_intents st)\<rparr>)))"

definition terminalize_batch_locked ::
  "id \<Rightarrow> work_batch \<Rightarrow> work_intent_state \<Rightarrow> coordinator_state \<Rightarrow>
   commit_result \<times> coordinator_state" where
  "terminalize_batch_locked generation b terminal_state st =
     (if \<not> is_current_batch generation st b then (StaleOwner, st)
      else
        (Committed,
         modify_slot (wb_slot_id b) (\<lambda>sl. sl\<lparr>sl_active := None\<rparr>)
           (st\<lparr>cs_intents := set_intent_states (wb_intent_ids b) terminal_state (cs_intents st)\<rparr>)))"

text \<open>What \<open>retry_start\<close> and \<open>terminalize_batch\<close> do after their critical section.\<close>

definition publish_batch ::
  "'p run_causality_port \<Rightarrow> env \<Rightarrow> work_batch \<Rightarrow> commit_result \<times> coordinator_state \<Rightarrow>
   'p slot_work_coordinator \<Rightarrow> commit_result \<times> 'p slot_work_coordinator" where
  "publish_batch P e b r c =
     (case r of
        (Committed, st) \<Rightarrow>
          (Committed, release_and_publish P e (run_summaries_locked st (wb_team_run_ids b))
                        (slot_snapshot_locked st (wb_slot_id b)) st c)
      | (result, _) \<Rightarrow> (result, c))"

definition retry_start ::
  "'p run_causality_port \<Rightarrow> env \<Rightarrow> work_batch \<Rightarrow> 'p slot_work_coordinator \<Rightarrow>
   commit_result \<times> 'p slot_work_coordinator" where
  "retry_start P e b c =
     publish_batch P e b (retry_start_locked (co_session_generation c) b (co_state c)) c"

definition terminalize_batch ::
  "'p run_causality_port \<Rightarrow> env \<Rightarrow> work_batch \<Rightarrow> work_intent_state \<Rightarrow> 'p slot_work_coordinator \<Rightarrow>
   commit_result \<times> 'p slot_work_coordinator" where
  "terminalize_batch P e b terminal_state c =
     publish_batch P e b
       (terminalize_batch_locked (co_session_generation c) b terminal_state (co_state c)) c"

definition complete_batch where
  "complete_batch P e b = terminalize_batch P e b Completed"

definition fail_batch where
  "fail_batch P e b classification = terminalize_batch P e b (Failed classification)"

definition cancel_batch where
  "cancel_batch P e b classification = terminalize_batch P e b (Cancelled classification)"

end
