(* ===== verification/Work_Control.thy ===== *)
theory Work_Control
  imports Work_Coordinator
begin

text \<open>
  The operations of \<open>SlotWorkCoordinator\<close> that stop, constrain or remove work
  (\<open>work_coordinator/coordinator.rs\<close>, \<open>cancel_run\<close> to \<open>stop\<close>), and those that only
  settle signals or pause a slot. As in Work_Coordinator, \<open>None\<close> is a panic.
\<close>

section \<open>Cancelling a run\<close>

text \<open>
  The intents of an active batch: those of the run are cancelled and their messages collected,
  the others go back to \<open>Queued\<close> and are retained with their priority.
\<close>

fun cancel_active_batch ::
  "id \<Rightarrow> id list \<Rightarrow> (id, work_intent) hash_map \<Rightarrow>
   ((work_priority \<times> id) list \<times> id list \<times> (id, work_intent) hash_map) may_panic" where
  "cancel_active_batch run [] ins = Some ([], [], ins)"
| "cancel_active_batch run (k # ks) ins =
     (case map_of ins k of
        None \<Rightarrow> None
      | Some i \<Rightarrow>
          if wi_team_run_id i = Some run then
            map_option (\<lambda>(retained, messages, ins').
                (retained, option_list (wi_mailbox_message_id i) @ messages, ins'))
              (cancel_active_batch run ks (set_intent_state k (Cancelled ''run_cancelled'') ins))
          else
            map_option (\<lambda>(retained, messages, ins').
                ((wi_priority i, k) # retained, messages, ins'))
              (cancel_active_batch run ks (set_intent_state k Queued ins)))"

definition requeue_front :: "(work_priority \<times> id) list \<Rightarrow> slot_state \<Rightarrow> slot_state" where
  "requeue_front retained = foldr (\<lambda>(p, k). queue_push_front p k) retained"

definition batch_touches_run :: "coordinator_state \<Rightarrow> id \<Rightarrow> active_batch \<Rightarrow> bool" where
  "batch_touches_run st run a \<longleftrightarrow>
     (\<exists>k \<in> set (wb_intent_ids (ab_batch a)).
        case intent_of st k of None \<Rightarrow> False | Some i \<Rightarrow> wi_team_run_id i = Some run)"

definition active_slots_of_run :: "coordinator_state \<Rightarrow> id \<Rightarrow> (id \<times> active_batch) list" where
  "active_slots_of_run st run =
     filter_map (\<lambda>(s, sl).
         case sl_active sl of
           None \<Rightarrow> None
         | Some a \<Rightarrow> if batch_touches_run st run a then Some (s, a) else None)
       (cs_slots st)"

fun cancel_active_slots ::
  "id \<Rightarrow> (id \<times> active_batch) list \<Rightarrow> coordinator_state \<Rightarrow>
   (id list \<times> coordinator_state) may_panic" where
  "cancel_active_slots run [] st = Some ([], st)"
| "cancel_active_slots run ((s, a) # rest) st =
     (case cancel_active_batch run (wb_intent_ids (ab_batch a)) (cs_intents st) of
        None \<Rightarrow> None
      | Some (retained, messages, ins) \<Rightarrow>
          map_option (\<lambda>(messages', st'). (messages @ messages', st'))
            (cancel_active_slots run rest
              (modify_slot s (\<lambda>sl. requeue_front retained (sl\<lparr>sl_active := None\<rparr>))
                (st\<lparr>cs_intents := ins\<rparr>))))"

fun cancel_queued_intents ::
  "id list \<Rightarrow> coordinator_state \<Rightarrow> (id list \<times> coordinator_state) may_panic" where
  "cancel_queued_intents [] st = Some ([], st)"
| "cancel_queued_intents (k # ks) st =
     (case intent_of st k of
        None \<Rightarrow> None
      | Some i \<Rightarrow>
          map_option (\<lambda>(messages, st'). (option_list (wi_mailbox_message_id i) @ messages, st'))
            (cancel_queued_intents ks
              (modify_slot (wi_slot_id i) (remove_queued k)
                (st\<lparr>cs_intents := set_intent_state k (Cancelled ''run_cancelled'') (cs_intents st)\<rparr>))))"

definition drop_run_leases :: "id \<Rightarrow> coordinator_state \<Rightarrow> coordinator_state" where
  "drop_run_leases run st =
     st\<lparr>cs_enqueue_leases :=
          fold hm_remove (map (\<lambda>r. el_lease_id (lr_lease r)) (run_leases st run))
            (cs_enqueue_leases st)\<rparr>"

definition queued_run_ids :: "coordinator_state \<Rightarrow> id \<Rightarrow> id list" where
  "queued_run_ids st run =
     map wi_intent_id (filter (\<lambda>i. wi_team_run_id i = Some run \<and> wi_state i = Queued) (intents st))"

definition cancel_run_locked ::
  "id \<Rightarrow> coordinator_state \<Rightarrow> (cancel_run_work_result \<times> coordinator_state) may_panic" where
  "cancel_run_locked run st =
     (let active = active_slots_of_run st run in
      case cancel_active_slots run active st of
        None \<Rightarrow> None
      | Some (messages1, st1) \<Rightarrow>
          (case cancel_queued_intents (queued_run_ids st1 run) st1 of
             None \<Rightarrow> None
           | Some (messages2, st2) \<Rightarrow>
               let st3 = drop_run_leases run st2 in
               Some (\<lparr>cr_cancel_targets =
                        map (\<lambda>(s, a). \<lparr>bc_batch = ab_batch a, bc_turn_id = ab_turn_id a\<rparr>) active,
                      cr_terminal_message_ids = messages1 @ messages2,
                      cr_summary = run_summary_locked st3 run\<rparr>, st3)))"

definition cancel_run ::
  "'p run_causality_port \<Rightarrow> env \<Rightarrow> id \<Rightarrow> 'p slot_work_coordinator \<Rightarrow>
   (cancel_run_work_result \<times> 'p slot_work_coordinator) may_panic" where
  "cancel_run P e run c =
     (case cancel_run_locked run (co_state c) of
        None \<Rightarrow> None
      | Some (result, st) \<Rightarrow> Some (result, release_and_publish P e [cr_summary result] None st c))"

section \<open>Settling signals, pausing\<close>

definition signal_settleable :: "coordinator_state \<Rightarrow> id \<Rightarrow> id \<Rightarrow> bool" where
  "signal_settleable st s k =
     (case intent_of st k of
        None \<Rightarrow> False
      | Some i \<Rightarrow> wi_slot_id i = s \<and> wi_mailbox_message_id i = None \<and> wi_state i = Queued)"

definition complete_signals_locked ::
  "id \<Rightarrow> id list \<Rightarrow> coordinator_state \<Rightarrow> commit_result \<times> coordinator_state" where
  "complete_signals_locked s ks st =
     (if \<not> (\<forall>k \<in> set ks. signal_settleable st s k) then (Rejected, st)
      else (Committed,
            modify_slot s (fold remove_queued ks)
              (st\<lparr>cs_intents := set_intent_states ks Completed (cs_intents st)\<rparr>)))"

definition complete_signals ::
  "'p run_causality_port \<Rightarrow> env \<Rightarrow> id \<Rightarrow> id list \<Rightarrow> 'p slot_work_coordinator \<Rightarrow>
   commit_result \<times> 'p slot_work_coordinator" where
  "complete_signals P e s ks c =
     (case complete_signals_locked s ks (co_state c) of
        (Committed, st) \<Rightarrow>
          (Committed, release_and_publish P e
             (run_summaries_locked st
               (filter_map (\<lambda>k. Option.bind (intent_of (co_state c) k) wi_team_run_id) ks))
             None st c)
      | (result, _) \<Rightarrow> (result, c))"

definition cancel_target_of :: "slot_state \<Rightarrow> batch_cancel_target option" where
  "cancel_target_of sl =
     map_option (\<lambda>a. \<lparr>bc_batch = ab_batch a, bc_turn_id = ab_turn_id a\<rparr>) (sl_active sl)"

definition pause_slot ::
  "id \<Rightarrow> 'p slot_work_coordinator \<Rightarrow> pause_work_result \<times> 'p slot_work_coordinator" where
  "pause_slot s c =
     (let sl = (slot_or_new s RoleTeammate (co_state c))\<lparr>sl_paused := True\<rparr>;
          st = put_slot s sl (co_state c)
      in (\<lparr>pw_cancel_target = cancel_target_of sl, pw_slot = snapshot_of_slot st s sl\<rparr>,
          c\<lparr>co_state := st\<rparr>))"

section \<open>Runtime constraints\<close>

text \<open>
  The live intents of a slot whose runtime failed or whose session stopped: after a failure an
  intent without a run is queued again, every other intent ends.
\<close>

fun constrain_intents ::
  "bool \<Rightarrow> string \<Rightarrow> id list \<Rightarrow> (id, work_intent) hash_map \<Rightarrow>
   ((work_priority \<times> id) list \<times> id list \<times> id list \<times> (id, work_intent) hash_map) may_panic" where
  "constrain_intents stopped cl [] ins = Some ([], [], [], ins)"
| "constrain_intents stopped cl (k # ks) ins =
     (case map_of ins k of
        None \<Rightarrow> None
      | Some i \<Rightarrow>
          if wi_team_run_id i = None \<and> \<not> stopped then
            map_option (\<lambda>(requeue, messages, runs, ins').
                ((wi_priority i, k) # requeue, messages, runs, ins'))
              (constrain_intents stopped cl ks (set_intent_state k Queued ins))
          else
            map_option (\<lambda>(requeue, messages, runs, ins').
                (requeue, option_list (wi_mailbox_message_id i) @ messages,
                 option_list (wi_team_run_id i) @ runs, ins'))
              (constrain_intents stopped cl ks
                (set_intent_state k (if stopped then Cancelled cl else Failed cl) ins)))"

fun terminal_classification :: "runtime_constraint \<Rightarrow> string option" where
  "terminal_classification (RcFailed _ cl) = Some cl"
| "terminal_classification RcSessionStopped = Some ''session_stopped''"
| "terminal_classification _ = None"

definition requeue_back :: "(work_priority \<times> id) list \<Rightarrow> slot_state \<Rightarrow> slot_state" where
  "requeue_back requeue = fold (\<lambda>(p, k). queue_push_back p k) requeue"

definition live_slot_ids :: "coordinator_state \<Rightarrow> id \<Rightarrow> id list" where
  "live_slot_ids st s =
     map wi_intent_id (filter (\<lambda>i. wi_slot_id i = s \<and> \<not> is_terminal (wi_state i)) (intents st))"

definition set_runtime_constraint_locked ::
  "id \<Rightarrow> runtime_constraint \<Rightarrow> coordinator_state \<Rightarrow>
   (id list \<times> id list \<times> coordinator_state) may_panic" where
  "set_runtime_constraint_locked s con st =
     (let sl = (slot_or_new s RoleTeammate st)\<lparr>sl_runtime_constraint := con\<rparr>;
          st1 = put_slot s sl st
      in case terminal_classification con of
           None \<Rightarrow> Some ([], [], st1)
         | Some cl \<Rightarrow>
             map_option (\<lambda>(requeue, messages, runs, ins).
                 (messages, btree_set runs,
                  modify_slot s (\<lambda>sl. requeue_back requeue (clear_slot_work sl))
                    (st1\<lparr>cs_intents := ins\<rparr>)))
               (constrain_intents (con = RcSessionStopped) cl (live_slot_ids st1 s) (cs_intents st1)))"

definition set_runtime_constraint ::
  "'p run_causality_port \<Rightarrow> env \<Rightarrow> id \<Rightarrow> runtime_constraint \<Rightarrow> 'p slot_work_coordinator \<Rightarrow>
   (runtime_constraint_update \<times> 'p slot_work_coordinator) may_panic" where
  "set_runtime_constraint P e s con c =
     (case set_runtime_constraint_locked s con (co_state c) of
        None \<Rightarrow> None
      | Some (messages, runs, st) \<Rightarrow>
          (case slot_snapshot_locked st s of
             None \<Rightarrow> None
           | Some snapshot \<Rightarrow>
               let summaries = map (run_summary_locked st) runs in
               Some (\<lparr>ru_slot = snapshot, ru_terminal_message_ids = messages,
                      ru_affected_run_summaries = summaries\<rparr>,
                     release_and_publish P e summaries (Some snapshot) st c)))"

section \<open>Removing a slot, stopping the session\<close>

text \<open>
  The intents a removed slot drops: the active batch first, then the lanes in order of service,
  then any other live intent of the slot by creation time.
\<close>

definition removed_slot_ids :: "coordinator_state \<Rightarrow> id \<Rightarrow> id list" where
  "removed_slot_ids st s =
     (let ordered = (case slot_of st s of None \<Rightarrow> [] | Some sl \<Rightarrow> active_ids sl @ queued_ids sl);
          remaining = sort_key (\<lambda>i. (wi_created_at_ms i, wi_intent_id i))
            (filter (\<lambda>i. wi_slot_id i = s \<and> \<not> is_terminal (wi_state i) \<and>
                         wi_intent_id i \<notin> set ordered) (intents st))
      in ordered @ map wi_intent_id remaining)"

fun drop_intents ::
  "id list \<Rightarrow> (id, work_intent) hash_map \<Rightarrow>
   (id list \<times> id list \<times> (id, work_intent) hash_map) may_panic" where
  "drop_intents [] ins = Some ([], [], ins)"
| "drop_intents (k # ks) ins =
     (case map_of ins k of
        None \<Rightarrow> None
      | Some i \<Rightarrow>
          map_option (\<lambda>(messages, runs, ins').
              (option_list (wi_mailbox_message_id i) @ messages,
               option_list (wi_team_run_id i) @ runs, ins'))
            (drop_intents ks (set_intent_state k (Cancelled ''slot_removed'') ins)))"

definition remove_slot_locked ::
  "id \<Rightarrow> coordinator_state \<Rightarrow> (remove_work_result \<times> coordinator_state) may_panic" where
  "remove_slot_locked s st =
     map_option (\<lambda>(messages, runs, ins).
         let st' = modify_slot s (\<lambda>sl. (clear_slot_work sl)\<lparr>sl_removed := True\<rparr>)
                     (st\<lparr>cs_intents := ins\<rparr>)
         in (\<lparr>rw_cancel_target = Option.bind (slot_of st s) cancel_target_of,
              rw_terminal_message_ids = messages,
              rw_affected_run_summaries = run_summaries_locked st' runs\<rparr>, st'))
       (drop_intents (removed_slot_ids st s) (cs_intents st))"

definition remove_slot ::
  "'p run_causality_port \<Rightarrow> env \<Rightarrow> id \<Rightarrow> 'p slot_work_coordinator \<Rightarrow>
   (remove_work_result \<times> 'p slot_work_coordinator) may_panic" where
  "remove_slot P e s c =
     (case remove_slot_locked s (co_state c) of
        None \<Rightarrow> None
      | Some (result, st) \<Rightarrow>
          Some (result, release_and_publish P e (rw_affected_run_summaries result) None st c))"

definition stop_intent :: "work_intent \<Rightarrow> work_intent" where
  "stop_intent i =
     (if is_terminal (wi_state i) then i else i\<lparr>wi_state := Cancelled ''session_stopped''\<rparr>)"

definition stop_locked :: "coordinator_state \<Rightarrow> run_work_summary list \<times> coordinator_state" where
  "stop_locked st =
     (let st' = st\<lparr>cs_intents := hm_map_values stop_intent (cs_intents st),
                   cs_slots := hm_map_values
                     (\<lambda>sl. (clear_slot_work sl)\<lparr>sl_runtime_constraint := RcSessionStopped\<rparr>) (cs_slots st),
                   cs_enqueue_leases := []\<rparr>
      in (map (run_summary_locked st') (all_run_ids st), st'))"

definition stop ::
  "'p run_causality_port \<Rightarrow> env \<Rightarrow> 'p slot_work_coordinator \<Rightarrow>
   run_work_summary list \<times> 'p slot_work_coordinator" where
  "stop P e c =
     (let (summaries, st) = stop_locked (co_state c)
      in (summaries, release_and_publish P e summaries None st c))"

end
