(* ===== verification/Work_Invariant.thy ===== *)
theory Work_Invariant
  imports Work_Control
begin

text \<open>
  The invariant of the coordinator's state and its preservation by every operation.

  The intents, the lanes and the active batches describe the same work three times. The
  invariant says that they agree: a lane of a slot holds exactly the queued intents of the slot
  with that priority, once each; the active batch of a slot holds exactly the intents of the
  slot that are starting or running, all in the state the batch says, all with a mailbox
  message; every live intent has its slot; the keys of the maps are the identifiers of the
  entries. Since a slot's part of it only reads the intents of that slot, an operation on one
  slot has to be checked on that slot only (\<open>coord_inv_slot_update\<close>).
\<close>

section \<open>The invariant\<close>

text \<open>The state of every intent of an active batch.\<close>

definition active_state :: "active_batch \<Rightarrow> work_intent_state" where
  "active_state a =
     (case ab_turn_id a of
        None \<Rightarrow> Starting (wb_batch_id (ab_batch a)) (wb_operation_id (ab_batch a))
      | Some t \<Rightarrow> Running (wb_batch_id (ab_batch a)) (wb_operation_id (ab_batch a)) t)"

definition batch_inv ::
  "id \<Rightarrow> u64 \<Rightarrow> (id \<Rightarrow> work_intent option) \<Rightarrow> id \<Rightarrow> active_batch \<Rightarrow> bool" where
  "batch_inv generation last_op I s a \<longleftrightarrow>
     wb_slot_id (ab_batch a) = s \<and> wb_session_generation (ab_batch a) = generation \<and>
     wb_intent_ids (ab_batch a) \<noteq> [] \<and> distinct (wb_intent_ids (ab_batch a)) \<and>
     wb_operation_id (ab_batch a) \<le> last_op \<and>
     (\<forall>k \<in> set (wb_intent_ids (ab_batch a)). \<forall>i. I k = Some i \<longrightarrow>
        wi_priority i = wb_highest_priority (ab_batch a) \<and>
        wi_mailbox_message_id i \<noteq> None \<and> wi_state i = active_state a)"

definition slot_inv ::
  "id \<Rightarrow> u64 \<Rightarrow> (id \<Rightarrow> work_intent option) \<Rightarrow> id \<Rightarrow> slot_state \<Rightarrow> bool" where
  "slot_inv generation last_op I s sl \<longleftrightarrow>
     (\<forall>p. distinct (slot_queue p sl)) \<and>
     (\<forall>p k. k \<in> set (slot_queue p sl) \<longleftrightarrow>
        (\<exists>i. I k = Some i \<and> wi_slot_id i = s \<and> wi_priority i = p \<and> wi_state i = Queued)) \<and>
     (\<forall>k. k \<in> set (active_ids sl) \<longleftrightarrow>
        (\<exists>i. I k = Some i \<and> wi_slot_id i = s \<and> is_in_flight (wi_state i))) \<and>
     (\<forall>a. sl_active sl = Some a \<longrightarrow> batch_inv generation last_op I s a)"

definition coord_inv :: "id \<Rightarrow> coordinator_state \<Rightarrow> bool" where
  "coord_inv generation st \<longleftrightarrow>
     bt_sorted (cs_slots st) \<and>
     distinct (hm_keys (cs_intents st)) \<and> distinct (hm_keys (cs_enqueue_leases st)) \<and>
     (\<forall>k i. intent_of st k = Some i \<longrightarrow>
        wi_intent_id i = k \<and> (\<not> is_terminal (wi_state i) \<longrightarrow> slot_of st (wi_slot_id i) \<noteq> None)) \<and>
     (\<forall>k r. lease_of st k = Some r \<longrightarrow> el_lease_id (lr_lease r) = k) \<and>
     (\<forall>s sl. slot_of st s = Some sl \<longrightarrow>
        slot_inv generation (cs_next_operation_id st) (intent_of st) s sl)"

lemma active_state_in_flight [simp]: "is_in_flight (active_state a)"
  by (simp add: active_state_def split: option.split)

lemma batch_inv_mono:
  "batch_inv g op I s a \<Longrightarrow> op \<le> op' \<Longrightarrow> batch_inv g op' I s a"
  by (auto simp: batch_inv_def)

lemma slot_inv_mono:
  "slot_inv g op I s sl \<Longrightarrow> op \<le> op' \<Longrightarrow> slot_inv g op' I s sl"
  by (auto simp: slot_inv_def intro: batch_inv_mono)

lemma coord_inv_keys:
  assumes "coord_inv g st"
  shows "bt_sorted (cs_slots st)" "distinct (hm_keys (cs_intents st))"
    "distinct (hm_keys (cs_enqueue_leases st))" "distinct (hm_keys (cs_slots st))"
  using assms bt_sorted_distinct by (auto simp: coord_inv_def simp del: set_map)

lemma coord_inv_intent:
  "coord_inv g st \<Longrightarrow> intent_of st k = Some i \<Longrightarrow> wi_intent_id i = k"
  by (auto simp: coord_inv_def)

lemma coord_inv_home:
  "coord_inv g st \<Longrightarrow> intent_of st k = Some i \<Longrightarrow> \<not> is_terminal (wi_state i) \<Longrightarrow>
   \<exists>sl. slot_of st (wi_slot_id i) = Some sl"
  by (auto simp: coord_inv_def)

lemma coord_inv_lease:
  "coord_inv g st \<Longrightarrow> lease_of st k = Some r \<Longrightarrow> el_lease_id (lr_lease r) = k"
  by (auto simp: coord_inv_def)

lemma coord_inv_slot:
  "coord_inv g st \<Longrightarrow> slot_of st s = Some sl \<Longrightarrow>
   slot_inv g (cs_next_operation_id st) (intent_of st) s sl"
  by (auto simp: coord_inv_def)

lemma slot_inv_queue:
  "slot_inv g op I s sl \<Longrightarrow> k \<in> set (slot_queue p sl) \<longleftrightarrow>
    (\<exists>i. I k = Some i \<and> wi_slot_id i = s \<and> wi_priority i = p \<and> wi_state i = Queued)"
  by (simp add: slot_inv_def)

lemma slot_inv_active:
  "slot_inv g op I s sl \<Longrightarrow> k \<in> set (active_ids sl) \<longleftrightarrow>
    (\<exists>i. I k = Some i \<and> wi_slot_id i = s \<and> is_in_flight (wi_state i))"
  by (simp add: slot_inv_def)

lemma slot_inv_distinct: "slot_inv g op I s sl \<Longrightarrow> distinct (slot_queue p sl)"
  by (simp add: slot_inv_def)

lemma slot_inv_batch:
  "slot_inv g op I s sl \<Longrightarrow> sl_active sl = Some a \<Longrightarrow> batch_inv g op I s a"
  by (simp add: slot_inv_def)

lemma slot_inv_queued_ids:
  "slot_inv g op I s sl \<Longrightarrow> k \<in> set (queued_ids sl) \<longleftrightarrow>
    (\<exists>i. I k = Some i \<and> wi_slot_id i = s \<and> wi_state i = Queued)"
  by (auto simp: in_queued_ids slot_inv_queue)

lemma batch_invD:
  assumes "batch_inv g op I s a"
  shows "wb_slot_id (ab_batch a) = s" "wb_session_generation (ab_batch a) = g"
    "wb_intent_ids (ab_batch a) \<noteq> []" "distinct (wb_intent_ids (ab_batch a))"
    "wb_operation_id (ab_batch a) \<le> op"
    "\<And>k i. k \<in> set (wb_intent_ids (ab_batch a)) \<Longrightarrow> I k = Some i \<Longrightarrow>
       wi_priority i = wb_highest_priority (ab_batch a) \<and>
       wi_mailbox_message_id i \<noteq> None \<and> wi_state i = active_state a"
  using assms by (auto simp: batch_inv_def)

text \<open>A slot's invariant reads the intents of that slot only.\<close>

lemma batch_inv_cong:
  assumes "\<And>k i. wi_slot_id i = s \<Longrightarrow> I k = Some i \<longleftrightarrow> J k = Some i"
    and "\<And>k. k \<in> set (wb_intent_ids (ab_batch a)) \<Longrightarrow> \<exists>i. I k = Some i \<and> wi_slot_id i = s"
    and "batch_inv g op I s a"
  shows "batch_inv g op J s a"
proof -
  have "I k = J k" if "k \<in> set (wb_intent_ids (ab_batch a))" for k
    using assms(1,2) that by metis
  with assms(3) show ?thesis by (simp add: batch_inv_def)
qed

lemma slot_inv_cong:
  assumes eq: "\<And>k i. wi_slot_id i = s \<Longrightarrow> I k = Some i \<longleftrightarrow> J k = Some i"
    and inv: "slot_inv g op I s sl"
  shows "slot_inv g op J s sl"
proof -
  have q: "(\<exists>i. J k = Some i \<and> wi_slot_id i = s \<and> P i) \<longleftrightarrow>
           (\<exists>i. I k = Some i \<and> wi_slot_id i = s \<and> P i)" for k P
    using eq by metis
  have "batch_inv g op J s a" if a: "sl_active sl = Some a" for a
  proof (rule batch_inv_cong [OF eq])
    show "batch_inv g op I s a" using inv a by (rule slot_inv_batch)
  next
    fix k assume "k \<in> set (wb_intent_ids (ab_batch a))"
    then show "\<exists>i. I k = Some i \<and> wi_slot_id i = s"
      using slot_inv_active [OF inv, of k] a by auto
  qed
  with inv show ?thesis by (simp add: slot_inv_def q)
qed

text \<open>
  The rule for an operation on one slot \<open>s\<close>: the other slots, and the intents of the other
  slots, are untouched.
\<close>

lemma coord_inv_slot_update:
  assumes inv: "coord_inv g st"
    and slots: "bt_sorted (cs_slots st')" "slot_of st' = (slot_of st)(s \<mapsto> sl')"
    and keys: "distinct (hm_keys (cs_intents st'))" "distinct (hm_keys (cs_enqueue_leases st'))"
    and ids: "\<And>k i. intent_of st' k = Some i \<Longrightarrow> wi_intent_id i = k"
    and ls: "\<And>k r. lease_of st' k = Some r \<Longrightarrow> el_lease_id (lr_lease r) = k"
    and op: "cs_next_operation_id st \<le> cs_next_operation_id st'"
    and other: "\<And>k i. wi_slot_id i \<noteq> s \<Longrightarrow> intent_of st' k = Some i \<longleftrightarrow> intent_of st k = Some i"
    and new: "slot_inv g (cs_next_operation_id st') (intent_of st') s sl'"
  shows "coord_inv g st'"
  unfolding coord_inv_def
proof (intro conjI allI impI)
  fix k i assume i: "intent_of st' k = Some i" and "\<not> is_terminal (wi_state i)"
  then show "slot_of st' (wi_slot_id i) \<noteq> None"
    using inv other [of i k] by (cases "wi_slot_id i = s") (auto simp: slots coord_inv_def)
next
  fix x sl assume x: "slot_of st' x = Some sl"
  show "slot_inv g (cs_next_operation_id st') (intent_of st') x sl"
  proof (cases "x = s")
    case True
    with x new show ?thesis by (simp add: slots)
  next
    case False
    with x have "slot_inv g (cs_next_operation_id st) (intent_of st) x sl"
      using inv by (simp add: slots coord_inv_def)
    then have "slot_inv g (cs_next_operation_id st) (intent_of st') x sl"
      by (rule slot_inv_cong [rotated]) (use False other in metis)
    then show ?thesis using op by (rule slot_inv_mono)
  qed
qed (use slots keys ids ls in auto)

text \<open>
  The common case: only the states of intents of the slot \<open>s\<close> change, those in \<open>K\<close>.
\<close>

lemma coord_inv_states_update:
  assumes inv: "coord_inv g st"
    and slots: "hm_keys (cs_slots st') = hm_keys (cs_slots st)" "slot_of st' = (slot_of st)(s \<mapsto> sl')"
    and keys: "hm_keys (cs_intents st') = hm_keys (cs_intents st)"
    and leases: "cs_enqueue_leases st' = cs_enqueue_leases st"
    and op: "cs_next_operation_id st \<le> cs_next_operation_id st'"
    and J: "\<And>k. intent_of st' k = (if k \<in> K
      then map_option (\<lambda>i. i\<lparr>wi_state := T k\<rparr>) (intent_of st k) else intent_of st k)"
    and K: "\<And>k. k \<in> K \<Longrightarrow> \<exists>i. intent_of st k = Some i \<and> wi_slot_id i = s"
    and new: "slot_inv g (cs_next_operation_id st') (intent_of st') s sl'"
  shows "coord_inv g st'"
proof (rule coord_inv_slot_update [OF inv _ slots(2) _ _ _ _ op _ new])
  show "bt_sorted (cs_slots st')" "distinct (hm_keys (cs_intents st'))"
    "distinct (hm_keys (cs_enqueue_leases st'))"
    using coord_inv_keys [OF inv] by (simp_all only: slots(1) keys leases)
  show "el_lease_id (lr_lease r) = k" if "lease_of st' k = Some r" for k r
    using that coord_inv_lease [OF inv] leases by simp
  show "wi_intent_id i = k" if i: "intent_of st' k = Some i" for k i
  proof -
    obtain i0 where "intent_of st k = Some i0" "wi_intent_id i = wi_intent_id i0"
      using i J [of k] by (auto split: if_splits)
    then show ?thesis using coord_inv_intent [OF inv] by simp
  qed
  show "intent_of st' k = Some i \<longleftrightarrow> intent_of st k = Some i" if "wi_slot_id i \<noteq> s" for k i
    using that J [of k] K [of k] by (cases "k \<in> K") auto
qed

lemma coord_inv_default: "coord_inv g coordinator_state_default"
  by (simp add: coord_inv_def coordinator_state_default_def)

text \<open>A slot that does not exist has no live intent, so a fresh slot satisfies its invariant.\<close>

lemma slot_inv_new:
  assumes "coord_inv g st" "slot_of st s = None"
  shows "slot_inv g op (intent_of st) s (slot_state_new r)"
proof -
  have "\<not> (intent_of st k = Some i \<and> wi_slot_id i = s \<and> \<not> is_terminal (wi_state i))" for k i
    using assms coord_inv_home by fastforce
  then show ?thesis
    by (auto simp: slot_inv_def not_terminal_iff)
qed

lemma slot_or_new_inv:
  assumes "coord_inv g st"
  shows "slot_inv g (cs_next_operation_id st) (intent_of st) s (slot_or_new s r st)"
  using assms by (auto simp: slot_or_new_def coord_inv_slot slot_inv_new split: option.split)

text \<open>Fields of a slot that the invariant does not read.\<close>

lemma slot_inv_frame:
  assumes "slot_inv g op I s sl" "\<And>p. slot_queue p sl' = slot_queue p sl"
    "sl_active sl' = sl_active sl"
  shows "slot_inv g op I s sl'"
proof -
  have "active_ids sl' = active_ids sl" using assms(3) by (simp add: active_ids_def)
  then show ?thesis using assms by (simp add: slot_inv_def)
qed

lemma coord_inv_put_slot_frame:
  assumes inv: "coord_inv g st"
    and "\<And>p. slot_queue p sl' = slot_queue p (slot_or_new s r st)"
    and "sl_active sl' = sl_active (slot_or_new s r st)"
  shows "coord_inv g (put_slot s sl' st)"
proof (rule coord_inv_slot_update [OF inv])
  show "slot_inv g (cs_next_operation_id (put_slot s sl' st)) (intent_of (put_slot s sl' st)) s sl'"
    using slot_inv_frame [OF slot_or_new_inv [OF inv] assms(2,3)] by simp
qed (use inv coord_inv_keys [OF inv] in \<open>auto simp: coord_inv_def put_slot_def\<close>)

lemma bt_sorted_modify_slot [simp]:
  "bt_sorted (cs_slots (modify_slot s f st)) = bt_sorted (cs_slots st)"
  by (simp del: set_map)

lemma slot_of_modify_slot:
  "slot_of st s = Some sl \<Longrightarrow> slot_of (modify_slot s f st) = (slot_of st)(s \<mapsto> f sl)"
  by (rule ext) simp



section \<open>Preservation: enqueueing and mailbox reconciliation\<close>

lemma coord_inv_leases:
  assumes inv: "coord_inv g st" and "distinct (hm_keys ls)"
    and "\<And>k r. map_of ls k = Some r \<Longrightarrow> el_lease_id (lr_lease r) = k"
  shows "coord_inv g (st\<lparr>cs_enqueue_leases := ls\<rparr>)"
  using assms by (auto simp: coord_inv_def)

lemma coord_inv_insert_lease:
  assumes "coord_inv g st" "cs_enqueue_leases st = ls" "el_lease_id (lr_lease r) = k"
  shows "coord_inv g (st\<lparr>cs_enqueue_leases := hm_insert k r ls\<rparr>)"
  by (rule coord_inv_leases [OF assms(1)])
    (use coord_inv_keys [OF assms(1)] coord_inv_lease [OF assms(1)] assms(2,3) in
      \<open>auto simp del: set_map split: if_splits\<close>)

lemma coord_inv_remove_lease:
  assumes "coord_inv g st"
  shows "coord_inv g (st\<lparr>cs_enqueue_leases := hm_remove k (cs_enqueue_leases st)\<rparr>)"
  by (rule coord_inv_leases [OF assms])
    (use coord_inv_keys [OF assms] coord_inv_lease [OF assms] in
      \<open>auto simp del: set_map split: if_splits\<close>)

lemma acquire_enqueue_inv:
  assumes inv: "coord_inv g (co_state c)"
  shows "coord_inv g (co_state (snd (acquire_enqueue P e req c)))"
proof -
  let ?s = "er_slot_id req"
  let ?st = "put_slot ?s ((slot_or_new ?s (er_role req) (co_state c))\<lparr>sl_role := er_role req\<rparr>)
    (co_state c)"
  have put: "coord_inv g ?st"
    by (rule coord_inv_put_slot_frame [OF inv]) auto
  show ?thesis
    using put
    by (auto simp: acquire_enqueue_def Let_def intro: coord_inv_insert_lease
        split: sum.splits prod.splits)
qed

text \<open>A new queued intent at the back of its lane.\<close>

lemma slot_inv_push_back:
  assumes inv: "slot_inv g op I s sl" and fresh: "I k = None"
    and i: "wi_slot_id i = s" "wi_priority i = p" "wi_state i = Queued"
  shows "slot_inv g op (I(k \<mapsto> i)) s (queue_push_back p k sl)"
proof -
  have notin: "k \<notin> set (slot_queue q sl)" "k \<notin> set (active_ids sl)" for q
    using slot_inv_queue [OF inv] slot_inv_active [OF inv] fresh by auto
  have act: "active_ids (queue_push_back p k sl) = active_ids sl"
    by (simp add: active_ids_def)
  have "batch_inv g op (I(k \<mapsto> i)) s a" if a: "sl_active sl = Some a" for a
    using slot_inv_batch [OF inv a] notin(2) a by (auto simp: batch_inv_def)
  with notin i inv show ?thesis
    by (auto simp: slot_inv_def act)
qed

lemma slot_queue_committed [simp]:
  "slot_queue p (committed_slot lease m k sl) =
     slot_queue p (queue_push_back (source_priority (el_source lease)) k sl)"
  by (auto simp: committed_slot_def Let_def split: option.split)

lemma committed_slot_active [simp]: "sl_active (committed_slot lease m k sl) = sl_active sl"
  by (auto simp: committed_slot_def Let_def split: option.split)

lemma commit_enqueue_locked_Inr:
  assumes "commit_enqueue_locked g e lease m st = Some (Inr (cm, ss, st'))"
  obtains sl rcd where "slot_of st (el_slot_id lease) = Some sl"
    and "lease_of st (el_lease_id lease) = Some rcd" and "lr_lease rcd = lease"
    and "el_session_generation lease = g"
    and "requires_mailbox_message (el_source lease) \<Longrightarrow> m \<noteq> None"
    and "validate_enqueue_constraint (el_slot_id lease) sl = Inr ()"
    and "st' = put_slot (el_slot_id lease) (committed_slot lease m (env_id e 0) sl)
          (st\<lparr>cs_enqueue_leases := hm_remove (el_lease_id lease) (cs_enqueue_leases st),
              cs_intents := hm_insert (env_id e 0) (committed_intent g e lease m) (cs_intents st)\<rparr>)"
    and "ec_intent_id cm = env_id e 0"
    and "commit_disposition sl = Some (ec_disposition cm)"
    and "ec_slot cm = snapshot_of_slot st' (el_slot_id lease)
           (committed_slot lease m (env_id e 0) sl)"
    and "ec_team_run_id cm = el_team_run_id lease"
    and "ss = run_summaries_locked st' (option_list (el_team_run_id lease))"
  using assms
  by (auto simp: commit_enqueue_locked_def committed_intent_def Let_def
      split: option.splits if_splits sum.splits)

lemma commit_enqueue_locked_inv:
  assumes inv: "coord_inv g st" and fresh: "intent_of st (env_id e 0) = None"
    and commit: "commit_enqueue_locked g e lease m st = Some (Inr (cm, ss, st'))"
  shows "coord_inv g st'"
proof -
  from commit obtain sl where sl: "slot_of st (el_slot_id lease) = Some sl"
    and st': "st' = put_slot (el_slot_id lease) (committed_slot lease m (env_id e 0) sl)
          (st\<lparr>cs_enqueue_leases := hm_remove (el_lease_id lease) (cs_enqueue_leases st),
              cs_intents := hm_insert (env_id e 0) (committed_intent g e lease m) (cs_intents st)\<rparr>)"
    by (rule commit_enqueue_locked_Inr)
  have "slot_inv g (cs_next_operation_id st)
      ((intent_of st)(env_id e 0 \<mapsto> committed_intent g e lease m)) (el_slot_id lease)
      (queue_push_back (source_priority (el_source lease)) (env_id e 0) sl)"
    by (rule slot_inv_push_back [OF coord_inv_slot [OF inv sl] fresh])
      (simp_all add: committed_intent_def)
  then have new: "slot_inv g (cs_next_operation_id st)
      ((intent_of st)(env_id e 0 \<mapsto> committed_intent g e lease m)) (el_slot_id lease)
      (committed_slot lease m (env_id e 0) sl)"
    by (rule slot_inv_frame) simp_all
  show ?thesis
    by (rule coord_inv_slot_update [OF inv, where s = "el_slot_id lease"
          and sl' = "committed_slot lease m (env_id e 0) sl"])
      (use inv new fresh coord_inv_keys [OF inv] in
        \<open>auto simp: st' put_slot_def committed_intent_def coord_inv_intent coord_inv_lease
           simp del: set_map split: if_splits\<close>)
qed

lemma commit_enqueue_inv:
  assumes "coord_inv (co_session_generation c) (co_state c)"
    and "intent_of (co_state c) (env_id e 0) = None"
    and "commit_enqueue P e lease m c = Some (r, c')"
  shows "coord_inv (co_session_generation c) (co_state c')"
  using assms commit_enqueue_locked_inv [OF assms(1,2)]
  by (auto simp: commit_enqueue_def release_and_publish_def
      split: option.splits sum.splits prod.splits)

lemma abort_enqueue_inv:
  assumes inv: "coord_inv (co_session_generation c) (co_state c)"
  shows "coord_inv (co_session_generation c) (co_state (snd (abort_enqueue P e lease c)))"
proof -
  have rem: "coord_inv (co_session_generation c)
      ((co_state c)\<lparr>cs_enqueue_leases := hm_remove k (cs_enqueue_leases (co_state c))\<rparr>)" for k
    by (rule coord_inv_remove_lease [OF inv])
  have reinsert: "coord_inv (co_session_generation c)
      ((co_state c)\<lparr>cs_enqueue_leases := hm_insert (el_lease_id (lr_lease r)) r
         (hm_remove k (cs_enqueue_leases (co_state c)))\<rparr>)" for k r
    using coord_inv_insert_lease [OF rem [of k] refl, of r] by simp
  show ?thesis
    using inv rem reinsert
    by (auto simp: abort_enqueue_def Let_def release_and_publish_def split: option.splits)
qed

text \<open>Completing queued intents that leave their lanes.\<close>

lemma slot_inv_settle:
  assumes inv: "slot_inv g op I s sl"
    and queued: "\<And>k. k \<in> set ks \<Longrightarrow> \<exists>i. I k = Some i \<and> wi_slot_id i = s \<and> wi_state i = Queued"
    and J: "\<And>k. J k = (if k \<in> set ks then map_option (\<lambda>i. i\<lparr>wi_state := t\<rparr>) (I k) else I k)"
    and t: "is_terminal t"
  shows "slot_inv g op J s (fold remove_queued ks sl)"
proof -
  have act: "active_ids (fold remove_queued ks sl) = active_ids sl"
    by (simp add: active_ids_def)
  have disj: "k \<notin> set (active_ids sl)" if "k \<in> set ks" for k
    using slot_inv_active [OF inv, of k] queued [OF that] by auto
  have "batch_inv g op J s a" if a: "sl_active sl = Some a" for a
    using slot_inv_batch [OF inv a] disj a by (auto simp: batch_inv_def J split: if_splits)
  moreover have "k \<in> set (active_ids sl) \<longleftrightarrow>
      (\<exists>i. J k = Some i \<and> wi_slot_id i = s \<and> is_in_flight (wi_state i))" for k
    using slot_inv_active [OF inv, of k] disj [of k] t by (auto simp: J)
  moreover have "k \<in> set (slot_queue p sl) \<and> k \<notin> set ks \<longleftrightarrow>
      (\<exists>i. J k = Some i \<and> wi_slot_id i = s \<and> wi_priority i = p \<and> wi_state i = Queued)" for p k
    using slot_inv_queue [OF inv, of k p] t by (auto simp: J)
  ultimately show ?thesis
    using slot_inv_distinct [OF inv] by (simp add: slot_inv_def act)
qed

lemma coord_inv_settle:
  assumes inv: "coord_inv g st" and sl: "slot_of st s = Some sl"
    and queued: "\<And>k. k \<in> set ks \<Longrightarrow>
      \<exists>i. intent_of st k = Some i \<and> wi_slot_id i = s \<and> wi_state i = Queued"
    and ins: "hm_keys ins = hm_keys (cs_intents st)"
      "\<And>k. map_of ins k = (if k \<in> set ks then map_option (\<lambda>i. i\<lparr>wi_state := t\<rparr>) (intent_of st k)
                          else intent_of st k)"
    and t: "is_terminal t"
  shows "coord_inv g (modify_slot s (fold remove_queued ks) (st\<lparr>cs_intents := ins\<rparr>))"
proof (rule coord_inv_states_update [OF inv, where s = s and T = "\<lambda>_. t" and K = "set ks"
      and sl' = "fold remove_queued ks sl"])
  show "slot_inv g (cs_next_operation_id (modify_slot s (fold remove_queued ks) (st\<lparr>cs_intents := ins\<rparr>)))
     (intent_of (modify_slot s (fold remove_queued ks) (st\<lparr>cs_intents := ins\<rparr>))) s
     (fold remove_queued ks sl)"
    using slot_inv_settle [OF coord_inv_slot [OF inv sl] queued ins(2) t] by simp
  show "slot_of (modify_slot s (fold remove_queued ks) (st\<lparr>cs_intents := ins\<rparr>)) =
      (slot_of st)(s \<mapsto> fold remove_queued ks sl)"
    using sl by (auto simp: fun_eq_iff)
qed (use ins queued in auto)

text \<open>
  The loop of the reconciliation in closed form: whether an intent is stale does not depend on
  the states the loop has already written.
\<close>

definition stale_intent :: "id list \<Rightarrow> (id, work_intent) hash_map \<Rightarrow> id \<Rightarrow> bool" where
  "stale_intent unread ins k =
     (case Option.bind (map_of ins k) wi_mailbox_message_id of
        None \<Rightarrow> False | Some m \<Rightarrow> m \<notin> set unread)"

definition kept_intent :: "id list \<Rightarrow> (id, work_intent) hash_map \<Rightarrow> id \<Rightarrow> bool" where
  "kept_intent unread ins k \<longleftrightarrow> map_of ins k \<noteq> None \<and> \<not> stale_intent unread ins k"

lemma stale_kept_set_state [simp]:
  "stale_intent unread (set_intent_state x s ins) = stale_intent unread ins"
  "kept_intent unread (set_intent_state x s ins) = kept_intent unread ins"
proof -
  show "stale_intent unread (set_intent_state x s ins) = stale_intent unread ins"
    by (rule ext) (simp add: stale_intent_def split: option.splits bind_split)
  then show "kept_intent unread (set_intent_state x s ins) = kept_intent unread ins"
    by (auto simp: kept_intent_def fun_eq_iff)
qed

lemma reconcile_queued_eq:
  "reconcile_queued unread ks ins =
     (filter (kept_intent unread ins) ks, filter (stale_intent unread ins) ks,
      set_intent_states (filter (stale_intent unread ins) ks) Completed ins)"
proof (induction unread ks ins rule: reconcile_queued.induct)
  case (1 unread ins)
  then show ?case by (simp add: set_intent_states_def)
next
  case (2 unread k ks ins)
  then show ?case
    by (auto simp: kept_intent_def stale_intent_def set_intent_states_def
        split: option.splits bind_split)
qed

lemma recover_unread_inv:
  assumes "coord_inv g st" and "slot_of st s \<noteq> None"
    and "inj ids" and "\<And>j. n \<le> j \<Longrightarrow> intent_of st (ids j) = None" and "env_id e = ids"
  shows "coord_inv g (snd (recover_unread g e s role n ms st))"
  using assms
proof (induction ms arbitrary: n st)
  case Nil
  then show ?case by simp
next
  case (Cons m ms)
  show ?case
  proof (cases "already_owned st s m")
    case True
    with Cons show ?thesis by simp
  next
    case False
    let ?i = "recovery_intent g e s role (ids n) m"
    let ?st = "modify_slot s (queue_push_back Background (ids n))
      (st\<lparr>cs_intents := hm_insert (ids n) ?i (cs_intents st)\<rparr>)"
    obtain sl where sl: "slot_of st s = Some sl" using Cons.prems(2) by auto
    have fresh: "intent_of st (ids n) = None" using Cons.prems(4) by simp
    have new: "slot_inv g (cs_next_operation_id st) ((intent_of st)(ids n \<mapsto> ?i)) s
        (queue_push_back Background (ids n) sl)"
      by (rule slot_inv_push_back [OF coord_inv_slot [OF Cons.prems(1) sl] fresh])
        (simp_all add: recovery_intent_def)
    have "coord_inv g ?st"
      by (rule coord_inv_slot_update [OF Cons.prems(1), where s = s
            and sl' = "queue_push_back Background (ids n) sl"])
        (use Cons.prems(1) new fresh sl coord_inv_keys [OF Cons.prems(1)] in
          \<open>auto simp: recovery_intent_def coord_inv_intent coord_inv_lease fun_eq_iff
             simp del: set_map split: if_splits\<close>)
    moreover have "intent_of ?st (ids j) = None" if "Suc n \<le> j" for j
      using Cons.prems(4) [of j] injD [OF Cons.prems(3), of j n] that by auto
    ultimately have "coord_inv g (snd (recover_unread g e s role (Suc n) ms ?st))"
      using Cons.prems(2,3,5) by (intro Cons.IH) auto
    with False Cons.prems(5) show ?thesis by (simp add: Let_def split_beta)
  qed
qed

lemma reconcile_mailbox_locked_inv:
  assumes inv: "coord_inv g st" and inj: "inj (env_id e)"
    and fresh: "\<And>j. intent_of st (env_id e j) = None"
  shows "coord_inv g (snd (reconcile_mailbox_locked g e s unread role st))"
proof -
  define sl where "sl = (slot_or_new s role st)
    \<lparr>sl_role := role, sl_known_unread_message_ids := set unread\<rparr>"
  define st1 where "st1 = put_slot s sl st"
  define cleared where "cleared = filter (stale_intent unread (cs_intents st)) (queued_ids sl)"
  define st2 where "st2 = modify_slot s (fold remove_queued cleared)
    (st1\<lparr>cs_intents := set_intent_states cleared Completed (cs_intents st)\<rparr>)"
  have inv1: "coord_inv g st1"
    unfolding st1_def sl_def by (rule coord_inv_put_slot_frame [OF inv]) auto
  have sl1: "slot_of st1 s = Some sl" and ins1: "cs_intents st1 = cs_intents st"
    by (simp_all add: st1_def)
  have inv2: "coord_inv g st2"
    unfolding st2_def
    by (rule coord_inv_settle [OF inv1 sl1, where t = Completed])
      (use slot_inv_queued_ids [OF coord_inv_slot [OF inv1 sl1]] in
        \<open>auto simp: cleared_def ins1\<close>)
  have "coord_inv g (snd (recover_unread g e s role 0 unread st2))"
    by (rule recover_unread_inv [OF inv2 _ inj])
      (use fresh sl1 in \<open>auto simp: st2_def st1_def\<close>)
  then show ?thesis
    by (simp add: reconcile_mailbox_locked_def reconcile_queued_eq Let_def split_beta
        sl_def [symmetric] st1_def [symmetric] cleared_def [symmetric] st2_def [symmetric])
qed



section \<open>Preservation: claiming and running batches\<close>

lemma selected_priority_Some:
  "selected_priority sl = Some p \<Longrightarrow> slot_queue p sl \<noteq> [] \<and> (\<forall>q < p. slot_queue q sl = [])"
  by (cases p) (auto simp: selected_priority_def less_work_priority_def all_priority split: if_splits)

lemma selected_priority_None:
  "selected_priority sl = None \<longleftrightarrow> queued_ids sl = []"
  by (auto simp: selected_priority_def queued_ids_def)

lemma claim_selection_subset:
  "claim_selection st h (h # ks) = (sel, c) \<Longrightarrow> set sel \<subseteq> set (h # ks) \<and> sel \<noteq> []
     \<and> (distinct (h # ks) \<longrightarrow> distinct sel)"
  by (auto simp: claim_selection_def split: if_splits dest: set_takeWhileD
      intro!: distinct_takeWhile)

lemma claim_batch_inv:
  assumes inv: "coord_inv g st" and sl: "slot_of st (wb_slot_id b) = Some sl"
    and idle: "sl_active sl = None"
    and ks: "set (wb_intent_ids b) \<subseteq> set (slot_queue (wb_highest_priority b) sl)"
      "wb_intent_ids b \<noteq> []" "distinct (wb_intent_ids b)"
    and msg: "\<And>k. k \<in> set (wb_intent_ids b) \<Longrightarrow> has_message st k"
    and b: "wb_session_generation b = g" "cs_next_operation_id st \<le> wb_operation_id b"
  shows "coord_inv g (claim_batch b st)"
proof -
  let ?s = "wb_slot_id b" and ?ks = "wb_intent_ids b" and ?p = "wb_highest_priority b"
  let ?a = "\<lparr>ab_batch = b, ab_turn_id = None, ab_started_at_ms = None\<rparr>"
  let ?sl = "(fold remove_queued ?ks sl)\<lparr>sl_active := Some ?a\<rparr>"
  let ?J = "intent_of (claim_batch b st)"
  note old = coord_inv_slot [OF inv sl]
  have queued: "\<exists>i. intent_of st k = Some i \<and> wi_slot_id i = ?s \<and> wi_priority i = ?p
      \<and> wi_state i = Queued \<and> wi_mailbox_message_id i \<noteq> None" if "k \<in> set ?ks" for k
    using that ks(1) slot_inv_queue [OF old] msg [OF that]
    by (auto simp: has_message_def split: option.splits)
  have J: "?J k = (if k \<in> set ?ks then map_option (\<lambda>i. i\<lparr>wi_state :=
      Starting (wb_batch_id b) (wb_operation_id b)\<rparr>) (intent_of st k) else intent_of st k)" for k
    by (simp add: claim_batch_def)
  have none: "\<not> (intent_of st k = Some i \<and> wi_slot_id i = ?s \<and> is_in_flight (wi_state i))" for k i
    using slot_inv_active [OF old, of k] idle by auto
  have new: "slot_inv g (wb_operation_id b) ?J ?s ?sl"
    unfolding slot_inv_def
  proof (intro conjI allI impI)
    show "distinct (slot_queue p ?sl)" for p
      using slot_inv_distinct [OF old] by simp
    show "k \<in> set (slot_queue p ?sl) \<longleftrightarrow>
        (\<exists>i. ?J k = Some i \<and> wi_slot_id i = ?s \<and> wi_priority i = p \<and> wi_state i = Queued)" for p k
      using slot_inv_queue [OF old] by (auto simp: J)
    show "k \<in> set (active_ids ?sl) \<longleftrightarrow>
        (\<exists>i. ?J k = Some i \<and> wi_slot_id i = ?s \<and> is_in_flight (wi_state i))" for k
      using none [of k] queued [of k] by (auto simp: J)
    show "batch_inv g (wb_operation_id b) ?J ?s a" if "sl_active ?sl = Some a" for a
      using that queued ks b by (fastforce simp: batch_inv_def J active_state_def)
  qed
  show ?thesis
  proof (rule coord_inv_states_update [OF inv _ _ _ _ _ J])
    show "slot_of (claim_batch b st) = (slot_of st)(?s \<mapsto> ?sl)"
      using sl by (auto simp: claim_batch_def fun_eq_iff)
    show "\<exists>i. intent_of st k = Some i \<and> wi_slot_id i = ?s" if "k \<in> set ?ks" for k
      using queued [OF that] by auto
  qed (use new b(2) in \<open>simp_all add: claim_batch_def\<close>)
qed

lemma next_locked_Claim:
  assumes "next_locked g e s st = (Claim b, st')"
  obtains sl p h ks where "slot_of st s = Some sl" "sl_active sl = None"
    "sl_runtime_constraint sl = RcReady" "\<not> sl_paused sl" "selected_priority sl = Some p"
    "filter (has_message st) (slot_queue p sl) = h # ks"
    "(wb_intent_ids b, wb_is_command b) = claim_selection st h (h # ks)"
    "b = claimed_batch g e s p (wb_intent_ids b) (wb_is_command b) st"
    "st' = claim_batch b st"
  using assms
  by (auto simp: next_locked_def Let_def claimed_batch_def
      split: option.splits if_splits list.splits prod.splits)

lemma next_locked_other:
  assumes "next_locked g e s st = (d, st')" and "\<And>b. d \<noteq> Claim b"
  shows "st' = st"
  using assms by (auto simp: next_locked_def Let_def
      split: option.splits if_splits list.splits prod.splits)

lemma claimed_batch_fields [simp]:
  "wb_slot_id (claimed_batch g e s p ks c st) = s"
  "wb_intent_ids (claimed_batch g e s p ks c st) = ks"
  "wb_highest_priority (claimed_batch g e s p ks c st) = p"
  "wb_session_generation (claimed_batch g e s p ks c st) = g"
  "wb_operation_id (claimed_batch g e s p ks c st) = saturating_add (cs_next_operation_id st) 1"
  "wb_batch_id (claimed_batch g e s p ks c st) = env_id e 0"
  by (simp_all add: claimed_batch_def)

lemma next_locked_inv:
  assumes inv: "coord_inv g st" and eq: "next_locked g e s st = (d, st')"
  shows "coord_inv g st'"
proof (cases "\<exists>b. d = Claim b")
  case False
  then show ?thesis using next_locked_other [OF eq] inv by auto
next
  case True
  then obtain b where "next_locked g e s st = (Claim b, st')" using eq by auto
  then obtain sl p h ks where sl: "slot_of st s = Some sl" "sl_active sl = None"
    and fifo: "filter (has_message st) (slot_queue p sl) = h # ks"
    and sel: "(wb_intent_ids b, wb_is_command b) = claim_selection st h (h # ks)"
    and b: "b = claimed_batch g e s p (wb_intent_ids b) (wb_is_command b) st"
    and st': "st' = claim_batch b st"
    by (rule next_locked_Claim)
  have fields: "wb_slot_id b = s" "wb_highest_priority b = p" "wb_session_generation b = g"
    "wb_operation_id b = saturating_add (cs_next_operation_id st) 1"
    by (subst b, simp)+
  have fifo_set: "set (h # ks) = {k \<in> set (slot_queue p sl). has_message st k}"
    using fifo by (metis set_filter)
  have dist: "distinct (h # ks)"
    using slot_inv_distinct [OF coord_inv_slot [OF inv sl(1)], of p] fifo
    by (metis distinct_filter)
  have sub: "set (wb_intent_ids b) \<subseteq> set (h # ks)" "wb_intent_ids b \<noteq> []"
    "distinct (wb_intent_ids b)"
    using claim_selection_subset [OF sel [symmetric]] dist by auto
  show ?thesis
    unfolding st'
    by (rule claim_batch_inv [OF inv])
      (use sl sub fifo_set in \<open>auto simp: fields saturating_add_ge\<close>)
qed

text \<open>
  A handle is genuine if, as long as the batch is active under its identifier, it is the batch
  that was claimed: callers pass handles back unchanged.
\<close>

definition genuine_batch :: "coordinator_state \<Rightarrow> work_batch \<Rightarrow> bool" where
  "genuine_batch st b \<longleftrightarrow>
     (\<forall>sl a. slot_of st (wb_slot_id b) = Some sl \<longrightarrow> sl_active sl = Some a \<longrightarrow>
        wb_batch_id (ab_batch a) = wb_batch_id b \<longrightarrow> ab_batch a = b)"

lemma is_current_batchD:
  assumes "is_current_batch g st b" "genuine_batch st b"
  obtains sl a where "slot_of st (wb_slot_id b) = Some sl" "sl_active sl = Some a"
    "ab_batch a = b" "wb_session_generation b = g"
  using assms by (auto simp: is_current_batch_def genuine_batch_def split: bind_splits option.splits)

text \<open>
  All intents of the active batch move to one state: the running state of the batch, or out of
  the batch.
\<close>

lemma batch_intents:
  assumes inv: "coord_inv g st" and sl: "slot_of st s = Some sl" and a: "sl_active sl = Some a"
    and k: "k \<in> set (wb_intent_ids (ab_batch a))"
  obtains i where "intent_of st k = Some i" "wi_slot_id i = s" "wi_state i = active_state a"
    "wi_priority i = wb_highest_priority (ab_batch a)" "wi_mailbox_message_id i \<noteq> None"
  using slot_inv_active [OF coord_inv_slot [OF inv sl], of k] a k
    batch_invD(6) [OF slot_inv_batch [OF coord_inv_slot [OF inv sl] a] k] by auto

lemma start_batch_inv:
  assumes inv: "coord_inv g st" and cur: "is_current_batch g st b" and gen: "genuine_batch st b"
  shows "coord_inv g (start_batch e b turn st)"
proof -
  obtain sl a where sl: "slot_of st (wb_slot_id b) = Some sl" and a: "sl_active sl = Some a"
    and b: "ab_batch a = b" using is_current_batchD [OF cur gen] by metis
  let ?s = "wb_slot_id b" and ?ks = "wb_intent_ids b"
  let ?a = "a\<lparr>ab_turn_id := Some turn, ab_started_at_ms := Some (env_now e)\<rparr>"
  let ?sl = "sl\<lparr>sl_active := Some ?a\<rparr>"
  let ?J = "intent_of (start_batch e b turn st)"
  note old = coord_inv_slot [OF inv sl]
  note batch = batch_invD [OF slot_inv_batch [OF old a]]
  have J: "?J k = (if k \<in> set ?ks then map_option (\<lambda>i. i\<lparr>wi_state := active_state ?a\<rparr>) (intent_of st k)
      else intent_of st k)" for k
    by (simp add: start_batch_def active_state_def b)
  have ks: "\<exists>i. intent_of st k = Some i \<and> wi_slot_id i = ?s \<and> is_in_flight (wi_state i)"
    if "k \<in> set ?ks" for k
    using that slot_inv_active [OF old, of k] a b by auto
  have noqueue: "k \<notin> set (slot_queue p sl)" if "k \<in> set ?ks" for k p
    using ks [OF that] slot_inv_queue [OF old, of k p] by auto
  have new: "slot_inv g (cs_next_operation_id st) ?J ?s ?sl"
    unfolding slot_inv_def
  proof (intro conjI allI impI)
    show "distinct (slot_queue p ?sl)" for p
      using slot_inv_distinct [OF old] by simp
    show "k \<in> set (slot_queue p ?sl) \<longleftrightarrow>
        (\<exists>i. ?J k = Some i \<and> wi_slot_id i = ?s \<and> wi_priority i = p \<and> wi_state i = Queued)" for p k
      using slot_inv_queue [OF old, of k p] noqueue [of k p]
      by (auto simp: J active_state_def)
    show "k \<in> set (active_ids ?sl) \<longleftrightarrow>
        (\<exists>i. ?J k = Some i \<and> wi_slot_id i = ?s \<and> is_in_flight (wi_state i))" for k
      using slot_inv_active [OF old, of k] ks [of k] a b by (auto simp: J)
    show "batch_inv g (cs_next_operation_id st) ?J ?s a'" if "sl_active ?sl = Some a'" for a'
    proof -
      have a': "a' = ?a" using that by simp
      have "wi_priority i = wb_highest_priority b \<and> wi_mailbox_message_id i \<noteq> None
          \<and> wi_state i = active_state ?a" if k: "k \<in> set ?ks" and i: "?J k = Some i" for k i
        using i k batch(6) [of k] b by (auto simp: J)
      then show ?thesis using batch(1-5) b by (simp add: batch_inv_def a')
    qed
  qed
  show ?thesis
  proof (rule coord_inv_states_update [OF inv _ _ _ _ _ J])
    show "slot_of (start_batch e b turn st) = (slot_of st)(?s \<mapsto> ?sl)"
      using sl a by (auto simp: start_batch_def fun_eq_iff)
    show "\<exists>i. intent_of st k = Some i \<and> wi_slot_id i = ?s" if "k \<in> set ?ks" for k
      using ks [OF that] by auto
  qed (use new in \<open>simp_all add: start_batch_def\<close>)
qed

lemma mark_started_locked_inv:
  assumes "coord_inv g st" "genuine_batch st b"
  shows "coord_inv g (snd (mark_started_locked g e b turn st))"
  using assms by (auto simp: mark_started_locked_def intro: start_batch_inv)

text \<open>An active batch that leaves its slot, its intents ending or going back to a lane.\<close>

lemma slot_inv_release:
  assumes inv: "slot_inv g op I s sl" and a: "sl_active sl = Some a"
    and J: "\<And>k. J k = (if k \<in> set (wb_intent_ids (ab_batch a))
       then map_option (\<lambda>i. i\<lparr>wi_state := T k\<rparr>) (I k) else I k)"
    and T: "\<And>k. k \<in> set (wb_intent_ids (ab_batch a)) \<Longrightarrow> is_terminal (T k) \<or> T k = Queued"
    and act: "sl_active sl' = None"
    and q: "\<And>p. set (slot_queue p sl') = set (slot_queue p sl) \<union>
       {k \<in> set (wb_intent_ids (ab_batch a)). T k = Queued \<and> (\<exists>i. I k = Some i \<and> wi_priority i = p)}"
    and d: "\<And>p. distinct (slot_queue p sl')"
  shows "slot_inv g op J s sl'"
  unfolding slot_inv_def
proof (intro conjI allI impI)
  let ?ks = "wb_intent_ids (ab_batch a)"
  have ks: "\<exists>i. I k = Some i \<and> wi_slot_id i = s \<and> is_in_flight (wi_state i)" if "k \<in> set ?ks" for k
    using that slot_inv_active [OF inv, of k] a by auto
  show "distinct (slot_queue p sl')" for p by (rule d)
  show "k \<in> set (slot_queue p sl') \<longleftrightarrow>
      (\<exists>i. J k = Some i \<and> wi_slot_id i = s \<and> wi_priority i = p \<and> wi_state i = Queued)" for p k
  proof (cases "k \<in> set ?ks")
    case True
    then have "k \<notin> set (slot_queue p sl)"
      using ks [OF True] slot_inv_queue [OF inv, of k p] by auto
    then show ?thesis using True ks [OF True] by (auto simp: q J)
  next
    case False
    then show ?thesis using slot_inv_queue [OF inv, of k p] by (auto simp: q J)
  qed
  show "k \<in> set (active_ids sl') \<longleftrightarrow>
      (\<exists>i. J k = Some i \<and> wi_slot_id i = s \<and> is_in_flight (wi_state i))" for k
    using slot_inv_active [OF inv, of k] T [of k] a act by (auto simp: J)
  show "batch_inv g op J s a'" if "sl_active sl' = Some a'" for a'
    using that act by simp
qed

lemma release_batch_inv:
  assumes inv: "coord_inv g st" and sl: "slot_of st s = Some sl" and a: "sl_active sl = Some a"
    and keys: "hm_keys ins = hm_keys (cs_intents st)"
    and J: "\<And>k. map_of ins k = (if k \<in> set (wb_intent_ids (ab_batch a))
       then map_option (\<lambda>i. i\<lparr>wi_state := T k\<rparr>) (intent_of st k) else intent_of st k)"
    and T: "\<And>k. k \<in> set (wb_intent_ids (ab_batch a)) \<Longrightarrow> is_terminal (T k) \<or> T k = Queued"
    and act: "sl_active (f sl) = None"
    and q: "\<And>p. set (slot_queue p (f sl)) = set (slot_queue p sl) \<union>
       {k \<in> set (wb_intent_ids (ab_batch a)).
          T k = Queued \<and> (\<exists>i. intent_of st k = Some i \<and> wi_priority i = p)}"
    and d: "\<And>p. distinct (slot_queue p (f sl))"
  shows "coord_inv g (modify_slot s f (st\<lparr>cs_intents := ins\<rparr>))"
proof -
  have new: "slot_inv g (cs_next_operation_id st) (map_of ins) s (f sl)"
    by (rule slot_inv_release [OF coord_inv_slot [OF inv sl] a J T act q d])
  show ?thesis
  proof (rule coord_inv_states_update [OF inv, where s = s and T = T
        and K = "set (wb_intent_ids (ab_batch a))"])
    show "slot_of (modify_slot s f (st\<lparr>cs_intents := ins\<rparr>)) = (slot_of st)(s \<mapsto> f sl)"
      using sl by (auto simp: fun_eq_iff)
    show "\<exists>i. intent_of st k = Some i \<and> wi_slot_id i = s" if "k \<in> set (wb_intent_ids (ab_batch a))" for k
      using batch_intents [OF inv sl a that] by metis
  qed (use new keys J in simp_all)
qed

lemma terminalize_batch_locked_inv:
  assumes inv: "coord_inv g st" and gen: "genuine_batch st b" and t: "is_terminal t"
  shows "coord_inv g (snd (terminalize_batch_locked g b t st))"
proof (cases "is_current_batch g st b")
  case False
  with inv show ?thesis by (simp add: terminalize_batch_locked_def)
next
  case True
  obtain sl a where sl: "slot_of st (wb_slot_id b) = Some sl" and a: "sl_active sl = Some a"
    and b: "ab_batch a = b" using is_current_batchD [OF True gen] by metis
  have "coord_inv g (modify_slot (wb_slot_id b) (\<lambda>sl. sl\<lparr>sl_active := None\<rparr>)
     (st\<lparr>cs_intents := set_intent_states (wb_intent_ids b) t (cs_intents st)\<rparr>))"
    by (rule release_batch_inv [OF inv sl a, where T = "\<lambda>_. t"])
      (use t b slot_inv_distinct [OF coord_inv_slot [OF inv sl]] in \<open>auto\<close>)
  with True show ?thesis by (simp add: terminalize_batch_locked_def)
qed

lemma foldr_push_front:
  "slot_queue q (foldr (queue_push_front p) ks sl) =
     (if q = p then ks @ slot_queue p sl else slot_queue q sl)"
  "sl_active (foldr (queue_push_front p) ks sl) = sl_active sl"
  by (induction ks) auto

lemma retry_start_locked_inv:
  assumes inv: "coord_inv g st" and gen: "genuine_batch st b"
  shows "coord_inv g (snd (retry_start_locked g b st))"
proof (cases "is_current_batch g st b")
  case False
  with inv show ?thesis by (simp add: retry_start_locked_def)
next
  case True
  obtain sl a where sl: "slot_of st (wb_slot_id b) = Some sl" and a: "sl_active sl = Some a"
    and b: "ab_batch a = b" using is_current_batchD [OF True gen] by metis
  note old = coord_inv_slot [OF inv sl]
  have ks: "\<exists>i. intent_of st k = Some i \<and> wi_priority i = wb_highest_priority b
      \<and> k \<notin> set (slot_queue p sl)" if k: "k \<in> set (wb_intent_ids b)" for k p
  proof -
    obtain i where i: "intent_of st k = Some i" "wi_state i = active_state a"
      "wi_priority i = wb_highest_priority b"
      using batch_intents [OF inv sl a, of k] k b by metis
    then show ?thesis using slot_inv_queue [OF old, of k p]
      by (auto simp: active_state_def split: option.splits)
  qed
  have "coord_inv g (modify_slot (wb_slot_id b)
      (\<lambda>sl. foldr (queue_push_front (wb_highest_priority b)) (wb_intent_ids b) (sl\<lparr>sl_active := None\<rparr>))
      (st\<lparr>cs_intents := set_intent_states (wb_intent_ids b) Queued (cs_intents st)\<rparr>))"
  proof (rule release_batch_inv [OF inv sl a, where T = "\<lambda>_. Queued"], goal_cases)
    case (5 p)
    show ?case using ks b by (auto simp: foldr_push_front) (metis option.inject)+
  next
    case (6 p)
    show ?case
      using ks b slot_inv_distinct [OF old] batch_invD(4) [OF slot_inv_batch [OF old a]]
      by (auto simp: foldr_push_front)
  qed (use b in \<open>auto simp: foldr_push_front\<close>)
  with True show ?thesis by (simp add: retry_start_locked_def)
qed


end
