(* ===== verification/Work_Control_Invariant.thy ===== *)
theory Work_Control_Invariant
  imports Work_Invariant
begin

text \<open>
  The control operations preserve the invariant of the coordinator's state and never panic in
  a state that satisfies it. The loops of the operations are first brought into closed form:
  what they write to an intent depends only on fields no operation rewrites.
\<close>

section \<open>The loops of the control operations in closed form\<close>

text \<open>Fields of an intent that no operation rewrites, read through the map.\<close>

definition run_of :: "(id, work_intent) hash_map \<Rightarrow> id \<Rightarrow> id option" where
  "run_of ins k = Option.bind (map_of ins k) wi_team_run_id"

definition message_of :: "(id, work_intent) hash_map \<Rightarrow> id \<Rightarrow> id option" where
  "message_of ins k = Option.bind (map_of ins k) wi_mailbox_message_id"

definition lane_of :: "(id, work_intent) hash_map \<Rightarrow> id \<Rightarrow> work_priority" where
  "lane_of ins k = (case map_of ins k of None \<Rightarrow> Background | Some i \<Rightarrow> wi_priority i)"

definition write_states ::
  "(id \<Rightarrow> work_intent_state) \<Rightarrow> id list \<Rightarrow> (id, work_intent) hash_map \<Rightarrow> (id, work_intent) hash_map" where
  "write_states T ks ins = fold (\<lambda>k. set_intent_state k (T k)) ks ins"

lemma fields_set_intent_state [simp]:
  "run_of (set_intent_state x s ins) = run_of ins"
  "message_of (set_intent_state x s ins) = message_of ins"
  "lane_of (set_intent_state x s ins) = lane_of ins"
proof -
  have "run_of (set_intent_state x s ins) k = run_of ins k
      \<and> message_of (set_intent_state x s ins) k = message_of ins k
      \<and> lane_of (set_intent_state x s ins) k = lane_of ins k" for k
    by (cases "map_of ins k") (auto simp: run_of_def message_of_def lane_of_def)
  then show "run_of (set_intent_state x s ins) = run_of ins"
    "message_of (set_intent_state x s ins) = message_of ins"
    "lane_of (set_intent_state x s ins) = lane_of ins"
    by (auto simp: fun_eq_iff)
qed

lemma fields_of_intent:
  assumes "map_of ins k = Some i"
  shows "run_of ins k = wi_team_run_id i" "message_of ins k = wi_mailbox_message_id i"
    "lane_of ins k = wi_priority i"
  using assms by (simp_all add: run_of_def message_of_def lane_of_def)

lemma write_states_simps [simp]:
  "write_states T [] ins = ins"
  "write_states T (k # ks) ins = write_states T ks (set_intent_state k (T k) ins)"
  by (simp_all add: write_states_def)

lemma map_of_write_states [simp]:
  "map_of (write_states T ks ins) x =
     (if x \<in> set ks then map_option (\<lambda>i. i\<lparr>wi_state := T x\<rparr>) (map_of ins x) else map_of ins x)"
  by (induction ks arbitrary: ins) (auto simp: option.map_comp comp_def)

lemma hm_keys_write_states [simp]: "hm_keys (write_states T ks ins) = hm_keys ins"
proof (induction ks arbitrary: ins)
  case (Cons k ks)
  then show ?case by (simp only: write_states_simps hm_keys_set_intent_state)
qed simp

lemma fields_write_states [simp]:
  "run_of (write_states T ks ins) = run_of ins"
  "message_of (write_states T ks ins) = message_of ins"
  "lane_of (write_states T ks ins) = lane_of ins"
  by (induction ks arbitrary: ins) auto

definition cancelled_run_state :: "id \<Rightarrow> (id, work_intent) hash_map \<Rightarrow> id \<Rightarrow> work_intent_state" where
  "cancelled_run_state run ins k =
     (if run_of ins k = Some run then Cancelled ''run_cancelled'' else Queued)"

definition constrained_state ::
  "bool \<Rightarrow> string \<Rightarrow> (id, work_intent) hash_map \<Rightarrow> id \<Rightarrow> work_intent_state" where
  "constrained_state stopped cl ins k =
     (if run_of ins k = None \<and> \<not> stopped then Queued
      else if stopped then Cancelled cl else Failed cl)"

lemma state_choice_set [simp]:
  "cancelled_run_state run (set_intent_state x s ins) = cancelled_run_state run ins"
  "constrained_state b cl (set_intent_state x s ins) = constrained_state b cl ins"
  "cancelled_run_state run (write_states T ks ins) = cancelled_run_state run ins"
  by (simp_all add: fun_eq_iff cancelled_run_state_def constrained_state_def)

lemma cancel_active_batch_eq:
  assumes "\<And>k. k \<in> set ks \<Longrightarrow> map_of ins k \<noteq> None"
  shows "cancel_active_batch run ks ins =
    Some (map (\<lambda>k. (lane_of ins k, k)) (filter (\<lambda>k. run_of ins k \<noteq> Some run) ks),
          filter_map (message_of ins) (filter (\<lambda>k. run_of ins k = Some run) ks),
          write_states (cancelled_run_state run ins) ks ins)"
  using assms
proof (induction ks arbitrary: ins)
  case (Cons k ks)
  obtain i where i: "map_of ins k = Some i" using Cons.prems [of k] by auto
  have "\<And>x s. x \<in> set ks \<Longrightarrow> map_of (set_intent_state k s ins) x \<noteq> None"
    using Cons.prems by auto
  note IH = Cons.IH [OF this]
  show ?case
    by (auto simp: i IH cancelled_run_state_def fields_of_intent [OF i])
qed simp

lemma constrain_intents_eq:
  assumes "\<And>k. k \<in> set ks \<Longrightarrow> map_of ins k \<noteq> None"
  shows "constrain_intents stopped cl ks ins =
    Some (map (\<lambda>k. (lane_of ins k, k)) (filter (\<lambda>k. run_of ins k = None \<and> \<not> stopped) ks),
          filter_map (message_of ins) (filter (\<lambda>k. \<not> (run_of ins k = None \<and> \<not> stopped)) ks),
          filter_map (run_of ins) (filter (\<lambda>k. \<not> (run_of ins k = None \<and> \<not> stopped)) ks),
          write_states (constrained_state stopped cl ins) ks ins)"
  using assms
proof (induction ks arbitrary: ins)
  case (Cons k ks)
  obtain i where i: "map_of ins k = Some i" using Cons.prems [of k] by auto
  have "\<And>x s. x \<in> set ks \<Longrightarrow> map_of (set_intent_state k s ins) x \<noteq> None"
    using Cons.prems by auto
  note IH = Cons.IH [OF this]
  show ?case
    using IH constrained_state_def [of stopped cl ins k]
    by (cases "wi_team_run_id i = None"; cases stopped) (auto simp: i fields_of_intent [OF i])
qed simp

lemma drop_intents_eq:
  assumes "\<And>k. k \<in> set ks \<Longrightarrow> map_of ins k \<noteq> None"
  shows "drop_intents ks ins =
    Some (filter_map (message_of ins) ks, filter_map (run_of ins) ks,
          write_states (\<lambda>_. Cancelled ''slot_removed'') ks ins)"
  using assms
proof (induction ks arbitrary: ins)
  case (Cons k ks)
  obtain i where i: "map_of ins k = Some i" using Cons.prems [of k] by auto
  have "\<And>x s. x \<in> set ks \<Longrightarrow> map_of (set_intent_state k s ins) x \<noteq> None"
    using Cons.prems by auto
  note IH = Cons.IH [OF this]
  show ?case by (simp add: i IH fields_of_intent [OF i])
qed simp

lemma slot_queue_requeue_front [simp]:
  "slot_queue p (requeue_front rs sl) = map snd (filter (\<lambda>r. fst r = p) rs) @ slot_queue p sl"
  by (induction rs) (auto simp: requeue_front_def)

lemma requeue_front_frame [simp]:
  "sl_active (requeue_front rs sl) = sl_active sl"
  "sl_paused (requeue_front rs sl) = sl_paused sl"
  "sl_runtime_constraint (requeue_front rs sl) = sl_runtime_constraint sl"
  "sl_removed (requeue_front rs sl) = sl_removed sl"
  by (induction rs) (auto simp: requeue_front_def)

lemma slot_queue_requeue_back [simp]:
  "slot_queue p (requeue_back rs sl) = slot_queue p sl @ map snd (filter (\<lambda>r. fst r = p) rs)"
  by (induction rs arbitrary: sl) (auto simp: requeue_back_def)

lemma requeue_back_frame [simp]:
  "sl_active (requeue_back rs sl) = sl_active sl"
  "sl_paused (requeue_back rs sl) = sl_paused sl"
  "sl_runtime_constraint (requeue_back rs sl) = sl_runtime_constraint sl"
  "sl_removed (requeue_back rs sl) = sl_removed sl"
  by (induction rs arbitrary: sl) (auto simp: requeue_back_def)

section \<open>Preservation: the control operations\<close>

lemma cancel_active_slots_inv:
  assumes "coord_inv g st"
    and "\<And>s a. (s, a) \<in> set xs \<Longrightarrow> \<exists>sl. slot_of st s = Some sl \<and> sl_active sl = Some a"
    and "distinct (map fst xs)"
  shows "\<exists>ms st'. cancel_active_slots run xs st = Some (ms, st') \<and> coord_inv g st' \<and>
    cs_enqueue_leases st' = cs_enqueue_leases st \<and>
    cs_next_operation_id st' = cs_next_operation_id st \<and>
    (\<forall>k. intent_of st' k =
       (if \<exists>(s, a) \<in> set xs. k \<in> set (wb_intent_ids (ab_batch a))
        then map_option (\<lambda>i. i\<lparr>wi_state := cancelled_run_state run (cs_intents st) k\<rparr>) (intent_of st k)
        else intent_of st k)) \<and>
    (\<forall>s. slot_of st' s =
       (case map_of xs s of None \<Rightarrow> slot_of st s
        | Some a \<Rightarrow> map_option (\<lambda>sl. requeue_front
            (map (\<lambda>k. (lane_of (cs_intents st) k, k))
              (filter (\<lambda>k. run_of (cs_intents st) k \<noteq> Some run) (wb_intent_ids (ab_batch a))))
            (sl\<lparr>sl_active := None\<rparr>)) (slot_of st s)))"
  using assms
proof (induction xs arbitrary: st)
  case Nil
  then show ?case by simp
next
  case (Cons x xs)
  obtain s a where x: "x = (s, a)" by (cases x)
  obtain sl where sl: "slot_of st s = Some sl" and a: "sl_active sl = Some a"
    using Cons.prems(2) [of s a] x by auto
  let ?ks = "wb_intent_ids (ab_batch a)" and ?ins = "cs_intents st"
  let ?T = "cancelled_run_state run ?ins"
  let ?rs = "map (\<lambda>k. (lane_of ?ins k, k)) (filter (\<lambda>k. run_of ?ins k \<noteq> Some run) ?ks)"
  let ?f = "\<lambda>sl. requeue_front ?rs (sl\<lparr>sl_active := None\<rparr>)"
  let ?st = "modify_slot s ?f (st\<lparr>cs_intents := write_states ?T ?ks ?ins\<rparr>)"
  note inv = Cons.prems(1)
  note old = coord_inv_slot [OF inv sl]
  have ks: "\<exists>i. intent_of st k = Some i \<and> wi_state i = active_state a \<and> lane_of ?ins k = wi_priority i"
    if "k \<in> set ?ks" for k
    using batch_intents [OF inv sl a that] by (metis lane_of_def option.simps(5))
  have batch: "cancel_active_batch run ?ks ?ins =
      Some (?rs, filter_map (message_of ?ins) (filter (\<lambda>k. run_of ?ins k = Some run) ?ks),
        write_states ?T ?ks ?ins)"
    by (rule cancel_active_batch_eq) (use ks in blast)
  have noqueue: "k \<notin> set (slot_queue p sl)" if "k \<in> set ?ks" for k p
    using ks [OF that] slot_inv_queue [OF old, of k p] by (auto simp: active_state_def split: option.splits)
  have inv1: "coord_inv g ?st"
  proof (rule release_batch_inv [OF inv sl a, where T = ?T], goal_cases)
    case (5 p)
    have lane: "(\<exists>i. intent_of st k = Some i \<and> wi_priority i = p) \<longleftrightarrow> lane_of ?ins k = p"
      if "k \<in> set ?ks" for k
      using ks [OF that] by auto
    have q: "set (slot_queue p (?f sl)) =
        set (slot_queue p sl) \<union> {k \<in> set ?ks. ?T k = Queued \<and> lane_of ?ins k = p}"
      by (auto simp: filter_map comp_def cancelled_run_state_def)
    have "{k \<in> set ?ks. ?T k = Queued \<and> (\<exists>i. intent_of st k = Some i \<and> wi_priority i = p)} =
        {k \<in> set ?ks. ?T k = Queued \<and> lane_of ?ins k = p}"
      using lane by blast
    with q show ?case by (simp only:)
  next
    case (6 p)
    show ?case
      using noqueue slot_inv_distinct [OF old, of p] batch_invD(4) [OF slot_inv_batch [OF old a]]
      by (auto simp: filter_map comp_def distinct_map inj_on_def)
  qed (auto simp: cancelled_run_state_def)
  have "\<exists>sl'. slot_of ?st s' = Some sl' \<and> sl_active sl' = Some a'" if "(s', a') \<in> set xs" for s' a'
  proof -
    have "s' \<noteq> s" using that Cons.prems(3) x by force
    then show ?thesis using Cons.prems(2) [of s' a'] that by simp
  qed
  moreover have "distinct (map fst xs)" using Cons.prems(3) by simp
  ultimately obtain ms st' where rest: "cancel_active_slots run xs ?st = Some (ms, st')"
    and inv': "coord_inv g st'" and ls: "cs_enqueue_leases st' = cs_enqueue_leases ?st"
    and op: "cs_next_operation_id st' = cs_next_operation_id ?st"
    and ins: "\<And>k. intent_of st' k =
       (if \<exists>(s, a) \<in> set xs. k \<in> set (wb_intent_ids (ab_batch a))
        then map_option (\<lambda>i. i\<lparr>wi_state := cancelled_run_state run (cs_intents ?st) k\<rparr>) (intent_of ?st k)
        else intent_of ?st k)"
    and slots: "\<And>s. slot_of st' s =
       (case map_of xs s of None \<Rightarrow> slot_of ?st s
        | Some a \<Rightarrow> map_option (\<lambda>sl. requeue_front
            (map (\<lambda>k. (lane_of (cs_intents ?st) k, k))
              (filter (\<lambda>k. run_of (cs_intents ?st) k \<noteq> Some run) (wb_intent_ids (ab_batch a))))
            (sl\<lparr>sl_active := None\<rparr>)) (slot_of ?st s))"
    using Cons.IH [OF inv1] by auto
  have "map_of xs s = None" using Cons.prems(3) x by (auto simp: map_of_eq_None_iff)
  then have "slot_of st' z = (case map_of (x # xs) z of None \<Rightarrow> slot_of st z
        | Some a \<Rightarrow> map_option (\<lambda>sl. requeue_front
            (map (\<lambda>k. (lane_of (cs_intents st) k, k))
              (filter (\<lambda>k. run_of (cs_intents st) k \<noteq> Some run) (wb_intent_ids (ab_batch a))))
            (sl\<lparr>sl_active := None\<rparr>)) (slot_of st z))" for z
    using slots [of z] sl by (auto simp: x split: option.splits)
  moreover have "intent_of st' k =
       (if \<exists>(s, a) \<in> set (x # xs). k \<in> set (wb_intent_ids (ab_batch a))
        then map_option (\<lambda>i. i\<lparr>wi_state := cancelled_run_state run (cs_intents st) k\<rparr>) (intent_of st k)
        else intent_of st k)" for k
    using ins [of k] by (auto simp: x option.map_comp comp_def)
  moreover have "cancel_active_slots run (x # xs) st =
      Some (filter_map (message_of ?ins) (filter (\<lambda>k. run_of ?ins k = Some run) ?ks) @ ms, st')"
    using rest by (simp add: x batch)
  ultimately show ?case using inv' ls op by auto
qed

lemma cancel_queued_intents_inv:
  assumes "coord_inv g st" and "distinct ks"
    and "\<And>k. k \<in> set ks \<Longrightarrow> \<exists>i. intent_of st k = Some i \<and> wi_state i = Queued"
  shows "\<exists>ms st'. cancel_queued_intents ks st = Some (ms, st') \<and> coord_inv g st' \<and>
    cs_enqueue_leases st' = cs_enqueue_leases st \<and>
    cs_next_operation_id st' = cs_next_operation_id st \<and>
    (\<forall>k. intent_of st' k =
       (if k \<in> set ks then map_option (\<lambda>i. i\<lparr>wi_state := Cancelled ''run_cancelled''\<rparr>) (intent_of st k)
        else intent_of st k)) \<and>
    (\<forall>s. map_option sl_active (slot_of st' s) = map_option sl_active (slot_of st s)) \<and>
    ms = filter_map (message_of (cs_intents st)) ks"
  using assms
proof (induction ks arbitrary: st)
  case Nil
  then show ?case by simp
next
  case (Cons k ks)
  obtain i where i: "intent_of st k = Some i" "wi_state i = Queued" using Cons.prems(3) [of k] by auto
  obtain sl where sl: "slot_of st (wi_slot_id i) = Some sl"
    using coord_inv_home [OF Cons.prems(1) i(1)] i(2) by auto
  let ?t = "Cancelled ''run_cancelled''"
  let ?st = "modify_slot (wi_slot_id i) (fold remove_queued [k])
    (st\<lparr>cs_intents := set_intent_state k ?t (cs_intents st)\<rparr>)"
  have inv1: "coord_inv g ?st"
    by (rule coord_inv_settle [OF Cons.prems(1) sl, where t = ?t])
      (use i in \<open>auto simp del: map_map\<close>)
  have "\<exists>i. intent_of ?st x = Some i \<and> wi_state i = Queued" if "x \<in> set ks" for x
    using that Cons.prems(2,3) by auto
  moreover have "distinct ks" using Cons.prems(2) by simp
  ultimately obtain ms st' where rest: "cancel_queued_intents ks ?st = Some (ms, st')"
    and inv': "coord_inv g st'" and ls: "cs_enqueue_leases st' = cs_enqueue_leases ?st"
    and op: "cs_next_operation_id st' = cs_next_operation_id ?st"
    and ins: "\<And>x. intent_of st' x =
       (if x \<in> set ks then map_option (\<lambda>i. i\<lparr>wi_state := ?t\<rparr>) (intent_of ?st x) else intent_of ?st x)"
    and act: "\<And>s. map_option sl_active (slot_of st' s) = map_option sl_active (slot_of ?st s)"
    and ms: "ms = filter_map (message_of (cs_intents ?st)) ks"
    using Cons.IH [OF inv1] by auto
  have "intent_of st' x =
       (if x \<in> set (k # ks) then map_option (\<lambda>i. i\<lparr>wi_state := ?t\<rparr>) (intent_of st x) else intent_of st x)" for x
    using ins [of x] by (auto simp: option.map_comp comp_def)
  moreover have "map_option sl_active (slot_of st' s) = map_option sl_active (slot_of st s)" for s
    using act [of s] by (auto simp: option.map_comp comp_def)
  moreover have "cancel_queued_intents (k # ks) st =
      Some (filter_map (message_of (cs_intents st)) (k # ks), st')"
    using rest ms i by (simp add: fields_of_intent [OF i(1)])
  ultimately show ?case using inv' ls op by auto
qed

text \<open>A run has no work exactly when its intents have ended and it holds no lease.\<close>

lemma work_intent_state_live:
  "is_terminal s \<longleftrightarrow> s \<noteq> Queued \<and> starting_batch s = None \<and> running_batch s = None"
  by (cases s) auto

lemma no_work_iff:
  "no_work (run_summary_locked st run) \<longleftrightarrow>
     (\<forall>i \<in> set (intents st). wi_team_run_id i = Some run \<longrightarrow> is_terminal (wi_state i)) \<and>
     run_leases st run = []"
proof -
  have "no_work (run_summary_locked st run) \<longleftrightarrow>
      (\<forall>i \<in> set (run_intents st run). wi_state i \<noteq> Queued) \<and>
      (\<forall>i \<in> set (run_intents st run). starting_batch (wi_state i) = None) \<and>
      (\<forall>i \<in> set (run_intents st run). running_batch (wi_state i) = None) \<and>
      run_leases st run = []"
  proof -
    show ?thesis
      by (auto simp: no_work_def run_summary_locked_def Let_def filter_map_Nil filter_empty_conv)
  qed
  also have "\<dots> \<longleftrightarrow> (\<forall>i \<in> set (intents st). wi_team_run_id i = Some run \<longrightarrow> is_terminal (wi_state i)) \<and>
     run_leases st run = []"
    by (auto simp: run_intents_def work_intent_state_live)
  finally show ?thesis .
qed

lemma intents_iff:
  "coord_inv g st \<Longrightarrow> i \<in> set (intents st) \<longleftrightarrow> intent_of st (wi_intent_id i) = Some i"
  using hm_values_iff [OF coord_inv_keys(2), of g st i] coord_inv_intent [of g st _ i] by metis

lemma leases_iff:
  "coord_inv g st \<Longrightarrow>
    r \<in> set (leases st) \<longleftrightarrow> lease_of st (el_lease_id (lr_lease r)) = Some r"
  using hm_values_iff [OF coord_inv_keys(3), of g st r] coord_inv_lease [of g st _ r] by metis

lemma drop_run_leases_inv:
  assumes inv: "coord_inv g st"
  shows "coord_inv g (drop_run_leases run st)" "run_leases (drop_run_leases run st) run = []"
    "lease_of (drop_run_leases run st) k = (case lease_of st k of None \<Rightarrow> None
       | Some r \<Rightarrow> if el_team_run_id (lr_lease r) = Some run then None else Some r)"
proof -
  have key: "el_lease_id (lr_lease r) = k" if "lease_of st k = Some r" for k r
    using coord_inv_lease [OF inv that] .
  have mem: "r \<in> set (run_leases st run) \<longleftrightarrow>
      lease_of st (el_lease_id (lr_lease r)) = Some r \<and> el_team_run_id (lr_lease r) = Some run" for r
    using leases_iff [OF inv, of r] by (auto simp: run_leases_def)
  have of: "lease_of (drop_run_leases run st) k = (case lease_of st k of None \<Rightarrow> None
       | Some r \<Rightarrow> if el_team_run_id (lr_lease r) = Some run then None else Some r)" for k
  proof -
    have "k \<in> (\<lambda>r. el_lease_id (lr_lease r)) ` set (run_leases st run) \<longleftrightarrow>
        (\<exists>r. lease_of st k = Some r \<and> el_team_run_id (lr_lease r) = Some run)"
      using mem key by (metis (mono_tags, lifting) image_iff)
    then show ?thesis
      by (auto simp: drop_run_leases_def map_of_fold_hm_remove split: option.split)
  qed
  show "lease_of (drop_run_leases run st) k = (case lease_of st k of None \<Rightarrow> None
       | Some r \<Rightarrow> if el_team_run_id (lr_lease r) = Some run then None else Some r)" by (rule of)
  have keys: "distinct (hm_keys (cs_enqueue_leases (drop_run_leases run st)))"
    using coord_inv_keys(3) [OF inv] distinct_fold_hm_remove
    by (simp add: drop_run_leases_def del: set_map)
  have "coord_inv g (st\<lparr>cs_enqueue_leases := cs_enqueue_leases (drop_run_leases run st)\<rparr>)"
    by (rule coord_inv_leases [OF inv keys])
      (use of key in \<open>auto split: option.splits if_splits\<close>)
  then show inv': "coord_inv g (drop_run_leases run st)"
    by (simp add: drop_run_leases_def)
  show "run_leases (drop_run_leases run st) run = []"
    unfolding run_leases_def filter_empty_conv
  proof (intro ballI notI)
    fix r assume r: "r \<in> set (leases (drop_run_leases run st))"
      "el_team_run_id (lr_lease r) = Some run"
    then have "lease_of (drop_run_leases run st) (el_lease_id (lr_lease r)) = Some r"
      using leases_iff [OF inv', of r] by blast
    with of r(2) show False by (auto split: option.splits if_splits)
  qed
qed

text \<open>The active batches a cancelled run shares, and the intents they hold.\<close>

lemma active_slots_of_run_iff:
  assumes "coord_inv g st"
  shows "(s, a) \<in> set (active_slots_of_run st run) \<longleftrightarrow>
    (\<exists>sl. slot_of st s = Some sl \<and> sl_active sl = Some a) \<and> batch_touches_run st run a"
proof -
  have slots: "(s', sl) \<in> set (cs_slots st) \<longleftrightarrow> slot_of st s' = Some sl" for s' sl
    using coord_inv_keys(4) [OF assms] by (simp add: map_of_eq_Some_iff)
  have f: "(case sl_active sl of None \<Rightarrow> None
      | Some a' \<Rightarrow> if batch_touches_run st run a' then Some (s', a') else None) = Some (s, a) \<longleftrightarrow>
      s' = s \<and> sl_active sl = Some a \<and> batch_touches_run st run a" for s' sl
    by (auto split: option.split)
  show ?thesis
    unfolding active_slots_of_run_def set_filter_map Bex_def split_paired_Ex prod.case slots f
    by blast
qed

lemma distinct_active_slots:
  "coord_inv g st \<Longrightarrow> distinct (map fst (active_slots_of_run st run))"
  unfolding active_slots_of_run_def
  by (rule distinct_filter_map_fst) (auto simp: coord_inv_keys simp del: set_map split: option.splits if_splits)

definition shares_batch :: "coordinator_state \<Rightarrow> id \<Rightarrow> id \<Rightarrow> bool" where
  "shares_batch st run k \<longleftrightarrow>
     (\<exists>s sl a. slot_of st s = Some sl \<and> sl_active sl = Some a \<and>
        batch_touches_run st run a \<and> k \<in> set (wb_intent_ids (ab_batch a)))"

text \<open>What cancelling a run does to an intent.\<close>

definition cancel_effect :: "coordinator_state \<Rightarrow> id \<Rightarrow> work_intent \<Rightarrow> work_intent" where
  "cancel_effect st run i =
     (if wi_team_run_id i = Some run \<and> \<not> is_terminal (wi_state i)
      then i\<lparr>wi_state := Cancelled ''run_cancelled''\<rparr>
      else if shares_batch st run (wi_intent_id i) then i\<lparr>wi_state := Queued\<rparr> else i)"

lemma cancel_effect_run [simp]: "wi_team_run_id (cancel_effect st run i) = wi_team_run_id i"
  by (simp add: cancel_effect_def)

lemma shares_batch_intent:
  assumes inv: "coord_inv g st" and "shares_batch st run k"
  obtains i where "intent_of st k = Some i" "is_in_flight (wi_state i)"
  using assms unfolding shares_batch_def
  by (metis active_state_in_flight batch_intents)

lemma in_flight_shares:
  assumes inv: "coord_inv g st" and i: "intent_of st k = Some i" "is_in_flight (wi_state i)"
    and run: "wi_team_run_id i = Some run"
  shows "shares_batch st run k"
proof -
  obtain sl where sl: "slot_of st (wi_slot_id i) = Some sl"
    using coord_inv_home [OF inv i(1)] i(2) by (metis in_flight_not_terminal)
  then have "k \<in> set (active_ids sl)"
    using slot_inv_active [OF coord_inv_slot [OF inv sl]] i by metis
  then obtain a where a: "sl_active sl = Some a" "k \<in> set (wb_intent_ids (ab_batch a))"
    by (cases "sl_active sl") auto
  have "batch_touches_run st run a"
    using a(2) i(1) run by (auto simp: batch_touches_run_def intro!: bexI [of _ k])
  with sl a show ?thesis by (auto simp: shares_batch_def)
qed

lemma distinct_intent_ids:
  assumes "coord_inv g st"
  shows "distinct (map wi_intent_id (intents st))"
proof -
  have "wi_intent_id (snd x) = fst x" if "x \<in> set (cs_intents st)" for x
    using coord_inv_intent [OF assms, of "fst x" "snd x"] coord_inv_keys(2) [OF assms] that
    by (simp add: map_of_eq_Some_iff)
  then have "map wi_intent_id (intents st) = hm_keys (cs_intents st)"
    by simp
  then show ?thesis
    using coord_inv_keys(2) [OF assms] by (simp only:)
qed

lemma queued_run_ids_iff:
  assumes "coord_inv g st"
  shows "k \<in> set (queued_run_ids st run) \<longleftrightarrow>
    (\<exists>i. intent_of st k = Some i \<and> wi_team_run_id i = Some run \<and> wi_state i = Queued)"
    "distinct (queued_run_ids st run)"
proof -
  have key: "wi_intent_id i = k" if "intent_of st k = Some i" for k i
    using coord_inv_intent [OF assms that] .
  show "k \<in> set (queued_run_ids st run) \<longleftrightarrow>
    (\<exists>i. intent_of st k = Some i \<and> wi_team_run_id i = Some run \<and> wi_state i = Queued)"
    using intents_iff [OF assms] key unfolding queued_run_ids_def set_map set_filter by blast
  show "distinct (queued_run_ids st run)"
    unfolding queued_run_ids_def by (rule distinct_map_filter) (rule distinct_intent_ids [OF assms])
qed

lemma intents_all_iff:
  "coord_inv g st \<Longrightarrow> (\<forall>i \<in> set (intents st). P i) \<longleftrightarrow> (\<forall>k i. intent_of st k = Some i \<longrightarrow> P i)"
  using hm_values_iff [OF coord_inv_keys(2)] by metis

lemma cancel_run_locked_spec:
  assumes inv: "coord_inv g st"
  obtains r st' where "cancel_run_locked run st = Some (r, st')" "coord_inv g st'"
    "\<And>k. intent_of st' k = map_option (cancel_effect st run) (intent_of st k)"
    "\<And>k. lease_of st' k = (case lease_of st k of None \<Rightarrow> None
       | Some l \<Rightarrow> if el_team_run_id (lr_lease l) = Some run then None else Some l)"
    "run_leases st' run = []" "cr_summary r = run_summary_locked st' run"
    "cs_next_operation_id st' = cs_next_operation_id st"
    "cr_cancel_targets r = map (\<lambda>(s, a). \<lparr>bc_batch = ab_batch a, bc_turn_id = ab_turn_id a\<rparr>)
       (active_slots_of_run st run)"
    "\<And>s. map_option sl_active (slot_of st' s) = map_option
       (\<lambda>sl. case sl_active sl of None \<Rightarrow> None
             | Some a \<Rightarrow> if batch_touches_run st run a then None else Some a) (slot_of st s)"
proof -
  let ?xs = "active_slots_of_run st run" and ?c = "Cancelled ''run_cancelled''"
  have "\<exists>sl. slot_of st s = Some sl \<and> sl_active sl = Some a" if "(s, a) \<in> set ?xs" for s a
    using that active_slots_of_run_iff [OF inv] by blast
  then obtain ms1 st1 where one: "cancel_active_slots run ?xs st = Some (ms1, st1)"
    and inv1: "coord_inv g st1" and ls1: "cs_enqueue_leases st1 = cs_enqueue_leases st"
    and op1: "cs_next_operation_id st1 = cs_next_operation_id st"
    and ins1: "\<And>k. intent_of st1 k =
       (if \<exists>(s, a) \<in> set ?xs. k \<in> set (wb_intent_ids (ab_batch a))
        then map_option (\<lambda>i. i\<lparr>wi_state := cancelled_run_state run (cs_intents st) k\<rparr>) (intent_of st k)
        else intent_of st k)"
    and slots1: "\<And>s. slot_of st1 s =
       (case map_of ?xs s of None \<Rightarrow> slot_of st s
        | Some a \<Rightarrow> map_option (\<lambda>sl. requeue_front
            (map (\<lambda>k. (lane_of (cs_intents st) k, k))
              (filter (\<lambda>k. run_of (cs_intents st) k \<noteq> Some run) (wb_intent_ids (ab_batch a))))
            (sl\<lparr>sl_active := None\<rparr>)) (slot_of st s))"
    using cancel_active_slots_inv [OF inv _ distinct_active_slots [OF inv], of run run] by blast
  have shares: "(\<exists>(s, a) \<in> set ?xs. k \<in> set (wb_intent_ids (ab_batch a))) \<longleftrightarrow> shares_batch st run k" for k
    unfolding shares_batch_def Bex_def split_paired_Ex prod.case active_slots_of_run_iff [OF inv] by blast
  let ?qs = "queued_run_ids st1 run"
  note qs = queued_run_ids_iff [OF inv1]
  have "\<exists>i. intent_of st1 k = Some i \<and> wi_state i = Queued" if "k \<in> set ?qs" for k
    using that qs(1) by blast
  then obtain ms2 st2 where two: "cancel_queued_intents ?qs st1 = Some (ms2, st2)"
    and inv2: "coord_inv g st2" and ls2: "cs_enqueue_leases st2 = cs_enqueue_leases st1"
    and op2: "cs_next_operation_id st2 = cs_next_operation_id st1"
    and ins2: "\<And>k. intent_of st2 k =
       (if k \<in> set ?qs then map_option (\<lambda>i. i\<lparr>wi_state := ?c\<rparr>) (intent_of st1 k) else intent_of st1 k)"
    and act2: "\<And>s. map_option sl_active (slot_of st2 s) = map_option sl_active (slot_of st1 s)"
    using cancel_queued_intents_inv [OF inv1 qs(2)] by blast
  let ?st = "drop_run_leases run st2"
  have eq: "cancel_run_locked run st = Some (\<lparr>cr_cancel_targets =
      map (\<lambda>(s, a). \<lparr>bc_batch = ab_batch a, bc_turn_id = ab_turn_id a\<rparr>) ?xs,
      cr_terminal_message_ids = ms1 @ ms2, cr_summary = run_summary_locked ?st run\<rparr>, ?st)"
    by (simp add: cancel_run_locked_def one two Let_def)
  have intents: "intent_of ?st k = map_option (cancel_effect st run) (intent_of st k)" for k
  proof (cases "intent_of st k")
    case None
    then have "intent_of st1 k = None" by (simp add: ins1)
    then show ?thesis by (simp add: drop_run_leases_def ins2 None)
  next
    case (Some i)
    have id: "wi_intent_id i = k" using coord_inv_intent [OF inv Some] .
    have run: "run_of (cs_intents st) k = wi_team_run_id i" using fields_of_intent [OF Some] by blast
    have st1: "intent_of st1 k = Some (if shares_batch st run k
        then i\<lparr>wi_state := if wi_team_run_id i = Some run then ?c else Queued\<rparr> else i)"
      by (simp add: ins1 shares Some cancelled_run_state_def run)
    have live: "is_in_flight (wi_state i)" if "shares_batch st run k"
      using shares_batch_intent [OF inv that] Some by auto
    have own: "wi_team_run_id i = Some run \<Longrightarrow> \<not> is_terminal (wi_state i) \<Longrightarrow>
        shares_batch st run k \<or> wi_state i = Queued"
      using in_flight_shares [OF inv Some] not_terminal_iff by blast
    have mem: "k \<in> set ?qs \<longleftrightarrow> wi_team_run_id i = Some run \<and> wi_state i = Queued"
      unfolding qs(1) st1 using live by auto
    show ?thesis
      using live own by (auto simp: drop_run_leases_def ins2 mem st1 Some cancel_effect_def id)
  qed
  have slots: "map_option sl_active (slot_of ?st s) = map_option
       (\<lambda>sl. case sl_active sl of None \<Rightarrow> None
             | Some a \<Rightarrow> if batch_touches_run st run a then None else Some a) (slot_of st s)" for s
  proof -
    have "map_option sl_active (slot_of st1 s) = map_option
       (\<lambda>sl. case sl_active sl of None \<Rightarrow> None
             | Some a \<Rightarrow> if batch_touches_run st run a then None else Some a) (slot_of st s)"
    proof (cases "map_of ?xs s")
      case (Some a)
      then have "(s, a) \<in> set ?xs" by (rule map_of_SomeD)
      then show ?thesis
        using active_slots_of_run_iff [OF inv] by (auto simp: slots1 Some)
    next
      case None
      then have "\<not> (\<exists>a. (s, a) \<in> set ?xs)" by (force simp: map_of_eq_None_iff)
      then have "\<not> batch_touches_run st run a"
        if "slot_of st s = Some sl" "sl_active sl = Some a" for sl a
        using active_slots_of_run_iff [OF inv] that by blast
      then show ?thesis
        by (cases "slot_of st s") (auto simp: slots1 None split: option.split)
    qed
    then show ?thesis by (simp add: drop_run_leases_def act2)
  qed
  show ?thesis
    by (rule that [OF eq drop_run_leases_inv(1) [OF inv2] intents _ drop_run_leases_inv(2) [OF inv2] _ _ _ slots])
      (simp_all add: drop_run_leases_inv(3) [OF inv2] ls1 ls2, simp_all add: drop_run_leases_def op1 op2)
qed

lemma complete_signals_locked_inv:
  assumes inv: "coord_inv g st"
  shows "coord_inv g (snd (complete_signals_locked s ks st))"
proof (cases "\<forall>k \<in> set ks. signal_settleable st s k")
  case False
  with inv show ?thesis by (simp add: complete_signals_locked_def)
next
  case True
  then have ks: "\<exists>i. intent_of st k = Some i \<and> wi_slot_id i = s \<and> wi_state i = Queued"
    if "k \<in> set ks" for k
    using that by (auto simp: signal_settleable_def split: option.splits)
  show ?thesis
  proof (cases "slot_of st s")
    case (Some sl)
    have "coord_inv g (modify_slot s (fold remove_queued ks)
        (st\<lparr>cs_intents := set_intent_states ks Completed (cs_intents st)\<rparr>))"
      by (rule coord_inv_settle [OF inv Some ks, where t = Completed]) simp_all
    with True show ?thesis by (simp add: complete_signals_locked_def)
  next
    case None
    have "ks = []"
    proof (rule ccontr)
      assume "ks \<noteq> []"
      then obtain i where "intent_of st (hd ks) = Some i" "wi_slot_id i = s" "wi_state i = Queued"
        using ks [of "hd ks"] by auto
      then show False using coord_inv_home [OF inv] None by fastforce
    qed
    moreover have "modify_slot s id st = st" using None by (simp add: modify_slot_def hm_modify_None)
    ultimately show ?thesis using inv
      by (simp add: complete_signals_locked_def set_intent_states_def id_def)
  qed
qed

lemma pause_slot_inv:
  assumes "coord_inv g (co_state c)"
  shows "coord_inv g (co_state (snd (pause_slot s c)))"
  by (simp add: pause_slot_def Let_def)
    (rule coord_inv_put_slot_frame [OF assms, where r = RoleTeammate], auto)

text \<open>
  An operation that empties a slot: every live intent of the slot ends or goes back to a lane,
  and the lanes hold those that went back.
\<close>

lemma coord_inv_reset_slot:
  assumes inv: "coord_inv g st" and sl: "slot_of st s = Some sl"
    and keys: "hm_keys ins = hm_keys (cs_intents st)"
    and J: "\<And>k. map_of ins k = (if k \<in> K
       then map_option (\<lambda>i. i\<lparr>wi_state := T k\<rparr>) (intent_of st k) else intent_of st k)"
    and K: "\<And>k. k \<in> K \<longleftrightarrow> (\<exists>i. intent_of st k = Some i \<and> wi_slot_id i = s \<and> \<not> is_terminal (wi_state i))"
    and T: "\<And>k. k \<in> K \<Longrightarrow> is_terminal (T k) \<or> T k = Queued"
    and act: "sl_active (f sl) = None"
    and q: "\<And>p. set (slot_queue p (f sl)) = {k \<in> K. T k = Queued \<and> lane_of (cs_intents st) k = p}"
    and d: "\<And>p. distinct (slot_queue p (f sl))"
  shows "coord_inv g (modify_slot s f (st\<lparr>cs_intents := ins\<rparr>))"
proof -
  have live: "k \<in> K" if "intent_of st k = Some i" "wi_slot_id i = s" "\<not> is_terminal (wi_state i)" for k i
    using that K by blast
  have new: "slot_inv g (cs_next_operation_id st) (map_of ins) s (f sl)"
    unfolding slot_inv_def
  proof (intro conjI allI impI)
    show "distinct (slot_queue p (f sl))" for p by (rule d)
    show "k \<in> set (slot_queue p (f sl)) \<longleftrightarrow>
        (\<exists>i. map_of ins k = Some i \<and> wi_slot_id i = s \<and> wi_priority i = p \<and> wi_state i = Queued)" for p k
    proof (cases "k \<in> K")
      case True
      then obtain i where "intent_of st k = Some i" "wi_slot_id i = s" using K by blast
      with True show ?thesis by (auto simp: q J fields_of_intent)
    next
      case False
      then show ?thesis using live [of k] by (auto simp: q J)
    qed
    show "k \<in> set (active_ids (f sl)) \<longleftrightarrow>
        (\<exists>i. map_of ins k = Some i \<and> wi_slot_id i = s \<and> is_in_flight (wi_state i))" for k
      using live [of k] T [of k] act by (auto simp: J)
    show "batch_inv g (cs_next_operation_id st) (map_of ins) s a" if "sl_active (f sl) = Some a" for a
      using that act by simp
  qed
  show ?thesis
  proof (rule coord_inv_states_update [OF inv, where s = s and T = T and K = K])
    show "slot_of (modify_slot s f (st\<lparr>cs_intents := ins\<rparr>)) = (slot_of st)(s \<mapsto> f sl)"
      using sl by (auto simp: fun_eq_iff)
    show "\<exists>i. intent_of st k = Some i \<and> wi_slot_id i = s" if "k \<in> K" for k
      using that K by blast
  qed (use new keys J in simp_all)
qed

lemma live_slot_ids_iff:
  assumes "coord_inv g st"
  shows "k \<in> set (live_slot_ids st s) \<longleftrightarrow>
    (\<exists>i. intent_of st k = Some i \<and> wi_slot_id i = s \<and> \<not> is_terminal (wi_state i))"
    "distinct (live_slot_ids st s)"
proof -
  have key: "wi_intent_id i = k" if "intent_of st k = Some i" for k i
    using coord_inv_intent [OF assms that] .
  show "k \<in> set (live_slot_ids st s) \<longleftrightarrow>
    (\<exists>i. intent_of st k = Some i \<and> wi_slot_id i = s \<and> \<not> is_terminal (wi_state i))"
    using intents_iff [OF assms] key unfolding live_slot_ids_def set_map set_filter by blast
  show "distinct (live_slot_ids st s)"
    unfolding live_slot_ids_def by (rule distinct_map_filter) (rule distinct_intent_ids [OF assms])
qed

lemma set_runtime_constraint_locked_spec:
  assumes inv: "coord_inv g st"
  obtains ms rs st' where "set_runtime_constraint_locked s con st = Some (ms, rs, st')"
    "coord_inv g st'" "cs_enqueue_leases st' = cs_enqueue_leases st"
    "cs_next_operation_id st' = cs_next_operation_id st"
    "\<And>k. intent_of st' k = map_option (\<lambda>i.
        case terminal_classification con of None \<Rightarrow> i
        | Some cl \<Rightarrow> if wi_slot_id i = s \<and> \<not> is_terminal (wi_state i)
            then i\<lparr>wi_state := constrained_state (con = RcSessionStopped) cl (cs_intents st) k\<rparr> else i)
      (intent_of st k)"
    "\<exists>sl. slot_of st' s = Some sl \<and> sl_runtime_constraint sl = con \<and>
       (terminal_classification con \<noteq> None \<longrightarrow> sl_active sl = None)"
    "\<And>x. x \<noteq> s \<Longrightarrow> slot_of st' x = slot_of st x"
proof -
  let ?sl = "(slot_or_new s RoleTeammate st)\<lparr>sl_runtime_constraint := con\<rparr>"
  let ?st1 = "put_slot s ?sl st"
  have inv1: "coord_inv g ?st1"
    by (rule coord_inv_put_slot_frame [OF inv, where r = RoleTeammate]) auto
  show ?thesis
  proof (cases "terminal_classification con")
    case None
    show ?thesis
      by (rule that [of "[]" "[]" ?st1])
        (use None inv1 in \<open>auto simp: set_runtime_constraint_locked_def Let_def option.map_ident\<close>)
  next
    case (Some cl)
    let ?ks = "live_slot_ids ?st1 s" and ?ins = "cs_intents st" and ?b = "con = RcSessionStopped"
    let ?T = "constrained_state ?b cl ?ins"
    let ?rq = "map (\<lambda>k. (lane_of ?ins k, k)) (filter (\<lambda>k. run_of ?ins k = None \<and> \<not> ?b) ?ks)"
    let ?f = "\<lambda>sl. requeue_back ?rq (clear_slot_work sl)"
    let ?st = "modify_slot s ?f (?st1\<lparr>cs_intents := write_states ?T ?ks ?ins\<rparr>)"
    note ks = live_slot_ids_iff [OF inv1]
    have loop: "\<exists>ms rs. constrain_intents ?b cl ?ks ?ins = Some (?rq, ms, rs, write_states ?T ?ks ?ins)"
      by (subst constrain_intents_eq) (use ks(1) in auto)
    then obtain ms rs where loop:
      "constrain_intents ?b cl ?ks ?ins = Some (?rq, ms, rs, write_states ?T ?ks ?ins)" by blast
    have eq: "set_runtime_constraint_locked s con st = Some (ms, btree_set rs, ?st)"
      using loop by (simp add: set_runtime_constraint_locked_def Let_def Some)
    have "coord_inv g (modify_slot s ?f (?st1\<lparr>cs_intents := write_states ?T ?ks ?ins\<rparr>))"
    proof (rule coord_inv_reset_slot [OF inv1, where K = "set ?ks" and T = ?T and sl = ?sl], goal_cases)
      case (7 p)
      show ?case
        by (auto simp: filter_map comp_def constrained_state_def)
    next
      case (8 p)
      show ?case using ks(2) by (auto simp: filter_map comp_def)
    qed (use ks(1) in \<open>auto simp: constrained_state_def simp del: map_map\<close>)
    then show ?thesis
    proof (rule that [OF eq])
      fix k
      show "intent_of ?st k = map_option (\<lambda>i.
        case terminal_classification con of None \<Rightarrow> i
        | Some cl \<Rightarrow> if wi_slot_id i = s \<and> \<not> is_terminal (wi_state i)
            then i\<lparr>wi_state := constrained_state (con = RcSessionStopped) cl (cs_intents st) k\<rparr> else i)
      (intent_of st k)"
        by (cases "intent_of st k") (use ks(1) [of k s] in \<open>auto simp: Some\<close>)
    qed auto
  qed
qed

lemma removed_slot_ids_iff:
  assumes inv: "coord_inv g st"
  shows "k \<in> set (removed_slot_ids st s) \<longleftrightarrow>
    (\<exists>i. intent_of st k = Some i \<and> wi_slot_id i = s \<and> \<not> is_terminal (wi_state i))"
proof -
  let ?ord = "case slot_of st s of None \<Rightarrow> [] | Some sl \<Rightarrow> active_ids sl @ queued_ids sl"
  let ?live = "\<lambda>k. \<exists>i. intent_of st k = Some i \<and> wi_slot_id i = s \<and> \<not> is_terminal (wi_state i)"
  have ord: "?live x" if x0: "x \<in> set ?ord" for x
  proof -
    obtain sl where sl: "slot_of st s = Some sl" and x: "x \<in> set (active_ids sl) \<or> x \<in> set (queued_ids sl)"
      using x0 by (cases "slot_of st s") auto
    note old = coord_inv_slot [OF inv sl]
    show ?thesis
      using x unfolding slot_inv_active [OF old] slot_inv_queued_ids [OF old] not_terminal_iff by blast
  qed
  have rem: "x \<in> wi_intent_id ` {i \<in> set (intents st). wi_slot_id i = s \<and> \<not> is_terminal (wi_state i)
       \<and> wi_intent_id i \<notin> set ?ord} \<longleftrightarrow> ?live x \<and> x \<notin> set ?ord" for x
    using intents_iff [OF inv] coord_inv_intent [OF inv] by blast
  have "set (removed_slot_ids st s) = set ?ord \<union> wi_intent_id ` {i \<in> set (intents st).
      wi_slot_id i = s \<and> \<not> is_terminal (wi_state i) \<and> wi_intent_id i \<notin> set ?ord}"
    by (simp only: removed_slot_ids_def Let_def set_append set_map set_sort set_filter)
  then show ?thesis using rem [of k] ord [of k] by blast
qed

lemma remove_slot_locked_spec:
  assumes inv: "coord_inv g st"
  obtains r st' where "remove_slot_locked s st = Some (r, st')"
    "coord_inv g st'" "cs_enqueue_leases st' = cs_enqueue_leases st"
    "cs_next_operation_id st' = cs_next_operation_id st"
    "\<And>k. intent_of st' k = map_option (\<lambda>i. if wi_slot_id i = s \<and> \<not> is_terminal (wi_state i)
       then i\<lparr>wi_state := Cancelled ''slot_removed''\<rparr> else i) (intent_of st k)"
    "\<And>x. slot_of st' x = (if x = s
       then map_option (\<lambda>sl. (clear_slot_work sl)\<lparr>sl_removed := True\<rparr>) (slot_of st x)
       else slot_of st x)"
    "rw_cancel_target r = Option.bind (slot_of st s) cancel_target_of"
    "rw_terminal_message_ids r = filter_map (message_of (cs_intents st)) (removed_slot_ids st s)"
proof -
  let ?ks = "removed_slot_ids st s" and ?ins = "cs_intents st"
  let ?T = "\<lambda>_. Cancelled ''slot_removed''"
  let ?f = "\<lambda>sl. (clear_slot_work sl)\<lparr>sl_removed := True\<rparr>"
  let ?st = "modify_slot s ?f (st\<lparr>cs_intents := write_states ?T ?ks ?ins\<rparr>)"
  note ks = removed_slot_ids_iff [OF inv]
  have loop: "drop_intents ?ks ?ins = Some (filter_map (message_of ?ins) ?ks,
      filter_map (run_of ?ins) ?ks, write_states ?T ?ks ?ins)"
    by (rule drop_intents_eq) (use ks in auto)
  have inv': "coord_inv g ?st"
  proof (cases "slot_of st s")
    case (Some sl)
    show ?thesis
      by (rule coord_inv_reset_slot [OF inv Some, where K = "set ?ks" and T = ?T])
        (use ks in \<open>auto simp del: map_map\<close>)
  next
    case None
    have "k \<notin> set ?ks" for k
      using ks [of k s] coord_inv_home [OF inv, of k] None by (metis option.distinct(1))
    then have "set ?ks = {}" by (simp add: set_eq_iff del: set_empty)
    moreover have "modify_slot s ?f st = st" using None by (simp add: modify_slot_def hm_modify_None)
    ultimately show ?thesis using inv by simp
  qed
  show ?thesis
  proof (rule that)
    show "remove_slot_locked s st = Some
        (\<lparr>rw_cancel_target = Option.bind (slot_of st s) cancel_target_of,
          rw_terminal_message_ids = filter_map (message_of ?ins) ?ks,
          rw_affected_run_summaries = run_summaries_locked ?st (filter_map (run_of ?ins) ?ks)\<rparr>, ?st)"
      by (simp add: remove_slot_locked_def loop Let_def)
    show "intent_of ?st k = map_option (\<lambda>i. if wi_slot_id i = s \<and> \<not> is_terminal (wi_state i)
       then i\<lparr>wi_state := Cancelled ''slot_removed''\<rparr> else i) (intent_of st k)" for k
      by (cases "intent_of st k") (use ks [of k s] in auto)
  qed (use inv' in simp_all)
qed

lemma stop_locked_spec:
  assumes inv: "coord_inv g st"
  shows "coord_inv g (snd (stop_locked st))"
    "intent_of (snd (stop_locked st)) k = map_option stop_intent (intent_of st k)"
    "slot_of (snd (stop_locked st)) s = map_option
       (\<lambda>sl. (clear_slot_work sl)\<lparr>sl_runtime_constraint := RcSessionStopped\<rparr>) (slot_of st s)"
    "cs_enqueue_leases (snd (stop_locked st)) = []"
    "cs_next_operation_id (snd (stop_locked st)) = cs_next_operation_id st"
proof -
  let ?st = "snd (stop_locked st)"
  show ins: "intent_of ?st k = map_option stop_intent (intent_of st k)" for k
    by (simp add: stop_locked_def Let_def del: map_map)
  show slots: "slot_of ?st s = map_option
       (\<lambda>sl. (clear_slot_work sl)\<lparr>sl_runtime_constraint := RcSessionStopped\<rparr>) (slot_of st s)" for s
    by (simp add: stop_locked_def Let_def)
  show leases: "cs_enqueue_leases ?st = []" and op: "cs_next_operation_id ?st = cs_next_operation_id st"
    by (simp_all add: stop_locked_def Let_def)
  have keys: "hm_keys (cs_slots ?st) = hm_keys (cs_slots st)"
      "hm_keys (cs_intents ?st) = hm_keys (cs_intents st)"
    by (simp_all add: stop_locked_def Let_def del: map_map)
  have ended: "is_terminal (wi_state (stop_intent i))" "wi_intent_id (stop_intent i) = wi_intent_id i" for i
    by (simp_all add: stop_intent_def)
  have "slot_inv g op (intent_of ?st) s ((clear_slot_work sl)\<lparr>sl_runtime_constraint := RcSessionStopped\<rparr>)"
    for op s sl
  proof -
    have "\<not> (intent_of ?st k = Some i \<and> \<not> is_terminal (wi_state i))" for k i
      using ended(1) by (auto simp: ins)
    then have "\<not> (intent_of ?st k = Some i \<and> wi_state i = Queued)"
      "\<not> (intent_of ?st k = Some i \<and> is_in_flight (wi_state i))" for k i
      using not_terminal_iff by blast+
    then show ?thesis by (simp add: slot_inv_def)
  qed
  then show "coord_inv g ?st"
    unfolding coord_inv_def keys leases
    using coord_inv_keys [OF inv] coord_inv_intent [OF inv] ended
    by (auto simp: ins slots op simp del: set_map)
qed

text \<open>The facts the run-level properties use.\<close>

lemma no_work_intent_of:
  "coord_inv g st \<Longrightarrow> no_work (run_summary_locked st run) \<longleftrightarrow>
     (\<forall>k i. intent_of st k = Some i \<longrightarrow> wi_team_run_id i = Some run \<longrightarrow> is_terminal (wi_state i)) \<and>
     run_leases st run = []"
  unfolding no_work_iff by (subst intents_all_iff) auto

lemma cancel_effect_ends:
  assumes inv: "coord_inv g st" and i: "intent_of st k = Some i" "wi_team_run_id i = Some run"
  shows "is_terminal (wi_state (cancel_effect st run i))"
proof (cases "is_terminal (wi_state i)")
  case True
  have "\<not> shares_batch st run (wi_intent_id i)"
    using shares_batch_intent [OF inv, of run k] i True coord_inv_intent [OF inv i(1)]
    by (metis in_flight_not_terminal option.inject)
  with True show ?thesis by (simp add: cancel_effect_def)
qed (simp add: cancel_effect_def i)

lemma stop_intent_ends [simp]: "is_terminal (wi_state (stop_intent i))"
  by (simp add: stop_intent_def)

lemma run_summary_id [simp]: "rs_team_run_id (run_summary_locked st run) = run"
  by (simp add: run_summary_locked_def Let_def)

end
