(* ===== verification/Work_Steps.thy ===== *)
theory Work_Steps
  imports Work_Control_Invariant "HOL-Library.Multiset"
begin

text \<open>
  The coordinator as a state machine. A configuration is the coordinator together with the
  batch handles it has handed out; a step is one call of a public operation, with fresh
  identifiers, by callers that pass batch handles back as they got them, a change that another
  client makes to the object behind the port, or a change of the iteration order of the hash
  maps. What a step guarantees is collected in \<open>advances\<close>:
  the invariant holds again, no intent is lost or changed in anything but its state, an intent
  that ended stays as it is, and the only new active batch is the one a claim returns.
\<close>

section \<open>What an operation guarantees\<close>

definition active_batch_at :: "coordinator_state \<Rightarrow> id \<Rightarrow> work_batch option" where
  "active_batch_at st s = Option.bind (slot_of st s) (\<lambda>sl. map_option ab_batch (sl_active sl))"

definition evolves :: "coordinator_state \<Rightarrow> coordinator_state \<Rightarrow> bool" where
  "evolves st st' \<longleftrightarrow>
     (\<forall>k i. intent_of st k = Some i \<longrightarrow>
        (\<exists>s. intent_of st' k = Some (i\<lparr>wi_state := s\<rparr>) \<and>
           (is_terminal (wi_state i) \<longrightarrow> s = wi_state i)))"

definition advances ::
  "id \<Rightarrow> work_batch set \<Rightarrow> coordinator_state \<Rightarrow> coordinator_state \<Rightarrow> bool" where
  "advances g B st st' \<longleftrightarrow>
     coord_inv g st' \<and> evolves st st' \<and> cs_next_operation_id st \<le> cs_next_operation_id st' \<and>
     (\<forall>s b. active_batch_at st' s = Some b \<longrightarrow> active_batch_at st s = Some b \<or> b \<in> B)"

lemma evolves_refl [simp]: "evolves st st"
  by (auto simp: evolves_def intro!: exI [of _ "wi_state _"])

lemma evolves_trans: "evolves st st1 \<Longrightarrow> evolves st1 st2 \<Longrightarrow> evolves st st2"
  unfolding evolves_def by fastforce

lemma advances_refl: "coord_inv g st \<Longrightarrow> advances g B st st"
  by (simp add: advances_def)

lemma advances_trans:
  "advances g B st st1 \<Longrightarrow> advances g B st1 st2 \<Longrightarrow> advances g B st st2"
  unfolding advances_def by (meson evolves_trans order_trans)

lemma evolves_same: "intent_of st' = intent_of st \<Longrightarrow> evolves st st'"
  by (simp add: evolves_def) (metis work_intent.surjective work_intent.update_convs(10))

lemma evolves_insert:
  "intent_of st k = None \<Longrightarrow> intent_of st' = (intent_of st)(k \<mapsto> i) \<Longrightarrow> evolves st st'"
  by (auto simp: evolves_def intro!: exI [of _ "wi_state _"])

lemma evolves_states:
  assumes "\<And>k. intent_of st' k = map_option (\<lambda>i. i\<lparr>wi_state := T k i\<rparr>) (intent_of st k)"
    and "\<And>k i. intent_of st k = Some i \<Longrightarrow> is_terminal (wi_state i) \<Longrightarrow> T k i = wi_state i"
  shows "evolves st st'"
  using assms by (auto simp: evolves_def)

lemma evolves_set_states:
  assumes "\<And>k. intent_of st' k = (if k \<in> K then map_option (\<lambda>i. i\<lparr>wi_state := T k\<rparr>) (intent_of st k)
      else intent_of st k)"
    and "\<And>k i. k \<in> K \<Longrightarrow> intent_of st k = Some i \<Longrightarrow> \<not> is_terminal (wi_state i)"
  shows "evolves st st'"
proof (rule evolves_states [where T = "\<lambda>k i. if k \<in> K then T k else wi_state i"])
  show "intent_of st' k = map_option (\<lambda>i. i\<lparr>wi_state := if k \<in> K then T k else wi_state i\<rparr>) (intent_of st k)" for k
    by (cases "intent_of st k") (auto simp: assms(1))
  show "(if k \<in> K then T k else wi_state i) = wi_state i"
    if "intent_of st k = Some i" "is_terminal (wi_state i)" for k i
    using assms(2) [of k i] that by auto
qed

lemma active_batch_at_put [simp]:
  "active_batch_at (put_slot s sl st) x =
     (if x = s then map_option ab_batch (sl_active sl) else active_batch_at st x)"
  by (simp add: active_batch_at_def)

lemma active_batch_at_frame [simp]:
  "active_batch_at (st\<lparr>cs_intents := ins\<rparr>) = active_batch_at st"
  "active_batch_at (st\<lparr>cs_enqueue_leases := ls\<rparr>) = active_batch_at st"
  "active_batch_at (st\<lparr>cs_next_operation_id := n\<rparr>) = active_batch_at st"
  by (auto simp: active_batch_at_def fun_eq_iff)

lemma active_batch_at_modify:
  "active_batch_at (modify_slot s f st) x =
     (if x = s then Option.bind (slot_of st s) (\<lambda>sl. map_option ab_batch (sl_active (f sl)))
      else active_batch_at st x)"
  by (simp add: active_batch_at_def bind_map_option comp_def)

lemma active_batch_at_or_new [simp]:
  "map_option ab_batch (sl_active (slot_or_new s r st)) = active_batch_at st s"
  by (simp add: slot_or_new_def active_batch_at_def split: option.split)

lemma active_batch_atD:
  assumes "active_batch_at st s = Some b"
  obtains sl a where "slot_of st s = Some sl" "sl_active sl = Some a" "ab_batch a = b"
  using assms by (auto simp: active_batch_at_def bind_eq_Some_conv)

text \<open>An operation that keeps every active batch, up to its turn.\<close>

lemma advances_same_batches:
  assumes "coord_inv g st'" "evolves st st'" "cs_next_operation_id st' = cs_next_operation_id st"
    and "\<And>s. active_batch_at st' s = active_batch_at st s \<or> active_batch_at st' s = None"
  shows "advances g B st st'"
  unfolding advances_def using assms by (metis option.distinct(1) order_refl)

section \<open>Every operation advances the state\<close>

lemma acquire_enqueue_advances:
  assumes inv: "coord_inv g (co_state c)"
  shows "advances g B (co_state c) (co_state (snd (acquire_enqueue P e req c)))"
proof (rule advances_same_batches [OF acquire_enqueue_inv [OF inv]])
  show "evolves (co_state c) (co_state (snd (acquire_enqueue P e req c)))"
    by (rule evolves_same) (auto simp: acquire_enqueue_def Let_def split: sum.splits prod.splits)
  show "cs_next_operation_id (co_state (snd (acquire_enqueue P e req c))) =
      cs_next_operation_id (co_state c)"
    by (auto simp: acquire_enqueue_def Let_def split: sum.splits prod.splits)
  have "active_batch_at (co_state (snd (acquire_enqueue P e req c))) s = active_batch_at (co_state c) s" for s
    by (auto simp: acquire_enqueue_def Let_def split: sum.splits prod.splits)
  then show "active_batch_at (co_state (snd (acquire_enqueue P e req c))) s = active_batch_at (co_state c) s \<or>
      active_batch_at (co_state (snd (acquire_enqueue P e req c))) s = None" for s by blast
qed

lemma commit_enqueue_locked_advances:
  assumes inv: "coord_inv g st" and fresh: "intent_of st (env_id e 0) = None"
    and commit: "commit_enqueue_locked g e lease m st = Some (Inr (cm, ss, st'))"
  shows "advances g B st st'"
proof (rule advances_same_batches [OF commit_enqueue_locked_inv [OF inv fresh commit]])
  from commit obtain sl where sl: "slot_of st (el_slot_id lease) = Some sl"
    and st': "st' = put_slot (el_slot_id lease) (committed_slot lease m (env_id e 0) sl)
          (st\<lparr>cs_enqueue_leases := hm_remove (el_lease_id lease) (cs_enqueue_leases st),
              cs_intents := hm_insert (env_id e 0) (committed_intent g e lease m) (cs_intents st)\<rparr>)"
    by (rule commit_enqueue_locked_Inr)
  show "evolves st st'" by (rule evolves_insert [OF fresh]) (simp add: st')
  show "cs_next_operation_id st' = cs_next_operation_id st" by (simp add: st')
  show "active_batch_at st' s = active_batch_at st s \<or> active_batch_at st' s = None" for s
    using sl by (simp add: st' active_batch_at_def)
qed

lemma abort_enqueue_advances:
  assumes inv: "coord_inv (co_session_generation c) (co_state c)"
  shows "advances (co_session_generation c) B (co_state c) (co_state (snd (abort_enqueue P e lease c)))"
proof (rule advances_same_batches [OF abort_enqueue_inv [OF inv]])
  show "evolves (co_state c) (co_state (snd (abort_enqueue P e lease c)))"
    by (rule evolves_same) (auto simp: abort_enqueue_def Let_def release_and_publish_def split: option.splits)
qed (auto simp: abort_enqueue_def Let_def release_and_publish_def split: option.splits)

lemma recover_unread_evolves:
  assumes "inj (env_id e)" and "\<And>j. n \<le> j \<Longrightarrow> intent_of st (env_id e j) = None"
  shows "evolves st (snd (recover_unread g e s role n ms st)) \<and>
    cs_next_operation_id (snd (recover_unread g e s role n ms st)) = cs_next_operation_id st \<and>
    active_batch_at (snd (recover_unread g e s role n ms st)) = active_batch_at st"
  using assms
proof (induction ms arbitrary: n st)
  case Nil
  then show ?case by simp
next
  case (Cons m ms)
  show ?case
  proof (cases "already_owned st s m")
    case True
    with Cons show ?thesis by simp
  next
    case False
    let ?st = "modify_slot s (queue_push_back Background (env_id e n))
      (st\<lparr>cs_intents := hm_insert (env_id e n)
         (recovery_intent g e s role (env_id e n) m) (cs_intents st)\<rparr>)"
    have "intent_of ?st (env_id e j) = None" if "Suc n \<le> j" for j
      using Cons.prems(2) [of j] injD [OF Cons.prems(1), of j n] that by auto
    note IH = Cons.IH [OF Cons.prems(1) this]
    have "evolves st ?st"
      by (rule evolves_insert [OF Cons.prems(2) [of n]]) (auto simp: fun_eq_iff)
    moreover have "active_batch_at ?st = active_batch_at st"
      by (auto simp: fun_eq_iff active_batch_at_def bind_map_option comp_def)
    ultimately show ?thesis
      using False IH evolves_trans by (auto simp: Let_def split_beta)
  qed
qed

lemma reconcile_mailbox_locked_advances:
  assumes inv: "coord_inv g st" and inj: "inj (env_id e)"
    and fresh: "\<And>j. intent_of st (env_id e j) = None"
  shows "advances g B st (snd (reconcile_mailbox_locked g e s unread role st))"
proof (rule advances_same_batches [OF reconcile_mailbox_locked_inv [OF inv inj fresh]])
  define sl where "sl = (slot_or_new s role st)
    \<lparr>sl_role := role, sl_known_unread_message_ids := set unread\<rparr>"
  define st1 where "st1 = put_slot s sl st"
  define cleared where "cleared = filter (stale_intent unread (cs_intents st)) (queued_ids sl)"
  define st2 where "st2 = modify_slot s (fold remove_queued cleared)
    (st1\<lparr>cs_intents := set_intent_states cleared Completed (cs_intents st)\<rparr>)"
  let ?st3 = "snd (recover_unread g e s role 0 unread st2)"
  have eq: "snd (reconcile_mailbox_locked g e s unread role st) = ?st3"
    by (simp add: reconcile_mailbox_locked_def reconcile_queued_eq Let_def split_beta
        sl_def [symmetric] st1_def [symmetric] cleared_def [symmetric] st2_def [symmetric])
  have "slot_inv g (cs_next_operation_id st) (intent_of st) s sl"
    by (rule slot_inv_frame [OF slot_or_new_inv [OF inv, of s role]]) (auto simp: sl_def)
  then have queued: "\<not> is_terminal (wi_state i)" if "k \<in> set cleared" "intent_of st k = Some i" for k i
    using slot_inv_queued_ids that by (fastforce simp: cleared_def)
  have "evolves st st2"
    by (rule evolves_set_states [where K = "set cleared" and T = "\<lambda>_. Completed"])
      (use queued in \<open>auto simp: st2_def st1_def\<close>)
  moreover have "active_batch_at st2 x = active_batch_at st x" for x
    by (auto simp: st2_def st1_def active_batch_at_modify sl_def)
  moreover have "cs_next_operation_id st2 = cs_next_operation_id st"
    by (simp add: st2_def st1_def)
  moreover have fresh2: "intent_of st2 (env_id e j) = None" for j
    using fresh by (simp add: st2_def st1_def)
  moreover note recover_unread_evolves [OF inj fresh2, where n = 0 and s = s and role = role and ms = unread and g = g]
  ultimately show "evolves st (snd (reconcile_mailbox_locked g e s unread role st))"
    "cs_next_operation_id (snd (reconcile_mailbox_locked g e s unread role st)) = cs_next_operation_id st"
    "active_batch_at (snd (reconcile_mailbox_locked g e s unread role st)) x = active_batch_at st x \<or>
     active_batch_at (snd (reconcile_mailbox_locked g e s unread role st)) x = None" for x
    unfolding eq using evolves_trans by auto
qed

lemma claim_batch_advances:
  assumes inv: "coord_inv g st" and eq: "next_locked g e s st = (Claim b, st')"
  shows "advances g {b} st st'"
    "\<And>x c. active_batch_at st' x = Some c \<Longrightarrow> active_batch_at st x = Some c \<or> x = s \<and> c = b"
proof -
  from eq obtain sl p h ks where sl: "slot_of st s = Some sl"
    and fifo: "filter (has_message st) (slot_queue p sl) = h # ks"
    and sel: "(wb_intent_ids b, wb_is_command b) = claim_selection st h (h # ks)"
    and b: "b = claimed_batch g e s p (wb_intent_ids b) (wb_is_command b) st"
    and st': "st' = claim_batch b st"
    by (rule next_locked_Claim)
  have fields: "wb_slot_id b = s" "wb_operation_id b = saturating_add (cs_next_operation_id st) 1"
    by (subst b, simp)+
  have act: "active_batch_at st' x = (if x = s then Some b else active_batch_at st x)" for x
    using sl by (simp add: st' claim_batch_def active_batch_at_modify fields)
  have "set (wb_intent_ids b) \<subseteq> set (h # ks)"
    using claim_selection_subset [OF sel [symmetric]] by auto
  also have "\<dots> \<subseteq> set (slot_queue p sl)" using fifo by (metis filter_is_subset)
  finally have "\<not> is_terminal (wi_state i)" if "k \<in> set (wb_intent_ids b)" "intent_of st k = Some i" for k i
    using that slot_inv_queue [OF coord_inv_slot [OF inv sl], of k p] by auto
  then have "evolves st st'"
    by (intro evolves_set_states [where K = "set (wb_intent_ids b)"
          and T = "\<lambda>_. Starting (wb_batch_id b) (wb_operation_id b)"])
      (simp_all add: st' claim_batch_def)
  moreover have "cs_next_operation_id st \<le> cs_next_operation_id st'"
    using saturating_add_ge by (simp add: st' claim_batch_def fields)
  moreover have "active_batch_at st x = Some c \<or> c \<in> {b}" if "active_batch_at st' x = Some c" for x c
    using that by (simp add: act split: if_splits)
  ultimately show "advances g {b} st st'"
    using next_locked_inv [OF inv eq] by (simp add: advances_def)
  show "\<And>x c. active_batch_at st' x = Some c \<Longrightarrow> active_batch_at st x = Some c \<or> x = s \<and> c = b"
    by (simp add: act split: if_splits)
qed

lemma current_active_batch:
  assumes "is_current_batch g st b" "genuine_batch st b"
  shows "active_batch_at st (wb_slot_id b) = Some b"
  by (rule is_current_batchD [OF assms]) (simp add: active_batch_at_def)

text \<open>The three operations on a current batch write one state to its intents.\<close>

lemma batch_operation_advances:
  assumes inv: "coord_inv g st" and cur: "is_current_batch g st b" and gen: "genuine_batch st b"
    and inv': "coord_inv g st'"
    and ins: "\<And>k. intent_of st' k = (if k \<in> set (wb_intent_ids b)
        then map_option (\<lambda>i. i\<lparr>wi_state := t\<rparr>) (intent_of st k) else intent_of st k)"
    and op: "cs_next_operation_id st' = cs_next_operation_id st"
    and act: "\<And>s. active_batch_at st' s = active_batch_at st s \<or> active_batch_at st' s = None"
  shows "advances g B st st'"
proof (rule advances_same_batches [OF inv' _ op act])
  obtain sl a where sl: "slot_of st (wb_slot_id b) = Some sl" and a: "sl_active sl = Some a"
    and b: "ab_batch a = b" using is_current_batchD [OF cur gen] by metis
  have "\<not> is_terminal (wi_state i)" if "k \<in> set (wb_intent_ids b)" "intent_of st k = Some i" for k i
    using batch_intents [OF inv sl a, of k] that b
    by (metis active_state_in_flight in_flight_not_terminal option.inject)
  then show "evolves st st'"
    by (intro evolves_set_states [where K = "set (wb_intent_ids b)" and T = "\<lambda>_. t"]) (simp_all add: ins)
qed

lemma mark_started_locked_advances:
  assumes inv: "coord_inv g st" and gen: "genuine_batch st b"
  shows "advances g B st (snd (mark_started_locked g e b turn st))"
proof (cases "is_current_batch g st b")
  case False
  with inv show ?thesis by (simp add: mark_started_locked_def advances_refl)
next
  case True
  have act: "active_batch_at (start_batch e b turn st) s = active_batch_at st s" for s
    by (auto simp: start_batch_def active_batch_at_modify active_batch_at_def option.map_comp comp_def
        split: bind_split)
  have "advances g B st (start_batch e b turn st)"
    by (rule batch_operation_advances [OF inv True gen start_batch_inv [OF inv True gen],
          where t = "Running (wb_batch_id b) (wb_operation_id b) turn"])
      (simp_all add: act, simp_all add: start_batch_def)
  with True show ?thesis by (simp add: mark_started_locked_def)
qed

lemma terminalize_batch_locked_advances:
  assumes inv: "coord_inv g st" and gen: "genuine_batch st b" and t: "is_terminal t"
  shows "advances g B st (snd (terminalize_batch_locked g b t st))"
proof (cases "is_current_batch g st b")
  case False
  with inv show ?thesis by (simp add: terminalize_batch_locked_def advances_refl)
next
  case True
  show ?thesis
    by (rule batch_operation_advances [OF inv True gen terminalize_batch_locked_inv [OF inv gen t],
          where t = t])
      (simp_all add: True terminalize_batch_locked_def active_batch_at_modify split: bind_split)
qed

lemma retry_start_locked_advances:
  assumes inv: "coord_inv g st" and gen: "genuine_batch st b"
  shows "advances g B st (snd (retry_start_locked g b st))"
proof (cases "is_current_batch g st b")
  case False
  with inv show ?thesis by (simp add: retry_start_locked_def advances_refl)
next
  case True
  show ?thesis
    by (rule batch_operation_advances [OF inv True gen retry_start_locked_inv [OF inv gen],
          where t = Queued])
      (simp_all add: True retry_start_locked_def active_batch_at_modify foldr_push_front split: bind_split)
qed

lemma cancel_run_locked_advances:
  assumes inv: "coord_inv g st" and eq: "cancel_run_locked run st = Some (r, st')"
  shows "advances g B st st'"
proof (rule cancel_run_locked_spec [OF inv, of run])
  fix r1 st1
  assume one: "cancel_run_locked run st = Some (r1, st1)" and inv1: "coord_inv g st1"
    and ins: "\<And>k. intent_of st1 k = map_option (cancel_effect st run) (intent_of st k)"
    and op: "cs_next_operation_id st1 = cs_next_operation_id st"
    and slots: "\<And>s. map_option sl_active (slot_of st1 s) = map_option
       (\<lambda>sl. case sl_active sl of None \<Rightarrow> None
             | Some a \<Rightarrow> if batch_touches_run st run a then None else Some a) (slot_of st s)"
  have st': "st' = st1" using one eq by simp
  have "evolves st st1"
  proof (rule evolves_states [where T = "\<lambda>k i. wi_state (cancel_effect st run i)"])
    show "intent_of st1 k = map_option (\<lambda>i. i\<lparr>wi_state := wi_state (cancel_effect st run i)\<rparr>) (intent_of st k)" for k
      by (cases "intent_of st k") (simp_all add: ins cancel_effect_def)
    show "wi_state (cancel_effect st run i) = wi_state i"
      if i: "intent_of st k = Some i" and t: "is_terminal (wi_state i)" for k i
    proof -
      have "\<not> shares_batch st run k"
        using shares_batch_intent [OF inv, of run k] i t
        by (metis in_flight_not_terminal option.inject)
      then show ?thesis using t coord_inv_intent [OF inv i] by (simp add: cancel_effect_def)
    qed
  qed
  moreover have "active_batch_at st1 s = active_batch_at st s \<or> active_batch_at st1 s = None" for s
  proof -
    have "active_batch_at st1 s = Option.bind (map_option sl_active (slot_of st1 s)) (map_option ab_batch)"
      by (simp add: active_batch_at_def bind_map_option comp_def)
    then show ?thesis
      unfolding slots active_batch_at_def by (cases "slot_of st s") (auto split: option.splits)
  qed
  ultimately show ?thesis
    unfolding st' by (intro advances_same_batches [OF inv1 _ op]) auto
qed

lemma complete_signals_locked_advances:
  assumes inv: "coord_inv g st"
  shows "advances g B st (snd (complete_signals_locked s ks st))"
proof (rule advances_same_batches [OF complete_signals_locked_inv [OF inv]])
  show "evolves st (snd (complete_signals_locked s ks st))"
  proof (cases "\<forall>k \<in> set ks. signal_settleable st s k")
    case True
    then show ?thesis
      by (intro evolves_set_states [where K = "set ks" and T = "\<lambda>_. Completed"])
        (auto simp: complete_signals_locked_def signal_settleable_def split: option.splits)
  qed (simp add: complete_signals_locked_def)
qed (auto simp: complete_signals_locked_def active_batch_at_modify active_batch_at_def split: bind_split)

lemma pause_slot_advances:
  assumes inv: "coord_inv g (co_state c)"
  shows "advances g B (co_state c) (co_state (snd (pause_slot s c)))"
proof (rule advances_same_batches [OF pause_slot_inv [OF inv]])
  show "evolves (co_state c) (co_state (snd (pause_slot s c)))"
    by (rule evolves_same) (simp add: pause_slot_def Let_def)
qed (simp_all add: pause_slot_def Let_def)

lemma set_runtime_constraint_locked_advances:
  assumes inv: "coord_inv g st" and eq: "set_runtime_constraint_locked s con st = Some (ms, rs, st')"
  shows "advances g B st st'"
proof (rule set_runtime_constraint_locked_spec [OF inv, of s con])
  let ?T = "\<lambda>k i. case terminal_classification con of None \<Rightarrow> wi_state i
    | Some cl \<Rightarrow> if wi_slot_id i = s \<and> \<not> is_terminal (wi_state i)
        then constrained_state (con = RcSessionStopped) cl (cs_intents st) k else wi_state i"
  fix ms1 rs1 st1
  assume one: "set_runtime_constraint_locked s con st = Some (ms1, rs1, st1)"
    and inv1: "coord_inv g st1" and op: "cs_next_operation_id st1 = cs_next_operation_id st"
    and ins: "\<And>k. intent_of st1 k = map_option (\<lambda>i.
        case terminal_classification con of None \<Rightarrow> i
        | Some cl \<Rightarrow> if wi_slot_id i = s \<and> \<not> is_terminal (wi_state i)
            then i\<lparr>wi_state := constrained_state (con = RcSessionStopped) cl (cs_intents st) k\<rparr> else i)
      (intent_of st k)"
    and slot: "\<exists>sl. slot_of st1 s = Some sl \<and> sl_runtime_constraint sl = con \<and>
       (terminal_classification con \<noteq> None \<longrightarrow> sl_active sl = None)"
    and other: "\<And>x. x \<noteq> s \<Longrightarrow> slot_of st1 x = slot_of st x"
  have st': "st' = st1" using one eq by simp
  have ev: "evolves st st1"
  proof (rule evolves_states [where T = ?T])
    show "intent_of st1 k = map_option (\<lambda>i. i\<lparr>wi_state := ?T k i\<rparr>) (intent_of st k)" for k
      by (cases "intent_of st k") (auto simp: ins split: option.split)
  qed (auto split: option.split)
  have "active_batch_at st1 x = active_batch_at st x \<or> active_batch_at st1 x = None" for x
  proof (cases "x = s")
    case False
    then show ?thesis by (simp add: active_batch_at_def other)
  next
    case True
    show ?thesis
    proof (cases "terminal_classification con")
      case None
      then have "st1 = put_slot s ((slot_or_new s RoleTeammate st)\<lparr>sl_runtime_constraint := con\<rparr>) st"
        using one by (simp add: set_runtime_constraint_locked_def Let_def)
      then show ?thesis by simp
    next
      case (Some cl)
      then show ?thesis using slot True by (auto simp: active_batch_at_def)
    qed
  qed
  then show ?thesis unfolding st' by (intro advances_same_batches [OF inv1 ev op])
qed

lemma remove_slot_locked_advances:
  assumes inv: "coord_inv g st" and eq: "remove_slot_locked s st = Some (r, st')"
  shows "advances g B st st'"
proof (rule remove_slot_locked_spec [OF inv, of s])
  fix r1 st1
  assume one: "remove_slot_locked s st = Some (r1, st1)" and inv1: "coord_inv g st1"
    and op: "cs_next_operation_id st1 = cs_next_operation_id st"
    and ins: "\<And>k. intent_of st1 k = map_option (\<lambda>i. if wi_slot_id i = s \<and> \<not> is_terminal (wi_state i)
       then i\<lparr>wi_state := Cancelled ''slot_removed''\<rparr> else i) (intent_of st k)"
    and slots: "\<And>x. slot_of st1 x = (if x = s
       then map_option (\<lambda>sl. (clear_slot_work sl)\<lparr>sl_removed := True\<rparr>) (slot_of st x)
       else slot_of st x)"
  have st': "st' = st1" using one eq by simp
  have ev: "evolves st st1"
  proof (rule evolves_states [where T = "\<lambda>k i. if wi_slot_id i = s \<and> \<not> is_terminal (wi_state i)
      then Cancelled ''slot_removed'' else wi_state i"])
    show "intent_of st1 k = map_option (\<lambda>i. i\<lparr>wi_state := if wi_slot_id i = s \<and> \<not> is_terminal (wi_state i)
      then Cancelled ''slot_removed'' else wi_state i\<rparr>) (intent_of st k)" for k
      by (cases "intent_of st k") (auto simp: ins)
  qed auto
  have "active_batch_at st1 x = active_batch_at st x \<or> active_batch_at st1 x = None" for x
    by (auto simp: active_batch_at_def slots split: bind_split)
  then show ?thesis unfolding st' by (intro advances_same_batches [OF inv1 ev op])
qed

lemma stop_locked_advances:
  assumes inv: "coord_inv g st"
  shows "advances g B st (snd (stop_locked st))"
proof (rule advances_same_batches [OF stop_locked_spec(1) [OF inv] _ stop_locked_spec(5) [OF inv]])
  show "evolves st (snd (stop_locked st))"
  proof (rule evolves_states [where T = "\<lambda>k i. wi_state (stop_intent i)"])
    show "intent_of (snd (stop_locked st)) k =
        map_option (\<lambda>i. i\<lparr>wi_state := wi_state (stop_intent i)\<rparr>) (intent_of st k)" for k
      by (cases "intent_of st k") (auto simp: stop_locked_spec(2) [OF inv] stop_intent_def)
  qed (simp add: stop_intent_def)
  show "active_batch_at (snd (stop_locked st)) s = active_batch_at st s \<or>
      active_batch_at (snd (stop_locked st)) s = None" for s
    by (auto simp: active_batch_at_def stop_locked_spec(3) [OF inv] split: bind_split)
qed

section \<open>Configurations and steps\<close>

record 'p work_world =
  ww_coordinator :: "'p slot_work_coordinator"
  ww_issued :: "work_batch set"

abbreviation world_state :: "'p work_world \<Rightarrow> coordinator_state" where
  "world_state w \<equiv> co_state (ww_coordinator w)"

abbreviation world_generation :: "'p work_world \<Rightarrow> id" where
  "world_generation w \<equiv> co_session_generation (ww_coordinator w)"

text \<open>\<open>generate_id()\<close> returns identifiers that have not been used before.\<close>

definition fresh_env :: "env \<Rightarrow> 'p work_world \<Rightarrow> bool" where
  "fresh_env e w \<longleftrightarrow> inj (env_id e) \<and>
     (\<forall>j. intent_of (world_state w) (env_id e j) = None \<and>
          lease_of (world_state w) (env_id e j) = None \<and>
          env_id e j \<notin> wb_batch_id ` ww_issued w)"

text \<open>The same hash maps in another iteration order.\<close>

definition rehashed :: "coordinator_state \<Rightarrow> coordinator_state \<Rightarrow> bool" where
  "rehashed st st' \<longleftrightarrow>
     mset (cs_intents st') = mset (cs_intents st) \<and>
     mset (cs_enqueue_leases st') = mset (cs_enqueue_leases st) \<and>
     cs_slots st' = cs_slots st \<and> cs_next_operation_id st' = cs_next_operation_id st"

inductive work_step :: "'p run_causality_port \<Rightarrow> 'p work_world \<Rightarrow> 'p work_world \<Rightarrow> bool"
  for P :: "'p run_causality_port" where
  step_acquire:
    "fresh_env e w \<Longrightarrow> acquire_enqueue P e req (ww_coordinator w) = (r, c) \<Longrightarrow>
     work_step P w (w\<lparr>ww_coordinator := c\<rparr>)"
| step_commit:
    "fresh_env e w \<Longrightarrow> commit_enqueue P e lease m (ww_coordinator w) = Some (r, c) \<Longrightarrow>
     work_step P w (w\<lparr>ww_coordinator := c\<rparr>)"
| step_abort:
    "abort_enqueue P e lease (ww_coordinator w) = (r, c) \<Longrightarrow>
     work_step P w (w\<lparr>ww_coordinator := c\<rparr>)"
| step_reconcile:
    "fresh_env e w \<Longrightarrow> reconcile_mailbox e s unread role (ww_coordinator w) = (pr, c) \<Longrightarrow>
     work_step P w (w\<lparr>ww_coordinator := c\<rparr>)"
| step_claim:
    "fresh_env e w \<Longrightarrow> coordinator_next P e s (ww_coordinator w) = (Claim b, c) \<Longrightarrow>
     work_step P w (w\<lparr>ww_coordinator := c, ww_issued := insert b (ww_issued w)\<rparr>)"
| step_no_claim:
    "coordinator_next P e s (ww_coordinator w) = (d, c) \<Longrightarrow> (\<And>b. d \<noteq> Claim b) \<Longrightarrow>
     work_step P w (w\<lparr>ww_coordinator := c\<rparr>)"
| step_started:
    "b \<in> ww_issued w \<Longrightarrow> mark_started P e b turn (ww_coordinator w) = (sr, c) \<Longrightarrow>
     work_step P w (w\<lparr>ww_coordinator := c\<rparr>)"
| step_retry:
    "b \<in> ww_issued w \<Longrightarrow> retry_start P e b (ww_coordinator w) = (cr, c) \<Longrightarrow>
     work_step P w (w\<lparr>ww_coordinator := c\<rparr>)"
| step_end:
    "b \<in> ww_issued w \<Longrightarrow> is_terminal t \<Longrightarrow>
     terminalize_batch P e b t (ww_coordinator w) = (cr, c) \<Longrightarrow>
     work_step P w (w\<lparr>ww_coordinator := c\<rparr>)"
| step_cancel_run:
    "cancel_run P e run (ww_coordinator w) = Some (cw, c) \<Longrightarrow>
     work_step P w (w\<lparr>ww_coordinator := c\<rparr>)"
| step_signals:
    "complete_signals P e s ks (ww_coordinator w) = (cr, c) \<Longrightarrow>
     work_step P w (w\<lparr>ww_coordinator := c\<rparr>)"
| step_pause:
    "pause_slot s (ww_coordinator w) = (pw, c) \<Longrightarrow>
     work_step P w (w\<lparr>ww_coordinator := c\<rparr>)"
| step_constraint:
    "set_runtime_constraint P e s con (ww_coordinator w) = Some (ru, c) \<Longrightarrow>
     work_step P w (w\<lparr>ww_coordinator := c\<rparr>)"
| step_remove:
    "remove_slot P e s (ww_coordinator w) = Some (rw, c) \<Longrightarrow>
     work_step P w (w\<lparr>ww_coordinator := c\<rparr>)"
| step_stop:
    "stop P e (ww_coordinator w) = (ss, c) \<Longrightarrow>
     work_step P w (w\<lparr>ww_coordinator := c\<rparr>)"
| step_port:
    "work_step P w (w\<lparr>ww_coordinator := (ww_coordinator w)\<lparr>co_run_causality := port\<rparr>\<rparr>)"
| step_rehash:
    "rehashed (world_state w) st \<Longrightarrow>
     work_step P w (w\<lparr>ww_coordinator := (ww_coordinator w)\<lparr>co_state := st\<rparr>\<rparr>)"

definition world_new :: "id \<Rightarrow> id \<Rightarrow> 'p \<Rightarrow> 'p work_world" where
  "world_new team generation port =
     \<lparr>ww_coordinator = coordinator_new team generation port, ww_issued = {}\<rparr>"

definition work_reachable :: "'p run_causality_port \<Rightarrow> id \<Rightarrow> id \<Rightarrow> 'p \<Rightarrow> 'p work_world \<Rightarrow> bool" where
  "work_reachable P team generation port w \<longleftrightarrow> (work_step P)\<^sup>*\<^sup>* (world_new team generation port) w"

definition world_inv :: "'p work_world \<Rightarrow> bool" where
  "world_inv w \<longleftrightarrow>
     coord_inv (world_generation w) (world_state w) \<and>
     inj_on wb_batch_id (ww_issued w) \<and>
     (\<forall>s b. active_batch_at (world_state w) s = Some b \<longrightarrow> b \<in> ww_issued w)"

lemma world_inv_genuine:
  assumes "world_inv w" "b \<in> ww_issued w"
  shows "genuine_batch (world_state w) b"
proof -
  have "ab_batch a = b" if "slot_of (world_state w) s = Some sl" "sl_active sl = Some a"
      "wb_batch_id (ab_batch a) = wb_batch_id b" for s sl a
  proof -
    have "active_batch_at (world_state w) s = Some (ab_batch a)"
      using that by (simp add: active_batch_at_def)
    then have "ab_batch a \<in> ww_issued w" using assms(1) by (simp add: world_inv_def)
    then show ?thesis using assms that(3) by (simp add: world_inv_def inj_on_def)
  qed
  then show ?thesis by (simp add: genuine_batch_def)
qed

lemma rehashed_intent_of:
  assumes "rehashed st st'" "distinct (hm_keys (cs_intents st))" "distinct (hm_keys (cs_enqueue_leases st))"
  shows "intent_of st' = intent_of st" "lease_of st' = lease_of st"
    "distinct (hm_keys (cs_intents st'))" "distinct (hm_keys (cs_enqueue_leases st'))"
proof -
  have perm: "distinct (map fst ys) \<and> map_of ys = map_of xs"
    if "mset ys = mset xs" "distinct (map fst xs)" for xs ys :: "(id \<times> 'x) list"
  proof -
    have d: "distinct (map fst ys)"
      using that by (metis mset_eq_imp_distinct_iff mset_map)
    have "set ys = set xs" using that(1) by (rule mset_eq_setD)
    then show ?thesis using d that(2) map_of_inject_set by blast
  qed
  show "intent_of st' = intent_of st" "distinct (hm_keys (cs_intents st'))"
    using perm [of "cs_intents st'" "cs_intents st"] assms by (simp_all add: rehashed_def del: map_map)
  show "lease_of st' = lease_of st" "distinct (hm_keys (cs_enqueue_leases st'))"
    using perm [of "cs_enqueue_leases st'" "cs_enqueue_leases st"] assms
    by (simp_all add: rehashed_def del: map_map)
qed

lemma rehashed_advances:
  assumes inv: "coord_inv g st" and re: "rehashed st st'"
  shows "advances g B st st'"
proof -
  note same = rehashed_intent_of [OF re coord_inv_keys(2,3) [OF inv]]
  have slots: "cs_slots st' = cs_slots st" and op: "cs_next_operation_id st' = cs_next_operation_id st"
    using re by (simp_all add: rehashed_def)
  have "coord_inv g st'"
    using inv by (simp add: coord_inv_def same slots op del: map_map)
  then show ?thesis
    by (rule advances_same_batches)
      (simp_all add: evolves_same same op active_batch_at_def slots)
qed

lemma released_state [simp]:
  "co_state (release_and_publish P e ss sn st c) = st"
  "co_session_generation (release_and_publish P e ss sn st c) = co_session_generation c"
  by (simp_all add: release_and_publish_def)

text \<open>The effect of a step: the handles \<open>B\<close> it issues have identifiers of their own.\<close>

definition step_effect :: "'p work_world \<Rightarrow> 'p work_world \<Rightarrow> work_batch set \<Rightarrow> bool" where
  "step_effect w w' B \<longleftrightarrow>
     advances (world_generation w) B (world_state w) (world_state w') \<and>
     world_generation w' = world_generation w \<and> ww_issued w' = ww_issued w \<union> B \<and>
     inj_on wb_batch_id (ww_issued w') \<and>
     (\<forall>b \<in> B. wb_batch_id b \<notin> wb_batch_id ` ww_issued w)"

lemma step_effect_plain:
  assumes "world_inv w" "advances (world_generation w) {} (world_state w) (co_state c)"
    "co_session_generation c = world_generation w"
  shows "\<exists>B. step_effect w (w\<lparr>ww_coordinator := c\<rparr>) B"
  by (rule exI [of _ "{}"]) (use assms in \<open>simp add: step_effect_def world_inv_def\<close>)

lemma work_step_effect:
  assumes inv: "world_inv w" and step: "work_step P w w'"
  shows "\<exists>B. step_effect w w' B"
  using step
proof cases
  case (step_acquire e req r c)
  have "advances (world_generation w) {} (world_state w) (co_state (snd (acquire_enqueue P e req (ww_coordinator w))))"
    using inv by (intro acquire_enqueue_advances) (simp add: world_inv_def)
  moreover have "co_session_generation (snd (acquire_enqueue P e req (ww_coordinator w))) = world_generation w"
    by (auto simp: acquire_enqueue_def Let_def split: sum.splits prod.splits)
  ultimately show ?thesis using step_acquire step_effect_plain [OF inv, of c] by simp
next
  case (step_commit e lease m r c)
  have coord: "coord_inv (world_generation w) (world_state w)" using inv by (simp add: world_inv_def)
  have "intent_of (world_state w) (env_id e 0) = None" using step_commit by (simp add: fresh_env_def)
  note adv = commit_enqueue_locked_advances [OF coord this]
  have "advances (world_generation w) {} (world_state w) (co_state c)
      \<and> co_session_generation c = world_generation w"
    using step_commit(3) adv advances_refl [OF coord]
    by (auto simp: commit_enqueue_def split: option.splits sum.splits prod.splits)
  then show ?thesis using step_commit step_effect_plain [OF inv, of c] by simp
next
  case (step_abort e lease r c)
  have "advances (world_generation w) {} (world_state w) (co_state (snd (abort_enqueue P e lease (ww_coordinator w))))"
    using inv by (intro abort_enqueue_advances) (simp add: world_inv_def)
  moreover have "co_session_generation (snd (abort_enqueue P e lease (ww_coordinator w))) = world_generation w"
    by (auto simp: abort_enqueue_def Let_def release_and_publish_def split: option.splits)
  ultimately show ?thesis using step_abort step_effect_plain [OF inv, of c] by simp
next
  case (step_reconcile e s unread role pr c)
  have "advances (world_generation w) {} (world_state w)
      (snd (reconcile_mailbox_locked (world_generation w) e s unread role (world_state w)))"
    using inv step_reconcile by (intro reconcile_mailbox_locked_advances) (simp_all add: world_inv_def fresh_env_def)
  then show ?thesis using step_reconcile step_effect_plain [OF inv, of c]
    by (auto simp: reconcile_mailbox_def split: prod.splits)
next
  case (step_claim e s b c)
  obtain st where locked: "next_locked (world_generation w) e s (world_state w) = (Claim b, st)"
    and c: "co_state c = st" "co_session_generation c = world_generation w"
    using step_claim(3) by (auto simp: coordinator_next_def split: prod.splits reconcile_decision.splits)
  have coord: "coord_inv (world_generation w) (world_state w)" using inv by (simp add: world_inv_def)
  have "wb_batch_id b = env_id e 0"
    using locked by (rule next_locked_Claim) (metis claimed_batch_fields(6))
  then have "wb_batch_id b \<notin> wb_batch_id ` ww_issued w"
    using step_claim(2) by (simp add: fresh_env_def)
  then show ?thesis
    using claim_batch_advances(1) [OF coord locked] c inv step_claim(1)
    by (intro exI [of _ "{b}"]) (auto simp: step_effect_def world_inv_def)
next
  case (step_no_claim e s d c)
  have "co_state c = world_state w \<and> co_session_generation c = world_generation w"
    using step_no_claim(2,3) next_locked_other [of "world_generation w" e s "world_state w" d]
    by (auto simp: coordinator_next_def split: prod.splits reconcile_decision.splits)
  then show ?thesis
    using step_no_claim(1) step_effect_plain [OF inv, of c] inv by (simp add: advances_refl world_inv_def)
next
  case (step_started b e turn sr c)
  have "advances (world_generation w) {} (world_state w)
      (snd (mark_started_locked (world_generation w) e b turn (world_state w)))"
    using inv step_started(2) by (intro mark_started_locked_advances world_inv_genuine) (simp_all add: world_inv_def)
  moreover have "snd (mark_started_locked (world_generation w) e b turn (world_state w)) = co_state c
      \<and> co_session_generation c = world_generation w"
    using step_started(3)
    by (auto simp: mark_started_def mark_started_locked_def Let_def split: prod.splits if_splits)
  ultimately show ?thesis using step_started(1) step_effect_plain [OF inv, of c] by simp
next
  case (step_retry b e cr c)
  have "advances (world_generation w) {} (world_state w)
      (snd (retry_start_locked (world_generation w) b (world_state w)))"
    using inv step_retry(2) by (intro retry_start_locked_advances world_inv_genuine) (simp_all add: world_inv_def)
  moreover have "snd (retry_start_locked (world_generation w) b (world_state w)) = co_state c
      \<and> co_session_generation c = world_generation w"
    using step_retry(3)
    by (auto simp: retry_start_def publish_batch_def retry_start_locked_def split: if_splits)
  ultimately show ?thesis using step_retry(1) step_effect_plain [OF inv, of c] by simp
next
  case (step_end b t e cr c)
  have "advances (world_generation w) {} (world_state w)
      (snd (terminalize_batch_locked (world_generation w) b t (world_state w)))"
    using inv step_end(2,3) by (intro terminalize_batch_locked_advances world_inv_genuine) (simp_all add: world_inv_def)
  moreover have "snd (terminalize_batch_locked (world_generation w) b t (world_state w)) = co_state c
      \<and> co_session_generation c = world_generation w"
    using step_end(4)
    by (auto simp: terminalize_batch_def publish_batch_def terminalize_batch_locked_def split: if_splits)
  ultimately show ?thesis using step_end(1) step_effect_plain [OF inv, of c] by simp
next
  case (step_cancel_run e run cw c)
  then show ?thesis
    using inv step_effect_plain [OF inv, of c] cancel_run_locked_advances
    by (auto simp: cancel_run_def world_inv_def split: option.splits prod.splits)
next
  case (step_signals e s ks cr c)
  have "advances (world_generation w) {} (world_state w)
      (snd (complete_signals_locked s ks (world_state w)))"
    using inv by (intro complete_signals_locked_advances) (simp add: world_inv_def)
  moreover have "snd (complete_signals_locked s ks (world_state w)) = co_state c
      \<and> co_session_generation c = world_generation w"
    using step_signals(2)
    by (auto simp: complete_signals_def complete_signals_locked_def split: if_splits)
  ultimately show ?thesis using step_signals(1) step_effect_plain [OF inv, of c] by simp
next
  case (step_pause s pw c)
  have "advances (world_generation w) {} (world_state w) (co_state (snd (pause_slot s (ww_coordinator w))))"
    using inv by (intro pause_slot_advances) (simp add: world_inv_def)
  moreover have "co_session_generation (snd (pause_slot s (ww_coordinator w))) = world_generation w"
    by (simp add: pause_slot_def Let_def)
  ultimately show ?thesis using step_pause step_effect_plain [OF inv, of c] by simp
next
  case (step_constraint e s con ru c)
  then show ?thesis
    using inv step_effect_plain [OF inv, of c] set_runtime_constraint_locked_advances
    by (auto simp: set_runtime_constraint_def world_inv_def Let_def split: option.splits prod.splits)
next
  case (step_remove e s rw c)
  then show ?thesis
    using inv step_effect_plain [OF inv, of c] remove_slot_locked_advances
    by (auto simp: remove_slot_def world_inv_def split: option.splits prod.splits)
next
  case (step_stop e ss c)
  have "advances (world_generation w) {} (world_state w) (snd (stop_locked (world_state w)))"
    using inv by (intro stop_locked_advances) (simp add: world_inv_def)
  then show ?thesis
    using step_stop step_effect_plain [OF inv, of c] by (auto simp: stop_def split: prod.splits)
next
  case (step_port port)
  then show ?thesis
    using step_effect_plain [OF inv, of "(ww_coordinator w)\<lparr>co_run_causality := port\<rparr>"] inv
    by (simp add: advances_refl world_inv_def)
next
  case (step_rehash st)
  then show ?thesis
    using step_effect_plain [OF inv, of "(ww_coordinator w)\<lparr>co_state := st\<rparr>"] inv
    by (simp add: rehashed_advances world_inv_def)
qed

lemma step_effect_inv: "world_inv w \<Longrightarrow> step_effect w w' B \<Longrightarrow> world_inv w'"
  by (auto simp: step_effect_def world_inv_def advances_def)

lemma world_inv_new: "world_inv (world_new team g port)"
proof -
  have "active_batch_at coordinator_state_default s = None" for s
    by (simp add: active_batch_at_def coordinator_state_default_def)
  then show ?thesis
    by (simp add: world_inv_def world_new_def coordinator_new_def coord_inv_default)
qed

lemma work_steps_inv: "(work_step P)\<^sup>*\<^sup>* w w' \<Longrightarrow> world_inv w \<Longrightarrow> world_inv w'"
  by (induction rule: rtranclp_induct) (use work_step_effect step_effect_inv in blast)+

lemma work_reachable_inv: "work_reachable P team g port w \<Longrightarrow> world_inv w"
  unfolding work_reachable_def by (rule work_steps_inv [OF _ world_inv_new])

lemma work_steps_evolve:
  assumes "(work_step P)\<^sup>*\<^sup>* w w'" "world_inv w"
  shows "evolves (world_state w) (world_state w') \<and> world_generation w' = world_generation w \<and>
    cs_next_operation_id (world_state w) \<le> cs_next_operation_id (world_state w') \<and>
    ww_issued w \<subseteq> ww_issued w'"
  using assms
proof (induction rule: rtranclp_induct)
  case (step y z)
  then obtain B where "step_effect y z B" using work_step_effect work_steps_inv by blast
  then have "evolves (world_state y) (world_state z)" "world_generation z = world_generation y"
    "cs_next_operation_id (world_state y) \<le> cs_next_operation_id (world_state z)"
    "ww_issued y \<subseteq> ww_issued z"
    by (auto simp: step_effect_def advances_def)
  with step show ?case
    using evolves_trans order_trans by fastforce
qed simp

text \<open>A batch that has left its slot never becomes current again.\<close>

lemma not_active_persists:
  assumes "(work_step P)\<^sup>*\<^sup>* w w'" "world_inv w" "b \<in> ww_issued w"
    "\<And>s. active_batch_at (world_state w) s \<noteq> Some b"
  shows "active_batch_at (world_state w') s \<noteq> Some b"
  using assms(1)
proof (induction arbitrary: s rule: rtranclp_induct)
  case base
  then show ?case using assms(4) .
next
  case (step y z)
  have inv: "world_inv y" using work_steps_inv [OF step(1) assms(2)] .
  then obtain B where "step_effect y z B" using work_step_effect step(2) by blast
  moreover have "b \<in> ww_issued y" using work_steps_evolve [OF step(1) assms(2)] assms(3) by blast
  ultimately show ?case
    using step.IH unfolding step_effect_def advances_def by (metis image_eqI)
qed

end
