(* ===== verification/Work_Behaviour.thy ===== *)
theory Work_Behaviour
  imports Work_Steps
begin

text \<open>
  How the coordinator behaves over its reachable states: which places own the live intents,
  what a claim hands out, how a returned claim restores the queue, and how the rounds of an
  event loop drain a slot.
\<close>

section \<open>Ownership\<close>

definition owned_ids :: "coordinator_state \<Rightarrow> id list" where
  "owned_ids st = concat (map (\<lambda>(s, sl). active_ids sl @ queued_ids sl) (cs_slots st))"

lemma distinct_queued_ids:
  assumes "slot_inv g op I s sl"
  shows "distinct (active_ids sl @ queued_ids sl)"
proof -
  have lanes: "set (slot_queue p sl) \<inter> set (slot_queue q sl) = {}" if "p \<noteq> q" for p q
    using slot_inv_queue [OF assms] that by (auto; metis option.inject)
  have "distinct (queued_ids sl)"
    using slot_inv_distinct [OF assms, of Foreground] slot_inv_distinct [OF assms, of Control]
      slot_inv_distinct [OF assms, of Background] lanes [of Foreground Control]
      lanes [of Foreground Background] lanes [of Control Background]
    by (auto simp: queued_ids_def)
  moreover have "distinct (active_ids sl)"
    by (cases "sl_active sl") (simp_all add: batch_invD(4) [OF slot_inv_batch [OF assms]])
  moreover have "set (active_ids sl) \<inter> set (queued_ids sl) = {}"
    using slot_inv_active [OF assms] slot_inv_queued_ids [OF assms] by fastforce
  ultimately show ?thesis by simp
qed

lemma slot_owned_iff:
  assumes "slot_inv g op I s sl"
  shows "k \<in> set (active_ids sl @ queued_ids sl) \<longleftrightarrow>
    (\<exists>i. I k = Some i \<and> wi_slot_id i = s \<and> \<not> is_terminal (wi_state i))"
  using slot_inv_active [OF assms, of k] slot_inv_queued_ids [OF assms, of k]
  by (auto simp: not_terminal_iff)

lemma owned_ids_inv:
  assumes inv: "coord_inv g st"
  shows "distinct (owned_ids st)"
    and "set (owned_ids st) = {k. \<exists>i. intent_of st k = Some i \<and> \<not> is_terminal (wi_state i)}"
proof -
  have slot: "slot_inv g (cs_next_operation_id st) (intent_of st) s sl" if "(s, sl) \<in> set (cs_slots st)" for s sl
    using coord_inv_slot [OF inv] coord_inv_keys(4) [OF inv] that by (simp add: map_of_eq_Some_iff)
  have "distinct (concat (map (\<lambda>(s, sl). active_ids sl @ queued_ids sl) xs))"
    if "distinct (map fst xs)" "set xs \<subseteq> set (cs_slots st)" for xs
    using that
  proof (induction xs)
    case (Cons x xs)
    obtain s sl where x: "x = (s, sl)" by (cases x)
    have sl: "slot_inv g (cs_next_operation_id st) (intent_of st) s sl"
      using Cons.prems x slot by simp
    have "k \<notin> set (active_ids sl' @ queued_ids sl')"
      if y: "(s', sl') \<in> set xs" and k: "k \<in> set (active_ids sl @ queued_ids sl)" for s' sl' k
    proof -
      have "s' \<noteq> s" using Cons.prems(1) x y by force
      moreover have "slot_inv g (cs_next_operation_id st) (intent_of st) s' sl'"
        using Cons.prems(2) y slot by auto
      ultimately show ?thesis
        using k unfolding slot_owned_iff [OF sl] by (subst slot_owned_iff) auto
    qed
    then show ?case
      using Cons distinct_queued_ids [OF sl] by (fastforce simp: x)
  qed simp
  then show "distinct (owned_ids st)"
    using coord_inv_keys(4) [OF inv] by (simp add: owned_ids_def)
  show "set (owned_ids st) = {k. \<exists>i. intent_of st k = Some i \<and> \<not> is_terminal (wi_state i)}"
  proof (intro set_eqI iffI)
    fix k assume "k \<in> set (owned_ids st)"
    then obtain s sl where x: "(s, sl) \<in> set (cs_slots st)" "k \<in> set (active_ids sl @ queued_ids sl)"
      by (auto simp: owned_ids_def)
    then show "k \<in> {k. \<exists>i. intent_of st k = Some i \<and> \<not> is_terminal (wi_state i)}"
      using slot_owned_iff [OF slot [OF x(1)], of k] by blast
  next
    fix k assume "k \<in> {k. \<exists>i. intent_of st k = Some i \<and> \<not> is_terminal (wi_state i)}"
    then obtain i where i: "intent_of st k = Some i" "\<not> is_terminal (wi_state i)" by blast
    then obtain sl where sl: "slot_of st (wi_slot_id i) = Some sl" using coord_inv_home [OF inv] by blast
    then have "k \<in> set (active_ids sl @ queued_ids sl)"
      using slot_owned_iff [OF coord_inv_slot [OF inv sl], of k] i by blast
    then show "k \<in> set (owned_ids st)"
      using map_of_SomeD [OF sl] unfolding owned_ids_def by force
  qed
qed

section \<open>Claims\<close>

lemma takeWhile_maximal:
  "takeWhile P xs = xs \<or> (\<exists>y ys. xs = takeWhile P xs @ y # ys \<and> \<not> P y)"
  by (induction xs) auto

text \<open>What a claim hands out, for a state that satisfies the invariant.\<close>

definition claim_spec :: "coordinator_state \<Rightarrow> id \<Rightarrow> work_batch \<Rightarrow> bool" where
  "claim_spec st s b \<longleftrightarrow>
     (\<exists>sl rest. slot_of st s = Some sl \<and> sl_active sl = None \<and> sl_runtime_constraint sl = RcReady \<and>
        \<not> sl_paused sl \<and> slot_queue (wb_highest_priority b) sl \<noteq> [] \<and>
        (\<forall>q < wb_highest_priority b. slot_queue q sl = []) \<and>
        filter (has_message st) (slot_queue (wb_highest_priority b) sl) = wb_intent_ids b @ rest \<and>
        wb_intent_ids b \<noteq> [] \<and>
        (if wb_is_command b
         then length (wb_intent_ids b) = 1 \<and> (\<forall>k \<in> set (wb_intent_ids b). is_command_intent st k)
         else (\<forall>k \<in> set (wb_intent_ids b). \<not> is_command_intent st k) \<and>
              (rest = [] \<or> is_command_intent st (hd rest))))"

lemma next_locked_claim_spec:
  assumes "next_locked g e s st = (Claim b, st')"
  shows "claim_spec st s b"
proof -
  from assms obtain sl p h ks where sl: "slot_of st s = Some sl" "sl_active sl = None"
    "sl_runtime_constraint sl = RcReady" "\<not> sl_paused sl" and p: "selected_priority sl = Some p"
    and fifo: "filter (has_message st) (slot_queue p sl) = h # ks"
    and sel: "(wb_intent_ids b, wb_is_command b) = claim_selection st h (h # ks)"
    and b: "b = claimed_batch g e s p (wb_intent_ids b) (wb_is_command b) st"
    by (rule next_locked_Claim)
  have prio: "wb_highest_priority b = p" by (subst b) simp
  show ?thesis
  proof (cases "is_command_intent st h")
    case True
    then show ?thesis
      unfolding claim_spec_def using sl selected_priority_Some [OF p] fifo sel prio
      by (intro exI [of _ sl] exI [of _ ks]) (simp add: claim_selection_def)
  next
    case False
    let ?P = "\<lambda>k. \<not> is_command_intent st k"
    have sel': "wb_intent_ids b = takeWhile ?P (h # ks)" "\<not> wb_is_command b"
      using sel False by (simp_all add: claim_selection_def)
    show ?thesis
      unfolding claim_spec_def prio
    proof (intro exI [of _ sl] exI [of _ "dropWhile ?P (h # ks)"] conjI)
      show "filter (has_message st) (slot_queue p sl) = wb_intent_ids b @ dropWhile ?P (h # ks)"
        using fifo sel' by (simp only: takeWhile_dropWhile_id)
      show "if wb_is_command b
         then length (wb_intent_ids b) = 1 \<and> (\<forall>k \<in> set (wb_intent_ids b). is_command_intent st k)
         else (\<forall>k \<in> set (wb_intent_ids b). \<not> is_command_intent st k) \<and>
              (dropWhile ?P (h # ks) = [] \<or> is_command_intent st (hd (dropWhile ?P (h # ks))))"
      proof -
        have "dropWhile ?P (h # ks) = [] \<or> is_command_intent st (hd (dropWhile ?P (h # ks)))"
          using hd_dropWhile [of ?P "h # ks"] by blast
        moreover have "\<forall>k \<in> set (wb_intent_ids b). ?P k"
          unfolding sel'(1) using set_takeWhileD by fast
        ultimately show ?thesis using sel'(2) by simp
      qed
    qed (use sl selected_priority_Some [OF p] sel' False in auto)
  qed
qed

section \<open>Returning a claim\<close>

lemma filter_notin_prefix: "distinct (xs @ ys) \<Longrightarrow> filter (\<lambda>c. c \<notin> set xs) (xs @ ys) = ys"
  by (auto simp: filter_id_conv)

lemma retry_after_claim:
  assumes inv: "coord_inv g st" and claim: "next_locked g e s st = (Claim b, st1)"
    and msgs: "\<And>sl k. slot_of st s = Some sl \<Longrightarrow> k \<in> set (slot_queue (wb_highest_priority b) sl) \<Longrightarrow>
      has_message st k"
  obtains st2 sl sl2 where "retry_start_locked g b st1 = (Committed, st2)"
    "slot_of st s = Some sl" "slot_of st2 s = Some sl2" "sl_active sl2 = None"
    "\<And>p. slot_queue p sl2 = slot_queue p sl" "intent_of st2 = intent_of st"
    "\<And>x. x \<noteq> s \<Longrightarrow> slot_of st2 x = slot_of st x"
proof -
  let ?p = "wb_highest_priority b" and ?ks = "wb_intent_ids b"
  obtain sl rest where sl: "slot_of st s = Some sl" "sl_active sl = None"
    and fifo: "filter (has_message st) (slot_queue ?p sl) = ?ks @ rest"
    using next_locked_claim_spec [OF claim] by (auto simp: claim_spec_def)
  have lane: "slot_queue ?p sl = ?ks @ rest"
    using fifo msgs [OF sl(1)] by (simp add: filter_id_conv)
  have b: "b = claimed_batch g e s ?p ?ks (wb_is_command b) st" and st1: "st1 = claim_batch b st"
    using claim by (rule next_locked_Claim; metis claimed_batch_fields(3))+
  have fields: "wb_slot_id b = s" "wb_session_generation b = g" by (subst b, simp)+
  note old = coord_inv_slot [OF inv sl(1)]
  have queued: "\<exists>i. intent_of st k = Some i \<and> wi_state i = Queued" if "k \<in> set ?ks" for k
    using slot_inv_queue [OF old, of k ?p] that lane by auto
  let ?sl1 = "(fold remove_queued ?ks sl)\<lparr>sl_active := Some \<lparr>ab_batch = b, ab_turn_id = None, ab_started_at_ms = None\<rparr>\<rparr>"
  have sl1: "slot_of st1 s = Some ?sl1"
    using sl by (simp add: st1 claim_batch_def fields)
  have cur: "is_current_batch g st1 b" by (simp add: is_current_batch_def fields sl1)
  let ?sl2 = "foldr (queue_push_front ?p) ?ks (?sl1\<lparr>sl_active := None\<rparr>)"
  let ?st2 = "modify_slot s (\<lambda>sl. foldr (queue_push_front ?p) ?ks (sl\<lparr>sl_active := None\<rparr>))
    (st1\<lparr>cs_intents := set_intent_states ?ks Queued (cs_intents st1)\<rparr>)"
  show ?thesis
  proof (rule that [of ?st2 sl ?sl2])
    show "retry_start_locked g b st1 = (Committed, ?st2)"
      by (simp add: retry_start_locked_def cur fields)
    show "slot_of ?st2 s = Some ?sl2" by (simp add: sl1)
    show "slot_queue p ?sl2 = slot_queue p sl" for p
    proof (cases "p = ?p")
      case True
      have "distinct (?ks @ rest)" using slot_inv_distinct [OF old, of ?p] lane by simp
      then show ?thesis using True by (simp add: foldr_push_front lane filter_notin_prefix del: filter_append)
    next
      case False
      have "x \<notin> set ?ks" if x: "x \<in> set (slot_queue p sl)" for x
        using that False slot_inv_queue [OF old, of x p] slot_inv_queue [OF old, of x ?p] lane by auto
      then show ?thesis using False by (simp add: foldr_push_front filter_id_conv)
    qed
    show "intent_of ?st2 = intent_of st"
    proof
      show "intent_of ?st2 k = intent_of st k" for k
        using queued [of k] by (auto simp: st1 claim_batch_def)
    qed
    show "slot_of ?st2 x = slot_of st x" if "x \<noteq> s" for x
      using that by (simp add: st1 claim_batch_def fields)
  qed (use sl in \<open>simp_all add: foldr_push_front\<close>)
qed

section \<open>Draining a slot\<close>

text \<open>
  One round of the event loop on the happy path (\<open>event_loop.rs\<close>, the inner loop of
  \<open>run_event_loop\<close>): claim, start, complete; or settle the signals of a lane without messages.
\<close>

definition drain_round :: "id \<Rightarrow> env \<Rightarrow> id \<Rightarrow> id \<Rightarrow> coordinator_state \<Rightarrow> coordinator_state" where
  "drain_round g e turn s st =
     (case next_locked g e s st of
        (Claim b, st1) \<Rightarrow>
          snd (terminalize_batch_locked g b Completed (snd (mark_started_locked g e b turn st1)))
      | (SettleSignals ks, st1) \<Rightarrow> snd (complete_signals_locked s ks st1)
      | (_, st1) \<Rightarrow> st1)"

fun drain :: "id \<Rightarrow> env \<Rightarrow> id \<Rightarrow> id \<Rightarrow> nat \<Rightarrow> coordinator_state \<Rightarrow> coordinator_state" where
  "drain g e turn s 0 st = st"
| "drain g e turn s (Suc n) st = drain g e turn s n (drain_round g e turn s st)"

definition slot_ready :: "coordinator_state \<Rightarrow> id \<Rightarrow> bool" where
  "slot_ready st s \<longleftrightarrow>
     (case slot_of st s of None \<Rightarrow> False
      | Some sl \<Rightarrow> sl_active sl = None \<and> sl_runtime_constraint sl = RcReady \<and> \<not> sl_paused sl)"

definition queue_length :: "coordinator_state \<Rightarrow> id \<Rightarrow> nat" where
  "queue_length st s = (case slot_of st s of None \<Rightarrow> 0 | Some sl \<Rightarrow> length (queued_ids sl))"

lemma length_queued_ids: "length (queued_ids sl) =
    length (slot_queue Foreground sl) + length (slot_queue Control sl) + length (slot_queue Background sl)"
  by (simp add: queued_ids_def)

lemma length_filter_lt: "\<exists>x \<in> set xs. \<not> P x \<Longrightarrow> length (filter P xs) < length xs"
  by (auto intro: length_filter_less)

text \<open>Taking some of the queued intents out of the lanes shortens the queue.\<close>

lemma queued_ids_shrink:
  assumes q: "\<And>p. slot_queue p sl' = filter (\<lambda>c. c \<notin> set ks) (slot_queue p sl)"
    and k: "k \<in> set ks" "k \<in> set (slot_queue p sl)"
  shows "length (queued_ids sl') < length (queued_ids sl)"
proof -
  have le: "length (slot_queue q sl') \<le> length (slot_queue q sl)" for q by (simp add: q)
  have lt: "length (slot_queue p sl') < length (slot_queue p sl)"
    using k unfolding q by (intro length_filter_lt) auto
  show ?thesis
    using le [of Foreground] le [of Control] le [of Background] lt
    unfolding length_queued_ids by (cases p) simp_all
qed

lemma drain_round_claim:
  assumes inv: "coord_inv g st" and claim: "next_locked g e s st = (Claim b, st1)"
    and st3_def: "st3 = snd (terminalize_batch_locked g b Completed (snd (mark_started_locked g e b turn st1)))"
  obtains sl sl3 where "slot_of st s = Some sl" "slot_of st3 s = Some sl3"
    "sl_active sl3 = None" "sl_runtime_constraint sl3 = RcReady" "\<not> sl_paused sl3"
    "\<And>p. slot_queue p sl3 = filter (\<lambda>c. c \<notin> set (wb_intent_ids b)) (slot_queue p sl)"
    "wb_intent_ids b \<noteq> []" "set (wb_intent_ids b) \<subseteq> set (slot_queue (wb_highest_priority b) sl)"
    "\<And>k. intent_of st3 k = (if k \<in> set (wb_intent_ids b)
       then map_option (\<lambda>i. i\<lparr>wi_state := Completed\<rparr>) (intent_of st k) else intent_of st k)"
    "coord_inv g st3"
proof -
  let ?ks = "wb_intent_ids b"
  obtain sl rest where sl: "slot_of st s = Some sl" "sl_active sl = None"
    "sl_runtime_constraint sl = RcReady" "\<not> sl_paused sl" "?ks \<noteq> []"
    and fifo: "filter (has_message st) (slot_queue (wb_highest_priority b) sl) = ?ks @ rest"
    using next_locked_claim_spec [OF claim] by (auto simp: claim_spec_def)
  have b: "b = claimed_batch g e s (wb_highest_priority b) ?ks (wb_is_command b) st"
    and st1: "st1 = claim_batch b st"
    using claim by (rule next_locked_Claim; metis claimed_batch_fields(3))+
  have fields: "wb_slot_id b = s" "wb_session_generation b = g" by (subst b, simp)+
  let ?a = "\<lparr>ab_batch = b, ab_turn_id = None, ab_started_at_ms = None\<rparr>"
  let ?sl1 = "(fold remove_queued ?ks sl)\<lparr>sl_active := Some ?a\<rparr>"
  have sl1: "slot_of st1 s = Some ?sl1" using sl by (simp add: st1 claim_batch_def fields)
  have inv1: "coord_inv g st1" by (rule next_locked_inv [OF inv claim])
  have cur1: "is_current_batch g st1 b" by (simp add: is_current_batch_def fields sl1)
  have gen1: "genuine_batch st1 b" by (simp add: genuine_batch_def fields sl1)
  define st2 where "st2 = start_batch e b turn st1"
  have started: "snd (mark_started_locked g e b turn st1) = st2"
    by (simp add: mark_started_locked_def cur1 st2_def)
  let ?a2 = "?a\<lparr>ab_turn_id := Some turn, ab_started_at_ms := Some (env_now e)\<rparr>"
  have sl2: "slot_of st2 s = Some (?sl1\<lparr>sl_active := Some ?a2\<rparr>)"
    by (simp add: st2_def start_batch_def sl1 fields)
  have inv2: "coord_inv g st2" unfolding st2_def by (rule start_batch_inv [OF inv1 cur1 gen1])
  have cur2: "is_current_batch g st2 b" by (simp add: is_current_batch_def fields sl2)
  have gen2: "genuine_batch st2 b" by (simp add: genuine_batch_def fields sl2)
  have st3: "st3 = modify_slot s (\<lambda>sl. sl\<lparr>sl_active := None\<rparr>)
      (st2\<lparr>cs_intents := set_intent_states ?ks Completed (cs_intents st2)\<rparr>)"
    by (simp add: st3_def started terminalize_batch_locked_def cur2 fields)
  show ?thesis
  proof (rule that [OF sl(1)])
    show "slot_of st3 s = Some (?sl1\<lparr>sl_active := None\<rparr>)" by (simp add: st3 sl2)
    show "set ?ks \<subseteq> set (slot_queue (wb_highest_priority b) sl)"
      using fifo by (metis (no_types) Un_upper1 filter_is_subset set_append subset_trans)
    show "coord_inv g st3"
      unfolding st3_def started by (rule terminalize_batch_locked_inv [OF inv2 gen2]) simp
    show "intent_of st3 k = (if k \<in> set ?ks
       then map_option (\<lambda>i. i\<lparr>wi_state := Completed\<rparr>) (intent_of st k) else intent_of st k)" for k
      by (simp add: st3 st2_def start_batch_def st1 claim_batch_def option.map_comp comp_def)
  qed (use sl in simp_all)
qed

text \<open>A round on a ready slot with queued work completes some of it and leaves the slot ready.\<close>

lemma drain_round_progress:
  assumes inv: "coord_inv g st" and ready: "slot_ready st s" and work: "queue_length st s > 0"
  obtains K where "coord_inv g (drain_round g e turn s st)" "slot_ready (drain_round g e turn s st) s"
    "queue_length (drain_round g e turn s st) s < queue_length st s"
    "\<And>k. intent_of (drain_round g e turn s st) k = (if k \<in> K
       then map_option (\<lambda>i. i\<lparr>wi_state := Completed\<rparr>) (intent_of st k) else intent_of st k)"
proof -
  obtain sl where sl: "slot_of st s = Some sl" "sl_active sl = None" "sl_runtime_constraint sl = RcReady"
    "\<not> sl_paused sl" using ready by (auto simp: slot_ready_def split: option.splits)
  have "queued_ids sl \<noteq> []" using work sl by (simp add: queue_length_def)
  then obtain p where p: "selected_priority sl = Some p"
    using selected_priority_None by (metis option.exhaust)
  show ?thesis
  proof (cases "filter (has_message st) (slot_queue p sl)")
    case (Cons h ks)
    then obtain b st1 where claim: "next_locked g e s st = (Claim b, st1)"
      using sl p by (cases "claim_selection st h (h # ks)") (simp add: next_locked_def Let_def)
    let ?st3 = "snd (terminalize_batch_locked g b Completed (snd (mark_started_locked g e b turn st1)))"
    have eq: "drain_round g e turn s st = ?st3" by (simp add: drain_round_def claim)
    obtain sl0 sl3 where sl3: "slot_of st s = Some sl0" "slot_of ?st3 s = Some sl3"
      "sl_active sl3 = None" "sl_runtime_constraint sl3 = RcReady" "\<not> sl_paused sl3"
      "\<And>p. slot_queue p sl3 = filter (\<lambda>c. c \<notin> set (wb_intent_ids b)) (slot_queue p sl0)"
      "wb_intent_ids b \<noteq> []" "set (wb_intent_ids b) \<subseteq> set (slot_queue (wb_highest_priority b) sl0)"
      and ins: "\<And>k. intent_of ?st3 k = (if k \<in> set (wb_intent_ids b)
       then map_option (\<lambda>i. i\<lparr>wi_state := Completed\<rparr>) (intent_of st k) else intent_of st k)"
      and inv3: "coord_inv g ?st3"
      using drain_round_claim [OF inv claim refl] by blast
    have "hd (wb_intent_ids b) \<in> set (wb_intent_ids b)" using sl3(7) by simp
    then have "length (queued_ids sl3) < length (queued_ids sl0)"
      using sl3(8) by (intro queued_ids_shrink [OF sl3(6)]) auto
    then show ?thesis
      using sl3(1-5) inv3 by (intro that [of "set (wb_intent_ids b)"]) (simp_all add: eq slot_ready_def queue_length_def ins)
  next
    case Nil
    let ?ks = "slot_queue p sl"
    have settle: "next_locked g e s st = (SettleSignals ?ks, st)"
      using sl p Nil by (simp add: next_locked_def)
    let ?st1 = "modify_slot s (fold remove_queued ?ks) (st\<lparr>cs_intents := set_intent_states ?ks Completed (cs_intents st)\<rparr>)"
    have "signal_settleable st s k" if "k \<in> set ?ks" for k
    proof -
      have "\<not> has_message st k" using that Nil by (simp add: filter_empty_conv)
      then show ?thesis
        using that slot_inv_queue [OF coord_inv_slot [OF inv sl(1)], of k p]
        by (auto simp: signal_settleable_def has_message_def)
    qed
    then have locked: "complete_signals_locked s ?ks st = (Committed, ?st1)"
      by (simp add: complete_signals_locked_def)
    have eq: "drain_round g e turn s st = ?st1" by (simp add: drain_round_def settle locked)
    have sl1: "slot_of ?st1 s = Some (fold remove_queued ?ks sl)" by (simp add: sl)
    have "?ks \<noteq> []" using selected_priority_Some [OF p] by blast
    then have "length (queued_ids (fold remove_queued ?ks sl)) < length (queued_ids sl)"
      by (intro queued_ids_shrink [where p = p and k = "hd ?ks" and ks = ?ks]) simp_all
    moreover have "coord_inv g ?st1"
      using complete_signals_locked_inv [OF inv, of s ?ks] locked by simp
    ultimately show ?thesis
      using sl by (intro that [of "set ?ks"]) (simp_all add: eq slot_ready_def queue_length_def)
  qed
qed

lemma drain_idle:
  assumes "slot_ready st s" "queue_length st s = 0"
  shows "drain_round g e turn s st = st"
proof -
  obtain sl where "slot_of st s = Some sl" "sl_active sl = None" "sl_runtime_constraint sl = RcReady"
    "\<not> sl_paused sl" using assms(1) by (auto simp: slot_ready_def split: option.splits)
  moreover have "selected_priority sl = None"
    using assms(2) calculation(1) by (simp add: selected_priority_None queue_length_def)
  ultimately show ?thesis by (simp add: drain_round_def next_locked_def)
qed

lemma drain_completes:
  assumes "coord_inv g st" "slot_ready st s" "queue_length st s \<le> n"
  shows "coord_inv g (drain g e turn s n st) \<and> slot_ready (drain g e turn s n st) s \<and>
    queue_length (drain g e turn s n st) s = 0 \<and>
    (\<forall>k i. intent_of st k = Some i \<and> wi_slot_id i = s \<and> (wi_state i = Queued \<or> wi_state i = Completed) \<longrightarrow>
       intent_of (drain g e turn s n st) k = Some (i\<lparr>wi_state := Completed\<rparr>))"
  using assms
proof (induction n arbitrary: st)
  case 0
  obtain sl where sl: "slot_of st s = Some sl"
    using 0(2) by (auto simp: slot_ready_def split: option.splits)
  then have "queued_ids sl = []" using 0(3) by (simp add: queue_length_def)
  then have "wi_state i \<noteq> Queued" if "intent_of st k = Some i" "wi_slot_id i = s" for k i
    using slot_inv_queued_ids [OF coord_inv_slot [OF 0(1) sl], of k] that by auto
  with 0 show ?case by auto
next
  case (Suc n)
  show ?case
  proof (cases "queue_length st s = 0")
    case True
    then have "drain g e turn s (Suc n) st = drain g e turn s n st"
      using drain_idle [OF Suc.prems(2)] by simp
    with Suc.IH [OF Suc.prems(1,2)] True show ?thesis by simp
  next
    case False
    let ?st = "drain_round g e turn s st"
    from False have "queue_length st s > 0" by simp
    then obtain K where inv: "coord_inv g ?st" "slot_ready ?st s" and lt: "queue_length ?st s < queue_length st s"
      and ins: "\<And>k. intent_of ?st k = (if k \<in> K
         then map_option (\<lambda>i. i\<lparr>wi_state := Completed\<rparr>) (intent_of st k) else intent_of st k)"
      using drain_round_progress [OF Suc.prems(1,2), of e turn] by metis
    have "queue_length ?st s \<le> n" using lt Suc.prems(3) by simp
    note IH = Suc.IH [OF inv this]
    have "intent_of (drain g e turn s n ?st) k = Some (i\<lparr>wi_state := Completed\<rparr>)"
      if i: "intent_of st k = Some i" "wi_slot_id i = s" "wi_state i = Queued \<or> wi_state i = Completed" for k i
    proof (cases "k \<in> K")
      case True
      then have "intent_of ?st k = Some (i\<lparr>wi_state := Completed\<rparr>)" using i by (simp add: ins)
      with IH i show ?thesis by fastforce
    next
      case False
      then have "intent_of ?st k = Some i" using i by (simp add: ins)
      with IH i show ?thesis by blast
    qed
    then show ?thesis using IH by simp
  qed
qed

end
