(* ===== verification/Run_Causality.thy ===== *)
theory Run_Causality
  imports Work_Control_Invariant
begin

text \<open>
  What the work coordinator relies on when it talks to the object behind \<open>RunCausalityPort\<close>,
  as a locale over the methods of the trait and the run that object holds active. The laws say
  how binding an enqueue chooses the active run and how a published summary keeps or ends it;
  the lemmas are the coordinator's operations seen from the run.
\<close>

locale run_causality =
  fixes P :: "'p run_causality_port" and active :: "'p \<Rightarrow> id option"
  assumes bind_user:
    "er_binding req = UserVisible \<Longrightarrow> port_bind_enqueue P e req p = (b, p') \<Longrightarrow>
     \<exists>r. rb_team_run_id b = Some r \<and> active p' = Some r \<and> (active p \<noteq> None \<longrightarrow> active p = Some r)"
    and bind_system:
    "port_bind_system_enqueue P e req p = (b, p') \<Longrightarrow>
     \<exists>r. rb_team_run_id b = Some r \<and> active p' = Some r \<and> (active p \<noteq> None \<longrightarrow> active p = Some r)"
    and bind_active:
    "er_binding req = ActiveRunOrBackground \<Longrightarrow> port_bind_enqueue P e req p = (b, p') \<Longrightarrow>
     rb_team_run_id b = active p \<and> active p' = active p"
    and publish_slot: "active (port_publish_slot_work P e sn p) = active p"
    and apply_other:
    "active p = Some r \<Longrightarrow> rs_team_run_id s \<noteq> r \<Longrightarrow> active (port_apply_work_summary P e s p) = Some r"
    and apply_work:
    "active p = Some r \<Longrightarrow> \<not> no_work s \<Longrightarrow> rs_failed_intent_count s = 0 \<Longrightarrow>
     active (port_apply_work_summary P e s p) = Some r"
    and apply_no_work:
    "no_work s \<Longrightarrow> active p = None \<or> active p = Some (rs_team_run_id s) \<Longrightarrow>
     active (port_apply_work_summary P e s p) = None"
begin

lemma active_release:
  "active (co_run_causality (release_and_publish P e ss sn st c)) =
   active (publish_run_summaries P e ss (co_run_causality c))"
  by (simp add: release_and_publish_def publish_slot_work_snapshot_def publish_slot split: option.split)

lemma publish_others:
  assumes "active p = Some r" "\<And>s. s \<in> set ss \<Longrightarrow> rs_team_run_id s \<noteq> r"
  shows "active (publish_run_summaries P e ss p) = Some r"
  using assms by (induction ss arbitrary: p) (auto simp: publish_run_summaries_def apply_other)

text \<open>Summaries without work leave no run active once they include the active run's.\<close>

lemma publish_ended:
  assumes "\<And>s. s \<in> set ss \<Longrightarrow> no_work s"
    and "active p = None \<or> (\<exists>s \<in> set ss. active p = Some (rs_team_run_id s))"
  shows "active (publish_run_summaries P e ss p) = None"
  using assms
proof (induction ss arbitrary: p)
  case Nil
  then show ?case by (simp add: publish_run_summaries_def)
next
  case (Cons s ss)
  let ?p = "port_apply_work_summary P e s p"
  have "active ?p = None \<or> (\<exists>s \<in> set ss. active ?p = Some (rs_team_run_id s))"
  proof (cases "active p = None \<or> active p = Some (rs_team_run_id s)")
    case True
    then show ?thesis using apply_no_work [of s p e] Cons.prems(1) by simp
  next
    case False
    then obtain r where r: "active p = Some r" "rs_team_run_id s \<noteq> r" by auto
    then have "active ?p = Some r" by (rule apply_other)
    then show ?thesis using Cons.prems(2) r by auto
  qed
  then have "active (publish_run_summaries P e ss ?p) = None"
    using Cons.prems(1) by (intro Cons.IH) auto
  then show ?case by (simp add: publish_run_summaries_def)
qed

text \<open>An accepted user enqueue belongs to the run that is active from then on.\<close>

lemma acquire_user_tracked:
  assumes "acquire_enqueue P e req c = (Inr lease, c')" "er_binding req = UserVisible"
  shows "\<exists>r. el_team_run_id lease = Some r \<and> active (co_run_causality c') = Some r \<and>
    (active (co_run_causality c) \<noteq> None \<longrightarrow> active (co_run_causality c) = Some r)"
proof -
  obtain st b p where "resolve_binding P e req st (co_run_causality c) = (b, p)"
    "el_team_run_id lease = rb_team_run_id b" "co_run_causality c' = p"
    using assms(1) by (auto simp: acquire_enqueue_def Let_def split: sum.splits prod.splits)
  then show ?thesis
    using assms(2) bind_user [of req e "co_run_causality c" b p] by (simp add: resolve_binding_def)
qed

text \<open>The summary published by a commit keeps the run of the work active.\<close>

lemma commit_keeps_active:
  assumes commit: "commit_enqueue P e lease m c = Some (Inr cm, c')"
    and inv: "coord_inv (co_session_generation c) (co_state c)"
    and fresh: "intent_of (co_state c) (env_id e 0) = None"
    and act: "active (co_run_causality c) = Some r"
    and ok: "rs_failed_intent_count (run_summary_locked (co_state c') r) = 0"
  shows "active (co_run_causality c') = Some r"
proof -
  obtain ss st where locked: "commit_enqueue_locked (co_session_generation c) e lease m (co_state c) =
      Some (Inr (cm, ss, st))"
    and c': "c' = release_and_publish P e ss (Some (ec_slot cm)) st c"
    using commit by (auto simp: commit_enqueue_def split: option.splits sum.splits)
  have ss: "ss = run_summaries_locked st (option_list (el_team_run_id lease))"
    and new: "intent_of st (env_id e 0) = Some (committed_intent (co_session_generation c) e lease m)"
    using locked by (rule commit_enqueue_locked_Inr; simp)+
  have inv': "coord_inv (co_session_generation c) st"
    by (rule commit_enqueue_locked_inv [OF inv fresh locked])
  have st: "co_state c' = st" by (simp add: c' release_and_publish_def)
  show ?thesis
  proof (cases "el_team_run_id lease = Some r")
    case False
    then have "rs_team_run_id s \<noteq> r" if "s \<in> set ss" for s
      using that by (cases "el_team_run_id lease")
        (auto simp: ss run_summaries_locked_def)
    then show ?thesis
      unfolding c' active_release by (intro publish_others [OF act])
  next
    case True
    have "\<not> is_terminal (wi_state (committed_intent (co_session_generation c) e lease m))"
      "wi_team_run_id (committed_intent (co_session_generation c) e lease m) = Some r"
      by (simp_all add: committed_intent_def True)
    then have "\<not> no_work (run_summary_locked st r)"
      unfolding no_work_intent_of [OF inv'] using new by blast
    moreover have "ss = [run_summary_locked st r]"
      by (simp add: ss True run_summaries_locked_def btree_set_def)
    ultimately show ?thesis
      unfolding c' active_release using apply_work [OF act] ok st
      by (simp add: publish_run_summaries_def)
  qed
qed

text \<open>Cancelling the active run ends it.\<close>

lemma cancel_run_ends:
  assumes "cancel_run P e r c = Some (cw, c')"
    and inv: "coord_inv (co_session_generation c) (co_state c)"
    and act: "active (co_run_causality c) = Some r"
  shows "active (co_run_causality c') = None"
proof (rule cancel_run_locked_spec [OF inv, of r])
  fix cw1 st
  assume locked: "cancel_run_locked r (co_state c) = Some (cw1, st)"
    and inv': "coord_inv (co_session_generation c) st"
    and ins: "\<And>k. intent_of st k = map_option (cancel_effect (co_state c) r) (intent_of (co_state c) k)"
    and ls: "run_leases st r = []" and sm: "cr_summary cw1 = run_summary_locked st r"
  have c': "c' = release_and_publish P e [run_summary_locked st r] None st c"
    using assms(1) locked sm by (simp add: cancel_run_def)
  have ended: "is_terminal (wi_state i)" if "intent_of st k = Some i" "wi_team_run_id i = Some r" for k i
    using that cancel_effect_ends [OF inv, of k] by (auto simp: ins cancel_effect_run)
  have "no_work (run_summary_locked st r)"
    unfolding no_work_intent_of [OF inv'] using ended ls by blast
  then show ?thesis
    unfolding c' active_release by (intro publish_ended) (simp_all add: act)
qed

text \<open>Stopping the session ends the active run if any work or lease is bound to it.\<close>

lemma stop_ends:
  assumes "stop P e c = (ss, c')"
    and inv: "coord_inv (co_session_generation c) (co_state c)"
    and act: "active (co_run_causality c) = None \<or>
      (\<exists>r. active (co_run_causality c) = Some r \<and> r \<in> set (all_run_ids (co_state c)))"
  shows "active (co_run_causality c') = None"
proof -
  let ?st = "snd (stop_locked (co_state c))"
  have ss: "ss = map (run_summary_locked ?st) (all_run_ids (co_state c))"
    and c': "c' = release_and_publish P e ss None ?st c"
    using assms(1) by (auto simp: stop_def stop_locked_def Let_def)
  note inv' = stop_locked_spec(1) [OF inv]
  have "run_leases ?st r = []" for r
    by (simp add: run_leases_def stop_locked_spec(4) [OF inv])
  moreover have "is_terminal (wi_state i)" if "intent_of ?st k = Some i" for k i
    using that by (auto simp: stop_locked_spec(2) [OF inv])
  ultimately have "no_work (run_summary_locked ?st r)" for r
    unfolding no_work_intent_of [OF inv'] by blast
  then show ?thesis
    unfolding c' active_release using act by (intro publish_ended) (auto simp: ss)
qed

end

end
