(* ===== verification/Team_Run.thy ===== *)
theory Team_Run
  imports Run_Causality
begin

text \<open>
  The team-run manager (\<open>crates/aionui-team/src/team_run/manager.rs\<close>): it owns the one run
  record of a team, binds enqueued work to a run, and turns the summaries the work coordinator
  publishes into the status of the run and the events its clients see. The payload types are
  those of \<open>crates/aionui-api-types/src/team.rs\<close>.

  The event emitter is the list of the events broadcast so far, oldest first.
\<close>

section \<open>Payloads\<close>

datatype team_run_status =
    RunAccepted | RunRunning | RunCancelling | RunCompleted | RunCancelled | RunFailed

datatype team_run_source = SourceUserMessage | SourceSystemLifecycle

datatype team_slot_work_state =
    WorkIdle | WorkQueued | WorkStarting | WorkRunning | WorkPaused | WorkBlocked

datatype team_slot_blocked_reason =
    ReasonRuntimeStarting | ReasonRuntimeFailed | ReasonRemoving | ReasonSessionStopped

record team_slot_work_payload =
  sp_slot_id :: id
  sp_role :: target_role
  sp_state :: team_slot_work_state
  sp_queued_foreground_count :: nat
  sp_queued_background_count :: nat
  sp_active_turn_id :: "id option"
  sp_active_turn_started_at_ms :: "timestamp_ms option"
  sp_active_turn_elapsed_ms :: "u64 option"
  sp_active_turn_slow :: "bool option"
  sp_active_turn_slow_threshold_ms :: "u64 option"
  sp_blocked_reason :: "team_slot_blocked_reason option"
  sp_team_run_id :: "id option"

record team_run_payload =
  tp_team_id :: id
  tp_team_run_id :: id
  tp_source :: team_run_source
  tp_has_user_intervention :: bool
  tp_target_slot_id :: id
  tp_target_role :: target_role
  tp_status :: team_run_status
  tp_queued_intent_count :: nat
  tp_starting_batch_count :: nat
  tp_running_batch_count :: nat
  tp_active_enqueue_lease_count :: nat
  tp_slot_work :: "team_slot_work_payload list"

datatype run_event_name =
    TeamRunAcceptedEvent | TeamRunStartedEvent | TeamRunUpdatedEvent
  | TeamRunCompletedEvent | TeamRunCancelledEvent | TeamRunFailedEvent

datatype team_event =
    RunEvent run_event_name team_run_payload
  | SlotWorkChanged id team_slot_work_payload

fun run_event_string :: "run_event_name \<Rightarrow> string" where
  "run_event_string TeamRunAcceptedEvent = ''team.runAccepted''"
| "run_event_string TeamRunStartedEvent = ''team.runStarted''"
| "run_event_string TeamRunUpdatedEvent = ''team.runUpdated''"
| "run_event_string TeamRunCompletedEvent = ''team.runCompleted''"
| "run_event_string TeamRunCancelledEvent = ''team.runCancelled''"
| "run_event_string TeamRunFailedEvent = ''team.runFailed''"


section \<open>The manager\<close>

record team_run_record =
  tr_team_run_id :: id
  tr_source :: team_run_source
  tr_has_user_intervention :: bool
  tr_target_slot_id :: id
  tr_target_role :: target_role
  tr_status :: team_run_status
  tr_started_at_ms :: "timestamp_ms option"
  tr_completed_at_ms :: "timestamp_ms option"
  tr_cancel_reason :: "string option"
  tr_summary :: "run_work_summary option"
  tr_accepted_emitted :: bool

record team_run_manager =
  tm_team_id :: id
  tm_emitter :: "team_event list"
  tm_state :: "team_run_record option"

definition team_run_manager_new :: "id \<Rightarrow> team_run_manager" where
  "team_run_manager_new team = \<lparr>tm_team_id = team, tm_emitter = [], tm_state = None\<rparr>"

definition status_active :: "team_run_status \<Rightarrow> bool" where
  "status_active s \<longleftrightarrow> s = RunAccepted \<or> s = RunRunning \<or> s = RunCancelling"

definition run_is_active :: "team_run_record \<Rightarrow> bool" where
  "run_is_active run \<longleftrightarrow> status_active (tr_status run)"

definition active_turn_slow_threshold_ms :: u64 where
  "active_turn_slow_threshold_ms = 10 * 60 * 1000"

text \<open>\<open>i64::saturating_sub\<close>, then \<open>max(0) as u64\<close>.\<close>

definition elapsed_since :: "timestamp_ms \<Rightarrow> timestamp_ms \<Rightarrow> u64" where
  "elapsed_since now started =
     word_of_int (max 0 (max (- (2 ^ 63)) (min (2 ^ 63 - 1) (now - started))))"

fun slot_work_state :: "slot_phase \<Rightarrow> team_slot_work_state" where
  "slot_work_state PhIdle = WorkIdle"
| "slot_work_state PhQueued = WorkQueued"
| "slot_work_state PhStarting = WorkStarting"
| "slot_work_state PhRunning = WorkRunning"
| "slot_work_state PhPaused = WorkPaused"
| "slot_work_state PhBlocked = WorkBlocked"

fun blocked_reason :: "runtime_constraint \<Rightarrow> team_slot_blocked_reason option" where
  "blocked_reason RcReady = None"
| "blocked_reason (RcStarting _) = Some ReasonRuntimeStarting"
| "blocked_reason (RcFailed _ _) = Some ReasonRuntimeFailed"
| "blocked_reason (RcRemoving _) = Some ReasonRemoving"
| "blocked_reason RcSessionStopped = Some ReasonSessionStopped"

definition slot_payload :: "env \<Rightarrow> slot_work_snapshot \<Rightarrow> team_slot_work_payload" where
  "slot_payload e slot =
     (let elapsed = map_option (elapsed_since (env_now e)) (sn_active_turn_started_at_ms slot)
      in \<lparr>sp_slot_id = sn_slot_id slot, sp_role = sn_role slot,
          sp_state = slot_work_state (sn_state slot),
          sp_queued_foreground_count = sn_queued_foreground_count slot,
          sp_queued_background_count = sn_queued_background_count slot,
          sp_active_turn_id = sn_active_turn_id slot,
          sp_active_turn_started_at_ms = sn_active_turn_started_at_ms slot,
          sp_active_turn_elapsed_ms = elapsed,
          sp_active_turn_slow = map_option (\<lambda>ms. active_turn_slow_threshold_ms \<le> ms) elapsed,
          sp_active_turn_slow_threshold_ms =
            map_option (\<lambda>_. active_turn_slow_threshold_ms) (sn_active_turn_id slot),
          sp_blocked_reason = blocked_reason (sn_runtime_constraint slot),
          sp_team_run_id = sn_team_run_id slot\<rparr>)"

definition payload_locked ::
  "env \<Rightarrow> id \<Rightarrow> team_run_record \<Rightarrow> run_work_summary \<Rightarrow> team_run_payload" where
  "payload_locked e team run summary =
     \<lparr>tp_team_id = team, tp_team_run_id = tr_team_run_id run, tp_source = tr_source run,
      tp_has_user_intervention = tr_has_user_intervention run,
      tp_target_slot_id = tr_target_slot_id run, tp_target_role = tr_target_role run,
      tp_status = tr_status run,
      tp_queued_intent_count = rs_queued_intent_count summary,
      tp_starting_batch_count = rs_starting_batch_count summary,
      tp_running_batch_count = rs_running_batch_count summary,
      tp_active_enqueue_lease_count = rs_active_enqueue_lease_count summary,
      tp_slot_work = map (slot_payload e) (rs_slots summary)\<rparr>"

definition broadcast_team_run ::
  "run_event_name \<Rightarrow> team_run_payload \<Rightarrow> team_run_manager \<Rightarrow> team_run_manager" where
  "broadcast_team_run name payload m = m\<lparr>tm_emitter := tm_emitter m @ [RunEvent name payload]\<rparr>"

definition run_record_new :: "id \<Rightarrow> team_run_source \<Rightarrow> id \<Rightarrow> target_role \<Rightarrow> team_run_record" where
  "run_record_new run source slot role =
     \<lparr>tr_team_run_id = run, tr_source = source, tr_has_user_intervention = False,
      tr_target_slot_id = slot, tr_target_role = role, tr_status = RunAccepted,
      tr_started_at_ms = None, tr_completed_at_ms = None, tr_cancel_reason = None,
      tr_summary = None, tr_accepted_emitted = False\<rparr>"

text \<open>The new run draws \<open>env_id e 0\<close>.\<close>

definition bind_user_enqueue ::
  "env \<Rightarrow> id \<Rightarrow> target_role \<Rightarrow> team_run_manager \<Rightarrow> run_binding \<times> team_run_manager" where
  "bind_user_enqueue e slot role m =
     (case tm_state m of
        Some run \<Rightarrow>
          if run_is_active run then
            (\<lparr>rb_team_run_id = Some (tr_team_run_id run), rb_created_new_run = False,
              rb_user_intervention = True\<rparr>,
             m\<lparr>tm_state := Some (run\<lparr>tr_has_user_intervention := True\<rparr>)\<rparr>)
          else
            (\<lparr>rb_team_run_id = Some (env_id e 0), rb_created_new_run = True,
              rb_user_intervention = False\<rparr>,
             m\<lparr>tm_state := Some (run_record_new (env_id e 0) SourceUserMessage slot role)\<rparr>)
      | None \<Rightarrow>
          (\<lparr>rb_team_run_id = Some (env_id e 0), rb_created_new_run = True,
            rb_user_intervention = False\<rparr>,
           m\<lparr>tm_state := Some (run_record_new (env_id e 0) SourceUserMessage slot role)\<rparr>))"

definition bind_system_enqueue ::
  "env \<Rightarrow> id \<Rightarrow> target_role \<Rightarrow> team_run_manager \<Rightarrow> run_binding \<times> team_run_manager" where
  "bind_system_enqueue e slot role m =
     (case tm_state m of
        Some run \<Rightarrow>
          if run_is_active run then
            (\<lparr>rb_team_run_id = Some (tr_team_run_id run), rb_created_new_run = False,
              rb_user_intervention = False\<rparr>, m)
          else
            (\<lparr>rb_team_run_id = Some (env_id e 0), rb_created_new_run = True,
              rb_user_intervention = False\<rparr>,
             m\<lparr>tm_state := Some (run_record_new (env_id e 0) SourceSystemLifecycle slot role)\<rparr>)
      | None \<Rightarrow>
          (\<lparr>rb_team_run_id = Some (env_id e 0), rb_created_new_run = True,
            rb_user_intervention = False\<rparr>,
           m\<lparr>tm_state := Some (run_record_new (env_id e 0) SourceSystemLifecycle slot role)\<rparr>))"

definition current_active_run_id :: "team_run_manager \<Rightarrow> id option" where
  "current_active_run_id m =
     Option.bind (tm_state m) (\<lambda>run. if run_is_active run then Some (tr_team_run_id run) else None)"

text \<open>The new record of a run after a summary, and the event it is announced with.\<close>

definition apply_summary_record ::
  "timestamp_ms \<Rightarrow> run_work_summary \<Rightarrow> team_run_record \<Rightarrow> team_run_record" where
  "apply_summary_record now summary run0 =
     (let run = run0\<lparr>tr_summary := Some summary\<rparr> in
      if rs_failed_intent_count summary > 0
      then run\<lparr>tr_status := RunFailed, tr_completed_at_ms := Some now\<rparr>
      else if no_work summary
      then run\<lparr>tr_status := (if tr_status run0 = RunCancelling then RunCancelled else RunCompleted),
               tr_completed_at_ms := Some now\<rparr>
      else if rs_running_batch_count summary > 0
      then run\<lparr>tr_status := RunRunning,
               tr_started_at_ms := (case tr_started_at_ms run of None \<Rightarrow> Some now | Some t \<Rightarrow> Some t)\<rparr>
      else run)"

definition run_event_of :: "team_run_status \<Rightarrow> team_run_status \<Rightarrow> run_event_name" where
  "run_event_of previous current =
     (if current = RunFailed \<and> previous \<noteq> RunFailed then TeamRunFailedEvent
      else if current = RunCancelled \<and> previous \<noteq> RunCancelled then TeamRunCancelledEvent
      else if current = RunCompleted \<and> previous \<noteq> RunCompleted then TeamRunCompletedEvent
      else if current = RunRunning \<and> previous \<noteq> RunRunning then TeamRunStartedEvent
      else TeamRunUpdatedEvent)"

definition apply_work_summary ::
  "env \<Rightarrow> run_work_summary \<Rightarrow> team_run_manager \<Rightarrow> team_run_manager" where
  "apply_work_summary e summary m =
     (case tm_state m of
        None \<Rightarrow> m
      | Some run0 \<Rightarrow>
          if tr_team_run_id run0 \<noteq> rs_team_run_id summary then m
          else
            let run1 = apply_summary_record (env_now e) summary run0;
                event = (if \<not> tr_accepted_emitted run1 then TeamRunAcceptedEvent
                         else run_event_of (tr_status run0) (tr_status run1));
                run2 = run1\<lparr>tr_accepted_emitted := True\<rparr>
            in broadcast_team_run event (payload_locked e (tm_team_id m) run2 summary)
                 (m\<lparr>tm_state := Some run2\<rparr>))"

definition begin_cancel ::
  "env \<Rightarrow> id \<Rightarrow> string option \<Rightarrow> team_run_manager \<Rightarrow> (team_error + unit) \<times> team_run_manager" where
  "begin_cancel e run_id reason m =
     (case tm_state m of
        Some run \<Rightarrow>
          if tr_team_run_id run = run_id \<and> run_is_active run then
            let run' = run\<lparr>tr_status := RunCancelling, tr_cancel_reason := reason\<rparr>;
                m' = m\<lparr>tm_state := Some run'\<rparr>
            in (Inr (), case tr_summary run' of
                          None \<Rightarrow> m'
                        | Some summary \<Rightarrow>
                            broadcast_team_run TeamRunUpdatedEvent
                              (payload_locked e (tm_team_id m) run' summary) m')
          else (Inl (InvalidRequest (''team run is not active: '' @ run_id)), m)
      | None \<Rightarrow> (Inl (InvalidRequest (''team run is not active: '' @ run_id)), m))"

definition empty_summary :: "id \<Rightarrow> run_work_summary" where
  "empty_summary run =
     \<lparr>rs_team_run_id = run, rs_queued_intent_count = 0, rs_starting_batch_count = 0,
      rs_running_batch_count = 0, rs_active_enqueue_lease_count = 0,
      rs_paused_intent_count = 0, rs_failed_intent_count = 0, rs_slots = []\<rparr>"

definition current_payload ::
  "env \<Rightarrow> coordinator_snapshot \<Rightarrow> team_run_manager \<Rightarrow> team_run_payload option" where
  "current_payload e coordinator m =
     (case tm_state m of
        None \<Rightarrow> None
      | Some run \<Rightarrow>
          let summary =
            (case tr_summary run of
               Some s \<Rightarrow> s
             | None \<Rightarrow>
                 (case cn_active_run_summary coordinator of
                    Some s \<Rightarrow> if rs_team_run_id s = tr_team_run_id run then s
                              else empty_summary (tr_team_run_id run)
                  | None \<Rightarrow> empty_summary (tr_team_run_id run)))
          in Some (payload_locked e (tm_team_id m) run summary))"

definition publish_snapshot_update ::
  "env \<Rightarrow> coordinator_snapshot \<Rightarrow> team_run_manager \<Rightarrow> team_run_manager" where
  "publish_snapshot_update e coordinator m =
     (case current_payload e coordinator m of
        None \<Rightarrow> m
      | Some payload \<Rightarrow>
          if tp_status payload = RunAccepted \<or> tp_status payload = RunRunning
          then broadcast_team_run TeamRunUpdatedEvent payload m else m)"


section \<open>The manager as a \<open>RunCausalityPort\<close>\<close>

definition manager_bind_enqueue ::
  "env \<Rightarrow> enqueue_request \<Rightarrow> team_run_manager \<Rightarrow> run_binding \<times> team_run_manager" where
  "manager_bind_enqueue e req m =
     (case er_binding req of
        UserVisible \<Rightarrow> bind_user_enqueue e (er_slot_id req) (er_role req) m
      | ActiveRunOrBackground \<Rightarrow>
          (\<lparr>rb_team_run_id = current_active_run_id m, rb_created_new_run = False,
            rb_user_intervention = False\<rparr>, m)
      | InheritRunningBatch _ \<Rightarrow>
          (\<lparr>rb_team_run_id = None, rb_created_new_run = False, rb_user_intervention = False\<rparr>, m)
      | BackgroundBinding \<Rightarrow>
          (\<lparr>rb_team_run_id = None, rb_created_new_run = False, rb_user_intervention = False\<rparr>, m)
      | SystemInitiated _ \<Rightarrow> bind_system_enqueue e (er_slot_id req) (er_role req) m)"

definition manager_abort_binding :: "run_binding \<Rightarrow> team_run_manager \<Rightarrow> team_run_manager" where
  "manager_abort_binding binding m =
     (case tm_state m of
        None \<Rightarrow> m
      | Some run \<Rightarrow>
          if Some (tr_team_run_id run) = rb_team_run_id binding then m\<lparr>tm_state := None\<rparr> else m)"

definition manager_publish_slot_work ::
  "env \<Rightarrow> slot_work_snapshot \<Rightarrow> team_run_manager \<Rightarrow> team_run_manager" where
  "manager_publish_slot_work e snapshot m =
     m\<lparr>tm_emitter := tm_emitter m @ [SlotWorkChanged (tm_team_id m) (slot_payload e snapshot)]\<rparr>"

definition team_run_port :: "team_run_manager run_causality_port" where
  "team_run_port =
     \<lparr>port_bind_enqueue = manager_bind_enqueue,
      port_bind_system_enqueue =
        (\<lambda>e req. bind_system_enqueue e (er_slot_id req) (er_role req)),
      port_abort_binding = manager_abort_binding,
      port_apply_work_summary = apply_work_summary,
      port_publish_slot_work = manager_publish_slot_work\<rparr>"


section \<open>Laws of the manager\<close>

named_theorems run_simps \<open>fields of a run record after an operation\<close>

lemma run_record_new_fields [simp, run_simps]:
  "tr_team_run_id (run_record_new r src s role) = r"
  "tr_status (run_record_new r src s role) = RunAccepted"
  "tr_accepted_emitted (run_record_new r src s role) = False"
  "tr_summary (run_record_new r src s role) = None"
  by (simp_all add: run_record_new_def)

lemma status_active_simps [simp]:
  "status_active RunAccepted" "status_active RunRunning" "status_active RunCancelling"
  "\<not> status_active RunCompleted" "\<not> status_active RunCancelled" "\<not> status_active RunFailed"
  by (simp_all add: status_active_def)

lemma broadcast_team_run_fields [simp, run_simps]:
  "tm_state (broadcast_team_run n p m) = tm_state m"
  "tm_team_id (broadcast_team_run n p m) = tm_team_id m"
  "tm_emitter (broadcast_team_run n p m) = tm_emitter m @ [RunEvent n p]"
  by (simp_all add: broadcast_team_run_def)

lemma apply_summary_record_fields [simp, run_simps]:
  "tr_team_run_id (apply_summary_record now s run) = tr_team_run_id run"
  "tr_accepted_emitted (apply_summary_record now s run) = tr_accepted_emitted run"
  "tr_summary (apply_summary_record now s run) = Some s"
  by (simp_all add: apply_summary_record_def Let_def)

lemma apply_summary_status:
  "tr_status (apply_summary_record now s run) =
     (if rs_failed_intent_count s > 0 then RunFailed
      else if no_work s then (if tr_status run = RunCancelling then RunCancelled else RunCompleted)
      else if rs_running_batch_count s > 0 then RunRunning
      else tr_status run)"
  by (simp add: apply_summary_record_def Let_def)

lemma current_active_simps:
  "current_active_run_id m = Some r \<longleftrightarrow>
     (\<exists>run. tm_state m = Some run \<and> run_is_active run \<and> tr_team_run_id run = r)"
  "current_active_run_id m = None \<longleftrightarrow> (\<forall>run. tm_state m = Some run \<longrightarrow> \<not> run_is_active run)"
  by (auto simp: current_active_run_id_def split: bind_splits)

lemma apply_work_summary_state:
  "tm_state (apply_work_summary e s m) =
     map_option (\<lambda>run. if tr_team_run_id run \<noteq> rs_team_run_id s then run
       else (apply_summary_record (env_now e) s run)\<lparr>tr_accepted_emitted := True\<rparr>) (tm_state m)"
  by (simp add: apply_work_summary_def Let_def split: option.split)

lemma bind_system_enqueue_active:
  assumes "bind_system_enqueue e s role m = (b, m')"
  shows "\<exists>r. rb_team_run_id b = Some r \<and> current_active_run_id m' = Some r \<and>
    (current_active_run_id m \<noteq> None \<longrightarrow> current_active_run_id m = Some r)"
  using assms
  by (auto simp: bind_system_enqueue_def current_active_run_id_def run_is_active_def
      split: option.splits if_splits)

lemma bind_user_enqueue_active:
  assumes "bind_user_enqueue e s role m = (b, m')"
  shows "\<exists>r. rb_team_run_id b = Some r \<and> current_active_run_id m' = Some r \<and>
    (current_active_run_id m \<noteq> None \<longrightarrow> current_active_run_id m = Some r)"
  using assms
  by (auto simp: bind_user_enqueue_def current_active_run_id_def run_is_active_def
      split: option.splits if_splits)

text \<open>The manager satisfies the interface the coordinator's run-level lemmas were proved over.\<close>

interpretation team_runs: run_causality team_run_port current_active_run_id
proof (unfold_locales, goal_cases)
  case (1 req e p b p')
  then show ?case
    using bind_user_enqueue_active [of e "er_slot_id req" "er_role req" p b p']
    by (simp add: team_run_port_def manager_bind_enqueue_def)
next
  case (2 e req p b p')
  then show ?case
    using bind_system_enqueue_active [of e "er_slot_id req" "er_role req" p b p']
    by (simp add: team_run_port_def)
next
  case (3 req e p b p')
  then show ?case by (auto simp: team_run_port_def manager_bind_enqueue_def)
next
  case (4 e sn p)
  then show ?case
    by (simp add: team_run_port_def manager_publish_slot_work_def current_active_run_id_def)
next
  case (5 p r s e)
  then show ?case
    by (cases "tm_state p")
      (auto simp: team_run_port_def current_active_run_id_def apply_work_summary_state split: if_splits)
next
  case (6 p r s e)
  then show ?case
    by (cases "tm_state p")
      (auto simp: team_run_port_def current_active_run_id_def apply_work_summary_state
        run_is_active_def apply_summary_status split: if_splits)
next
  case (7 s p e)
  then show ?case
    by (cases "tm_state p")
      (auto simp: team_run_port_def current_active_run_id_def apply_work_summary_state
        run_is_active_def apply_summary_status split: if_splits)
qed

section \<open>The manager's events\<close>

text \<open>The operations on a manager as steps; an identifier drawn is new to the event log.\<close>

definition events_of :: "id \<Rightarrow> team_run_manager \<Rightarrow> run_event_name list" where
  "events_of r m = filter_map (\<lambda>ev. case ev of
       RunEvent n p \<Rightarrow> if tp_team_run_id p = r then Some n else None
     | SlotWorkChanged _ _ \<Rightarrow> None) (tm_emitter m)"

definition unused_run :: "id \<Rightarrow> team_run_manager \<Rightarrow> bool" where
  "unused_run r m \<longleftrightarrow> events_of r m = [] \<and>
     (\<forall>run. tm_state m = Some run \<longrightarrow> tr_team_run_id run \<noteq> r)"

inductive manager_step :: "team_run_manager \<Rightarrow> team_run_manager \<Rightarrow> bool" where
  ms_bind_user: "unused_run (env_id e 0) m \<Longrightarrow> bind_user_enqueue e s role m = (b, m') \<Longrightarrow> manager_step m m'"
| ms_bind_system: "unused_run (env_id e 0) m \<Longrightarrow> bind_system_enqueue e s role m = (b, m') \<Longrightarrow> manager_step m m'"
| ms_abort: "manager_step m (manager_abort_binding b m)"
| ms_apply: "manager_step m (apply_work_summary e summary m)"
| ms_cancel: "begin_cancel e r reason m = (res, m') \<Longrightarrow> manager_step m m'"
| ms_snapshot: "manager_step m (publish_snapshot_update e cs m)"
| ms_slot: "manager_step m (manager_publish_slot_work e sn m)"

text \<open>
  What the log of a run looks like: updates only until the run is announced as accepted, one
  announcement, and then no second one.
\<close>

definition announced_once :: "run_event_name list \<Rightarrow> bool" where
  "announced_once ns \<longleftrightarrow>
     (\<exists>us vs. ns = us @ TeamRunAcceptedEvent # vs \<and>
        set us \<subseteq> {TeamRunUpdatedEvent} \<and> TeamRunAcceptedEvent \<notin> set vs)"

definition log_inv :: "team_run_manager \<Rightarrow> bool" where
  "log_inv m \<longleftrightarrow>
     (\<forall>r. set (events_of r m) \<subseteq> {TeamRunUpdatedEvent} \<or> announced_once (events_of r m)) \<and>
     (\<forall>run. tm_state m = Some run \<longrightarrow>
        (if tr_accepted_emitted run then announced_once (events_of (tr_team_run_id run) m)
         else set (events_of (tr_team_run_id run) m) \<subseteq> {TeamRunUpdatedEvent} \<and> tr_summary run = None))"

lemma events_of_broadcast [simp]:
  "events_of r (broadcast_team_run n p m) =
     events_of r m @ (if tp_team_run_id p = r then [n] else [])"
  by (simp add: events_of_def filter_map_append)

lemma events_of_state [simp]: "events_of r (m\<lparr>tm_state := x\<rparr>) = events_of r m"
  by (simp add: events_of_def)

lemma events_of_slot_work [simp]: "events_of r (manager_publish_slot_work e sn m) = events_of r m"
  by (simp add: events_of_def filter_map_append manager_publish_slot_work_def)

lemma payload_run [simp]: "tp_team_run_id (payload_locked e t run s) = tr_team_run_id run"
  by (simp add: payload_locked_def)

lemma announced_once_snoc:
  "announced_once ns \<Longrightarrow> n \<noteq> TeamRunAcceptedEvent \<Longrightarrow> announced_once (ns @ [n])"
proof -
  assume "announced_once ns" and n: "n \<noteq> TeamRunAcceptedEvent"
  then obtain us vs where "ns = us @ TeamRunAcceptedEvent # vs"
    "set us \<subseteq> {TeamRunUpdatedEvent}" "TeamRunAcceptedEvent \<notin> set vs"
    by (auto simp: announced_once_def)
  then show ?thesis
    unfolding announced_once_def using n by (intro exI [of _ us] exI [of _ "vs @ [n]"]) auto
qed

lemma announced_once_first:
  "set ns \<subseteq> {TeamRunUpdatedEvent} \<Longrightarrow> announced_once (ns @ [TeamRunAcceptedEvent])"
  unfolding announced_once_def by (rule exI [of _ ns], rule exI [of _ "[]"]) simp

lemma announced_once_not_updates: "announced_once ns \<Longrightarrow> \<not> set ns \<subseteq> {TeamRunUpdatedEvent}"
  by (auto simp: announced_once_def)

lemma run_event_of_accepted [simp]: "run_event_of a b \<noteq> TeamRunAcceptedEvent"
  by (simp add: run_event_of_def)

lemma log_inv_state_none: "log_inv m \<Longrightarrow> log_inv (m\<lparr>tm_state := None\<rparr>)"
  by (simp add: log_inv_def)

lemma log_inv_new_run:
  assumes "log_inv m" "unused_run r m"
  shows "log_inv (m\<lparr>tm_state := Some (run_record_new r src s role)\<rparr>)"
  using assms by (simp add: log_inv_def unused_run_def)

lemma log_inv_record:
  assumes "log_inv m" "tm_state m = Some run"
    "tr_team_run_id run' = tr_team_run_id run" "tr_accepted_emitted run' = tr_accepted_emitted run"
    "tr_summary run' = tr_summary run"
  shows "log_inv (m\<lparr>tm_state := Some run'\<rparr>)"
  using assms by (simp add: log_inv_def)

text \<open>An update may be broadcast at any time; any other event only after the announcement.\<close>

lemma log_inv_broadcast:
  assumes m: "log_inv m" and n: "n \<noteq> TeamRunAcceptedEvent"
    and ok: "n = TeamRunUpdatedEvent \<or> announced_once (events_of (tp_team_run_id p) m)"
  shows "log_inv (broadcast_team_run n p m)"
  using m ok announced_once_snoc [OF _ n] announced_once_not_updates by (auto simp: log_inv_def)

lemma log_inv_announce:
  assumes m: "log_inv m" and run: "tm_state m = Some run" "\<not> tr_accepted_emitted run"
    and new: "tr_team_run_id run' = tr_team_run_id run" "tr_accepted_emitted run'"
    and p: "tp_team_run_id p = tr_team_run_id run"
  shows "log_inv (broadcast_team_run TeamRunAcceptedEvent p (m\<lparr>tm_state := Some run'\<rparr>))"
  using assms by (auto simp: log_inv_def announced_once_first)

lemma log_inv_apply:
  assumes m: "log_inv m"
  shows "log_inv (apply_work_summary e s m)"
proof (cases "\<exists>run. tm_state m = Some run \<and> tr_team_run_id run = rs_team_run_id s")
  case False
  then show ?thesis using m by (auto simp: apply_work_summary_def split: option.splits)
next
  case True
  then obtain run where run: "tm_state m = Some run" "tr_team_run_id run = rs_team_run_id s" by blast
  let ?run = "(apply_summary_record (env_now e) s run)\<lparr>tr_accepted_emitted := True\<rparr>"
  let ?p = "payload_locked e (tm_team_id m) ?run s"
  show ?thesis
  proof (cases "tr_accepted_emitted run")
    case False
    have "log_inv (broadcast_team_run TeamRunAcceptedEvent ?p (m\<lparr>tm_state := Some ?run\<rparr>))"
      by (rule log_inv_announce [OF m run(1) False]) simp_all
    then show ?thesis using run False by (simp add: apply_work_summary_def Let_def)
  next
    case True
    let ?n = "run_event_of (tr_status run) (tr_status (apply_summary_record (env_now e) s run))"
    have ann: "announced_once (events_of (rs_team_run_id s) m)"
      using m run True by (auto simp: log_inv_def)
    then have "log_inv (m\<lparr>tm_state := Some ?run\<rparr>)"
      using m run by (simp add: log_inv_def)
    then have "log_inv (broadcast_team_run ?n ?p (m\<lparr>tm_state := Some ?run\<rparr>))"
      by (rule log_inv_broadcast) (use ann run in simp_all)
    then show ?thesis using run True by (simp add: apply_work_summary_def Let_def)
  qed
qed

lemma log_inv_step:
  assumes m: "log_inv m" and step: "manager_step m m'"
  shows "log_inv m'"
  using step
proof cases
  case (ms_bind_user e s role b)
  then show ?thesis
    using log_inv_new_run [OF m ms_bind_user(1)] log_inv_record [OF m]
    by (auto simp: bind_user_enqueue_def split: option.splits if_splits)
next
  case (ms_bind_system e s role b)
  then show ?thesis
    using log_inv_new_run [OF m ms_bind_system(1)] m
    by (auto simp: bind_system_enqueue_def split: option.splits if_splits)
next
  case (ms_abort b)
  then show ?thesis
    using log_inv_state_none [OF m] m by (auto simp: manager_abort_binding_def split: option.split)
next
  case (ms_apply e summary)
  then show ?thesis using log_inv_apply [OF m] by simp
next
  case (ms_cancel e r reason res)
  show ?thesis
  proof (cases "\<exists>run. tm_state m = Some run \<and> tr_team_run_id run = r \<and> run_is_active run")
    case False
    then show ?thesis using ms_cancel m by (auto simp: begin_cancel_def split: option.splits if_splits)
  next
    case True
    then obtain run where run: "tm_state m = Some run" "tr_team_run_id run = r" "run_is_active run" by blast
    have "log_inv (m\<lparr>tm_state := Some (run\<lparr>tr_status := RunCancelling, tr_cancel_reason := reason\<rparr>)\<rparr>)"
      by (rule log_inv_record [OF m run(1)]) simp_all
    then show ?thesis
      using ms_cancel run log_inv_broadcast [of _ TeamRunUpdatedEvent]
      by (auto simp: begin_cancel_def Let_def split: option.splits)
  qed
next
  case (ms_snapshot e cs)
  then show ?thesis
    using log_inv_broadcast [OF m, of TeamRunUpdatedEvent] m
    by (auto simp: publish_snapshot_update_def split: option.split)
next
  case (ms_slot e sn)
  have "tm_state (manager_publish_slot_work e sn m) = tm_state m"
    by (simp add: manager_publish_slot_work_def)
  then show ?thesis using ms_slot m by (simp add: log_inv_def)
qed

lemma log_inv_new: "log_inv (team_run_manager_new team)"
  by (simp add: log_inv_def team_run_manager_new_def events_of_def)

lemma log_inv_steps: "manager_step\<^sup>*\<^sup>* m m' \<Longrightarrow> log_inv m \<Longrightarrow> log_inv m'"
  by (induction rule: rtranclp_induct) (use log_inv_step in blast)+

end
