(* ===== verification/Team_Demo.thy ===== *)
theory Team_Demo
  imports Work_Behaviour Team_Run
begin

text \<open>
  A small concrete execution for the witnesses: a slot becomes ready, a user message is
  enqueued for it, claimed, started and completed. The identifiers of each call start with a
  letter of their own. The state after each call is given in evaluated form.
\<close>

definition demo_env :: "char \<Rightarrow> env" where
  "demo_env c = \<lparr>env_id = (\<lambda>j. c # replicate j (CHR ''i'')), env_now = 1000\<rparr>"

text \<open>A port that opens a run for every enqueue and ignores what is published.\<close>

definition quiet_port :: "unit run_causality_port" where
  "quiet_port =
     \<lparr>port_bind_enqueue = (\<lambda>e req p. (plain_binding (Some (env_id e 0)), p)),
      port_bind_system_enqueue = (\<lambda>e req p. (plain_binding (Some (env_id e 0)), p)),
      port_abort_binding = (\<lambda>b p. p),
      port_apply_work_summary = (\<lambda>e s p. p),
      port_publish_slot_work = (\<lambda>e s p. p)\<rparr>"

definition demo_request :: enqueue_request where
  "demo_request = \<lparr>er_slot_id = ''s'', er_role = RoleLead, er_source = UserMessage,
     er_binding = UserVisible\<rparr>"

definition demo_lease :: enqueue_lease where
  "demo_lease = \<lparr>el_lease_id = ''bi'', el_session_generation = ''gen'', el_slot_id = ''s'',
     el_role = RoleLead, el_source = UserMessage, el_team_run_id = Some ''b''\<rparr>"

definition demo_batch :: work_batch where
  "demo_batch = \<lparr>wb_batch_id = ''d'', wb_session_generation = ''gen'', wb_slot_id = ''s'',
     wb_intent_ids = [''c''], wb_mailbox_message_ids = [''m''], wb_highest_priority = Foreground,
     wb_team_run_ids = [''b''], wb_operation_id = 1, wb_is_command = False\<rparr>"

definition demo_new :: "unit slot_work_coordinator" where
  "demo_new = coordinator_new ''team'' ''gen'' ()"

definition demo_ready :: "unit slot_work_coordinator" where
  "demo_ready =
     snd (the (set_runtime_constraint quiet_port (demo_env CHR ''a'') ''s'' RcReady demo_new))"

lemma demo_ready_eq [code]:
  "demo_ready =
     \<lparr>co_team_id = ''team'', co_session_generation = ''gen'', co_run_causality = (),
      co_state = \<lparr>cs_slots = [(''s'', \<lparr>sl_role = RoleTeammate, sl_foreground =
      [], sl_control = [], sl_background = [], sl_active = None, sl_paused = False,
      sl_runtime_constraint = RcReady, sl_known_unread_message_ids = {}, sl_removed =
      False\<rparr>)], cs_intents = [], cs_enqueue_leases = [], cs_next_operation_id =
      0\<rparr>\<rparr>"
  by code_simp

definition demo_leased :: "unit slot_work_coordinator" where
  "demo_leased =
     snd (acquire_enqueue quiet_port (demo_env CHR ''b'') demo_request demo_ready)"

lemma demo_leased_eq [code]:
  "demo_leased =
     \<lparr>co_team_id = ''team'', co_session_generation = ''gen'', co_run_causality = (),
      co_state = \<lparr>cs_slots = [(''s'', \<lparr>sl_role = RoleLead, sl_foreground = [],
      sl_control = [], sl_background = [], sl_active = None, sl_paused = False,
      sl_runtime_constraint = RcReady, sl_known_unread_message_ids = {}, sl_removed =
      False\<rparr>)], cs_intents = [], cs_enqueue_leases = [(''bi'', \<lparr>lr_lease =
      \<lparr>el_lease_id = ''bi'', el_session_generation = ''gen'', el_slot_id = ''s'',
      el_role = RoleLead, el_source = UserMessage, el_team_run_id = Some ''b''\<rparr>,
      lr_binding = \<lparr>rb_team_run_id = Some ''b'', rb_created_new_run = False,
      rb_user_intervention = False\<rparr>\<rparr>)], cs_next_operation_id =
      0\<rparr>\<rparr>"
  by code_simp

definition demo_queued :: "unit slot_work_coordinator" where
  "demo_queued =
     snd (the (commit_enqueue quiet_port (demo_env CHR ''c'') demo_lease (Some ''m'') demo_leased))"

lemma demo_queued_eq [code]:
  "demo_queued =
     \<lparr>co_team_id = ''team'', co_session_generation = ''gen'', co_run_causality = (),
      co_state = \<lparr>cs_slots = [(''s'', \<lparr>sl_role = RoleLead, sl_foreground =
      [''c''], sl_control = [], sl_background = [], sl_active = None, sl_paused = False,
      sl_runtime_constraint = RcReady, sl_known_unread_message_ids = {''m''}, sl_removed =
      False\<rparr>)], cs_intents = [(''c'', \<lparr>wi_intent_id = ''c'',
      wi_session_generation = ''gen'', wi_slot_id = ''s'', wi_role = RoleLead, wi_source =
      UserMessage, wi_priority = Foreground, wi_mailbox_message_id = Some ''m'',
      wi_team_run_id = Some ''b'', wi_created_at_ms = 1000, wi_state = Queued\<rparr>)],
      cs_enqueue_leases = [], cs_next_operation_id = 0\<rparr>\<rparr>"
  by code_simp

definition demo_claimed :: "unit slot_work_coordinator" where
  "demo_claimed =
     snd (coordinator_next quiet_port (demo_env CHR ''d'') ''s'' demo_queued)"

lemma demo_claimed_eq [code]:
  "demo_claimed =
     \<lparr>co_team_id = ''team'', co_session_generation = ''gen'', co_run_causality = (),
      co_state = \<lparr>cs_slots = [(''s'', \<lparr>sl_role = RoleLead, sl_foreground = [],
      sl_control = [], sl_background = [], sl_active = Some \<lparr>ab_batch =
      \<lparr>wb_batch_id = ''d'', wb_session_generation = ''gen'', wb_slot_id = ''s'',
      wb_intent_ids = [''c''], wb_mailbox_message_ids = [''m''], wb_highest_priority =
      Foreground, wb_team_run_ids = [''b''], wb_operation_id = 1, wb_is_command =
      False\<rparr>, ab_turn_id = None, ab_started_at_ms = None\<rparr>, sl_paused = False,
      sl_runtime_constraint = RcReady, sl_known_unread_message_ids = {''m''}, sl_removed =
      False\<rparr>)], cs_intents = [(''c'', \<lparr>wi_intent_id = ''c'',
      wi_session_generation = ''gen'', wi_slot_id = ''s'', wi_role = RoleLead, wi_source =
      UserMessage, wi_priority = Foreground, wi_mailbox_message_id = Some ''m'',
      wi_team_run_id = Some ''b'', wi_created_at_ms = 1000, wi_state = Starting ''d''
      1\<rparr>)], cs_enqueue_leases = [], cs_next_operation_id = 1\<rparr>\<rparr>"
  by code_simp

definition demo_started :: "unit slot_work_coordinator" where
  "demo_started =
     snd (mark_started quiet_port (demo_env CHR ''e'') demo_batch ''t'' demo_claimed)"

lemma demo_started_eq [code]:
  "demo_started =
     \<lparr>co_team_id = ''team'', co_session_generation = ''gen'', co_run_causality = (),
      co_state = \<lparr>cs_slots = [(''s'', \<lparr>sl_role = RoleLead, sl_foreground = [],
      sl_control = [], sl_background = [], sl_active = Some \<lparr>ab_batch =
      \<lparr>wb_batch_id = ''d'', wb_session_generation = ''gen'', wb_slot_id = ''s'',
      wb_intent_ids = [''c''], wb_mailbox_message_ids = [''m''], wb_highest_priority =
      Foreground, wb_team_run_ids = [''b''], wb_operation_id = 1, wb_is_command =
      False\<rparr>, ab_turn_id = Some ''t'', ab_started_at_ms = Some 1000\<rparr>,
      sl_paused = False, sl_runtime_constraint = RcReady, sl_known_unread_message_ids =
      {''m''}, sl_removed = False\<rparr>)], cs_intents = [(''c'', \<lparr>wi_intent_id =
      ''c'', wi_session_generation = ''gen'', wi_slot_id = ''s'', wi_role = RoleLead,
      wi_source = UserMessage, wi_priority = Foreground, wi_mailbox_message_id = Some ''m'',
      wi_team_run_id = Some ''b'', wi_created_at_ms = 1000, wi_state = Running ''d'' 1
      ''t''\<rparr>)], cs_enqueue_leases = [], cs_next_operation_id = 1\<rparr>\<rparr>"
  by code_simp

definition demo_completed :: "unit slot_work_coordinator" where
  "demo_completed =
     snd (complete_batch quiet_port (demo_env CHR ''f'') demo_batch demo_started)"

lemma demo_completed_eq [code]:
  "demo_completed =
     \<lparr>co_team_id = ''team'', co_session_generation = ''gen'', co_run_causality = (),
      co_state = \<lparr>cs_slots = [(''s'', \<lparr>sl_role = RoleLead, sl_foreground = [],
      sl_control = [], sl_background = [], sl_active = None, sl_paused = False,
      sl_runtime_constraint = RcReady, sl_known_unread_message_ids = {''m''}, sl_removed =
      False\<rparr>)], cs_intents = [(''c'', \<lparr>wi_intent_id = ''c'',
      wi_session_generation = ''gen'', wi_slot_id = ''s'', wi_role = RoleLead, wi_source =
      UserMessage, wi_priority = Foreground, wi_mailbox_message_id = Some ''m'',
      wi_team_run_id = Some ''b'', wi_created_at_ms = 1000, wi_state = Completed\<rparr>)],
      cs_enqueue_leases = [], cs_next_operation_id = 1\<rparr>\<rparr>"
  by code_simp

definition demo_cancelled :: "unit slot_work_coordinator" where
  "demo_cancelled =
     snd (the (cancel_run quiet_port (demo_env CHR ''g'') ''b'' demo_started))"

lemma demo_cancelled_eq [code]:
  "demo_cancelled =
     \<lparr>co_team_id = ''team'', co_session_generation = ''gen'', co_run_causality = (),
      co_state = \<lparr>cs_slots = [(''s'', \<lparr>sl_role = RoleLead, sl_foreground = [],
      sl_control = [], sl_background = [], sl_active = None, sl_paused = False,
      sl_runtime_constraint = RcReady, sl_known_unread_message_ids = {''m''}, sl_removed =
      False\<rparr>)], cs_intents = [(''c'', \<lparr>wi_intent_id = ''c'',
      wi_session_generation = ''gen'', wi_slot_id = ''s'', wi_role = RoleLead, wi_source =
      UserMessage, wi_priority = Foreground, wi_mailbox_message_id = Some ''m'',
      wi_team_run_id = Some ''b'', wi_created_at_ms = 1000, wi_state = Cancelled
      ''run_cancelled''\<rparr>)], cs_enqueue_leases = [], cs_next_operation_id =
      1\<rparr>\<rparr>"
  by code_simp

text \<open>The same with the team-run manager behind the port, and a cancellation.\<close>

definition live_new :: "team_run_manager slot_work_coordinator" where
  "live_new = coordinator_new ''team'' ''gen'' (team_run_manager_new ''team'')"

definition live_ready :: "team_run_manager slot_work_coordinator" where
  "live_ready =
     snd (the (set_runtime_constraint team_run_port (demo_env CHR ''a'') ''s'' RcReady live_new))"

lemma live_ready_eq [code]:
  "live_ready =
     \<lparr>co_team_id = ''team'', co_session_generation = ''gen'', co_run_causality =
      \<lparr>tm_team_id = ''team'', tm_emitter = [SlotWorkChanged ''team''
      \<lparr>sp_slot_id = ''s'', sp_role = RoleTeammate, sp_state = WorkIdle,
      sp_queued_foreground_count = 0, sp_queued_background_count = 0, sp_active_turn_id =
      None, sp_active_turn_started_at_ms = None, sp_active_turn_elapsed_ms = None,
      sp_active_turn_slow = None, sp_active_turn_slow_threshold_ms = None, sp_blocked_reason
      = None, sp_team_run_id = None\<rparr>], tm_state = None\<rparr>, co_state =
      \<lparr>cs_slots = [(''s'', \<lparr>sl_role = RoleTeammate, sl_foreground = [],
      sl_control = [], sl_background = [], sl_active = None, sl_paused = False,
      sl_runtime_constraint = RcReady, sl_known_unread_message_ids = {}, sl_removed =
      False\<rparr>)], cs_intents = [], cs_enqueue_leases = [], cs_next_operation_id =
      0\<rparr>\<rparr>"
  by code_simp

definition live_leased :: "team_run_manager slot_work_coordinator" where
  "live_leased =
     snd (acquire_enqueue team_run_port (demo_env CHR ''b'') demo_request live_ready)"

lemma live_leased_eq [code]:
  "live_leased =
     \<lparr>co_team_id = ''team'', co_session_generation = ''gen'', co_run_causality =
      \<lparr>tm_team_id = ''team'', tm_emitter = [SlotWorkChanged ''team''
      \<lparr>sp_slot_id = ''s'', sp_role = RoleTeammate, sp_state = WorkIdle,
      sp_queued_foreground_count = 0, sp_queued_background_count = 0, sp_active_turn_id =
      None, sp_active_turn_started_at_ms = None, sp_active_turn_elapsed_ms = None,
      sp_active_turn_slow = None, sp_active_turn_slow_threshold_ms = None, sp_blocked_reason
      = None, sp_team_run_id = None\<rparr>], tm_state = Some \<lparr>tr_team_run_id =
      ''b'', tr_source = SourceUserMessage, tr_has_user_intervention = False,
      tr_target_slot_id = ''s'', tr_target_role = RoleLead, tr_status = RunAccepted,
      tr_started_at_ms = None, tr_completed_at_ms = None, tr_cancel_reason = None,
      tr_summary = None, tr_accepted_emitted = False\<rparr>\<rparr>, co_state =
      \<lparr>cs_slots = [(''s'', \<lparr>sl_role = RoleLead, sl_foreground = [], sl_control
      = [], sl_background = [], sl_active = None, sl_paused = False, sl_runtime_constraint =
      RcReady, sl_known_unread_message_ids = {}, sl_removed = False\<rparr>)], cs_intents =
      [], cs_enqueue_leases = [(''bi'', \<lparr>lr_lease = \<lparr>el_lease_id = ''bi'',
      el_session_generation = ''gen'', el_slot_id = ''s'', el_role = RoleLead, el_source =
      UserMessage, el_team_run_id = Some ''b''\<rparr>, lr_binding = \<lparr>rb_team_run_id
      = Some ''b'', rb_created_new_run = True, rb_user_intervention =
      False\<rparr>\<rparr>)], cs_next_operation_id = 0\<rparr>\<rparr>"
  by code_simp

definition live_queued :: "team_run_manager slot_work_coordinator" where
  "live_queued =
     snd (the (commit_enqueue team_run_port (demo_env CHR ''c'') demo_lease (Some ''m'') live_leased))"

lemma live_queued_eq [code]:
  "live_queued =
     \<lparr>co_team_id = ''team'', co_session_generation = ''gen'', co_run_causality =
      \<lparr>tm_team_id = ''team'', tm_emitter = [SlotWorkChanged ''team''
      \<lparr>sp_slot_id = ''s'', sp_role = RoleTeammate, sp_state = WorkIdle,
      sp_queued_foreground_count = 0, sp_queued_background_count = 0, sp_active_turn_id =
      None, sp_active_turn_started_at_ms = None, sp_active_turn_elapsed_ms = None,
      sp_active_turn_slow = None, sp_active_turn_slow_threshold_ms = None, sp_blocked_reason
      = None, sp_team_run_id = None\<rparr>, RunEvent TeamRunAcceptedEvent
      \<lparr>tp_team_id = ''team'', tp_team_run_id = ''b'', tp_source = SourceUserMessage,
      tp_has_user_intervention = False, tp_target_slot_id = ''s'', tp_target_role =
      RoleLead, tp_status = RunAccepted, tp_queued_intent_count = 1, tp_starting_batch_count
      = 0, tp_running_batch_count = 0, tp_active_enqueue_lease_count = 0, tp_slot_work =
      [\<lparr>sp_slot_id = ''s'', sp_role = RoleLead, sp_state = WorkQueued,
      sp_queued_foreground_count = 1, sp_queued_background_count = 0, sp_active_turn_id =
      None, sp_active_turn_started_at_ms = None, sp_active_turn_elapsed_ms = None,
      sp_active_turn_slow = None, sp_active_turn_slow_threshold_ms = None, sp_blocked_reason
      = None, sp_team_run_id = Some ''b''\<rparr>]\<rparr>, SlotWorkChanged ''team''
      \<lparr>sp_slot_id = ''s'', sp_role = RoleLead, sp_state = WorkQueued,
      sp_queued_foreground_count = 1, sp_queued_background_count = 0, sp_active_turn_id =
      None, sp_active_turn_started_at_ms = None, sp_active_turn_elapsed_ms = None,
      sp_active_turn_slow = None, sp_active_turn_slow_threshold_ms = None, sp_blocked_reason
      = None, sp_team_run_id = Some ''b''\<rparr>], tm_state = Some \<lparr>tr_team_run_id =
      ''b'', tr_source = SourceUserMessage, tr_has_user_intervention = False,
      tr_target_slot_id = ''s'', tr_target_role = RoleLead, tr_status = RunAccepted,
      tr_started_at_ms = None, tr_completed_at_ms = None, tr_cancel_reason = None,
      tr_summary = Some \<lparr>rs_team_run_id = ''b'', rs_queued_intent_count = 1,
      rs_starting_batch_count = 0, rs_running_batch_count = 0, rs_active_enqueue_lease_count
      = 0, rs_paused_intent_count = 0, rs_failed_intent_count = 0, rs_slots =
      [\<lparr>sn_slot_id = ''s'', sn_role = RoleLead, sn_state = PhQueued,
      sn_queued_foreground_count = 1, sn_queued_background_count = 0, sn_active_batch =
      None, sn_active_turn_id = None, sn_active_turn_started_at_ms = None,
      sn_runtime_constraint = RcReady, sn_team_run_id = Some ''b''\<rparr>]\<rparr>,
      tr_accepted_emitted = True\<rparr>\<rparr>, co_state = \<lparr>cs_slots = [(''s'',
      \<lparr>sl_role = RoleLead, sl_foreground = [''c''], sl_control = [], sl_background =
      [], sl_active = None, sl_paused = False, sl_runtime_constraint = RcReady,
      sl_known_unread_message_ids = {''m''}, sl_removed = False\<rparr>)], cs_intents =
      [(''c'', \<lparr>wi_intent_id = ''c'', wi_session_generation = ''gen'', wi_slot_id =
      ''s'', wi_role = RoleLead, wi_source = UserMessage, wi_priority = Foreground,
      wi_mailbox_message_id = Some ''m'', wi_team_run_id = Some ''b'', wi_created_at_ms =
      1000, wi_state = Queued\<rparr>)], cs_enqueue_leases = [], cs_next_operation_id =
      0\<rparr>\<rparr>"
  by code_simp

definition live_cancelling :: "team_run_manager slot_work_coordinator" where
  "live_cancelling =
     live_queued\<lparr>co_run_causality :=
       snd (begin_cancel (demo_env CHR ''d'') ''b'' None (co_run_causality live_queued))\<rparr>"

lemma live_cancelling_eq [code]:
  "live_cancelling =
     \<lparr>co_team_id = ''team'', co_session_generation = ''gen'', co_run_causality =
      \<lparr>tm_team_id = ''team'', tm_emitter = [SlotWorkChanged ''team''
      \<lparr>sp_slot_id = ''s'', sp_role = RoleTeammate, sp_state = WorkIdle,
      sp_queued_foreground_count = 0, sp_queued_background_count = 0, sp_active_turn_id =
      None, sp_active_turn_started_at_ms = None, sp_active_turn_elapsed_ms = None,
      sp_active_turn_slow = None, sp_active_turn_slow_threshold_ms = None, sp_blocked_reason
      = None, sp_team_run_id = None\<rparr>, RunEvent TeamRunAcceptedEvent
      \<lparr>tp_team_id = ''team'', tp_team_run_id = ''b'', tp_source = SourceUserMessage,
      tp_has_user_intervention = False, tp_target_slot_id = ''s'', tp_target_role =
      RoleLead, tp_status = RunAccepted, tp_queued_intent_count = 1, tp_starting_batch_count
      = 0, tp_running_batch_count = 0, tp_active_enqueue_lease_count = 0, tp_slot_work =
      [\<lparr>sp_slot_id = ''s'', sp_role = RoleLead, sp_state = WorkQueued,
      sp_queued_foreground_count = 1, sp_queued_background_count = 0, sp_active_turn_id =
      None, sp_active_turn_started_at_ms = None, sp_active_turn_elapsed_ms = None,
      sp_active_turn_slow = None, sp_active_turn_slow_threshold_ms = None, sp_blocked_reason
      = None, sp_team_run_id = Some ''b''\<rparr>]\<rparr>, SlotWorkChanged ''team''
      \<lparr>sp_slot_id = ''s'', sp_role = RoleLead, sp_state = WorkQueued,
      sp_queued_foreground_count = 1, sp_queued_background_count = 0, sp_active_turn_id =
      None, sp_active_turn_started_at_ms = None, sp_active_turn_elapsed_ms = None,
      sp_active_turn_slow = None, sp_active_turn_slow_threshold_ms = None, sp_blocked_reason
      = None, sp_team_run_id = Some ''b''\<rparr>, RunEvent TeamRunUpdatedEvent
      \<lparr>tp_team_id = ''team'', tp_team_run_id = ''b'', tp_source = SourceUserMessage,
      tp_has_user_intervention = False, tp_target_slot_id = ''s'', tp_target_role =
      RoleLead, tp_status = RunCancelling, tp_queued_intent_count = 1,
      tp_starting_batch_count = 0, tp_running_batch_count = 0, tp_active_enqueue_lease_count
      = 0, tp_slot_work = [\<lparr>sp_slot_id = ''s'', sp_role = RoleLead, sp_state =
      WorkQueued, sp_queued_foreground_count = 1, sp_queued_background_count = 0,
      sp_active_turn_id = None, sp_active_turn_started_at_ms = None,
      sp_active_turn_elapsed_ms = None, sp_active_turn_slow = None,
      sp_active_turn_slow_threshold_ms = None, sp_blocked_reason = None, sp_team_run_id =
      Some ''b''\<rparr>]\<rparr>], tm_state = Some \<lparr>tr_team_run_id = ''b'',
      tr_source = SourceUserMessage, tr_has_user_intervention = False, tr_target_slot_id =
      ''s'', tr_target_role = RoleLead, tr_status = RunCancelling, tr_started_at_ms = None,
      tr_completed_at_ms = None, tr_cancel_reason = None, tr_summary = Some
      \<lparr>rs_team_run_id = ''b'', rs_queued_intent_count = 1, rs_starting_batch_count =
      0, rs_running_batch_count = 0, rs_active_enqueue_lease_count = 0,
      rs_paused_intent_count = 0, rs_failed_intent_count = 0, rs_slots = [\<lparr>sn_slot_id
      = ''s'', sn_role = RoleLead, sn_state = PhQueued, sn_queued_foreground_count = 1,
      sn_queued_background_count = 0, sn_active_batch = None, sn_active_turn_id = None,
      sn_active_turn_started_at_ms = None, sn_runtime_constraint = RcReady, sn_team_run_id =
      Some ''b''\<rparr>]\<rparr>, tr_accepted_emitted = True\<rparr>\<rparr>, co_state =
      \<lparr>cs_slots = [(''s'', \<lparr>sl_role = RoleLead, sl_foreground = [''c''],
      sl_control = [], sl_background = [], sl_active = None, sl_paused = False,
      sl_runtime_constraint = RcReady, sl_known_unread_message_ids = {''m''}, sl_removed =
      False\<rparr>)], cs_intents = [(''c'', \<lparr>wi_intent_id = ''c'',
      wi_session_generation = ''gen'', wi_slot_id = ''s'', wi_role = RoleLead, wi_source =
      UserMessage, wi_priority = Foreground, wi_mailbox_message_id = Some ''m'',
      wi_team_run_id = Some ''b'', wi_created_at_ms = 1000, wi_state = Queued\<rparr>)],
      cs_enqueue_leases = [], cs_next_operation_id = 0\<rparr>\<rparr>"
  by code_simp

definition live_cancelled :: "team_run_manager slot_work_coordinator" where
  "live_cancelled =
     snd (the (cancel_run team_run_port (demo_env CHR ''e'') ''b'' live_cancelling))"

lemma live_cancelled_eq [code]:
  "live_cancelled =
     \<lparr>co_team_id = ''team'', co_session_generation = ''gen'', co_run_causality =
      \<lparr>tm_team_id = ''team'', tm_emitter = [SlotWorkChanged ''team''
      \<lparr>sp_slot_id = ''s'', sp_role = RoleTeammate, sp_state = WorkIdle,
      sp_queued_foreground_count = 0, sp_queued_background_count = 0, sp_active_turn_id =
      None, sp_active_turn_started_at_ms = None, sp_active_turn_elapsed_ms = None,
      sp_active_turn_slow = None, sp_active_turn_slow_threshold_ms = None, sp_blocked_reason
      = None, sp_team_run_id = None\<rparr>, RunEvent TeamRunAcceptedEvent
      \<lparr>tp_team_id = ''team'', tp_team_run_id = ''b'', tp_source = SourceUserMessage,
      tp_has_user_intervention = False, tp_target_slot_id = ''s'', tp_target_role =
      RoleLead, tp_status = RunAccepted, tp_queued_intent_count = 1, tp_starting_batch_count
      = 0, tp_running_batch_count = 0, tp_active_enqueue_lease_count = 0, tp_slot_work =
      [\<lparr>sp_slot_id = ''s'', sp_role = RoleLead, sp_state = WorkQueued,
      sp_queued_foreground_count = 1, sp_queued_background_count = 0, sp_active_turn_id =
      None, sp_active_turn_started_at_ms = None, sp_active_turn_elapsed_ms = None,
      sp_active_turn_slow = None, sp_active_turn_slow_threshold_ms = None, sp_blocked_reason
      = None, sp_team_run_id = Some ''b''\<rparr>]\<rparr>, SlotWorkChanged ''team''
      \<lparr>sp_slot_id = ''s'', sp_role = RoleLead, sp_state = WorkQueued,
      sp_queued_foreground_count = 1, sp_queued_background_count = 0, sp_active_turn_id =
      None, sp_active_turn_started_at_ms = None, sp_active_turn_elapsed_ms = None,
      sp_active_turn_slow = None, sp_active_turn_slow_threshold_ms = None, sp_blocked_reason
      = None, sp_team_run_id = Some ''b''\<rparr>, RunEvent TeamRunUpdatedEvent
      \<lparr>tp_team_id = ''team'', tp_team_run_id = ''b'', tp_source = SourceUserMessage,
      tp_has_user_intervention = False, tp_target_slot_id = ''s'', tp_target_role =
      RoleLead, tp_status = RunCancelling, tp_queued_intent_count = 1,
      tp_starting_batch_count = 0, tp_running_batch_count = 0, tp_active_enqueue_lease_count
      = 0, tp_slot_work = [\<lparr>sp_slot_id = ''s'', sp_role = RoleLead, sp_state =
      WorkQueued, sp_queued_foreground_count = 1, sp_queued_background_count = 0,
      sp_active_turn_id = None, sp_active_turn_started_at_ms = None,
      sp_active_turn_elapsed_ms = None, sp_active_turn_slow = None,
      sp_active_turn_slow_threshold_ms = None, sp_blocked_reason = None, sp_team_run_id =
      Some ''b''\<rparr>]\<rparr>, RunEvent TeamRunCancelledEvent \<lparr>tp_team_id =
      ''team'', tp_team_run_id = ''b'', tp_source = SourceUserMessage,
      tp_has_user_intervention = False, tp_target_slot_id = ''s'', tp_target_role =
      RoleLead, tp_status = RunCancelled, tp_queued_intent_count = 0,
      tp_starting_batch_count = 0, tp_running_batch_count = 0, tp_active_enqueue_lease_count
      = 0, tp_slot_work = [\<lparr>sp_slot_id = ''s'', sp_role = RoleLead, sp_state =
      WorkIdle, sp_queued_foreground_count = 0, sp_queued_background_count = 0,
      sp_active_turn_id = None, sp_active_turn_started_at_ms = None,
      sp_active_turn_elapsed_ms = None, sp_active_turn_slow = None,
      sp_active_turn_slow_threshold_ms = None, sp_blocked_reason = None, sp_team_run_id =
      None\<rparr>]\<rparr>], tm_state = Some \<lparr>tr_team_run_id = ''b'', tr_source =
      SourceUserMessage, tr_has_user_intervention = False, tr_target_slot_id = ''s'',
      tr_target_role = RoleLead, tr_status = RunCancelled, tr_started_at_ms = None,
      tr_completed_at_ms = Some 1000, tr_cancel_reason = None, tr_summary = Some
      \<lparr>rs_team_run_id = ''b'', rs_queued_intent_count = 0, rs_starting_batch_count =
      0, rs_running_batch_count = 0, rs_active_enqueue_lease_count = 0,
      rs_paused_intent_count = 0, rs_failed_intent_count = 0, rs_slots = [\<lparr>sn_slot_id
      = ''s'', sn_role = RoleLead, sn_state = PhIdle, sn_queued_foreground_count = 0,
      sn_queued_background_count = 0, sn_active_batch = None, sn_active_turn_id = None,
      sn_active_turn_started_at_ms = None, sn_runtime_constraint = RcReady, sn_team_run_id =
      None\<rparr>]\<rparr>, tr_accepted_emitted = True\<rparr>\<rparr>, co_state =
      \<lparr>cs_slots = [(''s'', \<lparr>sl_role = RoleLead, sl_foreground = [], sl_control
      = [], sl_background = [], sl_active = None, sl_paused = False, sl_runtime_constraint =
      RcReady, sl_known_unread_message_ids = {''m''}, sl_removed = False\<rparr>)],
      cs_intents = [(''c'', \<lparr>wi_intent_id = ''c'', wi_session_generation = ''gen'',
      wi_slot_id = ''s'', wi_role = RoleLead, wi_source = UserMessage, wi_priority =
      Foreground, wi_mailbox_message_id = Some ''m'', wi_team_run_id = Some ''b'',
      wi_created_at_ms = 1000, wi_state = Cancelled ''run_cancelled''\<rparr>)],
      cs_enqueue_leases = [], cs_next_operation_id = 0\<rparr>\<rparr>"
  by code_simp

section \<open>The execution is one of the state machine\<close>

abbreviation demo_world :: "unit slot_work_coordinator \<Rightarrow> work_batch set \<Rightarrow> unit work_world" where
  "demo_world c B \<equiv> \<lparr>ww_coordinator = c, ww_issued = B\<rparr>"

abbreviation demo_reachable :: "unit slot_work_coordinator \<Rightarrow> work_batch set \<Rightarrow> bool" where
  "demo_reachable c B \<equiv> work_reachable quiet_port ''team'' ''gen'' () (demo_world c B)"

lemma inj_demo_env: "inj (env_id (demo_env c))"
  by (rule injI) (auto simp: demo_env_def replicate_eq_replicate dest: arg_cong [where f = length])

lemma demo_fresh:
  assumes "\<forall>k \<in> set (hm_keys (cs_intents (co_state c))) \<union> set (hm_keys (cs_enqueue_leases (co_state c)))
      \<union> wb_batch_id ` B. hd k \<noteq> x"
  shows "fresh_env (demo_env x) (demo_world c B)"
proof -
  have hd: "hd (env_id (demo_env x) j) = x" for j by (simp add: demo_env_def)
  have no: "env_id (demo_env x) j \<notin> set (hm_keys (cs_intents (co_state c)))"
    "env_id (demo_env x) j \<notin> set (hm_keys (cs_enqueue_leases (co_state c)))"
    "env_id (demo_env x) j \<notin> wb_batch_id ` B" for j
    using assms hd [of j] by (auto simp del: set_map)
  then show ?thesis
    using inj_demo_env by (auto simp: fresh_env_def map_of_eq_None_iff)
qed

lemma demo_step:
  assumes "demo_reachable c B" "work_step quiet_port (demo_world c B) w" "w = demo_world c' B'"
  shows "demo_reachable c' B'"
  using assms unfolding work_reachable_def by (simp add: rtranclp.rtrancl_into_rtrancl)

lemma demo_reach_new: "demo_reachable demo_new {}"
  by (simp add: work_reachable_def world_new_def demo_new_def)

lemma demo_reach_ready: "demo_reachable demo_ready {}"
proof (rule demo_step [OF demo_reach_new])
  have "set_runtime_constraint quiet_port (demo_env CHR ''a'') ''s'' RcReady demo_new \<noteq> None" by code_simp
  then show "work_step quiet_port (demo_world demo_new {}) (demo_world demo_new {}\<lparr>ww_coordinator := demo_ready\<rparr>)"
    by (intro step_constraint [of quiet_port "demo_env CHR ''a''" "''s''" RcReady _
        "fst (the (set_runtime_constraint quiet_port (demo_env CHR ''a'') ''s'' RcReady demo_new))"])
      (auto simp: demo_ready_def)
qed simp

lemma demo_acquire:
  "acquire_enqueue quiet_port (demo_env CHR ''b'') demo_request demo_ready = (Inr demo_lease, demo_leased)"
proof -
  have "fst (acquire_enqueue quiet_port (demo_env CHR ''b'') demo_request demo_ready) = Inr demo_lease"
    by code_simp
  then show ?thesis by (simp add: demo_leased_def prod_eq_iff)
qed

lemma demo_reach_leased: "demo_reachable demo_leased {}"
proof (rule demo_step [OF demo_reach_ready])
  have "fresh_env (demo_env CHR ''b'') (demo_world demo_ready {})"
    by (rule demo_fresh) (simp add: demo_ready_eq)
  then show "work_step quiet_port (demo_world demo_ready {}) (demo_world demo_ready {}\<lparr>ww_coordinator := demo_leased\<rparr>)"
    by (rule step_acquire) (simp, rule demo_acquire)
qed simp

lemma demo_commit:
  "commit_enqueue quiet_port (demo_env CHR ''c'') demo_lease (Some ''m'') demo_leased =
     Some (fst (the (commit_enqueue quiet_port (demo_env CHR ''c'') demo_lease (Some ''m'') demo_leased)), demo_queued)"
proof -
  have "commit_enqueue quiet_port (demo_env CHR ''c'') demo_lease (Some ''m'') demo_leased \<noteq> None"
    by code_simp
  then show ?thesis by (auto simp: demo_queued_def)
qed

lemma demo_reach_queued: "demo_reachable demo_queued {}"
proof (rule demo_step [OF demo_reach_leased])
  have "fresh_env (demo_env CHR ''c'') (demo_world demo_leased {})"
    by (rule demo_fresh) (simp add: demo_leased_eq)
  then show "work_step quiet_port (demo_world demo_leased {}) (demo_world demo_leased {}\<lparr>ww_coordinator := demo_queued\<rparr>)"
    by (rule step_commit) (simp, rule demo_commit)
qed simp

lemma demo_claim:
  "coordinator_next quiet_port (demo_env CHR ''d'') ''s'' demo_queued = (Claim demo_batch, demo_claimed)"
proof -
  have "fst (coordinator_next quiet_port (demo_env CHR ''d'') ''s'' demo_queued) = Claim demo_batch"
    by code_simp
  then show ?thesis by (simp add: demo_claimed_def prod_eq_iff)
qed

lemma demo_reach_claimed: "demo_reachable demo_claimed {demo_batch}"
proof (rule demo_step [OF demo_reach_queued])
  have "fresh_env (demo_env CHR ''d'') (demo_world demo_queued {})"
    by (rule demo_fresh) (simp add: demo_queued_eq)
  then show "work_step quiet_port (demo_world demo_queued {})
      (demo_world demo_queued {}\<lparr>ww_coordinator := demo_claimed, ww_issued := insert demo_batch {}\<rparr>)"
    using step_claim [of _ "demo_world demo_queued {}"] demo_claim by simp
qed simp

lemma demo_reach_started: "demo_reachable demo_started {demo_batch}"
proof (rule demo_step [OF demo_reach_claimed])
  show "work_step quiet_port (demo_world demo_claimed {demo_batch})
      (demo_world demo_claimed {demo_batch}\<lparr>ww_coordinator := demo_started\<rparr>)"
    by (rule step_started [where b = demo_batch and turn = "''t''" and e = "demo_env CHR ''e''"
          and sr = "fst (mark_started quiet_port (demo_env CHR ''e'') demo_batch ''t'' demo_claimed)"])
      (simp_all add: demo_started_def prod_eq_iff)
qed simp

lemma demo_complete:
  "complete_batch quiet_port (demo_env CHR ''f'') demo_batch demo_started = (Committed, demo_completed)"
proof -
  have "fst (complete_batch quiet_port (demo_env CHR ''f'') demo_batch demo_started) = Committed"
    by code_simp
  then show ?thesis by (simp add: demo_completed_def prod_eq_iff)
qed

lemma demo_reach_completed: "demo_reachable demo_completed {demo_batch}"
proof (rule demo_step [OF demo_reach_started])
  show "work_step quiet_port (demo_world demo_started {demo_batch})
      (demo_world demo_started {demo_batch}\<lparr>ww_coordinator := demo_completed\<rparr>)"
    by (rule step_end [where b = demo_batch and t = Completed and e = "demo_env CHR ''f''" and cr = Committed])
      (use demo_complete in \<open>simp_all add: complete_batch_def\<close>)
qed simp

section \<open>The execution with the team-run manager\<close>

abbreviation live_reachable :: "team_run_manager slot_work_coordinator \<Rightarrow> bool" where
  "live_reachable c \<equiv> work_reachable team_run_port ''team'' ''gen'' (team_run_manager_new ''team'')
     \<lparr>ww_coordinator = c, ww_issued = {}\<rparr>"

lemma live_step:
  assumes "live_reachable c" "work_step team_run_port \<lparr>ww_coordinator = c, ww_issued = {}\<rparr> w"
    "w = \<lparr>ww_coordinator = c', ww_issued = {}\<rparr>"
  shows "live_reachable c'"
  using assms unfolding work_reachable_def by (simp add: rtranclp.rtrancl_into_rtrancl)

lemma live_fresh:
  assumes "\<forall>k \<in> set (hm_keys (cs_intents (co_state c))) \<union> set (hm_keys (cs_enqueue_leases (co_state c))).
      hd k \<noteq> x"
  shows "fresh_env (demo_env x) \<lparr>ww_coordinator = (c :: team_run_manager slot_work_coordinator), ww_issued = {}\<rparr>"
proof -
  have hd: "hd (env_id (demo_env x) j) = x" for j by (simp add: demo_env_def)
  have no: "env_id (demo_env x) j \<notin> set (hm_keys (cs_intents (co_state c)))"
    "env_id (demo_env x) j \<notin> set (hm_keys (cs_enqueue_leases (co_state c)))" for j
    using assms hd [of j] by (auto simp del: set_map)
  then show ?thesis
    using inj_demo_env by (auto simp: fresh_env_def map_of_eq_None_iff)
qed

lemma live_reach_new: "live_reachable live_new"
  by (simp add: work_reachable_def world_new_def live_new_def)

lemma live_reach_ready: "live_reachable live_ready"
proof (rule live_step [OF live_reach_new])
  have "set_runtime_constraint team_run_port (demo_env CHR ''a'') ''s'' RcReady live_new \<noteq> None" by code_simp
  then obtain r where "set_runtime_constraint team_run_port (demo_env CHR ''a'') ''s'' RcReady live_new = Some (r, live_ready)"
    by (auto simp: live_ready_def)
  then show "work_step team_run_port \<lparr>ww_coordinator = live_new, ww_issued = {}\<rparr>
      (\<lparr>ww_coordinator = live_new, ww_issued = {}\<rparr>\<lparr>ww_coordinator := live_ready\<rparr>)"
    by (intro step_constraint) simp
qed simp

lemma live_acquire:
  "acquire_enqueue team_run_port (demo_env CHR ''b'') demo_request live_ready = (Inr demo_lease, live_leased)"
proof -
  have "fst (acquire_enqueue team_run_port (demo_env CHR ''b'') demo_request live_ready) = Inr demo_lease"
    by code_simp
  then show ?thesis by (simp add: live_leased_def prod_eq_iff)
qed

lemma live_reach_leased: "live_reachable live_leased"
proof (rule live_step [OF live_reach_ready])
  have "fresh_env (demo_env CHR ''b'') \<lparr>ww_coordinator = live_ready, ww_issued = {}\<rparr>"
    by (rule live_fresh) (simp add: live_ready_eq)
  then show "work_step team_run_port \<lparr>ww_coordinator = live_ready, ww_issued = {}\<rparr>
      (\<lparr>ww_coordinator = live_ready, ww_issued = {}\<rparr>\<lparr>ww_coordinator := live_leased\<rparr>)"
    by (rule step_acquire) (simp, rule live_acquire)
qed simp

lemma live_commit:
  obtains cm where
    "commit_enqueue team_run_port (demo_env CHR ''c'') demo_lease (Some ''m'') live_leased = Some (Inr cm, live_queued)"
proof -
  have "map_option (\<lambda>(r, c). isl r)
      (commit_enqueue team_run_port (demo_env CHR ''c'') demo_lease (Some ''m'') live_leased) = Some False"
    by code_simp
  then obtain r c where eq: "commit_enqueue team_run_port (demo_env CHR ''c'') demo_lease (Some ''m'') live_leased =
      Some (r, c)" "\<not> isl r" by auto
  then show ?thesis using that [of "projr r"] by (simp add: live_queued_def)
qed

lemma live_reach_queued: "live_reachable live_queued"
proof (rule live_step [OF live_reach_leased])
  have fresh: "fresh_env (demo_env CHR ''c'') \<lparr>ww_coordinator = live_leased, ww_issued = {}\<rparr>"
    by (rule live_fresh) (simp add: live_leased_eq)
  show "work_step team_run_port \<lparr>ww_coordinator = live_leased, ww_issued = {}\<rparr>
      (\<lparr>ww_coordinator = live_leased, ww_issued = {}\<rparr>\<lparr>ww_coordinator := live_queued\<rparr>)"
    by (rule live_commit, rule step_commit [OF fresh]) simp
qed simp

lemma live_reach_cancelling: "live_reachable live_cancelling"
proof (rule live_step [OF live_reach_queued])
  show "work_step team_run_port \<lparr>ww_coordinator = live_queued, ww_issued = {}\<rparr>
      (\<lparr>ww_coordinator = live_queued, ww_issued = {}\<rparr>\<lparr>ww_coordinator := live_cancelling\<rparr>)"
    using step_port [of team_run_port "\<lparr>ww_coordinator = live_queued, ww_issued = {}\<rparr>"
        "snd (begin_cancel (demo_env CHR ''d'') ''b'' None (co_run_causality live_queued))"]
    by (simp add: live_cancelling_def)
qed simp

lemma live_cancel:
  obtains r where "cancel_run team_run_port (demo_env CHR ''e'') ''b'' live_cancelling = Some (r, live_cancelled)"
proof -
  have "cancel_run team_run_port (demo_env CHR ''e'') ''b'' live_cancelling \<noteq> None" by code_simp
  then show ?thesis using that by (auto simp: live_cancelled_def)
qed

lemma live_reach_cancelled: "live_reachable live_cancelled"
proof (rule live_step [OF live_reach_cancelling])
  show "work_step team_run_port \<lparr>ww_coordinator = live_cancelling, ww_issued = {}\<rparr>
      (\<lparr>ww_coordinator = live_cancelling, ww_issued = {}\<rparr>\<lparr>ww_coordinator := live_cancelled\<rparr>)"
    by (rule live_cancel, rule step_cancel_run) simp
qed simp

end
