(* ===== verification/Team_Properties.thy ===== *)
theory Team_Properties
  imports Team_Demo
begin

text \<open>
  The properties of the work coordinator and of the team-run manager, each with a witness that
  applies it to the execution of Team_Demo where it has hypotheses.
\<close>

section \<open>The work coordinator\<close>

lemma reachable_coord_inv:
  assumes "work_reachable P team g port w"
  shows "coord_inv (world_generation w) (world_state w)"
  using work_reachable_inv [OF assms] by (simp add: world_inv_def)

text \<open>
  C1. In every state the coordinator can reach, the active batches and the lanes of all slots
  together hold every live intent exactly once, and nothing else: accepted work is neither lost
  nor owned twice.
\<close>

theorem live_work_owned_once:
  assumes "work_reachable P team g port w"
  shows "distinct (owned_ids (world_state w)) \<and>
    set (owned_ids (world_state w)) =
      {k. \<exists>i. intent_of (world_state w) k = Some i \<and> \<not> is_terminal (wi_state i)}"
  using owned_ids_inv [OF reachable_coord_inv [OF assms]] by blast

theorem live_work_owned_once_witness:
  "owned_ids (co_state demo_started) = [''c''] \<and>
   {k. \<exists>i. intent_of (co_state demo_started) k = Some i \<and> \<not> is_terminal (wi_state i)} = {''c''}"
proof -
  have "owned_ids (co_state demo_started) = [''c'']" by code_simp
  then show ?thesis using live_work_owned_once [OF demo_reach_started] by simp
qed

text \<open>
  C28. None of the panics the code contains can be reached: committing an enqueue, cancelling a
  run, constraining a slot and removing a slot return in every reachable state, whatever their
  arguments.
\<close>

theorem no_operation_panics:
  assumes "work_reachable P team g port w"
  shows "commit_enqueue P e lease m (ww_coordinator w) \<noteq> None \<and>
    cancel_run P e run (ww_coordinator w) \<noteq> None \<and>
    set_runtime_constraint P e s con (ww_coordinator w) \<noteq> None \<and>
    remove_slot P e s (ww_coordinator w) \<noteq> None"
proof (intro conjI)
  note inv = reachable_coord_inv [OF assms]
  have disposition: "\<exists>d. commit_disposition sl = Some d" if "validate_enqueue_constraint x sl = Inr u" for x sl u
    using that by (auto simp: commit_disposition_def validate_enqueue_constraint_def
        split: if_splits runtime_constraint.splits)
  have "commit_enqueue_locked (world_generation w) e lease m (world_state w) \<noteq> None"
    by (auto simp: commit_enqueue_locked_def Let_def split: option.splits sum.splits dest: disposition)
  then show "commit_enqueue P e lease m (ww_coordinator w) \<noteq> None"
    by (auto simp: commit_enqueue_def split: option.splits sum.splits)
  show "cancel_run P e run (ww_coordinator w) \<noteq> None"
    by (rule cancel_run_locked_spec [OF inv, of run]) (simp add: cancel_run_def)
  show "set_runtime_constraint P e s con (ww_coordinator w) \<noteq> None"
    by (rule set_runtime_constraint_locked_spec [OF inv, of s con])
      (auto simp: set_runtime_constraint_def slot_snapshot_locked_def Let_def)
  show "remove_slot P e s (ww_coordinator w) \<noteq> None"
    by (rule remove_slot_locked_spec [OF inv, of s]) (simp add: remove_slot_def)
qed

theorem no_operation_panics_witness:
  "cancel_run quiet_port (demo_env CHR ''g'') ''b'' demo_started \<noteq> None \<and>
   remove_slot quiet_port (demo_env CHR ''g'') ''s'' demo_started \<noteq> None"
  using no_operation_panics [OF demo_reach_started, of "demo_env CHR ''g''" demo_lease None "''b''" "''s''" RcReady]
  by simp

text \<open>
  C11. A claim is handed out only by an idle, ready, unpaused slot. It takes the highest lane
  that holds anything, and there the first intents with a mailbox message in queue order: a
  command alone, or all messages up to the first command. The batch is active afterwards, and
  its intents are starting under its identifier and operation.
\<close>

theorem claim_takes_first_work_in_order:
  assumes "work_reachable P team g port w"
    and "coordinator_next P e s (ww_coordinator w) = (Claim b, c)"
  shows "claim_spec (world_state w) s b \<and> active_batch_at (co_state c) s = Some b \<and>
    wb_slot_id b = s \<and>
    (\<forall>k \<in> set (wb_intent_ids b). \<exists>i. intent_of (co_state c) k = Some i \<and>
       wi_state i = Starting (wb_batch_id b) (wb_operation_id b))"
proof -
  obtain st where locked: "next_locked (world_generation w) e s (world_state w) = (Claim b, st)"
    and c: "co_state c = st"
    using assms(2) by (auto simp: coordinator_next_def split: prod.splits reconcile_decision.splits)
  note spec = next_locked_claim_spec [OF locked]
  have st: "st = claim_batch b (world_state w)"
    using locked by (rule next_locked_Claim)
  have fields: "wb_slot_id b = s"
    using locked by (rule next_locked_Claim) (metis claimed_batch_fields(1))
  obtain sl rest where sl: "slot_of (world_state w) s = Some sl"
    and fifo: "filter (has_message (world_state w)) (slot_queue (wb_highest_priority b) sl) = wb_intent_ids b @ rest"
    using spec by (auto simp: claim_spec_def)
  have "\<exists>i. intent_of (world_state w) k = Some i" if "k \<in> set (wb_intent_ids b)" for k
  proof -
    have "k \<in> set (filter (has_message (world_state w)) (slot_queue (wb_highest_priority b) sl))"
      using that by (simp add: fifo)
    then show ?thesis by (auto simp: has_message_def split: option.splits)
  qed
  then have "\<exists>i. intent_of st k = Some i \<and> wi_state i = Starting (wb_batch_id b) (wb_operation_id b)"
    if "k \<in> set (wb_intent_ids b)" for k
    using that by (fastforce simp: st claim_batch_def)
  moreover have "active_batch_at st s = Some b"
    using sl by (simp add: st claim_batch_def active_batch_at_modify fields)
  ultimately show ?thesis using spec fields c by simp
qed

theorem claim_takes_first_work_in_order_witness:
  "claim_spec (co_state demo_queued) ''s'' demo_batch \<and>
   active_batch_at (co_state demo_claimed) ''s'' = Some demo_batch"
  using claim_takes_first_work_in_order [OF demo_reach_queued, of "demo_env CHR ''d''" "''s''"] demo_claim
  by simp

text \<open>
  C16. A batch ends at most once. Once its end has been committed, every later attempt to start,
  retry, complete, fail or cancel it, after any number of further operations, is answered as
  stale (or, for a start, as cancelled) and changes nothing.
\<close>

theorem batch_ends_once:
  assumes reach: "work_reachable P team g port w" and b: "b \<in> ww_issued w"
    and ended: "terminalize_batch P e b t (ww_coordinator w) = (Committed, c)" and t: "is_terminal t"
    and later: "(work_step P)\<^sup>*\<^sup>* (w\<lparr>ww_coordinator := c\<rparr>) w'"
  shows "terminalize_batch P e' b t' (ww_coordinator w') = (StaleOwner, ww_coordinator w') \<and>
    retry_start P e' b (ww_coordinator w') = (StaleOwner, ww_coordinator w') \<and>
    snd (mark_started P e' b turn (ww_coordinator w')) = ww_coordinator w' \<and>
    fst (mark_started P e' b turn (ww_coordinator w')) \<noteq> StartAccepted"
proof -
  let ?w1 = "w\<lparr>ww_coordinator := c\<rparr>"
  have inv: "world_inv w" by (rule work_reachable_inv [OF reach])
  have step: "work_step P w ?w1" by (rule step_end [OF b t ended])
  have inv1: "world_inv ?w1" using work_steps_inv [OF r_into_rtranclp [of "work_step P", OF step] inv] .
  have cur: "is_current_batch (world_generation w) (world_state w) b"
    using ended by (auto simp: terminalize_batch_def publish_batch_def terminalize_batch_locked_def split: if_splits)
  have c: "active_batch_at (co_state c) (wb_slot_id b) = None"
    "\<And>s. s \<noteq> wb_slot_id b \<Longrightarrow> active_batch_at (co_state c) s = active_batch_at (world_state w) s"
    using ended cur by (auto simp: terminalize_batch_def publish_batch_def terminalize_batch_locked_def
        active_batch_at_modify split: bind_split)
  have slot: "wb_slot_id x = s" if "active_batch_at (world_state w) s = Some x" for s x
  proof -
    obtain sl a where "slot_of (world_state w) s = Some sl" "sl_active sl = Some a" "ab_batch a = x"
      using \<open>active_batch_at (world_state w) s = Some x\<close> by (rule active_batch_atD)
    then show ?thesis
      using batch_invD(1) [OF slot_inv_batch [OF coord_inv_slot [OF reachable_coord_inv [OF reach]]]]
      by blast
  qed
  have "active_batch_at (co_state c) s \<noteq> Some b" for s
    using c slot [of s b] by (cases "s = wb_slot_id b") auto
  then have gone: "active_batch_at (world_state w') s \<noteq> Some b" for s
    using not_active_persists [OF later inv1, of b] b by simp
  have b': "b \<in> ww_issued w'" using work_steps_evolve [OF later inv1] b by auto
  have inv': "world_inv w'" by (rule work_steps_inv [OF later inv1])
  have no: "\<not> is_current_batch gen (world_state w') b" for gen
    using gone current_active_batch world_inv_genuine [OF inv' b'] by blast
  show ?thesis
    using no by (auto simp: terminalize_batch_def retry_start_def publish_batch_def mark_started_def
        terminalize_batch_locked_def retry_start_locked_def mark_started_locked_def)
qed

theorem batch_ends_once_witness:
  "terminalize_batch quiet_port (demo_env CHR ''g'') demo_batch (Failed ''late'') demo_completed =
     (StaleOwner, demo_completed)"
  using batch_ends_once [OF demo_reach_started, of demo_batch "demo_env CHR ''f''" Completed demo_completed
      "demo_world demo_completed {demo_batch}" "demo_env CHR ''g''" "Failed ''late''"] demo_complete
  by (simp add: complete_batch_def)

text \<open>
  Whatever operations follow, an intent keeps every field but its state, it never
  disappears, and once it has completed, failed or been cancelled it stays exactly as it is.
\<close>

theorem ended_work_is_final:
  assumes "work_reachable P team g port w" and "(work_step P)\<^sup>*\<^sup>* w w'"
    and "intent_of (world_state w) k = Some i"
  shows "\<exists>s. intent_of (world_state w') k = Some (i\<lparr>wi_state := s\<rparr>) \<and>
    (is_terminal (wi_state i) \<longrightarrow> intent_of (world_state w') k = Some i)"
proof -
  obtain s where "intent_of (world_state w') k = Some (i\<lparr>wi_state := s\<rparr>)"
    "is_terminal (wi_state i) \<longrightarrow> s = wi_state i"
    using work_steps_evolve [OF assms(2) work_reachable_inv [OF assms(1)]] assms(3)
    unfolding evolves_def by blast
  then show ?thesis by auto
qed

theorem ended_work_is_final_witness:
  "\<exists>s. intent_of (co_state demo_completed) ''c'' =
     Some ((the (intent_of (co_state demo_started) ''c''))\<lparr>wi_state := s\<rparr>)"
proof -
  have steps: "(work_step quiet_port)\<^sup>*\<^sup>* (demo_world demo_started {demo_batch})
      (demo_world demo_completed {demo_batch})"
    using step_end [of demo_batch "demo_world demo_started {demo_batch}" Completed quiet_port]
      demo_complete by (auto simp: complete_batch_def intro!: r_into_rtranclp)
  have "intent_of (co_state demo_started) ''c'' \<noteq> None" by code_simp
  then obtain i where "intent_of (co_state demo_started) ''c'' = Some i" by blast
  then show ?thesis
    using ended_work_is_final [OF demo_reach_started steps, of "''c''" i] by auto
qed

lemma cancel_run_no_work:
  assumes "coord_inv (co_session_generation c) (co_state c)" and "cancel_run P e run c = Some (r, c')"
  shows "no_work (cr_summary r)" "rs_team_run_id (cr_summary r) = run"
    "co_run_causality c' = port_apply_work_summary P e (cr_summary r) (co_run_causality c)"
proof -
  note inv = assms(1)
  show "no_work (cr_summary r)"
  proof (rule cancel_run_locked_spec [OF inv, of run])
    fix r1 st
    assume one: "cancel_run_locked run (co_state c) = Some (r1, st)"
      and inv1: "coord_inv (co_session_generation c) st"
      and ins: "\<And>k. intent_of st k = map_option (cancel_effect (co_state c) run) (intent_of (co_state c) k)"
      and none: "run_leases st run = []" and sm: "cr_summary r1 = run_summary_locked st run"
    have r: "r = r1" using assms(2) one by (auto simp: cancel_run_def)
    have "is_terminal (wi_state i)" if "intent_of st k = Some i" "wi_team_run_id i = Some run" for k i
      using that cancel_effect_ends [OF inv, of k] by (auto simp: ins)
    then show ?thesis unfolding r sm no_work_intent_of [OF inv1] using none by blast
  qed
  show "rs_team_run_id (cr_summary r) = run"
    using assms(2) by (auto simp: cancel_run_def cancel_run_locked_def Let_def split: option.splits prod.splits)
  show "co_run_causality c' = port_apply_work_summary P e (cr_summary r) (co_run_causality c)"
    using assms(2) by (auto simp: cancel_run_def release_and_publish_def publish_run_summaries_def
        publish_slot_work_snapshot_def split: option.splits)
qed

text \<open>
  C14. Cancelling a run cancels all its live intents, drops its enqueue leases and withdraws
  every active batch that holds one of its intents. Live intents of other runs that were in
  such a batch are queued again; everything else keeps its state. The summary it reports and
  publishes says that the run has no work.
\<close>

theorem cancel_run_leaves_no_work:
  assumes "work_reachable P team g port w"
    and "cancel_run P e run (ww_coordinator w) = Some (r, c)"
  shows "no_work (cr_summary r) \<and>
    (\<forall>k. intent_of (co_state c) k =
       map_option (\<lambda>i. if wi_team_run_id i = Some run \<and> \<not> is_terminal (wi_state i)
           then i\<lparr>wi_state := Cancelled ''run_cancelled''\<rparr>
         else if shares_batch (world_state w) run k then i\<lparr>wi_state := Queued\<rparr> else i)
         (intent_of (world_state w) k)) \<and>
    (\<forall>k l. lease_of (co_state c) k = Some l \<longrightarrow> el_team_run_id (lr_lease l) \<noteq> Some run)"
proof (rule cancel_run_locked_spec [OF reachable_coord_inv [OF assms(1)], of run])
  note inv = reachable_coord_inv [OF assms(1)]
  fix r1 st
  assume one: "cancel_run_locked run (world_state w) = Some (r1, st)"
    and ins: "\<And>k. intent_of st k = map_option (cancel_effect (world_state w) run) (intent_of (world_state w) k)"
    and ls: "\<And>k. lease_of st k = (case lease_of (world_state w) k of None \<Rightarrow> None
       | Some l \<Rightarrow> if el_team_run_id (lr_lease l) = Some run then None else Some l)"
  have c: "co_state c = st" "r = r1" using assms(2) one by (auto simp: cancel_run_def)
  have "no_work (cr_summary r)" by (rule cancel_run_no_work(1) [OF inv assms(2)])
  moreover have "intent_of (co_state c) k =
       map_option (\<lambda>i. if wi_team_run_id i = Some run \<and> \<not> is_terminal (wi_state i)
           then i\<lparr>wi_state := Cancelled ''run_cancelled''\<rparr>
         else if shares_batch (world_state w) run k then i\<lparr>wi_state := Queued\<rparr> else i)
         (intent_of (world_state w) k)" for k
    using coord_inv_intent [OF inv, of k]
    by (cases "intent_of (world_state w) k") (auto simp: c ins cancel_effect_def)
  ultimately show ?thesis by (auto simp: c ls split: option.splits if_splits)
qed

theorem cancel_run_leaves_no_work_witness:
  "intent_of (co_state demo_cancelled) ''c'' =
     map_option (\<lambda>i. i\<lparr>wi_state := Cancelled ''run_cancelled''\<rparr>) (intent_of (co_state demo_started) ''c'')"
proof -
  have "cancel_run quiet_port (demo_env CHR ''g'') ''b'' demo_started \<noteq> None" by code_simp
  then obtain r where r: "cancel_run quiet_port (demo_env CHR ''g'') ''b'' demo_started = Some (r, demo_cancelled)"
    by (auto simp: demo_cancelled_def)
  have "map_option wi_team_run_id (intent_of (co_state demo_started) ''c'') = Some (Some ''b'')"
    "map_option (\<lambda>i. is_terminal (wi_state i)) (intent_of (co_state demo_started) ''c'') = Some False"
    by code_simp+
  then show ?thesis
    using cancel_run_leaves_no_work [OF demo_reach_started, of "demo_env CHR ''g''" "''b''" r demo_cancelled] r
    by auto
qed

text \<open>
  Removing a slot cancels exactly the live intents of that slot, empties its lanes, withdraws
  its active batch and reports it for cancellation, and from then on every enqueue for the slot
  is refused. The messages it reports are those of the intents it cancelled.
\<close>

theorem remove_slot_cancels_its_work:
  assumes "work_reachable P team g port w"
    and "remove_slot P e s (ww_coordinator w) = Some (r, c)"
    and "slot_of (world_state w) s = Some sl"
  shows "(\<forall>k. intent_of (co_state c) k = map_option (\<lambda>i. if wi_slot_id i = s \<and> \<not> is_terminal (wi_state i)
       then i\<lparr>wi_state := Cancelled ''slot_removed''\<rparr> else i) (intent_of (world_state w) k)) \<and>
    queue_length (co_state c) s = 0 \<and> active_batch_at (co_state c) s = None \<and>
    rw_cancel_target r = cancel_target_of sl \<and>
    set (rw_terminal_message_ids r) = {m. \<exists>k i. intent_of (world_state w) k = Some i \<and> wi_slot_id i = s \<and>
       \<not> is_terminal (wi_state i) \<and> wi_mailbox_message_id i = Some m} \<and>
    (\<forall>req. er_slot_id req = s \<longrightarrow> isl (fst (acquire_enqueue P e req c)))"
proof (rule remove_slot_locked_spec [OF reachable_coord_inv [OF assms(1)], of s])
  note inv = reachable_coord_inv [OF assms(1)]
  fix r1 st
  assume one: "remove_slot_locked s (world_state w) = Some (r1, st)"
    and ins: "\<And>k. intent_of st k = map_option (\<lambda>i. if wi_slot_id i = s \<and> \<not> is_terminal (wi_state i)
       then i\<lparr>wi_state := Cancelled ''slot_removed''\<rparr> else i) (intent_of (world_state w) k)"
    and slots: "\<And>x. slot_of st x = (if x = s
       then map_option (\<lambda>sl. (clear_slot_work sl)\<lparr>sl_removed := True\<rparr>) (slot_of (world_state w) x)
       else slot_of (world_state w) x)"
    and target: "rw_cancel_target r1 = Option.bind (slot_of (world_state w) s) cancel_target_of"
    and messages: "rw_terminal_message_ids r1 =
       filter_map (message_of (cs_intents (world_state w))) (removed_slot_ids (world_state w) s)"
  have c: "co_state c = st" "r = r1" using assms(2) one by (auto simp: remove_slot_def)
  have sl: "slot_of st s = Some ((clear_slot_work sl)\<lparr>sl_removed := True\<rparr>)"
    using assms(3) by (simp add: slots)
  have "queued_ids ((clear_slot_work sl)\<lparr>sl_removed := True\<rparr>) = []"
    by (simp add: queued_ids_Nil)
  moreover have "isl (fst (acquire_enqueue P e req c))" if "er_slot_id req = s" for req
    using that sl by (simp add: acquire_enqueue_def slot_or_new_def c Let_def validate_enqueue_constraint_def)
  moreover have "m \<in> set (rw_terminal_message_ids r1) \<longleftrightarrow> (\<exists>k i. intent_of (world_state w) k = Some i \<and>
       wi_slot_id i = s \<and> \<not> is_terminal (wi_state i) \<and> wi_mailbox_message_id i = Some m)" for m
    unfolding messages set_filter_map Bex_def removed_slot_ids_iff [OF inv] message_of_def by fastforce
  ultimately show ?thesis
    using sl assms(3) by (auto simp: c ins target queue_length_def active_batch_at_def)
qed

theorem remove_slot_cancels_its_work_witness:
  "active_batch_at (co_state (snd (the (remove_slot quiet_port (demo_env CHR ''g'') ''s'' demo_started)))) ''s'' = None"
proof -
  have "remove_slot quiet_port (demo_env CHR ''g'') ''s'' demo_started \<noteq> None"
    "slot_of (co_state demo_started) ''s'' \<noteq> None" by code_simp+
  then obtain r c sl where "remove_slot quiet_port (demo_env CHR ''g'') ''s'' demo_started = Some (r, c)"
    "slot_of (co_state demo_started) ''s'' = Some sl" by auto
  then show ?thesis
    using remove_slot_cancels_its_work [OF demo_reach_started, of "demo_env CHR ''g''" "''s''" r c sl] by simp
qed

text \<open>
  Stopping the session cancels every live intent of every slot, drops every lease and
  batch, and leaves no run with work; every slot it knew refuses enqueues afterwards.
\<close>

theorem stop_cancels_everything:
  assumes "work_reachable P team g port w" and "stop P e (ww_coordinator w) = (ss, c)"
  shows "(\<forall>k. intent_of (co_state c) k = map_option (\<lambda>i. if is_terminal (wi_state i) then i
       else i\<lparr>wi_state := Cancelled ''session_stopped''\<rparr>) (intent_of (world_state w) k)) \<and>
    owned_ids (co_state c) = [] \<and> cs_enqueue_leases (co_state c) = [] \<and>
    (\<forall>run. no_work (run_summary_locked (co_state c) run)) \<and>
    (\<forall>req. slot_of (world_state w) (er_slot_id req) \<noteq> None \<longrightarrow> isl (fst (acquire_enqueue P e req c)))"
proof -
  note inv = reachable_coord_inv [OF assms(1)]
  let ?st = "snd (stop_locked (world_state w))"
  note spec = stop_locked_spec [OF inv]
  have c: "co_state c = ?st" using assms(2) by (auto simp: stop_def split: prod.splits)
  have ended: "is_terminal (wi_state i)" if "intent_of ?st k = Some i" for k i
    using that by (auto simp: spec(2))
  have "set (owned_ids ?st) = {}"
    unfolding owned_ids_inv(2) [OF spec(1)] using ended by blast
  moreover have "no_work (run_summary_locked ?st run)" for run
    unfolding no_work_intent_of [OF spec(1)] using ended by (auto simp: run_leases_def spec(4))
  moreover have "isl (fst (acquire_enqueue P e req c))" if "slot_of (world_state w) (er_slot_id req) \<noteq> None" for req
    using that by (auto simp: acquire_enqueue_def slot_or_new_def c spec(3) Let_def validate_enqueue_constraint_def)
  moreover have "intent_of ?st k = map_option (\<lambda>i. if is_terminal (wi_state i) then i
       else i\<lparr>wi_state := Cancelled ''session_stopped''\<rparr>) (intent_of (world_state w) k)" for k
    by (cases "intent_of (world_state w) k") (simp_all add: spec(2) stop_intent_def)
  ultimately show ?thesis using spec(4) by (simp add: c)
qed

theorem stop_cancels_everything_witness:
  "owned_ids (co_state (snd (stop quiet_port (demo_env CHR ''g'') demo_started))) = []"
  using stop_cancels_everything [OF demo_reach_started, of "demo_env CHR ''g''"] by (simp add: prod_eq_iff)

text \<open>
  When the runtime of a slot fails, the live intents of the slot that belong to a run fail
  with the reported classification; those without a run are queued again, to be served when the
  runtime is ready. Intents of other slots are untouched.
\<close>

theorem failed_runtime_fails_run_work:
  assumes "work_reachable P team g port w"
    and "set_runtime_constraint P e s (RcFailed n cl) (ww_coordinator w) = Some (r, c)"
  shows "(\<forall>k. intent_of (co_state c) k = map_option (\<lambda>i.
       if wi_slot_id i = s \<and> \<not> is_terminal (wi_state i)
       then i\<lparr>wi_state := (if wi_team_run_id i = None then Queued else Failed cl)\<rparr> else i)
       (intent_of (world_state w) k)) \<and>
    active_batch_at (co_state c) s = None \<and>
    (\<exists>sl. slot_of (co_state c) s = Some sl \<and> sl_runtime_constraint sl = RcFailed n cl)"
proof (rule set_runtime_constraint_locked_spec [OF reachable_coord_inv [OF assms(1)], of s "RcFailed n cl"])
  fix ms rs st
  assume one: "set_runtime_constraint_locked s (RcFailed n cl) (world_state w) = Some (ms, rs, st)"
    and ins: "\<And>k. intent_of st k = map_option (\<lambda>i.
        case terminal_classification (RcFailed n cl) of None \<Rightarrow> i
        | Some cl' \<Rightarrow> if wi_slot_id i = s \<and> \<not> is_terminal (wi_state i)
            then i\<lparr>wi_state := constrained_state (RcFailed n cl = RcSessionStopped) cl' (cs_intents (world_state w)) k\<rparr> else i)
      (intent_of (world_state w) k)"
    and slot: "\<exists>sl. slot_of st s = Some sl \<and> sl_runtime_constraint sl = RcFailed n cl \<and>
       (terminal_classification (RcFailed n cl) \<noteq> None \<longrightarrow> sl_active sl = None)"
  have c: "co_state c = st"
    using assms(2) one by (auto simp: set_runtime_constraint_def Let_def split: option.splits)
  have "intent_of st k = map_option (\<lambda>i.
       if wi_slot_id i = s \<and> \<not> is_terminal (wi_state i)
       then i\<lparr>wi_state := (if wi_team_run_id i = None then Queued else Failed cl)\<rparr> else i)
       (intent_of (world_state w) k)" for k
    by (cases "intent_of (world_state w) k") (auto simp: ins constrained_state_def fields_of_intent)
  with slot show ?thesis by (auto simp: c active_batch_at_def)
qed

theorem failed_runtime_fails_run_work_witness:
  "active_batch_at (co_state (snd (the (set_runtime_constraint quiet_port (demo_env CHR ''g'') ''s''
     (RcFailed 1 ''crashed'') demo_started)))) ''s'' = None"
proof -
  have "set_runtime_constraint quiet_port (demo_env CHR ''g'') ''s'' (RcFailed 1 ''crashed'') demo_started \<noteq> None"
    by code_simp
  then obtain r c where
    "set_runtime_constraint quiet_port (demo_env CHR ''g'') ''s'' (RcFailed 1 ''crashed'') demo_started = Some (r, c)"
    by auto
  then show ?thesis
    using failed_runtime_fails_run_work [OF demo_reach_started, of "demo_env CHR ''g''" "''s''" 1 "''crashed''" r c]
    by simp
qed

text \<open>
  A claim that is returned before it was started (\<open>retry_start\<close>) leaves no trace in the
  queue: every lane holds the same intents in the same order as before the claim, and every
  intent has the state it had.
\<close>

theorem retry_restores_the_queue:
  assumes "work_reachable P team g port w"
    and "coordinator_next P e s (ww_coordinator w) = (Claim b, c)"
    and "slot_of (world_state w) s = Some sl"
    and "\<forall>k \<in> set (slot_queue (wb_highest_priority b) sl). has_message (world_state w) k"
  shows "fst (retry_start P e' b c) = Committed \<and>
    (\<exists>sl'. slot_of (co_state (snd (retry_start P e' b c))) s = Some sl' \<and>
       (\<forall>p. slot_queue p sl' = slot_queue p sl) \<and> sl_active sl' = None) \<and>
    intent_of (co_state (snd (retry_start P e' b c))) = intent_of (world_state w)"
proof -
  note inv = reachable_coord_inv [OF assms(1)]
  obtain st where locked: "next_locked (world_generation w) e s (world_state w) = (Claim b, st)"
    and c: "co_state c = st" "co_session_generation c = world_generation w"
    using assms(2) by (auto simp: coordinator_next_def split: prod.splits reconcile_decision.splits)
  show ?thesis
  proof (rule retry_after_claim [OF inv locked])
    show "has_message (world_state w) k"
      if "slot_of (world_state w) s = Some x" "k \<in> set (slot_queue (wb_highest_priority b) x)" for x k
      using that assms(3,4) by simp
    fix st2 sl0 sl2
    assume "retry_start_locked (world_generation w) b st = (Committed, st2)"
      "slot_of (world_state w) s = Some sl0" "slot_of st2 s = Some sl2" "sl_active sl2 = None"
      "\<And>p. slot_queue p sl2 = slot_queue p sl0" "intent_of st2 = intent_of (world_state w)"
    then show ?thesis using assms(3) by (simp add: retry_start_def publish_batch_def c)
  qed
qed

theorem retry_restores_the_queue_witness:
  "intent_of (co_state (snd (retry_start quiet_port (demo_env CHR ''g'') demo_batch demo_claimed))) =
   intent_of (co_state demo_queued)"
proof -
  have "map_option (\<lambda>sl. \<forall>k \<in> set (slot_queue (wb_highest_priority demo_batch) sl). has_message (co_state demo_queued) k)
      (slot_of (co_state demo_queued) ''s'') = Some True" by code_simp
  then obtain sl where "slot_of (co_state demo_queued) ''s'' = Some sl"
    "\<forall>k \<in> set (slot_queue (wb_highest_priority demo_batch) sl). has_message (co_state demo_queued) k" by auto
  then show ?thesis
    using retry_restores_the_queue [OF demo_reach_queued, of "demo_env CHR ''d''" "''s''" demo_batch demo_claimed sl]
      demo_claim by simp
qed



text \<open>
  The reports do not depend on the iteration order of the hash maps: the summary of every
  run, the set of runs and the snapshot of every slot are the same for every order.
\<close>

theorem reports_ignore_hash_order:
  assumes "work_reachable P team g port w" and "rehashed (world_state w) st"
  shows "run_summary_locked st run = run_summary_locked (world_state w) run \<and>
    all_run_ids st = all_run_ids (world_state w) \<and>
    slot_snapshot_locked st s = slot_snapshot_locked (world_state w) s"
proof -
  let ?st = "world_state w"
  note inv = reachable_coord_inv [OF assms(1)]
  note same = rehashed_intent_of [OF assms(2) coord_inv_keys(2,3) [OF inv]]
  have slots: "cs_slots st = cs_slots ?st" using assms(2) by (simp add: rehashed_def)
  have snap: "slot_snapshot_locked st = slot_snapshot_locked ?st"
  proof -
    have "snapshot_of_slot st = snapshot_of_slot ?st"
      by (intro ext) (simp only: snapshot_of_slot_def same(1))
    then show ?thesis by (intro ext) (simp only: slot_snapshot_locked_def slots)
  qed
  have mi: "mset (intents st) = mset (intents ?st)" and ml: "mset (leases st) = mset (leases ?st)"
    using assms(2) by (simp_all only: rehashed_def mset_map)
  have len: "length (filter Q (run_intents st run)) = length (filter Q (run_intents ?st run))" for Q
    using mi by (metis mset_filter run_intents_def size_mset)
  have leases: "length (run_leases st run) = length (run_leases ?st run)"
    "set (run_leases st run) = set (run_leases ?st run)"
    using ml by (metis mset_filter run_leases_def size_mset, metis mset_eq_setD mset_filter run_leases_def)
  have ri: "set (run_intents st run) = set (run_intents ?st run)"
    using mi by (metis mset_eq_setD mset_filter run_intents_def)
  have rem: "length (remdups (filter_map f (run_intents st run))) =
      length (remdups (filter_map f (run_intents ?st run)))" for f :: "work_intent \<Rightarrow> id option"
  proof -
    have "set (filter_map f (run_intents st run)) = set (filter_map f (run_intents ?st run))"
      using ri by auto
    then show ?thesis by (simp add: length_remdups_card_conv)
  qed
  have ids: "btree_set (map wi_slot_id (run_intents st run) @ map (\<lambda>r. el_slot_id (lr_lease r)) (run_leases st run)) =
      btree_set (map wi_slot_id (run_intents ?st run) @ map (\<lambda>r. el_slot_id (lr_lease r)) (run_leases ?st run))"
    by (rule btree_set_cong) (simp add: ri leases(2))
  have "run_summary_locked st run = run_summary_locked ?st run"
    unfolding run_summary_locked_def Let_def len rem ids snap leases(1) slots ..
  moreover have "all_run_ids st = all_run_ids ?st"
    unfolding all_run_ids_def using mset_eq_setD [OF mi] mset_eq_setD [OF ml]
    by (intro btree_set_cong) auto
  ultimately show ?thesis by (simp add: snap)
qed

theorem reports_ignore_hash_order_witness:
  "run_summary_locked ((co_state demo_started)\<lparr>cs_intents := rev (cs_intents (co_state demo_started))\<rparr>) ''b'' =
   run_summary_locked (co_state demo_started) ''b''"
  using reports_ignore_hash_order [OF demo_reach_started,
      of "(co_state demo_started)\<lparr>cs_intents := rev (cs_intents (co_state demo_started))\<rparr>" "''b''"]
  by (simp add: rehashed_def)

text \<open>What the recovery loop adds: an intent for every message nobody owned.\<close>

lemma already_owned_iff:
  "distinct (hm_keys (cs_intents st)) \<Longrightarrow> already_owned st s m \<longleftrightarrow>
    (\<exists>k i. intent_of st k = Some i \<and> wi_slot_id i = s \<and> wi_mailbox_message_id i = Some m
       \<and> \<not> is_terminal (wi_state i))"
  unfolding already_owned_def Bex_def using hm_values_iff [of "cs_intents st"] by metis

lemma recover_unread_owns:
  assumes "distinct (hm_keys (cs_intents st))" "inj (env_id e)"
    and "\<And>j. n \<le> j \<Longrightarrow> intent_of st (env_id e j) = None"
  shows "(\<forall>k i. intent_of st k = Some i \<longrightarrow>
       intent_of (snd (recover_unread g e s role n ms st)) k = Some i) \<and>
    (\<forall>m \<in> set ms. already_owned (snd (recover_unread g e s role n ms st)) s m) \<and>
    distinct (hm_keys (cs_intents (snd (recover_unread g e s role n ms st)))) \<and>
    (\<forall>k i. intent_of (snd (recover_unread g e s role n ms st)) k = Some i \<longrightarrow>
       intent_of st k = Some i \<or> (\<exists>m \<in> set ms. wi_mailbox_message_id i = Some m))"
  using assms
proof (induction ms arbitrary: n st)
  case Nil
  then show ?case by simp
next
  case (Cons m ms)
  show ?case
  proof (cases "already_owned st s m")
    case True
    note IH = Cons.IH [where n = n, OF Cons.prems(1,2) Cons.prems(3)]
    obtain k i where "intent_of st k = Some i" "wi_slot_id i = s" "wi_mailbox_message_id i = Some m"
      "\<not> is_terminal (wi_state i)"
      using True already_owned_iff [OF Cons.prems(1)] by blast
    then have "already_owned (snd (recover_unread g e s role n ms st)) s m"
      using IH already_owned_iff by blast
    moreover have "recover_unread g e s role n (m # ms) st = recover_unread g e s role n ms st"
      using True by simp
    ultimately show ?thesis using IH by (simp only: list.set insert_iff) blast
  next
    case False
    let ?i = "recovery_intent g e s role (env_id e n) m"
    let ?st = "modify_slot s (queue_push_back Background (env_id e n))
      (st\<lparr>cs_intents := hm_insert (env_id e n) ?i (cs_intents st)\<rparr>)"
    let ?st' = "snd (recover_unread g e s role (Suc n) ms ?st)"
    have ins: "intent_of ?st = (intent_of st)(env_id e n \<mapsto> ?i)" by simp
    have fresh: "intent_of st (env_id e n) = None" using Cons.prems(3) by simp
    have d: "distinct (hm_keys (cs_intents ?st))"
      using Cons.prems(1) by (simp del: set_map)
    have "intent_of ?st (env_id e j) = None" if "Suc n \<le> j" for j
      using Cons.prems(3) [of j] injD [OF Cons.prems(2), of j n] that by auto
    note IH = Cons.IH [OF d Cons.prems(2) this]
    have "intent_of ?st' (env_id e n) = Some ?i" using IH ins by simp
    then have own: "already_owned ?st' s m"
      using IH already_owned_iff [of ?st' s m]
      by (metis (mono_tags, lifting) in_flight_not_terminal is_terminal.simps(4) recovery_intent_def
          work_intent.select_convs(3,7,10))
    have keep: "intent_of ?st' k = Some i" if "intent_of st k = Some i" for k i
      using IH that fresh by (metis fun_upd_other ins option.distinct(1))
    have only: "intent_of st k = Some i \<or> (\<exists>m' \<in> set (m # ms). wi_mailbox_message_id i = Some m')"
      if "intent_of ?st' k = Some i" for k i
    proof -
      have "intent_of ?st k = Some i \<or> (\<exists>m \<in> set ms. wi_mailbox_message_id i = Some m)"
        using IH that by blast
      then show ?thesis
        by (auto simp: recovery_intent_def split: if_splits)
    qed
    have eq: "snd (recover_unread g e s role n (m # ms) st) = ?st'"
      using False by (simp add: Let_def split_beta)
    have owned: "\<forall>m' \<in> set (m # ms). already_owned ?st' s m'"
      using own IH by (simp only: list.set) blast
    show ?thesis unfolding eq using owned keep only IH by blast
  qed
qed

text \<open>
  After a mailbox reconciliation no unread message is without work: each is owned by a live
  intent of the slot. And no queued intent of the slot waits on a message that has been read.
\<close>

theorem reconciled_mailbox_is_owned:
  assumes "work_reachable P team g port w" and "fresh_env e w"
    and "reconcile_mailbox e s unread role (ww_coordinator w) = (pr, c)"
  shows "(\<forall>m \<in> set unread. \<exists>k i. intent_of (co_state c) k = Some i \<and> wi_slot_id i = s \<and>
       wi_mailbox_message_id i = Some m \<and> \<not> is_terminal (wi_state i)) \<and>
    (\<forall>k i m. intent_of (co_state c) k = Some i \<and> wi_slot_id i = s \<and> wi_state i = Queued \<and>
       wi_mailbox_message_id i = Some m \<longrightarrow> m \<in> set unread)"
proof -
  note inv = reachable_coord_inv [OF assms(1)]
  let ?st = "world_state w"
  define sl where "sl = (slot_or_new s role ?st)\<lparr>sl_role := role, sl_known_unread_message_ids := set unread\<rparr>"
  define st1 where "st1 = put_slot s sl ?st"
  define cleared where "cleared = filter (stale_intent unread (cs_intents ?st)) (queued_ids sl)"
  define st2 where "st2 = modify_slot s (fold remove_queued cleared)
    (st1\<lparr>cs_intents := set_intent_states cleared Completed (cs_intents ?st)\<rparr>)"
  let ?st3 = "snd (recover_unread (world_generation w) e s role 0 unread st2)"
  have eq: "co_state c = ?st3"
    using assms(3)
    by (auto simp: reconcile_mailbox_def reconcile_mailbox_locked_def reconcile_queued_eq Let_def split_beta
        sl_def [symmetric] st1_def [symmetric] cleared_def [symmetric] st2_def [symmetric])
  have ins2: "intent_of st2 k = (if k \<in> set cleared then map_option (\<lambda>i. i\<lparr>wi_state := Completed\<rparr>) (intent_of ?st k)
      else intent_of ?st k)" for k
    by (simp add: st2_def)
  have d: "distinct (hm_keys (cs_intents st2))"
    using coord_inv_keys(2) [OF inv] by (simp add: st2_def del: set_map map_map)
  have fresh: "inj (env_id e)" "\<And>j. intent_of st2 (env_id e j) = None"
    using assms(2) by (simp_all add: fresh_env_def ins2)
  have rec: "(\<forall>m \<in> set unread. already_owned ?st3 s m) \<and> distinct (hm_keys (cs_intents ?st3)) \<and>
    (\<forall>k i. intent_of ?st3 k = Some i \<longrightarrow>
       intent_of st2 k = Some i \<or> (\<exists>m \<in> set unread. wi_mailbox_message_id i = Some m))"
    using recover_unread_owns [OF d fresh(1), of 0 "world_generation w" s role unread] fresh(2) by blast
  have slinv: "slot_inv (world_generation w) (cs_next_operation_id ?st) (intent_of ?st) s sl"
    by (rule slot_inv_frame [OF slot_or_new_inv [OF inv, of s role]]) (auto simp: sl_def)
  have kept: "m \<in> set unread"
    if i: "intent_of st2 k = Some i" "wi_slot_id i = s" "wi_state i = Queued" "wi_mailbox_message_id i = Some m" for k i m
  proof -
    have no: "k \<notin> set cleared" and old: "intent_of ?st k = Some i"
      using i by (auto simp: ins2 split: if_splits)
    then have "k \<in> set (queued_ids sl)" using slot_inv_queued_ids [OF slinv, of k] i by blast
    then have "\<not> stale_intent unread (cs_intents ?st) k" using no by (simp add: cleared_def)
    then show ?thesis using old i(4) by (simp add: stale_intent_def)
  qed
  have "\<exists>k i. intent_of ?st3 k = Some i \<and> wi_slot_id i = s \<and> wi_mailbox_message_id i = Some m \<and>
      \<not> is_terminal (wi_state i)" if "m \<in> set unread" for m
    using rec that already_owned_iff [of ?st3 s m] by blast
  moreover have "m \<in> set unread"
    if "intent_of ?st3 k = Some i" "wi_slot_id i = s" "wi_state i = Queued" "wi_mailbox_message_id i = Some m" for k i m
  proof -
    have "intent_of st2 k = Some i \<or> (\<exists>m \<in> set unread. wi_mailbox_message_id i = Some m)"
      using rec that(1) by blast
    then show ?thesis using kept that(2-4) by auto
  qed
  ultimately show ?thesis unfolding eq by blast
qed

theorem reconciled_mailbox_is_owned_witness:
  "\<exists>k i. intent_of (co_state (snd (reconcile_mailbox (demo_env CHR ''g'') ''s'' [''n''] RoleLead demo_queued))) k = Some i \<and>
     wi_slot_id i = ''s'' \<and> wi_mailbox_message_id i = Some ''n'' \<and> \<not> is_terminal (wi_state i)"
proof -
  have "fresh_env (demo_env CHR ''g'') (demo_world demo_queued {})"
    by (rule demo_fresh) (simp add: demo_queued_eq)
  then show ?thesis
    using reconciled_mailbox_is_owned [OF demo_reach_queued, of "demo_env CHR ''g''" "''s''" "[''n'']" RoleLead]
    by (simp add: prod_eq_iff)
qed

text \<open>Two background intents without a run, queued in one slot, in a given hash order.\<close>

definition background_intent :: "id \<Rightarrow> work_intent" where
  "background_intent k =
     \<lparr>wi_intent_id = k, wi_session_generation = ''gen'', wi_slot_id = ''s'', wi_role = RoleTeammate,
      wi_source = RecoveryDrain, wi_priority = Background, wi_mailbox_message_id = Some (''m'' @ k),
      wi_team_run_id = None, wi_created_at_ms = 1000, wi_state = Queued\<rparr>"

definition two_background :: "id list \<Rightarrow> coordinator_state" where
  "two_background order =
     \<lparr>cs_slots = [(''s'', (slot_state_new RoleTeammate)
        \<lparr>sl_background := [''a'', ''b''], sl_runtime_constraint := RcReady\<rparr>)],
      cs_intents = map (\<lambda>k. (k, background_intent k)) order,
      cs_enqueue_leases = [], cs_next_operation_id = 0\<rparr>"

definition background_lane :: "coordinator_state \<Rightarrow> id list" where
  "background_lane st = (case slot_of st ''s'' of None \<Rightarrow> [] | Some sl \<Rightarrow> sl_background sl)"

lemma two_background_inv: "coord_inv ''gen'' (two_background [''a'', ''b''])"
proof -
  let ?st = "two_background [''a'', ''b'']"
  let ?sl = "(slot_state_new RoleTeammate)\<lparr>sl_background := [''a'', ''b''], sl_runtime_constraint := RcReady\<rparr>"
  have ins: "intent_of ?st k = (if k = ''a'' \<or> k = ''b'' then Some (background_intent k) else None)" for k
    by (simp add: two_background_def)
  have lane: "slot_queue p ((slot_state_new RoleTeammate)\<lparr>sl_background := [''a'', ''b'']\<rparr>) = (if p = Background then [''a'', ''b''] else [])" for p
    by (cases p) (simp_all add: slot_state_new_def)
  have "slot_inv ''gen'' 0 (intent_of ?st) ''s'' ?sl"
    by (auto simp: slot_inv_def ins lane background_intent_def active_ids_def)
  then show ?thesis
    by (auto simp: coord_inv_def ins, auto simp: two_background_def background_intent_def split: if_splits)
qed

text \<open>
  The order of queued work does not survive a runtime failure. The work without a run that
  is queued again is collected by iterating over the hash map of all intents, so its order in
  the lane is that iteration order: the same lane ends up in either order.
\<close>

theorem failed_runtime_loses_queue_order:
  "coord_inv ''gen'' (two_background [''a'', ''b'']) \<and>
   rehashed (two_background [''a'', ''b'']) (two_background [''b'', ''a'']) \<and>
   background_lane (two_background [''b'', ''a'']) = [''a'', ''b''] \<and>
   map_option (\<lambda>(ms, rs, st). background_lane st)
     (set_runtime_constraint_locked ''s'' (RcFailed 1 ''crashed'') (two_background [''a'', ''b''])) = Some [''a'', ''b''] \<and>
   map_option (\<lambda>(ms, rs, st). background_lane st)
     (set_runtime_constraint_locked ''s'' (RcFailed 1 ''crashed'') (two_background [''b'', ''a''])) = Some [''b'', ''a'']"
proof (intro conjI)
  show "rehashed (two_background [''a'', ''b'']) (two_background [''b'', ''a''])"
    by (simp add: rehashed_def two_background_def)
qed (rule two_background_inv, code_simp, code_simp, code_simp)

section \<open>The team run\<close>

text \<open>
  An accepted user enqueue is bound to the run that the team-run manager holds active from
  then on; if a run was active already, it is that run.
\<close>

theorem user_work_joins_active_run:
  assumes "acquire_enqueue team_run_port e req c = (Inr lease, c')"
    and "er_binding req = UserVisible"
  shows "\<exists>r. el_team_run_id lease = Some r \<and> current_active_run_id (co_run_causality c') = Some r \<and>
    (current_active_run_id (co_run_causality c) \<noteq> None \<longrightarrow>
     current_active_run_id (co_run_causality c) = Some r)"
  using team_runs.acquire_user_tracked [OF assms] .

theorem user_work_joins_active_run_witness:
  "\<exists>r. current_active_run_id (co_run_causality (snd (acquire_enqueue team_run_port (demo_env CHR ''b'')
     demo_request (coordinator_new ''team'' ''gen'' (team_run_manager_new ''team''))))) = Some r"
proof -
  let ?r = "acquire_enqueue team_run_port (demo_env CHR ''b'') demo_request
    (coordinator_new ''team'' ''gen'' (team_run_manager_new ''team''))"
  have "fst ?r = Inr demo_lease" by code_simp
  then have "?r = (Inr demo_lease, snd ?r)" by (simp add: prod_eq_iff)
  moreover have "er_binding demo_request = UserVisible" by (simp add: demo_request_def)
  ultimately show ?thesis
    using user_work_joins_active_run [of "demo_env CHR ''b''" demo_request _ demo_lease "snd ?r"] by blast
qed

text \<open>
  Committing work never ends the run the manager holds active: the summary it publishes
  counts the new intent, so the run stays active as long as none of its intents has failed.
\<close>

theorem commit_keeps_run_active:
  assumes "work_reachable team_run_port team g port w" and "fresh_env e w"
    and "commit_enqueue team_run_port e lease m (ww_coordinator w) = Some (Inr cm, c')"
    and "current_active_run_id (co_run_causality (ww_coordinator w)) = Some r"
    and "rs_failed_intent_count (run_summary_locked (co_state c') r) = 0"
  shows "current_active_run_id (co_run_causality c') = Some r"
  using team_runs.commit_keeps_active [OF assms(3) reachable_coord_inv [OF assms(1)] _ assms(4,5)] assms(2)
  by (simp add: fresh_env_def)

theorem commit_keeps_run_active_witness:
  "current_active_run_id (co_run_causality live_queued) = Some ''b''"
proof (rule live_commit)
  fix cm
  assume commit: "commit_enqueue team_run_port (demo_env CHR ''c'') demo_lease (Some ''m'') live_leased = Some (Inr cm, live_queued)"
  have "fresh_env (demo_env CHR ''c'') \<lparr>ww_coordinator = live_leased, ww_issued = {}\<rparr>"
    by (rule live_fresh) (simp add: live_leased_eq)
  moreover have "current_active_run_id (co_run_causality live_leased) = Some ''b''"
    "rs_failed_intent_count (run_summary_locked (co_state live_queued) ''b'') = 0" by code_simp+
  ultimately show ?thesis
    using commit_keeps_run_active [OF live_reach_leased, of "demo_env CHR ''c''"] commit by simp
qed

text \<open>
  Cancelling the active run ends it: the manager holds no run active afterwards. If the
  cancellation had been announced to the manager before, as the session does, and no intent of
  the run had failed, the run is recorded as cancelled, and the last event announced says so.
\<close>

theorem cancelled_run_ends:
  assumes "work_reachable team_run_port team g port w"
    and "cancel_run team_run_port e r (ww_coordinator w) = Some (cw, c')"
    and "tm_state (co_run_causality (ww_coordinator w)) = Some run"
    and "tr_team_run_id run = r" and "run_is_active run"
  shows "current_active_run_id (co_run_causality c') = None \<and>
    (tr_status run = RunCancelling \<and> rs_failed_intent_count (cr_summary cw) = 0 \<longrightarrow>
       map_option tr_status (tm_state (co_run_causality c')) = Some RunCancelled \<and>
       (tr_accepted_emitted run \<longrightarrow>
          (\<exists>p. last (tm_emitter (co_run_causality c')) = RunEvent TeamRunCancelledEvent p \<and>
             tp_team_run_id p = r)))"
proof
  let ?m = "co_run_causality (ww_coordinator w)"
  have act: "current_active_run_id ?m = Some r"
    using assms(3-5) by (simp add: current_active_run_id_def)
  show "current_active_run_id (co_run_causality c') = None"
    by (rule team_runs.cancel_run_ends [OF assms(2) reachable_coord_inv [OF assms(1)] act])
  note facts = cancel_run_no_work [OF reachable_coord_inv [OF assms(1)] assms(2)]
  have c': "co_run_causality c' = apply_work_summary e (cr_summary cw) ?m"
    using facts(3) by (simp add: team_run_port_def)
  show "tr_status run = RunCancelling \<and> rs_failed_intent_count (cr_summary cw) = 0 \<longrightarrow>
       map_option tr_status (tm_state (co_run_causality c')) = Some RunCancelled \<and>
       (tr_accepted_emitted run \<longrightarrow>
          (\<exists>p. last (tm_emitter (co_run_causality c')) = RunEvent TeamRunCancelledEvent p \<and>
             tp_team_run_id p = r))"
    using assms(3,4) facts(1,2)
    by (auto simp: c' apply_work_summary_def Let_def apply_summary_status run_event_of_def)
qed

theorem cancelled_run_ends_witness:
  "map_option tr_status (tm_state (co_run_causality live_cancelled)) = Some RunCancelled"
proof (rule live_cancel)
  fix r
  assume cancel: "cancel_run team_run_port (demo_env CHR ''e'') ''b'' live_cancelling = Some (r, live_cancelled)"
  have "map_option (\<lambda>run. tr_team_run_id run = ''b'' \<and> run_is_active run \<and> tr_status run = RunCancelling)
      (tm_state (co_run_causality live_cancelling)) = Some True"
    "map_option (\<lambda>(r, c). rs_failed_intent_count (cr_summary r))
      (cancel_run team_run_port (demo_env CHR ''e'') ''b'' live_cancelling) = Some 0" by code_simp+
  then show ?thesis
    using cancelled_run_ends [OF live_reach_cancelling, of "demo_env CHR ''e''" "''b''" r live_cancelled] cancel
    by auto
qed

text \<open>
  Every run is announced at most once: in the event log of a manager, the events of a run
  are updates, then one acceptance, then events of other kinds; a start, completion, failure or
  cancellation never comes before the acceptance.
\<close>

theorem run_announced_once:
  assumes "manager_step\<^sup>*\<^sup>* (team_run_manager_new team) m"
  shows "set (events_of r m) \<subseteq> {TeamRunUpdatedEvent} \<or>
    (\<exists>us vs. events_of r m = us @ TeamRunAcceptedEvent # vs \<and> set us \<subseteq> {TeamRunUpdatedEvent} \<and>
       TeamRunAcceptedEvent \<notin> set vs)"
  using log_inv_steps [OF assms log_inv_new] by (auto simp: log_inv_def announced_once_def)

theorem run_announced_once_witness:
  "set (events_of ''r'' (snd (bind_user_enqueue (demo_env CHR ''b'') ''s'' RoleLead (team_run_manager_new ''team''))))
     \<subseteq> {TeamRunUpdatedEvent} \<or>
   (\<exists>us vs. events_of ''r'' (snd (bind_user_enqueue (demo_env CHR ''b'') ''s'' RoleLead (team_run_manager_new ''team''))) =
      us @ TeamRunAcceptedEvent # vs \<and> set us \<subseteq> {TeamRunUpdatedEvent} \<and> TeamRunAcceptedEvent \<notin> set vs)"
proof (rule run_announced_once, rule r_into_rtranclp)
  have "unused_run (env_id (demo_env CHR ''b'') 0) (team_run_manager_new ''team'')"
    by (simp add: unused_run_def events_of_def team_run_manager_new_def)
  then show "manager_step (team_run_manager_new ''team'')
      (snd (bind_user_enqueue (demo_env CHR ''b'') ''s'' RoleLead (team_run_manager_new ''team'')))"
    by (rule ms_bind_user) (simp add: prod_eq_iff)
qed

text \<open>Publishing a list of summaries with one for the run of the record is publishing that one.\<close>

lemma publish_one_summary:
  assumes "distinct (map rs_team_run_id ss)" "s \<in> set ss" "tm_state m = Some run"
    "tr_team_run_id run = rs_team_run_id s"
  shows "publish_run_summaries team_run_port e ss m = apply_work_summary e s m"
proof -
  have skip: "publish_run_summaries team_run_port e ts m' = m'"
    if "\<And>t. t \<in> set ts \<Longrightarrow> \<forall>r. tm_state m' = Some r \<longrightarrow> tr_team_run_id r \<noteq> rs_team_run_id t" for ts m'
    using that
    by (induction ts) (auto simp: publish_run_summaries_def team_run_port_def apply_work_summary_def split: option.splits)
  obtain xs ys where ss: "ss = xs @ s # ys" using assms(2) by (meson split_list)
  have xs: "publish_run_summaries team_run_port e xs m = m"
    by (rule skip) (use assms ss in auto)
  have "publish_run_summaries team_run_port e ys (apply_work_summary e s m) = apply_work_summary e s m"
    by (rule skip) (use assms ss in \<open>auto simp: apply_work_summary_state\<close>)
  then show ?thesis
    using xs by (simp add: ss publish_run_summaries_def team_run_port_def)
qed

text \<open>
  Stopping the session announces a run that had been cancelled as completed: \<open>stop\<close>
  publishes a summary for every run with any intent, ended or not, and the manager takes a
  summary without work for a run that is not being cancelled as its completion. The cancelled
  run is recorded as completed and a completion event follows its cancellation event.
\<close>

theorem stop_completes_cancelled_run:
  assumes "work_reachable team_run_port team g port w"
    and "stop team_run_port e (ww_coordinator w) = (ss, c')"
    and "tm_state (co_run_causality (ww_coordinator w)) = Some run"
    and "tr_status run = RunCancelled" and "tr_accepted_emitted run"
    and "tr_team_run_id run \<in> set (all_run_ids (world_state w))"
    and "rs_failed_intent_count (run_summary_locked (co_state c') (tr_team_run_id run)) = 0"
  shows "map_option tr_status (tm_state (co_run_causality c')) = Some RunCompleted \<and>
    (\<exists>p. tm_emitter (co_run_causality c') =
       tm_emitter (co_run_causality (ww_coordinator w)) @ [RunEvent TeamRunCompletedEvent p] \<and>
       tp_team_run_id p = tr_team_run_id run)"
proof -
  let ?st = "snd (stop_locked (world_state w))" and ?r = "tr_team_run_id run"
  note inv = reachable_coord_inv [OF assms(1)]
  have ss: "ss = map (run_summary_locked ?st) (all_run_ids (world_state w))"
    and c': "c' = release_and_publish team_run_port e ss None ?st (ww_coordinator w)"
    using assms(2) by (auto simp: stop_def stop_locked_def Let_def)
  have st: "co_state c' = ?st" by (simp add: c')
  have "distinct (map rs_team_run_id ss)"
    by (simp add: ss comp_def all_run_ids_def)
  moreover have "run_summary_locked ?st ?r \<in> set ss" using assms(6) by (simp add: ss)
  ultimately have port: "co_run_causality c' =
      apply_work_summary e (run_summary_locked ?st ?r) (co_run_causality (ww_coordinator w))"
    using publish_one_summary [of ss "run_summary_locked ?st ?r" _ run] assms(3)
    by (simp add: c' release_and_publish_def publish_slot_work_snapshot_def)
  have "is_terminal (wi_state i)" if "intent_of ?st k = Some i" for k i
    using that by (auto simp: stop_locked_spec(2) [OF inv])
  then have "no_work (run_summary_locked ?st ?r)"
    unfolding no_work_intent_of [OF stop_locked_spec(1) [OF inv]]
    by (auto simp: run_leases_def stop_locked_spec(4) [OF inv])
  then show ?thesis
    using assms(3-5,7) st
    by (simp add: port apply_work_summary_def Let_def apply_summary_status run_event_of_def)
qed

theorem stop_completes_cancelled_run_witness:
  "map_option tr_status (tm_state (co_run_causality live_cancelled)) = Some RunCancelled \<and>
   map_option tr_status (tm_state (co_run_causality (snd (stop team_run_port (demo_env CHR ''f'') live_cancelled)))) =
     Some RunCompleted"
proof -
  have run: "map_option (\<lambda>run. tr_status run = RunCancelled \<and> tr_accepted_emitted run \<and> tr_team_run_id run = ''b'')
      (tm_state (co_run_causality live_cancelled)) = Some True"
    "''b'' \<in> set (all_run_ids (co_state live_cancelled))"
    "rs_failed_intent_count (run_summary_locked (snd (stop_locked (co_state live_cancelled))) ''b'') = 0"
    by code_simp+
  have st: "co_state (snd (stop team_run_port (demo_env CHR ''f'') live_cancelled)) = snd (stop_locked (co_state live_cancelled))"
    by (simp add: stop_def split_beta)
  show ?thesis
    using stop_completes_cancelled_run [OF live_reach_cancelled, of "demo_env CHR ''f''"
        "fst (stop team_run_port (demo_env CHR ''f'') live_cancelled)"
        "snd (stop team_run_port (demo_env CHR ''f'') live_cancelled)"] run st
    by auto
qed

end
