(* ===== verification/Member_Runtime.thy ===== *)
theory Member_Runtime
  imports Prelude
begin

text \<open>
  The registry of member runtimes of a team session
  (\<open>crates/aionui-team/src/member_runtime.rs\<close>): who may attach the runtime of an agent,
  who may remove it, and how the callers that wait for either learn the outcome.

  A \<open>tokio::sync::watch\<close> channel is a cell of \<open>mr_channels\<close>; a sender or a receiver is
  the index of its cell, so that an entry, its lease and every waiter that joined share one
  cell, as clones of the Rust handles do. Every operation runs under the lock of the entries
  and is one function on the registry, returned updated.
\<close>

subsection \<open>Data\<close>

record member_runtime_failure =
  mf_classification :: string
  mf_public_reason :: string

datatype attach_outcome =
  OutcomeReady
| OutcomeFailed member_runtime_failure
| OutcomeRemoved
| OutcomeSessionStopped

datatype attach_signal = SigPending | SigTerminal attach_outcome

type_synonym channel = nat

record attach_waiter =
  aw_operation_id :: u64
  aw_outcome_rx :: channel

record attach_lease =
  al_session_generation :: id
  al_agent_id :: id
  al_waiter :: attach_waiter

definition al_operation_id :: "attach_lease \<Rightarrow> u64" where
  "al_operation_id l = aw_operation_id (al_waiter l)"

record remove_lease =
  rl_session_generation :: id
  rl_agent_id :: id
  rl_operation_id :: u64

datatype reserve_result =
  ReserveStart attach_lease
| ReserveJoin attach_waiter
| AlreadyReady
| ReserveRemoving attach_waiter
| ReserveSessionStopped

datatype begin_remove_result =
  RemoveStart remove_lease
| RemoveJoin attach_waiter
| RemoveAbsent
| RemoveSessionStopped

datatype member_runtime_snapshot =
  SnapAbsent
| SnapAttaching u64
| SnapReady
| SnapFailed u64 member_runtime_failure
| SnapRemoving u64
| SnapSessionStopped

datatype member_entry =
  EntryAttaching u64 channel
| EntryReady
| EntryFailed u64 member_runtime_failure channel
| EntryRemoving u64 channel

fun entry_channel :: "member_entry \<Rightarrow> channel option" where
  "entry_channel (EntryAttaching _ ch) = Some ch"
| "entry_channel EntryReady = None"
| "entry_channel (EntryFailed _ _ ch) = Some ch"
| "entry_channel (EntryRemoving _ ch) = Some ch"

record member_registry =
  mr_session_generation :: id
  mr_next_operation_id :: u64
  mr_entries :: "(id, member_entry) hash_map"
  mr_stopped :: bool
  mr_channels :: "attach_signal list"


subsection \<open>Channels and counters\<close>

definition registry_new :: "id \<Rightarrow> member_registry" where
  "registry_new generation = \<lparr>mr_session_generation = generation, mr_next_operation_id = 1,
     mr_entries = [], mr_stopped = False, mr_channels = []\<rparr>"

definition watch_channel :: "attach_signal \<Rightarrow> member_registry \<Rightarrow> channel \<times> member_registry" where
  "watch_channel s r = (length (mr_channels r), r\<lparr>mr_channels := mr_channels r @ [s]\<rparr>)"

definition send_replace :: "channel \<Rightarrow> attach_signal \<Rightarrow> member_registry \<Rightarrow> member_registry" where
  "send_replace ch s r = r\<lparr>mr_channels := (mr_channels r)[ch := s]\<rparr>"

text \<open>\<open>fetch_add\<close> wraps at \<open>2 ^ 64\<close>.\<close>

definition next_operation_id :: "member_registry \<Rightarrow> u64 \<times> member_registry" where
  "next_operation_id r =
     (mr_next_operation_id r, r\<lparr>mr_next_operation_id := mr_next_operation_id r + 1\<rparr>)"

definition insert_entry :: "id \<Rightarrow> member_entry \<Rightarrow> member_registry \<Rightarrow> member_registry" where
  "insert_entry a e r = r\<lparr>mr_entries := hm_insert a e (mr_entries r)\<rparr>"

definition remove_entry :: "id \<Rightarrow> member_registry \<Rightarrow> member_registry" where
  "remove_entry a r = r\<lparr>mr_entries := hm_remove a (mr_entries r)\<rparr>"

definition waiter :: "u64 \<Rightarrow> channel \<Rightarrow> attach_waiter" where
  "waiter op ch = \<lparr>aw_operation_id = op, aw_outcome_rx = ch\<rparr>"

text \<open>
  What a waiter sees when it looks: a terminal signal ends the wait; a channel whose senders
  are all gone (no entry holds it) ends it as a stopped session; otherwise it goes on waiting.
\<close>

definition sender_alive :: "channel \<Rightarrow> member_registry \<Rightarrow> bool" where
  "sender_alive ch r = list_ex (\<lambda>e. entry_channel e = Some ch) (hm_values (mr_entries r))"

definition wait_outcome :: "attach_waiter \<Rightarrow> member_registry \<Rightarrow> attach_outcome option" where
  "wait_outcome w r =
     (case mr_channels r ! aw_outcome_rx w of
        SigTerminal out \<Rightarrow> Some out
      | SigPending \<Rightarrow> if sender_alive (aw_outcome_rx w) r then None else Some OutcomeSessionStopped)"


subsection \<open>Attaching\<close>

definition start_attach :: "id \<Rightarrow> member_registry \<Rightarrow> reserve_result \<times> member_registry" where
  "start_attach a r =
     (let (op, r) = next_operation_id r;
          (ch, r) = watch_channel SigPending r;
          r = insert_entry a (EntryAttaching op ch) r
      in (ReserveStart \<lparr>al_session_generation = mr_session_generation r, al_agent_id = a,
                        al_waiter = waiter op ch\<rparr>, r))"

definition reserve_attach :: "id \<Rightarrow> bool \<Rightarrow> member_registry \<Rightarrow> reserve_result \<times> member_registry" where
  "reserve_attach a retry_failed r =
     (if mr_stopped r then (ReserveSessionStopped, r)
      else case map_of (mr_entries r) a of
        Some (EntryAttaching op ch) \<Rightarrow> (ReserveJoin (waiter op ch), r)
      | Some EntryReady \<Rightarrow> (AlreadyReady, r)
      | Some (EntryFailed op _ ch) \<Rightarrow>
          if \<not> retry_failed then (ReserveJoin (waiter op ch), r) else start_attach a r
      | Some (EntryRemoving op ch) \<Rightarrow> (ReserveRemoving (waiter op ch), r)
      | None \<Rightarrow> start_attach a r)"

definition reserve_repair :: "id \<Rightarrow> member_registry \<Rightarrow> reserve_result \<times> member_registry" where
  "reserve_repair a r =
     (if mr_stopped r then (ReserveSessionStopped, r)
      else case map_of (mr_entries r) a of
        Some (EntryAttaching op ch) \<Rightarrow> (ReserveJoin (waiter op ch), r)
      | Some EntryReady \<Rightarrow> start_attach a r
      | Some (EntryFailed op _ ch) \<Rightarrow> (ReserveJoin (waiter op ch), r)
      | Some (EntryRemoving op ch) \<Rightarrow> (ReserveRemoving (waiter op ch), r)
      | None \<Rightarrow> start_attach a r)"

text \<open>\<open>owns_attach\<close> reads the stop flag before it takes the lock: \<open>r0\<close> is the registry at
  that reading, \<open>r\<close> the registry under the lock.\<close>

definition owns_attach_racing :: "attach_lease \<Rightarrow> member_registry \<Rightarrow> member_registry \<Rightarrow> bool" where
  "owns_attach_racing l r0 r =
     (if al_session_generation l \<noteq> mr_session_generation r0 \<or> mr_stopped r0 then False
      else case map_of (mr_entries r) (al_agent_id l) of
        Some (EntryAttaching op _) \<Rightarrow> op = al_operation_id l
      | _ \<Rightarrow> False)"

definition owns_attach :: "attach_lease \<Rightarrow> member_registry \<Rightarrow> bool" where
  "owns_attach l r = owns_attach_racing l r r"

definition commit_ready :: "attach_lease \<Rightarrow> member_registry \<Rightarrow> bool \<times> member_registry" where
  "commit_ready l r =
     (if al_session_generation l \<noteq> mr_session_generation r then (False, r)
      else if mr_stopped r then (False, r)
      else case map_of (mr_entries r) (al_agent_id l) of
        Some (EntryAttaching op ch) \<Rightarrow>
          if op \<noteq> al_operation_id l then (False, r)
          else (True, send_replace ch (SigTerminal OutcomeReady) (insert_entry (al_agent_id l) EntryReady r))
      | _ \<Rightarrow> (False, r))"

definition commit_failed ::
  "attach_lease \<Rightarrow> member_runtime_failure \<Rightarrow> member_registry \<Rightarrow> bool \<times> member_registry" where
  "commit_failed l failure r =
     (if al_session_generation l \<noteq> mr_session_generation r then (False, r)
      else if mr_stopped r then (False, r)
      else case map_of (mr_entries r) (al_agent_id l) of
        Some (EntryAttaching op ch) \<Rightarrow>
          if op \<noteq> al_operation_id l then (False, r)
          else (True, send_replace ch (SigTerminal (OutcomeFailed failure))
                 (insert_entry (al_agent_id l) (EntryFailed (al_operation_id l) failure ch) r))
      | _ \<Rightarrow> (False, r))"


subsection \<open>Removing and stopping\<close>

definition start_remove :: "id \<Rightarrow> channel option \<Rightarrow> member_registry \<Rightarrow> begin_remove_result \<times> member_registry" where
  "start_remove a cancelled r =
     (let (op, r) = next_operation_id r;
          (ch, r) = watch_channel SigPending r;
          r = insert_entry a (EntryRemoving op ch) r;
          r = (case cancelled of None \<Rightarrow> r | Some ch' \<Rightarrow> send_replace ch' (SigTerminal OutcomeRemoved) r)
      in (RemoveStart \<lparr>rl_session_generation = mr_session_generation r, rl_agent_id = a,
                       rl_operation_id = op\<rparr>, r))"

definition begin_remove :: "id \<Rightarrow> member_registry \<Rightarrow> begin_remove_result \<times> member_registry" where
  "begin_remove a r =
     (if mr_stopped r then (RemoveSessionStopped, r)
      else case map_of (mr_entries r) a of
        Some (EntryRemoving op ch) \<Rightarrow> (RemoveJoin (waiter op ch), r)
      | previous \<Rightarrow>
          (let r = remove_entry a r in
           case previous of
             Some (EntryAttaching _ ch) \<Rightarrow> start_remove a (Some ch) r
           | Some _ \<Rightarrow> start_remove a None r
           | None \<Rightarrow> (RemoveAbsent, r)))"

definition finish_remove :: "remove_lease \<Rightarrow> member_registry \<Rightarrow> bool \<times> member_registry" where
  "finish_remove l r =
     (if rl_session_generation l \<noteq> mr_session_generation r then (False, r)
      else if mr_stopped r then (False, r)
      else case map_of (mr_entries r) (rl_agent_id l) of
        Some (EntryRemoving op ch) \<Rightarrow>
          if op \<noteq> rl_operation_id l then (False, r)
          else (True, send_replace ch (SigTerminal OutcomeRemoved) (remove_entry (rl_agent_id l) r))
      | _ \<Rightarrow> (False, r))"

definition restore_attach_required ::
  "remove_lease \<Rightarrow> member_runtime_failure \<Rightarrow> member_registry \<Rightarrow> bool \<times> member_registry" where
  "restore_attach_required l failure r =
     (if rl_session_generation l \<noteq> mr_session_generation r then (False, r)
      else if mr_stopped r then (False, r)
      else case map_of (mr_entries r) (rl_agent_id l) of
        Some (EntryRemoving op ch) \<Rightarrow>
          if op \<noteq> rl_operation_id l then (False, r)
          else (True, send_replace ch (SigTerminal (OutcomeFailed failure))
                 (insert_entry (rl_agent_id l) (EntryFailed (rl_operation_id l) failure ch) r))
      | _ \<Rightarrow> (False, r))"

definition runtime_snapshot :: "id \<Rightarrow> member_registry \<Rightarrow> member_runtime_snapshot" where
  "runtime_snapshot a r =
     (if mr_stopped r then SnapSessionStopped
      else case map_of (mr_entries r) a of
        None \<Rightarrow> SnapAbsent
      | Some (EntryAttaching op _) \<Rightarrow> SnapAttaching op
      | Some EntryReady \<Rightarrow> SnapReady
      | Some (EntryFailed op failure _) \<Rightarrow> SnapFailed op failure
      | Some (EntryRemoving op _) \<Rightarrow> SnapRemoving op)"

fun stop_entry :: "member_entry \<Rightarrow> member_registry \<Rightarrow> member_registry" where
  "stop_entry (EntryAttaching _ ch) r = send_replace ch (SigTerminal OutcomeSessionStopped) r"
| "stop_entry (EntryRemoving _ ch) r = send_replace ch (SigTerminal OutcomeSessionStopped) r"
| "stop_entry EntryReady r = r"
| "stop_entry (EntryFailed _ _ _) r = r"

definition registry_stop :: "member_registry \<Rightarrow> bool \<times> member_registry" where
  "registry_stop r =
     (if mr_stopped r then (False, r\<lparr>mr_stopped := True\<rparr>)
      else (True, fold stop_entry (hm_values (mr_entries r)) (r\<lparr>mr_stopped := True, mr_entries := []\<rparr>)))"

end
