(* ===== verification/Member_Invariant.thy ===== *)
theory Member_Invariant
  imports Member_Runtime
begin

text \<open>
  The invariant of the registry, the world of the leases it has issued, and the steps of that
  world. An operation identifier is the number of the channel created with it plus one, up to
  the wrap-around of the counter; facts that compare identifiers assume that fewer than
  \<open>2 ^ 64\<close> operations were started.
\<close>

fun entry_operation :: "member_entry \<Rightarrow> u64 option" where
  "entry_operation (EntryAttaching op _) = Some op"
| "entry_operation EntryReady = None"
| "entry_operation (EntryFailed op _ _) = Some op"
| "entry_operation (EntryRemoving op _) = Some op"

fun entry_signal :: "member_entry \<Rightarrow> attach_signal" where
  "entry_signal (EntryAttaching _ _) = SigPending"
| "entry_signal EntryReady = SigTerminal OutcomeReady"
| "entry_signal (EntryFailed _ failure _) = SigTerminal (OutcomeFailed failure)"
| "entry_signal (EntryRemoving _ _) = SigPending"

definition channel_operation :: "channel \<Rightarrow> u64" where
  "channel_operation ch = of_nat (Suc ch)"

definition entry_ok :: "member_registry \<Rightarrow> member_entry \<Rightarrow> bool" where
  "entry_ok r e = (\<forall>ch. entry_channel e = Some ch \<longrightarrow>
     ch < length (mr_channels r) \<and> entry_operation e = Some (channel_operation ch) \<and>
     mr_channels r ! ch = entry_signal e)"

definition registry_inv :: "member_registry \<Rightarrow> bool" where
  "registry_inv r \<longleftrightarrow>
     distinct (hm_keys (mr_entries r)) \<and>
     (mr_stopped r \<longrightarrow> mr_entries r = []) \<and>
     mr_next_operation_id r = channel_operation (length (mr_channels r)) \<and>
     (\<forall>a e. map_of (mr_entries r) a = Some e \<longrightarrow> entry_ok r e) \<and>
     (\<forall>a b e f ch. map_of (mr_entries r) a = Some e \<longrightarrow> map_of (mr_entries r) b = Some f \<longrightarrow>
        entry_channel e = Some ch \<longrightarrow> entry_channel f = Some ch \<longrightarrow> a = b) \<and>
     (\<forall>ch < length (mr_channels r). mr_channels r ! ch = SigPending \<longrightarrow>
        (\<exists>a e. map_of (mr_entries r) a = Some e \<and> entry_channel e = Some ch))"


fun is_attaching :: "member_entry \<Rightarrow> bool" where
  "is_attaching (EntryAttaching _ _) = True"
| "is_attaching _ = False"

fun is_removing :: "member_entry \<Rightarrow> bool" where
  "is_removing (EntryRemoving _ _) = True"
| "is_removing _ = False"

text \<open>How a registry may change: it keeps its generation and its stop flag, its channels only
  grow, a terminal signal is never replaced, and an entry that holds an old channel took it
  over from an entry of the same agent and of the same kind of operation.\<close>

definition registry_evolves :: "member_registry \<Rightarrow> member_registry \<Rightarrow> bool" where
  "registry_evolves r r' \<longleftrightarrow>
     mr_session_generation r' = mr_session_generation r \<and>
     (mr_stopped r \<longrightarrow> mr_stopped r') \<and>
     length (mr_channels r) \<le> length (mr_channels r') \<and>
     (\<forall>ch < length (mr_channels r). mr_channels r ! ch \<noteq> SigPending \<longrightarrow>
        mr_channels r' ! ch = mr_channels r ! ch) \<and>
     (\<forall>a e' ch. map_of (mr_entries r') a = Some e' \<longrightarrow> entry_channel e' = Some ch \<longrightarrow>
        ch < length (mr_channels r) \<longrightarrow>
        (\<exists>e. map_of (mr_entries r) a = Some e \<and> entry_channel e = Some ch \<and>
          (is_attaching e' \<longrightarrow> is_attaching e) \<and> (is_removing e' \<longrightarrow> is_removing e)))"

lemma registry_evolves_refl [simp]: "registry_evolves r r"
  by (auto simp: registry_evolves_def)

lemma registry_evolves_trans [trans]:
  assumes 1: "registry_evolves r1 r2" and 2: "registry_evolves r2 r3"
  shows "registry_evolves r1 r3"
proof -
  have "\<exists>e. map_of (mr_entries r1) a = Some e \<and> entry_channel e = Some ch \<and>
      (is_attaching e3 \<longrightarrow> is_attaching e) \<and> (is_removing e3 \<longrightarrow> is_removing e)"
    if e3: "map_of (mr_entries r3) a = Some e3" "entry_channel e3 = Some ch"
      and ch: "ch < length (mr_channels r1)" for a e3 ch
  proof -
    have "ch < length (mr_channels r2)" using 1 ch by (auto simp: registry_evolves_def)
    then obtain e2 where "map_of (mr_entries r2) a = Some e2" "entry_channel e2 = Some ch"
      "is_attaching e3 \<longrightarrow> is_attaching e2" "is_removing e3 \<longrightarrow> is_removing e2"
      using 2 e3 unfolding registry_evolves_def by blast
    moreover from this obtain e where "map_of (mr_entries r1) a = Some e" "entry_channel e = Some ch"
      "is_attaching e2 \<longrightarrow> is_attaching e" "is_removing e2 \<longrightarrow> is_removing e"
      using 1 ch unfolding registry_evolves_def by blast
    ultimately show ?thesis by blast
  qed
  moreover have "mr_channels r3 ! ch = mr_channels r1 ! ch"
    if "ch < length (mr_channels r1)" "mr_channels r1 ! ch \<noteq> SigPending" for ch
    using 1 2 that by (simp add: registry_evolves_def)
  ultimately show ?thesis
    using 1 2 unfolding registry_evolves_def by (auto intro: order_trans)
qed


subsection \<open>Changing one entry\<close>

text \<open>
  Every operation but \<open>stop\<close> gives one agent a new entry (or none) and touches no channel
  but the one the agent held and, at most, a fresh one.
\<close>

lemma registry_change:
  assumes inv: "registry_inv r"
    and keys: "distinct (hm_keys (mr_entries r'))"
    and gen: "mr_session_generation r' = mr_session_generation r"
    and running: "\<not> mr_stopped r" "\<not> mr_stopped r'"
    and next_op: "mr_next_operation_id r' = channel_operation (length (mr_channels r'))"
    and ents: "map_of (mr_entries r') = (map_of (mr_entries r))(a := eo)"
    and len: "length (mr_channels r) \<le> length (mr_channels r')"
    and new: "\<And>e. eo = Some e \<Longrightarrow> entry_ok r' e"
    and others: "\<And>ch. ch < length (mr_channels r) \<Longrightarrow>
      Option.bind (map_of (mr_entries r) a) entry_channel \<noteq> Some ch \<Longrightarrow>
      mr_channels r' ! ch = mr_channels r ! ch"
    and kind: "\<And>e ch. eo = Some e \<Longrightarrow> entry_channel e = Some ch \<Longrightarrow> ch < length (mr_channels r) \<Longrightarrow>
      \<exists>e0. map_of (mr_entries r) a = Some e0 \<and> entry_channel e0 = Some ch \<and>
        (is_attaching e \<longrightarrow> is_attaching e0) \<and> (is_removing e \<longrightarrow> is_removing e0)"
    and pending: "\<And>ch. ch < length (mr_channels r') \<Longrightarrow> mr_channels r' ! ch = SigPending \<Longrightarrow>
      ch \<ge> length (mr_channels r) \<or> Option.bind (map_of (mr_entries r) a) entry_channel = Some ch \<Longrightarrow>
      Option.bind eo entry_channel = Some ch"
    and final: "\<And>e ch. map_of (mr_entries r) a = Some e \<Longrightarrow> entry_channel e = Some ch \<Longrightarrow>
      entry_signal e \<noteq> SigPending \<Longrightarrow> mr_channels r' ! ch = mr_channels r ! ch"
  shows "registry_inv r' \<and> registry_evolves r r'"
proof -
  have old: "entry_ok r e" if "map_of (mr_entries r) b = Some e" for b e
    using inv that unfolding registry_inv_def by blast
  have uniq: "b = c" if "map_of (mr_entries r) b = Some e" "map_of (mr_entries r) c = Some f"
    "entry_channel e = Some ch" "entry_channel f = Some ch" for b c e f ch
    using inv that unfolding registry_inv_def by blast
  have held: "\<exists>b e. map_of (mr_entries r) b = Some e \<and> entry_channel e = Some ch"
    if "ch < length (mr_channels r)" "mr_channels r ! ch = SigPending" for ch
    using inv that unfolding registry_inv_def by blast
  have other_ch: "Option.bind (map_of (mr_entries r) a) entry_channel \<noteq> Some ch"
    if "map_of (mr_entries r) b = Some e" "entry_channel e = Some ch" "b \<noteq> a" for b e ch
    using that uniq [of b e a _ ch] by (cases "map_of (mr_entries r) a") auto
  have ok: "entry_ok r' e" if "map_of (mr_entries r') b = Some e" for b e
  proof (cases "b = a")
    case True
    then show ?thesis using that new by (simp add: ents)
  next
    case False
    then have b: "map_of (mr_entries r) b = Some e" using that by (simp add: ents)
    show ?thesis
      using old [OF b] other_ch [OF b _ False] len others by (auto simp: entry_ok_def)
  qed
  have un: "b = c" if "map_of (mr_entries r') b = Some e" "map_of (mr_entries r') c = Some f"
    "entry_channel e = Some ch" "entry_channel f = Some ch" for b c e f ch
  proof (rule ccontr)
    assume ne: "b \<noteq> c"
    have fresh: False if be: "map_of (mr_entries r) b = Some e" "entry_channel e = Some ch"
      and f: "eo = Some f" "entry_channel f = Some ch" and ne: "b \<noteq> a" for b e f
    proof -
      have "ch < length (mr_channels r)" using old [OF be(1)] be(2) by (simp add: entry_ok_def)
      then obtain e0 where "map_of (mr_entries r) a = Some e0" "entry_channel e0 = Some ch"
        using kind [OF f] by blast
      then show False using uniq be ne by blast
    qed
    show False
      using ne that uniq [of b e c f ch] fresh [of b e f] fresh [of c f e]
      by (auto simp: ents split: if_splits)
  qed
  have pend: "\<exists>b e. map_of (mr_entries r') b = Some e \<and> entry_channel e = Some ch"
    if ch: "ch < length (mr_channels r')" "mr_channels r' ! ch = SigPending" for ch
  proof (cases "ch \<ge> length (mr_channels r) \<or> Option.bind (map_of (mr_entries r) a) entry_channel = Some ch")
    case True
    then show ?thesis using pending [OF ch True] by (cases eo) (auto simp: ents)
  next
    case False
    then have "mr_channels r ! ch = SigPending" using others [of ch] ch by simp
    then obtain b e where be: "map_of (mr_entries r) b = Some e" "entry_channel e = Some ch"
      using held [of ch] False by auto
    then have "b \<noteq> a" using False by auto
    then show ?thesis using be by (auto simp: ents)
  qed
  have fin: "mr_channels r' ! ch = mr_channels r ! ch"
    if "ch < length (mr_channels r)" "mr_channels r ! ch \<noteq> SigPending" for ch
  proof (cases "Option.bind (map_of (mr_entries r) a) entry_channel = Some ch")
    case True
    then obtain e where e: "map_of (mr_entries r) a = Some e" "entry_channel e = Some ch"
      by (cases "map_of (mr_entries r) a") auto
    then have "entry_signal e \<noteq> SigPending" using old [OF e(1)] that by (simp add: entry_ok_def)
    then show ?thesis by (rule final [OF e])
  next
    case False
    then show ?thesis using others that by simp
  qed
  have knd: "\<exists>e. map_of (mr_entries r) b = Some e \<and> entry_channel e = Some ch \<and>
      (is_attaching e' \<longrightarrow> is_attaching e) \<and> (is_removing e' \<longrightarrow> is_removing e)"
    if "map_of (mr_entries r') b = Some e'" "entry_channel e' = Some ch"
      "ch < length (mr_channels r)" for b e' ch
    using that kind [of e' ch] by (cases "b = a") (auto simp: ents)
  show ?thesis
    using keys running gen next_op len ok un pend fin knd
    unfolding registry_inv_def registry_evolves_def by blast
qed


subsection \<open>The operations change one entry\<close>

lemma channel_operation_Suc: "channel_operation n + 1 = channel_operation (Suc n)"
  by (simp add: channel_operation_def)

lemma channel_operation_inj:
  assumes "channel_operation c = channel_operation d" "c < 2 ^ 64" "d < 2 ^ 64"
  shows "c = d"
proof -
  have "unat (of_nat c :: u64) = unat (of_nat d :: u64)"
    using assms(1) by (simp add: channel_operation_def)
  then show ?thesis using assms(2,3) by (simp add: unat_of_nat)
qed

lemma registry_inv_entry: "registry_inv r \<Longrightarrow> map_of (mr_entries r) a = Some e \<Longrightarrow> entry_ok r e"
  by (simp add: registry_inv_def)

lemma registry_inv_keys: "registry_inv r \<Longrightarrow> distinct (hm_keys (mr_entries r))"
  by (simp add: registry_inv_def)

lemma registry_inv_next:
  "registry_inv r \<Longrightarrow> mr_next_operation_id r = channel_operation (length (mr_channels r))"
  by (simp add: registry_inv_def)

lemma registry_new_inv: "registry_inv (registry_new g)"
  by (simp add: registry_inv_def registry_new_def channel_operation_def)

lemmas registry_ops = insert_entry_def remove_entry_def send_replace_def watch_channel_def
  next_operation_id_def

lemma start_attach_eq:
  "start_attach a r =
     (let op = mr_next_operation_id r; ch = length (mr_channels r)
      in (ReserveStart \<lparr>al_session_generation = mr_session_generation r, al_agent_id = a,
            al_waiter = waiter op ch\<rparr>,
          r\<lparr>mr_next_operation_id := op + 1, mr_channels := mr_channels r @ [SigPending],
            mr_entries := hm_insert a (EntryAttaching op ch) (mr_entries r)\<rparr>))"
  by (simp add: start_attach_def registry_ops Let_def)

lemma start_remove_eq:
  "start_remove a cancelled r =
     (let op = mr_next_operation_id r; ch = length (mr_channels r)
      in (RemoveStart \<lparr>rl_session_generation = mr_session_generation r, rl_agent_id = a,
            rl_operation_id = op\<rparr>,
          r\<lparr>mr_next_operation_id := op + 1,
            mr_channels := (case cancelled of None \<Rightarrow> mr_channels r @ [SigPending]
              | Some ch' \<Rightarrow> (mr_channels r @ [SigPending])[ch' := SigTerminal OutcomeRemoved]),
            mr_entries := hm_insert a (EntryRemoving op ch) (mr_entries r)\<rparr>))"
  by (simp add: start_remove_def registry_ops Let_def split: option.split)

lemma remove_entry_None: "map_of (mr_entries r) a = None \<Longrightarrow> remove_entry a r = r"
  by (simp add: remove_entry_def map_of_eq_None_iff)

lemma start_attach_change:
  assumes inv: "registry_inv r" and run: "\<not> mr_stopped r"
    and old: "\<And>e. map_of (mr_entries r) a = Some e \<Longrightarrow> entry_signal e \<noteq> SigPending"
  shows "registry_inv (snd (start_attach a r)) \<and> registry_evolves r (snd (start_attach a r))"
proof (rule registry_change [OF inv, where a = a
      and eo = "Some (EntryAttaching (mr_next_operation_id r) (length (mr_channels r)))"])
  fix ch
  assume ch: "ch < length (mr_channels (snd (start_attach a r)))"
    and pend: "mr_channels (snd (start_attach a r)) ! ch = SigPending"
    and "ch \<ge> length (mr_channels r) \<or> Option.bind (map_of (mr_entries r) a) entry_channel = Some ch"
  moreover have False if "map_of (mr_entries r) a = Some e" "entry_channel e = Some ch" for e
    using registry_inv_entry [OF inv that(1)] that old [OF that(1)] pend
    by (auto simp: entry_ok_def start_attach_eq Let_def nth_append)
  ultimately show "Option.bind (Some (EntryAttaching (mr_next_operation_id r) (length (mr_channels r)))) entry_channel = Some ch"
    by (cases "map_of (mr_entries r) a") (auto simp: start_attach_eq Let_def)
next
  fix e ch
  assume "map_of (mr_entries r) a = Some e" "entry_channel e = Some ch"
  then show "mr_channels (snd (start_attach a r)) ! ch = mr_channels r ! ch"
    using registry_inv_entry [OF inv, of a e] by (simp add: entry_ok_def start_attach_eq Let_def nth_append)
qed (use run registry_inv_keys [OF inv] registry_inv_next [OF inv] in
  \<open>auto simp: start_attach_eq Let_def entry_ok_def channel_operation_Suc nth_append\<close>)


text \<open>Resolving an operation in flight: its entry is replaced, its channel gets the outcome.\<close>

lemma resolve_change:
  assumes inv: "registry_inv r" and run: "\<not> mr_stopped r"
    and e: "map_of (mr_entries r) a = Some e" "entry_channel e = Some ch" "entry_signal e = SigPending"
    and eo: "eo = None \<or> eo = Some EntryReady \<and> out = OutcomeReady \<or>
      (\<exists>failure op. entry_operation e = Some op \<and> eo = Some (EntryFailed op failure ch) \<and>
        out = OutcomeFailed failure)"
    and ents: "map_of m = (map_of (mr_entries r))(a := eo)" "distinct (hm_keys m)"
  shows "registry_inv (send_replace ch (SigTerminal out) (r\<lparr>mr_entries := m\<rparr>)) \<and>
    registry_evolves r (send_replace ch (SigTerminal out) (r\<lparr>mr_entries := m\<rparr>))"
proof -
  have ch: "ch < length (mr_channels r)" "entry_operation e = Some (channel_operation ch)"
    using registry_inv_entry [OF inv e(1)] e(2) by (auto simp: entry_ok_def)
  show ?thesis
  proof (rule registry_change [OF inv, where a = a and eo = eo])
    fix e'
    assume "eo = Some e'"
    then show "entry_ok (send_replace ch (SigTerminal out) (r\<lparr>mr_entries := m\<rparr>)) e'"
      using eo ch e by (auto simp: entry_ok_def send_replace_def)
  next
    fix c
    assume "c < length (mr_channels (send_replace ch (SigTerminal out) (r\<lparr>mr_entries := m\<rparr>)))"
      "mr_channels (send_replace ch (SigTerminal out) (r\<lparr>mr_entries := m\<rparr>)) ! c = SigPending"
      "length (mr_channels r) \<le> c \<or> Option.bind (map_of (mr_entries r) a) entry_channel = Some c"
    then have False using e ch by (auto simp: send_replace_def)
    then show "Option.bind eo entry_channel = Some c" ..
  next
    fix e' c
    assume "eo = Some e'" "entry_channel e' = Some c"
    then show "\<exists>e0. map_of (mr_entries r) a = Some e0 \<and> entry_channel e0 = Some c \<and>
        (is_attaching e' \<longrightarrow> is_attaching e0) \<and> (is_removing e' \<longrightarrow> is_removing e0)"
      using eo e by auto
  qed (use run e ents registry_inv_next [OF inv] in \<open>auto simp: send_replace_def\<close>)
qed

lemma resolve_with_entry:
  assumes inv: "registry_inv r" and "\<not> mr_stopped r"
    and "map_of (mr_entries r) a = Some e" "entry_channel e = Some ch" "entry_signal e = SigPending"
  shows resolve_ready: "let r' = send_replace ch (SigTerminal OutcomeReady) (insert_entry a EntryReady r)
      in registry_inv r' \<and> registry_evolves r r'"
    and resolve_removed: "let r' = send_replace ch (SigTerminal OutcomeRemoved) (remove_entry a r)
      in registry_inv r' \<and> registry_evolves r r'"
    and resolve_failed: "entry_operation e = Some op \<Longrightarrow>
      let r' = send_replace ch (SigTerminal (OutcomeFailed f)) (insert_entry a (EntryFailed op f ch) r)
      in registry_inv r' \<and> registry_evolves r r'"
  using resolve_change [OF assms, where eo = "Some EntryReady" and out = OutcomeReady]
    resolve_change [OF assms, where eo = None and out = OutcomeRemoved]
    resolve_change [OF assms, where eo = "Some (EntryFailed op f ch)" and out = "OutcomeFailed f"]
  by (simp_all add: insert_entry_def remove_entry_def registry_inv_keys [OF inv])

lemma begin_remove_change:
  assumes inv: "registry_inv r"
  shows "registry_inv (snd (begin_remove a r)) \<and> registry_evolves r (snd (begin_remove a r))"
proof -
  let ?m = "hm_remove a (mr_entries r)"
  have start: ?thesis
    if run: "\<not> mr_stopped r" and e: "map_of (mr_entries r) a = Some e" "\<not> is_removing e"
    and br: "begin_remove a r = start_remove a
      (if is_attaching e then entry_channel e else None) (remove_entry a r)" for e
  proof -
    let ?r' = "snd (begin_remove a r)" and ?n = "length (mr_channels r)"
    have ok: "entry_ok r e" by (rule registry_inv_entry [OF inv e(1)])
    have sig: "entry_channel e = Some ch \<Longrightarrow> mr_channels ?r' ! ch \<noteq> SigPending" for ch
      using ok e(2) by (cases e)
        (auto simp: br start_remove_eq Let_def remove_entry_def entry_ok_def nth_append)
    have same: "c < ?n \<Longrightarrow> entry_channel e \<noteq> Some c \<or> \<not> is_attaching e \<Longrightarrow>
        mr_channels ?r' ! c = mr_channels r ! c" for c
      by (auto simp: br start_remove_eq Let_def remove_entry_def nth_append nth_list_update split: option.split)
    have new: "mr_channels ?r' ! ?n = SigPending" "length (mr_channels ?r') = Suc ?n"
      using ok by (auto simp: br start_remove_eq Let_def remove_entry_def entry_ok_def nth_list_update
          split: option.split)
    have ents: "map_of (mr_entries ?r') = (map_of (mr_entries r))(a := Some (EntryRemoving (mr_next_operation_id r) ?n))"
      by (simp add: br start_remove_eq Let_def remove_entry_def)
    show ?thesis
    proof (rule registry_change [OF inv _ _ run _ _ ents])
      fix c
      assume "c < length (mr_channels ?r')" "mr_channels ?r' ! c = SigPending"
        "?n \<le> c \<or> Option.bind (map_of (mr_entries r) a) entry_channel = Some c"
      then show "Option.bind (Some (EntryRemoving (mr_next_operation_id r) ?n)) entry_channel = Some c"
        using e sig new by auto
    next
      fix e' c
      assume "map_of (mr_entries r) a = Some e'" "entry_channel e' = Some c" "entry_signal e' \<noteq> SigPending"
      then show "mr_channels ?r' ! c = mr_channels r ! c"
        using e ok by (intro same; cases e) (auto simp: entry_ok_def)
    next
      show "entry_ok ?r' e'" if "Some (EntryRemoving (mr_next_operation_id r) ?n) = Some e'" for e'
        using that new registry_inv_next [OF inv] by (auto simp: entry_ok_def)
    next
      show "mr_next_operation_id ?r' = channel_operation (length (mr_channels ?r'))"
        using registry_inv_next [OF inv] new
        by (simp add: br start_remove_eq Let_def remove_entry_def channel_operation_Suc)
    next
      show "mr_channels ?r' ! c = mr_channels r ! c"
        if "c < ?n" "Option.bind (map_of (mr_entries r) a) entry_channel \<noteq> Some c" for c
        using that e by (intro same) auto
    qed (use run registry_inv_keys [OF inv] new in
        \<open>auto simp: br start_remove_eq Let_def remove_entry_def\<close>)
  qed
  show ?thesis
  proof (cases "mr_stopped r \<or> map_of (mr_entries r) a = None")
    case True
    then have "snd (begin_remove a r) = r"
      by (auto simp: begin_remove_def remove_entry_None)
    then show ?thesis using inv by simp
  next
    case False
    then obtain e where e: "map_of (mr_entries r) a = Some e" and run: "\<not> mr_stopped r" by auto
    show ?thesis
    proof (cases e)
      case (EntryRemoving op ch)
      then show ?thesis using inv e run by (simp add: begin_remove_def)
    qed (use start [OF run e] e run in \<open>auto simp: begin_remove_def\<close>)
  qed
qed


lemma reserve_attach_change:
  assumes inv: "registry_inv r"
  shows "registry_inv (snd (reserve_attach a retry r)) \<and> registry_evolves r (snd (reserve_attach a retry r))"
  using inv start_attach_change [OF inv, of a]
  by (auto simp: reserve_attach_def split: option.split member_entry.split)

lemma reserve_repair_change:
  assumes inv: "registry_inv r"
  shows "registry_inv (snd (reserve_repair a r)) \<and> registry_evolves r (snd (reserve_repair a r))"
  using inv start_attach_change [OF inv, of a]
  by (auto simp: reserve_repair_def split: option.split member_entry.split)

lemma commit_ready_change:
  assumes inv: "registry_inv r"
  shows "registry_inv (snd (commit_ready l r)) \<and> registry_evolves r (snd (commit_ready l r))"
  using inv by (auto simp: commit_ready_def split: option.split member_entry.split
      dest: resolve_ready [OF inv, unfolded Let_def])

lemma commit_failed_change:
  assumes inv: "registry_inv r"
  shows "registry_inv (snd (commit_failed l f r)) \<and> registry_evolves r (snd (commit_failed l f r))"
  using inv by (auto simp: commit_failed_def split: option.split member_entry.split
      dest: resolve_failed [OF inv, unfolded Let_def])

lemma finish_remove_change:
  assumes inv: "registry_inv r"
  shows "registry_inv (snd (finish_remove l r)) \<and> registry_evolves r (snd (finish_remove l r))"
  using inv by (auto simp: finish_remove_def split: option.split member_entry.split
      dest: resolve_removed [OF inv, unfolded Let_def])

lemma restore_attach_required_change:
  assumes inv: "registry_inv r"
  shows "registry_inv (snd (restore_attach_required l f r)) \<and> registry_evolves r (snd (restore_attach_required l f r))"
  using inv by (auto simp: restore_attach_required_def split: option.split member_entry.split
      dest: resolve_failed [OF inv, unfolded Let_def])



subsection \<open>Stopping\<close>

lemma stop_entry_channels:
  "mr_channels (stop_entry e r) = (case entry_channel e of
     Some ch \<Rightarrow> if entry_signal e = SigPending then (mr_channels r)[ch := SigTerminal OutcomeSessionStopped]
       else mr_channels r
   | None \<Rightarrow> mr_channels r)"
  by (cases e) (auto simp: send_replace_def)

lemma stop_entry_fields [simp]:
  "mr_session_generation (stop_entry e r) = mr_session_generation r"
  "mr_next_operation_id (stop_entry e r) = mr_next_operation_id r"
  "mr_entries (stop_entry e r) = mr_entries r" "mr_stopped (stop_entry e r) = mr_stopped r"
  "length (mr_channels (stop_entry e r)) = length (mr_channels r)"
  by (cases e; simp add: send_replace_def)+

lemma fold_stop_entry_fields [simp]:
  "mr_session_generation (fold stop_entry es r) = mr_session_generation r"
  "mr_next_operation_id (fold stop_entry es r) = mr_next_operation_id r"
  "mr_entries (fold stop_entry es r) = mr_entries r" "mr_stopped (fold stop_entry es r) = mr_stopped r"
  "length (mr_channels (fold stop_entry es r)) = length (mr_channels r)"
  by (induction es arbitrary: r) simp_all

lemma fold_stop_entry_channel:
  "ch < length (mr_channels r) \<Longrightarrow> mr_channels (fold stop_entry es r) ! ch =
     (if \<exists>e \<in> set es. entry_channel e = Some ch \<and> entry_signal e = SigPending
      then SigTerminal OutcomeSessionStopped else mr_channels r ! ch)"
  by (induction es arbitrary: r)
    (auto simp: stop_entry_channels nth_list_update split: option.split)

lemma registry_stop_spec:
  assumes inv: "registry_inv r"
  shows "mr_stopped (snd (registry_stop r))" "mr_entries (snd (registry_stop r)) = []"
    "registry_inv (snd (registry_stop r))" "registry_evolves r (snd (registry_stop r))"
    "ch < length (mr_channels r) \<Longrightarrow> mr_channels (snd (registry_stop r)) ! ch =
      (if mr_channels r ! ch = SigPending then SigTerminal OutcomeSessionStopped else mr_channels r ! ch)"
    "length (mr_channels (snd (registry_stop r))) = length (mr_channels r)"
proof -
  let ?r' = "snd (registry_stop r)"
  have ent: "e \<in> set (hm_values (mr_entries r)) \<longleftrightarrow> (\<exists>a. map_of (mr_entries r) a = Some e)" for e
    by (rule hm_values_iff [OF registry_inv_keys [OF inv]])
  have held: "(\<exists>e \<in> set (hm_values (mr_entries r)). entry_channel e = Some ch \<and> entry_signal e = SigPending)
      \<longleftrightarrow> mr_channels r ! ch = SigPending" if ch: "ch < length (mr_channels r)" for ch
  proof
    assume "mr_channels r ! ch = SigPending"
    then obtain a e where "map_of (mr_entries r) a = Some e" "entry_channel e = Some ch"
      using inv ch unfolding registry_inv_def by blast
    then show "\<exists>e \<in> set (hm_values (mr_entries r)). entry_channel e = Some ch \<and> entry_signal e = SigPending"
      using registry_inv_entry [OF inv] \<open>mr_channels r ! ch = SigPending\<close>
      unfolding Bex_def ent entry_ok_def by metis
  next
    assume "\<exists>e \<in> set (hm_values (mr_entries r)). entry_channel e = Some ch \<and> entry_signal e = SigPending"
    then obtain a e where "map_of (mr_entries r) a = Some e" "entry_channel e = Some ch" "entry_signal e = SigPending"
      unfolding Bex_def ent by blast
    then show "mr_channels r ! ch = SigPending"
      using registry_inv_entry [OF inv, of a e] by (simp add: entry_ok_def)
  qed
  show chans: "mr_channels ?r' ! ch =
      (if mr_channels r ! ch = SigPending then SigTerminal OutcomeSessionStopped else mr_channels r ! ch)"
    if ch: "ch < length (mr_channels r)" for ch
  proof (cases "mr_stopped r")
    case True
    then have "mr_entries r = []" using inv by (simp add: registry_inv_def)
    then show ?thesis using held [OF ch] True by (simp add: registry_stop_def)
  next
    case False
    have "ch < length (mr_channels (r\<lparr>mr_stopped := True, mr_entries := []\<rparr>))" using ch by simp
    from fold_stop_entry_channel [OF this] show ?thesis
      using held [OF ch] False by (simp add: registry_stop_def del: set_map)
  qed
  show stopped: "mr_stopped ?r'" and len: "length (mr_channels ?r') = length (mr_channels r)"
    by (simp_all add: registry_stop_def)
  show ents: "mr_entries ?r' = []"
    using inv by (auto simp: registry_stop_def registry_inv_def)
  have gen: "mr_session_generation ?r' = mr_session_generation r"
    "mr_next_operation_id ?r' = mr_next_operation_id r"
    by (simp_all add: registry_stop_def)
  show "registry_inv ?r'"
    unfolding registry_inv_def using gen len ents chans registry_inv_next [OF inv] by auto
  show "registry_evolves r ?r'"
    unfolding registry_evolves_def using gen len ents stopped chans by auto
qed


subsection \<open>The world of issued leases\<close>

text \<open>
  The callers of a registry hold the leases it issued to them; nobody else can make one. A
  step is one operation of the registry, with any lease that was issued: a lease is passed by
  reference and may be presented again after it was used or lost.
\<close>

record member_world =
  mw_registry :: member_registry
  mw_attach_leases :: "attach_lease set"
  mw_remove_leases :: "remove_lease set"

definition started_attach :: "reserve_result \<Rightarrow> attach_lease set" where
  "started_attach res = (case res of ReserveStart l \<Rightarrow> {l} | _ \<Rightarrow> {})"

definition started_remove :: "begin_remove_result \<Rightarrow> remove_lease set" where
  "started_remove res = (case res of RemoveStart l \<Rightarrow> {l} | _ \<Rightarrow> {})"

inductive member_step :: "member_world \<Rightarrow> member_world \<Rightarrow> bool" where
  step_reserve: "reserve_attach a retry (mw_registry w) = (res, r') \<Longrightarrow>
    member_step w (w\<lparr>mw_registry := r', mw_attach_leases := started_attach res \<union> mw_attach_leases w\<rparr>)"
| step_repair: "reserve_repair a (mw_registry w) = (res, r') \<Longrightarrow>
    member_step w (w\<lparr>mw_registry := r', mw_attach_leases := started_attach res \<union> mw_attach_leases w\<rparr>)"
| step_ready: "l \<in> mw_attach_leases w \<Longrightarrow> commit_ready l (mw_registry w) = (b, r') \<Longrightarrow>
    member_step w (w\<lparr>mw_registry := r'\<rparr>)"
| step_failed: "l \<in> mw_attach_leases w \<Longrightarrow> commit_failed l failure (mw_registry w) = (b, r') \<Longrightarrow>
    member_step w (w\<lparr>mw_registry := r'\<rparr>)"
| step_begin_remove: "begin_remove a (mw_registry w) = (rres, r') \<Longrightarrow>
    member_step w (w\<lparr>mw_registry := r', mw_remove_leases := started_remove rres \<union> mw_remove_leases w\<rparr>)"
| step_finish: "rl \<in> mw_remove_leases w \<Longrightarrow> finish_remove rl (mw_registry w) = (b, r') \<Longrightarrow>
    member_step w (w\<lparr>mw_registry := r'\<rparr>)"
| step_restore: "rl \<in> mw_remove_leases w \<Longrightarrow> restore_attach_required rl failure (mw_registry w) = (b, r') \<Longrightarrow>
    member_step w (w\<lparr>mw_registry := r'\<rparr>)"
| step_drop: "ls \<subseteq> mw_attach_leases w \<Longrightarrow> rls \<subseteq> mw_remove_leases w \<Longrightarrow>
    member_step w (w\<lparr>mw_attach_leases := ls, mw_remove_leases := rls\<rparr>)"
| step_stop: "registry_stop (mw_registry w) = (b, r') \<Longrightarrow> member_step w (w\<lparr>mw_registry := r'\<rparr>)"

definition member_world_new :: "id \<Rightarrow> member_world" where
  "member_world_new generation =
     \<lparr>mw_registry = registry_new generation, mw_attach_leases = {}, mw_remove_leases = {}\<rparr>"

definition member_reachable :: "member_world \<Rightarrow> bool" where
  "member_reachable w \<longleftrightarrow> (\<exists>generation. member_step\<^sup>*\<^sup>* (member_world_new generation) w)"

text \<open>The channel of an issued lease is held by no entry of another agent or another kind.\<close>

definition attach_lease_ok :: "member_registry \<Rightarrow> attach_lease \<Rightarrow> bool" where
  "attach_lease_ok r l \<longleftrightarrow> al_session_generation l = mr_session_generation r \<and>
     (\<exists>ch < length (mr_channels r). al_waiter l = waiter (channel_operation ch) ch \<and>
       (\<forall>a e. map_of (mr_entries r) a = Some e \<longrightarrow> entry_channel e = Some ch \<longrightarrow>
          a = al_agent_id l \<and> \<not> is_removing e))"

definition remove_lease_ok :: "member_registry \<Rightarrow> remove_lease \<Rightarrow> bool" where
  "remove_lease_ok r l \<longleftrightarrow> rl_session_generation l = mr_session_generation r \<and>
     (\<exists>ch < length (mr_channels r). rl_operation_id l = channel_operation ch \<and>
       (\<forall>a e. map_of (mr_entries r) a = Some e \<longrightarrow> entry_channel e = Some ch \<longrightarrow>
          a = rl_agent_id l \<and> \<not> is_attaching e))"

definition member_inv :: "member_world \<Rightarrow> bool" where
  "member_inv w \<longleftrightarrow> registry_inv (mw_registry w) \<and>
     (\<forall>l \<in> mw_attach_leases w. attach_lease_ok (mw_registry w) l) \<and>
     (\<forall>l \<in> mw_remove_leases w. remove_lease_ok (mw_registry w) l)"


lemma attach_lease_evolves:
  assumes "registry_evolves r r'" "attach_lease_ok r l"
  shows "attach_lease_ok r' l"
proof -
  obtain ch where ch: "ch < length (mr_channels r)" "al_waiter l = waiter (channel_operation ch) ch"
    and held: "\<And>a e. map_of (mr_entries r) a = Some e \<Longrightarrow> entry_channel e = Some ch \<Longrightarrow>
      a = al_agent_id l \<and> \<not> is_removing e"
    using assms(2) unfolding attach_lease_ok_def by blast
  have "a = al_agent_id l \<and> \<not> is_removing e'"
    if "map_of (mr_entries r') a = Some e'" "entry_channel e' = Some ch" for a e'
    using assms(1) that ch(1) held unfolding registry_evolves_def by blast
  moreover have "ch < length (mr_channels r')"
    using assms(1) ch(1) by (simp add: registry_evolves_def)
  moreover have "al_session_generation l = mr_session_generation r'"
    using assms by (simp add: registry_evolves_def attach_lease_ok_def)
  ultimately show ?thesis using ch(2) unfolding attach_lease_ok_def by blast
qed

lemma remove_lease_evolves:
  assumes "registry_evolves r r'" "remove_lease_ok r l"
  shows "remove_lease_ok r' l"
proof -
  obtain ch where ch: "ch < length (mr_channels r)" "rl_operation_id l = channel_operation ch"
    and held: "\<And>a e. map_of (mr_entries r) a = Some e \<Longrightarrow> entry_channel e = Some ch \<Longrightarrow>
      a = rl_agent_id l \<and> \<not> is_attaching e"
    using assms(2) unfolding remove_lease_ok_def by blast
  have "a = rl_agent_id l \<and> \<not> is_attaching e'"
    if "map_of (mr_entries r') a = Some e'" "entry_channel e' = Some ch" for a e'
    using assms(1) that ch(1) held unfolding registry_evolves_def by blast
  moreover have "ch < length (mr_channels r')"
    using assms(1) ch(1) by (simp add: registry_evolves_def)
  moreover have "rl_session_generation l = mr_session_generation r'"
    using assms by (simp add: registry_evolves_def remove_lease_ok_def)
  ultimately show ?thesis using ch(2) unfolding remove_lease_ok_def by blast
qed

text \<open>A lease that was just issued.\<close>

lemma fresh_channel:
  assumes "registry_inv r" "map_of (mr_entries r) b = Some e"
  shows "entry_channel e \<noteq> Some (length (mr_channels r))"
  using registry_inv_entry [OF assms] by (auto simp: entry_ok_def)

lemma start_attach_lease:
  assumes "registry_inv r" "start_attach a r = (res, r')" "l \<in> started_attach res"
  shows "attach_lease_ok r' l"
proof -
  have l: "l = \<lparr>al_session_generation = mr_session_generation r, al_agent_id = a,
      al_waiter = waiter (mr_next_operation_id r) (length (mr_channels r))\<rparr>"
    using assms(2,3) by (auto simp: start_attach_eq Let_def started_attach_def)
  show ?thesis
    unfolding attach_lease_ok_def
  proof (intro conjI exI [of _ "length (mr_channels r)"] allI impI)
    fix b e
    assume "map_of (mr_entries r') b = Some e" "entry_channel e = Some (length (mr_channels r))"
    then have "b = a \<and> e = EntryAttaching (mr_next_operation_id r) (length (mr_channels r))"
      using assms(2) fresh_channel [OF assms(1), of b e]
      by (auto simp: start_attach_eq Let_def split: if_splits)
    then show "b = al_agent_id l" "\<not> is_removing e" by (auto simp: l)
  qed (use assms in \<open>auto simp: start_attach_eq Let_def l registry_inv_next\<close>)
qed

lemma begin_remove_lease:
  assumes inv: "registry_inv r" and "begin_remove a r = (res, r')" "l \<in> started_remove res"
  shows "remove_lease_ok r' l"
proof -
  obtain c where start: "start_remove a c (remove_entry a r) = (res, r')"
    using assms(2,3) by (auto simp: begin_remove_def started_remove_def Let_def
        split: if_splits option.splits member_entry.splits begin_remove_result.splits)
  have l: "l = \<lparr>rl_session_generation = mr_session_generation r, rl_agent_id = a,
      rl_operation_id = mr_next_operation_id r\<rparr>"
    using start assms(3) by (auto simp: start_remove_eq Let_def started_remove_def remove_entry_def)
  show ?thesis
    unfolding remove_lease_ok_def
  proof (intro conjI exI [of _ "length (mr_channels r)"] allI impI)
    fix b e
    assume "map_of (mr_entries r') b = Some e" "entry_channel e = Some (length (mr_channels r))"
    then have "b = a \<and> e = EntryRemoving (mr_next_operation_id r) (length (mr_channels r))"
      using start fresh_channel [OF assms(1), of b e]
      by (auto simp: start_remove_eq Let_def remove_entry_def split: if_splits)
    then show "b = rl_agent_id l" "\<not> is_attaching e" by (auto simp: l)
  next
    show "length (mr_channels r) < length (mr_channels r')"
      using start by (auto simp: start_remove_eq Let_def remove_entry_def split: option.split)
  qed (use start inv in \<open>auto simp: start_remove_eq Let_def l remove_entry_def registry_inv_next\<close>)
qed

lemma reserve_lease:
  assumes "registry_inv r" "l \<in> started_attach res"
    and "reserve_attach a retry r = (res, r') \<or> reserve_repair a r = (res, r')"
  shows "attach_lease_ok r' l"
proof (rule start_attach_lease [OF assms(1) _ assms(2)])
  show "start_attach a r = (res, r')"
    using assms(2,3)
    by (auto simp: reserve_attach_def reserve_repair_def started_attach_def
        split: if_splits option.splits member_entry.splits reserve_result.splits)
qed

lemma member_inv_registry:
  assumes "member_inv w" "registry_inv r'" "registry_evolves (mw_registry w) r'"
    and "\<And>l. l \<in> ls \<Longrightarrow> l \<notin> mw_attach_leases w \<Longrightarrow> attach_lease_ok r' l"
    and "\<And>l. l \<in> rls \<Longrightarrow> l \<notin> mw_remove_leases w \<Longrightarrow> remove_lease_ok r' l"
  shows "member_inv (w\<lparr>mw_registry := r', mw_attach_leases := ls, mw_remove_leases := rls\<rparr>)"
proof -
  have "attach_lease_ok r' l" if "l \<in> ls" for l
    using assms(1,4) that attach_lease_evolves [OF assms(3), of l]
    by (cases "l \<in> mw_attach_leases w") (auto simp: member_inv_def)
  moreover have "remove_lease_ok r' l" if "l \<in> rls" for l
    using assms(1,5) that remove_lease_evolves [OF assms(3), of l]
    by (cases "l \<in> mw_remove_leases w") (auto simp: member_inv_def)
  ultimately show ?thesis using assms(2) by (simp add: member_inv_def)
qed

lemma member_step_inv:
  assumes "member_step w w'" "member_inv w"
  shows "member_inv w' \<and> registry_evolves (mw_registry w) (mw_registry w')"
  using assms
proof (induction rule: member_step.induct)
  case (step_reserve a retry w res r')
  then have "registry_inv (mw_registry w)" by (simp add: member_inv_def)
  note ch = reserve_attach_change [OF this, of a retry, unfolded step_reserve]
  show ?case
    using ch member_inv_registry [OF step_reserve(2), of r' "started_attach res \<union> mw_attach_leases w" "mw_remove_leases w"]
      reserve_lease [OF \<open>registry_inv (mw_registry w)\<close> _ disjI1 [OF step_reserve(1)]] by auto
next
  case (step_repair a w res r')
  then have "registry_inv (mw_registry w)" by (simp add: member_inv_def)
  note ch = reserve_repair_change [OF this, of a, unfolded step_repair]
  show ?case
    using ch member_inv_registry [OF step_repair(2), of r' "started_attach res \<union> mw_attach_leases w" "mw_remove_leases w"]
      reserve_lease [OF \<open>registry_inv (mw_registry w)\<close> _ disjI2 [OF step_repair(1)]] by auto
next
  case (step_begin_remove a w res r')
  then have "registry_inv (mw_registry w)" by (simp add: member_inv_def)
  note ch = begin_remove_change [OF this, of a, unfolded step_begin_remove]
  show ?case
    using ch member_inv_registry [OF step_begin_remove(2), of r' "mw_attach_leases w" "started_remove res \<union> mw_remove_leases w"]
      begin_remove_lease [OF \<open>registry_inv (mw_registry w)\<close> step_begin_remove(1)] by auto
next
  case (step_ready l w b r')
  then have "registry_inv (mw_registry w)" by (simp add: member_inv_def)
  note ch = commit_ready_change [OF this, of l, unfolded step_ready]
  show ?case
    using ch member_inv_registry [OF step_ready(3), of r' "mw_attach_leases w" "mw_remove_leases w"] by auto
next
  case (step_failed l w f b r')
  then have "registry_inv (mw_registry w)" by (simp add: member_inv_def)
  note ch = commit_failed_change [OF this, of l f, unfolded step_failed]
  show ?case
    using ch member_inv_registry [OF step_failed(3), of r' "mw_attach_leases w" "mw_remove_leases w"] by auto
next
  case (step_finish l w b r')
  then have "registry_inv (mw_registry w)" by (simp add: member_inv_def)
  note ch = finish_remove_change [OF this, of l, unfolded step_finish]
  show ?case
    using ch member_inv_registry [OF step_finish(3), of r' "mw_attach_leases w" "mw_remove_leases w"] by auto
next
  case (step_restore l w f b r')
  then have "registry_inv (mw_registry w)" by (simp add: member_inv_def)
  note ch = restore_attach_required_change [OF this, of l f, unfolded step_restore]
  show ?case
    using ch member_inv_registry [OF step_restore(3), of r' "mw_attach_leases w" "mw_remove_leases w"] by auto
next
  case (step_drop ls w rls)
  then show ?case by (auto simp: member_inv_def)
next
  case (step_stop w b r')
  then have "registry_inv (mw_registry w)" by (simp add: member_inv_def)
  note ch = registry_stop_spec(3,4) [OF this, unfolded step_stop]
  show ?case
    using ch member_inv_registry [OF step_stop(2), of r' "mw_attach_leases w" "mw_remove_leases w"] by auto
qed

lemma member_steps_inv:
  assumes "member_step\<^sup>*\<^sup>* w w'" "member_inv w"
  shows "member_inv w' \<and> registry_evolves (mw_registry w) (mw_registry w')"
  using assms
proof (induction rule: rtranclp_induct)
  case (step v w')
  then show ?case using member_step_inv [of v w'] registry_evolves_trans by blast
qed simp

lemma member_reachable_inv: "member_reachable w \<Longrightarrow> member_inv w"
  unfolding member_reachable_def using member_steps_inv
  by (force simp: member_inv_def member_world_new_def registry_new_inv)

end
