(* ===== verification/Member_Protocol.thy ===== *)
theory Member_Protocol
  imports Member_Invariant
begin

text \<open>
  The contract of a lease, as a locale: whoever holds one either still owns its operation, and
  then nobody has been told an outcome, or the outcome is decided for good. The attach task
  and the waiters rely on no more than this; the registry provides it.
\<close>

locale lease_protocol =
  fixes step :: "'w \<Rightarrow> 'w \<Rightarrow> bool"
    and valid :: "'l \<Rightarrow> 'w \<Rightarrow> bool"
    and owns :: "'l \<Rightarrow> 'w \<Rightarrow> bool"
    and outcome :: "'l \<Rightarrow> 'w \<Rightarrow> 'o option"
    and commit :: "'l \<Rightarrow> 'c \<Rightarrow> 'w \<Rightarrow> bool \<times> 'w"
    and settles :: "'c \<Rightarrow> 'o"
  assumes owns_iff: "valid l w \<Longrightarrow> owns l w \<longleftrightarrow> outcome l w = None"
    and commit_owner: "valid l w \<Longrightarrow> owns l w \<Longrightarrow> commit l c w = (b, w') \<Longrightarrow>
      b \<and> valid l w' \<and> outcome l w' = Some (settles c)"
    and commit_stale: "valid l w \<Longrightarrow> \<not> owns l w \<Longrightarrow> commit l c w = (False, w)"
    and final: "valid l w \<Longrightarrow> valid l w' \<Longrightarrow> step w w' \<Longrightarrow> outcome l w = Some out \<Longrightarrow>
      outcome l w' = Some out"
begin

lemma commit_decides:
  assumes "valid l w" "commit l c w = (b, w')"
  shows "valid l w'" "outcome l w' \<noteq> None" "b \<longleftrightarrow> outcome l w = None"
    "b \<Longrightarrow> outcome l w' = Some (settles c)" "\<not> b \<Longrightarrow> w' = w"
proof -
  have "valid l w' \<and> outcome l w' \<noteq> None \<and> (b \<longleftrightarrow> outcome l w = None) \<and>
      (b \<longrightarrow> outcome l w' = Some (settles c)) \<and> (\<not> b \<longrightarrow> w' = w)"
  proof (cases "owns l w")
    case True
    then show ?thesis using commit_owner [OF assms(1) True assms(2)] owns_iff [OF assms(1)] by auto
  next
    case False
    then show ?thesis using commit_stale [OF assms(1) False, of c] assms owns_iff [OF assms(1)] by auto
  qed
  then show "valid l w'" "outcome l w' \<noteq> None" "b \<longleftrightarrow> outcome l w = None"
    "b \<Longrightarrow> outcome l w' = Some (settles c)" "\<not> b \<Longrightarrow> w' = w" by auto
qed

text \<open>An operation is committed at most once, and a lost lease is lost for good.\<close>

lemma commit_once:
  assumes "valid l w" "commit l c w = (b, w1)" "step w1 w2" "valid l w2"
  shows "commit l c' w2 = (False, w2)" "\<not> owns l w2" "outcome l w2 = outcome l w1"
proof -
  obtain out where "outcome l w1 = Some out" using commit_decides(2) [OF assms(1,2)] by auto
  then have out: "outcome l w2 = Some out" "outcome l w1 = Some out"
    using final [OF commit_decides(1) [OF assms(1,2)] assms(4,3)] by auto
  then show "\<not> owns l w2" "outcome l w2 = outcome l w1" using owns_iff [OF assms(4)] by auto
  then show "commit l c' w2 = (False, w2)" using commit_stale [OF assms(4)] by simp
qed

lemma lost_for_good:
  assumes "valid l w" "\<not> owns l w" "step w w'" "valid l w'"
  shows "\<not> owns l w'" "outcome l w' = outcome l w"
  using assms owns_iff [OF assms(1)] owns_iff [OF assms(4)] final [OF assms(1,4,3)] by auto

end


subsection \<open>The registry's leases\<close>

text \<open>A lease is usable while the identifiers of the counter have not come round.\<close>

definition lease_valid :: "attach_lease \<Rightarrow> member_world \<Rightarrow> bool" where
  "lease_valid l w \<longleftrightarrow> member_inv w \<and> attach_lease_ok (mw_registry w) l \<and>
     length (mr_channels (mw_registry w)) < 2 ^ 64"

definition lease_owns :: "attach_lease \<Rightarrow> member_world \<Rightarrow> bool" where
  "lease_owns l w = owns_attach l (mw_registry w)"

definition lease_outcome :: "attach_lease \<Rightarrow> member_world \<Rightarrow> attach_outcome option" where
  "lease_outcome l w = wait_outcome (al_waiter l) (mw_registry w)"

definition commit_attach ::
  "attach_lease \<Rightarrow> member_runtime_failure option \<Rightarrow> member_registry \<Rightarrow> bool \<times> member_registry" where
  "commit_attach l c r = (case c of None \<Rightarrow> commit_ready l r | Some failure \<Rightarrow> commit_failed l failure r)"

definition lease_commit ::
  "attach_lease \<Rightarrow> member_runtime_failure option \<Rightarrow> member_world \<Rightarrow> bool \<times> member_world" where
  "lease_commit l c w =
     (let (b, r) = commit_attach l c (mw_registry w) in (b, w\<lparr>mw_registry := r\<rparr>))"

definition lease_settles :: "member_runtime_failure option \<Rightarrow> attach_outcome" where
  "lease_settles c = (case c of None \<Rightarrow> OutcomeReady | Some failure \<Rightarrow> OutcomeFailed failure)"

lemma waiter_simps [simp]:
  "aw_operation_id (waiter op ch) = op" "aw_outcome_rx (waiter op ch) = ch"
  by (simp_all add: waiter_def)

lemma sender_alive_iff:
  "registry_inv r \<Longrightarrow> sender_alive ch r \<longleftrightarrow>
     (\<exists>a e. map_of (mr_entries r) a = Some e \<and> entry_channel e = Some ch)"
  unfolding sender_alive_def list_ex_iff Bex_def
  using hm_values_iff [OF registry_inv_keys] by blast

text \<open>A channel of a live registry is never closed before its outcome is sent.\<close>

lemma wait_outcome_eq:
  assumes "registry_inv r" "aw_outcome_rx w < length (mr_channels r)"
  shows "wait_outcome w r = (case mr_channels r ! aw_outcome_rx w of
    SigTerminal out \<Rightarrow> Some out | SigPending \<Rightarrow> None)"
proof -
  have "sender_alive (aw_outcome_rx w) r" if "mr_channels r ! aw_outcome_rx w = SigPending"
    unfolding sender_alive_iff [OF assms(1)] using assms that unfolding registry_inv_def by blast
  then show ?thesis by (auto simp: wait_outcome_def split: attach_signal.split)
qed

lemma owns_attach_entry:
  "owns_attach l r \<longleftrightarrow> al_session_generation l = mr_session_generation r \<and> \<not> mr_stopped r \<and>
     (\<exists>ch. map_of (mr_entries r) (al_agent_id l) = Some (EntryAttaching (al_operation_id l) ch))"
  by (auto simp: owns_attach_def owns_attach_racing_def split: option.split member_entry.split)

text \<open>An owned lease owns the channel its waiters look at.\<close>

lemma attach_channel:
  assumes "registry_inv r" "attach_lease_ok r l" "length (mr_channels r) < 2 ^ 64"
    and "map_of (mr_entries r) (al_agent_id l) = Some (EntryAttaching (al_operation_id l) ch)"
  shows "al_waiter l = waiter (al_operation_id l) ch" "ch < length (mr_channels r)"
    "mr_channels r ! ch = SigPending"
proof -
  have ch: "ch < length (mr_channels r)" "al_operation_id l = channel_operation ch"
    "mr_channels r ! ch = SigPending"
    using registry_inv_entry [OF assms(1,4)] by (simp_all add: entry_ok_def)
  obtain c where c: "c < length (mr_channels r)" "al_waiter l = waiter (channel_operation c) c"
    using assms(2) unfolding attach_lease_ok_def by blast
  then have "c = ch"
    using channel_operation_inj [of c ch] ch assms(3) by (simp add: al_operation_id_def)
  then show "al_waiter l = waiter (al_operation_id l) ch" using c by (simp add: al_operation_id_def)
  show "ch < length (mr_channels r)" "mr_channels r ! ch = SigPending" by fact+
qed

lemma owns_iff_pending:
  assumes inv: "registry_inv r" and l: "attach_lease_ok r l" and len: "length (mr_channels r) < 2 ^ 64"
  shows "owns_attach l r \<longleftrightarrow> wait_outcome (al_waiter l) r = None"
proof
  assume "owns_attach l r"
  then show "wait_outcome (al_waiter l) r = None"
    using attach_channel [OF inv l len] inv
    by (auto simp: owns_attach_entry wait_outcome_eq)
next
  assume none: "wait_outcome (al_waiter l) r = None"
  obtain c where c: "c < length (mr_channels r)" "al_waiter l = waiter (channel_operation c) c"
    and held: "\<And>a e. map_of (mr_entries r) a = Some e \<Longrightarrow> entry_channel e = Some c \<Longrightarrow>
      a = al_agent_id l \<and> \<not> is_removing e"
    using l unfolding attach_lease_ok_def by blast
  have pend: "mr_channels r ! c = SigPending"
    using none inv c by (simp add: wait_outcome_eq split: attach_signal.splits)
  then obtain a e where e: "map_of (mr_entries r) a = Some e" "entry_channel e = Some c"
    using inv c(1) unfolding registry_inv_def by blast
  then have "entry_signal e = SigPending" "entry_operation e = Some (channel_operation c)"
    using registry_inv_entry [OF inv e(1)] pend by (simp_all add: entry_ok_def)
  then have "e = EntryAttaching (channel_operation c) c"
    using held [OF e] e(2) by (cases e) auto
  moreover have "\<not> mr_stopped r" using inv e(1) by (auto simp: registry_inv_def)
  ultimately show "owns_attach l r"
    using held [OF e] e(1) c(2) l by (auto simp: owns_attach_entry al_operation_id_def attach_lease_ok_def)
qed

lemma commit_attach_stale: "\<not> owns_attach l r \<Longrightarrow> commit_attach l c r = (False, r)"
  by (auto simp: owns_attach_entry commit_attach_def commit_ready_def commit_failed_def
      split: option.split member_entry.split)

lemma commit_attach_change:
  "registry_inv r \<Longrightarrow> registry_inv (snd (commit_attach l c r)) \<and> registry_evolves r (snd (commit_attach l c r))"
  by (simp add: commit_attach_def commit_ready_change commit_failed_change split: option.split)

lemma commit_attach_owner:
  assumes "owns_attach l r" "map_of (mr_entries r) (al_agent_id l) = Some (EntryAttaching (al_operation_id l) ch)"
  shows "commit_attach l c r = (True, send_replace ch (SigTerminal (lease_settles c))
    (insert_entry (al_agent_id l) (case c of None \<Rightarrow> EntryReady
      | Some failure \<Rightarrow> EntryFailed (al_operation_id l) failure ch) r))"
  using assms by (simp add: owns_attach_entry commit_attach_def commit_ready_def commit_failed_def
      lease_settles_def split: option.split)

lemma lease_commit_valid:
  assumes "lease_valid l w" "lease_commit l c w = (b, w')"
  shows "lease_valid l w'" "registry_evolves (mw_registry w) (mw_registry w')"
proof -
  let ?r' = "snd (commit_attach l c (mw_registry w))"
  have w': "w' = w\<lparr>mw_registry := ?r'\<rparr>" using assms(2) by (auto simp: lease_commit_def split: prod.splits)
  have inv: "registry_inv (mw_registry w)" using assms(1) by (simp add: lease_valid_def member_inv_def)
  note ch = commit_attach_change [OF inv, of l c]
  show "registry_evolves (mw_registry w) (mw_registry w')" using ch by (simp add: w')
  moreover have "length (mr_channels ?r') = length (mr_channels (mw_registry w))"
    by (auto simp: commit_attach_def commit_ready_def commit_failed_def send_replace_def insert_entry_def
        split: option.split member_entry.split)
  ultimately show "lease_valid l w'"
    using assms(1) ch member_inv_registry [of w ?r' "mw_attach_leases w" "mw_remove_leases w"]
      attach_lease_evolves [of "mw_registry w" ?r' l]
    by (auto simp: lease_valid_def w')
qed

interpretation member_leases: lease_protocol "member_step\<^sup>*\<^sup>*" lease_valid lease_owns lease_outcome
  lease_commit lease_settles
proof
  fix l w
  assume "lease_valid l w"
  then show "lease_owns l w \<longleftrightarrow> lease_outcome l w = None"
    by (auto simp: lease_valid_def member_inv_def lease_owns_def lease_outcome_def owns_iff_pending)
next
  fix l w c b w'
  assume v: "lease_valid l w" and o: "lease_owns l w" and c: "lease_commit l c w = (b, w')"
  let ?r = "mw_registry w"
  have inv: "registry_inv ?r" "attach_lease_ok ?r l" "length (mr_channels ?r) < 2 ^ 64"
    using v by (auto simp: lease_valid_def member_inv_def)
  obtain ch where ch: "map_of (mr_entries ?r) (al_agent_id l) = Some (EntryAttaching (al_operation_id l) ch)"
    using o by (auto simp: lease_owns_def owns_attach_entry)
  note at = attach_channel [OF inv ch]
  show "b \<and> lease_valid l w' \<and> lease_outcome l w' = Some (lease_settles c)"
    using c lease_commit_valid(1) [OF v c] at
    by (auto simp: lease_commit_def commit_attach_owner [OF o [unfolded lease_owns_def] ch]
        lease_outcome_def wait_outcome_def send_replace_def insert_entry_def)
next
  fix l w c
  assume "\<not> lease_owns l w"
  then show "lease_commit l c w = (False, w)"
    by (simp add: lease_owns_def lease_commit_def commit_attach_stale)
next
  fix l w w' out
  assume v: "lease_valid l w" "lease_valid l w'" and st: "member_step\<^sup>*\<^sup>* w w'"
    and out: "lease_outcome l w = Some out"
  obtain c where c: "c < length (mr_channels (mw_registry w))" "al_waiter l = waiter (channel_operation c) c"
    using v(1) unfolding lease_valid_def attach_lease_ok_def by blast
  have ev: "registry_evolves (mw_registry w) (mw_registry w')"
    using member_steps_inv [OF st] v(1) by (simp add: lease_valid_def)
  have c': "c < length (mr_channels (mw_registry w'))"
    using ev c(1) by (simp add: registry_evolves_def)
  have "mr_channels (mw_registry w) ! c = SigTerminal out"
    using out c v(1) by (simp add: lease_outcome_def wait_outcome_eq lease_valid_def member_inv_def
        split: attach_signal.splits)
  then have "mr_channels (mw_registry w') ! c = SigTerminal out"
    using ev c(1) by (simp add: registry_evolves_def)
  then show "lease_outcome l w' = Some out"
    using c' c(2) v(2) by (simp add: lease_outcome_def wait_outcome_eq lease_valid_def member_inv_def)
qed

end
