(* ===== verification/Member_Session.thy ===== *)
theory Member_Session
  imports Member_Protocol Work_Control_Invariant
begin

text \<open>
  What a team session does with the registry: the task that attaches a member's runtime and the
  removal of a member (\<open>attach_member_runtime\<close> and \<open>TeamSession::remove_agent\<close> in
  \<open>crates/aionui-team/src/session.rs\<close>), together with the work coordinator and the
  event-loop registry (\<open>event_loop.rs\<close>) they drive.

  Between two awaits or two locks a task makes one step; the results of the calls that leave
  the session (starting the process, the mailbox, the scheduler, the service that publishes the
  session) are inputs of the step. Broadcasts, the display status of the agents, the cleanup of
  processes and the notification of the leader are not part of this state.
\<close>

subsection \<open>Event loops\<close>

text \<open>A notifier holds at most one permit, as \<open>tokio::sync::Notify\<close> does.\<close>

record loop_registry =
  lr_notifiers :: "(id, bool) hash_map"
  lr_stopped :: bool

datatype registration_error = Duplicate | Stopped

definition loops_has :: "id \<Rightarrow> loop_registry \<Rightarrow> bool" where
  "loops_has s lr = (map_of (lr_notifiers lr) s \<noteq> None)"

definition loops_notify :: "id \<Rightarrow> loop_registry \<Rightarrow> loop_registry" where
  "loops_notify s lr = lr\<lparr>lr_notifiers := hm_modify s (\<lambda>_. True) (lr_notifiers lr)\<rparr>"

definition loops_spawn :: "id \<Rightarrow> loop_registry \<Rightarrow> (registration_error + unit) \<times> loop_registry" where
  "loops_spawn s lr =
     (if lr_stopped lr then (Inl Stopped, lr)
      else if loops_has s lr then (Inl Duplicate, lr)
      else (Inr (), lr\<lparr>lr_notifiers := hm_insert s False (lr_notifiers lr)\<rparr>))"

definition loops_remove :: "id \<Rightarrow> loop_registry \<Rightarrow> loop_registry" where
  "loops_remove s lr = lr\<lparr>lr_notifiers := hm_remove s (lr_notifiers lr)\<rparr>"

definition loops_shutdown :: "loop_registry \<Rightarrow> loop_registry" where
  "loops_shutdown lr = (if lr_stopped lr then lr else lr\<lparr>lr_stopped := True, lr_notifiers := []\<rparr>)"

definition register_event_loop :: "id \<Rightarrow> loop_registry \<Rightarrow> (registration_error + bool) \<times> loop_registry" where
  "register_event_loop s lr =
     (case loops_spawn s lr of
        (Inr _, lr') \<Rightarrow> (Inr True, lr')
      | (Inl Duplicate, lr') \<Rightarrow> (Inr False, lr')
      | (Inl err, lr') \<Rightarrow> (Inl err, lr'))"


subsection \<open>The session\<close>

record 'p team_session =
  ts_members :: member_world
  ts_work :: "'p slot_work_coordinator"
  ts_loops :: loop_registry

definition update_registry :: "member_registry \<Rightarrow> 'p team_session \<Rightarrow> 'p team_session" where
  "update_registry r s = s\<lparr>ts_members := (ts_members s)\<lparr>mw_registry := r\<rparr>\<rparr>"

definition constrain :: "'p run_causality_port \<Rightarrow> env \<Rightarrow> id \<Rightarrow> runtime_constraint \<Rightarrow> 'p team_session \<Rightarrow>
    'p team_session may_panic" where
  "constrain P e slot con s =
     map_option (\<lambda>(_, c). s\<lparr>ts_work := c\<rparr>) (set_runtime_constraint P e slot con (ts_work s))"

fun sanitize_member_runtime_failure :: "team_error \<Rightarrow> member_runtime_failure" where
  "sanitize_member_runtime_failure (DatabaseError _) =
     \<lparr>mf_classification = ''runtime_configuration_failed'', mf_public_reason = ''Agent runtime failed to start''\<rparr>"
| "sanitize_member_runtime_failure (SessionNotFound _) =
     \<lparr>mf_classification = ''session_stopped'', mf_public_reason = ''Agent runtime failed to start''\<rparr>"
| "sanitize_member_runtime_failure _ =
     \<lparr>mf_classification = ''runtime_start_failed'', mf_public_reason = ''Agent runtime failed to start''\<rparr>"

definition registration_failure :: member_runtime_failure where
  "registration_failure =
     \<lparr>mf_classification = ''event_loop_registration_failed'',
      mf_public_reason = ''Agent runtime event loop could not be registered''\<rparr>"


subsection \<open>The attach task\<close>

datatype attach_phase =
  TaskStarting
| TaskRuntime
| TaskFailed member_runtime_failure
| TaskAttached
| TaskRegister
| TaskCommit bool
| TaskReady bool
| TaskPublish bool
| TaskAwait
| TaskReturned attach_outcome

text \<open>The inputs of the step: what starting the process gave, and whether the service still
  publishes this session.\<close>

record attach_inputs =
  ai_attach :: "team_error option"
  ai_published :: bool

definition withdraw_loop :: "bool \<Rightarrow> id \<Rightarrow> 'p team_session \<Rightarrow> 'p team_session" where
  "withdraw_loop registered slot s = (if registered then s\<lparr>ts_loops := loops_remove slot (ts_loops s)\<rparr> else s)"

fun attach_task_step ::
  "'p run_causality_port \<Rightarrow> env \<Rightarrow> attach_inputs \<Rightarrow> attach_lease \<Rightarrow> attach_phase \<Rightarrow> 'p team_session \<Rightarrow>
   (attach_phase \<times> 'p team_session) may_panic" where
  "attach_task_step P e x l TaskStarting s =
     map_option (Pair TaskRuntime) (constrain P e (al_agent_id l) (RcStarting (al_operation_id l)) s)"
| "attach_task_step P e x l TaskRuntime s =
     (case ai_attach x of
        None \<Rightarrow> Some (TaskAttached, s)
      | Some err \<Rightarrow>
          (let failure = sanitize_member_runtime_failure err;
               (committed, r) = commit_failed l failure (mw_registry (ts_members s))
           in Some (if committed then TaskFailed failure else TaskAwait, update_registry r s)))"
| "attach_task_step P e x l (TaskFailed failure) s =
     map_option (Pair TaskAwait)
       (constrain P e (al_agent_id l) (RcFailed (al_operation_id l) (mf_classification failure)) s)"
| "attach_task_step P e x l TaskAttached s =
     Some (if owns_attach l (mw_registry (ts_members s)) then TaskRegister else TaskAwait, s)"
| "attach_task_step P e x l TaskRegister s =
     (if loops_has (al_agent_id l) (ts_loops s) then Some (TaskCommit False, s)
      else case register_event_loop (al_agent_id l) (ts_loops s) of
        (Inr registered, loops) \<Rightarrow> Some (TaskCommit registered, s\<lparr>ts_loops := loops\<rparr>)
      | (Inl _, loops) \<Rightarrow>
          Some (TaskFailed registration_failure,
            update_registry (snd (commit_failed l registration_failure (mw_registry (ts_members s))))
              (s\<lparr>ts_loops := loops\<rparr>)))"
| "attach_task_step P e x l (TaskCommit registered) s =
     (case commit_ready l (mw_registry (ts_members s)) of
        (True, r) \<Rightarrow> Some (TaskReady registered, update_registry r s)
      | (False, r) \<Rightarrow> Some (TaskAwait, withdraw_loop registered (al_agent_id l) (update_registry r s)))"
| "attach_task_step P e x l (TaskReady registered) s =
     map_option (\<lambda>s. (TaskPublish registered, s\<lparr>ts_loops := loops_notify (al_agent_id l) (ts_loops s)\<rparr>))
       (constrain P e (al_agent_id l) RcReady s)"
| "attach_task_step P e x l (TaskPublish registered) s =
     (if ai_published x then Some (TaskReturned OutcomeReady, s)
      else Some (TaskReturned OutcomeSessionStopped, withdraw_loop registered (al_agent_id l) s))"
| "attach_task_step P e x l TaskAwait s =
     Some (case wait_outcome (al_waiter l) (mw_registry (ts_members s)) of
        None \<Rightarrow> TaskAwait | Some out \<Rightarrow> TaskReturned out, s)"
| "attach_task_step P e x l (TaskReturned out) s = Some (TaskReturned out, s)"

text \<open>
  The task among the other tasks of the session: between its steps the registry takes any steps
  of its own, the coordinator and the event loops change as they may.
\<close>

inductive attach_run ::
  "'p run_causality_port \<Rightarrow> attach_lease \<Rightarrow> attach_phase \<times> 'p team_session \<Rightarrow>
   attach_phase \<times> 'p team_session \<Rightarrow> bool" for P l where
  own_step: "attach_task_step P e x l ph s = Some (ph', s') \<Longrightarrow> attach_run P l (ph, s) (ph', s')"
| member_steps: "member_step (ts_members s) m \<Longrightarrow> attach_run P l (ph, s) (ph, s\<lparr>ts_members := m\<rparr>)"
| work_steps: "coord_inv (co_session_generation c) (co_state c) \<Longrightarrow> attach_run P l (ph, s) (ph, s\<lparr>ts_work := c\<rparr>)"
| loop_steps: "attach_run P l (ph, s) (ph, s\<lparr>ts_loops := loops\<rparr>)"

inductive_cases attach_run_cases: "attach_run P l c c'"


text \<open>The task alone, \<open>n\<close> steps long.\<close>

fun attach_task_exec ::
  "'p run_causality_port \<Rightarrow> env \<Rightarrow> attach_inputs \<Rightarrow> attach_lease \<Rightarrow> nat \<Rightarrow>
   attach_phase \<times> 'p team_session \<Rightarrow> (attach_phase \<times> 'p team_session) may_panic" where
  "attach_task_exec P e x l 0 c = Some c"
| "attach_task_exec P e x l (Suc n) c =
     Option.bind (attach_task_step P e x l (fst c) (snd c)) (attach_task_exec P e x l n)"


subsection \<open>Removing a member\<close>

datatype removal_phase =
  RemovalWaits attach_waiter
| RemovalStarted begin_remove_result remove_work_result
| RemovalFinished "team_error option"

text \<open>The first part takes the lease, constrains the slot and cancels its work; the second
  follows the calls that leave the session, each of which may return an error early.\<close>

definition remove_agent_begin ::
  "'p run_causality_port \<Rightarrow> env \<Rightarrow> id \<Rightarrow> 'p team_session \<Rightarrow> (removal_phase \<times> 'p team_session) may_panic" where
  "remove_agent_begin P e slot s =
     (case begin_remove slot (mw_registry (ts_members s)) of
        (RemoveJoin w, r) \<Rightarrow> Some (RemovalWaits w, update_registry r s)
      | (removal, r) \<Rightarrow>
          (let s = update_registry r s in
           case (case removal of
                   RemoveStart lease \<Rightarrow> constrain P e slot (RcRemoving (rl_operation_id lease)) s
                 | _ \<Rightarrow> Some s) of
             None \<Rightarrow> None
           | Some s \<Rightarrow>
               map_option (\<lambda>(work, c). (RemovalStarted removal work, s\<lparr>ts_work := c\<rparr>))
                 (remove_slot P e slot (ts_work s))))"

record removal_inputs =
  ri_mark_read :: "team_error option"
  ri_get_agent :: "team_error option"
  ri_remove_agent :: "team_error option"

definition remove_agent_finish ::
  "removal_inputs \<Rightarrow> id \<Rightarrow> begin_remove_result \<Rightarrow> remove_work_result \<Rightarrow> 'p team_session \<Rightarrow>
   removal_phase \<times> 'p team_session" where
  "remove_agent_finish x slot removal work s =
     (if rw_terminal_message_ids work \<noteq> [] \<and> ri_mark_read x \<noteq> None
      then (RemovalFinished (ri_mark_read x), s)
      else if (case rw_cancel_target work of
                 Some target \<Rightarrow> bc_turn_id target \<noteq> None \<and> ri_get_agent x \<noteq> None
               | None \<Rightarrow> False)
      then (RemovalFinished (ri_get_agent x), s)
      else
        (let s = s\<lparr>ts_loops := loops_remove slot (ts_loops s)\<rparr> in
         if ri_remove_agent x \<noteq> None then (RemovalFinished (ri_remove_agent x), s)
         else case removal of
           RemoveStart lease \<Rightarrow>
             (RemovalFinished None, update_registry (snd (finish_remove lease (mw_registry (ts_members s)))) s)
         | _ \<Rightarrow> (RemovalFinished None, s)))"



subsection \<open>The invariant of the attach task\<close>

fun phase_decided :: "attach_phase \<Rightarrow> attach_outcome option \<Rightarrow> bool" where
  "phase_decided (TaskFailed _) out = (out \<noteq> None)"
| "phase_decided (TaskReady _) out = (out = Some OutcomeReady)"
| "phase_decided (TaskPublish _) out = (out = Some OutcomeReady)"
| "phase_decided TaskAwait out = (out \<noteq> None)"
| "phase_decided (TaskReturned res) out = (res = OutcomeSessionStopped \<or> out = Some res)"
| "phase_decided _ out = True"

definition session_coord_inv :: "'p team_session \<Rightarrow> bool" where
  "session_coord_inv s \<longleftrightarrow> coord_inv (co_session_generation (ts_work s)) (co_state (ts_work s))"

definition task_inv :: "attach_lease \<Rightarrow> attach_phase \<times> 'p team_session \<Rightarrow> bool" where
  "task_inv l c \<longleftrightarrow> lease_valid l (ts_members (snd c)) \<and> session_coord_inv (snd c) \<and>
     phase_decided (fst c) (lease_outcome l (ts_members (snd c)))"

lemma constrain_ok:
  assumes "session_coord_inv s"
  obtains c where "constrain P e slot con s = Some (s\<lparr>ts_work := c\<rparr>)" "coord_inv (co_session_generation c) (co_state c)"
proof (rule set_runtime_constraint_locked_spec [OF assms [unfolded session_coord_inv_def], of slot con])
  fix ms rs st
  assume st: "set_runtime_constraint_locked slot con (co_state (ts_work s)) = Some (ms, rs, st)"
    and inv: "coord_inv (co_session_generation (ts_work s)) st"
    and "\<exists>sl. slot_of st slot = Some sl \<and> sl_runtime_constraint sl = con \<and>
       (terminal_classification con \<noteq> None \<longrightarrow> sl_active sl = None)"
  then obtain sn where sn: "slot_snapshot_locked st slot = Some sn"
    by (auto simp: slot_snapshot_locked_def)
  let ?c = "release_and_publish P e (map (run_summary_locked st) rs) (Some sn) st (ts_work s)"
  have "constrain P e slot con s = Some (s\<lparr>ts_work := ?c\<rparr>)"
    by (simp add: constrain_def set_runtime_constraint_def st sn Let_def)
  moreover have "coord_inv (co_session_generation ?c) (co_state ?c)"
    using inv by (simp add: release_and_publish_def)
  ultimately show thesis by (rule that)
qed

lemma lease_outcome_work [simp]:
  "ts_members (s\<lparr>ts_work := c\<rparr>) = ts_members s" "ts_members (s\<lparr>ts_loops := lr\<rparr>) = ts_members s"
  "ts_members (withdraw_loop b slot s) = ts_members s" "ts_work (withdraw_loop b slot s) = ts_work s"
  by (simp_all add: withdraw_loop_def)

lemma update_registry_simps [simp]:
  "ts_members (update_registry r s) = (ts_members s)\<lparr>mw_registry := r\<rparr>"
  "ts_work (update_registry r s) = ts_work s" "ts_loops (update_registry r s) = ts_loops s"
  by (simp_all add: update_registry_def)

lemma commit_in_task:
  assumes v: "lease_valid l m" and c: "commit_attach l c (mw_registry m) = (b, r)"
  shows "lease_valid l (m\<lparr>mw_registry := r\<rparr>)" "lease_outcome l (m\<lparr>mw_registry := r\<rparr>) \<noteq> None"
    "b \<Longrightarrow> lease_outcome l (m\<lparr>mw_registry := r\<rparr>) = Some (lease_settles c)"
proof -
  have "lease_commit l c m = (b, m\<lparr>mw_registry := r\<rparr>)" using c by (simp add: lease_commit_def)
  from member_leases.commit_decides [OF v this]
  show "lease_valid l (m\<lparr>mw_registry := r\<rparr>)" "lease_outcome l (m\<lparr>mw_registry := r\<rparr>) \<noteq> None"
    "b \<Longrightarrow> lease_outcome l (m\<lparr>mw_registry := r\<rparr>) = Some (lease_settles c)" by auto
qed

text \<open>No step of the task panics, and each leads to a state of the invariant.\<close>

lemma attach_task_step_inv:
  assumes inv: "task_inv l (ph, s)"
  obtains c where "attach_task_step P e x l ph s = Some c" "task_inv l c"
    "mw_attach_leases (ts_members (snd c)) = mw_attach_leases (ts_members s)"
proof -
  have v: "lease_valid l (ts_members s)" and co: "session_coord_inv s"
    and ph: "phase_decided ph (lease_outcome l (ts_members s))"
    using inv by (simp_all add: task_inv_def)
  note ready = commit_in_task [OF v, of None, unfolded commit_attach_def option.case lease_settles_def]
  note failed = commit_in_task [OF v, of "Some f" for f, unfolded commit_attach_def option.case lease_settles_def]
  note defs = task_inv_def session_coord_inv_def
  obtain c where c: "attach_task_step P e x l ph s = Some c" "task_inv l c \<and>
    mw_attach_leases (ts_members (snd c)) = mw_attach_leases (ts_members s)"
  proof (cases ph)
    case TaskStarting
    then show ?thesis
      using v
      by - (rule constrain_ok [OF co, of P e "al_agent_id l" "RcStarting (al_operation_id l)"], rule that, auto simp: defs)
  next
    case TaskRuntime
    show ?thesis
    proof (cases "ai_attach x")
      case None
      then show ?thesis using that TaskRuntime v co by (simp add: defs)
    next
      case (Some err)
      obtain b r where "commit_failed l (sanitize_member_runtime_failure err) (mw_registry (ts_members s)) = (b, r)"
        by fastforce
      then show ?thesis using that TaskRuntime Some failed co by (auto simp: defs)
    qed
  next
    case (TaskFailed f)
    then show ?thesis
      using v ph
      by - (rule constrain_ok [OF co, of P e "al_agent_id l" "RcFailed (al_operation_id l) (mf_classification f)"], rule that, auto simp: defs)
  next
    case TaskAttached
    then show ?thesis
      using that v co member_leases.owns_iff [OF v] by (auto simp: defs lease_owns_def)
  next
    case TaskRegister
    obtain b r where cf: "commit_failed l registration_failure (mw_registry (ts_members s)) = (b, r)" by fastforce
    show ?thesis
    proof (cases "loops_has (al_agent_id l) (ts_loops s)")
      case True
      then show ?thesis using that TaskRegister v co by (simp add: defs)
    next
      case False
      obtain res loops where "register_event_loop (al_agent_id l) (ts_loops s) = (res, loops)" by fastforce
      then show ?thesis
        using that TaskRegister False v co failed [OF cf] cf by (cases res) (auto simp: defs)
    qed
  next
    case (TaskCommit reg)
    obtain b r where "commit_ready l (mw_registry (ts_members s)) = (b, r)" by fastforce
    then show ?thesis using that TaskCommit ready co by (cases b) (auto simp: defs)
  next
    case (TaskReady reg)
    then show ?thesis
      using v ph
      by - (rule constrain_ok [OF co, of P e "al_agent_id l" RcReady], rule that, auto simp: defs)
  next
    case (TaskPublish reg)
    then show ?thesis using that v co ph by (cases "ai_published x") (auto simp: defs)
  next
    case TaskAwait
    then show ?thesis
      using that v co ph by (cases "lease_outcome l (ts_members s)") (auto simp: defs lease_outcome_def)
  next
    case (TaskReturned out)
    then show ?thesis using that v co ph by (simp add: defs)
  qed
  then show ?thesis using that by blast
qed

text \<open>The channels never get fewer, so a bound on their number held all along.\<close>

lemma commit_length [simp]:
  "length (mr_channels (snd (commit_ready l r))) = length (mr_channels r)"
  "length (mr_channels (snd (commit_failed l f r))) = length (mr_channels r)"
  by (auto simp: commit_ready_def commit_failed_def send_replace_def insert_entry_def
      split: option.split member_entry.split)

lemma member_step_length:
  assumes "member_step m m'"
  shows "length (mr_channels (mw_registry m)) \<le> length (mr_channels (mw_registry m'))"
  using assms
  by cases
    (auto simp: reserve_attach_def reserve_repair_def start_attach_eq start_remove_eq Let_def
      commit_ready_def commit_failed_def begin_remove_def finish_remove_def restore_attach_required_def
      registry_stop_def send_replace_def insert_entry_def remove_entry_def
      split: if_splits option.splits member_entry.splits)

lemma attach_task_step_length:
  assumes "attach_task_step P e x l ph s = Some c"
  shows "length (mr_channels (mw_registry (ts_members (snd c)))) = length (mr_channels (mw_registry (ts_members s)))"
proof -
  have r: "length (mr_channels r') = length (mr_channels r)" if "commit_ready l r = (b, r')" for b r r'
    using commit_length(1) [of l r] that by simp
  have f: "length (mr_channels r') = length (mr_channels r)" if "commit_failed l f r = (b, r')" for b f r r'
    using commit_length(2) [of l f r] that by simp
  show ?thesis
    using assms by (cases ph)
      (auto simp: constrain_def Let_def split: option.splits prod.splits sum.splits if_splits bool.splits dest: r f)
qed

lemma attach_run_inv:
  assumes "attach_run P l c c'" "task_inv l c"
    and len: "length (mr_channels (mw_registry (ts_members (snd c')))) < 2 ^ 64"
  shows "task_inv l c'"
  using assms(1)
proof cases
  case (own_step e x ph s ph' s')
  then show ?thesis
    using attach_task_step_inv [of l ph s P e x] assms(2) by (metis option.inject)
next
  case (member_steps s m ph)
  have v: "lease_valid l (ts_members s)" and dec: "phase_decided ph (lease_outcome l (ts_members s))"
    using assms(2) member_steps by (simp_all add: task_inv_def)
  have v': "lease_valid l m"
    using member_step_inv [OF member_steps(3)] v len member_steps(2) attach_lease_evolves
    by (auto simp: lease_valid_def)
  have "lease_outcome l m = lease_outcome l (ts_members s)" if "lease_outcome l (ts_members s) \<noteq> None"
    using that member_leases.final [OF v v' r_into_rtranclp [of member_step, OF member_steps(3)]] by auto
  then have "phase_decided ph (lease_outcome l m)" using dec by (cases ph) auto
  then show ?thesis
    using v' assms(2) member_steps by (simp add: task_inv_def session_coord_inv_def)
next
  case (work_steps c ph s)
  then show ?thesis using assms(2) by (simp add: task_inv_def session_coord_inv_def)
next
  case (loop_steps ph s loops)
  then show ?thesis using assms(2) by (simp add: task_inv_def session_coord_inv_def)
qed

lemma attach_run_length:
  "attach_run P l c c' \<Longrightarrow> length (mr_channels (mw_registry (ts_members (snd c)))) \<le>
     length (mr_channels (mw_registry (ts_members (snd c'))))"
  by (erule attach_run_cases) (auto dest: attach_task_step_length member_step_length)

lemma attach_runs_inv:
  assumes "(attach_run P l)\<^sup>*\<^sup>* c c'" "task_inv l c"
    and "length (mr_channels (mw_registry (ts_members (snd c')))) < 2 ^ 64"
  shows "task_inv l c'"
  using assms
proof (induction rule: rtranclp_induct)
  case (step d c')
  then show ?case using attach_run_inv attach_run_length by (meson order_le_less_trans)
qed simp

text \<open>Alone, the task returns after at most seven of its own steps.\<close>

fun phase_rank :: "attach_phase \<Rightarrow> nat" where
  "phase_rank TaskStarting = 7"
| "phase_rank TaskRuntime = 6"
| "phase_rank (TaskFailed _) = 2"
| "phase_rank TaskAttached = 5"
| "phase_rank TaskRegister = 4"
| "phase_rank (TaskCommit _) = 3"
| "phase_rank (TaskReady _) = 2"
| "phase_rank (TaskPublish _) = 1"
| "phase_rank TaskAwait = 1"
| "phase_rank (TaskReturned _) = 0"

lemma attach_task_step_rank:
  assumes "attach_task_step P e x l ph s = Some c" "task_inv l (ph, s)"
  shows "phase_rank (fst c) \<le> phase_rank ph - 1"
  using assms by (cases ph)
    (auto simp: Let_def task_inv_def lease_outcome_def split: option.splits prod.splits sum.splits if_splits bool.splits)

lemma attach_task_exec_returns:
  assumes "task_inv l c" "phase_rank (fst c) \<le> n"
  shows "\<exists>out s. attach_task_exec P e x l n c = Some (TaskReturned out, s) \<and> task_inv l (TaskReturned out, s)"
  using assms
proof (induction n arbitrary: c)
  case 0
  then show ?case by (cases c; cases "fst c") auto
next
  case (Suc n)
  obtain d where "attach_task_step P e x l (fst c) (snd c) = Some d" "task_inv l d"
    using Suc.prems(1) by - (rule attach_task_step_inv [of l "fst c" "snd c" P e x], auto)
  moreover from this have "phase_rank (fst d) \<le> n"
    using attach_task_step_rank [of P e x l "fst c" "snd c" d] Suc.prems by simp
  ultimately show ?case using Suc.IH [of d] by simp
qed


subsection \<open>A removal whose lease is gone\<close>

text \<open>
  Only its own lease ends a removal. While the registry runs, an entry that is being removed
  stays as long as nobody holds that lease.
\<close>

definition removal_pending :: "remove_lease \<Rightarrow> channel \<Rightarrow> member_world \<Rightarrow> bool" where
  "removal_pending rl ch w \<longleftrightarrow>
     map_of (mr_entries (mw_registry w)) (rl_agent_id rl) = Some (EntryRemoving (rl_operation_id rl) ch)"

lemma abandoned_removal_step:
  assumes "member_step w w'" "removal_pending rl ch w" "rl \<notin> mw_remove_leases w"
    and gen: "\<And>l. l \<in> mw_remove_leases w \<Longrightarrow> rl_session_generation l = rl_session_generation rl"
  shows "mr_stopped (mw_registry w') \<or> removal_pending rl ch w' \<and> rl \<notin> mw_remove_leases w'"
  using assms(1)
proof cases
  case (step_finish l b r')
  have "rl_agent_id l \<noteq> rl_agent_id rl \<or> rl_operation_id l \<noteq> rl_operation_id rl"
    using step_finish(2) assms(3) gen [of l] by (metis remove_lease.equality unit.exhaust)
  then show ?thesis
    using step_finish assms(2,3)
    by (auto simp: finish_remove_def removal_pending_def send_replace_def remove_entry_def
        split: if_splits option.splits member_entry.splits)
next
  case (step_restore l failure b r')
  have "rl_agent_id l \<noteq> rl_agent_id rl \<or> rl_operation_id l \<noteq> rl_operation_id rl"
    using step_restore(2) assms(3) gen [of l] by (metis remove_lease.equality unit.exhaust)
  then show ?thesis
    using step_restore assms(2,3)
    by (auto simp: restore_attach_required_def removal_pending_def send_replace_def insert_entry_def
        split: if_splits option.splits member_entry.splits)
next
  case (step_begin_remove a rres r')
  then show ?thesis
    using assms(2,3) by (cases "a = rl_agent_id rl")
      (auto simp: begin_remove_def removal_pending_def started_remove_def start_remove_eq Let_def remove_entry_def
        split: if_splits option.splits member_entry.splits)
qed (use assms(2,3) in \<open>auto simp: removal_pending_def reserve_attach_def reserve_repair_def start_attach_eq Let_def
    commit_ready_def commit_failed_def send_replace_def insert_entry_def registry_stop_def
    split: if_splits option.splits member_entry.splits\<close>)

end
