(* ===== verification/Member_Properties.thy ===== *)
theory Member_Properties
  imports Member_Session Team_Demo
begin

text \<open>
  The properties of the member runtimes: who owns an attach, what its waiters learn, what
  stopping and removing do to it, and what the attach task and the removal make of it.
\<close>

lemma reachable_lease_valid:
  "member_reachable w \<Longrightarrow> l \<in> mw_attach_leases w \<Longrightarrow> length (mr_channels (mw_registry w)) < 2 ^ 64 \<Longrightarrow>
   lease_valid l w"
  using member_reachable_inv [of w] by (auto simp: lease_valid_def member_inv_def)

lemma reachable_registry_inv: "member_reachable w \<Longrightarrow> registry_inv (mw_registry w)"
  using member_reachable_inv [of w] by (simp add: member_inv_def)

text \<open>A small execution: one member reserves an attach.\<close>

definition seat_lease :: attach_lease where
  "seat_lease = \<lparr>al_session_generation = ''g'', al_agent_id = ''s'', al_waiter = waiter 1 0\<rparr>"

definition seat_reserved :: member_registry where
  "seat_reserved = snd (reserve_attach ''s'' False (registry_new ''g''))"

definition seat_world :: member_world where
  "seat_world = \<lparr>mw_registry = seat_reserved, mw_attach_leases = {seat_lease}, mw_remove_leases = {}\<rparr>"

lemma seat_reserved_eq: "reserve_attach ''s'' False (registry_new ''g'') = (ReserveStart seat_lease, seat_reserved)"
  by code_simp

lemma seat_reachable: "member_reachable seat_world"
proof -
  have "member_step (member_world_new ''g'') seat_world"
    using member_step.step_reserve [of "''s''" False "member_world_new ''g''"] seat_reserved_eq
    by (simp add: member_world_new_def seat_world_def started_attach_def)
  then show ?thesis unfolding member_reachable_def by blast
qed

lemma seat_lease_issued: "seat_lease \<in> mw_attach_leases seat_world"
  and seat_channels: "length (mr_channels (mw_registry seat_world)) < 2 ^ 64"
proof -
  have "length (mr_channels seat_reserved) = 1" by code_simp
  then show "length (mr_channels (mw_registry seat_world)) < 2 ^ 64" by (simp add: seat_world_def)
qed (simp add: seat_world_def)

lemmas seat_facts = seat_reachable seat_lease_issued seat_channels


section \<open>Leases and waiters\<close>

text \<open>
  C4. A lease that was issued owns its attach exactly as long as nobody has been told an outcome:
  whoever finds that it lost the attach finds the outcome decided. What was decided is final,
  and a lost lease is never owned again, whatever steps the registry takes.
\<close>

theorem lease_owned_until_decided:
  assumes "member_reachable w" and "l \<in> mw_attach_leases w"
    and "member_step\<^sup>*\<^sup>* w w'" and "length (mr_channels (mw_registry w')) < 2 ^ 64"
  shows "(owns_attach l (mw_registry w) \<longleftrightarrow> wait_outcome (al_waiter l) (mw_registry w) = None) \<and>
    (\<not> owns_attach l (mw_registry w) \<longrightarrow> \<not> owns_attach l (mw_registry w') \<and>
      wait_outcome (al_waiter l) (mw_registry w') = wait_outcome (al_waiter l) (mw_registry w))"
proof -
  note st = member_steps_inv [OF assms(3) member_reachable_inv [OF assms(1)]]
  have len: "length (mr_channels (mw_registry w)) < 2 ^ 64"
    using st assms(4) by (auto simp: registry_evolves_def)
  have v: "lease_valid l w" by (rule reachable_lease_valid [OF assms(1,2) len])
  then have v': "lease_valid l w'"
    using st assms(4) attach_lease_evolves by (auto simp: lease_valid_def)
  show ?thesis
    using member_leases.owns_iff [OF v] member_leases.lost_for_good [OF v _ assms(3) v']
    by (simp add: lease_owns_def lease_outcome_def)
qed

theorem lease_owned_until_decided_witness:
  "owns_attach seat_lease seat_reserved \<longleftrightarrow> wait_outcome (al_waiter seat_lease) seat_reserved = None"
  using lease_owned_until_decided [OF seat_reachable seat_lease_issued rtranclp.rtrancl_refl seat_channels]
  by (simp add: seat_world_def)

text \<open>
  A commit takes effect exactly when its lease owns the attach. Then the member is ready, or
  failed with the reason given, the waiters of this attach are told so, and neither another
  member nor a waiter of another operation is affected. Otherwise the registry is unchanged.
\<close>

theorem commit_settles_owned_attach:
  assumes "member_reachable w" and "l \<in> mw_attach_leases w"
    and "length (mr_channels (mw_registry w)) < 2 ^ 64"
    and "commit_ready l (mw_registry w) = (b, r) \<and> snap = SnapReady \<and> out = OutcomeReady \<or>
      commit_failed l failure (mw_registry w) = (b, r) \<and> snap = SnapFailed (al_operation_id l) failure \<and>
      out = OutcomeFailed failure"
  shows "(b \<longleftrightarrow> owns_attach l (mw_registry w)) \<and>
    (b \<longrightarrow> runtime_snapshot (al_agent_id l) r = snap \<and> wait_outcome (al_waiter l) r = Some out \<and>
      (\<forall>a. a \<noteq> al_agent_id l \<longrightarrow> runtime_snapshot a r = runtime_snapshot a (mw_registry w)) \<and>
      (\<forall>v. aw_outcome_rx v \<noteq> aw_outcome_rx (al_waiter l) \<longrightarrow> aw_outcome_rx v < length (mr_channels (mw_registry w)) \<longrightarrow>
        wait_outcome v r = wait_outcome v (mw_registry w))) \<and>
    (\<not> b \<longrightarrow> r = mw_registry w)"
proof -
  let ?r = "mw_registry w"
  have v: "lease_valid l w" by (rule reachable_lease_valid [OF assms(1-3)])
  then have inv: "registry_inv ?r" "attach_lease_ok ?r l" "length (mr_channels ?r) < 2 ^ 64"
    by (auto simp: lease_valid_def member_inv_def)
  obtain c where c: "commit_attach l c ?r = (b, r)" "out = lease_settles c"
    "snap = (case c of None \<Rightarrow> SnapReady | Some failure \<Rightarrow> SnapFailed (al_operation_id l) failure)"
    using assms(4)
  proof (elim disjE conjE)
    assume "commit_ready l ?r = (b, r)" "snap = SnapReady" "out = OutcomeReady"
    then show ?thesis using that [of None] by (simp add: commit_attach_def lease_settles_def)
  next
    assume "commit_failed l failure ?r = (b, r)" "snap = SnapFailed (al_operation_id l) failure"
      "out = OutcomeFailed failure"
    then show ?thesis using that [of "Some failure"] by (simp add: commit_attach_def lease_settles_def)
  qed
  have inv': "registry_inv r" using commit_attach_change [OF inv(1), of l c] c(1) by simp
  show ?thesis
  proof (cases "owns_attach l ?r")
    case False
    then show ?thesis using commit_attach_stale [OF False, of c] c(1) by auto
  next
    case True
    then obtain ch where ch: "map_of (mr_entries ?r) (al_agent_id l) = Some (EntryAttaching (al_operation_id l) ch)"
      and run: "\<not> mr_stopped ?r" by (auto simp: owns_attach_entry)
    note at = attach_channel [OF inv ch]
    have r: "b" "r = send_replace ch (SigTerminal out) (insert_entry (al_agent_id l)
        (case c of None \<Rightarrow> EntryReady | Some failure \<Rightarrow> EntryFailed (al_operation_id l) failure ch) ?r)"
      using commit_attach_owner [OF True ch, of c] c by auto
    have "wait_outcome v r = wait_outcome v ?r"
      if "aw_outcome_rx v \<noteq> ch" "aw_outcome_rx v < length (mr_channels ?r)" for v
      using that inv inv' by (simp add: wait_outcome_eq r send_replace_def insert_entry_def)
    moreover have "wait_outcome (al_waiter l) r = Some out"
      using at by (simp add: wait_outcome_def r send_replace_def insert_entry_def)
    moreover have "runtime_snapshot (al_agent_id l) r = snap"
      using run by (simp add: runtime_snapshot_def r send_replace_def insert_entry_def c(3) split: option.split)
    ultimately show ?thesis
      using True r(1) at by (auto simp: runtime_snapshot_def r(2) send_replace_def insert_entry_def)
  qed
qed

theorem commit_settles_owned_attach_witness:
  "runtime_snapshot ''s'' (snd (commit_ready seat_lease seat_reserved)) = SnapReady"
proof -
  have "owns_attach seat_lease seat_reserved" by code_simp
  moreover obtain b r where "commit_ready seat_lease seat_reserved = (b, r)" by fastforce
  ultimately show ?thesis
    using commit_settles_owned_attach [OF seat_facts, of b r SnapReady OutcomeReady undefined]
    by (simp add: seat_world_def seat_lease_def)
qed

text \<open>
  An attach is started exactly for a member that has no runtime and no operation in flight: an
  absent member, or a failed one when a retry is asked for. The new lease owns it, and while it
  does every further reservation, a repair included, joins its waiters and starts nothing.
\<close>

theorem attach_is_single_flight:
  assumes "member_reachable w" and "length (mr_channels (mw_registry w)) < 2 ^ 64 - 1"
    and "reserve_attach a retry (mw_registry w) = (res, r)"
  shows "((\<exists>l. res = ReserveStart l) \<longleftrightarrow> runtime_snapshot a (mw_registry w) = SnapAbsent \<or>
      retry \<and> (\<exists>op failure. runtime_snapshot a (mw_registry w) = SnapFailed op failure)) \<and>
    (\<forall>l. res = ReserveStart l \<longrightarrow> al_agent_id l = a \<and> owns_attach l r \<and> wait_outcome (al_waiter l) r = None) \<and>
    (\<forall>l \<in> mw_attach_leases w. owns_attach l (mw_registry w) \<and> al_agent_id l = a \<longrightarrow>
      res = ReserveJoin (al_waiter l) \<and> r = mw_registry w \<and>
      reserve_repair a (mw_registry w) = (ReserveJoin (al_waiter l), mw_registry w))"
proof (intro conjI allI ballI impI)
  let ?r = "mw_registry w"
  note inv = reachable_registry_inv [OF assms(1)]
  show "(\<exists>l. res = ReserveStart l) \<longleftrightarrow> runtime_snapshot a ?r = SnapAbsent \<or>
      retry \<and> (\<exists>op failure. runtime_snapshot a ?r = SnapFailed op failure)"
    using assms(3) by (auto simp: reserve_attach_def runtime_snapshot_def start_attach_eq Let_def
        split: if_splits option.splits member_entry.splits)
  fix l
  {
    assume res: "res = ReserveStart l"
    then have st: "start_attach a ?r = (res, r)" and run: "\<not> mr_stopped ?r"
      using assms(3) by (auto simp: reserve_attach_def split: if_splits option.splits member_entry.splits)
    from st show agent: "al_agent_id l = a" by (auto simp: res start_attach_eq Let_def)
    from st run show own: "owns_attach l r"
      by (auto simp: res owns_attach_entry start_attach_eq Let_def al_operation_id_def)
    have "registry_inv r" using reserve_attach_change [OF inv, of a retry] assms(3) by simp
    moreover have "attach_lease_ok r l"
      by (rule start_attach_lease [OF inv st]) (simp add: started_attach_def res)
    moreover have "length (mr_channels r) < 2 ^ 64"
      using st assms(2) by (auto simp: res start_attach_eq Let_def)
    ultimately show "wait_outcome (al_waiter l) r = None" using owns_iff_pending own by blast
  next
    assume l: "l \<in> mw_attach_leases w" and own: "owns_attach l ?r \<and> al_agent_id l = a"
    have v: "lease_valid l w" using reachable_lease_valid [OF assms(1) l] assms(2) by simp
    obtain ch where ch: "map_of (mr_entries ?r) (al_agent_id l) = Some (EntryAttaching (al_operation_id l) ch)"
      and run: "\<not> mr_stopped ?r" using own by (auto simp: owns_attach_entry)
    have "al_waiter l = waiter (al_operation_id l) ch"
      using attach_channel(1) [OF _ _ _ ch] v by (auto simp: lease_valid_def member_inv_def)
    then show "res = ReserveJoin (al_waiter l)" "r = ?r"
      "reserve_repair a ?r = (ReserveJoin (al_waiter l), ?r)"
      using assms(3) ch run own by (auto simp: reserve_attach_def reserve_repair_def)
  }
qed

theorem attach_is_single_flight_witness:
  "reserve_repair ''s'' seat_reserved = (ReserveJoin (al_waiter seat_lease), seat_reserved)"
proof -
  have "owns_attach seat_lease seat_reserved" by code_simp
  moreover obtain res r where "reserve_attach ''s'' True seat_reserved = (res, r)" by fastforce
  moreover have "length (mr_channels seat_reserved) = 1" by code_simp
  ultimately show ?thesis
    using attach_is_single_flight [OF seat_reachable, of "''s''" True res r]
    by (simp add: seat_world_def seat_lease_def)
qed



section \<open>Stopping and removing\<close>

text \<open>After the stop no operation changes the registry, and no step wakes it up again.\<close>

lemma stopped_registry:
  assumes "mr_stopped r"
  shows "runtime_snapshot a r = SnapSessionStopped" "reserve_attach a retry r = (ReserveSessionStopped, r)"
    "reserve_repair a r = (ReserveSessionStopped, r)" "begin_remove a r = (RemoveSessionStopped, r)"
    "\<not> owns_attach l r"
  using assms by (simp_all add: runtime_snapshot_def reserve_attach_def reserve_repair_def begin_remove_def
      owns_attach_entry)

text \<open>
  C30. Stopping the session settles every operation in flight: each waiter that was still waiting
  learns that the session stopped, the others keep their outcome. From then on, for good, every
  member reads as stopped, nothing is reserved or removed, and no lease owns anything; so the
  ownership check gives the same answer whether the stop comes before or after it reads the flag.
\<close>

theorem stop_settles_every_member:
  assumes "member_reachable w" and "registry_stop (mw_registry w) = (b, r)"
    and "member_step\<^sup>*\<^sup>* (w\<lparr>mw_registry := r\<rparr>) w'"
  shows "(\<forall>v. aw_outcome_rx v < length (mr_channels (mw_registry w)) \<longrightarrow>
      wait_outcome v (mw_registry w') = (case wait_outcome v (mw_registry w) of
        None \<Rightarrow> Some OutcomeSessionStopped | Some out \<Rightarrow> Some out)) \<and>
    (\<forall>a retry. runtime_snapshot a (mw_registry w') = SnapSessionStopped \<and>
      reserve_attach a retry (mw_registry w') = (ReserveSessionStopped, mw_registry w') \<and>
      begin_remove a (mw_registry w') = (RemoveSessionStopped, mw_registry w')) \<and>
    (\<forall>l. owns_attach_racing l (mw_registry w) (mw_registry w') = owns_attach l (mw_registry w'))"
proof -
  let ?r = "mw_registry w" and ?r' = "mw_registry w'"
  note inv = reachable_registry_inv [OF assms(1)]
  note stop = registry_stop_spec [OF inv, unfolded assms(2) snd_conv]
  have "member_step w (w\<lparr>mw_registry := r\<rparr>)" by (rule member_step.step_stop [OF assms(2)])
  then have "member_inv (w\<lparr>mw_registry := r\<rparr>)"
    using member_step_inv member_reachable_inv [OF assms(1)] by blast
  from member_steps_inv [OF assms(3) this]
  have inv': "registry_inv ?r'" and ev: "registry_evolves r ?r'" by (simp_all add: member_inv_def)
  then have stopped: "mr_stopped ?r'" using stop(1) by (simp add: registry_evolves_def)
  have "wait_outcome v ?r' = (case wait_outcome v ?r of None \<Rightarrow> Some OutcomeSessionStopped | Some out \<Rightarrow> Some out)"
    if ch: "aw_outcome_rx v < length (mr_channels ?r)" for v
  proof -
    have "mr_channels ?r' ! aw_outcome_rx v = mr_channels r ! aw_outcome_rx v"
      using ev stop(5) [OF ch] stop(6) ch by (auto simp: registry_evolves_def split: if_splits)
    moreover have "aw_outcome_rx v < length (mr_channels ?r')"
      using ev ch stop(6) by (simp add: registry_evolves_def)
    ultimately show ?thesis
      using wait_outcome_eq [OF inv ch] wait_outcome_eq [OF inv', of v] stop(5) [OF ch]
      by (auto split: attach_signal.split)
  qed
  moreover have "\<not> owns_attach_racing l ?r ?r'" for l
    using inv' stopped by (simp add: owns_attach_racing_def registry_inv_def)
  ultimately show ?thesis using stopped_registry [OF stopped] by blast
qed

theorem stop_settles_every_member_witness:
  "wait_outcome (al_waiter seat_lease) (snd (registry_stop seat_reserved)) = Some OutcomeSessionStopped"
proof -
  obtain b r where stop: "registry_stop (mw_registry seat_world) = (b, r)" by fastforce
  have "wait_outcome (al_waiter seat_lease) seat_reserved = None"
    "aw_outcome_rx (al_waiter seat_lease) < length (mr_channels seat_reserved)" by code_simp+
  then show ?thesis
    using stop_settles_every_member [OF seat_reachable stop rtranclp.rtrancl_refl] stop
    by (simp add: seat_world_def)
qed

text \<open>
  Removing a member whose attach is in flight takes the attach over: its waiters learn that
  the member was removed, its lease is refused from then on, and reservations and further
  removals wait for this removal until its lease finishes it, which leaves the member absent
  and tells them so.
\<close>

theorem removal_takes_over_attach:
  assumes "member_reachable w" and "l \<in> mw_attach_leases w"
    and "length (mr_channels (mw_registry w)) < 2 ^ 64 - 1"
    and "owns_attach l (mw_registry w)"
    and "begin_remove (al_agent_id l) (mw_registry w) = (res, r)"
  shows "\<exists>rl v. res = RemoveStart rl \<and> wait_outcome (al_waiter l) r = Some OutcomeRemoved \<and>
    commit_ready l r = (False, r) \<and> (\<forall>failure. commit_failed l failure r = (False, r)) \<and>
    (\<forall>retry. reserve_attach (al_agent_id l) retry r = (ReserveRemoving v, r)) \<and>
    begin_remove (al_agent_id l) r = (RemoveJoin v, r) \<and> wait_outcome v r = None \<and>
    (\<forall>ok r'. finish_remove rl r = (ok, r') \<longrightarrow> ok \<and> runtime_snapshot (al_agent_id l) r' = SnapAbsent \<and>
      wait_outcome v r' = Some OutcomeRemoved)"
proof -
  let ?r = "mw_registry w" and ?a = "al_agent_id l" and ?n = "length (mr_channels (mw_registry w))"
  have v: "lease_valid l w" using reachable_lease_valid [OF assms(1,2)] assms(3) by simp
  then have inv: "registry_inv ?r" "attach_lease_ok ?r l" "?n < 2 ^ 64"
    by (auto simp: lease_valid_def member_inv_def)
  obtain ch where ch: "map_of (mr_entries ?r) ?a = Some (EntryAttaching (al_operation_id l) ch)"
    and run: "\<not> mr_stopped ?r" using assms(4) by (auto simp: owns_attach_entry)
  note at = attach_channel [OF inv ch]
  let ?op = "mr_next_operation_id ?r"
  have br: "begin_remove ?a ?r = start_remove ?a (Some ch) (remove_entry ?a ?r)"
    using ch run by (simp add: begin_remove_def)
  have r: "r = ?r\<lparr>mr_next_operation_id := ?op + 1,
      mr_channels := (mr_channels ?r @ [SigPending])[ch := SigTerminal OutcomeRemoved],
      mr_entries := hm_insert ?a (EntryRemoving ?op ?n) (hm_remove ?a (mr_entries ?r))\<rparr>"
    and res: "res = RemoveStart \<lparr>rl_session_generation = mr_session_generation ?r, rl_agent_id = ?a, rl_operation_id = ?op\<rparr>"
    using assms(5) unfolding br by (simp_all add: start_remove_eq Let_def remove_entry_def)
  have inv': "registry_inv r" using begin_remove_change [OF inv(1), of ?a] assms(5) by simp
  have removed: "wait_outcome (al_waiter l) r = Some OutcomeRemoved"
    using at by (simp add: wait_outcome_def r nth_list_update)
  moreover have "wait_outcome (waiter ?op ?n) r = None"
    using at by (subst wait_outcome_eq [OF inv']) (simp_all add: r)
  moreover have "\<not> owns_attach l r" by (simp add: owns_attach_entry r)
  then have "commit_ready l r = (False, r)" "commit_failed l failure r = (False, r)" for failure
    using commit_attach_stale [of l r None] commit_attach_stale [of l r "Some failure"]
    by (simp_all add: commit_attach_def)
  ultimately show ?thesis
    using run at by (intro exI [of _ "\<lparr>rl_session_generation = mr_session_generation ?r, rl_agent_id = ?a, rl_operation_id = ?op\<rparr>"]
        exI [of _ "waiter ?op ?n"])
      (auto simp: res r reserve_attach_def begin_remove_def finish_remove_def runtime_snapshot_def
        remove_entry_def send_replace_def wait_outcome_def nth_list_update)
qed

theorem removal_takes_over_attach_witness:
  "wait_outcome (al_waiter seat_lease) (snd (begin_remove ''s'' seat_reserved)) = Some OutcomeRemoved"
proof -
  have "owns_attach seat_lease seat_reserved" by code_simp
  moreover obtain res r where "begin_remove ''s'' seat_reserved = (res, r)" by fastforce
  moreover have "length (mr_channels seat_reserved) = 1" by code_simp
  ultimately show ?thesis
    using removal_takes_over_attach [OF seat_reachable seat_lease_issued, of res r]
    by (auto simp: seat_world_def seat_lease_def)
qed



section \<open>The attach task and the removal of a member\<close>

lemma issued_task_inv:
  assumes "member_reachable (ts_members s)" "l \<in> mw_attach_leases (ts_members s)" "session_coord_inv s"
    and "(attach_run P l)\<^sup>*\<^sup>* (TaskStarting, s) c"
    and len: "length (mr_channels (mw_registry (ts_members (snd c)))) < 2 ^ 64"
  shows "task_inv l c"
proof (rule attach_runs_inv [OF assms(4) _ len])
  have "length (mr_channels (mw_registry (ts_members s))) \<le> length (mr_channels (mw_registry (ts_members (snd c))))"
    using assms(4) by (induction rule: rtranclp_induct) (auto dest: attach_run_length)
  then show "task_inv l (TaskStarting, s)"
    using assms(3) reachable_lease_valid [OF assms(1,2)] len by (simp add: task_inv_def)
qed

text \<open>
  C27. The attach task never waits for ever. Whatever the other tasks do between its steps, once
  it turns to await its own lease the outcome is decided; it returns the outcome its waiters
  see, or that the session stopped; and from any point at most seven more steps of its own
  bring it there.
\<close>

theorem attach_task_returns:
  assumes "member_reachable (ts_members s0)" and "l \<in> mw_attach_leases (ts_members s0)"
    and "session_coord_inv s0" and "(attach_run P l)\<^sup>*\<^sup>* (TaskStarting, s0) (ph, s)"
    and "length (mr_channels (mw_registry (ts_members s))) < 2 ^ 64"
  shows "(ph = TaskAwait \<longrightarrow> wait_outcome (al_waiter l) (mw_registry (ts_members s)) \<noteq> None) \<and>
    (\<forall>out. ph = TaskReturned out \<longrightarrow> out = OutcomeSessionStopped \<or>
      wait_outcome (al_waiter l) (mw_registry (ts_members s)) = Some out) \<and>
    (\<exists>out s'. attach_task_exec P e x l 7 (ph, s) = Some (TaskReturned out, s') \<and>
      (out = OutcomeSessionStopped \<or> wait_outcome (al_waiter l) (mw_registry (ts_members s')) = Some out))"
proof -
  have inv: "task_inv l (ph, s)"
    using issued_task_inv [OF assms(1-4)] assms(5) by simp
  moreover have "phase_rank ph \<le> 7" by (cases ph) auto
  ultimately obtain out s' where "attach_task_exec P e x l 7 (ph, s) = Some (TaskReturned out, s')"
    "task_inv l (TaskReturned out, s')"
    using attach_task_exec_returns [of l "(ph, s)" 7 P e x] by auto
  then show ?thesis using inv by (auto simp: task_inv_def lease_outcome_def)
qed

definition seat_session :: "unit team_session" where
  "seat_session = \<lparr>ts_members = seat_world, ts_work = demo_started,
     ts_loops = \<lparr>lr_notifiers = [], lr_stopped = False\<rparr>\<rparr>"

lemma seat_session_inv: "session_coord_inv seat_session"
  using work_reachable_inv [OF demo_reach_started]
  by (simp add: world_inv_def session_coord_inv_def seat_session_def)

theorem attach_task_returns_witness:
  "\<exists>out s. attach_task_exec quiet_port (demo_env CHR ''g'') \<lparr>ai_attach = None, ai_published = True\<rparr> seat_lease 7
     (TaskStarting, seat_session) = Some (TaskReturned out, s)"
proof -
  have "ts_members seat_session = seat_world" by (simp add: seat_session_def)
  then show ?thesis
    using attach_task_returns [of seat_session seat_lease quiet_port TaskStarting seat_session "demo_env CHR ''g''"
        "\<lparr>ai_attach = None, ai_published = True\<rparr>"] seat_facts seat_session_inv by fastforce
qed

text \<open>
  A removal that fails half way blocks its member for ever. When the mailbox cannot mark the
  messages of the removed slot read, \<open>remove_agent\<close> returns the error and its lease is lost;
  however long the session runs on, every later removal joins this one and every reservation
  waits for it, and neither wait ends before the session stops.
\<close>

theorem failed_removal_blocks_the_member:
  assumes "member_reachable (ts_members s)"
    and "remove_agent_begin P e slot s = Some (RemovalStarted (RemoveStart rl) work, s1)"
    and "rw_terminal_message_ids work \<noteq> []" and "ri_mark_read x = Some err"
    and "remove_agent_finish x slot (RemoveStart rl) work s1 = (ph, s2)"
    and "member_step\<^sup>*\<^sup>* ((ts_members s2)\<lparr>mw_remove_leases := mw_remove_leases (ts_members s) - {rl}\<rparr>) m"
    and "\<not> mr_stopped (mw_registry m)"
  shows "ph = RemovalFinished (Some err) \<and>
    (\<exists>v. begin_remove slot (mw_registry m) = (RemoveJoin v, mw_registry m) \<and>
      (\<forall>retry. reserve_attach slot retry (mw_registry m) = (ReserveRemoving v, mw_registry m)) \<and>
      wait_outcome v (mw_registry m) = None)"
proof -
  let ?r = "mw_registry (ts_members s)"
  have inv: "member_inv (ts_members s)" by (rule member_reachable_inv [OF assms(1)])
  obtain r where br: "begin_remove slot ?r = (RemoveStart rl, r)"
    and s1: "ts_members s1 = (ts_members s)\<lparr>mw_registry := r\<rparr>"
    using assms(2) by (auto simp: remove_agent_begin_def constrain_def Let_def
        split: prod.splits begin_remove_result.splits option.splits)
  have s2: "ph = RemovalFinished (Some err)" "s2 = s1"
    using assms(3-5) by (auto simp: remove_agent_finish_def)
  let ?w = "(ts_members s2)\<lparr>mw_remove_leases := mw_remove_leases (ts_members s) - {rl}\<rparr>"
  have "member_step (ts_members s) ((ts_members s)\<lparr>mw_registry := r,
      mw_remove_leases := started_remove (RemoveStart rl) \<union> mw_remove_leases (ts_members s)\<rparr>)"
    by (rule member_step.step_begin_remove [OF br])
  from member_step_inv [OF this inv]
  have w: "member_inv ?w" by (auto simp: s1 s2 member_inv_def started_remove_def)
  obtain ch where pend: "removal_pending rl ch ?w" and agent: "rl_agent_id rl = slot"
    and gen: "rl_session_generation rl = mr_session_generation (mw_registry ?w)"
    using br by (auto simp: removal_pending_def s1 s2 begin_remove_def start_remove_eq Let_def remove_entry_def
        split: if_splits option.splits member_entry.splits)
  have "member_inv m \<and> mr_session_generation (mw_registry m) = rl_session_generation rl \<and>
      (mr_stopped (mw_registry m) \<or> removal_pending rl ch m \<and> rl \<notin> mw_remove_leases m)"
    using assms(6)
  proof (induction rule: rtranclp_induct)
    case base
    then show ?case using w pend gen by simp
  next
    case (step m m')
    then have inv_m: "member_inv m" by simp
    note ev = member_step_inv [OF step(2) inv_m]
    have "rl_session_generation l = rl_session_generation rl" if "l \<in> mw_remove_leases m" for l
      using inv_m step(3) that by (simp add: member_inv_def remove_lease_ok_def)
    then show ?case
      using ev step(3) abandoned_removal_step [OF step(2), of rl ch] by (auto simp: registry_evolves_def)
  qed
  then have m: "member_inv m" "removal_pending rl ch m" using assms(7) by auto
  then have "entry_ok (mw_registry m) (EntryRemoving (rl_operation_id rl) ch)"
    using registry_inv_entry by (auto simp: member_inv_def removal_pending_def)
  then have "wait_outcome (waiter (rl_operation_id rl) ch) (mw_registry m) = None"
    using m(1) by (simp add: wait_outcome_eq member_inv_def entry_ok_def)
  then show ?thesis
    using m(2) assms(7) s2(1) agent
    by (auto simp: removal_pending_def begin_remove_def reserve_attach_def)
qed


theorem failed_removal_blocks_the_member_witness:
  "\<exists>(s :: unit team_session) v. ts_work s \<noteq> ts_work seat_session \<and>
     begin_remove ''s'' (mw_registry (ts_members s)) = (RemoveJoin v, mw_registry (ts_members s)) \<and>
     wait_outcome v (mw_registry (ts_members s)) = None"
proof -
  let ?begun = "remove_agent_begin quiet_port (demo_env CHR ''g'') ''s'' seat_session"
  have "case ?begun of
      Some (RemovalStarted (RemoveStart rl) work, s1) \<Rightarrow> rw_terminal_message_ids work \<noteq> [] \<and>
        \<not> mr_stopped (mw_registry (ts_members s1)) \<and> queue_length (co_state (ts_work s1)) ''s'' = 0 \<and>
        active_batch_at (co_state (ts_work s1)) ''s'' = None
    | _ \<Rightarrow> False" by code_simp
  then obtain rl work s1 where begun: "?begun = Some (RemovalStarted (RemoveStart rl) work, s1)"
    and msgs: "rw_terminal_message_ids work \<noteq> []" and run: "\<not> mr_stopped (mw_registry (ts_members s1))"
    and idle: "active_batch_at (co_state (ts_work s1)) ''s'' = None"
    by (auto split: option.split_asm prod.split_asm removal_phase.split_asm begin_remove_result.split_asm)
  let ?x = "\<lparr>ri_mark_read = Some (DatabaseError []), ri_get_agent = None, ri_remove_agent = None\<rparr>"
  have reach: "member_reachable (ts_members seat_session)"
    using seat_reachable by (simp add: seat_session_def)
  have fin: "remove_agent_finish ?x ''s'' (RemoveStart rl) work s1 = (RemovalFinished (Some (DatabaseError [])), s1)"
    using msgs by (simp add: remove_agent_finish_def)
  obtain v where v: "begin_remove ''s'' (mw_registry (ts_members s1)) = (RemoveJoin v, mw_registry (ts_members s1))"
    "wait_outcome v (mw_registry (ts_members s1)) = None"
    using failed_removal_blocks_the_member [OF reach begun msgs _ fin rtranclp.rtrancl_refl] run by fastforce
  have "active_batch_at (co_state (ts_work seat_session)) ''s'' \<noteq> None" by code_simp
  then have "ts_work s1 \<noteq> ts_work seat_session" using idle by auto
  with v show ?thesis by blast
qed

end
