(* ===== verification/Session_Types.thy ===== *)
theory Session_Types
  imports Prelude
begin

text \<open>
  The canonical event vocabulary of an agent session and its state
  (\<open>crates/aionui-session/src/event.rs\<close>, \<open>state.rs\<close>), with the views derived
  from the state and the persistence class of every event.

  A \<open>serde_json::Value\<close> is carried as its text and an \<open>f64\<close> as its 64 bits: nothing
  here reads either.
\<close>

type_synonym u16 = "16 word"
type_synonym u32 = "32 word"
type_synonym i32 = "32 word"
type_synonym f64_bits = "64 word"
type_synonym json_text = string


section \<open>Event payloads\<close>

record usage_breakdown =
  ub_cached_read_tokens :: u64
  ub_cached_write_tokens :: u64
  ub_thought_tokens :: u64

definition usage_breakdown_default :: usage_breakdown where
  "usage_breakdown_default =
     \<lparr>ub_cached_read_tokens = 0, ub_cached_write_tokens = 0, ub_thought_tokens = 0\<rparr>"

definition usage_breakdown_is_empty :: "usage_breakdown \<Rightarrow> bool" where
  "usage_breakdown_is_empty u = (u = usage_breakdown_default)"

datatype tool_result_content =
  TrText string
| TrFilePath string "string option" "string option" "string option"
| TrImage string "8 word list"

datatype subagent_kind = SkInline | SkSpawned string | SkWorkflow

datatype subagent_task_kind = WorkflowContainer | OtherTask

datatype permission_kind = PermTool | PermAuth

datatype plan_status = PlanPending | PlanInProgress | PlanCompleted

datatype plan_priority = PriorityHigh | PriorityMedium | PriorityLow

record plan_entry =
  pe_content :: string
  pe_status :: plan_status
  pe_priority :: "plan_priority option"

datatype subagent_status =
  SaPendingInit
| SaRunning
| SaInterrupted
| SaCompleted
| SaErrored
| SaShutdown

fun subagent_is_terminal :: "subagent_status \<Rightarrow> bool" where
  "subagent_is_terminal SaInterrupted = True"
| "subagent_is_terminal SaCompleted = True"
| "subagent_is_terminal SaErrored = True"
| "subagent_is_terminal SaShutdown = True"
| "subagent_is_terminal _ = False"

datatype truncation_kind = TkMaxTokens | TkContextWindow | TkMaxTurns | TkBudget | TkTruncated

datatype stop_reason =
  StopEndTurn
| StopTruncated truncation_kind
| StopRefused "string option"

datatype cancel_reason = UserCancel | BargeIn | SocketAbort | ToolDenyChain

datatype turn_outcome =
  OutCompleted stop_reason
| OutCancelled cancel_reason
| OutFailed
| OutEndTurn

datatype provisioning_phase =
  Injecting
| ToolsWaiting
| ToolsReady
| Degraded string
| LoadFailed string

record localized_text =
  lt_code :: string
  lt_params :: "(string, json_text) btree_map"

definition localized_text_new :: "string \<Rightarrow> localized_text" where
  "localized_text_new code = \<lparr>lt_code = code, lt_params = []\<rparr>"

definition localized_text_with :: "string \<Rightarrow> json_text \<Rightarrow> localized_text \<Rightarrow> localized_text" where
  "localized_text_with key value t = t\<lparr>lt_params := bt_insert key value (lt_params t)\<rparr>"

datatype notice_level = NoticeInfo | NoticeWarning

datatype item_kind = ItemText | ItemThinking | ItemTool | ItemImage

record truncation_info =
  ti_kind :: truncation_kind
  ti_partial_text :: "string option"

record finalized_message =
  fm_item_id :: string
  fm_kind :: item_kind
  fm_content :: string
  fm_truncation :: "truncation_info option"
  fm_seq :: u64

record checkpoint_entry =
  cp_id :: string
  cp_label :: "string option"
  cp_turn_gen :: "u64 option"

record context_usage_category =
  cc_name :: string
  cc_tokens :: u64

record context_usage =
  cu_used :: u64
  cu_max :: u64
  cu_categories :: "context_usage_category list"

record exit_status_lite =
  ex_code :: "i32 option"
  ex_signal :: "i32 option"

datatype outcome = Crashed | CleanNoResult | FollowResult

record model_info =
  mi_id :: string
  mi_name :: string
  mi_description :: "string option"
  mi_reasoning_efforts :: "string list"

record mode_info =
  mo_id :: string
  mo_name :: string
  mo_description :: "string option"

record slash_command_info =
  sc_name :: string
  sc_description :: "string option"

datatype workflow_loop_state = LoopStart | LoopProgress | LoopDone


section \<open>Events\<close>

record tool_call =
  tc_tool_use_id :: string
  tc_name :: string
  tc_subagent :: subagent_kind
  tc_input :: json_text
  tc_parent_tool_use_id :: "string option"

record tool_result =
  tr_tool_use_id :: string
  tr_is_error :: bool
  tr_content :: "tool_result_content list"
  tr_parent_tool_use_id :: "string option"

record turn_result =
  re_is_error :: bool
  re_api_error_status :: "u16 option"
  re_result_text :: string
  re_epoch :: u64
  re_outcome :: turn_outcome

record permission =
  pm_request_id :: string
  pm_kind :: permission_kind
  pm_metadata :: "json_text option"
  pm_tool_name :: "string option"
  pm_input :: "json_text option"

record usage_delta =
  ud_input_tokens :: u64
  ud_output_tokens :: u64
  ud_total_tokens :: u64
  ud_cost_usd :: "f64_bits option"
  ud_breakdown :: usage_breakdown
  ud_context_window :: "u64 option"

record subagent_update =
  su_ref :: string
  su_label :: "string option"
  su_status :: subagent_status
  su_parent_ref :: "string option"
  su_kind :: "subagent_task_kind option"

record subagent_detail =
  sd_ref :: string
  sd_parent_ref :: "string option"
  sd_label :: "string option"
  sd_loop_state :: "workflow_loop_state option"
  sd_model :: "string option"
  sd_tokens :: "u64 option"
  sd_tool_calls :: "u64 option"
  sd_last_tool_name :: "string option"
  sd_phase_index :: "u32 option"
  sd_phase_title :: "string option"
  sd_last_tool_summary :: "string option"
  sd_duration_ms :: "u64 option"

datatype (plugins del: size) session_event =
  EvTurnStarted u64
| EvCancel
| EvMessageDelta string string
| EvThoughtDelta string string
| EvToolCall tool_call
| EvToolResult tool_result
| EvHeartbeat
| EvTurnResult turn_result
| EvDetached "exit_status_lite option" "string option"
| EvAdapterSpecific string json_text
| EvPlan "plan_entry list" "string option"
| EvPermission permission
| EvPermissionResolved string permission_kind
| EvPromptAccepted string
| EvUsageDelta usage_delta
| EvProvisioning provisioning_phase
| EvRewound u64
| EvConfigChanged "string option" "string option"
| EvCatalogUpdated "model_info list" "mode_info list" "slash_command_info list"
| EvSubagentUpdate subagent_update
| EvSubagentDetail subagent_detail
| EvWorkflowPhase string u32 string
| EvNotice notice_level string "localized_text option"
| EvToolOutputDelta string string
| EvTurnDiffUpdated string
| EvItemStarted string item_kind
| EvItemCompleted string "truncation_info option"
| EvMessageFinalized finalized_message
| EvSnapshot string u64
| EvLagged u64
| EvBackendSuspended
| EvCheckpointList "checkpoint_entry list"
| EvSessionInfo "context_usage option" "string option"
| EvSessionTitle string
| EvBackendBound "string option"
| EvBackendTurnBound string

datatype event_class = BackendProduced | OrchestrationLowered

fun classify :: "session_event \<Rightarrow> event_class" where
  "classify (EvTurnStarted _) = OrchestrationLowered"
| "classify EvCancel = OrchestrationLowered"
| "classify EvHeartbeat = OrchestrationLowered"
| "classify (EvSnapshot _ _) = OrchestrationLowered"
| "classify (EvLagged _) = OrchestrationLowered"
| "classify (EvBackendBound _) = OrchestrationLowered"
| "classify (EvBackendTurnBound _) = OrchestrationLowered"
| "classify EvBackendSuspended = OrchestrationLowered"
| "classify _ = BackendProduced"

datatype persist_tier_t = Ephemeral | Display | State | DisplayAndState

definition is_raw_timing :: "string \<Rightarrow> bool" where
  "is_raw_timing tag = (tag \<in> {''ttft_ms'', ''elapsed'', ''latency''})"

fun backend_tier :: "session_event \<Rightarrow> persist_tier_t" where
  "backend_tier (EvMessageDelta _ _) = Ephemeral"
| "backend_tier (EvThoughtDelta _ _) = Ephemeral"
| "backend_tier (EvToolOutputDelta _ _) = Ephemeral"
| "backend_tier (EvTurnDiffUpdated _) = Ephemeral"
| "backend_tier (EvItemStarted _ _) = Ephemeral"
| "backend_tier (EvItemCompleted _ _) = Ephemeral"
| "backend_tier (EvCheckpointList _) = Ephemeral"
| "backend_tier (EvCatalogUpdated _ _ _) = Ephemeral"
| "backend_tier (EvSessionInfo _ _) = Ephemeral"
| "backend_tier (EvSessionTitle _) = Ephemeral"
| "backend_tier (EvSubagentDetail _) = Ephemeral"
| "backend_tier (EvWorkflowPhase _ _ _) = Ephemeral"
| "backend_tier (EvPlan _ _) = Ephemeral"
| "backend_tier (EvToolCall _) = Display"
| "backend_tier (EvToolResult _) = Display"
| "backend_tier (EvUsageDelta _) = Display"
| "backend_tier (EvProvisioning _) = Display"
| "backend_tier (EvConfigChanged _ _) = Display"
| "backend_tier (EvNotice _ _ _) = Display"
| "backend_tier (EvMessageFinalized _) = Display"
| "backend_tier (EvTurnResult _) = DisplayAndState"
| "backend_tier (EvPermission _) = DisplayAndState"
| "backend_tier (EvPermissionResolved _ _) = DisplayAndState"
| "backend_tier (EvDetached _ _) = DisplayAndState"
| "backend_tier (EvPromptAccepted _) = DisplayAndState"
| "backend_tier (EvSubagentUpdate _) = DisplayAndState"
| "backend_tier (EvRewound _) = State"
| "backend_tier (EvAdapterSpecific tag _) = (if is_raw_timing tag then Ephemeral else Display)"
| "backend_tier _ = Ephemeral"

definition persist_tier :: "session_event \<Rightarrow> persist_tier_t" where
  "persist_tier ev =
     (case classify ev of OrchestrationLowered \<Rightarrow> Ephemeral | BackendProduced \<Rightarrow> backend_tier ev)"


section \<open>The state of a session\<close>

record requires_action_set =
  ra_waiting_on_approval :: u32
  ra_waiting_on_auth :: u32

record subagent_state =
  sg_ref :: string
  sg_label :: "string option"
  sg_status :: subagent_status
  sg_parent_ref :: "string option"

record running_turn =
  rn_since_epoch :: u64
  rn_saw_substantive_output :: bool
  rn_terminal_result_seen :: bool
  rn_requires_action :: requires_action_set
  rn_subagents :: "subagent_state list"

datatype error_reason =
  ErrCrashed
| ErrEmptyTurn
| ErrBackend "u16 option" string

datatype session_state =
  StStarting
| StRunning running_turn
| StError error_reason
| StIdle

definition requires_action_default :: requires_action_set where
  "requires_action_default = \<lparr>ra_waiting_on_approval = 0, ra_waiting_on_auth = 0\<rparr>"

datatype workflow_task_status = WfRunning | WfCompleted | WfFailed | WfStopped

definition workflow_is_terminal :: "workflow_task_status \<Rightarrow> bool" where
  "workflow_is_terminal s = (s \<noteq> WfRunning)"

record workflow_agent_state =
  wa_ref_id :: string
  wa_task_status :: workflow_task_status
  wa_has_lifecycle :: bool
  wa_retain :: "bool option"
  wa_label :: "string option"
  wa_state :: "workflow_loop_state option"
  wa_model :: "string option"
  wa_last_tool_name :: "string option"
  wa_tokens :: "u64 option"
  wa_tool_calls :: "u64 option"

type_synonym workflow_roster = "(string, workflow_agent_state) hash_map"

definition background_active :: "workflow_roster \<Rightarrow> bool" where
  "background_active roster =
     list_ex (\<lambda>w. wa_has_lifecycle w \<and> \<not> workflow_is_terminal (wa_task_status w)) (hm_values roster)"


subsection \<open>Derived views\<close>

definition can_send_message :: "session_state \<Rightarrow> bool" where
  "can_send_message s = (case s of StIdle \<Rightarrow> True | _ \<Rightarrow> False)"

definition requires_action_pending :: "requires_action_set \<Rightarrow> bool" where
  "requires_action_pending ra = (ra_waiting_on_approval ra > 0 \<or> ra_waiting_on_auth ra > 0)"

definition is_requires_action :: "session_state \<Rightarrow> bool" where
  "is_requires_action s =
     (case s of StRunning r \<Rightarrow> requires_action_pending (rn_requires_action r) | _ \<Rightarrow> False)"

definition can_queue_message :: "session_state \<Rightarrow> bool \<Rightarrow> bool" where
  "can_queue_message s accepts_proactive_input =
     (accepts_proactive_input \<and> (case s of StRunning _ \<Rightarrow> True | _ \<Rightarrow> False) \<and> \<not> is_requires_action s)"

definition can_cancel :: "session_state \<Rightarrow> bool" where
  "can_cancel s = (case s of StStarting \<Rightarrow> True | StRunning _ \<Rightarrow> True | _ \<Rightarrow> False)"

definition any_subagent_active :: "subagent_state list \<Rightarrow> bool" where
  "any_subagent_active subs = list_ex (\<lambda>s. sg_status s \<in> {SaPendingInit, SaRunning}) subs"

definition has_foreground_activity :: "session_state \<Rightarrow> bool" where
  "has_foreground_activity s =
     (case s of
        StStarting \<Rightarrow> True
      | StRunning r \<Rightarrow> \<not> is_requires_action s \<or> any_subagent_active (rn_subagents r)
      | StError _ \<Rightarrow> False
      | StIdle \<Rightarrow> False)"

definition is_unrecoverable_resume_error :: "error_reason \<Rightarrow> bool" where
  "is_unrecoverable_resume_error r =
     (case r of
        ErrBackend _ message \<Rightarrow>
          str_contains ''No conversation found'' message \<or>
          str_contains ''error_during_execution'' message \<or>
          str_contains ''no rollout found for thread id'' message \<or>
          str_contains ''thread not found:'' message
      | _ \<Rightarrow> False)"

end
