(* ===== verification/Session_Reducer.thy ===== *)
theory Session_Reducer
  imports Session_Types
begin

text \<open>
  The reducer of an agent session (\<open>crates/aionui-session/src/reducer.rs\<close>): the one
  function that computes the next state from a state and an event, with the transitions it
  announces. The arms of the large match are functions of their own.
\<close>

record transition =
  tr_from :: session_state
  tr_to :: session_state
  tr_epoch :: u64

datatype external_phase_t = PhaseStarting | PhaseRunning | PhaseRequiresAction | PhaseError | PhaseIdle

definition external_phase :: "session_state \<Rightarrow> external_phase_t" where
  "external_phase s =
     (case s of
        StStarting \<Rightarrow> PhaseStarting
      | StRunning _ \<Rightarrow> if is_requires_action s then PhaseRequiresAction else PhaseRunning
      | StError _ \<Rightarrow> PhaseError
      | StIdle \<Rightarrow> PhaseIdle)"

definition settle :: "session_state \<Rightarrow> session_state \<Rightarrow> u64 \<Rightarrow> session_state \<times> transition list" where
  "settle from to epoch =
     (to, if external_phase from \<noteq> external_phase to
          then [\<lparr>tr_from = from, tr_to = to, tr_epoch = epoch\<rparr>] else [])"

definition anchor_epoch :: "session_state \<Rightarrow> u64" where
  "anchor_epoch s = (case s of StRunning r \<Rightarrow> rn_since_epoch r | _ \<Rightarrow> 0)"

definition crash_outcome :: "bool \<Rightarrow> exit_status_lite option \<Rightarrow> outcome" where
  "crash_outcome terminal_result_seen exit =
     (if terminal_result_seen then FollowResult
      else case exit of
        Some x \<Rightarrow> if ex_code x = Some 0 \<and> ex_signal x = None then CleanNoResult else Crashed
      | None \<Rightarrow> Crashed)"

definition fresh_turn :: "u64 \<Rightarrow> running_turn" where
  "fresh_turn epoch =
     \<lparr>rn_since_epoch = epoch, rn_saw_substantive_output = False, rn_terminal_result_seen = False,
      rn_requires_action = requires_action_default, rn_subagents = []\<rparr>"

definition step_turn_started :: "session_state \<Rightarrow> u64 \<Rightarrow> session_state \<times> transition list" where
  "step_turn_started s epoch =
     (if (case s of StRunning r \<Rightarrow> epoch \<le> rn_since_epoch r | _ \<Rightarrow> False) then (s, [])
      else settle s (StRunning (fresh_turn epoch)) epoch)"

fun step_starting :: "session_event \<Rightarrow> session_state \<times> transition list" where
  "step_starting EvCancel = settle StStarting StIdle (anchor_epoch StStarting)"
| "step_starting (EvDetached _ _) = settle StStarting (StError ErrCrashed) (anchor_epoch StStarting)"
| "step_starting (EvTurnResult res) =
     (if re_is_error res
      then settle StStarting (StError (ErrBackend (re_api_error_status res) (re_result_text res)))
             (anchor_epoch StStarting)
      else (StStarting, []))"
| "step_starting _ = (StStarting, [])"

definition refused :: "turn_outcome \<Rightarrow> bool" where
  "refused out = (case out of OutCompleted (StopRefused _) \<Rightarrow> True | _ \<Rightarrow> False)"

text \<open>Where a terminal result leads a turn that has or has not seen substantive output.\<close>

definition result_state :: "bool \<Rightarrow> turn_result \<Rightarrow> session_state" where
  "result_state saw res =
     (if re_is_error res then StError (ErrBackend (re_api_error_status res) (re_result_text res))
      else if \<not> saw \<and> re_result_text res = [] \<and> \<not> refused (re_outcome res) then StError ErrEmptyTurn
      else StIdle)"

definition stale_result :: "running_turn \<Rightarrow> turn_result \<Rightarrow> bool" where
  "stale_result r res = (re_epoch res \<noteq> 0 \<and> re_epoch res < rn_since_epoch r)"

definition step_turn_result :: "running_turn \<Rightarrow> turn_result \<Rightarrow> session_state \<times> transition list" where
  "step_turn_result r res =
     (if stale_result r res then (StRunning r, [])
      else settle (StRunning r) (result_state (rn_saw_substantive_output r) res)
             (anchor_epoch (StRunning r)))"

definition step_detached :: "running_turn \<Rightarrow> exit_status_lite option \<Rightarrow> session_state \<times> transition list" where
  "step_detached r exit =
     (case crash_outcome (rn_terminal_result_seen r) exit of
        Crashed \<Rightarrow> settle (StRunning r) (StError ErrCrashed) (anchor_epoch (StRunning r))
      | CleanNoResult \<Rightarrow> settle (StRunning r) (StError ErrEmptyTurn) (anchor_epoch (StRunning r))
      | FollowResult \<Rightarrow> (StRunning r, []))"

text \<open>The counters are \<open>u32\<close> and saturate.\<close>

definition saturating_inc :: "u32 \<Rightarrow> u32" where
  "saturating_inc n = (if n = - 1 then n else n + 1)"

definition saturating_dec :: "u32 \<Rightarrow> u32" where
  "saturating_dec n = (if n = 0 then 0 else n - 1)"

fun update_requires_action ::
  "(u32 \<Rightarrow> u32) \<Rightarrow> permission_kind \<Rightarrow> requires_action_set \<Rightarrow> requires_action_set" where
  "update_requires_action f PermTool ra = ra\<lparr>ra_waiting_on_approval := f (ra_waiting_on_approval ra)\<rparr>"
| "update_requires_action f PermAuth ra = ra\<lparr>ra_waiting_on_auth := f (ra_waiting_on_auth ra)\<rparr>"

definition step_permission ::
  "(u32 \<Rightarrow> u32) \<Rightarrow> running_turn \<Rightarrow> permission_kind \<Rightarrow> session_state \<times> transition list" where
  "step_permission f r kind =
     settle (StRunning r)
       (StRunning (r\<lparr>rn_requires_action := update_requires_action f kind (rn_requires_action r)\<rparr>))
       (anchor_epoch (StRunning r))"

text \<open>The roster: the first entry with the reference is replaced unless that would revive it.\<close>

fun upsert_subagent :: "subagent_state \<Rightarrow> subagent_state list \<Rightarrow> subagent_state list" where
  "upsert_subagent x [] = [x]"
| "upsert_subagent x (y # ys) =
     (if sg_ref y = sg_ref x
      then (if subagent_is_terminal (sg_status y) \<and> \<not> subagent_is_terminal (sg_status x) then y # ys
            else x # ys)
      else y # upsert_subagent x ys)"

definition subagent_of_update :: "subagent_update \<Rightarrow> subagent_state" where
  "subagent_of_update u =
     \<lparr>sg_ref = su_ref u, sg_label = su_label u, sg_status = su_status u, sg_parent_ref = su_parent_ref u\<rparr>"

fun step_running :: "running_turn \<Rightarrow> session_event \<Rightarrow> session_state \<times> transition list" where
  "step_running r EvCancel = settle (StRunning r) StIdle (anchor_epoch (StRunning r))"
| "step_running r (EvMessageDelta _ text) =
     (StRunning (if text \<noteq> [] then r\<lparr>rn_saw_substantive_output := True\<rparr> else r), [])"
| "step_running r (EvToolResult _) = (StRunning (r\<lparr>rn_saw_substantive_output := True\<rparr>), [])"
| "step_running r (EvTurnResult res) = step_turn_result r res"
| "step_running r (EvDetached exit _) = step_detached r exit"
| "step_running r (EvPermission p) = step_permission saturating_inc r (pm_kind p)"
| "step_running r (EvPermissionResolved _ kind) = step_permission saturating_dec r kind"
| "step_running r (EvSubagentUpdate u) =
     (StRunning (r\<lparr>rn_subagents := upsert_subagent (subagent_of_update u) (rn_subagents r)\<rparr>), [])"
| "step_running r _ = (StRunning r, [])"

definition step :: "session_state \<Rightarrow> session_event \<Rightarrow> session_state \<times> transition list" where
  "step s ev =
     (case ev of
        EvTurnStarted epoch \<Rightarrow> step_turn_started s epoch
      | _ \<Rightarrow> (case s of
          StIdle \<Rightarrow> (s, [])
        | StError _ \<Rightarrow> (s, [])
        | StStarting \<Rightarrow> step_starting ev
        | StRunning r \<Rightarrow> step_running r ev))"

text \<open>A machine with announcements is run over a list of events; they come out in order.\<close>

fun run_machine :: "('s \<Rightarrow> 'e \<Rightarrow> 's \<times> 'a list) \<Rightarrow> 's \<Rightarrow> 'e list \<Rightarrow> 's \<times> 'a list" where
  "run_machine f s [] = (s, [])"
| "run_machine f s (ev # evs) =
     (let (s', ts) = f s ev; (s'', ts') = run_machine f s' evs in (s'', ts @ ts'))"

abbreviation run_events :: "session_state \<Rightarrow> session_event list \<Rightarrow> session_state \<times> transition list" where
  "run_events \<equiv> run_machine step"

definition is_turn_started :: "session_event \<Rightarrow> bool" where
  "is_turn_started ev = (case ev of EvTurnStarted _ \<Rightarrow> True | _ \<Rightarrow> False)"

definition is_terminal_state :: "session_state \<Rightarrow> bool" where
  "is_terminal_state s = (case s of StIdle \<Rightarrow> True | StError _ \<Rightarrow> True | _ \<Rightarrow> False)"


section \<open>Facts about a step\<close>

lemma external_phase_simps [simp]:
  "external_phase StStarting = PhaseStarting" "external_phase (StError e) = PhaseError"
  "external_phase StIdle = PhaseIdle"
  "external_phase (StRunning r) = (if requires_action_pending (rn_requires_action r)
     then PhaseRequiresAction else PhaseRunning)"
  by (simp_all add: external_phase_def is_requires_action_def)

lemma is_terminal_state_simps [simp]:
  "is_terminal_state StIdle" "is_terminal_state (StError e)" "\<not> is_terminal_state StStarting"
  "\<not> is_terminal_state (StRunning r)"
  by (simp_all add: is_terminal_state_def)

lemma is_turn_started_iff: "is_turn_started ev \<longleftrightarrow> (\<exists>epoch. ev = EvTurnStarted epoch)"
  by (simp add: is_turn_started_def split: session_event.split)

lemma step_simps [simp]:
  "step s (EvTurnStarted epoch) = step_turn_started s epoch"
  "\<not> is_turn_started ev \<Longrightarrow> step StIdle ev = (StIdle, [])"
  "\<not> is_turn_started ev \<Longrightarrow> step (StError e) ev = (StError e, [])"
  "\<not> is_turn_started ev \<Longrightarrow> step StStarting ev = step_starting ev"
  "\<not> is_turn_started ev \<Longrightarrow> step (StRunning r) ev = step_running r ev"
  by (simp add: step_def) (cases ev; simp add: step_def is_turn_started_def)+

lemma step_terminal: "is_terminal_state s \<Longrightarrow> \<not> is_turn_started ev \<Longrightarrow> step s ev = (s, [])"
  by (cases s) auto

lemma settle_simps [simp]: "fst (settle from to epoch) = to"
  by (simp add: settle_def)

text \<open>Every step announces exactly the change of the external phase.\<close>

definition announces :: "session_state \<Rightarrow> session_state \<times> transition list \<Rightarrow> bool" where
  "announces s res \<longleftrightarrow>
     (if external_phase s = external_phase (fst res) then snd res = []
      else \<exists>epoch. snd res = [\<lparr>tr_from = s, tr_to = fst res, tr_epoch = epoch\<rparr>])"

lemma announces_settle: "announces s (settle s to epoch)"
  by (auto simp: announces_def settle_def)

lemma announces_same: "external_phase s = external_phase to \<Longrightarrow> announces s (to, [])"
  by (simp add: announces_def)

lemma step_running_announces: "announces (StRunning r) (step_running r ev)"
proof (cases ev)
  case (EvTurnResult res)
  then show ?thesis by (simp add: step_turn_result_def announces_settle announces_same)
next
  case (EvDetached exit sm)
  then show ?thesis
    by (simp add: step_detached_def announces_settle announces_same split: outcome.split)
qed (simp_all add: step_permission_def announces_settle announces_same)

lemma step_announces: "announces s (step s ev)"
proof (cases "is_turn_started ev")
  case True
  then show ?thesis
    by (auto simp: is_turn_started_iff step_turn_started_def announces_settle announces_same)
next
  case False
  show ?thesis
  proof (cases s)
    case StStarting
    with False show ?thesis
      by (cases ev) (auto simp: is_turn_started_iff announces_settle announces_same)
  next
    case (StRunning r)
    with False show ?thesis by (simp add: step_running_announces)
  qed (use False in \<open>simp_all add: announces_same\<close>)
qed



section \<open>The contract of a reducer\<close>

text \<open>
  What the consumers of a reducer rely on: it announces exactly the changes of the observable
  phase, and a state in which a turn has ended changes only when another turn starts. An
  observer of the announcements alone then always knows the phase.
\<close>

locale announced_machine =
  fixes f :: "'s \<Rightarrow> 'e \<Rightarrow> 's \<times> 'a list" and phase :: "'s \<Rightarrow> 'p"
    and before :: "'a \<Rightarrow> 'p" and after :: "'a \<Rightarrow> 'p"
    and ended :: "'s \<Rightarrow> bool" and restarts :: "'e \<Rightarrow> bool"
  assumes announced: "f s ev = (s', ts) \<Longrightarrow>
      map after ts = (if phase s = phase s' then [] else [phase s']) \<and>
      map before ts = (if phase s = phase s' then [] else [phase s])"
    and absorbing: "ended s \<Longrightarrow> \<not> restarts ev \<Longrightarrow> f s ev = (s, [])"
begin

lemma observer_knows_phase:
  "run_machine f s evs = (s', ts) \<Longrightarrow> phase s' = last (phase s # map after ts)"
proof (induction evs arbitrary: s s' ts)
  case (Cons ev evs)
  obtain s1 ts1 where 1: "f s ev = (s1, ts1)" by fastforce
  obtain ts2 where 2: "run_machine f s1 evs = (s', ts2)" "ts = ts1 @ ts2"
    using Cons.prems 1 by (auto split: prod.splits)
  show ?case using Cons.IH [OF 2(1)] announced [OF 1] 2(2) by (cases ts2) auto
qed simp

lemma announcements_are_changes:
  "run_machine f s evs = (s', ts) \<Longrightarrow> successively (\<noteq>) (phase s # map after ts)"
proof (induction evs arbitrary: s s' ts)
  case (Cons ev evs)
  obtain s1 ts1 where 1: "f s ev = (s1, ts1)" by fastforce
  obtain ts2 where 2: "run_machine f s1 evs = (s', ts2)" "ts = ts1 @ ts2"
    using Cons.prems 1 by (auto split: prod.splits)
  have "successively (\<noteq>) (phase s1 # map after ts2)" by (rule Cons.IH [OF 2(1)])
  then show ?case using announced [OF 1] 2(2) by (auto split: if_splits)
qed simp

text \<open>Each announcement continues the one before.\<close>

lemma announcements_chain:
  "run_machine f s evs = (s', ts) \<Longrightarrow> map before ts = butlast (phase s # map after ts)"
proof (induction evs arbitrary: s s' ts)
  case (Cons ev evs)
  obtain s1 ts1 where 1: "f s ev = (s1, ts1)" by fastforce
  obtain ts2 where 2: "run_machine f s1 evs = (s', ts2)" "ts = ts1 @ ts2"
    using Cons.prems 1 by (auto split: prod.splits)
  have "map before ts2 = butlast (phase s1 # map after ts2)" by (rule Cons.IH [OF 2(1)])
  then show ?case using announced [OF 1] 2(2) by (auto split: if_splits)
qed simp

lemma ended_absorbs:
  "ended s \<Longrightarrow> \<forall>ev \<in> set evs. \<not> restarts ev \<Longrightarrow> run_machine f s evs = (s, [])"
  by (induction evs) (simp_all add: absorbing)

end

lemma run_machine_append:
  "run_machine f s (xs @ ys) =
     (let (s', ts) = run_machine f s xs; (s'', ts') = run_machine f s' ys in (s'', ts @ ts'))"
  by (induction xs arbitrary: s) (auto simp: Let_def split: prod.splits)

interpretation reducer: announced_machine step external_phase "\<lambda>t. external_phase (tr_from t)"
  "\<lambda>t. external_phase (tr_to t)"
  is_terminal_state is_turn_started
proof
  fix s ev s' ts
  assume "step s ev = (s', ts)"
  then show "map (\<lambda>t. external_phase (tr_to t)) ts =
      (if external_phase s = external_phase s' then [] else [external_phase s']) \<and>
      map (\<lambda>t. external_phase (tr_from t)) ts =
      (if external_phase s = external_phase s' then [] else [external_phase s])"
    using step_announces [of s ev] by (auto simp: announces_def split: if_splits)
qed (rule step_terminal)

end
