(* ===== verification/Session_Orchestrator.thy ===== *)
theory Session_Orchestrator
  imports Session_Reducer
begin

text \<open>
  The orchestrator of agent sessions (\<open>crates/aionui-session/src/backend/orchestrator.rs\<close>):
  the fold of every envelope through the reducer, the background roster of workflows, the
  snapshots pushed to subscribers and the caches a lagging or late subscriber recovers from.

  A broadcast channel is the list of everything sent on it, oldest first; a receiver is a
  position in that list, and the ring of capacity \<open>cap\<close> decides what it can still read.
  Envelopes that \<open>send\<close> and \<open>cancel\<close> lower wait in \<open>or_lowered\<close>. Logging is left out.
\<close>

section \<open>Data\<close>

record session_envelope =
  se_session_id :: id
  se_turn_gen :: u64
  se_event :: session_event

datatype transition_reason =
  ReasonStarted
| ReasonCompleted stop_reason
| ReasonErrored error_reason
| ReasonCancelled cancel_reason
| ReasonPermissionRequested permission_kind
| ReasonPermissionResolved

record state_snapshot =
  sn_session_id :: id
  sn_state :: session_state
  sn_can_send :: bool
  sn_has_activity :: bool
  sn_can_queue :: bool
  sn_can_cancel :: bool
  sn_turn_gen :: u64
  sn_last_reason :: "transition_reason option"

datatype admission = AdmStarted | AdmQueued | AdmNoTurn

record command_receipt =
  cr_accepted :: bool
  cr_admission :: admission
  cr_turn_gen :: u64

text \<open>The orchestrator and the lanes of its run loop: one state and one roster per session.\<close>

record orchestrator =
  or_event_tx :: "session_envelope list"
  or_state_tx :: "state_snapshot list"
  or_lowered :: "session_envelope list"
  or_latest :: "(id, state_snapshot) hash_map"
  or_last_terminal :: "(id, u64 \<times> transition_reason) hash_map"
  or_fsms :: "(id, session_state) hash_map"
  or_rosters :: "(id, workflow_roster) hash_map"

definition orchestrator_new :: orchestrator where
  "orchestrator_new = \<lparr>or_event_tx = [], or_state_tx = [], or_lowered = [], or_latest = [],
     or_last_terminal = [], or_fsms = [], or_rosters = []\<rparr>"

definition fsm_of :: "orchestrator \<Rightarrow> id \<Rightarrow> session_state" where
  "fsm_of o1 sid = (case map_of (or_fsms o1) sid of None \<Rightarrow> StIdle | Some s \<Rightarrow> s)"

definition roster_of :: "orchestrator \<Rightarrow> id \<Rightarrow> workflow_roster" where
  "roster_of o1 sid = (case map_of (or_rosters o1) sid of None \<Rightarrow> [] | Some m \<Rightarrow> m)"


section \<open>Helpers of the fold\<close>

definition restamp_epoch :: "session_envelope \<Rightarrow> session_envelope" where
  "restamp_epoch env =
     (case se_event env of
        EvTurnResult res \<Rightarrow>
          if re_epoch res = 0 then env\<lparr>se_event := EvTurnResult (res\<lparr>re_epoch := se_turn_gen env\<rparr>)\<rparr> else env
      | _ \<Rightarrow> env)"

definition prune_terminal_subagents :: "session_state \<Rightarrow> session_state" where
  "prune_terminal_subagents s =
     (case s of
        StRunning r \<Rightarrow> StRunning (r\<lparr>rn_subagents :=
          filter (\<lambda>x. sg_status x \<notin> {SaCompleted, SaErrored, SaShutdown}) (rn_subagents r)\<rparr>)
      | _ \<Rightarrow> s)"

definition keep_some :: "'a option \<Rightarrow> 'a option \<Rightarrow> 'a option" where
  "keep_some new old = (if new \<noteq> None then new else old)"

definition roster_detail :: "subagent_detail \<Rightarrow> workflow_roster \<Rightarrow> workflow_roster" where
  "roster_detail d roster =
     (let slot = (case map_of roster (sd_ref d) of
          Some w \<Rightarrow> w
        | None \<Rightarrow> \<lparr>wa_ref_id = sd_ref d, wa_task_status = WfRunning, wa_has_lifecycle = False,
            wa_retain = None, wa_label = None, wa_state = None, wa_model = None,
            wa_last_tool_name = None, wa_tokens = None, wa_tool_calls = None\<rparr>)
      in hm_insert (sd_ref d)
        (slot\<lparr>wa_label := keep_some (sd_label d) (wa_label slot),
          wa_state := keep_some (sd_loop_state d) (wa_state slot),
          wa_model := keep_some (sd_model d) (wa_model slot),
          wa_tokens := keep_some (sd_tokens d) (wa_tokens slot),
          wa_tool_calls := keep_some (sd_tool_calls d) (wa_tool_calls slot),
          wa_last_tool_name := keep_some (sd_last_tool_name d) (wa_last_tool_name slot)\<rparr>) roster)"

fun task_status_of :: "subagent_status \<Rightarrow> workflow_task_status" where
  "task_status_of SaPendingInit = WfRunning"
| "task_status_of SaRunning = WfRunning"
| "task_status_of SaCompleted = WfCompleted"
| "task_status_of SaErrored = WfFailed"
| "task_status_of SaInterrupted = WfStopped"
| "task_status_of SaShutdown = WfStopped"

definition roster_lifecycle :: "subagent_update \<Rightarrow> workflow_roster \<Rightarrow> workflow_roster" where
  "roster_lifecycle u roster =
     (let task_status = task_status_of (su_status u) in
      case map_of roster (su_ref u) of
        Some slot \<Rightarrow>
          if workflow_is_terminal (wa_task_status slot) \<and> \<not> workflow_is_terminal task_status then roster
          else hm_insert (su_ref u)
            (slot\<lparr>wa_task_status := task_status, wa_has_lifecycle := True,
              wa_label := keep_some (su_label u) (wa_label slot)\<rparr>) roster
      | None \<Rightarrow> hm_insert (su_ref u)
          \<lparr>wa_ref_id = su_ref u, wa_task_status = task_status, wa_has_lifecycle = True,
            wa_retain = None, wa_label = su_label u, wa_state = None, wa_model = None,
            wa_last_tool_name = None, wa_tokens = None, wa_tool_calls = None\<rparr> roster)"

definition update_roster :: "session_event \<Rightarrow> workflow_roster \<Rightarrow> workflow_roster" where
  "update_roster ev roster =
     (case ev of
        EvSubagentDetail d \<Rightarrow> roster_detail d roster
      | EvSubagentUpdate u \<Rightarrow> roster_lifecycle u roster
      | _ \<Rightarrow> roster)"

definition process_gone :: "session_event \<Rightarrow> bool" where
  "process_gone ev = (case ev of EvBackendSuspended \<Rightarrow> True | EvDetached _ _ \<Rightarrow> True | _ \<Rightarrow> False)"

definition fold_roster :: "session_event \<Rightarrow> workflow_roster \<Rightarrow> workflow_roster" where
  "fold_roster ev roster = (if process_gone ev then [] else update_roster ev roster)"

definition idle_reason :: "session_event \<Rightarrow> transition_reason" where
  "idle_reason ev =
     (case ev of
        EvCancel \<Rightarrow> ReasonCancelled UserCancel
      | EvTurnResult res \<Rightarrow>
          (case re_outcome res of
             OutCancelled reason \<Rightarrow> ReasonCancelled reason
           | OutCompleted reason \<Rightarrow> ReasonCompleted reason
           | _ \<Rightarrow> ReasonCompleted StopEndTurn)
      | _ \<Rightarrow> ReasonCompleted StopEndTurn)"

definition base_reason :: "transition \<Rightarrow> session_event \<Rightarrow> transition_reason" where
  "base_reason t ev =
     (case tr_to t of
        StRunning _ \<Rightarrow>
          (case ev of EvPermissionResolved _ _ \<Rightarrow> ReasonPermissionResolved | _ \<Rightarrow> ReasonStarted)
      | StIdle \<Rightarrow> idle_reason ev
      | StError reason \<Rightarrow> ReasonErrored reason
      | StStarting \<Rightarrow> ReasonStarted)"

definition derive_reason :: "transition option \<Rightarrow> session_event \<Rightarrow> transition_reason option" where
  "derive_reason t ev =
     (case t of
        None \<Rightarrow> None
      | Some t \<Rightarrow>
          (case (is_requires_action (tr_to t) \<and> \<not> is_requires_action (tr_from t), ev) of
             (True, EvPermission p) \<Rightarrow> Some (ReasonPermissionRequested (pm_kind p))
           | _ \<Rightarrow> Some (base_reason t ev)))"


section \<open>The fold\<close>

definition list_last :: "'a list \<Rightarrow> 'a option" where
  "list_last xs = (if xs = [] then None else Some (last xs))"

definition has_activity :: "session_state \<Rightarrow> workflow_roster \<Rightarrow> bool" where
  "has_activity s roster = (has_foreground_activity s \<or> background_active roster)"

definition snapshot_of :: "bool \<Rightarrow> session_envelope \<Rightarrow> session_state \<Rightarrow> workflow_roster \<Rightarrow>
    transition_reason option \<Rightarrow> state_snapshot" where
  "snapshot_of proactive env s roster reason =
     \<lparr>sn_session_id = se_session_id env, sn_state = s, sn_can_send = can_send_message s,
      sn_has_activity = has_activity s roster, sn_can_queue = can_queue_message s proactive,
      sn_can_cancel = can_cancel s, sn_turn_gen = se_turn_gen env, sn_last_reason = reason\<rparr>"

definition record_terminal :: "session_envelope \<Rightarrow> state_snapshot \<Rightarrow>
    (id, u64 \<times> transition_reason) hash_map \<Rightarrow> (id, u64 \<times> transition_reason) hash_map" where
  "record_terminal env snap m =
     (if is_terminal_state (sn_state snap)
      then (case sn_last_reason snap of
              Some reason \<Rightarrow> hm_insert (se_session_id env) (se_turn_gen env, reason) m
            | None \<Rightarrow> m)
      else m)"

definition dead_anchor :: "session_state \<Rightarrow> bool" where
  "dead_anchor s = (case s of StError reason \<Rightarrow> is_unrecoverable_resume_error reason | _ \<Rightarrow> False)"

definition push_snapshot :: "session_envelope \<Rightarrow> state_snapshot \<Rightarrow> orchestrator \<Rightarrow> orchestrator" where
  "push_snapshot env snap o1 =
     o1\<lparr>or_latest := hm_insert (se_session_id env) snap (or_latest o1),
        or_last_terminal := record_terminal env snap (or_last_terminal o1),
        or_event_tx := or_event_tx o1 @
          (if dead_anchor (sn_state snap) then [env\<lparr>se_event := EvBackendBound None\<rparr>] else []),
        or_state_tx := or_state_tx o1 @ [snap]\<rparr>"

definition fold_one :: "bool \<Rightarrow> session_envelope \<Rightarrow> orchestrator \<Rightarrow> orchestrator" where
  "fold_one proactive env0 o1 =
     (let env = restamp_epoch env0; sid = se_session_id env; ev = se_event env;
          roster = roster_of o1 sid; roster' = fold_roster ev roster;
          prev = fsm_of o1 sid; (next, ts) = step prev ev;
          next = prune_terminal_subagents next;
          o2 = o1\<lparr>or_event_tx := or_event_tx o1 @ [env],
                 or_rosters := hm_insert sid roster' (or_rosters o1),
                 or_fsms := hm_insert sid next (or_fsms o1)\<rparr>
      in if ts \<noteq> [] \<or> has_activity prev roster \<noteq> has_activity next roster'
         then push_snapshot env (snapshot_of proactive env next roster' (derive_reason (list_last ts) ev)) o2
         else o2)"


section \<open>Commands, reconnecting and subscribing\<close>

text \<open>What the backend answered is an argument of the commands.\<close>

definition orchestrator_send :: "id \<Rightarrow> 'e + command_receipt \<Rightarrow> orchestrator \<Rightarrow>
    ('e + command_receipt) \<times> orchestrator" where
  "orchestrator_send sid answer o1 =
     (case answer of
        Inl err \<Rightarrow> (Inl err, o1)
      | Inr receipt \<Rightarrow>
          (Inr receipt,
           if cr_admission receipt = AdmStarted
           then o1\<lparr>or_lowered := or_lowered o1 @ [\<lparr>se_session_id = sid, se_turn_gen = cr_turn_gen receipt,
                  se_event = EvTurnStarted (cr_turn_gen receipt)\<rparr>]\<rparr>
           else o1))"

definition orchestrator_cancel :: "id \<Rightarrow> 'e + command_receipt \<Rightarrow> orchestrator \<Rightarrow>
    ('e + command_receipt) \<times> orchestrator" where
  "orchestrator_cancel sid answer o1 =
     (case answer of
        Inl err \<Rightarrow> (Inl err, o1)
      | Inr receipt \<Rightarrow>
          (Inr receipt, o1\<lparr>or_lowered := or_lowered o1 @ [\<lparr>se_session_id = sid,
             se_turn_gen = cr_turn_gen receipt, se_event = EvCancel\<rparr>]\<rparr>))"

text \<open>The textual form of a state (derived \<open>Debug\<close>) is an argument.\<close>

definition reconnect :: "(session_state \<Rightarrow> string) \<Rightarrow> id \<Rightarrow> orchestrator \<Rightarrow> orchestrator" where
  "reconnect repr sid o1 =
     (case map_of (or_latest o1) sid of
        None \<Rightarrow> o1
      | Some snap \<Rightarrow>
          o1\<lparr>or_event_tx := or_event_tx o1 @ [\<lparr>se_session_id = sid, se_turn_gen = sn_turn_gen snap,
               se_event = EvSnapshot (repr (sn_state snap)) (sn_turn_gen snap)\<rparr>],
             or_state_tx := or_state_tx o1 @ [snap]\<rparr>)"

definition latest_snapshot :: "id \<Rightarrow> orchestrator \<Rightarrow> state_snapshot option" where
  "latest_snapshot sid o1 = map_of (or_latest o1) sid"

definition latest_terminal :: "id \<Rightarrow> orchestrator \<Rightarrow> (u64 \<times> transition_reason) option" where
  "latest_terminal sid o1 = map_of (or_last_terminal o1) sid"

text \<open>One turn of the run loop: a lowered envelope first, else what the backend emitted.\<close>

definition run_turn :: "bool \<Rightarrow> session_envelope option \<Rightarrow> orchestrator \<Rightarrow> orchestrator" where
  "run_turn proactive backend o1 =
     (case or_lowered o1 of
        low # rest \<Rightarrow> fold_one proactive low (o1\<lparr>or_lowered := rest\<rparr>)
      | [] \<Rightarrow> (case backend of Some env \<Rightarrow> fold_one proactive env o1 | None \<Rightarrow> o1))"

text \<open>When the stream of the backend has ended, what was lowered is drained.\<close>

definition drain_lowered :: "bool \<Rightarrow> orchestrator \<Rightarrow> orchestrator" where
  "drain_lowered proactive o1 = fold (fold_one proactive) (or_lowered o1) (o1\<lparr>or_lowered := []\<rparr>)"

record state_subscriber =
  sb_me :: id
  sb_pos :: nat
  sb_seed :: "state_snapshot option"

datatype 'a recv = Received 'a | Lagged nat | Waiting

text \<open>A receiver that fell more than the capacity behind is moved to the oldest value that the
  ring still holds and told how many it missed.\<close>

definition ring_recv :: "nat \<Rightarrow> 'a list \<Rightarrow> nat \<Rightarrow> 'a recv \<times> nat" where
  "ring_recv cap log pos =
     (if length log - pos > cap then (Lagged (length log - cap - pos), length log - cap)
      else if pos < length log then (Received (log ! pos), Suc pos)
      else (Waiting, pos))"

definition initial_snapshot :: "id \<Rightarrow> state_snapshot" where
  "initial_snapshot me =
     \<lparr>sn_session_id = me, sn_state = StIdle, sn_can_send = True, sn_has_activity = False,
      sn_can_queue = False, sn_can_cancel = False, sn_turn_gen = 0, sn_last_reason = None\<rparr>"

definition subscribe_state :: "id \<Rightarrow> orchestrator \<Rightarrow> state_subscriber" where
  "subscribe_state me o1 =
     \<lparr>sb_me = me, sb_pos = length (or_state_tx o1), sb_seed = map_of (or_latest o1) me\<rparr>"

text \<open>Polling the stream delivers a snapshot or waits; other sessions' snapshots are skipped.\<close>

function poll_state :: "nat \<Rightarrow> orchestrator \<Rightarrow> state_subscriber \<Rightarrow>
    state_snapshot option \<times> state_subscriber" where
  "poll_state cap o1 sb =
     (case sb_seed sb of
        Some s \<Rightarrow> (Some s, sb\<lparr>sb_seed := None\<rparr>)
      | None \<Rightarrow>
          (case ring_recv cap (or_state_tx o1) (sb_pos sb) of
             (Received s, pos) \<Rightarrow>
               if sn_session_id s = sb_me sb then (Some s, sb\<lparr>sb_pos := pos\<rparr>)
               else poll_state cap o1 (sb\<lparr>sb_pos := pos\<rparr>)
           | (Lagged _, pos) \<Rightarrow>
               (Some (case map_of (or_latest o1) (sb_me sb) of
                        Some s \<Rightarrow> s | None \<Rightarrow> initial_snapshot (sb_me sb)), sb\<lparr>sb_pos := pos\<rparr>)
           | (Waiting, pos) \<Rightarrow> (None, sb\<lparr>sb_pos := pos\<rparr>)))"
  by pat_completeness auto

termination
  by (relation "measure (\<lambda>(cap, o1, sb). length (or_state_tx o1) - sb_pos sb)")
    (auto simp: ring_recv_def split: if_splits)

text \<open>The stream of events tells a lagging consumer that it missed some.\<close>

function poll_events :: "nat \<Rightarrow> orchestrator \<Rightarrow> id \<Rightarrow> nat \<Rightarrow> session_envelope option \<times> nat" where
  "poll_events cap o1 me pos =
     (case ring_recv cap (or_event_tx o1) pos of
        (Received env, pos') \<Rightarrow>
          if se_session_id env = me then (Some env, pos') else poll_events cap o1 me pos'
      | (Lagged n, pos') \<Rightarrow>
          (Some \<lparr>se_session_id = me, se_turn_gen = 0, se_event = EvLagged (of_nat n)\<rparr>, pos')
      | (Waiting, pos') \<Rightarrow> (None, pos'))"
  by pat_completeness auto

termination
  by (relation "measure (\<lambda>(cap, o1, me, pos). length (or_event_tx o1) - pos)")
    (auto simp: ring_recv_def split: if_splits)

declare poll_state.simps [simp del] poll_events.simps [simp del]

end
