(* ===== verification/Session_Invariant.thy ===== *)
theory Session_Invariant
  imports Session_Orchestrator
begin

text \<open>
  The steps of an orchestrator and the invariant that ties what it tells its subscribers to the
  states of the sessions: the cached snapshot of a session, the newest one on the channel and
  the sticky terminal all agree with the session's state and roster.
\<close>

inductive orchestrator_step :: "bool \<Rightarrow> (session_state \<Rightarrow> string) \<Rightarrow> orchestrator \<Rightarrow> orchestrator \<Rightarrow> bool"
  for proactive repr where
  loop_turn: "orchestrator_step proactive repr o1 (run_turn proactive backend o1)"
| loop_drain: "orchestrator_step proactive repr o1 (drain_lowered proactive o1)"
| command_send: "orchestrator_send sid (answer :: string + command_receipt) o1 = (reply, o2) \<Longrightarrow> orchestrator_step proactive repr o1 o2"
| command_cancel: "orchestrator_cancel sid (answer :: string + command_receipt) o1 = (reply, o2) \<Longrightarrow> orchestrator_step proactive repr o1 o2"
| resubscribe: "orchestrator_step proactive repr o1 (reconnect repr sid o1)"

definition orchestrator_reachable :: "bool \<Rightarrow> (session_state \<Rightarrow> string) \<Rightarrow> orchestrator \<Rightarrow> bool" where
  "orchestrator_reachable proactive repr o1 \<longleftrightarrow> (orchestrator_step proactive repr)\<^sup>*\<^sup>* orchestrator_new o1"

text \<open>A snapshot is truthful of a session when every derived bit is what the session's state and
  roster say now.\<close>

definition truthful :: "bool \<Rightarrow> orchestrator \<Rightarrow> id \<Rightarrow> state_snapshot \<Rightarrow> bool" where
  "truthful proactive o1 sid snap \<longleftrightarrow>
     sn_session_id snap = sid \<and>
     sn_can_send snap = can_send_message (fsm_of o1 sid) \<and>
     sn_has_activity snap = has_activity (fsm_of o1 sid) (roster_of o1 sid) \<and>
     sn_can_queue snap = can_queue_message (fsm_of o1 sid) proactive \<and>
     sn_can_cancel snap = can_cancel (fsm_of o1 sid) \<and>
     external_phase (sn_state snap) = external_phase (fsm_of o1 sid) \<and>
     (is_terminal_state (fsm_of o1 sid) \<longrightarrow> sn_state snap = fsm_of o1 sid)"

text \<open>The newest snapshot of a session among those sent.\<close>

definition newest :: "id \<Rightarrow> state_snapshot list \<Rightarrow> state_snapshot option" where
  "newest sid log = list_last (filter (\<lambda>s. sn_session_id s = sid) log)"

fun terminal_matches :: "session_state \<Rightarrow> (u64 \<times> transition_reason) option \<Rightarrow> bool" where
  "terminal_matches (StError e) t = (\<exists>g. t = Some (g, ReasonErrored e))"
| "terminal_matches StIdle t = (\<forall>g e. t \<noteq> Some (g, ReasonErrored e))"
| "terminal_matches _ t = True"

definition session_ok :: "bool \<Rightarrow> orchestrator \<Rightarrow> id \<Rightarrow> bool" where
  "session_ok proactive o1 sid \<longleftrightarrow>
     (case map_of (or_latest o1) sid of
        Some snap \<Rightarrow> truthful proactive o1 sid snap
      | None \<Rightarrow> fsm_of o1 sid = StIdle \<and> \<not> background_active (roster_of o1 sid)) \<and>
     newest sid (or_state_tx o1) = map_of (or_latest o1) sid \<and>
     terminal_matches (fsm_of o1 sid) (map_of (or_last_terminal o1) sid) \<and>
     fsm_of o1 sid \<noteq> StStarting"

section \<open>The views depend on the phase\<close>

lemma views_of_phase:
  "can_send_message s \<longleftrightarrow> external_phase s = PhaseIdle"
  "can_queue_message s p \<longleftrightarrow> p \<and> external_phase s = PhaseRunning"
  "can_cancel s \<longleftrightarrow> external_phase s \<in> {PhaseStarting, PhaseRunning, PhaseRequiresAction}"
  by (cases s; simp add: can_send_message_def can_queue_message_def can_cancel_def is_requires_action_def)+

lemma external_phase_prune [simp]: "external_phase (prune_terminal_subagents s) = external_phase s"
  by (cases s) (simp_all add: prune_terminal_subagents_def)

lemma prune_simps [simp]:
  "prune_terminal_subagents StIdle = StIdle" "prune_terminal_subagents (StError e) = StError e"
  "prune_terminal_subagents StStarting = StStarting"
  "is_terminal_state (prune_terminal_subagents s) = is_terminal_state s"
  by (simp_all add: prune_terminal_subagents_def split: session_state.split)

lemma phase_terminal:
  "external_phase s = PhaseIdle \<longleftrightarrow> s = StIdle" "external_phase s = PhaseStarting \<longleftrightarrow> s = StStarting"
  "is_terminal_state s \<longleftrightarrow> external_phase s \<in> {PhaseIdle, PhaseError}"
  by (cases s; simp)+

lemma fsm_of_simps [simp]:
  "fsm_of (o1\<lparr>or_event_tx := a\<rparr>) = fsm_of o1" "fsm_of (o1\<lparr>or_state_tx := b\<rparr>) = fsm_of o1"
  "fsm_of (o1\<lparr>or_lowered := c\<rparr>) = fsm_of o1" "fsm_of (o1\<lparr>or_latest := d\<rparr>) = fsm_of o1"
  "fsm_of (o1\<lparr>or_last_terminal := e\<rparr>) = fsm_of o1" "fsm_of (o1\<lparr>or_rosters := f\<rparr>) = fsm_of o1"
  "fsm_of (o1\<lparr>or_fsms := hm_insert sid s m\<rparr>) = (\<lambda>x. if x = sid then s else fsm_of (o1\<lparr>or_fsms := m\<rparr>) x)"
  by (auto simp: fsm_of_def)

lemma roster_of_simps [simp]:
  "roster_of (o1\<lparr>or_event_tx := a\<rparr>) = roster_of o1" "roster_of (o1\<lparr>or_state_tx := b\<rparr>) = roster_of o1"
  "roster_of (o1\<lparr>or_lowered := c\<rparr>) = roster_of o1" "roster_of (o1\<lparr>or_latest := d\<rparr>) = roster_of o1"
  "roster_of (o1\<lparr>or_last_terminal := e\<rparr>) = roster_of o1" "roster_of (o1\<lparr>or_fsms := f\<rparr>) = roster_of o1"
  "roster_of (o1\<lparr>or_rosters := hm_insert sid s m\<rparr>) = (\<lambda>x. if x = sid then s else roster_of (o1\<lparr>or_rosters := m\<rparr>) x)"
  by (auto simp: roster_of_def)

lemma record_same [simp]: "o1\<lparr>or_fsms := or_fsms o1\<rparr> = o1" "o1\<lparr>or_rosters := or_rosters o1\<rparr> = o1"
  by simp_all

lemma newest_append:
  "newest sid (log @ [s]) = (if sn_session_id s = sid then Some s else newest sid log)"
  by (simp add: newest_def list_last_def)

section \<open>One fold\<close>

text \<open>What a fold makes of its session, in terms of the step and the roster.\<close>

definition fold_next :: "orchestrator \<Rightarrow> session_envelope \<Rightarrow> session_state" where
  "fold_next o1 env0 =
     prune_terminal_subagents (fst (step (fsm_of o1 (se_session_id env0)) (se_event (restamp_epoch env0))))"

lemma restamp_session [simp]: "se_session_id (restamp_epoch env) = se_session_id env"
  "se_turn_gen (restamp_epoch env) = se_turn_gen env"
  by (simp_all add: restamp_epoch_def split: session_event.split)

lemma fold_one_lanes:
  "fsm_of (fold_one p env o1) x = (if x = se_session_id env then fold_next o1 env else fsm_of o1 x)"
  "roster_of (fold_one p env o1) x = (if x = se_session_id env
     then fold_roster (se_event (restamp_epoch env)) (roster_of o1 x) else roster_of o1 x)"
  "or_lowered (fold_one p env o1) = or_lowered o1"
  by (simp_all add: fold_one_def fold_next_def push_snapshot_def Let_def split: prod.split)

definition fold_pushes :: "orchestrator \<Rightarrow> session_envelope \<Rightarrow> bool" where
  "fold_pushes o1 env0 \<longleftrightarrow>
     (let sid = se_session_id env0 in
      external_phase (fsm_of o1 sid) \<noteq> external_phase (fold_next o1 env0) \<or>
      has_activity (fsm_of o1 sid) (roster_of o1 sid) \<noteq>
      has_activity (fold_next o1 env0) (fold_roster (se_event (restamp_epoch env0)) (roster_of o1 sid)))"

lemma step_transitions:
  assumes "step s ev = (s', ts)"
  shows "ts = [] \<longleftrightarrow> external_phase s = external_phase s'"
    "ts \<noteq> [] \<Longrightarrow> \<exists>epoch. ts = [\<lparr>tr_from = s, tr_to = s', tr_epoch = epoch\<rparr>]"
  using step_announces [of s ev] assms by (auto simp: announces_def split: if_splits)

text \<open>The reason a fold gives: none without a transition, else that of the one transition.\<close>

definition fold_reason :: "orchestrator \<Rightarrow> session_envelope \<Rightarrow> transition_reason option" where
  "fold_reason o1 env0 =
     derive_reason (list_last (snd (step (fsm_of o1 (se_session_id env0)) (se_event (restamp_epoch env0)))))
       (se_event (restamp_epoch env0))"

lemma fold_one_caches:
  fixes env0 o1 p
  defines "o2 \<equiv> fold_one p env0 o1" and "sid \<equiv> se_session_id env0" and "env \<equiv> restamp_epoch env0"
  defines "snap \<equiv> snapshot_of p env (fold_next o1 env0) (fold_roster (se_event env) (roster_of o1 sid)) (fold_reason o1 env0)"
  shows "or_latest o2 = (if fold_pushes o1 env0 then hm_insert sid snap (or_latest o1) else or_latest o1)"
    "or_state_tx o2 = (if fold_pushes o1 env0 then or_state_tx o1 @ [snap] else or_state_tx o1)"
    "or_last_terminal o2 = (if fold_pushes o1 env0 then record_terminal env snap (or_last_terminal o1)
       else or_last_terminal o1)"
proof -
  obtain s' ts where st: "step (fsm_of o1 sid) (se_event env) = (s', ts)" by fastforce
  have next_eq: "fold_next o1 env0 = prune_terminal_subagents s'"
    using st by (simp add: fold_next_def sid_def env_def)
  have reason: "fold_reason o1 env0 = derive_reason (list_last ts) (se_event env)"
    using st by (simp add: fold_reason_def sid_def env_def)
  have push: "fold_pushes o1 env0 \<longleftrightarrow> ts \<noteq> [] \<or>
      has_activity (fsm_of o1 sid) (roster_of o1 sid) \<noteq>
      has_activity (prune_terminal_subagents s') (fold_roster (se_event env) (roster_of o1 sid))"
    using step_transitions(1) [OF st] next_eq by (simp add: fold_pushes_def Let_def sid_def env_def)
  show "or_latest o2 = (if fold_pushes o1 env0 then hm_insert sid snap (or_latest o1) else or_latest o1)"
    "or_state_tx o2 = (if fold_pushes o1 env0 then or_state_tx o1 @ [snap] else or_state_tx o1)"
    "or_last_terminal o2 = (if fold_pushes o1 env0 then record_terminal env snap (or_last_terminal o1)
       else or_last_terminal o1)"
    using st unfolding push
    by (simp_all add: o2_def snap_def fold_one_def Let_def reason next_eq flip: sid_def env_def)
      (simp_all add: sid_def env_def push_snapshot_def)
qed

text \<open>The reason of a step that ends a turn names the state it ends in.\<close>

lemma step_terminal_reason:
  assumes "step s ev = (s', ts)" "ts \<noteq> []" "is_terminal_state s'"
  shows "\<exists>reason. derive_reason (list_last ts) ev = Some reason \<and>
    (case s' of StError e \<Rightarrow> reason = ReasonErrored e | _ \<Rightarrow> \<forall>e. reason \<noteq> ReasonErrored e)"
proof -
  obtain epoch where ts: "ts = [\<lparr>tr_from = s, tr_to = s', tr_epoch = epoch\<rparr>]"
    using step_transitions(2) [OF assms(1,2)] by blast
  have "\<not> is_requires_action s'" using assms(3) by (cases s') (simp_all add: is_requires_action_def)
  moreover have "idle_reason ev \<noteq> ReasonErrored e" for e
    by (simp add: idle_reason_def split: session_event.split turn_outcome.split)
  ultimately show ?thesis
    using assms(3) ts
    by (cases s') (auto simp: derive_reason_def list_last_def base_reason_def)
qed



section \<open>The invariant\<close>

lemma step_not_starting: "s \<noteq> StStarting \<Longrightarrow> step s ev \<noteq> (StStarting, ts)"
proof (cases "is_turn_started ev")
  case True
  then show "s \<noteq> StStarting \<Longrightarrow> step s ev \<noteq> (StStarting, ts)"
    by (auto simp: is_turn_started_iff step_turn_started_def settle_def split: if_splits)
next
  case False
  assume "s \<noteq> StStarting"
  then show "step s ev \<noteq> (StStarting, ts)"
  proof (cases s)
    case (StRunning r)
    with False show ?thesis
      by (cases ev) (auto simp: settle_def step_turn_result_def result_state_def step_detached_def
          step_permission_def is_turn_started_iff split: outcome.split)
  qed (use False in auto)
qed

lemma truthful_snapshot:
  assumes "fsm_of o2 (se_session_id env) = s" "roster_of o2 (se_session_id env) = m"
  shows "truthful p o2 (se_session_id env) (snapshot_of p env s m reason)"
  using assms by (simp add: truthful_def snapshot_of_def)

lemma truthful_phase:
  assumes "truthful p o1 sid snap" "external_phase (fsm_of o1 sid) = external_phase (fsm_of o2 sid)"
    and "has_activity (fsm_of o1 sid) (roster_of o1 sid) = has_activity (fsm_of o2 sid) (roster_of o2 sid)"
    and "is_terminal_state (fsm_of o2 sid) \<Longrightarrow> fsm_of o2 sid = fsm_of o1 sid"
  shows "truthful p o2 sid snap"
  using assms by (auto simp: truthful_def views_of_phase phase_terminal(3))

text \<open>Without a transition a terminal state stays what it is.\<close>

lemma fold_next_quiet:
  assumes "external_phase (fsm_of o1 (se_session_id env)) = external_phase (fold_next o1 env)"
    and "is_terminal_state (fold_next o1 env)"
  shows "fold_next o1 env = fsm_of o1 (se_session_id env)"
proof -
  let ?s = "fsm_of o1 (se_session_id env)" and ?ev = "se_event (restamp_epoch env)"
  have fin: "is_terminal_state ?s" using assms by (simp add: phase_terminal(3))
  show ?thesis
  proof (cases "is_turn_started ?ev")
    case False
    then show ?thesis using fin by (cases ?s) (auto simp: fold_next_def)
  next
    case True
    then obtain epoch where "?ev = EvTurnStarted epoch" by (auto simp: is_turn_started_iff)
    then have "\<not> is_terminal_state (fold_next o1 env)"
      using fin by (cases ?s) (auto simp: fold_next_def step_turn_started_def)
    with assms(2) show ?thesis by simp
  qed
qed

lemma fold_one_other:
  assumes "sid \<noteq> se_session_id env" "session_ok p o1 sid"
  shows "session_ok p (fold_one p env o1) sid"
proof -
  have "map_of (or_latest (fold_one p env o1)) sid = map_of (or_latest o1) sid"
    "newest sid (or_state_tx (fold_one p env o1)) = newest sid (or_state_tx o1)"
    "map_of (or_last_terminal (fold_one p env o1)) sid = map_of (or_last_terminal o1) sid"
    using assms(1)
    by (simp_all add: fold_one_caches newest_append record_terminal_def snapshot_of_def split: option.split)
  then show ?thesis
    using assms by (simp add: session_ok_def truthful_def fold_one_lanes split: option.splits)
qed

lemma fold_terminal_matches:
  assumes "session_ok p o1 (se_session_id env)"
  shows "terminal_matches (fold_next o1 env)
    (map_of (or_last_terminal (fold_one p env o1)) (se_session_id env))"
proof -
  let ?sid = "se_session_id env" and ?env = "restamp_epoch env"
  let ?old = "fsm_of o1 ?sid" and ?new = "fold_next o1 env"
  have old: "terminal_matches ?old (map_of (or_last_terminal o1) ?sid)"
    using assms by (simp add: session_ok_def)
  obtain s' ts where st: "step ?old (se_event ?env) = (s', ts)" by fastforce
  have new: "?new = prune_terminal_subagents s'" and reason: "fold_reason o1 env = derive_reason (list_last ts) (se_event ?env)"
    using st by (simp_all add: fold_next_def fold_reason_def)
  note tr = step_transitions [OF st]
  show ?thesis
  proof (cases "is_terminal_state ?new")
    case False
    then show ?thesis by (cases ?new) auto
  next
    case True
    then have s': "?new = s'" "is_terminal_state s'" using new by (cases s'; simp)+
    show ?thesis
    proof (cases "ts = []")
      case True
      then have "external_phase ?old = external_phase ?new" using tr(1) s' by simp
      then have "?new = ?old" using \<open>is_terminal_state ?new\<close> by (rule fold_next_quiet)
      moreover have "fold_reason o1 env = None"
        using True by (simp add: reason list_last_def derive_reason_def)
      ultimately show ?thesis
        using old by (simp add: fold_one_caches record_terminal_def snapshot_of_def)
    next
      case False
      then obtain r where r: "derive_reason (list_last ts) (se_event ?env) = Some r"
        "case s' of StError e \<Rightarrow> r = ReasonErrored e | _ \<Rightarrow> \<forall>e. r \<noteq> ReasonErrored e"
        using step_terminal_reason [OF st _ s'(2)] by blast
      have "fold_pushes o1 env" using False tr(1) s'(1) by (simp add: fold_pushes_def Let_def)
      then have "map_of (or_last_terminal (fold_one p env o1)) ?sid = Some (se_turn_gen env, r)"
        using r(1) s' by (simp add: fold_one_caches record_terminal_def snapshot_of_def reason)
      then show ?thesis using r(2) s' by (cases s') auto
    qed
  qed
qed

lemma fold_one_ok:
  assumes "\<And>sid. session_ok p o1 sid"
  shows "session_ok p (fold_one p env o1) sid"
proof (cases "sid = se_session_id env")
  case False
  then show ?thesis using assms by (rule fold_one_other)
next
  case True
  let ?o2 = "fold_one p env o1"
  let ?snap = "snapshot_of p (restamp_epoch env) (fold_next o1 env)
    (fold_roster (se_event (restamp_epoch env)) (roster_of o1 sid)) (fold_reason o1 env)"
  have ok: "session_ok p o1 sid" by (rule assms)
  have lanes: "fsm_of ?o2 sid = fold_next o1 env"
    "roster_of ?o2 sid = fold_roster (se_event (restamp_epoch env)) (roster_of o1 sid)"
    by (simp_all add: fold_one_lanes True)
  have "fold_next o1 env \<noteq> StStarting"
    using ok step_not_starting [of "fsm_of o1 sid" "se_event (restamp_epoch env)"]
    by (cases "step (fsm_of o1 sid) (se_event (restamp_epoch env))")
      (auto simp: session_ok_def fold_next_def True phase_terminal(2) [symmetric])
  moreover have "terminal_matches (fold_next o1 env) (map_of (or_last_terminal ?o2) sid)"
    using fold_terminal_matches ok True by simp
  moreover have "(case map_of (or_latest ?o2) sid of
        Some snap \<Rightarrow> truthful p ?o2 sid snap
      | None \<Rightarrow> fsm_of ?o2 sid = StIdle \<and> \<not> background_active (roster_of ?o2 sid)) \<and>
     newest sid (or_state_tx ?o2) = map_of (or_latest ?o2) sid"
  proof (cases "fold_pushes o1 env")
    case push: True
    have "truthful p ?o2 sid ?snap"
      using truthful_snapshot [of ?o2 "restamp_epoch env"] lanes True by simp
    then show ?thesis
      using push True by (simp add: fold_one_caches newest_append) (simp add: snapshot_of_def)
  next
    case quiet: False
    then have ph: "external_phase (fsm_of o1 sid) = external_phase (fold_next o1 env)"
      and act: "has_activity (fsm_of o1 sid) (roster_of o1 sid) = has_activity (fsm_of ?o2 sid) (roster_of ?o2 sid)"
      by (simp_all add: fold_pushes_def Let_def True lanes [unfolded True])
    have same: "fold_next o1 env = fsm_of o1 sid" if "is_terminal_state (fold_next o1 env)"
      using fold_next_quiet [OF _ that] ph True by simp
    have "truthful p ?o2 sid snap" if "truthful p o1 sid snap" for snap
      using ph same by (intro truthful_phase [OF that _ act]) (simp_all only: lanes)
    moreover have "fsm_of ?o2 sid = StIdle \<and> \<not> background_active (roster_of ?o2 sid)"
      if "fsm_of o1 sid = StIdle" "\<not> background_active (roster_of o1 sid)"
    proof -
      have "fold_next o1 env = StIdle"
        using ph that(1) by (simp add: phase_terminal(1) [symmetric])
      then show ?thesis using act that by (simp add: lanes has_activity_def has_foreground_activity_def)
    qed
    ultimately show ?thesis
      using ok quiet by (simp add: session_ok_def fold_one_caches split: option.splits)
  qed
  ultimately show ?thesis by (simp add: session_ok_def lanes)
qed

lemma fold_fold_one_ok:
  assumes "\<And>sid. session_ok p o1 sid"
  shows "session_ok p (fold (fold_one p) envs o1) sid"
  using assms
proof (induction envs arbitrary: o1)
  case (Cons env envs)
  then show ?case using fold_one_ok by simp
qed simp

text \<open>Queueing an envelope changes nothing a session can see.\<close>

lemma session_ok_lowered [simp]: "session_ok p (o1\<lparr>or_lowered := ls\<rparr>) sid = session_ok p o1 sid"
  by (cases "map_of (or_latest o1) sid") (simp_all add: session_ok_def truthful_def)

lemma reconnect_ok:
  assumes "session_ok p o1 sid" "session_ok p o1 x"
  shows "session_ok p (reconnect repr sid o1) x"
  using assms
proof (cases "map_of (or_latest o1) sid")
  case None
  then show ?thesis using assms(2) by (simp add: reconnect_def)
next
  case (Some snap)
  then have "sn_session_id snap = sid" using assms(1) by (simp add: session_ok_def truthful_def)
  then have "newest x (or_state_tx (reconnect repr sid o1)) = newest x (or_state_tx o1)"
    using Some assms by (auto simp: reconnect_def newest_append session_ok_def)
  moreover have "fsm_of (reconnect repr sid o1) = fsm_of o1" "roster_of (reconnect repr sid o1) = roster_of o1"
    "or_latest (reconnect repr sid o1) = or_latest o1"
    "or_last_terminal (reconnect repr sid o1) = or_last_terminal o1"
    by (simp_all add: reconnect_def Some fsm_of_def roster_of_def)
  ultimately show ?thesis
    using assms(2) by (simp add: session_ok_def truthful_def split: option.splits)
qed

lemma orchestrator_step_ok:
  assumes "orchestrator_step p repr o1 o2" "\<And>sid. session_ok p o1 sid"
  shows "session_ok p o2 sid"
  using assms(1)
proof cases
  case (loop_turn backend)
  then show ?thesis
    using assms(2) by (auto simp: run_turn_def intro!: fold_one_ok split: list.split option.split)
next
  case loop_drain
  then show ?thesis using assms(2) by (simp add: drain_lowered_def fold_fold_one_ok)
next
  case (command_send sid answer reply)
  then show ?thesis using assms(2) by (auto simp: orchestrator_send_def split: sum.splits if_splits)
next
  case (command_cancel sid answer reply)
  then show ?thesis using assms(2) by (auto simp: orchestrator_cancel_def split: sum.splits)
next
  case (resubscribe sid)
  then show ?thesis using assms(2) by (simp add: reconnect_ok)
qed

lemma orchestrator_reachable_ok:
  assumes "orchestrator_reachable p repr o1"
  shows "session_ok p o1 sid"
proof -
  have "\<forall>sid. session_ok p o1 sid"
    using assms unfolding orchestrator_reachable_def
  proof (induction rule: rtranclp_induct)
    case base
    show ?case
      by (simp add: session_ok_def orchestrator_new_def fsm_of_def roster_of_def background_active_def
          newest_def list_last_def)
  next
    case (step o1 o2)
    then show ?case using orchestrator_step_ok by blast
  qed
  then show ?thesis ..
qed

end
