(* ===== verification/Session_Turn.thy ===== *)
theory Session_Turn
  imports Session_Invariant
begin

text \<open>
  Reference definitions of what the reducer computes event by event: how a turn ends, as a
  function of the first event that ends it and of the output before it, and how many answers
  the user owes, as a count over the events.
\<close>

section \<open>How a turn ends\<close>

fun ends_turn :: "u64 \<Rightarrow> session_event \<Rightarrow> bool" where
  "ends_turn epoch EvCancel = True"
| "ends_turn epoch (EvDetached _ _) = True"
| "ends_turn epoch (EvTurnResult res) = (re_epoch res = 0 \<or> epoch \<le> re_epoch res)"
| "ends_turn epoch _ = False"

fun substantive :: "session_event \<Rightarrow> bool" where
  "substantive (EvMessageDelta _ text) = (text \<noteq> [])"
| "substantive (EvToolResult _) = True"
| "substantive _ = False"

definition clean_exit :: "exit_status_lite option \<Rightarrow> bool" where
  "clean_exit exit = (exit = Some \<lparr>ex_code = Some 0, ex_signal = None\<rparr>)"

fun verdict_of :: "bool \<Rightarrow> session_event \<Rightarrow> session_state" where
  "verdict_of saw (EvTurnResult res) = result_state saw res"
| "verdict_of saw (EvDetached exit _) = StError (if clean_exit exit then ErrEmptyTurn else ErrCrashed)"
| "verdict_of saw _ = StIdle"

definition turn_verdict :: "u64 \<Rightarrow> session_event list \<Rightarrow> session_state option" where
  "turn_verdict epoch evs =
     (case dropWhile (\<lambda>ev. \<not> ends_turn epoch ev) evs of
        [] \<Rightarrow> None
      | ev # _ \<Rightarrow> Some (verdict_of (list_ex substantive (takeWhile (\<lambda>ev. \<not> ends_turn epoch ev) evs)) ev))"

text \<open>The answers owed: a resolution that answers nothing counts for nothing.\<close>

fun owed :: "permission_kind \<Rightarrow> session_event \<Rightarrow> nat \<Rightarrow> nat" where
  "owed k (EvPermission p) n = (if pm_kind p = k then Suc n else n)"
| "owed k (EvPermissionResolved _ k') n = (if k' = k then n - 1 else n)"
| "owed k _ n = n"

definition asks :: "permission_kind \<Rightarrow> session_event \<Rightarrow> bool" where
  "asks k ev = (case ev of EvPermission p \<Rightarrow> pm_kind p = k | _ \<Rightarrow> False)"

fun waiting_on :: "permission_kind \<Rightarrow> requires_action_set \<Rightarrow> u32" where
  "waiting_on PermTool ra = ra_waiting_on_approval ra"
| "waiting_on PermAuth ra = ra_waiting_on_auth ra"

section \<open>The reducer computes them\<close>

lemma clean_exit_iff:
  "clean_exit exit \<longleftrightarrow> (case exit of Some x \<Rightarrow> ex_code x = Some 0 \<and> ex_signal x = None | None \<Rightarrow> False)"
  by (cases exit) (auto simp: clean_exit_def)

text \<open>An event that does not end the turn leaves it running, with its accumulators advanced.\<close>

lemma step_within_turn:
  assumes "\<not> is_turn_started ev" "\<not> ends_turn (rn_since_epoch r) ev"
  obtains r' ts where "step (StRunning r) ev = (StRunning r', ts)"
    "rn_since_epoch r' = rn_since_epoch r" "rn_terminal_result_seen r' = rn_terminal_result_seen r"
    "rn_saw_substantive_output r' \<longleftrightarrow> rn_saw_substantive_output r \<or> substantive ev"
proof -
  have "\<exists>r' ts. step_running r ev = (StRunning r', ts) \<and> rn_since_epoch r' = rn_since_epoch r \<and>
      rn_terminal_result_seen r' = rn_terminal_result_seen r \<and>
      (rn_saw_substantive_output r' \<longleftrightarrow> rn_saw_substantive_output r \<or> substantive ev)"
    using assms(2)
    by (cases ev) (auto simp: step_turn_result_def stale_result_def step_permission_def settle_def)
  then show ?thesis using that assms(1) by auto
qed

lemma step_ending_turn:
  assumes "\<not> is_turn_started ev" "ends_turn (rn_since_epoch r) ev" "\<not> rn_terminal_result_seen r"
  shows "fst (step (StRunning r) ev) = verdict_of (rn_saw_substantive_output r) ev"
    "is_terminal_state (verdict_of (rn_saw_substantive_output r) ev)"
proof -
  have "fst (step_running r ev) = verdict_of (rn_saw_substantive_output r) ev \<and>
      is_terminal_state (verdict_of (rn_saw_substantive_output r) ev)"
    using assms(2,3)
    by (cases ev) (auto simp: step_turn_result_def stale_result_def step_detached_def crash_outcome_def
        clean_exit_iff result_state_def split: option.splits)
  then show "fst (step (StRunning r) ev) = verdict_of (rn_saw_substantive_output r) ev"
    "is_terminal_state (verdict_of (rn_saw_substantive_output r) ev)"
    using assms(1) by auto
qed

lemma run_turn_verdict:
  assumes "\<forall>ev \<in> set evs. \<not> is_turn_started ev" "\<not> rn_terminal_result_seen r"
  shows "case dropWhile (\<lambda>ev. \<not> ends_turn (rn_since_epoch r) ev) evs of
      [] \<Rightarrow> \<exists>r'. fst (run_events (StRunning r) evs) = StRunning r' \<and>
        rn_since_epoch r' = rn_since_epoch r \<and> \<not> rn_terminal_result_seen r' \<and>
        (rn_saw_substantive_output r' \<longleftrightarrow> rn_saw_substantive_output r \<or> list_ex substantive evs)
    | ev # _ \<Rightarrow> fst (run_events (StRunning r) evs) = verdict_of (rn_saw_substantive_output r \<or>
        list_ex substantive (takeWhile (\<lambda>ev. \<not> ends_turn (rn_since_epoch r) ev) evs)) ev"
  using assms
proof (induction evs arbitrary: r)
  case (Cons ev evs)
  have fresh: "\<not> is_turn_started ev" "\<forall>ev \<in> set evs. \<not> is_turn_started ev" using Cons.prems by auto
  show ?case
  proof (cases "ends_turn (rn_since_epoch r) ev")
    case True
    obtain s ts where st: "step (StRunning r) ev = (s, ts)" by fastforce
    then have s: "s = verdict_of (rn_saw_substantive_output r) ev" "is_terminal_state s"
      using step_ending_turn [OF fresh(1) True Cons.prems(2)] by auto
    then have "run_events s evs = (s, [])" using reducer.ended_absorbs fresh(2) by blast
    then show ?thesis using True st s by (simp add: split: prod.split)
  next
    case False
    obtain r' ts where st: "step (StRunning r) ev = (StRunning r', ts)"
      and r': "rn_since_epoch r' = rn_since_epoch r" "rn_terminal_result_seen r' = rn_terminal_result_seen r"
        "rn_saw_substantive_output r' \<longleftrightarrow> rn_saw_substantive_output r \<or> substantive ev"
      by (rule step_within_turn [OF fresh(1) False])
    have run: "fst (run_events (StRunning r) (ev # evs)) = fst (run_events (StRunning r') evs)"
      by (simp add: st split: prod.split)
    have ih: "case dropWhile (\<lambda>ev. \<not> ends_turn (rn_since_epoch r) ev) evs of
        [] \<Rightarrow> \<exists>r'. fst (run_events (StRunning r) (ev # evs)) = StRunning r' \<and>
          rn_since_epoch r' = rn_since_epoch r \<and> \<not> rn_terminal_result_seen r' \<and>
          (rn_saw_substantive_output r' \<longleftrightarrow> rn_saw_substantive_output r \<or> list_ex substantive (ev # evs))
      | ev' # _ \<Rightarrow> fst (run_events (StRunning r) (ev # evs)) = verdict_of (rn_saw_substantive_output r \<or>
          list_ex substantive (ev # takeWhile (\<lambda>ev. \<not> ends_turn (rn_since_epoch r) ev) evs)) ev'"
      using Cons.IH [OF fresh(2), of r'] Cons.prems(2) r' unfolding run
      by (cases "dropWhile (\<lambda>ev. \<not> ends_turn (rn_since_epoch r) ev) evs") (simp_all add: disj_assoc del: dropWhile_eq_Nil_conv)
    show ?thesis
      using ih False by (simp only: dropWhile.simps takeWhile.simps if_True not_False_eq_True)
  qed
qed simp

section \<open>The counters\<close>

lemma unat_u32: "unat (n :: u32) < 2 ^ 32"
  using unsigned_less [of n] by simp

lemma unat_saturating_inc: "unat n < 2 ^ 32 - 1 \<Longrightarrow> unat (saturating_inc n) = Suc (unat n)"
proof -
  assume n: "unat n < 2 ^ 32 - 1"
  have "n \<noteq> - 1"
  proof
    assume "n = - 1"
    then have "unat n = 2 ^ 32 - 1" by (simp add: unsigned_minus_1_eq_mask mask_eq_exp_minus_1)
    with n show False by simp
  qed
  moreover have "unat (n + 1) = Suc (unat n)" using n by (simp add: unat_word_ariths)
  ultimately show ?thesis by (simp add: saturating_inc_def)
qed

lemma unat_saturating_dec: "unat (saturating_dec n) = unat n - 1"
proof (cases "n = 0")
  case False
  then have "1 \<le> n" by (simp add: word_le_nat_alt unat_gt_0 Suc_leI)
  then show ?thesis using False by (simp add: saturating_dec_def unat_sub_if' word_le_nat_alt)
qed (simp add: saturating_dec_def)

lemma waiting_on_update:
  "waiting_on k (update_requires_action f k' ra) = (if k = k' then f (waiting_on k ra) else waiting_on k ra)"
  by (cases k; cases k') simp_all

lemma step_running_owed:
  assumes "step (StRunning r) ev = (StRunning r', ts)" "\<not> is_turn_started ev"
    and "unat (waiting_on k (rn_requires_action r)) < 2 ^ 32 - 1"
  shows "unat (waiting_on k (rn_requires_action r')) = owed k ev (unat (waiting_on k (rn_requires_action r)))"
proof -
  have "step_running r ev = (StRunning r', ts)" using assms(1,2) by simp
  then show ?thesis
    using assms(3)
    by (cases ev) (auto simp: step_permission_def settle_def waiting_on_update unat_saturating_inc
        unat_saturating_dec step_turn_result_def result_state_def step_detached_def
        split: if_splits outcome.splits)
qed

lemma owed_le: "owed k ev n \<le> n + (if asks k ev then 1 else 0)"
  by (cases ev) (auto simp: asks_def)

lemma run_owed:
  assumes "fst (run_events (StRunning r) evs) = StRunning r'" "\<forall>ev \<in> set evs. \<not> is_turn_started ev"
    and "unat (waiting_on k (rn_requires_action r)) + length (filter (asks k) evs) < 2 ^ 32"
  shows "unat (waiting_on k (rn_requires_action r')) = fold (owed k) evs (unat (waiting_on k (rn_requires_action r)))"
  using assms
proof (induction evs arbitrary: r)
  case (Cons ev evs)
  obtain s ts where st: "step (StRunning r) ev = (s, ts)" by fastforce
  have fresh: "\<not> is_turn_started ev" "\<forall>ev \<in> set evs. \<not> is_turn_started ev" using Cons.prems by auto
  have rest: "fst (run_events s evs) = StRunning r'"
    using Cons.prems(1) st by (auto split: prod.splits)
  have "\<not> is_terminal_state s"
    using rest reducer.ended_absorbs [of s evs] fresh(2) by (cases s) auto
  then obtain r1 where s: "s = StRunning r1"
    using step_not_starting [of "StRunning r" ev ts] st by (cases s) auto
  show ?case
  proof (cases "asks k ev \<or> unat (waiting_on k (rn_requires_action r)) < 2 ^ 32 - 1")
    case True
    then have "unat (waiting_on k (rn_requires_action r)) < 2 ^ 32 - 1"
      using Cons.prems(3) by auto
    then have 1: "unat (waiting_on k (rn_requires_action r1)) = owed k ev (unat (waiting_on k (rn_requires_action r)))"
      using step_running_owed [OF st [unfolded s] fresh(1)] by simp
    moreover have "unat (waiting_on k (rn_requires_action r1)) + length (filter (asks k) evs) < 2 ^ 32"
      using 1 owed_le [of k ev "unat (waiting_on k (rn_requires_action r))"] Cons.prems(3) by (auto split: if_splits)
    ultimately show ?thesis using Cons.IH [OF rest [unfolded s] fresh(2)] by simp
  next
    case False
    have "unat (waiting_on k (rn_requires_action r)) < 2 ^ 32" by (rule unat_u32)
    have 1: "unat (waiting_on k (rn_requires_action r1)) = owed k ev (unat (waiting_on k (rn_requires_action r)))"
    proof -
      have "step_running r ev = (StRunning r1, ts)" using st s fresh(1) by simp
      then show ?thesis
        using False
        by (cases ev) (auto simp: step_permission_def settle_def waiting_on_update asks_def
            unat_saturating_dec step_turn_result_def result_state_def step_detached_def
            split: if_splits outcome.splits)
    qed
    moreover have "unat (waiting_on k (rn_requires_action r1)) + length (filter (asks k) evs) < 2 ^ 32"
      using 1 owed_le [of k ev "unat (waiting_on k (rn_requires_action r))"] Cons.prems(3) False by auto
    ultimately show ?thesis using Cons.IH [OF rest [unfolded s] fresh(2)] by simp
  qed
qed simp

end
