(* ===== verification/Session_Subscriber.thy ===== *)
theory Session_Subscriber
  imports Session_Invariant
begin

text \<open>
  A subscriber of the state stream, polling between the steps of the orchestrator: what it was
  told last is out of date only while something newer for its session is still to be read.
\<close>

inductive subscribed ::
  "bool \<Rightarrow> (session_state \<Rightarrow> string) \<Rightarrow> nat \<Rightarrow> id \<Rightarrow> orchestrator \<Rightarrow> state_subscriber \<Rightarrow>
   state_snapshot option \<Rightarrow> bool" for p repr cap me where
  sub_start: "orchestrator_reachable p repr o1 \<Longrightarrow> subscribed p repr cap me o1 (subscribe_state me o1) None"
| sub_other: "subscribed p repr cap me o1 sb v \<Longrightarrow> orchestrator_step p repr o1 o2 \<Longrightarrow>
    subscribed p repr cap me o2 sb v"
| sub_poll: "subscribed p repr cap me o1 sb v \<Longrightarrow> poll_state cap o1 sb = (res, sb') \<Longrightarrow>
    subscribed p repr cap me o1 sb' (case res of None \<Rightarrow> v | Some s \<Rightarrow> Some s)"

definition told :: "state_subscriber \<Rightarrow> state_snapshot option \<Rightarrow> state_snapshot option" where
  "told sb v = (case sb_seed sb of Some s \<Rightarrow> Some s | None \<Rightarrow> v)"

definition current_view :: "orchestrator \<Rightarrow> id \<Rightarrow> state_snapshot option \<Rightarrow> bool" where
  "current_view o1 me v \<longleftrightarrow>
     (case newest me (or_state_tx o1) of
        Some s \<Rightarrow> v = Some s
      | None \<Rightarrow> v = None \<or> v = Some (initial_snapshot me))"

definition unread :: "orchestrator \<Rightarrow> state_subscriber \<Rightarrow> bool" where
  "unread o1 sb \<longleftrightarrow> (\<exists>s \<in> set (drop (sb_pos sb) (or_state_tx o1)). sn_session_id s = sb_me sb)"

definition subscriber_inv :: "id \<Rightarrow> orchestrator \<Rightarrow> state_subscriber \<Rightarrow> state_snapshot option \<Rightarrow> bool" where
  "subscriber_inv me o1 sb v \<longleftrightarrow> sb_me sb = me \<and> sb_pos sb \<le> length (or_state_tx o1) \<and>
     (unread o1 sb \<or> current_view o1 me (told sb v))"

lemma newest_suffix:
  assumes "\<forall>s \<in> set ys. sn_session_id s \<noteq> me"
  shows "newest me (xs @ ys) = newest me xs"
  using assms by (simp add: newest_def filter_empty_conv [symmetric])

lemma newest_last_own:
  assumes "pos < length log" "sn_session_id (log ! pos) = me"
    and "\<forall>s \<in> set (drop (Suc pos) log). sn_session_id s \<noteq> me"
  shows "newest me log = Some (log ! pos)"
proof -
  have "newest me (take (Suc pos) log @ drop (Suc pos) log) = newest me (take pos log @ [log ! pos])"
    unfolding newest_suffix [OF assms(3)] using assms(1) by (simp add: take_Suc_conv_app_nth)
  then have "newest me log = newest me (take pos log @ [log ! pos])" by (simp only: append_take_drop_id)
  then show ?thesis using assms(2) by (simp add: newest_append)
qed

text \<open>One poll keeps the invariant, and waits only when nothing is left to read.\<close>

lemma poll_state_inv:
  assumes "subscriber_inv me o1 sb v" "poll_state cap o1 sb = (res, sb')"
    and "newest me (or_state_tx o1) = map_of (or_latest o1) me"
  shows "subscriber_inv me o1 sb' (case res of None \<Rightarrow> v | Some s \<Rightarrow> Some s) \<and>
    (res = None \<longrightarrow> \<not> unread o1 sb')"
  using assms
proof (induction cap o1 sb rule: poll_state.induct)
  case (1 cap o1 sb)
  let ?log = "or_state_tx o1" and ?pos = "sb_pos sb"
  note inv = 1(2) and poll = 1(3) and latest = 1(4)
  show ?case
  proof (cases "sb_seed sb")
    case (Some s)
    then have "res = Some s" "sb' = sb\<lparr>sb_seed := None\<rparr>"
      using poll by (simp_all add: poll_state.simps)
    then show ?thesis using inv Some by (auto simp: subscriber_inv_def told_def unread_def)
  next
    case None
    note poll' = poll [unfolded poll_state.simps [of cap o1 sb] None option.case]
    consider (lag) "length ?log - ?pos > cap" | (recv) "length ?log - ?pos \<le> cap" "?pos < length ?log"
      | (wait) "?pos \<ge> length ?log" "length ?log - ?pos \<le> cap" by linarith
    then show ?thesis
    proof cases
      case lag
      then have res: "res = Some (case map_of (or_latest o1) (sb_me sb) of Some s \<Rightarrow> s | None \<Rightarrow> initial_snapshot (sb_me sb))"
        "sb' = sb\<lparr>sb_pos := length ?log - cap\<rparr>"
        using poll' by (simp_all add: ring_recv_def)
      then have "current_view o1 me res"
        using latest inv by (simp add: current_view_def subscriber_inv_def split: option.split)
      then show ?thesis using res inv None by (simp add: subscriber_inv_def told_def)
    next
      case wait
      then have res: "res = None" "sb' = sb" using poll' by (auto simp: ring_recv_def)
      moreover have "\<not> unread o1 sb" using wait by (simp add: unread_def)
      ultimately show ?thesis using inv by simp
    next
      case recv
      let ?s = "?log ! ?pos"
      have drop: "drop ?pos ?log = ?s # drop (Suc ?pos) ?log" using recv(2) by (simp add: Cons_nth_drop_Suc)
      show ?thesis
      proof (cases "sn_session_id ?s = sb_me sb")
        case True
        then have res: "res = Some ?s" "sb' = sb\<lparr>sb_pos := Suc ?pos\<rparr>"
          using poll' recv by (simp_all add: ring_recv_def)
        have "unread o1 sb' \<or> current_view o1 me (Some ?s)"
        proof (cases "\<exists>s \<in> set (drop (Suc ?pos) ?log). sn_session_id s = sb_me sb")
          case True
          then show ?thesis by (simp add: unread_def res)
        next
          case False
          then have "newest (sb_me sb) ?log = Some ?s" using newest_last_own [OF recv(2) True] by blast
          then show ?thesis using inv by (simp add: current_view_def subscriber_inv_def)
        qed
        then show ?thesis using res recv inv None by (simp add: subscriber_inv_def told_def)
      next
        case False
        let ?sb = "sb\<lparr>sb_pos := Suc ?pos\<rparr>"
        have "subscriber_inv me o1 ?sb v"
          using inv False drop recv(2) by (auto simp: subscriber_inv_def unread_def told_def)
        moreover have "poll_state cap o1 ?sb = (res, sb')"
          using poll' recv False by (simp add: ring_recv_def)
        moreover have ring: "(Received ?s, Suc ?pos) = ring_recv cap ?log ?pos"
          using recv by (simp add: ring_recv_def)
        ultimately show ?thesis using 1(1) [OF None ring refl False] latest by blast
      qed
    qed
  qed
qed

text \<open>The channel only grows.\<close>

lemma fold_one_log: "\<exists>ext. or_state_tx (fold_one p env o1) = or_state_tx o1 @ ext"
  by (simp add: fold_one_caches)

lemma fold_fold_one_log: "\<exists>ext. or_state_tx (fold (fold_one p) envs o1) = or_state_tx o1 @ ext"
proof (induction envs arbitrary: o1)
  case (Cons env envs)
  obtain e1 where "or_state_tx (fold_one p env o1) = or_state_tx o1 @ e1" using fold_one_log by blast
  moreover obtain e2 where "or_state_tx (fold (fold_one p) envs (fold_one p env o1)) = or_state_tx (fold_one p env o1) @ e2"
    using Cons.IH by blast
  ultimately show ?case by simp
qed simp

lemma orchestrator_step_log:
  assumes "orchestrator_step p repr o1 o2"
  shows "\<exists>ext. or_state_tx o2 = or_state_tx o1 @ ext"
  using assms
proof cases
  case (loop_turn backend)
  have "\<exists>ext. or_state_tx (fold_one p low (o1\<lparr>or_lowered := rest\<rparr>)) = or_state_tx o1 @ ext" for low rest
    using fold_one_log [of p low "o1\<lparr>or_lowered := rest\<rparr>"] by simp
  then show ?thesis
    using loop_turn fold_one_log by (simp add: run_turn_def split: list.split option.split)
next
  case loop_drain
  then show ?thesis
    using fold_fold_one_log [of p "or_lowered o1" "o1\<lparr>or_lowered := []\<rparr>"] by (simp add: drain_lowered_def)
qed (auto simp: orchestrator_send_def orchestrator_cancel_def reconnect_def split: sum.splits option.splits if_splits)

lemma subscriber_inv_extend:
  assumes "subscriber_inv me o1 sb v" "or_state_tx o2 = or_state_tx o1 @ ext"
  shows "subscriber_inv me o2 sb v"
proof (cases "\<exists>s \<in> set ext. sn_session_id s = me")
  case True
  then show ?thesis using assms by (auto simp: subscriber_inv_def unread_def)
next
  case False
  then have "newest me (or_state_tx o2) = newest me (or_state_tx o1)"
    using newest_suffix [of ext me "or_state_tx o1"] assms(2) by auto
  then show ?thesis using assms by (auto simp: subscriber_inv_def unread_def current_view_def)
qed

lemma subscribed_inv:
  assumes "subscribed p repr cap me o1 sb v"
  shows "orchestrator_reachable p repr o1 \<and> subscriber_inv me o1 sb v"
  using assms
proof induction
  case (sub_start o1)
  note ok = orchestrator_reachable_ok [OF sub_start, of me]
  have "current_view o1 me (told (subscribe_state me o1) None)"
    using ok by (auto simp: current_view_def told_def subscribe_state_def session_ok_def split: option.split)
  then show ?case using sub_start by (simp add: subscriber_inv_def subscribe_state_def)
next
  case (sub_other o1 sb v o2)
  then obtain ext where "or_state_tx o2 = or_state_tx o1 @ ext" using orchestrator_step_log by blast
  then show ?case
    using sub_other subscriber_inv_extend unfolding orchestrator_reachable_def
    by (blast intro: rtranclp.rtrancl_into_rtrancl)
next
  case (sub_poll o1 sb v res sb')
  then have "newest me (or_state_tx o1) = map_of (or_latest o1) me"
    using orchestrator_reachable_ok [of p repr o1 me] by (simp add: session_ok_def)
  then show ?case using sub_poll poll_state_inv by blast
qed

text \<open>A poll that delivers a snapshot makes progress.\<close>

definition to_read :: "orchestrator \<Rightarrow> state_subscriber \<Rightarrow> nat" where
  "to_read o1 sb = length (or_state_tx o1) - sb_pos sb + (if sb_seed sb = None then 0 else 1)"

lemma poll_state_progress:
  "poll_state cap o1 sb = (Some s, sb') \<Longrightarrow> to_read o1 sb' < to_read o1 sb"
proof (induction cap o1 sb arbitrary: s sb' rule: poll_state.induct)
  case (1 cap o1 sb)
  show ?case
  proof (cases "sb_seed sb")
    case (Some x)
    then show ?thesis using 1(2) by (auto simp: poll_state.simps to_read_def)
  next
    case None
    obtain rv pos where rv: "ring_recv cap (or_state_tx o1) (sb_pos sb) = (rv, pos)" by fastforce
    note poll = 1(2) [unfolded poll_state.simps [of cap o1 sb] None option.case rv prod.case]
    show ?thesis
    proof (cases rv)
      case (Received x)
      have lt: "sb_pos sb < length (or_state_tx o1)" "pos = Suc (sb_pos sb)"
        using rv Received by (auto simp: ring_recv_def split: if_splits)
      show ?thesis
      proof (cases "sn_session_id x = sb_me sb")
        case True
        then show ?thesis using poll Received lt None by (auto simp: to_read_def)
      next
        case False
        then have "poll_state cap o1 (sb\<lparr>sb_pos := pos\<rparr>) = (Some s, sb')" using poll Received by simp
        then have "to_read o1 sb' < to_read o1 (sb\<lparr>sb_pos := pos\<rparr>)"
          using 1(1) [OF None rv [symmetric] Received False] by simp
        then show ?thesis using lt None by (simp add: to_read_def)
      qed
    next
      case (Lagged n)
      then show ?thesis
        using rv poll None by (auto simp: ring_recv_def to_read_def split: if_splits)
    next
      case Waiting
      then show ?thesis using poll by simp
    qed
  qed
qed

lemma polls_end:
  "\<exists>n \<le> to_read o1 sb. fst (poll_state cap o1 (((\<lambda>sb. snd (poll_state cap o1 sb)) ^^ n) sb)) = None"
proof (induction "to_read o1 sb" arbitrary: sb rule: less_induct)
  case less
  obtain res sb' where poll: "poll_state cap o1 sb = (res, sb')" by fastforce
  show ?case
  proof (cases res)
    case None
    then show ?thesis using poll by (intro exI [of _ 0]) simp
  next
    case (Some s)
    then have lt: "to_read o1 sb' < to_read o1 sb" using poll_state_progress poll by blast
    obtain n where n: "n \<le> to_read o1 sb'"
      "fst (poll_state cap o1 (((\<lambda>sb. snd (poll_state cap o1 sb)) ^^ n) sb')) = None"
      using less [OF lt] by blast
    have "((\<lambda>sb. snd (poll_state cap o1 sb)) ^^ Suc n) sb = ((\<lambda>sb. snd (poll_state cap o1 sb)) ^^ n) sb'"
      using poll by (simp add: funpow_Suc_right del: funpow.simps)
    then show ?thesis using n lt by (intro exI [of _ "Suc n"]) simp
  qed
qed

end
