(* ===== verification/Session_Properties.thy ===== *)
theory Session_Properties
  imports Session_Turn Session_Subscriber
begin

text \<open>The properties of the session reducer and of its orchestrator.\<close>

section \<open>The reducer\<close>

text \<open>
  C21. An observer that sees only the transitions always knows the externally meaningful phase:
  it is the phase the last transition led to. Every transition is a change of phase and starts
  from where the one before it ended.
\<close>

theorem transitions_determine_phase:
  "let (s', ts) = run_events s evs; phases = external_phase s # map (\<lambda>t. external_phase (tr_to t)) ts
   in external_phase s' = last phases \<and> successively (\<noteq>) phases \<and>
      map (\<lambda>t. external_phase (tr_from t)) ts = butlast phases"
proof -
  obtain s' ts where run: "run_events s evs = (s', ts)" by fastforce
  show ?thesis
    using reducer.observer_knows_phase [OF run] reducer.announcements_are_changes [OF run]
      reducer.announcements_chain [OF run]
    by (simp add: run Let_def)
qed

text \<open>
  C19. How a turn ends depends on the first event that ends it and on the output before it: the
  reducer's state after any events of one turn is the verdict of the reference definition, or
  the turn still runs and has remembered exactly whether there was substantive output. Results
  that carry an older epoch never end it.
\<close>

theorem turn_reaches_its_verdict:
  assumes "\<forall>ev \<in> set evs. \<not> is_turn_started ev"
  shows "case turn_verdict epoch evs of
      Some s \<Rightarrow> fst (run_events (StRunning (fresh_turn epoch)) evs) = s
    | None \<Rightarrow> \<exists>r. fst (run_events (StRunning (fresh_turn epoch)) evs) = StRunning r \<and>
        rn_since_epoch r = epoch \<and> \<not> rn_terminal_result_seen r \<and>
        (rn_saw_substantive_output r \<longleftrightarrow> list_ex substantive evs)"
  using run_turn_verdict [of evs "fresh_turn epoch"] assms
  by (simp add: turn_verdict_def fresh_turn_def del: dropWhile_eq_Nil_conv split: list.splits)

definition done_result :: "u64 \<Rightarrow> session_event" where
  "done_result epoch = EvTurnResult \<lparr>re_is_error = False, re_api_error_status = None,
     re_result_text = ''ok'', re_epoch = epoch, re_outcome = OutEndTurn\<rparr>"

theorem turn_reaches_its_verdict_witness:
  "fst (run_events (StRunning (fresh_turn 2)) [done_result 1, EvMessageDelta ''i'' ''hi'', EvDetached None None]) =
     StError ErrCrashed"
proof -
  have v: "turn_verdict 2 [done_result 1, EvMessageDelta ''i'' ''hi'', EvDetached None None] = Some (StError ErrCrashed)"
    by code_simp
  show ?thesis
    using turn_reaches_its_verdict [of "[done_result 1, EvMessageDelta ''i'' ''hi'', EvDetached None None]" 2]
    unfolding v by (simp add: is_turn_started_def done_result_def)
qed

text \<open>
  C34. Within a turn the counters of pending approvals and of pending authentications are the
  numbers of answers owed, counted without bound, as long as fewer than \<open>2 ^ 32\<close> were asked
  for; the session requires an action exactly while one of them is owed.
\<close>

theorem counters_are_answers_owed:
  assumes "fst (run_events (StRunning (fresh_turn epoch)) evs) = StRunning r"
    and "\<forall>ev \<in> set evs. \<not> is_turn_started ev"
    and "length (filter (asks PermTool) evs) < 2 ^ 32" and "length (filter (asks PermAuth) evs) < 2 ^ 32"
  shows "unat (ra_waiting_on_approval (rn_requires_action r)) = fold (owed PermTool) evs 0 \<and>
    unat (ra_waiting_on_auth (rn_requires_action r)) = fold (owed PermAuth) evs 0 \<and>
    (is_requires_action (StRunning r) \<longleftrightarrow> fold (owed PermTool) evs 0 > 0 \<or> fold (owed PermAuth) evs 0 > 0)"
proof -
  have "unat (waiting_on k (rn_requires_action r)) = fold (owed k) evs 0"
    if "length (filter (asks k) evs) < 2 ^ 32" for k
    using run_owed [OF assms(1,2), of k] that
    by (cases k) (simp_all add: fresh_turn_def requires_action_default_def)
  from this [of PermTool] this [of PermAuth] show ?thesis
    using assms(3,4) by (simp add: is_requires_action_def requires_action_pending_def word_less_nat_alt)
qed

definition ask :: "string \<Rightarrow> permission_kind \<Rightarrow> session_event" where
  "ask i k = EvPermission \<lparr>pm_request_id = i, pm_kind = k, pm_metadata = None, pm_tool_name = None, pm_input = None\<rparr>"

theorem counters_are_answers_owed_witness:
  "\<exists>r. fst (run_events (StRunning (fresh_turn 1)) [ask ''a'' PermTool, ask ''b'' PermAuth, EvPermissionResolved ''a'' PermTool]) =
     StRunning r \<and> unat (ra_waiting_on_auth (rn_requires_action r)) = 1"
proof -
  let ?evs = "[ask ''a'' PermTool, ask ''b'' PermAuth, EvPermissionResolved ''a'' PermTool]"
  have v: "turn_verdict 1 ?evs = None" by code_simp
  obtain r where r: "fst (run_events (StRunning (fresh_turn 1)) ?evs) = StRunning r"
    using run_turn_verdict [of ?evs "fresh_turn 1"]
    by (auto simp: ask_def is_turn_started_def fresh_turn_def)
  have "fold (owed PermAuth) ?evs 0 = 1" by (simp add: ask_def)
  then show ?thesis
    using counters_are_answers_owed [OF r] r by (auto simp: ask_def is_turn_started_def asks_def)
qed

text \<open>
  A cancelled turn is over: it leaves the session idle at once, with a single transition, and
  nothing that follows before the next turn starts changes that. In particular the exit of the
  process that a cancel brings about is never taken for a crash.
\<close>

theorem cancel_is_never_a_crash:
  assumes "fst (run_events s before) = StRunning r" and "\<forall>ev \<in> set later. \<not> is_turn_started ev"
  shows "run_events s (before @ EvCancel # later) =
    (StIdle, snd (run_events s before) @ [\<lparr>tr_from = StRunning r, tr_to = StIdle, tr_epoch = rn_since_epoch r\<rparr>])"
proof -
  have "run_events StIdle later = (StIdle, [])"
    by (rule reducer.ended_absorbs) (simp_all add: assms(2))
  moreover have "step (StRunning r) EvCancel =
      (StIdle, [\<lparr>tr_from = StRunning r, tr_to = StIdle, tr_epoch = rn_since_epoch r\<rparr>])"
    by (simp add: is_turn_started_def settle_def anchor_epoch_def)
  ultimately show ?thesis
    using assms(1) by (auto simp: run_machine_append Let_def split: prod.splits)
qed

theorem cancel_is_never_a_crash_witness:
  "fst (run_events StIdle [EvTurnStarted 1, EvMessageDelta ''i'' ''hi'', EvCancel, EvDetached None None]) = StIdle"
proof -
  let ?before = "[EvTurnStarted 1, EvMessageDelta ''i'' ''hi'']"
  have "fst (run_events StIdle ?before) = StRunning ((fresh_turn 1)\<lparr>rn_saw_substantive_output := True\<rparr>)"
    by (simp add: is_turn_started_def step_turn_started_def settle_def)
  from cancel_is_never_a_crash [OF this, of "[EvDetached None None]"] show ?thesis
    by (simp add: is_turn_started_def)
qed



section \<open>The orchestrator\<close>

text \<open>A small execution: a message is sent and its turn runs.\<close>

definition plain_repr :: "session_state \<Rightarrow> string" where
  "plain_repr s = []"

definition sent_once :: orchestrator where
  "sent_once = snd (orchestrator_send ''c'' (Inr \<lparr>cr_accepted = True, cr_admission = AdmStarted, cr_turn_gen = 1\<rparr>
     :: string + command_receipt) orchestrator_new)"

definition turn_running :: orchestrator where
  "turn_running = run_turn True None sent_once"

definition turn_crashed :: orchestrator where
  "turn_crashed = run_turn True (Some \<lparr>se_session_id = ''c'', se_turn_gen = 1, se_event = EvDetached None None\<rparr>)
     turn_running"

lemma running_reachable: "orchestrator_reachable True plain_repr turn_running"
proof -
  have "orchestrator_step True plain_repr orchestrator_new sent_once"
    by (rule command_send [of "''c''" "Inr \<lparr>cr_accepted = True, cr_admission = AdmStarted, cr_turn_gen = 1\<rparr>"])
      (auto simp: sent_once_def intro: prod_eqI)
  moreover have "orchestrator_step True plain_repr sent_once turn_running"
    unfolding turn_running_def by (rule loop_turn)
  ultimately show ?thesis unfolding orchestrator_reachable_def by (meson converse_rtranclp_into_rtranclp rtranclp.rtrancl_refl)
qed

lemma crashed_reachable: "orchestrator_reachable True plain_repr turn_crashed"
  using running_reachable loop_turn [of True plain_repr turn_running]
  unfolding orchestrator_reachable_def turn_crashed_def by (blast intro: rtranclp.rtrancl_into_rtrancl)

text \<open>
  C3. What the orchestrator caches for a session is never out of date: in every reachable state
  the latest snapshot says of the session what its state and its background roster say, whether
  a message can be sent or queued, whether the turn can be cancelled and whether anything is
  active, and it names the phase. A session without a snapshot is idle and inactive, and no
  session is ever in the starting state.
\<close>

theorem latest_snapshot_is_true:
  assumes "orchestrator_reachable proactive repr o1"
  shows "(case latest_snapshot sid o1 of
      Some snap \<Rightarrow> sn_can_send snap = can_send_message (fsm_of o1 sid) \<and>
        sn_has_activity snap = (has_foreground_activity (fsm_of o1 sid) \<or> background_active (roster_of o1 sid)) \<and>
        sn_can_queue snap = can_queue_message (fsm_of o1 sid) proactive \<and>
        sn_can_cancel snap = can_cancel (fsm_of o1 sid) \<and>
        external_phase (sn_state snap) = external_phase (fsm_of o1 sid)
    | None \<Rightarrow> fsm_of o1 sid = StIdle \<and> \<not> background_active (roster_of o1 sid)) \<and>
    fsm_of o1 sid \<noteq> StStarting"
  using orchestrator_reachable_ok [OF assms, of sid]
  by (auto simp: latest_snapshot_def session_ok_def truthful_def has_activity_def split: option.splits)

theorem latest_snapshot_is_true_witness:
  "map_option sn_can_cancel (latest_snapshot ''c'' turn_running) = Some True"
proof -
  have "latest_snapshot ''c'' turn_running \<noteq> None" "can_cancel (fsm_of turn_running ''c'')" by code_simp+
  then show ?thesis
    using latest_snapshot_is_true [OF running_reachable, of "''c''"] by (auto split: option.splits)
qed

text \<open>
  The sticky terminal of a session tells how its last turn ended. While the session is in
  error it names that very error, and while the session is idle it names none.
\<close>

theorem sticky_terminal_names_the_outcome:
  assumes "orchestrator_reachable proactive repr o1"
  shows "(\<forall>e. fsm_of o1 sid = StError e \<longrightarrow> (\<exists>g. latest_terminal sid o1 = Some (g, ReasonErrored e))) \<and>
    (fsm_of o1 sid = StIdle \<longrightarrow> (\<forall>g e. latest_terminal sid o1 \<noteq> Some (g, ReasonErrored e)))"
  using orchestrator_reachable_ok [OF assms, of sid] by (auto simp: latest_terminal_def session_ok_def)

theorem sticky_terminal_names_the_outcome_witness:
  "\<exists>g. latest_terminal ''c'' turn_crashed = Some (g, ReasonErrored ErrCrashed)"
proof -
  have "fsm_of turn_crashed ''c'' = StError ErrCrashed" by code_simp
  then show ?thesis using sticky_terminal_names_the_outcome [OF crashed_reachable, of "''c''"] by blast
qed





definition first_sighting :: "string \<Rightarrow> orchestrator \<Rightarrow> id \<Rightarrow> bool" where
  "first_sighting x o1 sid \<longleftrightarrow> map_of (roster_of o1 sid) x = None \<and>
     (case fsm_of o1 sid of StRunning r \<Rightarrow> x \<notin> sg_ref ` set (rn_subagents r) | _ \<Rightarrow> False)"

definition update_of :: "string \<Rightarrow> subagent_status \<Rightarrow> session_event" where
  "update_of x st = EvSubagentUpdate \<lparr>su_ref = x, su_label = None, su_status = st, su_parent_ref = None, su_kind = None\<rparr>"

definition subagent_as :: "string \<Rightarrow> subagent_status \<Rightarrow> subagent_state" where
  "subagent_as x st = \<lparr>sg_ref = x, sg_label = None, sg_status = st, sg_parent_ref = None\<rparr>"

lemma upsert_first: "x \<notin> sg_ref ` set subs \<Longrightarrow>
    upsert_subagent (subagent_as x st) subs = subs @ [subagent_as x st]"
  by (induction subs) (auto simp: subagent_as_def)

lemma upsert_last: "x \<notin> sg_ref ` set subs \<Longrightarrow> upsert_subagent (subagent_as x st') (subs @ [subagent_as x st]) =
    subs @ [if subagent_is_terminal st \<and> \<not> subagent_is_terminal st' then subagent_as x st else subagent_as x st']"
  by (induction subs) (auto simp: subagent_as_def)

lemma step_update: "step (StRunning r) (update_of x st) =
    (StRunning (r\<lparr>rn_subagents := upsert_subagent (subagent_as x st) (rn_subagents r)\<rparr>), [])"
  by (simp add: update_of_def is_turn_started_def subagent_of_update_def subagent_as_def)

definition live_subagents :: "subagent_state list \<Rightarrow> subagent_state list" where
  "live_subagents subs = filter (\<lambda>x. sg_status x \<notin> {SaCompleted, SaErrored, SaShutdown}) subs"

lemma fold_update:
  assumes "fsm_of o1 sid = StRunning r" "env = \<lparr>se_session_id = sid, se_turn_gen = g, se_event = update_of x st\<rparr>"
  shows "fsm_of (fold_one p env o1) sid =
      StRunning (r\<lparr>rn_subagents := live_subagents (upsert_subagent (subagent_as x st) (rn_subagents r))\<rparr>)"
    "roster_of (fold_one p env o1) sid = roster_lifecycle
      \<lparr>su_ref = x, su_label = None, su_status = st, su_parent_ref = None, su_kind = None\<rparr> (roster_of o1 sid)"
proof -
  have "restamp_epoch env = env" by (simp add: assms(2) restamp_epoch_def update_of_def)
  then show "fsm_of (fold_one p env o1) sid =
      StRunning (r\<lparr>rn_subagents := live_subagents (upsert_subagent (subagent_as x st) (rn_subagents r))\<rparr>)"
    "roster_of (fold_one p env o1) sid = roster_lifecycle
      \<lparr>su_ref = x, su_label = None, su_status = st, su_parent_ref = None, su_kind = None\<rparr> (roster_of o1 sid)"
    using assms
    by (simp_all add: fold_one_lanes fold_next_def step_update prune_terminal_subagents_def live_subagents_def
        fold_roster_def process_gone_def update_roster_def) (simp_all add: update_of_def)
qed

lemma live_append: "live_subagents (xs @ ys) = live_subagents xs @ live_subagents ys"
  by (simp add: live_subagents_def)

lemma live_refs: "x \<notin> sg_ref ` set subs \<Longrightarrow> x \<notin> sg_ref ` set (live_subagents subs)"
  by (auto simp: live_subagents_def)

text \<open>
  A subagent that has completed is revived by a late update. The reducer by itself absorbs
  the update, and the background roster does, but the orchestrator has pruned the completed
  subagent from the turn, so the late update is taken for a first sighting: the turn lists the
  subagent as running again and the session shows activity for it.
\<close>

theorem completed_subagent_is_revived:
  assumes "first_sighting x o1 sid"
    and "o2 = fold (fold_one p) (map (\<lambda>st. \<lparr>se_session_id = sid, se_turn_gen = g, se_event = update_of x st\<rparr>)
      [SaRunning, SaCompleted, SaRunning]) o1"
  shows "(\<exists>r. fsm_of o2 sid = StRunning r \<and> subagent_as x SaRunning \<in> set (rn_subagents r)) \<and>
    has_foreground_activity (fsm_of o2 sid) \<and>
    map_option wa_task_status (map_of (roster_of o2 sid) x) = Some WfCompleted \<and>
    (\<exists>r. fst (run_events (fsm_of o1 sid) (map (update_of x) [SaRunning, SaCompleted, SaRunning])) = StRunning r \<and>
      (\<forall>y \<in> set (rn_subagents r). sg_ref y = x \<longrightarrow> sg_status y = SaCompleted))"
proof -
  obtain r where r: "fsm_of o1 sid = StRunning r" "x \<notin> sg_ref ` set (rn_subagents r)" "map_of (roster_of o1 sid) x = None"
    using assms(1) by (auto simp: first_sighting_def split: session_state.splits)
  let ?env = "\<lambda>st. \<lparr>se_session_id = sid, se_turn_gen = g, se_event = update_of x st\<rparr>"
  let ?a = "fold_one p (?env SaRunning) o1" let ?b = "fold_one p (?env SaCompleted) ?a"
  let ?live = "live_subagents (rn_subagents r)"
  have x: "x \<notin> sg_ref ` set ?live" by (rule live_refs [OF r(2)])
  note one = fold_update [OF r(1) refl, where st = SaRunning and g = g and p = p]
  have a: "fsm_of ?a sid = StRunning (r\<lparr>rn_subagents := ?live @ [subagent_as x SaRunning]\<rparr>)"
    unfolding one(1) upsert_first [OF r(2)] live_append by (simp add: live_subagents_def subagent_as_def)
  note two = fold_update [OF a refl, where st = SaCompleted and g = g and p = p]
  have b: "fsm_of ?b sid = StRunning (r\<lparr>rn_subagents := live_subagents ?live\<rparr>)"
    using upsert_last [OF x, of SaCompleted SaRunning]
    unfolding two(1) by (simp add: live_append) (simp add: live_subagents_def subagent_as_def)
  note three = fold_update [OF b refl, where st = SaRunning and g = g and p = p]
  have o2: "o2 = fold_one p (?env SaRunning) ?b" by (simp add: assms(2))
  have c: "fsm_of o2 sid = StRunning (r\<lparr>rn_subagents := live_subagents (live_subagents ?live) @ [subagent_as x SaRunning]\<rparr>)"
    using upsert_first [OF live_refs [OF x], of SaRunning]
    unfolding o2 three(1) by (simp add: live_append) (simp add: live_subagents_def subagent_as_def)
  have "map_option wa_task_status (map_of (roster_of o2 sid) x) = Some WfCompleted"
    unfolding o2 three(2) two(2) one(2) using r(3)
    by (simp add: roster_lifecycle_def workflow_is_terminal_def)
  moreover have "has_foreground_activity (fsm_of o2 sid)"
    by (simp add: c has_foreground_activity_def any_subagent_active_def subagent_as_def)
  moreover have "fst (run_events (fsm_of o1 sid) (map (update_of x) [SaRunning, SaCompleted, SaRunning])) =
      StRunning (r\<lparr>rn_subagents := rn_subagents r @ [subagent_as x SaCompleted]\<rparr>)"
    using upsert_first [OF r(2), of SaRunning] upsert_last [OF r(2), of SaCompleted SaRunning]
      upsert_last [OF r(2), of SaRunning SaCompleted]
    by (simp add: r(1) step_update)
  moreover have "\<forall>y \<in> set (rn_subagents r @ [subagent_as x SaCompleted]). sg_ref y = x \<longrightarrow> sg_status y = SaCompleted"
    using r(2) by (auto simp: subagent_as_def)
  ultimately show ?thesis using c by auto
qed

theorem completed_subagent_is_revived_witness:
  "has_foreground_activity (fsm_of (fold (fold_one True)
     (map (\<lambda>st. \<lparr>se_session_id = ''c'', se_turn_gen = 1, se_event = update_of ''x'' st\<rparr>)
       [SaRunning, SaCompleted, SaRunning]) turn_running) ''c'')"
proof -
  have "first_sighting ''x'' turn_running ''c''" by code_simp
  then show ?thesis using completed_subagent_is_revived [OF _ refl] by blast
qed

end
