(* ===== verification/Turn_State.thy ===== *)
theory Turn_State
  imports Prelude
begin

text \<open>
  The runtime state of conversations: which turn runs in which conversation, which
  conversations are being deleted or cancelled, which cancels wait for an agent, and whether
  the process is shutting down (\<open>crates/aionui-conversation/src/runtime_state.rs\<close>), with the
  policy that decides what may still be written (\<open>runtime_persistence.rs\<close>).

  The state sits behind a mutex. Each operation takes the lock once and is one function of the
  model; every operation has a branch for a poisoned lock, which the field \<open>rt_poisoned\<close>
  stands for. The \<open>Notify\<close> beside it counts its \<open>notify_waiters\<close> calls: a \<open>notified()\<close>
  future remembers the count at its creation and is ready once the count has moved on, as the
  documentation of \<open>tokio::sync::Notify\<close> has it.
\<close>

section \<open>State\<close>

datatype conversation_error =
  CeNotFound id
| CeMessageNotFound id
| CeArtifactNotFound id
| CeActiveAgentNotFound id
| CeArchived id string
| CeBadRequest string
| CeBusy string
| CeForbidden string
| CeNotFoundReason string
| CeUnauthorized string
| CeRateLimited
| CeBadGateway string
| CeTimeout string
| CeConfigConfirmationTimeout id id string "string option"
| CeConfigUpdateInProgress id id string
| CeTeamRuntimeRequired id id
| CeUnprocessable string
| CeInternal string
| CeWorkspacePathUnavailable string
| CeWorkspacePathRuntimeUnavailable string
| CeOpenClawGatewayUnreachable string
| CeAcp string

record conversation_runtime_state =
  rt_active_turns :: "(id, id) hash_map"
  rt_deleting :: "id set"
  rt_cancelling :: "id set"
  rt_deferred_cancels :: "(id, id) hash_map"
  rt_shutting_down :: bool
  rt_poisoned :: bool
  rt_notified :: nat

record turn_claim =
  tc_conversation_id :: id
  tc_turn_id :: id
  tc_released :: bool

datatype runtime_lifecycle = LifeActive | LifeDeleting | LifeCancelling | LifeShuttingDown

definition runtime_new :: conversation_runtime_state where
  "runtime_new =
     \<lparr>rt_active_turns = [], rt_deleting = {}, rt_cancelling = {}, rt_deferred_cancels = [],
      rt_shutting_down = False, rt_poisoned = False, rt_notified = 0\<rparr>"


section \<open>Claims\<close>

definition is_claimed :: "id \<Rightarrow> conversation_runtime_state \<Rightarrow> bool" where
  "is_claimed c st = (\<not> rt_poisoned st \<and> map_of (rt_active_turns st) c \<noteq> None)"

definition active_turn_id_for :: "id \<Rightarrow> conversation_runtime_state \<Rightarrow> id option" where
  "active_turn_id_for c st = (if rt_poisoned st then None else map_of (rt_active_turns st) c)"

definition try_claim_turn :: "id \<Rightarrow> id \<Rightarrow> conversation_runtime_state \<Rightarrow>
    (conversation_error + turn_claim) \<times> conversation_runtime_state" where
  "try_claim_turn c t st =
     (if rt_poisoned st then (Inl (CeInternal ''conversation runtime state lock poisoned''), st)
      else if rt_shutting_down st then (Inl (CeBusy ''conversation runtime is shutting down''), st)
      else if c \<in> rt_deleting st then
        (Inl (CeBusy (''conversation '' @ c @ '' is being deleted'')), st)
      else if map_of (rt_active_turns st) c \<noteq> None then
        (Inl (CeBusy (''conversation '' @ c @ '' is already running'')), st)
      else (Inr \<lparr>tc_conversation_id = c, tc_turn_id = t, tc_released = False\<rparr>,
            st\<lparr>rt_active_turns := hm_insert c t (rt_active_turns st)\<rparr>))"

definition notify_waiters :: "conversation_runtime_state \<Rightarrow> conversation_runtime_state" where
  "notify_waiters st = st\<lparr>rt_notified := Suc (rt_notified st)\<rparr>"

text \<open>What \<open>release\<close> does under the lock: whether the turn was removed, and whether its
  conversation was being deleted. The waiters are notified after the lock is dropped.\<close>

definition release_locked :: "id \<Rightarrow> id \<Rightarrow> conversation_runtime_state \<Rightarrow>
    bool \<times> bool \<times> conversation_runtime_state" where
  "release_locked c t st =
     (if \<not> rt_poisoned st \<and> map_of (rt_active_turns st) c = Some t
      then (True, c \<in> rt_deleting st,
            st\<lparr>rt_active_turns := hm_remove c (rt_active_turns st),
               rt_deleting := rt_deleting st - {c}, rt_cancelling := rt_cancelling st - {c}\<rparr>)
      else (False, False, st))"

definition release_turn :: "id \<Rightarrow> id \<Rightarrow> conversation_runtime_state \<Rightarrow> bool \<times> conversation_runtime_state" where
  "release_turn c t st =
     (case release_locked c t st of
        (removed, was_deleting, st') \<Rightarrow> (was_deleting, if removed then notify_waiters st' else st'))"

text \<open>A claim holds the service weakly: \<open>None\<close> is a service that is gone.\<close>

definition release_inner :: "turn_claim \<Rightarrow> conversation_runtime_state option \<Rightarrow>
    bool \<times> turn_claim \<times> conversation_runtime_state option" where
  "release_inner tc service =
     (if tc_released tc then (False, tc, service)
      else case service of
        Some st \<Rightarrow>
          (case release_turn (tc_conversation_id tc) (tc_turn_id tc) st of
             (was_deleting, st') \<Rightarrow> (was_deleting, tc\<lparr>tc_released := True\<rparr>, Some st'))
      | None \<Rightarrow> (False, tc\<lparr>tc_released := True\<rparr>, None))"

definition release_for_turn :: "id \<Rightarrow> turn_claim \<Rightarrow> conversation_runtime_state option \<Rightarrow>
    bool \<times> turn_claim \<times> conversation_runtime_state option" where
  "release_for_turn t tc service =
     (if tc_turn_id tc \<noteq> t then (False, tc, service) else release_inner tc service)"

definition drop_claim :: "turn_claim \<Rightarrow> conversation_runtime_state option \<Rightarrow>
    conversation_runtime_state option" where
  "drop_claim tc service = snd (snd (release_inner tc service))"


section \<open>Deleting, cancelling, shutting down\<close>

definition mark_deleting :: "id \<Rightarrow> conversation_runtime_state \<Rightarrow> bool \<times> conversation_runtime_state" where
  "mark_deleting c st =
     (if rt_poisoned st then (False, st)
      else (map_of (rt_active_turns st) c \<noteq> None, st\<lparr>rt_deleting := insert c (rt_deleting st)\<rparr>))"

definition clear_deleting :: "id \<Rightarrow> conversation_runtime_state \<Rightarrow> conversation_runtime_state" where
  "clear_deleting c st =
     (if rt_poisoned st then st else st\<lparr>rt_deleting := rt_deleting st - {c}\<rparr>)"

definition is_deleting :: "id \<Rightarrow> conversation_runtime_state \<Rightarrow> bool" where
  "is_deleting c st = (\<not> rt_poisoned st \<and> c \<in> rt_deleting st)"

definition mark_cancelling :: "id \<Rightarrow> conversation_runtime_state \<Rightarrow> conversation_runtime_state" where
  "mark_cancelling c st =
     (if rt_poisoned st then st else st\<lparr>rt_cancelling := insert c (rt_cancelling st)\<rparr>)"

definition clear_cancelling :: "id \<Rightarrow> conversation_runtime_state \<Rightarrow> conversation_runtime_state" where
  "clear_cancelling c st =
     (if rt_poisoned st then st else st\<lparr>rt_cancelling := rt_cancelling st - {c}\<rparr>)"

definition is_cancelling :: "id \<Rightarrow> conversation_runtime_state \<Rightarrow> bool" where
  "is_cancelling c st = (\<not> rt_poisoned st \<and> c \<in> rt_cancelling st)"

definition defer_cancel :: "id \<Rightarrow> id \<Rightarrow> conversation_runtime_state \<Rightarrow> conversation_runtime_state" where
  "defer_cancel c t st =
     (if rt_poisoned st then st
      else st\<lparr>rt_deferred_cancels := hm_insert c t (rt_deferred_cancels st)\<rparr>)"

definition take_deferred_cancel :: "id \<Rightarrow> id \<Rightarrow> conversation_runtime_state \<Rightarrow>
    bool \<times> conversation_runtime_state" where
  "take_deferred_cancel c t st =
     (if rt_poisoned st then (False, st)
      else if map_of (rt_deferred_cancels st) c = Some t
      then (True, st\<lparr>rt_deferred_cancels := hm_remove c (rt_deferred_cancels st)\<rparr>)
      else (False, st))"

text \<open>Clearing a conversation, under the lock; waiters are notified if anything was there.\<close>

definition clear_locked :: "id \<Rightarrow> conversation_runtime_state \<Rightarrow> bool \<times> conversation_runtime_state" where
  "clear_locked c st =
     (if rt_poisoned st then (False, st)
      else (map_of (rt_active_turns st) c \<noteq> None \<or> c \<in> rt_deleting st \<or> c \<in> rt_cancelling st,
            st\<lparr>rt_active_turns := hm_remove c (rt_active_turns st),
               rt_deleting := rt_deleting st - {c}, rt_cancelling := rt_cancelling st - {c}\<rparr>))"

definition clear_conversation :: "id \<Rightarrow> conversation_runtime_state \<Rightarrow> conversation_runtime_state" where
  "clear_conversation c st =
     (case clear_locked c st of (had, st') \<Rightarrow> if had then notify_waiters st' else st')"

definition mark_shutting_down :: "conversation_runtime_state \<Rightarrow> nat \<times> conversation_runtime_state" where
  "mark_shutting_down st =
     (if rt_poisoned st then (0, st)
      else (length (rt_active_turns st), st\<lparr>rt_shutting_down := True\<rparr>))"

definition is_shutting_down :: "conversation_runtime_state \<Rightarrow> bool" where
  "is_shutting_down st = (rt_poisoned st \<or> rt_shutting_down st)"

definition lifecycle_for :: "id \<Rightarrow> conversation_runtime_state \<Rightarrow> runtime_lifecycle" where
  "lifecycle_for c st =
     (if rt_poisoned st \<or> rt_shutting_down st then LifeShuttingDown
      else if c \<in> rt_deleting st then LifeDeleting
      else if c \<in> rt_cancelling st then LifeCancelling
      else LifeActive)"


section \<open>Waiting until a conversation is unclaimed\<close>

text \<open>The loop of \<open>wait_until_unclaimed\<close>, one atomic action per step: create the future, look
  at the claim, and sleep until the future is ready.\<close>

datatype wait_point = WaitCreate | WaitLook nat | WaitAsleep nat | WaitDone

definition wait_advance :: "bool \<Rightarrow> nat \<Rightarrow> wait_point \<Rightarrow> wait_point" where
  "wait_advance claimed notified p =
     (case p of
        WaitCreate \<Rightarrow> WaitLook notified
      | WaitLook n \<Rightarrow> if claimed then WaitAsleep n else WaitDone
      | WaitAsleep n \<Rightarrow> if notified = n then WaitAsleep n else WaitCreate
      | WaitDone \<Rightarrow> WaitDone)"

definition wait_step :: "id \<Rightarrow> conversation_runtime_state \<Rightarrow> wait_point \<Rightarrow> wait_point" where
  "wait_step c st = wait_advance (is_claimed c st) (rt_notified st)"


section \<open>Summaries\<close>

datatype conversation_status = CsPending | CsRunning | CsFinished

datatype runtime_state_kind =
  KindIdle | KindStarting | KindRunning | KindCancelling | KindWaitingConfirmation

record runtime_summary =
  rs_state :: runtime_state_kind
  rs_can_send_message :: bool
  rs_has_task :: bool
  rs_task_status :: "conversation_status option"
  rs_is_processing :: bool
  rs_pending_confirmations :: nat
  rs_turn_id :: "id option"

definition summary_from_parts :: "id \<Rightarrow> conversation_status option \<Rightarrow> bool \<Rightarrow> nat \<Rightarrow>
    conversation_runtime_state \<Rightarrow> runtime_summary" where
  "summary_from_parts c task_status has_task pending_confirmations st =
     (let active = active_turn_id_for c st; cancelling = is_cancelling c st; claimed = active \<noteq> None;
          kind = (if pending_confirmations > 0 then KindWaitingConfirmation
                  else if cancelling then KindCancelling
                  else if claimed \<and> task_status \<noteq> Some CsRunning then KindStarting
                  else if claimed \<or> task_status = Some CsRunning then KindRunning
                  else KindIdle);
          is_processing = (kind \<noteq> KindIdle)
      in \<lparr>rs_state = kind, rs_can_send_message = (\<not> is_processing), rs_has_task = has_task,
          rs_task_status = task_status, rs_is_processing = is_processing,
          rs_pending_confirmations = pending_confirmations, rs_turn_id = active\<rparr>)"


section \<open>What may be written\<close>

datatype runtime_write_kind =
  WriteUserMessage | WriteAssistantTextCreate | WriteAssistantTextFlush
| WriteAssistantTextFinalize | WriteAssistantThinkingFinalize | WriteToolCallPersist
| WriteAcpToolCallPersist | WriteToolGroupPersist | WriteTerminalFinalize
| WriteConversationFinished | WriteSendFailureTip | WriteSessionKey | WriteAcpRecoveryCleanup
| WriteResolvedWorkspace | WriteStartupRecovery

datatype runtime_write_decision = WriteAllow | WriteSkip runtime_lifecycle

definition decide_write :: "id \<Rightarrow> runtime_write_kind \<Rightarrow> conversation_runtime_state \<Rightarrow>
    runtime_write_decision" where
  "decide_write c kind st =
     (let lifecycle = lifecycle_for c st;
          allow = (case lifecycle of
              LifeActive \<Rightarrow> True
            | LifeDeleting \<Rightarrow> kind = WriteUserMessage
            | LifeCancelling \<Rightarrow> kind \<in> {WriteAssistantTextCreate, WriteAssistantTextFlush,
                WriteAssistantTextFinalize, WriteAssistantThinkingFinalize, WriteToolCallPersist,
                WriteAcpToolCallPersist, WriteToolGroupPersist, WriteTerminalFinalize,
                WriteConversationFinished}
            | LifeShuttingDown \<Rightarrow> kind = WriteUserMessage)
      in if allow then WriteAllow else WriteSkip lifecycle)"

definition allows_write :: "id \<Rightarrow> runtime_write_kind \<Rightarrow> conversation_runtime_state \<Rightarrow> bool" where
  "allows_write c kind st = (decide_write c kind st = WriteAllow)"

end
