(* ===== verification/Turn_Protocol.thy ===== *)
theory Turn_Protocol
  imports Turn_State
begin

text \<open>
  The service under concurrent use: tasks claim turns and release or drop their claims, others
  flag and clear conversations, and waiters wait for a conversation to be unclaimed, in any
  order. A release happens under the lock and notifies the waiters after the lock is dropped;
  \<open>tw_pending\<close> counts the notifications that are still to come.
\<close>

section \<open>The world and its steps\<close>

record turn_world =
  tw_state :: conversation_runtime_state
  tw_claims :: "turn_claim list"
  tw_pending :: nat
  tw_waiters :: "(id \<times> wait_point) list"
  tw_minted :: "id set"

definition turn_world_new :: turn_world where
  "turn_world_new =
     \<lparr>tw_state = runtime_new, tw_claims = [], tw_pending = 0, tw_waiters = [], tw_minted = {}\<rparr>"

text \<open>The operations that claim and release nothing.\<close>

definition flag_operations :: "id \<Rightarrow> id \<Rightarrow> (conversation_runtime_state \<Rightarrow> conversation_runtime_state) list" where
  "flag_operations c t =
     [snd \<circ> mark_deleting c, clear_deleting c, mark_cancelling c, clear_cancelling c,
      defer_cancel c t, snd \<circ> take_deferred_cancel c t, snd \<circ> mark_shutting_down]"

text \<open>Turn identifiers are minted freshly for each attempt to claim.\<close>

inductive turn_step :: "turn_world \<Rightarrow> turn_world \<Rightarrow> bool" where
  turn_claim_step: "t \<notin> tw_minted w \<Longrightarrow> try_claim_turn c t (tw_state w) = (Inr tc, st') \<Longrightarrow>
    turn_step w (w\<lparr>tw_state := st', tw_claims := tc # tw_claims w,
      tw_minted := insert t (tw_minted w)\<rparr>)"
| turn_refused_step: "t \<notin> tw_minted w \<Longrightarrow> try_claim_turn c t (tw_state w) = (Inl err, st') \<Longrightarrow>
    turn_step w (w\<lparr>tw_state := st', tw_minted := insert t (tw_minted w)\<rparr>)"
| turn_release_step: "tc \<in> set (tw_claims w) \<Longrightarrow>
    release_locked (tc_conversation_id tc) (tc_turn_id tc) (tw_state w) = (removed, was_deleting, st') \<Longrightarrow>
    turn_step w (w\<lparr>tw_state := st', tw_claims := remove1 tc (tw_claims w),
      tw_pending := (if removed then Suc (tw_pending w) else tw_pending w)\<rparr>)"
| turn_clear_step: "clear_locked c (tw_state w) = (had, st') \<Longrightarrow>
    turn_step w (w\<lparr>tw_state := st', tw_pending := (if had then Suc (tw_pending w) else tw_pending w)\<rparr>)"
| turn_notify_step: "tw_pending w = Suc n \<Longrightarrow>
    turn_step w (w\<lparr>tw_state := notify_waiters (tw_state w), tw_pending := n\<rparr>)"
| turn_flag_step: "f \<in> set (flag_operations c t) \<Longrightarrow> turn_step w (w\<lparr>tw_state := f (tw_state w)\<rparr>)"
| turn_wait_step: "turn_step w (w\<lparr>tw_waiters := (c, WaitCreate) # tw_waiters w\<rparr>)"
| turn_waiter_step: "i < length (tw_waiters w) \<Longrightarrow> tw_waiters w ! i = (c, p) \<Longrightarrow>
    turn_step w (w\<lparr>tw_waiters := (tw_waiters w)[i := (c, wait_step c (tw_state w) p)]\<rparr>)"

inductive turn_reachable :: "turn_world \<Rightarrow> bool" where
  turn_start: "turn_reachable turn_world_new"
| turn_more: "turn_reachable w \<Longrightarrow> turn_step w w' \<Longrightarrow> turn_reachable w'"


section \<open>What the operations keep\<close>

lemma flag_operation_keeps:
  assumes "f \<in> set (flag_operations c t)"
  shows "rt_active_turns (f st) = rt_active_turns st" "rt_notified (f st) = rt_notified st"
    "rt_poisoned (f st) = rt_poisoned st" "rt_shutting_down st \<Longrightarrow> rt_shutting_down (f st)"
  using assms
  by (auto simp: flag_operations_def mark_deleting_def clear_deleting_def mark_cancelling_def
      clear_cancelling_def defer_cancel_def take_deferred_cancel_def mark_shutting_down_def split: if_splits)

lemma try_claim_turn_cases:
  assumes "try_claim_turn c t st = (res, st')"
  obtains err where "res = Inl err" "st' = st"
  | "res = Inr \<lparr>tc_conversation_id = c, tc_turn_id = t, tc_released = False\<rparr>"
    "\<not> rt_poisoned st" "\<not> rt_shutting_down st" "c \<notin> rt_deleting st"
    "map_of (rt_active_turns st) c = None"
    "st' = st\<lparr>rt_active_turns := hm_insert c t (rt_active_turns st)\<rparr>"
  using assms by (auto simp: try_claim_turn_def split: if_splits)

lemma active_turn_id_for_iff:
  "active_turn_id_for c st = Some t \<longleftrightarrow> \<not> rt_poisoned st \<and> map_of (rt_active_turns st) c = Some t"
  by (simp add: active_turn_id_for_def)

lemma try_claim_turn_held:
  assumes "active_turn_id_for c st = Some t"
  shows "\<exists>reason. try_claim_turn c t' st = (Inl (CeBusy reason), st)"
  using assms by (simp add: active_turn_id_for_iff try_claim_turn_def)

lemma release_locked_cases:
  assumes "release_locked c t st = (removed, was_deleting, st')"
  obtains "removed" "\<not> rt_poisoned st" "map_of (rt_active_turns st) c = Some t"
    "was_deleting \<longleftrightarrow> c \<in> rt_deleting st"
    "st' = st\<lparr>rt_active_turns := hm_remove c (rt_active_turns st),
               rt_deleting := rt_deleting st - {c}, rt_cancelling := rt_cancelling st - {c}\<rparr>"
  | "\<not> removed" "rt_poisoned st \<or> map_of (rt_active_turns st) c \<noteq> Some t" "\<not> was_deleting" "st' = st"
proof (cases "\<not> rt_poisoned st \<and> map_of (rt_active_turns st) c = Some t")
  case True
  show ?thesis by (rule that(1)) (use assms True in \<open>simp_all add: release_locked_def\<close>)
next
  case False
  show ?thesis by (rule that(2)) (use assms False in \<open>auto simp: release_locked_def\<close>)
qed

lemma release_turn_locked:
  "release_turn c t st =
     (let (removed, was_deleting, st') = release_locked c t st
      in (was_deleting, if removed then notify_waiters st' else st'))"
  by (simp add: release_turn_def Let_def)

lemma clear_locked_simps:
  assumes "clear_locked c st = (had, st')"
  shows "rt_poisoned st' = rt_poisoned st" "rt_notified st' = rt_notified st"
    "rt_shutting_down st' = rt_shutting_down st"
    "\<not> rt_poisoned st \<Longrightarrow> map_of (rt_active_turns st') = (map_of (rt_active_turns st))(c := None)"
    "rt_poisoned st \<Longrightarrow> st' = st" "\<not> rt_poisoned st \<Longrightarrow> map_of (rt_active_turns st) c \<noteq> None \<Longrightarrow> had"
  using assms by (auto simp: clear_locked_def split: if_splits)


section \<open>Nobody sleeps through a release\<close>

text \<open>
  The contract between whoever sets an event and whoever waits for it: a condition that held is
  only given up together with a notification, sent or still to be sent. Then a waiter that
  created its future before it looked at the condition is never left behind.
\<close>

fun waits_soundly :: "bool \<Rightarrow> bool \<Rightarrow> nat \<Rightarrow> wait_point \<Rightarrow> bool" where
  "waits_soundly claimed pending n WaitCreate = True"
| "waits_soundly claimed pending n (WaitLook k) = (k \<le> n)"
| "waits_soundly claimed pending n (WaitAsleep k) = (k \<le> n \<and> (k = n \<longrightarrow> claimed \<or> pending))"
| "waits_soundly claimed pending n WaitDone = True"

locale wakeup_protocol =
  fixes step :: "'w \<Rightarrow> 'w \<Rightarrow> bool"
    and claimed :: "'w \<Rightarrow> bool"
    and pending :: "'w \<Rightarrow> bool"
    and notified :: "'w \<Rightarrow> nat"
  assumes given_up: "step w w' \<Longrightarrow> claimed w \<Longrightarrow> \<not> claimed w' \<Longrightarrow> pending w' \<or> notified w < notified w'"
    and still_to_come: "step w w' \<Longrightarrow> pending w \<Longrightarrow> pending w' \<or> notified w < notified w'"
    and notified_mono: "step w w' \<Longrightarrow> notified w \<le> notified w'"
begin

lemma others_keep_sound:
  assumes "step w w'" "waits_soundly (claimed w) (pending w) (notified w) p"
  shows "waits_soundly (claimed w') (pending w') (notified w') p"
  using assms(2) given_up [OF assms(1)] still_to_come [OF assms(1)] notified_mono [OF assms(1)]
  by (cases p; cases "claimed w"; cases "claimed w'") auto

lemma own_step_keeps_sound:
  assumes "waits_soundly (claimed w) (pending w) (notified w) p"
  shows "waits_soundly (claimed w) (pending w) (notified w) (wait_advance (claimed w) (notified w) p)"
  using assms by (cases p) (auto simp: wait_advance_def)

lemma awake_waiter_finishes:
  assumes "waits_soundly (claimed w) (pending w) (notified w) p" "\<not> claimed w" "\<not> pending w"
  shows "(wait_advance (claimed w) (notified w) ^^ 3) p = WaitDone"
  using assms by (cases p) (auto simp: wait_advance_def eval_nat_numeral)

end

definition claimed_in :: "id \<Rightarrow> turn_world \<Rightarrow> bool" where
  "claimed_in c w = is_claimed c (tw_state w)"

interpretation turn_wakeup: wakeup_protocol turn_step "claimed_in c" "\<lambda>w. tw_pending w > 0"
  "\<lambda>w. rt_notified (tw_state w)" for c
proof
  fix w w' assume st: "turn_step w w'"
  show "rt_notified (tw_state w) \<le> rt_notified (tw_state w')"
    using st by cases (auto elim!: try_claim_turn_cases release_locked_cases
        simp: clear_locked_simps notify_waiters_def flag_operation_keeps)
  show "tw_pending w' > 0 \<or> rt_notified (tw_state w) < rt_notified (tw_state w')" if "tw_pending w > 0"
    using st that by cases (auto elim!: try_claim_turn_cases release_locked_cases
        simp: clear_locked_simps notify_waiters_def flag_operation_keeps)
  show "tw_pending w' > 0 \<or> rt_notified (tw_state w) < rt_notified (tw_state w')"
    if "claimed_in c w" "\<not> claimed_in c w'"
    using st
  proof cases
    case (turn_clear_step c' had st')
    then show ?thesis
      using that clear_locked_simps [OF turn_clear_step(2)]
      by (cases "rt_poisoned (tw_state w)"; cases "c' = c") (auto simp: claimed_in_def is_claimed_def)
  qed (use that in \<open>auto elim!: try_claim_turn_cases release_locked_cases
        simp: claimed_in_def is_claimed_def notify_waiters_def flag_operation_keeps split: if_splits\<close>)
qed


section \<open>The invariant\<close>

definition claim_of :: "id \<Rightarrow> id \<Rightarrow> turn_claim" where
  "claim_of c t = \<lparr>tc_conversation_id = c, tc_turn_id = t, tc_released = False\<rparr>"

definition claims_ok :: "turn_world \<Rightarrow> bool" where
  "claims_ok w \<longleftrightarrow>
     \<not> rt_poisoned (tw_state w) \<and> distinct (map tc_turn_id (tw_claims w)) \<and>
     tc_turn_id ` set (tw_claims w) \<subseteq> tw_minted w \<and>
     (\<forall>c t. map_of (rt_active_turns (tw_state w)) c = Some t \<longrightarrow> claim_of c t \<in> set (tw_claims w))"

definition waiters_ok :: "turn_world \<Rightarrow> bool" where
  "waiters_ok w \<longleftrightarrow>
     (\<forall>(c, p) \<in> set (tw_waiters w).
        waits_soundly (claimed_in c w) (tw_pending w > 0) (rt_notified (tw_state w)) p)"

lemma claims_ok_release:
  assumes ok: "claims_ok w" and tc: "tc \<in> set (tw_claims w)"
    and rel: "release_locked (tc_conversation_id tc) (tc_turn_id tc) (tw_state w) = (removed, d, st')"
  shows "claims_ok (w\<lparr>tw_state := st', tw_claims := remove1 tc (tw_claims w), tw_pending := n\<rparr>)"
proof -
  have dist: "distinct (map tc_turn_id (tw_claims w))" "distinct (tw_claims w)"
    using ok by (auto simp: claims_ok_def distinct_map)
  have sub: "set (remove1 tc (tw_claims w)) = set (tw_claims w) - {tc}"
    using dist(2) by simp
  have keep: "claim_of c t \<in> set (tw_claims w) - {tc}"
    if "map_of (rt_active_turns st') c = Some t" for c t
    using rel
  proof (cases rule: release_locked_cases)
    case 1
    then have "map_of (rt_active_turns (tw_state w)) c = Some t" "c \<noteq> tc_conversation_id tc"
      using that by (auto split: if_splits)
    then show ?thesis using ok by (auto simp: claims_ok_def claim_of_def)
  next
    case 2
    then have act: "map_of (rt_active_turns (tw_state w)) c = Some t" using that by simp
    then have "tc \<noteq> claim_of c t" using 2(2) ok by (auto simp: claims_ok_def claim_of_def)
    then show ?thesis using ok act by (auto simp: claims_ok_def)
  qed
  have "distinct (map tc_turn_id (remove1 tc (tw_claims w)))"
    using dist by (auto simp: distinct_map sub intro: inj_on_subset)
  moreover have "\<not> rt_poisoned st'"
    using rel ok by (cases rule: release_locked_cases) (auto simp: claims_ok_def)
  ultimately show ?thesis
    using ok keep by (auto simp: claims_ok_def sub)
qed

lemma claims_ok_step:
  assumes "claims_ok w" "turn_step w w'"
  shows "claims_ok w'"
  using assms(2)
proof cases
  case (turn_claim_step t c tc st')
  then show ?thesis using assms(1)
    by (auto elim!: try_claim_turn_cases simp: claims_ok_def claim_of_def split: if_splits)
next
  case (turn_refused_step t c err st')
  then show ?thesis using assms(1) by (auto elim!: try_claim_turn_cases simp: claims_ok_def)
next
  case (turn_release_step tc removed d st')
  then show ?thesis using claims_ok_release [OF assms(1)] by simp
next
  case (turn_clear_step c had st')
  then show ?thesis
    using assms(1) clear_locked_simps [OF turn_clear_step(2)] by (auto simp: claims_ok_def)
next
  case (turn_flag_step f c t)
  then show ?thesis using assms(1) by (simp add: claims_ok_def flag_operation_keeps)
qed (use assms(1) in \<open>simp_all add: claims_ok_def notify_waiters_def\<close>)

lemma waiters_of_step:
  assumes "turn_step w w'" "(c, p) \<in> set (tw_waiters w')"
  obtains "(c, p) \<in> set (tw_waiters w)" | "p = WaitCreate"
  | p0 where "(c, p0) \<in> set (tw_waiters w)" "p = wait_step c (tw_state w) p0"
      "tw_state w' = tw_state w" "tw_pending w' = tw_pending w"
  using assms
  by cases (auto simp: in_set_conv_nth nth_list_update split: if_splits)

lemma waiters_ok_step:
  assumes "waiters_ok w" "turn_step w w'"
  shows "waiters_ok w'"
proof -
  have "waits_soundly (claimed_in c w') (tw_pending w' > 0) (rt_notified (tw_state w')) p"
    if wp: "(c, p) \<in> set (tw_waiters w')" for c p
    using assms(2) wp
  proof (cases rule: waiters_of_step)
    case 1
    then have "waits_soundly (claimed_in c w) (tw_pending w > 0) (rt_notified (tw_state w)) p"
      using assms(1) by (auto simp: waiters_ok_def)
    then show ?thesis by (rule turn_wakeup.others_keep_sound [OF assms(2)])
  next
    case (3 p0)
    then have "waits_soundly (claimed_in c w) (tw_pending w > 0) (rt_notified (tw_state w)) p0"
      using assms(1) by (auto simp: waiters_ok_def)
    then show ?thesis
      using turn_wakeup.own_step_keeps_sound [of c w p0] 3 by (simp add: wait_step_def claimed_in_def)
  qed simp
  then show ?thesis by (auto simp: waiters_ok_def)
qed

lemma turn_reachable_ok:
  assumes "turn_reachable w"
  shows "claims_ok w" "waiters_ok w"
  using assms
proof induction
  case turn_start
  show "claims_ok turn_world_new" "waiters_ok turn_world_new"
    by (simp_all add: claims_ok_def waiters_ok_def turn_world_new_def runtime_new_def)
next
  case (turn_more w w')
  then show "claims_ok w'" "waiters_ok w'" using claims_ok_step waiters_ok_step by blast+
qed

text \<open>Once the process shuts down no turn is claimed any more.\<close>

lemma shutting_down_step:
  assumes "turn_step w w'" "rt_shutting_down (tw_state w)"
  shows "rt_shutting_down (tw_state w') \<and>
    map_of (rt_active_turns (tw_state w')) \<subseteq>\<^sub>m map_of (rt_active_turns (tw_state w))"
  using assms(1)
proof cases
  case (turn_clear_step c had st')
  then show ?thesis
    using assms(2) clear_locked_simps [OF turn_clear_step(2)]
    by (cases "rt_poisoned (tw_state w)") (auto simp: map_le_def)
next
  case (turn_release_step tc removed d st')
  from turn_release_step(3) show ?thesis
    using assms(2) turn_release_step(1) by (cases rule: release_locked_cases) (auto simp: map_le_def)
qed (use assms(2) in \<open>auto elim!: try_claim_turn_cases simp: notify_waiters_def flag_operation_keeps map_le_def\<close>)

lemma shutting_down_active:
  assumes "claims_ok w" "turn_step w w'" "rt_shutting_down (tw_state w)"
    "active_turn_id_for c (tw_state w') = Some t"
  shows "active_turn_id_for c (tw_state w) = Some t"
  using shutting_down_step [OF assms(2,3)] assms(1,4)
  by (auto simp: active_turn_id_for_iff claims_ok_def map_le_def dom_def)

end
