(* ===== verification/Turn_Flow.thy ===== *)
theory Turn_Flow
  imports Turn_Protocol
begin

text \<open>
  How the conversation service uses the runtime state: sending a message, cancelling a turn,
  deleting a conversation, and the beginning and end of the turn in its own task
  (\<open>service.rs\<close>, \<open>turn_orchestrator.rs\<close>, \<open>runtime_completion.rs\<close> of
  \<open>crates/aionui-conversation\<close>). The requests await the database, the agent and the runtime
  state in between, so that each is a sequence of atomic parts that others can interleave with.
  What the database, the attachment resolver and the agent answer are inputs; broadcasts to the
  clients and the log are left out, but for the completion of a turn.
\<close>

section \<open>The world of the requests\<close>

record chat_world =
  ch_state :: conversation_runtime_state
  ch_tasks :: "id set"
  ch_messages :: "(id \<times> id) list"
  ch_scheduled :: "(id \<times> id) list"
  ch_prompts :: "(id \<times> id) list"
  ch_completed :: "(id \<times> id) list"

definition runtime_summary_for :: "id \<Rightarrow> (id \<Rightarrow> conversation_status option \<times> nat) \<Rightarrow> chat_world \<Rightarrow>
    runtime_summary" where
  "runtime_summary_for c agent w =
     (if c \<in> ch_tasks w
      then summary_from_parts c (fst (agent c)) True (snd (agent c)) (ch_state w)
      else summary_from_parts c None False 0 (ch_state w))"

text \<open>Publishing the completion of a turn: the row must exist and its update must succeed.\<close>

definition publish_completion :: "id \<Rightarrow> id \<Rightarrow> bool \<Rightarrow> bool \<Rightarrow> chat_world \<Rightarrow> chat_world" where
  "publish_completion c t row_found updated w =
     (if \<not> allows_write c WriteConversationFinished (ch_state w) then w
      else if \<not> row_found \<or> \<not> updated then w
      else w\<lparr>ch_completed := ch_completed w @ [(c, t)]\<rparr>)"

definition complete_released_turn :: "id \<Rightarrow> id \<Rightarrow> bool \<Rightarrow> bool \<Rightarrow> bool \<Rightarrow> chat_world \<Rightarrow> chat_world" where
  "complete_released_turn c t was_deleting row_found updated w =
     (if was_deleting then w else publish_completion c t row_found updated w)"

text \<open>A claim is released while the service is alive.\<close>

definition release_claim :: "turn_claim \<Rightarrow> chat_world \<Rightarrow> bool \<times> turn_claim \<times> chat_world" where
  "release_claim tc w =
     (case release_inner tc (Some (ch_state w)) of
        (was_deleting, tc', service) \<Rightarrow>
          (was_deleting, tc', case service of Some st \<Rightarrow> w\<lparr>ch_state := st\<rparr> | None \<Rightarrow> w))"

definition release_and_complete :: "turn_claim \<Rightarrow> bool \<Rightarrow> bool \<Rightarrow> chat_world \<Rightarrow> chat_world" where
  "release_and_complete tc row_found updated w =
     (case release_claim tc w of
        (was_deleting, tc', w') \<Rightarrow>
          complete_released_turn (tc_conversation_id tc) (tc_turn_id tc) was_deleting row_found updated w')"


section \<open>Sending a message\<close>

record conversation_row =
  cr_team_id :: "id option"
  cr_deprecated_runtime :: bool

record send_request =
  sq_conversation_id :: id
  sq_content :: string
  sq_turn_id :: id
  sq_msg_id :: id
  sq_row :: "conversation_error + conversation_row option"
  sq_attachments :: "conversation_error + string"
  sq_insert :: "conversation_error option"
  sq_build_options :: "conversation_error option"
  sq_row_found :: bool
  sq_updated :: bool

definition legacy_archived_message :: string where
  "legacy_archived_message = ''This historical conversation can no longer be continued. Please start a new conversation.''"

text \<open>What is checked before a turn is claimed; the result is the content to store.\<close>

definition send_checks :: "send_request \<Rightarrow> conversation_error + string" where
  "send_checks q =
     (if str_blank (sq_content q) then Inl (CeBadRequest ''Message content must not be empty'')
      else case sq_row q of
        Inl err \<Rightarrow> Inl err
      | Inr None \<Rightarrow> Inl (CeNotFound (sq_conversation_id q))
      | Inr (Some row) \<Rightarrow>
          if cr_team_id row \<noteq> None
          then Inl (CeForbidden ''Team-owned conversations must be sent through Team API'')
          else if cr_deprecated_runtime row
          then Inl (CeArchived (sq_conversation_id q) legacy_archived_message)
          else sq_attachments q)"

text \<open>The claim, and what follows it: the message is stored and the turn is scheduled. The
  response of an accepted request carries the identifiers of the message and of the turn.\<close>

definition send_claim :: "send_request \<Rightarrow> chat_world \<Rightarrow> (conversation_error + turn_claim) \<times> chat_world" where
  "send_claim q w =
     (case send_checks q of
        Inl err \<Rightarrow> (Inl err, w)
      | Inr content \<Rightarrow>
          (case try_claim_turn (sq_conversation_id q) (sq_turn_id q) (ch_state w) of
             (res, st) \<Rightarrow> (res, w\<lparr>ch_state := st\<rparr>)))"

definition send_claimed :: "send_request \<Rightarrow> turn_claim \<Rightarrow> chat_world \<Rightarrow>
    (conversation_error + id \<times> id) \<times> chat_world" where
  "send_claimed q tc w =
     (let c = sq_conversation_id q; response = (sq_msg_id q, sq_turn_id q)
      in if \<not> allows_write c WriteUserMessage (ch_state w)
         then (Inr response, release_and_complete tc (sq_row_found q) (sq_updated q) w)
         else case sq_insert q of
           Some err \<Rightarrow> (Inl err, snd (snd (release_claim tc w)))
         | None \<Rightarrow>
             (let w1 = w\<lparr>ch_messages := ch_messages w @ [(c, sq_msg_id q)]\<rparr>
              in case sq_build_options q of
                Some err \<Rightarrow> (Inr response, release_and_complete tc (sq_row_found q) (sq_updated q) w1)
              | None \<Rightarrow> (Inr response, w1\<lparr>ch_scheduled := ch_scheduled w1 @ [(c, sq_turn_id q)]\<rparr>)))"

definition send_message :: "send_request \<Rightarrow> chat_world \<Rightarrow> (conversation_error + id \<times> id) \<times> chat_world" where
  "send_message q w =
     (case send_claim q w of
        (Inl err, w') \<Rightarrow> (Inl err, w')
      | (Inr tc, w') \<Rightarrow> send_claimed q tc w')"


section \<open>The turn in its task\<close>

text \<open>The agent is built and registers, a cancel that was deferred is applied before the prompt
  is sent, and in the end the claim is released.\<close>

definition turn_build :: "id \<Rightarrow> chat_world \<Rightarrow> chat_world" where
  "turn_build c w = w\<lparr>ch_tasks := insert c (ch_tasks w)\<rparr>"

definition turn_take_cancel :: "id \<Rightarrow> id \<Rightarrow> chat_world \<Rightarrow> bool \<times> chat_world" where
  "turn_take_cancel c t w =
     (case take_deferred_cancel c t (ch_state w) of (taken, st) \<Rightarrow> (taken, w\<lparr>ch_state := st\<rparr>))"

definition turn_send_prompt :: "id \<Rightarrow> id \<Rightarrow> chat_world \<Rightarrow> chat_world" where
  "turn_send_prompt c t w = w\<lparr>ch_prompts := ch_prompts w @ [(c, t)]\<rparr>"

definition turn_start :: "id \<Rightarrow> id \<Rightarrow> chat_world \<Rightarrow> bool \<times> chat_world" where
  "turn_start c t w =
     (case turn_take_cancel c t w of
        (True, w') \<Rightarrow> (False, w')
      | (False, w') \<Rightarrow> (True, turn_send_prompt c t w'))"

definition turn_end :: "turn_claim \<Rightarrow> bool \<Rightarrow> bool \<Rightarrow> chat_world \<Rightarrow> chat_world" where
  "turn_end tc row_found updated w =
     (case release_for_turn (tc_turn_id tc) tc (Some (ch_state w)) of
        (was_deleting, tc', service) \<Rightarrow>
          complete_released_turn (tc_conversation_id tc) (tc_turn_id tc) was_deleting row_found updated
            (case service of Some st \<Rightarrow> w\<lparr>ch_state := st\<rparr> | None \<Rightarrow> w))"


section \<open>Cancelling a turn\<close>

datatype cancel_result =
  CancelIgnored | CancelDeferred | CancelAcknowledged | CancelRefused conversation_error

datatype cancel_point =
  CancelLook | CancelTask | CancelDefer | CancelMark | CancelAgent | CancelDone cancel_result

text \<open>The request after the row was found, up to the answer of the agent.\<close>

definition cancel_step :: "id \<Rightarrow> id \<Rightarrow> conversation_error option \<Rightarrow> cancel_point \<times> chat_world \<Rightarrow>
    cancel_point \<times> chat_world" where
  "cancel_step c t answer pw =
     (case pw of (p, w) \<Rightarrow>
       (case p of
          CancelLook \<Rightarrow>
            (if active_turn_id_for c (ch_state w) \<noteq> Some t then CancelDone CancelIgnored else CancelTask, w)
        | CancelTask \<Rightarrow> (if c \<in> ch_tasks w then CancelMark else CancelDefer, w)
        | CancelDefer \<Rightarrow> (CancelDone CancelDeferred, w\<lparr>ch_state := defer_cancel c t (ch_state w)\<rparr>)
        | CancelMark \<Rightarrow> (CancelAgent, w\<lparr>ch_state := mark_cancelling c (ch_state w)\<rparr>)
        | CancelAgent \<Rightarrow>
            (case answer of
               Some err \<Rightarrow>
                 (CancelDone (CancelRefused err), w\<lparr>ch_state := clear_cancelling c (ch_state w)\<rparr>)
             | None \<Rightarrow> (CancelDone CancelAcknowledged, w))
        | CancelDone r \<Rightarrow> (CancelDone r, w)))"

text \<open>The watchdog of an acknowledged cancel kills the task of a turn that is still active.\<close>

definition cancel_watchdog :: "id \<Rightarrow> id \<Rightarrow> chat_world \<Rightarrow> chat_world" where
  "cancel_watchdog c t w =
     (if active_turn_id_for c (ch_state w) = Some t \<and> is_cancelling c (ch_state w)
      then w\<lparr>ch_tasks := ch_tasks w - {c}\<rparr> else w)"


section \<open>Deleting a conversation\<close>

definition delete_begin :: "id \<Rightarrow> chat_world \<Rightarrow> bool \<times> chat_world" where
  "delete_begin c w =
     (case mark_deleting c (ch_state w) of (had_active_turn, st) \<Rightarrow> (had_active_turn, w\<lparr>ch_state := st\<rparr>))"

definition delete_row :: "id \<Rightarrow> bool \<Rightarrow> conversation_error option \<Rightarrow> chat_world \<Rightarrow>
    (conversation_error + unit) \<times> chat_world" where
  "delete_row c had_active_turn answer w =
     (case answer of
        Some err \<Rightarrow> (Inl err, w\<lparr>ch_state := clear_deleting c (ch_state w)\<rparr>)
      | None \<Rightarrow>
          (Inr (), if had_active_turn then w else w\<lparr>ch_state := clear_deleting c (ch_state w)\<rparr>))"

end
