(* ===== verification/Turn_Policy.thy ===== *)
theory Turn_Policy
  imports Turn_State
begin

text \<open>
  How one turn of an agent is driven to its end: the policies that decide after each reply
  whether to go on, to start over, or to recycle the agent, and the two loops of the turn
  around them (\<open>stream_relay.rs\<close>, \<open>turn_continuation_policy.rs\<close>, \<open>turn_recovery_policy.rs\<close>,
  \<open>agent_health_policy.rs\<close> and \<open>turn_orchestrator.rs\<close> of \<open>crates/aionui-conversation\<close>).

  What the agent, the database and the runtime state answer in each round is an input, and the
  calls the turn makes come out as a list of effects in order.
\<close>

section \<open>Errors of an agent\<close>

datatype agent_error_ownership = OwnAionui | OwnUserAgent | OwnUserLlmProvider | OwnUnknownUpstream

datatype agent_error_code =
  AionuiConversationBusy | AionuiStreamBroken | AionuiStateInconsistent | AionuiPermissionError
  | AionuiInternalError | WorkspacePathRuntimeUnavailable | UserAgentHandshakeFailed
  | UserAgentHandshakeTimeout | UserAgentAcpInitFailed | UserAgentProtocolMismatch
  | UserAgentNotInstalled | UserAgentStartupFailed | UserAgentOpenClawGatewayUnreachable
  | UserAgentDisconnected | UserAgentAuthRequired | UserAgentSessionNotFound
  | UserAgentNoPreviousSession | UserAgentProtocolParseError | UserAgentInvalidRequest
  | UserAgentResourceNotFound | UserAgentProtocolError | UserAgentCommandNotFound
  | UserAgentMissingEnv | UserAgentUnsupportedMethod | UserAgentInvalidParams
  | UserLlmProviderAuthFailed | UserLlmProviderAwsSsoExpired | UserLlmProviderPermissionDenied
  | UserLlmProviderBillingRequired | UserLlmProviderConfigError | UserLlmProviderModelNotFound
  | UserLlmProviderUnsupportedModel | UserLlmProviderEndpointNotFound
  | UserLlmProviderInvalidRequest | UserLlmProviderInvalidToolSchema
  | UserLlmProviderContextTooLarge | UserLlmProviderRateLimited | UserLlmProviderTimeout
  | UserLlmProviderNetworkError | UserLlmProviderEmptyResponse | UserLlmProviderGatewayError
  | UnknownUpstreamError

datatype agent_error_resolution_kind =
  ResRetry | ResWaitForCurrentResponse | ResStartNewSession | ResReconnectAgent | ResCheckAgentLogin
| ResCheckAgentInstallation | ResCheckAgentVersion | ResCheckLocalCommand
| ResCheckProviderCredentials | ResCheckProviderBilling | ResCheckProviderBaseUrl | ResChangeModel
| ResReduceContext | ResSendFeedback

datatype agent_error_resolution_target =
  TargetProviderSettings | TargetAgentSettings | TargetNewConversation | TargetFeedback

record agent_error_resolution =
  er_kind :: agent_error_resolution_kind
  er_target :: "agent_error_resolution_target option"

record agent_stream_error =
  se_message :: string
  se_code :: "agent_error_code option"
  se_ownership :: "agent_error_ownership option"
  se_detail :: "string option"
  se_workspace_path :: "string option"
  se_retryable :: "bool option"
  se_feedback_recommended :: "bool option"
  se_resolution :: "agent_error_resolution option"

datatype agent_type =
  AtAcp | AtOpenclawGateway | AtNanobot | AtRemote | AtAionrs | AtAntigravity | AtGemini | AtCodex

datatype agent_kill_reason =
  KillIdleTimeout | KillAgentErrorRecovery | KillTeamMcpRebuild | KillTeamDeleted
| KillConversationDeleted | KillUserCancelTimeout | KillRuntimeCapabilityChanged | KillSessionRevoked


section \<open>What the relay of a reply reports\<close>

record turn_attempt_summary =
  as_saw_visible_output :: bool
  as_saw_tool_or_side_effect :: bool
  as_persisted_assistant_output :: bool
  as_terminal_error :: "agent_stream_error option"
  as_terminal_error_deferred :: bool
  as_needs_auth :: bool

definition attempt_summary_default :: turn_attempt_summary where
  "attempt_summary_default =
     \<lparr>as_saw_visible_output = False, as_saw_tool_or_side_effect = False,
      as_persisted_assistant_output = False, as_terminal_error = None,
      as_terminal_error_deferred = False, as_needs_auth = False\<rparr>"

definition safe_to_auto_replay :: "turn_attempt_summary \<Rightarrow> bool" where
  "safe_to_auto_replay s =
     (\<not> as_saw_visible_output s \<and> \<not> as_saw_tool_or_side_effect s \<and> \<not> as_persisted_assistant_output s)"

definition merge_summary :: "turn_attempt_summary \<Rightarrow> turn_attempt_summary \<Rightarrow> turn_attempt_summary" where
  "merge_summary s x =
     \<lparr>as_saw_visible_output = (as_saw_visible_output s \<or> as_saw_visible_output x),
      as_saw_tool_or_side_effect = (as_saw_tool_or_side_effect s \<or> as_saw_tool_or_side_effect x),
      as_persisted_assistant_output =
        (as_persisted_assistant_output s \<or> as_persisted_assistant_output x),
      as_terminal_error = (if as_terminal_error x \<noteq> None then as_terminal_error x else as_terminal_error s),
      as_terminal_error_deferred = (as_terminal_error_deferred s \<or> as_terminal_error_deferred x),
      as_needs_auth = (as_needs_auth s \<or> as_needs_auth x)\<rparr>"

datatype relay_terminal =
  RelayFinish | RelayError "agent_error_code option" "bool option" | RelayChannelClosed

definition relay_is_error :: "relay_terminal \<Rightarrow> bool" where
  "relay_is_error r = (case r of RelayError _ _ \<Rightarrow> True | _ \<Rightarrow> False)"

definition relay_code :: "relay_terminal \<Rightarrow> agent_error_code option" where
  "relay_code r = (case r of RelayError code _ \<Rightarrow> code | _ \<Rightarrow> None)"

definition relay_retryable :: "relay_terminal \<Rightarrow> bool option" where
  "relay_retryable r = (case r of RelayError _ retryable \<Rightarrow> retryable | _ \<Rightarrow> None)"

record relay_outcome =
  ro_system_responses :: "string list"
  ro_terminal :: relay_terminal
  ro_attempt :: turn_attempt_summary


section \<open>The policies\<close>

datatype continuation_stop_reason =
  NoSystemResponses | TerminalNotFinish | LifecycleNotActive | LimitReached

datatype continuation_decision = Continue string nat | StopContinuation continuation_stop_reason

definition continuation_decide :: "nat \<Rightarrow> nat \<Rightarrow> relay_outcome \<Rightarrow> runtime_lifecycle \<Rightarrow>
    continuation_decision" where
  "continuation_decide max_continuations continuation_count out lifecycle =
     (if lifecycle \<noteq> LifeActive then StopContinuation LifecycleNotActive
      else if relay_is_error (ro_terminal out) then StopContinuation TerminalNotFinish
      else if ro_system_responses out = [] then StopContinuation NoSystemResponses
      else if continuation_count \<ge> max_continuations then StopContinuation LimitReached
      else Continue (str_join [CHR 0x0A] (ro_system_responses out)) (continuation_count + 1))"

datatype session_recovery_signal = CompactFailed | ResumeFailed

datatype turn_recovery_decision =
  NoRecovery | AutoReplayOnce agent_kill_reason bool "session_recovery_signal option"

definition classify_session_recovery_signal :: "relay_outcome \<Rightarrow> session_recovery_signal option" where
  "classify_session_recovery_signal out =
     (case as_terminal_error (ro_attempt out) of
        None \<Rightarrow> None
      | Some data \<Rightarrow>
          (let haystack = ascii_lower (se_message data @ [CHR 0x0A] @
                 (case se_detail data of Some d \<Rightarrow> d | None \<Rightarrow> []))
           in if str_contains ''/responses/compact'' haystack \<or> str_contains ''remote compact failed'' haystack
              then Some CompactFailed
              else if str_contains ''session/load'' haystack \<or> str_contains ''resume'' haystack
              then Some ResumeFailed
              else None))"

definition provider_turn_codes :: "agent_error_code option list" where
  "provider_turn_codes =
    [Some UserLlmProviderAuthFailed, Some UserLlmProviderAwsSsoExpired,
     Some UserLlmProviderPermissionDenied, Some UserLlmProviderBillingRequired,
     Some UserLlmProviderConfigError, Some UserLlmProviderModelNotFound,
     Some UserLlmProviderUnsupportedModel, Some UserLlmProviderEndpointNotFound,
     Some UserLlmProviderInvalidRequest, Some UserLlmProviderInvalidToolSchema,
     Some UserLlmProviderContextTooLarge, Some UserLlmProviderRateLimited,
     Some UserLlmProviderTimeout, Some UserLlmProviderNetworkError,
     Some UserLlmProviderEmptyResponse, Some UserLlmProviderGatewayError]"

definition is_provider_turn_error :: "agent_error_code option \<Rightarrow> relay_outcome \<Rightarrow> bool" where
  "is_provider_turn_error error_code out =
     ((case as_terminal_error (ro_attempt out) of
         Some e \<Rightarrow> se_ownership e = Some OwnUserLlmProvider | None \<Rightarrow> False) \<or>
      error_code \<in> set provider_turn_codes)"

definition recovery_decide :: "agent_type \<Rightarrow> relay_outcome \<Rightarrow> runtime_lifecycle \<Rightarrow> bool \<Rightarrow>
    turn_recovery_decision" where
  "recovery_decide agent out lifecycle already_replayed =
     (let error_code = relay_code (ro_terminal out);
          retryable = relay_retryable (ro_terminal out);
          safe = safe_to_auto_replay (ro_attempt out);
          signal = classify_session_recovery_signal out
      in if lifecycle = LifeActive \<and> agent = AtAcp \<and> relay_is_error (ro_terminal out) \<and>
            retryable = Some True \<and> error_code \<noteq> Some UserLlmProviderModelNotFound \<and>
            (signal \<noteq> None \<or> \<not> is_provider_turn_error error_code out) \<and> safe \<and> \<not> already_replayed
         then AutoReplayOnce KillAgentErrorRecovery safe signal
         else NoRecovery)"

datatype agent_health_action =
  HealthKeep | EvictAcpTask "agent_error_code option" "bool option" bool

definition health_decide :: "agent_type \<Rightarrow> relay_outcome \<Rightarrow> runtime_lifecycle \<Rightarrow> agent_health_action" where
  "health_decide agent out lifecycle =
     (if lifecycle = LifeDeleting \<or> lifecycle = LifeShuttingDown then HealthKeep
      else if agent \<noteq> AtAcp \<or> \<not> relay_is_error (ro_terminal out) then HealthKeep
      else EvictAcpTask (relay_code (ro_terminal out)) (relay_retryable (ro_terminal out))
             (relay_code (ro_terminal out) = Some UserLlmProviderModelNotFound))"

definition terminal_is_auth_failure :: "relay_outcome \<Rightarrow> bool" where
  "terminal_is_auth_failure out =
     (as_needs_auth (ro_attempt out) \<or>
      relay_code (ro_terminal out) \<in>
        {Some UserAgentAuthRequired, Some UserLlmProviderAuthFailed, Some UserLlmProviderAwsSsoExpired})"

definition send_error_display_message :: "agent_stream_error \<Rightarrow> string" where
  "send_error_display_message e = (case se_detail e of Some d \<Rightarrow> d | None \<Rightarrow> se_message e)"

definition turn_attempt_error_message :: "turn_attempt_summary \<Rightarrow> string option" where
  "turn_attempt_error_message s =
     map_option (\<lambda>e. case se_detail e of
         Some d \<Rightarrow> if str_blank d then se_message e else d
       | None \<Rightarrow> se_message e) (as_terminal_error s)"

definition normalize_required_mode :: "string option \<Rightarrow> string \<Rightarrow> string list \<Rightarrow> string" where
  "normalize_required_mode backend mode available_ids =
     (if backend \<noteq> Some ''codex'' \<or> mode \<noteq> ''agent-full-access'' then mode
      else if ''agent-full-access'' \<notin> set available_ids \<and> ''full-access'' \<in> set available_ids
      then ''full-access'' else mode)"

text \<open>The catalog is what the agent answers, \<open>None\<close> when it could not be read.\<close>

definition resolve_required_mode :: "string option \<Rightarrow> string \<Rightarrow> string list option \<Rightarrow> string" where
  "resolve_required_mode backend mode catalog =
     (if backend \<noteq> Some ''codex'' \<or> mode \<noteq> ''agent-full-access'' then mode
      else case catalog of None \<Rightarrow> mode | Some ids \<Rightarrow> normalize_required_mode backend mode ids)"


section \<open>One attempt\<close>

datatype turn_status = TurnCompleted | TurnFailed

record user_turn_result =
  ut_status :: turn_status
  ut_error_message :: "string option"

record turn_attempt_result =
  ta_outcome :: relay_outcome
  ta_summary :: turn_attempt_summary
  ta_agent_type :: agent_type

record turn_attempt_input =
  ai_content :: string
  ai_agent_id :: "string option"
  ai_required_mode :: "string option"
  ai_continuation_count :: nat
  ai_defer_clean_terminal_errors :: bool

text \<open>A prompt goes out with the flag that tells the relay to hold back clean terminal errors.\<close>

datatype turn_effect =
  FxPrompt string bool | FxTip string | FxSessionKey | FxEvict bool | FxRefreshAnchor
| FxSessionFailure string string string | FxSessionSuccess string

text \<open>What is observed in a round: the lifecycle before the reply, the error of applying the
  required mode, and what the relay reports.\<close>

record round_env =
  rd_lifecycle :: runtime_lifecycle
  rd_mode_error :: "string option"
  rd_outcome :: relay_outcome

record attempt_env =
  ae_build :: "agent_stream_error + agent_type"
  ae_workspace_error :: "string option"
  ae_cancel_taken :: bool
  ae_session_key :: bool
  ae_rounds :: "nat \<Rightarrow> round_env"

definition max_continuations_per_turn :: nat where
  "max_continuations_per_turn = 4"

definition required_mode_error :: "turn_attempt_input \<Rightarrow> round_env \<Rightarrow> string option" where
  "required_mode_error inp rd =
     (case ai_required_mode inp of
        None \<Rightarrow> None
      | Some mode \<Rightarrow> if str_blank mode then None else rd_mode_error rd)"

lemma continuation_decide_Continue:
  assumes "continuation_decide m n out l = Continue s n'"
  shows "n' = Suc n" "n < m" "l = LifeActive" "\<not> relay_is_error (ro_terminal out)"
  using assms by (auto simp: continuation_decide_def split: if_splits)

lemma continuation_decide_decreases:
  "continuation_decide m n out l = Continue s n' \<Longrightarrow> m - n' < m - n"
  by (frule continuation_decide_Continue(1), drule continuation_decide_Continue(2)) simp

function attempt_rounds :: "turn_attempt_input \<Rightarrow> agent_type \<Rightarrow> attempt_env \<Rightarrow> nat \<Rightarrow> nat \<Rightarrow> string \<Rightarrow>
    turn_attempt_summary \<Rightarrow> (user_turn_result + turn_attempt_result) \<times> turn_effect list" where
  "attempt_rounds inp agent env k count content aggregate =
     (let rd = ae_rounds env k; out = rd_outcome rd;
          defer = (ai_defer_clean_terminal_errors inp \<and> agent = AtAcp \<and>
                   rd_lifecycle rd = LifeActive \<and> safe_to_auto_replay aggregate)
      in case required_mode_error inp rd of
           Some err \<Rightarrow> (Inl \<lparr>ut_status = TurnFailed, ut_error_message = Some err\<rparr>, [FxTip err])
         | None \<Rightarrow>
             (let aggregate' = merge_summary aggregate (ro_attempt out);
                  fx = FxPrompt content defer # (if ae_session_key env then [FxSessionKey] else [])
              in case continuation_decide max_continuations_per_turn count out (rd_lifecycle rd) of
                   Continue content' count' \<Rightarrow>
                     (case attempt_rounds inp agent env (Suc k) count' content' aggregate' of
                        (res, fx') \<Rightarrow> (res, fx @ fx'))
                 | StopContinuation _ \<Rightarrow>
                     (Inr \<lparr>ta_outcome = out, ta_summary = aggregate', ta_agent_type = agent\<rparr>, fx)))"
  by pat_completeness auto

termination
  by (relation "measure (\<lambda>(inp, agent, env, k, count, _). max_continuations_per_turn - count)")
    (auto dest: continuation_decide_decreases)

declare attempt_rounds.simps [simp del]

definition run_attempt :: "turn_attempt_input \<Rightarrow> attempt_env \<Rightarrow>
    (user_turn_result + turn_attempt_result) \<times> turn_effect list" where
  "run_attempt inp env =
     (case ae_build env of
        Inl e \<Rightarrow>
          (let msg = send_error_display_message e
           in (Inl \<lparr>ut_status = TurnFailed, ut_error_message = Some msg\<rparr>,
               (case ai_agent_id inp of
                  Some a \<Rightarrow> [FxSessionFailure a ''session_build_failed'' msg] | None \<Rightarrow> []) @ [FxTip msg]))
      | Inr agent \<Rightarrow>
          (case ae_workspace_error env of
             Some err \<Rightarrow> (Inl \<lparr>ut_status = TurnFailed, ut_error_message = Some err\<rparr>, [FxTip err])
           | None \<Rightarrow>
               if ae_cancel_taken env
               then (Inl \<lparr>ut_status = TurnCompleted, ut_error_message = None\<rparr>, [])
               else attempt_rounds inp agent env 0 (ai_continuation_count inp) (ai_content inp)
                      attempt_summary_default))"


section \<open>The turn\<close>

definition evict_after_terminal_error :: "agent_type \<Rightarrow> relay_outcome \<Rightarrow> turn_effect list" where
  "evict_after_terminal_error agent out =
     (if agent \<noteq> AtAcp \<or> \<not> relay_is_error (ro_terminal out) then []
      else [FxEvict (relay_code (ro_terminal out) = Some UserLlmProviderModelNotFound)])"

definition deferred_tip :: "relay_outcome \<Rightarrow> turn_effect list" where
  "deferred_tip out =
     (if as_terminal_error_deferred (ro_attempt out)
      then case as_terminal_error (ro_attempt out) of
        Some data \<Rightarrow> [FxTip (send_error_display_message data)] | None \<Rightarrow> []
      else [])"

definition health_effects :: "agent_type \<Rightarrow> relay_outcome \<Rightarrow> runtime_lifecycle \<Rightarrow> turn_effect list" where
  "health_effects agent out lifecycle =
     (case health_decide agent out lifecycle of
        HealthKeep \<Rightarrow> []
      | EvictAcpTask _ _ _ \<Rightarrow> evict_after_terminal_error agent out)"

text \<open>The loop over the attempts: whether the turn failed, its error message, and whether the
  last attempt that got to a reply asked for a sign-in. The first attempt sees the first
  environment and lifecycle, the replay the second.\<close>

lemma recovery_decide_replay:
  assumes "recovery_decide agent out l replayed = AutoReplayOnce reason safe signal"
  shows "\<not> replayed" "l = LifeActive" "agent = AtAcp" "relay_retryable (ro_terminal out) = Some True"
    "safe_to_auto_replay (ro_attempt out)"
  using assms by (auto simp: recovery_decide_def Let_def split: if_splits)

function user_turn_loop :: "turn_attempt_input \<Rightarrow> (nat \<Rightarrow> attempt_env) \<Rightarrow> (nat \<Rightarrow> runtime_lifecycle) \<Rightarrow>
    bool \<Rightarrow> bool \<Rightarrow> (bool \<times> string option \<times> bool) \<times> turn_effect list" where
  "user_turn_loop inp envs lifecycles replayed auth_failure =
     (let n = (if replayed then 1 else 0)
      in case run_attempt (inp\<lparr>ai_continuation_count := 0, ai_defer_clean_terminal_errors := \<not> replayed\<rparr>)
                (envs n) of
           (Inl res, fx) \<Rightarrow> ((ut_status res = TurnFailed, ut_error_message res, auth_failure), fx)
         | (Inr res, fx) \<Rightarrow>
             (let out = ta_outcome res; auth = terminal_is_auth_failure out
              in if \<not> relay_is_error (ro_terminal out) then ((False, None, auth), fx)
                 else case recovery_decide (ta_agent_type res) (out\<lparr>ro_attempt := ta_summary res\<rparr>)
                        (lifecycles n) replayed of
                   AutoReplayOnce _ _ _ \<Rightarrow>
                     (case user_turn_loop inp envs lifecycles True auth of
                        (r, fx') \<Rightarrow>
                          (r, fx @ evict_after_terminal_error (ta_agent_type res) out @ [FxRefreshAnchor] @ fx'))
                 | NoRecovery \<Rightarrow>
                     ((True, turn_attempt_error_message (ta_summary res), auth),
                      fx @ deferred_tip out @ health_effects (ta_agent_type res) out (lifecycles n))))"
  by pat_completeness auto

termination
  by (relation "measure (\<lambda>(inp, envs, lifecycles, replayed, auth). if replayed then 0 else 1)")
    (auto dest: recovery_decide_replay)

declare user_turn_loop.simps [simp del]

definition run_user_turn :: "turn_attempt_input \<Rightarrow> (nat \<Rightarrow> attempt_env) \<Rightarrow> (nat \<Rightarrow> runtime_lifecycle) \<Rightarrow>
    user_turn_result \<times> turn_effect list" where
  "run_user_turn inp envs lifecycles =
     (case user_turn_loop inp envs lifecycles False False of
        ((failed, msg, auth_failure), fx) \<Rightarrow>
          (\<lparr>ut_status = (if failed then TurnFailed else TurnCompleted),
            ut_error_message = (if failed then msg else None)\<rparr>,
           fx @ (case ai_agent_id inp of
             None \<Rightarrow> []
           | Some a \<Rightarrow>
               if auth_failure
               then [FxSessionFailure a ''auth_required''
                      (case msg of Some m \<Rightarrow> m | None \<Rightarrow> ''Agent requires sign-in to run.'')]
               else if \<not> failed then [FxSessionSuccess a] else [])))"

end
