(* ===== verification/Turn_Bounds.thy ===== *)
theory Turn_Bounds
  imports Turn_Policy
begin

text \<open>
  Bounds on the two loops of a turn: how many prompts an attempt and a turn send, and what the
  summary of an attempt says about each of its replies.
\<close>

fun is_prompt :: "turn_effect \<Rightarrow> bool" where
  "is_prompt (FxPrompt _ _) = True"
| "is_prompt _ = False"

definition prompt_count :: "turn_effect list \<Rightarrow> nat" where
  "prompt_count fx = length (filter is_prompt fx)"

lemma prompt_count_simps [simp]:
  "prompt_count [] = 0"
  "prompt_count (e # fx) = (if is_prompt e then Suc (prompt_count fx) else prompt_count fx)"
  "prompt_count (fx @ fx') = prompt_count fx + prompt_count fx'"
  by (simp_all add: prompt_count_def)

lemma prompt_count_effects [simp]:
  "prompt_count (evict_after_terminal_error a out) = 0" "prompt_count (deferred_tip out) = 0"
  "prompt_count (health_effects a out l) = 0"
  by (auto simp: evict_after_terminal_error_def deferred_tip_def health_effects_def
      split: option.split agent_health_action.split)

lemma refresh_effects [simp]:
  "FxRefreshAnchor \<notin> set (evict_after_terminal_error a out)" "FxRefreshAnchor \<notin> set (deferred_tip out)"
  "FxRefreshAnchor \<notin> set (health_effects a out l)"
proof -
  show evict: "FxRefreshAnchor \<notin> set (evict_after_terminal_error a out)"
    by (simp add: evict_after_terminal_error_def)
  show "FxRefreshAnchor \<notin> set (deferred_tip out)"
    by (cases "as_terminal_error (ro_attempt out)"; cases "as_terminal_error_deferred (ro_attempt out)")
      (simp_all add: deferred_tip_def)
  show "FxRefreshAnchor \<notin> set (health_effects a out l)"
    using evict by (cases "health_decide a out l") (simp_all add: health_effects_def)
qed

lemma no_refresh_filter:
  "FxRefreshAnchor \<notin> set fx \<Longrightarrow> filter ((=) FxRefreshAnchor) fx = []"
  by (induction fx) auto

text \<open>A summary only grows: once something was seen, merging keeps it.\<close>

lemma safe_merge_summary [simp]:
  "safe_to_auto_replay (merge_summary s x) \<longleftrightarrow> safe_to_auto_replay s \<and> safe_to_auto_replay x"
  by (auto simp: safe_to_auto_replay_def merge_summary_def)

lemma attempt_rounds_cases:
  assumes "attempt_rounds inp agent env k count content agg = (res, fx)"
  obtains (refused) err where "res = Inl \<lparr>ut_status = TurnFailed, ut_error_message = Some err\<rparr>" "fx = [FxTip err]"
  | (again) content' fx0 fx' where "count < max_continuations_per_turn"
      "attempt_rounds inp agent env (Suc k) (Suc count) content'
         (merge_summary agg (ro_attempt (rd_outcome (ae_rounds env k)))) = (res, fx')"
      "fx = fx0 @ fx'" "prompt_count fx0 = 1" "FxRefreshAnchor \<notin> set fx0"
  | (last) "res = Inr \<lparr>ta_outcome = rd_outcome (ae_rounds env k),
        ta_summary = merge_summary agg (ro_attempt (rd_outcome (ae_rounds env k))), ta_agent_type = agent\<rparr>"
      "prompt_count fx = 1" "FxRefreshAnchor \<notin> set fx"
proof (cases "required_mode_error inp (ae_rounds env k)")
  case (Some err)
  show ?thesis
    by (rule refused [of err]) (use assms Some in \<open>simp_all add: attempt_rounds.simps [of inp] Let_def\<close>)
next
  case None
  note simps = attempt_rounds.simps [of inp agent env k] Let_def None
  show ?thesis
  proof (cases "continuation_decide max_continuations_per_turn count
      (rd_outcome (ae_rounds env k)) (rd_lifecycle (ae_rounds env k))")
    case (Continue content' count')
    note count = continuation_decide_Continue(1,2) [OF Continue]
    obtain res' fx' where rec: "attempt_rounds inp agent env (Suc k) (Suc count) content'
        (merge_summary agg (ro_attempt (rd_outcome (ae_rounds env k)))) = (res', fx')"
      by fastforce
    show ?thesis
      by (rule again [OF count(2), of content' fx'])
        (use assms Continue count(1) rec in \<open>auto simp: simps\<close>)
  next
    case (StopContinuation x)
    show ?thesis by (rule last) (use assms StopContinuation in \<open>auto simp: simps\<close>)
  qed
qed

lemma attempt_rounds_bounded:
  assumes "attempt_rounds inp agent env k count content agg = (res, fx)"
    "count \<le> max_continuations_per_turn"
  shows "prompt_count fx \<le> Suc (max_continuations_per_turn - count) \<and> FxRefreshAnchor \<notin> set fx"
  using assms
proof (induction "max_continuations_per_turn - count" arbitrary: k count content agg res fx)
  case 0
  from 0(2) show ?case by (cases rule: attempt_rounds_cases) (use 0 in auto)
next
  case (Suc n)
  from Suc(3) show ?case
  proof (cases rule: attempt_rounds_cases)
    case (again content' fx0 fx')
    then show ?thesis using Suc(1) [of "Suc count" "Suc k" content' _ res fx'] Suc(2) by fastforce
  qed auto
qed

lemma attempt_rounds_summary:
  assumes "attempt_rounds inp agent env k count content agg = (Inr r, fx)"
    "safe_to_auto_replay (ta_summary r)"
  shows "safe_to_auto_replay agg \<and>
    (\<forall>i < prompt_count fx. safe_to_auto_replay (ro_attempt (rd_outcome (ae_rounds env (k + i)))))"
  using assms
proof (induction "max_continuations_per_turn - count" arbitrary: k count content agg fx)
  case 0
  from 0(2) show ?case by (cases rule: attempt_rounds_cases) (use 0 in auto)
next
  case (Suc n)
  from Suc(3) show ?case
  proof (cases rule: attempt_rounds_cases)
    case (again content' fx0 fx')
    then have "safe_to_auto_replay (merge_summary agg (ro_attempt (rd_outcome (ae_rounds env k))))"
      and later: "\<And>i. i < prompt_count fx' \<Longrightarrow>
        safe_to_auto_replay (ro_attempt (rd_outcome (ae_rounds env (Suc k + i))))"
      using Suc(1) [of "Suc count" "Suc k" content' _ fx'] Suc(2,4) by fastforce+
    then show ?thesis
      using again(3,4) later by (auto simp: less_Suc_eq_0_disj add.commute)
  qed (use Suc(4) in auto)
qed

lemma run_attempt_bounded:
  assumes "run_attempt inp env = (res, fx)" "ai_continuation_count inp = 0"
  shows "prompt_count fx \<le> Suc max_continuations_per_turn" "FxRefreshAnchor \<notin> set fx"
proof -
  have "prompt_count fx \<le> Suc max_continuations_per_turn \<and> FxRefreshAnchor \<notin> set fx"
    using assms attempt_rounds_bounded [of inp _ env 0 0 "ai_content inp" attempt_summary_default res fx]
    by (auto simp: run_attempt_def Let_def split: sum.splits option.splits if_splits)
  then show "prompt_count fx \<le> Suc max_continuations_per_turn" "FxRefreshAnchor \<notin> set fx" by auto
qed

lemma run_attempt_summary:
  assumes "run_attempt inp env = (Inr r, fx)" "safe_to_auto_replay (ta_summary r)" "i < prompt_count fx"
  shows "safe_to_auto_replay (ro_attempt (rd_outcome (ae_rounds env i)))"
  using assms attempt_rounds_summary [of inp _ env 0 "ai_continuation_count inp" "ai_content inp"
      attempt_summary_default r fx]
  by (auto simp: run_attempt_def Let_def split: sum.splits option.splits if_splits)

text \<open>The loop over the attempts: the first may be followed by one replay.\<close>

definition attempt_input :: "turn_attempt_input \<Rightarrow> bool \<Rightarrow> turn_attempt_input" where
  "attempt_input inp replayed =
     inp\<lparr>ai_continuation_count := 0, ai_defer_clean_terminal_errors := \<not> replayed\<rparr>"

lemma user_turn_loop_cases:
  assumes "user_turn_loop inp envs ls replayed auth = (res, fx)"
  obtains (ended) r fx0 fx1 where "run_attempt (attempt_input inp replayed) (envs (if replayed then 1 else 0)) = (r, fx0)"
      "fx = fx0 @ fx1" "prompt_count fx1 = 0" "FxRefreshAnchor \<notin> set fx1"
  | (replay) r fx0 fx1 fx' auth' where "\<not> replayed" "run_attempt (attempt_input inp False) (envs 0) = (Inr r, fx0)"
      "safe_to_auto_replay (ta_summary r)" "ta_agent_type r = AtAcp" "ls 0 = LifeActive"
      "relay_retryable (ro_terminal (ta_outcome r)) = Some True"
      "user_turn_loop inp envs ls True auth' = (res, fx')"
      "fx = fx0 @ fx1 @ FxRefreshAnchor # fx'" "prompt_count fx1 = 0" "FxRefreshAnchor \<notin> set fx1"
proof -
  define n where "n = (if replayed then 1 else 0 :: nat)"
  obtain r fx0 where att: "run_attempt (attempt_input inp replayed) (envs n) = (r, fx0)" by fastforce
  note simps = user_turn_loop.simps [of inp envs ls replayed auth, folded attempt_input_def] Let_def
  show ?thesis
  proof (cases r)
    case (Inl x)
    show ?thesis
      by (rule ended [of r fx0 "[]"]) (use assms att Inl in \<open>simp_all add: simps n_def\<close>)
  next
    case (Inr r')
    show ?thesis
    proof (cases "relay_is_error (ro_terminal (ta_outcome r'))")
      case False
      show ?thesis
        by (rule ended [of r fx0 "[]"]) (use assms att Inr False in \<open>simp_all add: simps n_def\<close>)
    next
      case err: True
      show ?thesis
      proof (cases "recovery_decide (ta_agent_type r') ((ta_outcome r')\<lparr>ro_attempt := ta_summary r'\<rparr>)
          (ls n) replayed")
        case NoRecovery
        show ?thesis
          by (rule ended [of r fx0]) (use assms att Inr err NoRecovery in \<open>auto simp: simps n_def\<close>)
      next
        case (AutoReplayOnce x1 x2 x3)
        note rec = recovery_decide_replay [OF AutoReplayOnce]
        note simps = user_turn_loop.simps [of inp envs ls False auth, folded attempt_input_def] Let_def
        obtain res' fx' where loop: "user_turn_loop inp envs ls True
            (terminal_is_auth_failure (ta_outcome r')) = (res', fx')" by fastforce
        show ?thesis
          by (rule replay [of r' fx0 "terminal_is_auth_failure (ta_outcome r')" fx'
                "evict_after_terminal_error (ta_agent_type r') (ta_outcome r')"])
            (use assms att Inr err AutoReplayOnce rec loop in \<open>auto simp: simps n_def\<close>)
      qed
    qed
  qed
qed

end
