(* ===== verification/Turn_Properties.thy ===== *)
theory Turn_Properties
  imports Turn_Flow Turn_Bounds
begin

text \<open>The properties of the turns of a conversation.\<close>

section \<open>Claims and waiting\<close>


text \<open>A world in which a turn was claimed, with a waiter that fell asleep behind it.\<close>

definition demo_claimed :: turn_world where
  "demo_claimed =
     turn_world_new\<lparr>tw_state := runtime_new\<lparr>rt_active_turns := [(''c'', ''t'')]\<rparr>,
       tw_claims := [claim_of ''c'' ''t''], tw_minted := {''t''}\<rparr>"

lemma demo_claimed_reachable: "turn_reachable demo_claimed"
proof (rule turn_more [OF turn_start])
  have "try_claim_turn ''c'' ''t'' (tw_state turn_world_new) =
      (Inr (claim_of ''c'' ''t''), runtime_new\<lparr>rt_active_turns := [(''c'', ''t'')]\<rparr>)"
    by (simp add: try_claim_turn_def turn_world_new_def runtime_new_def claim_of_def)
  from turn_claim_step [OF _ this] show "turn_step turn_world_new demo_claimed"
    by (simp add: demo_claimed_def turn_world_new_def)
qed

definition demo_asleep :: turn_world where
  "demo_asleep = demo_claimed\<lparr>tw_waiters := [(''c'', WaitAsleep 0)]\<rparr>"

lemma demo_asleep_reachable: "turn_reachable demo_asleep"
proof -
  have waiter: "turn_reachable (demo_claimed\<lparr>tw_waiters := [(''c'', wait_step ''c'' (tw_state demo_claimed) p)]\<rparr>)"
    if "turn_reachable (demo_claimed\<lparr>tw_waiters := [(''c'', p)]\<rparr>)" for p
    using turn_waiter_step [of 0 "demo_claimed\<lparr>tw_waiters := [(''c'', p)]\<rparr>" "''c''" p]
    by (intro turn_more [OF that]) simp
  have "turn_reachable (demo_claimed\<lparr>tw_waiters := [(''c'', WaitCreate)]\<rparr>)"
    using turn_wait_step [of demo_claimed "''c''"]
    by (intro turn_more [OF demo_claimed_reachable]) (simp add: demo_claimed_def turn_world_new_def)
  from waiter [OF waiter [OF this]] show ?thesis
    by (simp add: demo_asleep_def wait_step_def wait_advance_def is_claimed_def demo_claimed_def
        turn_world_new_def runtime_new_def)
qed


text \<open>
  C23. Nobody who waits for a conversation to be unclaimed sleeps through its release: in every
  reachable state, a waiter either waits for a conversation that is still claimed, or a
  notification is on its way to it, or it returns after at most three more of its own steps.
\<close>

theorem waiter_is_never_forgotten:
  assumes "turn_reachable w" "(c, p) \<in> set (tw_waiters w)"
  shows "is_claimed c (tw_state w) \<or> tw_pending w > 0 \<or>
    (wait_step c (tw_state w) ^^ 3) p = WaitDone"
proof -
  have "waits_soundly (claimed_in c w) (tw_pending w > 0) (rt_notified (tw_state w)) p"
    using turn_reachable_ok(2) [OF assms(1)] assms(2) by (auto simp: waiters_ok_def)
  from turn_wakeup.awake_waiter_finishes [OF this] show ?thesis
    by (cases "claimed_in c w"; cases "tw_pending w") (auto simp: wait_step_def claimed_in_def)
qed

lemma demo_released_reachable:
  "turn_reachable (demo_asleep\<lparr>tw_state := runtime_new\<lparr>rt_notified := 1\<rparr>, tw_claims := []\<rparr>)"
proof -
  have "release_locked ''c'' ''t'' (tw_state demo_asleep) = (True, False, runtime_new)"
    by (simp add: release_locked_def demo_asleep_def demo_claimed_def turn_world_new_def runtime_new_def)
  then have "turn_reachable (demo_asleep\<lparr>tw_state := runtime_new, tw_claims := [], tw_pending := 1\<rparr>)"
    using turn_release_step [of "claim_of ''c'' ''t''" demo_asleep True False runtime_new]
    by (intro turn_more [OF demo_asleep_reachable])
      (simp add: demo_asleep_def demo_claimed_def turn_world_new_def claim_of_def)
  from turn_more [OF this turn_notify_step] show ?thesis
    by (simp add: notify_waiters_def runtime_new_def demo_asleep_def demo_claimed_def turn_world_new_def)
qed

theorem waiter_is_never_forgotten_witness:
  "(wait_step ''c'' (runtime_new\<lparr>rt_notified := 1\<rparr>) ^^ 3) (WaitAsleep 0) = WaitDone"
  using waiter_is_never_forgotten [OF demo_released_reachable, of "''c''" "WaitAsleep 0"]
  by (simp add: demo_asleep_def demo_claimed_def turn_world_new_def is_claimed_def runtime_new_def)


section \<open>Driving a turn\<close>

text \<open>
  C15. A turn ends: whatever the agent answers, it sends at most ten prompts, in at most two
  attempts. It starts over only after an attempt of an ACP agent that ended in a retryable error
  while the conversation was active, and only if none of the replies of that attempt showed
  output, ran a tool or stored anything.
\<close>

theorem turn_is_bounded_and_replays_clean:
  assumes "run_user_turn inp envs lifecycles = (res, fx)"
  shows "prompt_count fx \<le> 10 \<and> length (filter ((=) FxRefreshAnchor) fx) \<le> 1 \<and>
    (FxRefreshAnchor \<in> set fx \<longrightarrow>
      (\<exists>r fx0 fx1. run_attempt (attempt_input inp False) (envs 0) = (Inr r, fx0) \<and> fx = fx0 @ fx1 \<and>
         ta_agent_type r = AtAcp \<and> lifecycles 0 = LifeActive \<and>
         relay_retryable (ro_terminal (ta_outcome r)) = Some True \<and>
         (\<forall>i < prompt_count fx0. safe_to_auto_replay (ro_attempt (rd_outcome (ae_rounds (envs 0) i))))))"
proof -
  obtain x fx' where loop: "user_turn_loop inp envs lifecycles False False = (x, fx')" by fastforce
  then obtain last where fx: "fx = fx' @ last" and last: "prompt_count last = 0" "FxRefreshAnchor \<notin> set last"
    using assms by (cases x) (auto simp: run_user_turn_def split: option.splits if_splits)
  show ?thesis
    using loop
  proof (cases rule: user_turn_loop_cases)
    case (ended r fx0 fx1)
    then show ?thesis
      using run_attempt_bounded [OF ended(1)] last fx
      by (simp add: attempt_input_def max_continuations_per_turn_def filter_empty_conv no_refresh_filter)
  next
    case (replay r fx0 fx1 fx2 auth')
    from replay(7) obtain r2 fx3 fx4 where second:
      "run_attempt (attempt_input inp True) (envs 1) = (r2, fx3)" "fx2 = fx3 @ fx4"
      "prompt_count fx4 = 0" "FxRefreshAnchor \<notin> set fx4"
      by (cases rule: user_turn_loop_cases) auto
    have bounds: "prompt_count fx0 \<le> 5" "prompt_count fx3 \<le> 5" "FxRefreshAnchor \<notin> set fx0" "FxRefreshAnchor \<notin> set fx3"
      using run_attempt_bounded [OF replay(2)] run_attempt_bounded [OF second(1)]
      by (simp_all add: attempt_input_def max_continuations_per_turn_def)
    have split: "fx = fx0 @ fx1 @ FxRefreshAnchor # fx3 @ fx4 @ last"
      using fx replay(8) second(2) by simp
    have clean: "\<forall>i < prompt_count fx0. safe_to_auto_replay (ro_attempt (rd_outcome (ae_rounds (envs 0) i)))"
      using run_attempt_summary [OF replay(2,3)] by blast
    have "prompt_count fx \<le> 10 \<and> length (filter ((=) FxRefreshAnchor) fx) \<le> 1"
      using bounds second(3,4) last replay(9,10) by (simp add: split no_refresh_filter)
    then show ?thesis
      using replay(2,4,5,6) clean split by blast
  qed
qed

text \<open>A turn whose first attempt fails before anything was shown, and whose replay succeeds.\<close>

definition demo_round :: "relay_terminal \<Rightarrow> round_env" where
  "demo_round terminal =
     \<lparr>rd_lifecycle = LifeActive, rd_mode_error = None,
      rd_outcome = \<lparr>ro_system_responses = [], ro_terminal = terminal, ro_attempt = attempt_summary_default\<rparr>\<rparr>"

definition demo_attempt :: "relay_terminal \<Rightarrow> attempt_env" where
  "demo_attempt terminal =
     \<lparr>ae_build = Inr AtAcp, ae_workspace_error = None, ae_cancel_taken = False, ae_session_key = False,
      ae_rounds = (\<lambda>_. demo_round terminal)\<rparr>"

definition demo_turn :: turn_attempt_input where
  "demo_turn =
     \<lparr>ai_content = ''hi'', ai_agent_id = Some ''agent'', ai_required_mode = None,
      ai_continuation_count = 0, ai_defer_clean_terminal_errors = True\<rparr>"

lemma demo_rounds:
  "attempt_rounds (attempt_input demo_turn replayed) AtAcp (demo_attempt terminal) 0 0 ''hi''
      attempt_summary_default =
    (Inr \<lparr>ta_outcome = rd_outcome (demo_round terminal), ta_summary = attempt_summary_default,
          ta_agent_type = AtAcp\<rparr>, [FxPrompt ''hi'' (\<not> replayed)])"
  by (cases terminal) (simp_all add: attempt_rounds.simps [of _ _ _ 0] demo_attempt_def demo_round_def
      Let_def relay_is_error_def attempt_input_def demo_turn_def required_mode_error_def continuation_decide_def merge_summary_def
      attempt_summary_default_def safe_to_auto_replay_def)

lemma demo_run_attempt:
  "run_attempt (attempt_input demo_turn replayed) (demo_attempt terminal) =
    (Inr \<lparr>ta_outcome = rd_outcome (demo_round terminal), ta_summary = attempt_summary_default,
          ta_agent_type = AtAcp\<rparr>, [FxPrompt ''hi'' (\<not> replayed)])"
  using demo_rounds [of replayed terminal]
  by (simp add: run_attempt_def demo_attempt_def attempt_input_def demo_turn_def)

definition demo_envs :: "nat \<Rightarrow> attempt_env" where
  "demo_envs n = demo_attempt (if n = 0 then RelayError (Some UnknownUpstreamError) (Some True) else RelayFinish)"

lemma demo_user_turn:
  "run_user_turn demo_turn demo_envs (\<lambda>_. LifeActive) =
     (\<lparr>ut_status = TurnCompleted, ut_error_message = None\<rparr>,
      [FxPrompt ''hi'' True, FxEvict False, FxRefreshAnchor, FxPrompt ''hi'' False, FxSessionSuccess ''agent''])"
proof -
  note loop = user_turn_loop.simps [folded attempt_input_def]
  note simps = demo_run_attempt demo_round_def
    terminal_is_auth_failure_def attempt_summary_default_def relay_code_def relay_is_error_def
  have second: "user_turn_loop demo_turn demo_envs (\<lambda>_. LifeActive) True auth =
      ((False, None, False), [FxPrompt ''hi'' False])" for auth
    by (simp add: loop [of demo_turn _ _ True] simps demo_envs_def)
  have "user_turn_loop demo_turn demo_envs (\<lambda>_. LifeActive) False False =
      ((False, None, False), [FxPrompt ''hi'' True, FxEvict False, FxRefreshAnchor, FxPrompt ''hi'' False])"
    using second
    by (simp add: loop [of demo_turn _ _ False] simps demo_envs_def recovery_decide_def relay_retryable_def
        is_provider_turn_error_def provider_turn_codes_def safe_to_auto_replay_def
        classify_session_recovery_signal_def evict_after_terminal_error_def)
  then show ?thesis by (simp add: run_user_turn_def demo_turn_def)
qed

theorem turn_is_bounded_and_replays_clean_witness:
  "prompt_count [FxPrompt ''hi'' True, FxEvict False, FxRefreshAnchor, FxPrompt ''hi'' False,
     FxSessionSuccess ''agent''] \<le> 10 \<and>
   (\<exists>r fx0. run_attempt (attempt_input demo_turn False) (demo_envs 0) = (Inr r, fx0))"
  using turn_is_bounded_and_replays_clean [OF demo_user_turn] by auto


section \<open>Cancelling\<close>







definition demo_chat :: chat_world where
  "demo_chat =
     \<lparr>ch_state = runtime_new\<lparr>rt_active_turns := [(''c'', ''t'')]\<rparr>, ch_tasks = {}, ch_messages = [],
      ch_scheduled = [], ch_prompts = [], ch_completed = []\<rparr>"


text \<open>
  A cancel can be lost in the same window. It looks for the agent before the agent has
  registered; the agent registers and the turn, finding no deferred cancel, sends its prompt;
  then the cancel is deferred and reported as accepted. The prompt is out, the conversation is
  not cancelling, and what was deferred stops no other turn either.
\<close>

theorem early_cancel_is_lost:
  assumes "active_turn_id_for c (ch_state w) = Some t" "c \<notin> ch_tasks w"
    "map_of (rt_deferred_cancels (ch_state w)) c \<noteq> Some t" "\<not> is_cancelling c (ch_state w)" "t' \<noteq> t"
  shows "let (p1, w1) = cancel_step c t answer (CancelLook, w);
             (p2, w2) = cancel_step c t answer (p1, w1);
             (sent, w3) = turn_start c t (turn_build c w2);
             (p4, w4) = cancel_step c t answer (p2, w3)
         in p4 = CancelDone CancelDeferred \<and> sent \<and> ch_prompts w4 = ch_prompts w @ [(c, t)] \<and>
            \<not> is_cancelling c (ch_state w4) \<and> active_turn_id_for c (ch_state w4) = Some t \<and>
            c \<in> ch_tasks w4 \<and> fst (turn_start c t' w4)"
  using assms
  by (simp add: cancel_step_def turn_build_def turn_start_def turn_take_cancel_def
      take_deferred_cancel_def turn_send_prompt_def active_turn_id_for_iff is_cancelling_def defer_cancel_def)

theorem early_cancel_is_lost_witness:
  "let w3 = snd (turn_start ''c'' ''t'' (turn_build ''c'' demo_chat));
       (p4, w4) = cancel_step ''c'' ''t'' None (CancelDefer, w3)
   in p4 = CancelDone CancelDeferred \<and> ch_prompts w4 = [(''c'', ''t'')]"
  using early_cancel_is_lost [of "''c''" demo_chat "''t''" "''t2''" None]
  by (simp add: demo_chat_def runtime_new_def cancel_step_def Let_def active_turn_id_for_def
      is_cancelling_def split: prod.splits)

text \<open>
  A cancel that comes too late costs the user the next message. The turn ends between the
  look at it and the mark, so that the conversation is marked as being cancelled with no turn
  left to clear the mark: it is reported as busy, and the next message that is sent is
  acknowledged with its identifiers, yet it is neither stored nor is any turn scheduled for it.
\<close>

theorem late_cancel_drops_the_next_message:
  assumes "active_turn_id_for c (ch_state w) = Some t" "c \<in> ch_tasks w"
    "\<not> rt_shutting_down (ch_state w)" "c \<notin> rt_deleting (ch_state w)"
    and "sq_conversation_id q = c" "send_checks q = Inr content"
  shows "let (p1, w1) = cancel_step c t None (CancelLook, w);
             (p2, w2) = cancel_step c t None (p1, w1);
             w3 = turn_end (claim_of c t) found updated w2;
             (p4, w4) = cancel_step c t None (p2, w3);
             (p5, w5) = cancel_step c t None (p4, w4);
             (response, w6) = send_message q w5
         in p5 = CancelDone CancelAcknowledged \<and> active_turn_id_for c (ch_state w5) = None \<and>
            \<not> rs_can_send_message (runtime_summary_for c agent w5) \<and>
            response = Inr (sq_msg_id q, sq_turn_id q) \<and>
            ch_messages w6 = ch_messages w \<and> ch_scheduled w6 = ch_scheduled w \<and>
            active_turn_id_for c (ch_state w6) = None"
proof -
  define st1 where "st1 = snd (release_turn c t (ch_state w))"
  define st2 where "st2 = mark_cancelling c st1"
  have act: "\<not> rt_poisoned (ch_state w)" "map_of (rt_active_turns (ch_state w)) c = Some t"
    using assms(1) by (auto simp: active_turn_id_for_iff)
  have rel: "release_turn c t (ch_state w) = (False, st1)"
    using act assms(4) by (simp add: st1_def release_turn_def release_locked_def)
  have st1: "\<not> rt_poisoned st1" "map_of (rt_active_turns st1) c = None" "\<not> rt_shutting_down st1" "c \<notin> rt_deleting st1"
    using act assms(3,4) by (simp_all add: st1_def release_turn_def release_locked_def notify_waiters_def)
  have st2: "\<not> rt_poisoned st2" "map_of (rt_active_turns st2) c = None" "\<not> rt_shutting_down st2"
    "c \<notin> rt_deleting st2" "c \<in> rt_cancelling st2"
    using st1 by (simp_all add: st2_def mark_cancelling_def)
  define w3 where "w3 = turn_end (claim_of c t) found updated w"
  have w3: "ch_state w3 = st1" "ch_tasks w3 = ch_tasks w" "ch_messages w3 = ch_messages w"
    "ch_scheduled w3 = ch_scheduled w"
    using rel by (auto simp: w3_def turn_end_def release_for_turn_def release_inner_def claim_of_def
        complete_released_turn_def publish_completion_def)
  define w5 where "w5 = w3\<lparr>ch_state := st2\<rparr>"
  have steps: "cancel_step c t None (CancelLook, w) = (CancelTask, w)"
    "cancel_step c t None (CancelTask, w) = (CancelMark, w)"
    "cancel_step c t None (CancelMark, w3) = (CancelAgent, w5)"
    "cancel_step c t None (CancelAgent, w5) = (CancelDone CancelAcknowledged, w5)"
    using assms(1,2) w3(1) by (simp_all add: cancel_step_def w5_def st2_def)
  have summary: "\<not> rs_can_send_message (runtime_summary_for c agent w5)"
    using st2 assms(2) w3(2) by (simp add: w5_def runtime_summary_for_def summary_from_parts_def is_cancelling_def Let_def)
  have "try_claim_turn c (sq_turn_id q) st2 =
      (Inr (claim_of c (sq_turn_id q)), st2\<lparr>rt_active_turns := hm_insert c (sq_turn_id q) (rt_active_turns st2)\<rparr>)"
    using st2 by (simp add: try_claim_turn_def claim_of_def)
  then have claim: "send_claim q w5 = (Inr (claim_of c (sq_turn_id q)),
      w5\<lparr>ch_state := st2\<lparr>rt_active_turns := hm_insert c (sq_turn_id q) (rt_active_turns st2)\<rparr>\<rparr>)"
    using assms(5,6) by (simp add: send_claim_def w5_def)
  obtain w6 where send: "send_message q w5 = (Inr (sq_msg_id q, sq_turn_id q), w6)"
    and w6: "ch_messages w6 = ch_messages w" "ch_scheduled w6 = ch_scheduled w"
      "active_turn_id_for c (ch_state w6) = None"
    using claim st2 assms(5) w3(3,4)
    by (simp add: send_message_def send_claimed_def allows_write_def decide_write_def lifecycle_for_def
        release_and_complete_def release_claim_def release_inner_def release_turn_def release_locked_def
        claim_of_def complete_released_turn_def publish_completion_def notify_waiters_def
        active_turn_id_for_def w5_def)
  show ?thesis
    using summary w6 st2 by (simp add: steps send w3_def [symmetric] active_turn_id_for_def) (simp add: w5_def st2)
qed

definition demo_send :: send_request where
  "demo_send =
     \<lparr>sq_conversation_id = ''c'', sq_content = ''hi'', sq_turn_id = ''t2'', sq_msg_id = ''m2'',
      sq_row = Inr (Some \<lparr>cr_team_id = None, cr_deprecated_runtime = False\<rparr>),
      sq_attachments = Inr ''hi'', sq_insert = None, sq_build_options = None,
      sq_row_found = True, sq_updated = True\<rparr>"

lemma demo_send_checks: "send_checks demo_send = Inr ''hi''"
proof -
  have "\<not> str_blank ''hi''" by code_simp
  then show ?thesis by (simp add: send_checks_def demo_send_def)
qed

theorem late_cancel_drops_the_next_message_witness:
  "let w3 = turn_end (claim_of ''c'' ''t'') True True (demo_chat\<lparr>ch_tasks := {''c''}\<rparr>);
       w5 = w3\<lparr>ch_state := mark_cancelling ''c'' (ch_state w3)\<rparr>
   in fst (send_message demo_send w5) = Inr (''m2'', ''t2'') \<and> ch_messages (snd (send_message demo_send w5)) = []"
  using late_cancel_drops_the_next_message [of "''c''" "demo_chat\<lparr>ch_tasks := {''c''}\<rparr>" "''t''" demo_send "''hi''"
      True True "\<lambda>_. (None, 0)"] demo_send_checks
  by (simp add: demo_send_def demo_chat_def runtime_new_def cancel_step_def Let_def active_turn_id_for_def
      split: prod.splits)

end
