(* ===== verification/Acp_Types.thy ===== *)
theory Acp_Types
  imports Prelude
begin

text \<open>
  The data an ACP agent reports about its session, from
  \<open>src/crates/aionui-ai-agent/src/manager/acp/\<close>: config options with their selects, mode and
  model catalogs (\<open>config_option_catalog.rs\<close>, \<open>legacy_session_model.rs\<close>), the snapshot of
  options shown to the client (\<open>config_options.rs\<close>), and the resolution of mode names
  (\<open>mode_normalize.rs\<close>). The schema types of the \<open>agent-client-protocol\<close> crate have the
  fields this code reads; what it only stores is an opaque text.
\<close>

section \<open>Schema of the protocol\<close>

text \<open>Categories other than the three known ones are given by what \<open>category_to_api\<close> prints.\<close>

datatype config_category = CatMode | CatModel | CatThoughtLevel | CatOther string

record select_option =
  so_value :: string
  so_name :: string
  so_description :: "string option"

datatype select_options =
    Ungrouped "select_option list"
  | Grouped "(string \<times> select_option list) list"
  | OtherOptions string

record config_select =
  cs_current_value :: string
  cs_options :: select_options

datatype config_kind = KindSelect config_select | KindOther string

record config_option =
  co_id :: string
  co_name :: string
  co_description :: "string option"
  co_category :: "config_category option"
  co_kind :: config_kind

record session_mode =
  sm_id :: string
  sm_name :: string
  sm_description :: "string option"

record session_mode_state =
  current_mode_id :: string
  available_modes :: "session_mode list"

record legacy_model_entry =
  model_id :: string
  model_name :: string
  model_description :: "string option"

record legacy_model_state =
  current_model_id :: string
  available_models :: "legacy_model_entry list"

record usage_update =
  usage_used :: nat
  usage_size :: nat
  usage_cost :: "string option"

record agent_capabilities =
  load_session :: bool
  fork_supported :: bool

text \<open>The row of an agent's metadata, as far as it is read here.\<close>

record agent_metadata =
  backend :: "string option"
  yolo_id :: "string option"
  self_identity_sticky :: bool
  session_load_via_meta_field :: bool


section \<open>Catalogs from config options\<close>

fun flatten_select_options :: "select_options \<Rightarrow> select_option list" where
  "flatten_select_options (Ungrouped os) = os"
| "flatten_select_options (Grouped gs) = concat (map snd gs)"
| "flatten_select_options (OtherOptions _) = []"

fun select_from_kind :: "config_kind \<Rightarrow> config_select option" where
  "select_from_kind (KindSelect s) = Some s"
| "select_from_kind (KindOther _) = None"

definition find_select :: "config_option list \<Rightarrow> string list \<Rightarrow> config_category \<Rightarrow> config_select option" where
  "find_select os ids cat =
     (case find_map (\<lambda>opt. if co_category opt = Some cat then select_from_kind (co_kind opt) else None) os of
        Some s \<Rightarrow> Some s
      | None \<Rightarrow> find_map (\<lambda>opt. if co_id opt \<notin> set ids then None else select_from_kind (co_kind opt)) os)"

definition non_empty_or_first :: "string \<Rightarrow> string \<Rightarrow> string" where
  "non_empty_or_first current first = (if current = [] then first else current)"

definition mode_of_option :: "select_option \<Rightarrow> session_mode" where
  "mode_of_option opt = \<lparr>sm_id = so_value opt, sm_name = so_name opt, sm_description = so_description opt\<rparr>"

definition derive_modes_from_config_options :: "config_option list \<Rightarrow> session_mode_state option" where
  "derive_modes_from_config_options os =
     (case find_select os [''mode'', ''modes''] CatMode of
        None \<Rightarrow> None
      | Some select \<Rightarrow>
          let modes = map mode_of_option (flatten_select_options (cs_options select))
          in if modes = [] then None
             else Some \<lparr>current_mode_id = non_empty_or_first (cs_current_value select) (sm_id (hd modes)),
                        available_modes = modes\<rparr>)"

text \<open>A model for each pair of a model and a thought level, as codex names them.\<close>

definition combined_models :: "select_option list \<Rightarrow> select_option list \<Rightarrow> legacy_model_entry list" where
  "combined_models models thoughts =
     concat (map (\<lambda>model. map (\<lambda>thought.
       \<lparr>model_id = so_value model @ ''/'' @ so_value thought,
        model_name = so_name model @ '' ('' @ so_value thought @ '')'',
        model_description = so_description model\<rparr>) thoughts) models)"

definition model_of_option :: "select_option \<Rightarrow> legacy_model_entry" where
  "model_of_option opt =
     \<lparr>model_id = so_value opt, model_name = so_name opt, model_description = so_description opt\<rparr>"

definition plain_models :: "config_select \<Rightarrow> select_option list \<Rightarrow> legacy_model_state" where
  "plain_models select models =
     \<lparr>current_model_id = non_empty_or_first (cs_current_value select) (so_value (hd models)),
      available_models = map model_of_option models\<rparr>"

definition derive_models_from_config_options :: "config_option list \<Rightarrow> legacy_model_state option" where
  "derive_models_from_config_options os =
     (case find_select os [''model'', ''models''] CatModel of
        None \<Rightarrow> None
      | Some select \<Rightarrow>
          let models = flatten_select_options (cs_options select)
          in if models = [] then None
             else case find_select os [''thought_level'', ''reasoning_effort''] CatThoughtLevel of
                 Some thought \<Rightarrow>
                   let thoughts = flatten_select_options (cs_options thought)
                   in if thoughts \<noteq> []
                      then Some \<lparr>current_model_id =
                             non_empty_or_first (cs_current_value select) (so_value (hd models)) @ ''/'' @
                             non_empty_or_first (cs_current_value thought) (so_value (hd thoughts)),
                           available_models = combined_models models thoughts\<rparr>
                      else Some (plain_models select models)
               | None \<Rightarrow> Some (plain_models select models))"

fun merge_option :: "config_option list \<Rightarrow> config_option \<Rightarrow> config_option list" where
  "merge_option [] opt = [opt]"
| "merge_option (e # es) opt = (if co_id e = co_id opt then opt # es else e # merge_option es opt)"

definition merge_config_options :: "config_option list option \<Rightarrow> config_option list \<Rightarrow> config_option list" where
  "merge_config_options existing incoming =
     (case existing of None \<Rightarrow> incoming | Some es \<Rightarrow> foldl merge_option es incoming)"


section \<open>The snapshot of the options\<close>

record config_select_dto =
  sd_value :: string
  sd_name :: "string option"
  sd_label :: "string option"
  sd_description :: "string option"

record config_option_dto =
  cd_id :: string
  cd_name :: "string option"
  cd_label :: "string option"
  cd_description :: "string option"
  cd_category :: "string option"
  cd_option_type :: string
  cd_current_value :: "string option"
  cd_options :: "config_select_dto list"

datatype config_option_origin = OriginReal | SyntheticLegacyMode | SyntheticLegacyModel

record config_snapshot =
  snap_options :: "config_option_dto list"
  snap_origins :: "config_option_origin list"

record config_supplement_summary =
  supplement_mode :: bool
  supplement_model :: bool

fun category_to_api :: "config_category \<Rightarrow> string" where
  "category_to_api CatMode = ''mode''"
| "category_to_api CatModel = ''model''"
| "category_to_api CatThoughtLevel = ''thought_level''"
| "category_to_api (CatOther s) = s"

definition dto_from_select_option :: "select_option \<Rightarrow> config_select_dto" where
  "dto_from_select_option opt =
     \<lparr>sd_value = so_value opt, sd_name = Some (so_name opt), sd_label = None, sd_description = so_description opt\<rparr>"

definition dto_from_sdk_option :: "config_option \<Rightarrow> config_option_dto" where
  "dto_from_sdk_option opt =
     (let (option_type, current, values) =
        (case co_kind opt of
           KindSelect select \<Rightarrow>
             (''select'', Some (cs_current_value select),
              map dto_from_select_option (flatten_select_options (cs_options select)))
         | KindOther _ \<Rightarrow> (''string'', None, []))
      in \<lparr>cd_id = co_id opt, cd_name = Some (co_name opt), cd_label = None,
          cd_description = co_description opt, cd_category = map_option category_to_api (co_category opt),
          cd_option_type = option_type, cd_current_value = current, cd_options = values\<rparr>)"

definition dto_from_modes :: "session_mode_state \<Rightarrow> config_option_dto" where
  "dto_from_modes modes =
     \<lparr>cd_id = ''mode'', cd_name = Some ''Mode'', cd_label = None, cd_description = None,
      cd_category = Some ''mode'', cd_option_type = ''select'',
      cd_current_value = Some (current_mode_id modes),
      cd_options = map (\<lambda>m. \<lparr>sd_value = sm_id m, sd_name = Some (sm_name m), sd_label = None,
        sd_description = sm_description m\<rparr>) (available_modes modes)\<rparr>"

definition dto_from_models :: "legacy_model_state \<Rightarrow> config_option_dto" where
  "dto_from_models models =
     \<lparr>cd_id = ''model'', cd_name = Some ''Model'', cd_label = None, cd_description = None,
      cd_category = Some ''model'', cd_option_type = ''select'',
      cd_current_value = Some (current_model_id models),
      cd_options = map (\<lambda>m. \<lparr>sd_value = model_id m, sd_name = Some (model_name m), sd_label = None,
        sd_description = model_description m\<rparr>) (available_models models)\<rparr>"

definition from_legacy_catalogs ::
  "session_mode_state option \<Rightarrow> legacy_model_state option \<Rightarrow> config_snapshot" where
  "from_legacy_catalogs modes models =
     \<lparr>snap_options = map dto_from_modes (option_list modes) @ map dto_from_models (option_list models),
      snap_origins = map (\<lambda>_. SyntheticLegacyMode) (option_list modes) @
        map (\<lambda>_. SyntheticLegacyModel) (option_list models)\<rparr>"

definition real_option_matches :: "config_option \<Rightarrow> config_category \<Rightarrow> string \<Rightarrow> bool" where
  "real_option_matches opt cat i \<longleftrightarrow> co_category opt = Some cat \<or> co_id opt = i"

definition supplement_summary_for_real_options ::
  "config_option list \<Rightarrow> session_mode_state option \<Rightarrow> legacy_model_state option \<Rightarrow> config_supplement_summary" where
  "supplement_summary_for_real_options os modes models =
     (let has_mode = list_ex (\<lambda>opt. real_option_matches opt CatMode ''mode'') os;
          has_model = list_ex (\<lambda>opt. real_option_matches opt CatModel ''model'') os
      in \<lparr>supplement_mode = (\<not> has_mode \<and>
            (case modes of Some ms \<Rightarrow> available_modes ms \<noteq> [] | None \<Rightarrow> False)),
          supplement_model = (\<not> has_model \<and>
            (case models of Some ms \<Rightarrow> available_models ms \<noteq> [] | None \<Rightarrow> False))\<rparr>)"

definition from_real_options_with_supplements ::
  "config_option list \<Rightarrow> session_mode_state option \<Rightarrow> legacy_model_state option \<Rightarrow> config_snapshot" where
  "from_real_options_with_supplements os modes models =
     (let summary = supplement_summary_for_real_options os modes models;
          added_modes = (if supplement_mode summary then option_list modes else []);
          added_models = (if supplement_model summary then option_list models else [])
      in \<lparr>snap_options = map dto_from_sdk_option os @ map dto_from_modes added_modes @
            map dto_from_models added_models,
          snap_origins = map (\<lambda>_. OriginReal) os @ map (\<lambda>_. SyntheticLegacyMode) added_modes @
            map (\<lambda>_. SyntheticLegacyModel) added_models\<rparr>)"

definition option_current :: "config_snapshot \<Rightarrow> string \<Rightarrow> string option" where
  "option_current snap i =
     (case find (\<lambda>d. cd_id d = i) (snap_options snap) of
        Some d \<Rightarrow> cd_current_value d | None \<Rightarrow> None)"

definition selectable_values :: "config_snapshot \<Rightarrow> string \<Rightarrow> string list" where
  "selectable_values snap i =
     (case find (\<lambda>d. cd_id d = i) (snap_options snap) of
        Some d \<Rightarrow> map sd_value (cd_options d) | None \<Rightarrow> [])"

definition observed_matches :: "config_snapshot \<Rightarrow> string \<Rightarrow> string \<Rightarrow> bool" where
  "observed_matches snap i requested \<longleftrightarrow> option_current snap i = Some requested"

datatype config_set_path = SetPathOption string | LegacyMode | LegacyModel

datatype config_set_path_error = OptionNotFound | ValueNotSelectable

definition resolve_set_path ::
  "config_snapshot \<Rightarrow> string \<Rightarrow> string \<Rightarrow> config_set_path_error + config_set_path" where
  "resolve_set_path snap i requested =
     (case find (\<lambda>(_, d). cd_id d = i) (zip [0..<length (snap_options snap)] (snap_options snap)) of
        None \<Rightarrow> Inl OptionNotFound
      | Some (n, d) \<Rightarrow>
          if cd_options d \<noteq> [] \<and> \<not> list_ex (\<lambda>v. sd_value v = requested) (cd_options d)
          then Inl ValueNotSelectable
          else (case (if n < length (snap_origins snap) then snap_origins snap ! n else OriginReal) of
              OriginReal \<Rightarrow> Inr (SetPathOption (cd_id d))
            | SyntheticLegacyMode \<Rightarrow> Inr LegacyMode
            | SyntheticLegacyModel \<Rightarrow> Inr LegacyModel))"


section \<open>Names of modes and models\<close>

definition codex_canonical_full_access_mode :: string where
  "codex_canonical_full_access_mode = ''agent-full-access''"

definition codex_legacy_full_access_mode :: string where
  "codex_legacy_full_access_mode = ''full-access''"

definition is_codex :: "agent_metadata \<Rightarrow> bool" where
  "is_codex md \<longleftrightarrow> backend md = Some ''codex''"

definition is_codex_full_access_semantic_value :: "string \<Rightarrow> bool" where
  "is_codex_full_access_semantic_value m \<longleftrightarrow>
     m \<in> {codex_canonical_full_access_mode, codex_legacy_full_access_mode, ''yolo'', ''yoloNoSandbox''}"

definition normalize_requested_mode :: "agent_metadata \<Rightarrow> string \<Rightarrow> string" where
  "normalize_requested_mode md mode =
     (let trimmed = str_trim mode
      in if trimmed = [] then []
         else if is_codex md \<and> is_codex_full_access_semantic_value trimmed
         then (case yolo_id md of Some y \<Rightarrow> y | None \<Rightarrow> codex_canonical_full_access_mode)
         else case (if trimmed = ''yolo'' \<or> trimmed = ''yoloNoSandbox'' then yolo_id md else None) of
             Some native \<Rightarrow> native
           | None \<Rightarrow>
               if is_codex md \<and> (trimmed = ''default'' \<or> trimmed = ''autoEdit'') then ''auto''
               else trimmed)"

definition normalize_for_available_values :: "agent_metadata \<Rightarrow> string \<Rightarrow> string list \<Rightarrow> string" where
  "normalize_for_available_values md mode available =
     (let trimmed = str_trim mode
      in if is_codex md \<and> is_codex_full_access_semantic_value trimmed
            \<and> codex_canonical_full_access_mode \<in> set available
         then codex_canonical_full_access_mode
         else if is_codex md \<and> is_codex_full_access_semantic_value trimmed
            \<and> codex_legacy_full_access_mode \<in> set available
         then codex_legacy_full_access_mode
         else normalize_requested_mode md mode)"

datatype required_full_auto_mode = FullAutoApply string | FullAutoSkip string

definition resolve_required_full_auto_mode :: "agent_metadata \<Rightarrow> string list \<Rightarrow> required_full_auto_mode" where
  "resolve_required_full_auto_mode md available =
     (let resolved = normalize_for_available_values md ''yolo'' available
      in if resolved \<in> set available then FullAutoApply resolved else FullAutoSkip resolved)"

text \<open>
  Model ids of claude: \<open>to_lowercase\<close> takes the Kelvin sign (bytes 226 132 170) to \<open>k\<close>, the
  only character outside ASCII that it takes to an ASCII letter.
\<close>

fun fold_kelvin :: "string \<Rightarrow> string" where
  "fold_kelvin (a # b # c # s) =
     (if [a, b, c] = map char_of [226, 132, 170 :: nat] then CHR ''k'' # fold_kelvin s
      else a # fold_kelvin (b # c # s))"
| "fold_kelvin s = s"

definition normalize_requested_model_id :: "string option \<Rightarrow> string \<Rightarrow> string" where
  "normalize_requested_model_id be m =
     (if be = Some ''claude''
      then let slot = ascii_lower (fold_kelvin (str_trim m))
           in if slot = ''sonnet'' \<or> slot = ''default'' then ''default''
              else if slot = ''opus'' then ''opus''
              else if slot = ''haiku'' then ''haiku''
              else ''default''
      else m)"

definition normalize_persisted_model_id :: "string option \<Rightarrow> string option \<Rightarrow> string option" where
  "normalize_persisted_model_id be m = map_option (normalize_requested_model_id be) m"

end
