(* ===== verification/Acp_Session.thy ===== *)
theory Acp_Session
  imports Acp_Types Turn_Policy
begin

text \<open>
  The aggregate of an ACP session (\<open>session.rs\<close>): what the user wants (desired), what the
  agent last reported (observed) and what it offers (advertised), the operations that change
  them and record domain events, and the plan of the calls that would align the two. The
  shared flag of the config lease is a field; a guard that is dropped resets it. The check of
  \<open>set_session_id\<close> that only debug builds make is left out.
\<close>

section \<open>State\<close>

datatype close_reason =
    CloseUserCancel
  | CloseKilled "agent_kill_reason option"
  | CloseProcessExited "int option" "string option" string
  | CloseFailed string

datatype acp_session_event =
    SessionOpened
  | SessionAssigned string
  | DesiredModeChanged string
  | DesiredModelChanged string
  | DesiredConfigChanged "(string, string) hash_map"
  | ObservedModeSynced string
  | ObservedModelSynced string
  | ObservedConfigSynced "(string, string) hash_map"
  | ObservedContextUsageChanged usage_update

record startup_config_seed =
  seed_category :: config_category
  seed_value :: string

datatype startup_seed_result =
    SeedApplied config_category string
  | SeedOptionNotAdvertised config_category
  | SeedValueNotSelectable config_category

datatype reconcile_action =
    SetMode string
  | SetModel string
  | SetConfigOption string string

record acp_session =
  session_id :: "string option"
  opened :: bool
  desired_mode :: "string option"
  desired_model :: "string option"
  desired_config :: "(string, string) hash_map"
  pending_startup_config :: "startup_config_seed list"
  observed_mode :: "string option"
  observed_model :: "string option"
  observed_config :: "(string, string) hash_map"
  adv_modes :: "session_mode_state option"
  adv_models :: "legacy_model_state option"
  adv_config_options :: "config_option list option"
  adv_context_usage :: "usage_update option"
  adv_capabilities :: "agent_capabilities option"
  adv_auth_methods :: "string list option"
  adv_commands :: "string list option"
  config_set_in_flight :: bool
  pending_events :: "acp_session_event list"
  pending_session_new_prelude :: bool
  pending_model_notice :: "string option"
  last_close_reason :: "close_reason option"

definition acp_session_new ::
  "string option \<Rightarrow> string option \<Rightarrow> (string, string) hash_map \<Rightarrow> acp_session" where
  "acp_session_new mode model config =
     \<lparr>session_id = None, opened = False, desired_mode = mode, desired_model = model,
      desired_config = config, pending_startup_config = [], observed_mode = None,
      observed_model = None, observed_config = [], adv_modes = None, adv_models = None,
      adv_config_options = None, adv_context_usage = None, adv_capabilities = None,
      adv_auth_methods = None, adv_commands = None, config_set_in_flight = False,
      pending_events = [], pending_session_new_prelude = False, pending_model_notice = None,
      last_close_reason = None\<rparr>"

abbreviation acp_emit :: "acp_session_event \<Rightarrow> acp_session \<Rightarrow> acp_session" where
  "acp_emit e s \<equiv> s\<lparr>pending_events := pending_events s @ [e]\<rparr>"

abbreviation acp_emit_if :: "bool \<Rightarrow> acp_session_event \<Rightarrow> acp_session \<Rightarrow> acp_session" where
  "acp_emit_if b e s \<equiv> s\<lparr>pending_events := pending_events s @ (if b then [e] else [])\<rparr>"


section \<open>The config lease\<close>

definition try_begin_config_set :: "acp_session \<Rightarrow> bool \<times> acp_session" where
  "try_begin_config_set s =
     (if config_set_in_flight s then (False, s) else (True, s\<lparr>config_set_in_flight := True\<rparr>))"

definition drop_config_set_guard :: "acp_session \<Rightarrow> acp_session" where
  "drop_config_set_guard s = s\<lparr>config_set_in_flight := False\<rparr>"


section \<open>Session id and lifecycle\<close>

definition set_session_id :: "string \<Rightarrow> acp_session \<Rightarrow> acp_session" where
  "set_session_id sid s =
     (case session_id s of
        Some _ \<Rightarrow> s
      | None \<Rightarrow> acp_emit (SessionAssigned sid) (s\<lparr>session_id := Some sid\<rparr>))"

definition clear_session_id :: "acp_session \<Rightarrow> acp_session" where
  "clear_session_id s = s\<lparr>session_id := None, opened := False, last_close_reason := None\<rparr>"

definition record_close_reason :: "close_reason option \<Rightarrow> acp_session \<Rightarrow> acp_session" where
  "record_close_reason r s = s\<lparr>last_close_reason := r\<rparr>"

definition take_close_reason :: "acp_session \<Rightarrow> close_reason option \<times> acp_session" where
  "take_close_reason s = (last_close_reason s, s\<lparr>last_close_reason := None\<rparr>)"

definition mark_opened :: "acp_session \<Rightarrow> acp_session" where
  "mark_opened s = (if opened s then s else acp_emit SessionOpened (s\<lparr>opened := True\<rparr>))"

definition mark_pending_session_new_prelude :: "acp_session \<Rightarrow> acp_session" where
  "mark_pending_session_new_prelude s = s\<lparr>pending_session_new_prelude := True\<rparr>"

definition take_pending_session_new_prelude :: "acp_session \<Rightarrow> bool \<times> acp_session" where
  "take_pending_session_new_prelude s =
     (pending_session_new_prelude s, s\<lparr>pending_session_new_prelude := False\<rparr>)"


section \<open>What the user wants\<close>

definition is_mode_valid :: "acp_session \<Rightarrow> string \<Rightarrow> bool" where
  "is_mode_valid s m =
     (case adv_modes s of
        None \<Rightarrow> True
      | Some ms \<Rightarrow> available_modes ms = [] \<or> list_ex (\<lambda>a. sm_id a = m) (available_modes ms))"

definition is_model_valid :: "acp_session \<Rightarrow> string \<Rightarrow> bool" where
  "is_model_valid s m =
     (case adv_models s of
        None \<Rightarrow> True
      | Some ms \<Rightarrow> available_models ms = [] \<or> list_ex (\<lambda>a. model_id a = m) (available_models ms))"

definition can_select_model :: "acp_session \<Rightarrow> string \<Rightarrow> bool" where
  "can_select_model s m \<longleftrightarrow> m \<noteq> [] \<and> is_model_valid s m"

definition can_select_mode :: "acp_session \<Rightarrow> string \<Rightarrow> bool" where
  "can_select_mode s m \<longleftrightarrow> m \<noteq> [] \<and> is_mode_valid s m"

definition set_desired_mode :: "string \<Rightarrow> acp_session \<Rightarrow> bool \<times> acp_session" where
  "set_desired_mode m s =
     (if m = [] \<or> \<not> is_mode_valid s m \<or> desired_mode s = Some m then (False, s)
      else (True, acp_emit (DesiredModeChanged m) (s\<lparr>desired_mode := Some m\<rparr>)))"

definition set_desired_model :: "string \<Rightarrow> acp_session \<Rightarrow> bool \<times> acp_session" where
  "set_desired_model m s =
     (if m = [] \<or> \<not> is_model_valid s m \<or> desired_model s = Some m then (False, s)
      else (True, acp_emit (DesiredModelChanged m) (s\<lparr>desired_model := Some m\<rparr>)))"

definition clear_invalid_desired_model :: "acp_session \<Rightarrow> string option \<times> acp_session" where
  "clear_invalid_desired_model s =
     (case desired_model s of
        None \<Rightarrow> (None, s)
      | Some m \<Rightarrow>
          if is_model_valid s m then (None, s)
          else (Some m, s\<lparr>desired_model := None,
             pending_model_notice :=
               (if pending_model_notice s = Some m then None else pending_model_notice s)\<rparr>))"

definition clear_invalid_desired_mode :: "acp_session \<Rightarrow> string option \<times> acp_session" where
  "clear_invalid_desired_mode s =
     (case desired_mode s of
        None \<Rightarrow> (None, s)
      | Some m \<Rightarrow>
          if is_mode_valid s m then (None, s) else (Some m, s\<lparr>desired_mode := None\<rparr>))"

definition set_desired_config :: "string \<Rightarrow> string \<Rightarrow> acp_session \<Rightarrow> acp_session" where
  "set_desired_config k v s =
     (let changed = (map_of (desired_config s) k \<noteq> Some v);
          selections = hm_insert k v (desired_config s)
      in acp_emit_if changed (DesiredConfigChanged selections) (s\<lparr>desired_config := selections\<rparr>))"

definition seed_pending_startup_config :: "config_category \<Rightarrow> string \<Rightarrow> acp_session \<Rightarrow> acp_session" where
  "seed_pending_startup_config cat v s =
     (if v = [] \<or> list_ex (\<lambda>sd. seed_category sd = cat \<and> seed_value sd = v) (pending_startup_config s)
      then s
      else s\<lparr>pending_startup_config :=
             pending_startup_config s @ [\<lparr>seed_category = cat, seed_value = v\<rparr>]\<rparr>)"


section \<open>Startup preferences\<close>

fun config_option_aliases :: "config_category \<Rightarrow> string list" where
  "config_option_aliases CatMode = [''mode'', ''modes'']"
| "config_option_aliases CatModel = [''model'', ''models'']"
| "config_option_aliases CatThoughtLevel =
     [''thought_level'', ''reasoning_effort'', ''effort'', ''thinking_budget'', ''thinking'']"
| "config_option_aliases (CatOther _) = []"

definition select_option_for_startup_seed ::
  "config_option list \<Rightarrow> config_category \<Rightarrow> config_option option" where
  "select_option_for_startup_seed os cat =
     (case find (\<lambda>opt. co_category opt = Some cat) os of
        Some opt \<Rightarrow> Some opt
      | None \<Rightarrow> find (\<lambda>opt. co_id opt \<in> set (config_option_aliases cat)) os)"

fun select_option_values :: "config_kind \<Rightarrow> string list" where
  "select_option_values (KindSelect s) = map so_value (flatten_select_options (cs_options s))"
| "select_option_values (KindOther _) = []"

fun select_option_contains_value :: "config_kind \<Rightarrow> string \<Rightarrow> bool" where
  "select_option_contains_value (KindSelect s) v =
     list_ex (\<lambda>opt. so_value opt = v) (flatten_select_options (cs_options s))"
| "select_option_contains_value (KindOther _) v = False"

fun clear_legacy_desired :: "config_category \<Rightarrow> acp_session \<Rightarrow> acp_session" where
  "clear_legacy_desired CatMode s = s\<lparr>desired_mode := None\<rparr>"
| "clear_legacy_desired CatModel s = s\<lparr>desired_model := None\<rparr>"
| "clear_legacy_desired _ s = s"

definition handle_unresolved_seed :: "startup_config_seed \<Rightarrow> bool \<Rightarrow> acp_session \<Rightarrow> acp_session" where
  "handle_unresolved_seed sd advertised s =
     (case seed_category sd of
        CatMode \<Rightarrow> if \<not> advertised then s else clear_legacy_desired CatMode s
      | CatModel \<Rightarrow> if \<not> advertised then s else clear_legacy_desired CatModel s
      | CatThoughtLevel \<Rightarrow>
          if \<not> advertised then seed_pending_startup_config CatThoughtLevel (seed_value sd) s else s
      | _ \<Rightarrow> s)"

definition resolve_seed ::
  "(string \<Rightarrow> string list \<Rightarrow> string) \<Rightarrow> startup_config_seed \<Rightarrow> acp_session \<Rightarrow>
     startup_seed_result \<times> acp_session" where
  "resolve_seed normalizer sd s =
     (case adv_config_options s of
        None \<Rightarrow> (SeedOptionNotAdvertised (seed_category sd), handle_unresolved_seed sd False s)
      | Some os \<Rightarrow>
          (case select_option_for_startup_seed os (seed_category sd) of
             None \<Rightarrow> (SeedOptionNotAdvertised (seed_category sd), handle_unresolved_seed sd False s)
           | Some opt \<Rightarrow>
               let resolved = (if seed_category sd = CatMode
                     then normalizer (seed_value sd) (select_option_values (co_kind opt))
                     else seed_value sd)
               in if \<not> select_option_contains_value (co_kind opt) resolved
                  then (SeedValueNotSelectable (seed_category sd), handle_unresolved_seed sd True s)
                  else (SeedApplied (seed_category sd) (co_id opt),
                        set_desired_config (co_id opt) resolved
                          (clear_legacy_desired (seed_category sd) s))))"

fun resolve_seeds ::
  "(string \<Rightarrow> string list \<Rightarrow> string) \<Rightarrow> startup_config_seed list \<Rightarrow> acp_session \<Rightarrow>
     startup_seed_result list \<times> acp_session" where
  "resolve_seeds normalizer [] s = ([], s)"
| "resolve_seeds normalizer (sd # sds) s =
     (let (r, s1) = resolve_seed normalizer sd s; (rs, s2) = resolve_seeds normalizer sds s1
      in (r # rs, s2))"

definition resolve_pending_startup_config_seeds ::
  "(string \<Rightarrow> string list \<Rightarrow> string) \<Rightarrow> acp_session \<Rightarrow> startup_seed_result list \<times> acp_session" where
  "resolve_pending_startup_config_seeds normalizer s =
     resolve_seeds normalizer (pending_startup_config s) (s\<lparr>pending_startup_config := []\<rparr>)"


section \<open>What the agent reports\<close>

definition session_snapshot :: "acp_session \<Rightarrow> config_snapshot" where
  "session_snapshot s =
     (case adv_config_options s of
        Some os \<Rightarrow> from_real_options_with_supplements os (adv_modes s) (adv_models s)
      | None \<Rightarrow> from_legacy_catalogs (adv_modes s) (adv_models s))"

definition mode_catalog :: "acp_session \<Rightarrow> session_mode list" where
  "mode_catalog s = (case adv_modes s of Some ms \<Rightarrow> available_modes ms | None \<Rightarrow> [])"

definition model_catalog :: "acp_session \<Rightarrow> legacy_model_entry list" where
  "model_catalog s = (case adv_models s of Some ms \<Rightarrow> available_models ms | None \<Rightarrow> [])"

definition apply_observed_mode :: "string \<Rightarrow> acp_session \<Rightarrow> acp_session" where
  "apply_observed_mode m s =
     acp_emit_if (observed_mode s \<noteq> Some m) (ObservedModeSynced m)
       (s\<lparr>observed_mode := Some m,
          adv_modes := Some \<lparr>current_mode_id = m, available_modes = mode_catalog s\<rparr>\<rparr>)"

definition apply_observed_model :: "string \<Rightarrow> acp_session \<Rightarrow> acp_session" where
  "apply_observed_model m s =
     acp_emit_if (observed_model s \<noteq> Some m) (ObservedModelSynced m)
       (s\<lparr>observed_model := Some m,
          adv_models := Some \<lparr>current_model_id = m, available_models = model_catalog s\<rparr>\<rparr>)"

definition set_select_current :: "string \<Rightarrow> config_option \<Rightarrow> config_option" where
  "set_select_current v opt =
     (case co_kind opt of
        KindSelect sel \<Rightarrow> opt\<lparr>co_kind := KindSelect (sel\<lparr>cs_current_value := v\<rparr>)\<rparr>
      | KindOther _ \<Rightarrow> opt)"

fun update_first_option :: "string list \<Rightarrow> string \<Rightarrow> config_option list \<Rightarrow> config_option list" where
  "update_first_option ids v [] = []"
| "update_first_option ids v (opt # os) =
     (if co_id opt \<in> set ids then set_select_current v opt # os
      else opt # update_first_option ids v os)"

definition update_advertised_config_option_value :: "string list \<Rightarrow> string \<Rightarrow> acp_session \<Rightarrow> acp_session" where
  "update_advertised_config_option_value ids v s =
     s\<lparr>adv_config_options := map_option (update_first_option ids v) (adv_config_options s)\<rparr>"

definition confirm_mode :: "string \<Rightarrow> acp_session \<Rightarrow> acp_session" where
  "confirm_mode m s =
     update_advertised_config_option_value [''mode'', ''modes''] m
       (apply_observed_mode m (s\<lparr>desired_mode := Some m\<rparr>))"

definition confirm_model :: "string \<Rightarrow> acp_session \<Rightarrow> acp_session" where
  "confirm_model m s =
     update_advertised_config_option_value [''model'', ''models''] m
       (apply_observed_model m (s\<lparr>desired_model := Some m\<rparr>))"

definition apply_observed_config :: "string \<Rightarrow> string \<Rightarrow> acp_session \<Rightarrow> acp_session" where
  "apply_observed_config k v s =
     (let changed = (map_of (observed_config s) k \<noteq> Some v);
          selections = hm_insert k v (observed_config s)
      in acp_emit_if changed (ObservedConfigSynced selections) (s\<lparr>observed_config := selections\<rparr>))"

definition preserve_existing_mode_catalog :: "acp_session \<Rightarrow> session_mode_state \<Rightarrow> session_mode_state" where
  "preserve_existing_mode_catalog s ms =
     (if available_modes ms = [] \<and> mode_catalog s \<noteq> []
      then ms\<lparr>available_modes := mode_catalog s\<rparr> else ms)"

definition preserve_existing_model_catalog :: "acp_session \<Rightarrow> legacy_model_state \<Rightarrow> legacy_model_state" where
  "preserve_existing_model_catalog s ms =
     (if available_models ms = [] \<and> model_catalog s \<noteq> []
      then ms\<lparr>available_models := model_catalog s\<rparr> else ms)"

definition apply_advertised_modes :: "session_mode_state \<Rightarrow> acp_session \<Rightarrow> acp_session" where
  "apply_advertised_modes modes s =
     (let ms = preserve_existing_mode_catalog s modes; m = current_mode_id ms
      in acp_emit_if (observed_mode s \<noteq> Some m) (ObservedModeSynced m)
           (s\<lparr>observed_mode := Some m, adv_modes := Some ms\<rparr>))"

definition apply_advertised_models :: "legacy_model_state \<Rightarrow> acp_session \<Rightarrow> acp_session" where
  "apply_advertised_models models s =
     (let ms = preserve_existing_model_catalog s models; m = current_model_id ms
      in acp_emit_if (observed_model s \<noteq> Some m) (ObservedModelSynced m)
           (s\<lparr>observed_model := Some m, adv_models := Some ms\<rparr>))"

definition preserve_desired_model :: "acp_session \<Rightarrow> legacy_model_state \<Rightarrow> legacy_model_state" where
  "preserve_desired_model s ms =
     (case desired_model s of
        None \<Rightarrow> ms
      | Some m \<Rightarrow>
          if current_model_id ms \<noteq> m \<and> list_ex (\<lambda>e. model_id e = m) (available_models ms)
          then \<lparr>current_model_id = m, available_models = available_models ms\<rparr>
          else ms)"

fun extract_config_current_value :: "config_kind \<Rightarrow> string option" where
  "extract_config_current_value (KindSelect s) = Some (cs_current_value s)"
| "extract_config_current_value (KindOther _) = None"

definition observe_option ::
  "bool \<times> (string, string) hash_map \<Rightarrow> config_option \<Rightarrow> bool \<times> (string, string) hash_map" where
  "observe_option acc opt =
     (case extract_config_current_value (co_kind opt) of
        None \<Rightarrow> acc
      | Some v \<Rightarrow>
          (fst acc \<or> map_of (snd acc) (co_id opt) \<noteq> Some v, hm_insert (co_id opt) v (snd acc)))"

definition apply_advertised_config_options :: "config_option list \<Rightarrow> acp_session \<Rightarrow> acp_session" where
  "apply_advertised_config_options incoming s =
     (let os = merge_config_options (adv_config_options s) incoming;
          s1 = (case derive_modes_from_config_options os of
                  Some ms \<Rightarrow> apply_advertised_modes ms s | None \<Rightarrow> s);
          s2 = (case derive_models_from_config_options os of
                  Some ms \<Rightarrow> apply_advertised_models (preserve_desired_model s1 ms) s1 | None \<Rightarrow> s1);
          (changed, selections) = foldl observe_option (False, observed_config s2) os
      in acp_emit_if changed (ObservedConfigSynced selections)
           (s2\<lparr>observed_config := selections, adv_config_options := Some os\<rparr>))"

definition apply_advertised_capabilities :: "agent_capabilities \<Rightarrow> acp_session \<Rightarrow> acp_session" where
  "apply_advertised_capabilities caps s = s\<lparr>adv_capabilities := Some caps\<rparr>"

definition apply_advertised_auth_methods :: "string list \<Rightarrow> acp_session \<Rightarrow> acp_session" where
  "apply_advertised_auth_methods ms s = s\<lparr>adv_auth_methods := Some ms\<rparr>"

definition apply_advertised_commands :: "string list \<Rightarrow> acp_session \<Rightarrow> acp_session" where
  "apply_advertised_commands cs s = s\<lparr>adv_commands := Some cs\<rparr>"

definition apply_context_usage :: "usage_update \<Rightarrow> acp_session \<Rightarrow> acp_session" where
  "apply_context_usage u s =
     acp_emit_if (adv_context_usage s \<noteq> Some u) (ObservedContextUsageChanged u)
       (s\<lparr>adv_context_usage := Some u\<rparr>)"


section \<open>Preloading\<close>

record persisted_session_state =
  ps_mode :: "string option"
  ps_model :: "string option"
  ps_config :: "(string, string) hash_map"
  ps_usage :: "usage_update option"

definition preload_persisted :: "persisted_session_state \<Rightarrow> acp_session \<Rightarrow> acp_session" where
  "preload_persisted p s =
     (let s1 = (case ps_mode p of
            Some m \<Rightarrow> s\<lparr>adv_modes := Some \<lparr>current_mode_id = m, available_modes = mode_catalog s\<rparr>,
                       observed_mode := Some m\<rparr>
          | None \<Rightarrow> s);
          s2 = (case ps_model p of
            Some m \<Rightarrow> s1\<lparr>adv_models := Some \<lparr>current_model_id = m, available_models = model_catalog s1\<rparr>,
                        observed_model := Some m\<rparr>
          | None \<Rightarrow> s1);
          s3 = (if ps_config p \<noteq> [] then s2\<lparr>observed_config := ps_config p\<rparr> else s2)
      in case ps_usage p of Some u \<Rightarrow> s3\<lparr>adv_context_usage := Some u\<rparr> | None \<Rightarrow> s3)"

definition mode_catalog_with_session_current :: "acp_session \<Rightarrow> session_mode_state \<Rightarrow> session_mode_state" where
  "mode_catalog_with_session_current s ms =
     (case (case observed_mode s of Some m \<Rightarrow> Some m | None \<Rightarrow> desired_mode s) of
        Some m \<Rightarrow>
          if list_ex (\<lambda>a. sm_id a = m) (available_modes ms) then ms\<lparr>current_mode_id := m\<rparr> else ms
      | None \<Rightarrow> ms)"

definition model_catalog_with_session_current :: "acp_session \<Rightarrow> legacy_model_state \<Rightarrow> legacy_model_state" where
  "model_catalog_with_session_current s ms =
     (case (case observed_model s of Some m \<Rightarrow> Some m | None \<Rightarrow> desired_model s) of
        Some m \<Rightarrow>
          if list_ex (\<lambda>a. model_id a = m) (available_models ms) then ms\<lparr>current_model_id := m\<rparr> else ms
      | None \<Rightarrow> ms)"

record catalog_preload_summary =
  mode_preloaded :: bool
  model_preloaded :: bool
  mode_catalog_count :: nat
  model_catalog_count :: nat

definition preload_advertised_catalogs ::
  "session_mode_state option \<Rightarrow> legacy_model_state option \<Rightarrow> acp_session \<Rightarrow>
     catalog_preload_summary \<times> acp_session" where
  "preload_advertised_catalogs modes models s =
     (let (b1, n1, s1) = (case modes of
            Some ms \<Rightarrow>
              if available_modes ms \<noteq> [] \<and> mode_catalog s = []
              then (True, length (available_modes ms),
                    s\<lparr>adv_modes := Some (mode_catalog_with_session_current s ms)\<rparr>)
              else (False, 0, s)
          | None \<Rightarrow> (False, 0, s));
          (b2, n2, s2) = (case models of
            Some ms \<Rightarrow>
              if available_models ms \<noteq> [] \<and> model_catalog s1 = []
              then (True, length (available_models ms),
                    s1\<lparr>adv_models := Some (model_catalog_with_session_current s1 ms)\<rparr>)
              else (False, 0, s1)
          | None \<Rightarrow> (False, 0, s1))
      in (\<lparr>mode_preloaded = b1, model_preloaded = b2, mode_catalog_count = n1, model_catalog_count = n2\<rparr>, s2))"


section \<open>The plan, and the pending records\<close>

definition plan_reconcile :: "acp_session \<Rightarrow> reconcile_action list" where
  "plan_reconcile s =
     map SetMode (filter (\<lambda>m. observed_mode s \<noteq> Some m) (option_list (desired_mode s))) @
     map SetModel (filter (\<lambda>m. observed_model s \<noteq> Some m) (option_list (desired_model s))) @
     map (\<lambda>(k, v). SetConfigOption k v)
       (filter (\<lambda>(k, v). map_of (observed_config s) k \<noteq> Some v) (desired_config s))"

definition acp_drain_events :: "acp_session \<Rightarrow> acp_session_event list \<times> acp_session" where
  "acp_drain_events s = (pending_events s, s\<lparr>pending_events := []\<rparr>)"

definition set_pending_model_notice :: "string \<Rightarrow> acp_session \<Rightarrow> acp_session" where
  "set_pending_model_notice m s = s\<lparr>pending_model_notice := Some m\<rparr>"

definition take_pending_model_notice :: "acp_session \<Rightarrow> string option \<times> acp_session" where
  "take_pending_model_notice s = (pending_model_notice s, s\<lparr>pending_model_notice := None\<rparr>)"

end
