(* ===== verification/Acp_Reconcile.thy ===== *)
theory Acp_Reconcile
  imports Acp_Session
begin

text \<open>
  The manager of an ACP agent aligns the agent with the user's intent
  (\<open>agent_reconcile.rs\<close>) and mirrors what the agent reports (\<open>agent_event_tracker.rs\<close>). The
  agent is a parameter: a function for each request, from its state to the answer, the
  notifications that the tracker handles before the answer is processed, and its next state.
\<close>

section \<open>The agent and the manager\<close>

text \<open>JSON payloads of errors are opaque texts.\<close>

datatype acp_error =
    SpawnFailed string
  | StartupCrash "int option" "string option" string
  | Disconnected "int option" "string option" string
  | AuthRequired
  | ProtocolParseError string
  | InvalidRequest string
  | SessionNotFound string
  | ResourceNotFound "string option" string
  | MethodNotFound string
  | InvalidParams string
  | AgentInternal string int "string option"
  | OtherProtocolError int string "string option"
  | NotConnected
  | InitTimeout nat
  | RequestTimeout string nat

fun is_acp_session_not_found :: "acp_error \<Rightarrow> bool" where
  "is_acp_session_not_found (SessionNotFound _) = True"
| "is_acp_session_not_found _ = False"

fun is_missing_resumed_session :: "acp_error \<Rightarrow> string \<Rightarrow> bool" where
  "is_missing_resumed_session (SessionNotFound _) sid = True"
| "is_missing_resumed_session (ResourceNotFound r _) sid = (r = Some sid)"
| "is_missing_resumed_session _ sid = False"

text \<open>Stream events that change the session; the others and those that cannot be decoded do not.\<close>

datatype acp_notification =
    NotifyModes session_mode_state
  | NotifyCurrentMode string
  | NotifyModels legacy_model_state
  | NotifyConfigOptions "config_option list"
  | NotifyUsage usage_update
  | NotifyCommands "string list"
  | NotifyOther

record session_response =
  resp_session_id :: string
  resp_models :: "legacy_model_state option"
  resp_modes :: "session_mode_state option"
  resp_config_options :: "config_option list option"

type_synonym ('c, 'a) acp_reply = "(acp_error + 'a) \<times> acp_notification list \<times> 'c"

text \<open>\<open>session/new\<close> may name a session to resume.\<close>

record 'c acp_agent =
  is_connected :: "'c \<Rightarrow> bool"
  call_set_mode :: "string \<Rightarrow> string \<Rightarrow> 'c \<Rightarrow> ('c, unit) acp_reply"
  call_set_model :: "string \<Rightarrow> string \<Rightarrow> 'c \<Rightarrow> ('c, unit) acp_reply"
  call_set_config_option :: "string \<Rightarrow> string \<Rightarrow> string \<Rightarrow> 'c \<Rightarrow> ('c, config_option list) acp_reply"
  call_new_session :: "string option \<Rightarrow> 'c \<Rightarrow> ('c, session_response) acp_reply"
  call_load_session :: "string \<Rightarrow> 'c \<Rightarrow> ('c, session_response) acp_reply"
  call_fork_session :: "string \<Rightarrow> 'c \<Rightarrow> ('c, session_response) acp_reply"

text \<open>\<open>mgr_sent\<close> is what was sent to the consumer of the domain events.\<close>

record 'c acp_manager =
  mgr_session :: acp_session
  mgr_sent :: "acp_session_event list"
  mgr_agent :: 'c

abbreviation on_session :: "(acp_session \<Rightarrow> acp_session) \<Rightarrow> 'c acp_manager \<Rightarrow> 'c acp_manager" where
  "on_session f m \<equiv> m\<lparr>mgr_session := f (mgr_session m)\<rparr>"

definition commit_session_changes :: "'c acp_manager \<Rightarrow> 'c acp_manager" where
  "commit_session_changes m =
     (let (events, s) = acp_drain_events (mgr_session m)
      in m\<lparr>mgr_session := s, mgr_sent := mgr_sent m @ events\<rparr>)"

definition apply_notification :: "acp_notification \<Rightarrow> 'c acp_manager \<Rightarrow> 'c acp_manager" where
  "apply_notification n m =
     (case n of
        NotifyModes ms \<Rightarrow> commit_session_changes (on_session (apply_advertised_modes ms) m)
      | NotifyCurrentMode i \<Rightarrow> commit_session_changes (on_session (apply_observed_mode i) m)
      | NotifyModels ms \<Rightarrow> commit_session_changes (on_session (apply_advertised_models ms) m)
      | NotifyConfigOptions os \<Rightarrow> commit_session_changes (on_session (apply_advertised_config_options os) m)
      | NotifyUsage u \<Rightarrow> commit_session_changes (on_session (apply_context_usage u) m)
      | NotifyCommands cs \<Rightarrow> commit_session_changes (on_session (apply_advertised_commands cs) m)
      | NotifyOther \<Rightarrow> m)"

definition call_agent ::
  "('c \<Rightarrow> ('c, 'a) acp_reply) \<Rightarrow> 'c acp_manager \<Rightarrow> (acp_error + 'a) \<times> 'c acp_manager" where
  "call_agent f m =
     (let (answer, notifications, c) = f (mgr_agent m)
      in (answer, fold apply_notification notifications (m\<lparr>mgr_agent := c\<rparr>)))"


section \<open>Reconciling\<close>

text \<open>Pending preferences are resolved and unavailable choices dropped before planning.\<close>

definition refresh_desired :: "agent_metadata \<Rightarrow> acp_session \<Rightarrow> acp_session" where
  "refresh_desired md s =
     (let (_, s1) = resolve_pending_startup_config_seeds (normalize_for_available_values md) s;
          (_, s2) = clear_invalid_desired_mode s1;
          (_, s3) = clear_invalid_desired_model s2
      in s3)"

definition resolve_mode_for :: "agent_metadata \<Rightarrow> acp_session \<Rightarrow> string \<Rightarrow> string" where
  "resolve_mode_for md s mode =
     normalize_for_available_values md mode (selectable_values (session_snapshot s) ''mode'')"

definition reconcile_set_mode ::
  "'c acp_agent \<Rightarrow> agent_metadata \<Rightarrow> string \<Rightarrow> string \<Rightarrow> 'c acp_manager \<Rightarrow>
     (acp_error + reconcile_action list) \<times> 'c acp_manager" where
  "reconcile_set_mode ag md sid mode m =
     (let normalized = resolve_mode_for md (mgr_session m) mode
      in if normalized = [] then (Inr [], m)
         else (case call_agent (call_set_mode ag sid normalized) m of
             (Inl e, m1) \<Rightarrow> (if is_acp_session_not_found e then Inl e else Inr [], m1)
           | (Inr _, m1) \<Rightarrow> (Inr [], commit_session_changes (on_session (apply_observed_mode normalized) m1))))"

definition reconcile_set_model ::
  "'c acp_agent \<Rightarrow> agent_metadata \<Rightarrow> string \<Rightarrow> string \<Rightarrow> 'c acp_manager \<Rightarrow>
     (acp_error + reconcile_action list) \<times> 'c acp_manager" where
  "reconcile_set_model ag md sid model m =
     (case call_agent (call_set_model ag sid model) m of
        (Inl e, m1) \<Rightarrow> (if is_acp_session_not_found e then Inl e else Inr [], m1)
      | (Inr _, m1) \<Rightarrow>
          (Inr [], commit_session_changes (on_session (\<lambda>s.
             (if self_identity_sticky md then set_pending_model_notice model else (\<lambda>s. s))
               (apply_observed_model model s)) m1)))"

definition resolve_config_value :: "agent_metadata \<Rightarrow> acp_session \<Rightarrow> string \<Rightarrow> string \<Rightarrow> string" where
  "resolve_config_value md s k v = (if k = ''mode'' then resolve_mode_for md s v else str_trim v)"

definition reconcile_set_config_option ::
  "'c acp_agent \<Rightarrow> agent_metadata \<Rightarrow> string \<Rightarrow> string \<Rightarrow> string \<Rightarrow> 'c acp_manager \<Rightarrow>
     (acp_error + reconcile_action list) \<times> 'c acp_manager" where
  "reconcile_set_config_option ag md sid k v m =
     (let resolved = resolve_config_value md (mgr_session m) k v;
          m1 = (if k = ''mode'' \<and> resolved \<noteq> v then on_session (set_desired_config k resolved) m else m)
      in case call_agent (call_set_config_option ag sid k resolved) m1 of
           (Inl e, m2) \<Rightarrow> (if is_acp_session_not_found e then Inl e else Inr [], m2)
         | (Inr os, m2) \<Rightarrow>
             let m3 = on_session (\<lambda>s. refresh_desired md (apply_advertised_config_options os s)) m2;
                 followups = plan_reconcile (mgr_session m3);
                 m4 = commit_session_changes m3
             in (Inr (filter (\<lambda>a. a \<noteq> SetConfigOption k resolved) followups),
                 commit_session_changes (on_session (apply_observed_config k v) m4)))"

fun reconcile_step ::
  "'c acp_agent \<Rightarrow> agent_metadata \<Rightarrow> string \<Rightarrow> reconcile_action \<Rightarrow> 'c acp_manager \<Rightarrow>
     (acp_error + reconcile_action list) \<times> 'c acp_manager" where
  "reconcile_step ag md sid (SetMode mode) m = reconcile_set_mode ag md sid mode m"
| "reconcile_step ag md sid (SetModel model) m = reconcile_set_model ag md sid model m"
| "reconcile_step ag md sid (SetConfigOption k v) m = reconcile_set_config_option ag md sid k v m"

text \<open>\<open>None\<close>: the loop does not end.\<close>

partial_function (option) reconcile_loop ::
  "'c acp_agent \<Rightarrow> agent_metadata \<Rightarrow> string \<Rightarrow> reconcile_action list \<Rightarrow> 'c acp_manager \<Rightarrow>
     ((acp_error + unit) \<times> 'c acp_manager) option" where
  "reconcile_loop ag md sid queue m =
     (case queue of
        [] \<Rightarrow> Some (Inr (), m)
      | a # rest \<Rightarrow>
          (case reconcile_step ag md sid a m of
             (Inl e, m1) \<Rightarrow> Some (Inl e, m1)
           | (Inr followups, m1) \<Rightarrow> reconcile_loop ag md sid (rest @ followups) m1))"

definition reconcile_session ::
  "'c acp_agent \<Rightarrow> agent_metadata \<Rightarrow> string \<Rightarrow> 'c acp_manager \<Rightarrow>
     ((acp_error + unit) \<times> 'c acp_manager) option" where
  "reconcile_session ag md sid m =
     (let m1 = on_session (refresh_desired md) m
      in reconcile_loop ag md sid (plan_reconcile (mgr_session m1)) m1)"

end
