(* ===== verification/Acp_Manager.thy ===== *)
theory Acp_Manager
  imports Acp_Reconcile
begin

text \<open>
  The operations of the manager of an ACP agent (\<open>agent.rs\<close>, \<open>agent_session_flow.rs\<close>): building
  it from the conversation's parameters and the persisted snapshot, opening a session (new,
  resumed or forked), and the user's changes of mode, model and config options. Broadcasts to
  the UI, logs and the sandbox file of codex are left out. An operation that reconciles has
  the result \<open>None\<close> when it does not end.
\<close>

datatype agent_error =
    AgentBadRequest string
  | AgentUnauthorized string
  | AgentForbidden string
  | AgentNotFound string
  | AgentConflict string
  | AgentBadGateway string
  | AgentTimeout string
  | AgentRateLimited
  | AgentConversationArchived string
  | AgentWorkspaceUnavailable string
  | AgentInternalError string
  | AgentAcp acp_error

section \<open>Building the manager\<close>

text \<open>The catalogs of the metadata are given decoded; \<open>par_fork\<close> is the parent's session id.\<close>

record acp_params =
  par_metadata :: agent_metadata
  par_snapshot :: "persisted_session_state option"
  par_session_mode :: "string option"
  par_current_model_id :: "string option"
  par_thought_level :: "string option"
  par_fork :: "string option"
  par_handshake_modes :: "session_mode_state option"
  par_handshake_models :: "legacy_model_state option"

definition initial_mode_from_params :: "acp_params \<Rightarrow> string option" where
  "initial_mode_from_params par =
     (let persisted = (case par_snapshot par of Some p \<Rightarrow> ps_mode p | None \<Rightarrow> None);
          chosen = (case persisted of Some m \<Rightarrow> Some m | None \<Rightarrow> par_session_mode par)
      in case map_option (normalize_requested_mode (par_metadata par)) chosen of
           Some m \<Rightarrow> if m = [] then None else Some m
         | None \<Rightarrow> None)"

definition initial_model_from_params :: "acp_params \<Rightarrow> string option" where
  "initial_model_from_params par =
     (let be = backend (par_metadata par);
          persisted = (case par_snapshot par of Some p \<Rightarrow> normalize_persisted_model_id be (ps_model p) | None \<Rightarrow> None)
      in case persisted of
           Some m \<Rightarrow> Some m
         | None \<Rightarrow>
             (case par_current_model_id par of
                Some m \<Rightarrow> if m = [] then None else Some (normalize_requested_model_id be m)
              | None \<Rightarrow> None))"

definition initial_config_from_params :: "acp_params \<Rightarrow> (string, string) hash_map" where
  "initial_config_from_params par = (case par_snapshot par of Some p \<Rightarrow> ps_config p | None \<Rightarrow> [])"

fun has_persisted_config_for_category :: "(string, string) hash_map \<Rightarrow> config_category \<Rightarrow> bool" where
  "has_persisted_config_for_category cfg CatMode = (''mode'' \<in> set (hm_keys cfg))"
| "has_persisted_config_for_category cfg CatModel = (''model'' \<in> set (hm_keys cfg))"
| "has_persisted_config_for_category cfg CatThoughtLevel =
     list_ex (\<lambda>k. k \<in> {''thought_level'', ''reasoning_effort'', ''effort'', ''thinking_budget'', ''thinking''})
       (hm_keys cfg)"
| "has_persisted_config_for_category cfg (CatOther _) = False"

definition seed_preference ::
  "(string, string) hash_map \<Rightarrow> config_category \<Rightarrow> string option \<Rightarrow> acp_session \<Rightarrow> acp_session" where
  "seed_preference cfg cat v s =
     (case map_option str_trim v of
        Some t \<Rightarrow>
          if t \<noteq> [] \<and> \<not> has_persisted_config_for_category cfg cat
          then seed_pending_startup_config cat t s else s
      | None \<Rightarrow> s)"

definition seed_startup_config_preferences ::
  "acp_params \<Rightarrow> (string, string) hash_map \<Rightarrow> acp_session \<Rightarrow> acp_session" where
  "seed_startup_config_preferences par cfg s =
     seed_preference cfg CatThoughtLevel (par_thought_level par)
       (seed_preference cfg CatModel (par_current_model_id par)
         (seed_preference cfg CatMode (par_session_mode par) s))"

definition preload_metadata_catalogs :: "acp_params \<Rightarrow> acp_session \<Rightarrow> acp_session" where
  "preload_metadata_catalogs par s =
     snd (preload_advertised_catalogs (par_handshake_modes par) (par_handshake_models par) s)"

definition manager_new :: "acp_params \<Rightarrow> 'c \<Rightarrow> 'c acp_manager" where
  "manager_new par c =
     (let cfg = initial_config_from_params par;
          s = acp_session_new (initial_mode_from_params par) (initial_model_from_params par) cfg
      in \<lparr>mgr_session = seed_startup_config_preferences par cfg (preload_metadata_catalogs par s),
          mgr_sent = [], mgr_agent = c\<rparr>)"

definition normalized_snapshot :: "acp_params \<Rightarrow> persisted_session_state \<Rightarrow> persisted_session_state" where
  "normalized_snapshot par p =
     p\<lparr>ps_model := normalize_persisted_model_id (backend (par_metadata par)) (ps_model p)\<rparr>"

definition manager_init ::
  "acp_params \<Rightarrow> agent_capabilities option \<Rightarrow> string list option \<Rightarrow> 'c acp_manager \<Rightarrow> 'c acp_manager" where
  "manager_init par caps auth m =
     (let m1 = (case par_snapshot par of
            Some p \<Rightarrow> on_session (\<lambda>s. snd (acp_drain_events (preload_persisted (normalized_snapshot par p) s))) m
          | None \<Rightarrow> m);
          m2 = (case caps of Some c \<Rightarrow> on_session (apply_advertised_capabilities c) m1 | None \<Rightarrow> m1)
      in case auth of Some a \<Rightarrow> on_session (apply_advertised_auth_methods a) m2 | None \<Rightarrow> m2)"

text \<open>The persisted id; its event is dropped, as the row already has it.\<close>

definition restore_session_id :: "string \<Rightarrow> 'c acp_manager \<Rightarrow> 'c acp_manager" where
  "restore_session_id sid m = on_session (\<lambda>s. snd (acp_drain_events (set_session_id sid s))) m"


section \<open>Opening a session\<close>

definition absorb_catalogs :: "session_response \<Rightarrow> acp_session \<Rightarrow> acp_session" where
  "absorb_catalogs r s =
     (let s1 = (case resp_models r of Some ms \<Rightarrow> apply_advertised_models ms s | None \<Rightarrow> s);
          s2 = (case resp_modes r of Some ms \<Rightarrow> apply_advertised_modes ms s1 | None \<Rightarrow> s1)
      in case resp_config_options r of
           Some os \<Rightarrow> apply_advertised_config_options os s2 | None \<Rightarrow> s2)"

definition open_session_new ::
  "'c acp_agent \<Rightarrow> acp_params \<Rightarrow> 'c acp_manager \<Rightarrow> ((agent_error + string) \<times> 'c acp_manager) option" where
  "open_session_new ag par m =
     (case call_agent (call_new_session ag None) m of
        (Inl e, m1) \<Rightarrow> Some (Inl (AgentAcp e), m1)
      | (Inr r, m1) \<Rightarrow>
          let sid = resp_session_id r;
              m2 = commit_session_changes
                (on_session (\<lambda>s. mark_pending_session_new_prelude (set_session_id sid (absorb_catalogs r s))) m1)
          in (case reconcile_session ag (par_metadata par) sid m2 of
                None \<Rightarrow> None
              | Some (Inl e, m3) \<Rightarrow> Some (Inl (AgentAcp e), m3)
              | Some (Inr _, m3) \<Rightarrow> Some (Inr sid, m3)))"

definition rebuild_after_session_not_found ::
  "'c acp_agent \<Rightarrow> acp_params \<Rightarrow> 'c acp_manager \<Rightarrow> ((agent_error + string) \<times> 'c acp_manager) option" where
  "rebuild_after_session_not_found ag par m =
     open_session_new ag par (commit_session_changes (on_session clear_session_id m))"

text \<open>The end of every way to resume or fork: reconcile, and rebuild when the session is gone.\<close>

definition reconcile_or_rebuild ::
  "'c acp_agent \<Rightarrow> acp_params \<Rightarrow> string \<Rightarrow> 'c acp_manager \<Rightarrow> ((agent_error + string) \<times> 'c acp_manager) option" where
  "reconcile_or_rebuild ag par sid m =
     (case reconcile_session ag (par_metadata par) sid m of
        None \<Rightarrow> None
      | Some (Inr _, m1) \<Rightarrow> Some (Inr sid, m1)
      | Some (Inl e, m1) \<Rightarrow>
          if is_acp_session_not_found e then rebuild_after_session_not_found ag par m1
          else Some (Inl (AgentAcp e), m1))"

definition resume_via_meta ::
  "'c acp_agent \<Rightarrow> acp_params \<Rightarrow> string \<Rightarrow> 'c acp_manager \<Rightarrow> ((agent_error + string) \<times> 'c acp_manager) option" where
  "resume_via_meta ag par sid m =
     (case call_agent (call_new_session ag (Some sid)) m of
        (Inl e, m1) \<Rightarrow>
          if is_missing_resumed_session e sid then rebuild_after_session_not_found ag par m1
          else Some (Inl (AgentAcp e), m1)
      | (Inr r, m1) \<Rightarrow>
          reconcile_or_rebuild ag par (resp_session_id r)
            (commit_session_changes
              (on_session (\<lambda>s. set_session_id (resp_session_id r) (absorb_catalogs r s)) m1)))"

text \<open>A loaded session is reported with the mode the aggregate already had.\<close>

definition keep_current_mode :: "string option \<Rightarrow> session_response \<Rightarrow> session_response" where
  "keep_current_mode preloaded r =
     (case preloaded of
        Some i \<Rightarrow> r\<lparr>resp_modes := map_option (\<lambda>ms. ms\<lparr>current_mode_id := i\<rparr>) (resp_modes r)\<rparr>
      | None \<Rightarrow> r)"

definition resume_via_load ::
  "'c acp_agent \<Rightarrow> acp_params \<Rightarrow> string \<Rightarrow> 'c acp_manager \<Rightarrow> ((agent_error + string) \<times> 'c acp_manager) option" where
  "resume_via_load ag par sid m =
     (let preloaded = map_option current_mode_id (adv_modes (mgr_session m))
      in case call_agent (call_load_session ag sid) m of
           (Inl e, m1) \<Rightarrow>
             if is_acp_session_not_found e then rebuild_after_session_not_found ag par m1
             else Some (Inl (AgentAcp e), m1)
         | (Inr r, m1) \<Rightarrow>
             reconcile_or_rebuild ag par sid
               (commit_session_changes
                 (on_session (\<lambda>s. set_session_id sid (absorb_catalogs (keep_current_mode preloaded r) s)) m1)))"

definition open_session_resume ::
  "'c acp_agent \<Rightarrow> acp_params \<Rightarrow> string \<Rightarrow> 'c acp_manager \<Rightarrow> ((agent_error + string) \<times> 'c acp_manager) option" where
  "open_session_resume ag par sid m =
     (if session_load_via_meta_field (par_metadata par) then resume_via_meta ag par sid m
      else if (case adv_capabilities (mgr_session m) of Some c \<Rightarrow> load_session c | None \<Rightarrow> False)
      then resume_via_load ag par sid m
      else reconcile_or_rebuild ag par sid (commit_session_changes (on_session (set_session_id sid) m)))"

definition open_session_fork ::
  "'c acp_agent \<Rightarrow> acp_params \<Rightarrow> string \<Rightarrow> 'c acp_manager \<Rightarrow> ((agent_error + string) \<times> 'c acp_manager) option" where
  "open_session_fork ag par parent m =
     (if \<not> (case adv_capabilities (mgr_session m) of Some c \<Rightarrow> fork_supported c | None \<Rightarrow> False)
      then Some (Inl (AgentConflict ''session/fork is not advertised''), m)
      else (case call_agent (call_fork_session ag parent) m of
          (Inl e, m1) \<Rightarrow>
            Some (Inl (if is_acp_session_not_found e then AgentNotFound ''session/fork: the parent session is gone''
                       else AgentAcp e), m1)
        | (Inr r, m1) \<Rightarrow>
            reconcile_or_rebuild ag par (resp_session_id r)
              (commit_session_changes
                (on_session (\<lambda>s. set_session_id (resp_session_id r)
                   (absorb_catalogs (r\<lparr>resp_models := None\<rparr>) s)) m1))))"

definition mark_opened_when_connected ::
  "'c acp_agent \<Rightarrow> string \<Rightarrow> 'c acp_manager \<Rightarrow> (agent_error + string) \<times> 'c acp_manager" where
  "mark_opened_when_connected ag sid m =
     (if is_connected ag (mgr_agent m)
      then (Inr sid, commit_session_changes (on_session mark_opened m))
      else (Inl (AgentAcp NotConnected), m))"

definition ensure_session_opened ::
  "'c acp_agent \<Rightarrow> acp_params \<Rightarrow> 'c acp_manager \<Rightarrow> ((agent_error + string) \<times> 'c acp_manager) option" where
  "ensure_session_opened ag par m =
     (if \<not> is_connected ag (mgr_agent m) then Some (Inl (AgentAcp NotConnected), m)
      else
        let opening = (case session_id (mgr_session m) of
            None \<Rightarrow> (case par_fork par of
                Some parent \<Rightarrow> open_session_fork ag par parent m
              | None \<Rightarrow> open_session_new ag par m)
          | Some sid \<Rightarrow>
              if opened (mgr_session m) then Some (Inr sid, m) else open_session_resume ag par sid m)
        in case opening of
             None \<Rightarrow> None
           | Some (Inl e, m1) \<Rightarrow> Some (Inl e, m1)
           | Some (Inr sid, m1) \<Rightarrow> Some (mark_opened_when_connected ag sid m1))"


section \<open>The user's changes\<close>

definition agent_mode :: "agent_metadata \<Rightarrow> acp_session \<Rightarrow> string" where
  "agent_mode md s =
     (case adv_modes s of
        Some ms \<Rightarrow> current_mode_id ms
      | None \<Rightarrow>
          (case map_option (normalize_requested_mode md) (desired_mode s) of
             Some m \<Rightarrow> if m = [] then normalize_requested_mode md ''default'' else m
           | None \<Rightarrow> normalize_requested_mode md ''default''))"

definition set_mode ::
  "'c acp_agent \<Rightarrow> agent_metadata \<Rightarrow> string \<Rightarrow> 'c acp_manager \<Rightarrow> (agent_error + unit) \<times> 'c acp_manager" where
  "set_mode ag md mode m =
     (let normalized = normalize_requested_mode md mode
      in if normalized = [] then (Inl (AgentBadRequest ''mode must not be empty''), m)
         else if \<not> can_select_mode (mgr_session m) normalized
         then (Inl (AgentBadRequest ''Mode is not available for this ACP session''), m)
         else (case session_id (mgr_session m) of
             None \<Rightarrow> (Inl (AgentBadRequest ''No active session''), m)
           | Some sid \<Rightarrow>
               (case call_agent (call_set_mode ag sid normalized) m of
                  (Inl e, m1) \<Rightarrow> (Inl (AgentAcp e), m1)
                | (Inr _, m1) \<Rightarrow>
                    if session_id (mgr_session m1) \<noteq> Some sid
                    then (Inl (AgentConflict ''Active ACP session changed while applying mode''), m1)
                    else (Inr (), commit_session_changes (on_session (confirm_mode normalized) m1)))))"

definition set_model_confirmed ::
  "'c acp_agent \<Rightarrow> agent_metadata \<Rightarrow> string \<Rightarrow> 'c acp_manager \<Rightarrow>
     (agent_error + legacy_model_state) \<times> 'c acp_manager" where
  "set_model_confirmed ag md model m =
     (if \<not> can_select_model (mgr_session m) model
      then (Inl (AgentBadRequest ''Model is not available for this ACP session''), m)
      else (case session_id (mgr_session m) of
          None \<Rightarrow> (Inl (AgentBadRequest ''No active session''), m)
        | Some sid \<Rightarrow>
            (case call_agent (call_set_model ag sid model) m of
               (Inl e, m1) \<Rightarrow> (Inl (AgentAcp e), m1)
             | (Inr _, m1) \<Rightarrow>
                 if session_id (mgr_session m1) \<noteq> Some sid
                 then (Inl (AgentConflict ''Active ACP session changed while applying model''), m1)
                 else
                   let s1 = confirm_model model (mgr_session m1);
                       s2 = (if self_identity_sticky md then set_pending_model_notice model s1 else s1);
                       confirmed = (case adv_models s2 of
                           Some ms \<Rightarrow> ms
                         | None \<Rightarrow> \<lparr>current_model_id = model, available_models = []\<rparr>)
                   in (Inr confirmed, commit_session_changes (m1\<lparr>mgr_session := s2\<rparr>)))))"

definition normalize_config_option_request_value ::
  "agent_metadata \<Rightarrow> config_snapshot \<Rightarrow> string \<Rightarrow> string \<Rightarrow> string" where
  "normalize_config_option_request_value md snap i v =
     (let trimmed = str_trim v
      in if i = ''mode'' then normalize_for_available_values md trimmed (selectable_values snap ''mode'')
         else trimmed)"

text \<open>
  The session is polled until it shows the value; \<open>polls\<close> holds the notifications handled
  before each further look, and its end is the timeout.
\<close>

fun wait_for_observed_config_option ::
  "string \<Rightarrow> string \<Rightarrow> acp_notification list list \<Rightarrow> 'c acp_manager \<Rightarrow>
     (agent_error + config_snapshot) \<times> 'c acp_manager" where
  "wait_for_observed_config_option i requested [] m =
     (let snap = session_snapshot (mgr_session m)
      in if observed_matches snap i requested then (Inr snap, m)
         else (Inl (AgentTimeout ''ACP config option confirmation timed out''), m))"
| "wait_for_observed_config_option i requested (ns # polls) m =
     (let snap = session_snapshot (mgr_session m)
      in if observed_matches snap i requested then (Inr snap, m)
         else wait_for_observed_config_option i requested polls (fold apply_notification ns m))"

definition apply_legacy_config_ack ::
  "string \<Rightarrow> config_set_path \<Rightarrow> string \<Rightarrow> 'c acp_manager \<Rightarrow> (agent_error + config_snapshot) \<times> 'c acp_manager" where
  "apply_legacy_config_ack sid path resolved m =
     (if session_id (mgr_session m) \<noteq> Some sid
      then (Inl (AgentConflict ''Active ACP session changed while applying config option''), m)
      else (case path of
          SetPathOption _ \<Rightarrow>
            (Inl (AgentConflict ''apply_legacy_config_ack invoked for a non-legacy set path''), m)
        | LegacyMode \<Rightarrow>
            let m1 = on_session (confirm_mode resolved) m
            in (Inr (session_snapshot (mgr_session m1)), commit_session_changes m1)
        | LegacyModel \<Rightarrow>
            let m1 = on_session (confirm_model resolved) m
            in (Inr (session_snapshot (mgr_session m1)), commit_session_changes m1)))"

definition set_config_option_confirmed_inner ::
  "'c acp_agent \<Rightarrow> agent_metadata \<Rightarrow> acp_notification list list \<Rightarrow> string \<Rightarrow> string \<Rightarrow> 'c acp_manager \<Rightarrow>
     (agent_error + config_snapshot) \<times> 'c acp_manager" where
  "set_config_option_confirmed_inner ag md polls i v m =
     (if \<not> is_connected ag (mgr_agent m) then (Inl (AgentAcp NotConnected), m)
      else
        let snap = session_snapshot (mgr_session m);
            resolved = normalize_config_option_request_value md snap i v
        in case resolve_set_path snap i resolved of
             Inl OptionNotFound \<Rightarrow> (Inl (AgentBadRequest ''Config option is not available''), m)
           | Inl ValueNotSelectable \<Rightarrow> (Inl (AgentBadRequest ''Value is not selectable for config option''), m)
           | Inr path \<Rightarrow>
               (case session_id (mgr_session m) of
                  None \<Rightarrow> (Inl (AgentBadRequest ''No active session''), m)
                | Some sid \<Rightarrow>
                    (case path of
                       SetPathOption config_id \<Rightarrow>
                         (case call_agent (call_set_config_option ag sid config_id resolved) m of
                            (Inl e, m1) \<Rightarrow> (Inl (AgentAcp e), m1)
                          | (Inr os, m1) \<Rightarrow>
                              if session_id (mgr_session m1) \<noteq> Some sid
                              then (Inl (AgentConflict ''Active ACP session changed while applying config option''), m1)
                              else wait_for_observed_config_option config_id resolved polls
                                (commit_session_changes (on_session (apply_advertised_config_options os) m1)))
                     | LegacyMode \<Rightarrow>
                         (case call_agent (call_set_mode ag sid resolved) m of
                            (Inl e, m1) \<Rightarrow> (Inl (AgentAcp e), m1)
                          | (Inr _, m1) \<Rightarrow> apply_legacy_config_ack sid LegacyMode resolved m1)
                     | LegacyModel \<Rightarrow>
                         (case call_agent (call_set_model ag sid resolved) m of
                            (Inl e, m1) \<Rightarrow> (Inl (AgentAcp e), m1)
                          | (Inr _, m1) \<Rightarrow> apply_legacy_config_ack sid LegacyModel resolved m1))))"

definition set_config_option_confirmed ::
  "'c acp_agent \<Rightarrow> agent_metadata \<Rightarrow> acp_notification list list \<Rightarrow> string \<Rightarrow> string \<Rightarrow> 'c acp_manager \<Rightarrow>
     (agent_error + config_snapshot) \<times> 'c acp_manager" where
  "set_config_option_confirmed ag md polls option_id value m =
     (let i = str_trim option_id; v = str_trim value
      in if i = [] then (Inl (AgentBadRequest ''option_id must not be empty''), m)
         else if v = [] then (Inl (AgentBadRequest ''value must not be empty''), m)
         else (case try_begin_config_set (mgr_session m) of
             (False, s) \<Rightarrow> (Inl (AgentConflict ''ACP config update is already in progress''), m\<lparr>mgr_session := s\<rparr>)
           | (True, s) \<Rightarrow>
               let (r, m1) = set_config_option_confirmed_inner ag md polls i v (m\<lparr>mgr_session := s\<rparr>)
               in (r, on_session drop_config_set_guard m1)))"

datatype full_auto_application = FullAutoApplied string | FullAutoSkipped string

definition live_mode_catalog_ids :: "acp_session \<Rightarrow> string list" where
  "live_mode_catalog_ids s = selectable_values (session_snapshot s) ''mode''"

definition apply_required_full_auto_mode ::
  "'c acp_agent \<Rightarrow> agent_metadata \<Rightarrow> acp_notification list list \<Rightarrow> 'c acp_manager \<Rightarrow>
     (agent_error + full_auto_application) \<times> 'c acp_manager" where
  "apply_required_full_auto_mode ag md polls m =
     (case resolve_required_full_auto_mode md (live_mode_catalog_ids (mgr_session m)) of
        FullAutoApply mode \<Rightarrow>
          (case set_config_option_confirmed ag md polls ''mode'' mode m of
             (Inl e, m1) \<Rightarrow> (Inl e, m1)
           | (Inr _, m1) \<Rightarrow> (Inr (FullAutoApplied mode), m1))
      | FullAutoSkip resolved \<Rightarrow> (Inr (FullAutoSkipped resolved), m))"

definition record_user_cancel_request :: "'c acp_manager \<Rightarrow> 'c acp_manager" where
  "record_user_cancel_request m = on_session (record_close_reason (Some CloseUserCancel)) m"


section \<open>The prompt\<close>

text \<open>
  The hooks run before a prompt: the first prompt of a new session gets the prelude, whose
  text (context and skills read from disk) is a parameter; a changed model is announced to
  agents that keep their identity in a cached system prompt.
\<close>

definition render_model_identity_reminder :: "string \<Rightarrow> string" where
  \<open>render_model_identity_reminder label =
     ''<system-reminder>'' @ [CHR 0x0A] @
     ''Model switch: The active model has been changed to '' @ label @ '' via the /model command. '' @
     ''You are now running as '' @ label @ ''. '' @
     ''The earlier "You are powered by" text in the system prompt is cached from session start and no longer reflects the actual model. '' @
     ''When asked which model you are, answer '' @ label @ ''.'' @ [CHR 0x0A] @
     ''</system-reminder>'' @ [CHR 0x0A, CHR 0x0A]\<close>

definition session_new_prelude_hook :: "(string \<Rightarrow> string) \<Rightarrow> string \<Rightarrow> acp_session \<Rightarrow> string \<times> acp_session" where
  "session_new_prelude_hook inject prompt s =
     (case take_pending_session_new_prelude s of
        (False, s1) \<Rightarrow> (prompt, s1) | (True, s1) \<Rightarrow> (inject prompt, s1))"

definition model_label :: "acp_session \<Rightarrow> string \<Rightarrow> string" where
  "model_label s model =
     (case find (\<lambda>e. model_id e = model) (model_catalog s) of
        Some e \<Rightarrow> model_name e | None \<Rightarrow> model)"

definition model_identity_reminder_hook :: "string \<Rightarrow> acp_session \<Rightarrow> string \<times> acp_session" where
  "model_identity_reminder_hook prompt s =
     (case take_pending_model_notice s of
        (None, s1) \<Rightarrow> (prompt, s1)
      | (Some model, s1) \<Rightarrow> (render_model_identity_reminder (model_label s1 model) @ prompt, s1))"

definition pre_send :: "(string \<Rightarrow> string) \<Rightarrow> string \<Rightarrow> acp_session \<Rightarrow> string \<times> acp_session" where
  "pre_send inject prompt s =
     (let (p1, s1) = session_new_prelude_hook inject prompt s in model_identity_reminder_hook p1 s1)"

text \<open>The session id and the text that the prompt request carries.\<close>

definition ensure_session_and_prepare ::
  "'c acp_agent \<Rightarrow> acp_params \<Rightarrow> (string \<Rightarrow> string) \<Rightarrow> string \<Rightarrow> 'c acp_manager \<Rightarrow>
     ((agent_error + string \<times> string) \<times> 'c acp_manager) option" where
  "ensure_session_and_prepare ag par inject prompt m =
     (case ensure_session_opened ag par m of
        None \<Rightarrow> None
      | Some (Inl e, m1) \<Rightarrow> Some (Inl e, m1)
      | Some (Inr sid, m1) \<Rightarrow>
          let (content, s) = pre_send inject prompt (mgr_session m1)
          in Some (Inr (sid, content), commit_session_changes (m1\<lparr>mgr_session := s\<rparr>)))"

text \<open>The usage that a prompt's answer reports keeps the known window size and cost.\<close>

definition preserve_known_window :: "usage_update \<Rightarrow> usage_update option \<Rightarrow> usage_update" where
  "preserve_known_window u existing =
     (case existing of
        None \<Rightarrow> u
      | Some known \<Rightarrow>
          u\<lparr>usage_size := (if usage_size u = 0 \<and> usage_size known > 0 then usage_size known else usage_size u),
            usage_cost := (if usage_cost u = None then usage_cost known else usage_cost u)\<rparr>)"

definition record_end_turn_usage :: "usage_update \<Rightarrow> 'c acp_manager \<Rightarrow> 'c acp_manager" where
  "record_end_turn_usage u m =
     commit_session_changes
       (on_session (\<lambda>s. apply_context_usage (preserve_known_window u (adv_context_usage s)) s) m)"

end
