(* ===== verification/Acp_Persistence.thy ===== *)
theory Acp_Persistence
  imports Acp_Manager
begin

text \<open>
  The consumer of the domain events (\<open>persistence/acp_session_sync.rs\<close>) and the row it writes
  (\<open>merge_runtime_state\<close> and its neighbours in \<open>aionui-db\<close>). JSON texts are represented by the
  values they encode. Each input of the consumer carries the answer of the repository to the
  write it may cause.
\<close>

section \<open>The row\<close>

record runtime_row =
  row_session_id :: "string option"
  row_mode :: "string option"
  row_model :: "string option"
  row_config :: "(string, string) hash_map option"
  row_usage :: "usage_update option"

record pending_update =
  pu_mode :: "string option option"
  pu_model :: "string option option"
  pu_config :: "(string, string) hash_map option option"
  pu_usage :: "usage_update option option"

definition pending_update_default :: pending_update where
  "pending_update_default = \<lparr>pu_mode = None, pu_model = None, pu_config = None, pu_usage = None\<rparr>"

definition pending_is_empty :: "pending_update \<Rightarrow> bool" where
  "pending_is_empty p \<longleftrightarrow> pu_mode p = None \<and> pu_model p = None \<and> pu_config p = None \<and> pu_usage p = None"

definition merge_runtime_state :: "pending_update \<Rightarrow> runtime_row \<Rightarrow> runtime_row" where
  "merge_runtime_state p row =
     row\<lparr>row_mode := (case pu_mode p of Some v \<Rightarrow> v | None \<Rightarrow> row_mode row),
         row_model := (case pu_model p of Some v \<Rightarrow> v | None \<Rightarrow> row_model row),
         row_config := (case pu_config p of Some v \<Rightarrow> v | None \<Rightarrow> row_config row),
         row_usage := (case pu_usage p of Some v \<Rightarrow> v | None \<Rightarrow> row_usage row)\<rparr>"

definition load_snapshot_state :: "runtime_row \<Rightarrow> persisted_session_state" where
  "load_snapshot_state row =
     \<lparr>ps_mode = row_mode row, ps_model = row_model row,
      ps_config = (case row_config row of Some c \<Rightarrow> c | None \<Rightarrow> []), ps_usage = row_usage row\<rparr>"

fun merge_from_domain_event :: "acp_session_event \<Rightarrow> pending_update \<Rightarrow> bool \<times> pending_update" where
  "merge_from_domain_event (ObservedModeSynced m) p = (True, p\<lparr>pu_mode := Some (Some m)\<rparr>)"
| "merge_from_domain_event (ObservedModelSynced m) p = (True, p\<lparr>pu_model := Some (Some m)\<rparr>)"
| "merge_from_domain_event (ObservedConfigSynced c) p = (True, p\<lparr>pu_config := Some (Some c)\<rparr>)"
| "merge_from_domain_event (ObservedContextUsageChanged u) p = (True, p\<lparr>pu_usage := Some (Some u)\<rparr>)"
| "merge_from_domain_event _ p = (False, p)"


section \<open>The consumer\<close>

datatype save_answer = Saved | RowMissing | SaveFailed

datatype consumer_input =
    ConsumerEvent acp_session_event save_answer
  | ConsumerDeadline save_answer
  | ConsumerClosed save_answer

record event_consumer =
  con_pending :: pending_update
  con_armed :: bool
  con_row :: runtime_row
  con_done :: bool

definition consumer_new :: "runtime_row \<Rightarrow> event_consumer" where
  "consumer_new row = \<lparr>con_pending = pending_update_default, con_armed = False, con_row = row, con_done = False\<rparr>"

definition consumer_flush :: "save_answer \<Rightarrow> event_consumer \<Rightarrow> event_consumer" where
  "consumer_flush answer k =
     (if pending_is_empty (con_pending k) then k
      else k\<lparr>con_row := (if answer = Saved then merge_runtime_state (con_pending k) (con_row k) else con_row k),
             con_pending := pending_update_default\<rparr>)"

fun consumer_step :: "consumer_input \<Rightarrow> event_consumer \<Rightarrow> event_consumer" where
  "consumer_step (ConsumerEvent e answer) k =
     (if con_done k then k
      else case e of
        SessionAssigned sid \<Rightarrow>
          (if answer = Saved then k\<lparr>con_row := (con_row k)\<lparr>row_session_id := Some sid\<rparr>\<rparr> else k)
      | _ \<Rightarrow>
          let (merged, p) = merge_from_domain_event e (con_pending k)
          in k\<lparr>con_pending := p, con_armed := con_armed k \<or> merged\<rparr>)"
| "consumer_step (ConsumerDeadline answer) k =
     (if con_done k \<or> \<not> con_armed k then k else (consumer_flush answer k)\<lparr>con_armed := False\<rparr>)"
| "consumer_step (ConsumerClosed answer) k =
     (if con_done k then k else (consumer_flush answer k)\<lparr>con_done := True\<rparr>)"

definition consumer_run :: "consumer_input list \<Rightarrow> runtime_row \<Rightarrow> event_consumer" where
  "consumer_run inputs row = fold consumer_step inputs (consumer_new row)"


section \<open>The row as if every event were written at once\<close>

fun write_event :: "acp_session_event \<Rightarrow> runtime_row \<Rightarrow> runtime_row" where
  "write_event (SessionAssigned sid) row = row\<lparr>row_session_id := Some sid\<rparr>"
| "write_event (ObservedModeSynced m) row = row\<lparr>row_mode := Some m\<rparr>"
| "write_event (ObservedModelSynced m) row = row\<lparr>row_model := Some m\<rparr>"
| "write_event (ObservedConfigSynced c) row = row\<lparr>row_config := Some c\<rparr>"
| "write_event (ObservedContextUsageChanged u) row = row\<lparr>row_usage := Some u\<rparr>"
| "write_event _ row = row"

fun input_events :: "consumer_input list \<Rightarrow> acp_session_event list" where
  "input_events [] = []"
| "input_events (ConsumerEvent e _ # is) = e # input_events is"
| "input_events (_ # is) = input_events is"

fun input_answer :: "consumer_input \<Rightarrow> save_answer" where
  "input_answer (ConsumerEvent _ a) = a"
| "input_answer (ConsumerDeadline a) = a"
| "input_answer (ConsumerClosed a) = a"

fun input_closes :: "consumer_input \<Rightarrow> bool" where
  "input_closes (ConsumerClosed _) = True"
| "input_closes _ = False"

lemma merge_write_event:
  "case e of SessionAssigned _ \<Rightarrow> False | _ \<Rightarrow> True \<Longrightarrow>
   merge_runtime_state (snd (merge_from_domain_event e p)) row =
     write_event e (merge_runtime_state p row)"
  by (cases e) (simp_all add: merge_runtime_state_def)

lemma merge_default [simp]: "merge_runtime_state pending_update_default row = row"
  by (simp add: merge_runtime_state_def pending_update_default_def)

lemma merge_empty: "pending_is_empty p \<Longrightarrow> merge_runtime_state p row = row"
  by (simp add: merge_runtime_state_def pending_is_empty_def)

text \<open>What the row will be once the pending update is saved.\<close>

definition consumer_view :: "event_consumer \<Rightarrow> runtime_row" where
  "consumer_view k = merge_runtime_state (con_pending k) (con_row k)"

lemma consumer_view_flush [simp]: "consumer_view (consumer_flush Saved k) = consumer_view k"
  by (simp add: consumer_flush_def consumer_view_def)

lemma consumer_view_armed [simp]:
  "consumer_view (k\<lparr>con_armed := b\<rparr>) = consumer_view k" "consumer_view (k\<lparr>con_done := b\<rparr>) = consumer_view k"
  by (simp_all add: consumer_view_def)

lemma consumer_flush_row: "con_row (consumer_flush Saved k) = consumer_view k"
  by (simp add: consumer_flush_def consumer_view_def merge_empty)

lemma consumer_step_event:
  "\<not> con_done k \<Longrightarrow> consumer_view (consumer_step (ConsumerEvent e Saved) k) = write_event e (consumer_view k)"
  by (cases e; cases "con_row k")
    (auto simp: consumer_view_def merge_runtime_state_def Let_def split: option.split)

lemma consumer_step_deadline: "consumer_view (consumer_step (ConsumerDeadline Saved) k) = consumer_view k"
  by simp

lemma consumer_step_not_done: "\<not> input_closes i \<Longrightarrow> \<not> con_done k \<Longrightarrow> \<not> con_done (consumer_step i k)"
  by (cases i) (auto simp: consumer_flush_def Let_def split: acp_session_event.splits prod.splits)

lemma consumer_run_view:
  "\<forall>i \<in> set is. input_answer i = Saved \<and> \<not> input_closes i \<Longrightarrow> \<not> con_done k \<Longrightarrow>
   consumer_view (fold consumer_step is k) = fold write_event (input_events is) (consumer_view k)
     \<and> \<not> con_done (fold consumer_step is k)"
proof (induction "is" arbitrary: k)
  case (Cons i "is")
  then have "\<not> con_done (consumer_step i k)" and "input_answer i = Saved" and "\<not> input_closes i"
    by (simp_all add: consumer_step_not_done del: consumer_step.simps)
  then show ?case
    using Cons.IH [of "consumer_step i k"] Cons.prems
    by (cases i) (simp_all add: consumer_step_event consumer_step_deadline del: consumer_step.simps)
qed simp

text \<open>Debouncing changes nothing about the row that is left at the end.\<close>

lemma consumer_writes_through:
  assumes "\<forall>i \<in> set is. input_answer i = Saved \<and> \<not> input_closes i"
  shows "con_row (consumer_run (is @ [ConsumerClosed Saved]) row) = fold write_event (input_events is) row"
proof -
  have "consumer_view (fold consumer_step is (consumer_new row)) = fold write_event (input_events is) row"
    and "\<not> con_done (fold consumer_step is (consumer_new row))"
    using consumer_run_view [OF assms, of "consumer_new row"]
    by (simp_all add: consumer_new_def consumer_view_def)
  then show ?thesis
    by (simp add: consumer_run_def consumer_flush_row)
qed

end
