(* ===== verification/Acp_Law.thy ===== *)
theory Acp_Law
  imports Acp_Manager
begin

text \<open>
  Laws of the ACP manager, proved once for all invariants: a relation that every operation of
  the aggregate respects, and a property of managers that survives committing such a change,
  survive every operation of the manager, whatever the agent answers and reports meanwhile.
  The theories that follow interpret the laws with the persisted row and with the shape of the
  session.
\<close>

section \<open>The laws\<close>

locale session_law =
  fixes keeps :: "acp_session \<Rightarrow> acp_session \<Rightarrow> bool"
    and silent :: "acp_session \<Rightarrow> acp_session \<Rightarrow> bool"
  assumes keeps_refl: "keeps s s" and keeps_trans: "keeps s t \<Longrightarrow> keeps t u \<Longrightarrow> keeps s u"
    and silent_refl: "silent s s" and silent_trans: "silent s t \<Longrightarrow> silent t u \<Longrightarrow> silent s u"
    and silent_keeps: "silent s t \<Longrightarrow> keeps s t"
    and law_mode: "keeps s (apply_observed_mode i s)"
    and law_model: "keeps s (apply_observed_model i s)"
    and law_config: "keeps s (apply_observed_config k v s)"
    and law_usage: "keeps s (apply_context_usage usage s)"
    and law_modes: "keeps s (apply_advertised_modes ms s)"
    and law_models: "keeps s (apply_advertised_models mds s)"
    and law_options: "keeps s (apply_advertised_config_options os s)"
    and law_session_id: "keeps s (set_session_id sid s)"
    and law_confirm_mode: "keeps s (confirm_mode i s)"
    and law_confirm_model: "keeps s (confirm_model i s)"
    and law_opened: "silent s (mark_opened s)"
    and law_prelude: "silent s (mark_pending_session_new_prelude s)"
    and law_take_prelude: "silent s (snd (take_pending_session_new_prelude s))"
    and law_clear: "silent s (clear_session_id s)"
    and law_close: "silent s (record_close_reason cr s)"
    and law_notice: "silent s (set_pending_model_notice i s)"
    and law_take_notice: "silent s (snd (take_pending_model_notice s))"
    and law_commands: "silent s (apply_advertised_commands cs s)"
    and law_begin: "silent s (snd (try_begin_config_set s))"
    and law_guard: "silent s (drop_config_set_guard s)"
    and law_desired: "silent s (set_desired_config k v s)"
    and law_refresh: "silent s (refresh_desired md s)"
begin

lemmas staying = silent_refl silent_trans [OF _ law_opened] silent_trans [OF _ law_prelude]
  silent_trans [OF _ law_take_prelude] silent_trans [OF _ law_clear] silent_trans [OF _ law_close]
  silent_trans [OF _ law_notice] silent_trans [OF _ law_take_notice] silent_trans [OF _ law_commands]
  silent_trans [OF _ law_begin] silent_trans [OF _ law_guard] silent_trans [OF _ law_desired]
  silent_trans [OF _ law_refresh]

lemma keeps_silent: "keeps s t \<Longrightarrow> silent t u \<Longrightarrow> keeps s u"
  by (blast intro: keeps_trans silent_keeps)

lemmas keeping = keeps_refl keeps_trans [OF _ law_mode] keeps_trans [OF _ law_model]
  keeps_trans [OF _ law_config] keeps_trans [OF _ law_usage] keeps_trans [OF _ law_modes]
  keeps_trans [OF _ law_models] keeps_trans [OF _ law_options] keeps_trans [OF _ law_session_id]
  keeps_trans [OF _ law_confirm_mode] keeps_trans [OF _ law_confirm_model]
  keeps_silent [OF _ law_opened] keeps_silent [OF _ law_prelude]
  keeps_silent [OF _ law_take_prelude] keeps_silent [OF _ law_clear] keeps_silent [OF _ law_close]
  keeps_silent [OF _ law_notice] keeps_silent [OF _ law_take_notice] keeps_silent [OF _ law_commands]
  keeps_silent [OF _ law_guard] keeps_silent [OF _ law_desired] keeps_silent [OF _ law_refresh]

lemma law_absorb: "keeps s t \<Longrightarrow> keeps s (absorb_catalogs r t)"
  by (auto simp: absorb_catalogs_def Let_def split: option.split intro!: keeping)

lemmas keeping_all = keeping law_absorb

lemma law_pre_send: "keeps s (snd (pre_send inject prompt s))"
proof -
  obtain b s1 where take: "take_pending_session_new_prelude s = (b, s1)"
    by fastforce
  obtain n s2 where notice: "take_pending_model_notice s1 = (n, s2)"
    by fastforce
  have "keeps s s1" and "keeps s1 s2"
    using law_take_prelude [of s] law_take_notice [of s1] by (auto simp: take notice intro: silent_keeps)
  then show ?thesis
    by (auto simp: pre_send_def session_new_prelude_hook_def model_identity_reminder_hook_def take notice
        split: bool.split option.split intro: keeps_trans)
qed

end

text \<open>What a property of managers needs: it survives committing a change and an uncommitted silent one.\<close>

locale manager_law = session_law +
  fixes P :: "'c acp_manager \<Rightarrow> bool"
  assumes commit: "P m \<Longrightarrow> keeps (mgr_session m) s \<Longrightarrow> P (commit_session_changes (m\<lparr>mgr_session := s\<rparr>))"
    and silently: "P m \<Longrightarrow> silent (mgr_session m) s \<Longrightarrow> P (m\<lparr>mgr_session := s\<rparr>)"
    and agent_state: "P (m\<lparr>mgr_agent := c\<rparr>) = P m"
begin

lemma kept_notification: "P m \<Longrightarrow> P (apply_notification n m)"
  by (cases n)
    (auto simp: apply_notification_def
      intro!: commit keeping_all)

lemma kept_notifications: "P m \<Longrightarrow> P (fold apply_notification ns m)"
  by (induction ns arbitrary: m) (auto intro: kept_notification)

lemma kept_call: "call_agent f m = (r, m') \<Longrightarrow> P m \<Longrightarrow> P m'"
  by (auto simp: call_agent_def agent_state split: prod.splits intro!: kept_notifications)


lemma kept_set_mode:
  "reconcile_set_mode ag md sid i m = (r, m') \<Longrightarrow> P m \<Longrightarrow> P m'"
  by (auto simp: reconcile_set_mode_def Let_def dest: kept_call split: if_splits prod.splits sum.splits
    intro!: commit keeping_all)

lemma kept_set_model:
  "reconcile_set_model ag md sid i m = (r, m') \<Longrightarrow> P m \<Longrightarrow> P m'"
  by (auto simp: reconcile_set_model_def dest: kept_call split: prod.splits sum.splits
    intro!: commit keeping_all)

lemma kept_set_config_option:
  assumes "reconcile_set_config_option ag md sid k v m = (r, m')" and "P m"
  shows "P m'"
proof -
  let ?r = "resolve_config_value md (mgr_session m) k v"
  define m1 where "m1 = (if k = ''mode'' \<and> ?r \<noteq> v then on_session (set_desired_config k ?r) m else m)"
  have m1: "P m1"
    using assms(2) by (auto simp: m1_def intro!: silently staying)
  obtain a m2 where call: "call_agent (call_set_config_option ag sid k ?r) m1 = (a, m2)"
    by fastforce
  then have "P m2"
    using m1 by (rule kept_call)
  then show ?thesis
    using assms(1) call
    by (auto simp: reconcile_set_config_option_def Let_def m1_def [symmetric] split: sum.splits
        intro!: commit keeping_all)
qed

lemma kept_step:
  "reconcile_step ag md sid a m = (r, m') \<Longrightarrow> P m \<Longrightarrow> P m'"
  by (cases a) (auto intro: kept_set_mode kept_set_model kept_set_config_option)

lemma kept_loop:
  assumes "reconcile_loop ag md sid queue m = Some (r, m')" and "P m"
  shows "P m'"
proof -
  have "\<forall>row. P m \<longrightarrow> P (snd (r, m'))"
  proof (rule reconcile_loop.raw_induct
      [where P = "\<lambda>ag md sid queue m res. \<forall>row. P m \<longrightarrow> P (snd res)",
        OF _ assms(1)])
    fix f ag md sid queue m res
    assume IH: "\<And>ag md sid queue m res. f ag md sid queue m = Some res \<Longrightarrow>
        \<forall>row. P m \<longrightarrow> P (snd res)"
      and eq: "(case queue of [] \<Rightarrow> Some (Inr (), m)
        | a # rest \<Rightarrow> (case reconcile_step ag md sid a m of
            (Inl e, m1) \<Rightarrow> Some (Inl e, m1)
          | (Inr followups, m1) \<Rightarrow> f ag md sid (rest @ followups) m1)) = Some res"
    show "\<forall>row. P m \<longrightarrow> P (snd res)"
      using eq by (auto split: list.splits prod.splits sum.splits dest: kept_step IH)
  qed
  then show ?thesis
    using assms(2) by simp
qed

lemma kept_reconcile:
  "reconcile_session ag md sid m = Some (r, m') \<Longrightarrow> P m \<Longrightarrow> P m'"
  by (auto simp: reconcile_session_def Let_def dest!: kept_loop intro!: silently staying)


lemma kept_open_new:
  assumes "open_session_new ag par m = Some (r, m')" and "P m"
  shows "P m'"
  using assms
  by (auto simp: open_session_new_def Let_def split: prod.splits sum.splits option.splits
      dest!: kept_reconcile dest: kept_call intro!: commit keeping_all)

lemma kept_rebuild:
  "rebuild_after_session_not_found ag par m = Some (r, m') \<Longrightarrow> P m \<Longrightarrow>
   P m'"
  by (auto simp: rebuild_after_session_not_found_def dest!: kept_open_new
      intro!: commit keeping_all)

lemma kept_reconcile_or_rebuild:
  assumes "reconcile_or_rebuild ag par sid m = Some (r, m')" and "P m"
  shows "P m'"
  using assms
  by (auto simp: reconcile_or_rebuild_def split: prod.splits sum.splits option.splits if_splits
      dest: kept_reconcile kept_rebuild)

lemma kept_resume:
  assumes "open_session_resume ag par sid m = Some (r, m')" and m: "P m"
  shows "P m'"
proof -
  have absorb: "P
      (commit_session_changes (on_session (\<lambda>s. set_session_id i (absorb_catalogs resp s)) m1))"
    if "P m1" for i resp and m1 :: "'c acp_manager"
    using that by (intro commit keeping_all)
  have known: "P (commit_session_changes (on_session (set_session_id i) m))" for i
    using m by (intro commit keeping_all)
  consider "resume_via_meta ag par sid m = Some (r, m')" | "resume_via_load ag par sid m = Some (r, m')"
    | "reconcile_or_rebuild ag par sid (commit_session_changes (on_session (set_session_id sid) m)) = Some (r, m')"
    using assms(1) by (auto simp: open_session_resume_def split: if_splits)
  then show ?thesis
  proof cases
    case 1
    then show ?thesis
      by (auto simp: resume_via_meta_def split: prod.splits sum.splits if_splits
          dest: kept_call [OF _ m] kept_rebuild kept_reconcile_or_rebuild absorb)
  next
    case 2
    then show ?thesis
      by (auto simp: resume_via_load_def Let_def split: prod.splits sum.splits if_splits
          dest: kept_call [OF _ m] kept_rebuild kept_reconcile_or_rebuild absorb)
  next
    case 3
    then show ?thesis
      by (rule kept_reconcile_or_rebuild) (rule known)
  qed
qed

lemma kept_fork:
  assumes "open_session_fork ag par parent m = Some (r, m')" and m: "P m"
  shows "P m'"
proof (cases "case adv_capabilities (mgr_session m) of Some c \<Rightarrow> fork_supported c | None \<Rightarrow> False")
  case True
  obtain a m1 where call: "call_agent (call_fork_session ag parent) m = (a, m1)"
    by fastforce
  then have "P m1"
    using m by (rule kept_call)
  then show ?thesis
    using assms(1) True call
    by (auto simp: open_session_fork_def split: sum.splits
        elim!: kept_reconcile_or_rebuild intro!: commit keeping_all)
next
  case False
  then show ?thesis
    using assms by (simp add: open_session_fork_def)
qed

lemma kept_mark_opened:
  "mark_opened_when_connected ag sid m = (r, m') \<Longrightarrow> P m \<Longrightarrow> P m'"
  by (auto simp: mark_opened_when_connected_def split: if_splits intro!: commit keeping_all)

lemma kept_ensure:
  assumes "ensure_session_opened ag par m = Some (r, m')" and m: "P m"
  shows "P m'"
  using assms
  by (auto simp: ensure_session_opened_def Let_def split: option.splits sum.splits prod.splits if_splits
      dest: kept_open_new kept_resume kept_fork kept_mark_opened)

lemma kept_prepare:
  assumes "ensure_session_and_prepare ag par inject prompt m = Some (r, m')" and m: "P m"
  shows "P m'"
proof -
  obtain a m1 where "ensure_session_opened ag par m = Some (a, m1)"
    using assms(1) by (auto simp: ensure_session_and_prepare_def split: option.splits)
  moreover from this m have "P m1"
    by (rule kept_ensure)
  ultimately show ?thesis
    using assms(1) commit [OF _ law_pre_send]
    by (auto simp: ensure_session_and_prepare_def split_def Let_def split: sum.splits)
qed

lemma kept_user_set_mode:
  "set_mode ag md i m = (r, m') \<Longrightarrow> P m \<Longrightarrow> P m'"
  by (auto simp: set_mode_def Let_def split: if_splits option.splits prod.splits sum.splits
      dest: kept_call intro!: commit keeping_all)

lemma kept_user_set_model:
  "set_model_confirmed ag md i m = (r, m') \<Longrightarrow> P m \<Longrightarrow> P m'"
  by (auto simp: set_model_confirmed_def Let_def split: if_splits option.splits prod.splits sum.splits
      dest: kept_call intro!: commit keeping_all)

lemma kept_wait:
  "wait_for_observed_config_option i v polls m = (r, m') \<Longrightarrow> P m \<Longrightarrow>
   P m'"
  by (induction i v polls m rule: wait_for_observed_config_option.induct)
    (auto simp: Let_def split: if_splits intro: kept_notifications)

lemma kept_legacy_ack:
  "apply_legacy_config_ack sid path v m = (r, m') \<Longrightarrow> P m \<Longrightarrow> P m'"
  by (auto simp: apply_legacy_config_ack_def Let_def split: if_splits config_set_path.splits
      intro!: commit keeping_all)

lemma kept_config_inner:
  assumes "set_config_option_confirmed_inner ag md polls i v m = (r, m')" and "P m"
  shows "P m'"
  using assms
  by (auto simp: set_config_option_confirmed_inner_def Let_def
      split: if_splits option.splits prod.splits sum.splits config_set_path.splits config_set_path_error.splits
      dest: kept_call kept_legacy_ack dest!: kept_wait
      intro!: commit keeping_all)

lemma kept_user_config:
  assumes "set_config_option_confirmed ag md polls i v m = (r, m')" and "P m"
  shows "P m'"
proof -
  obtain b s where begin_set: "try_begin_config_set (mgr_session m) = (b, s)"
    by fastforce
  then have "P (m\<lparr>mgr_session := s\<rparr>)"
    using silently [OF assms(2) law_begin] by simp
  then show ?thesis
    using assms
    by (auto simp: set_config_option_confirmed_def begin_set Let_def
        split: if_splits prod.splits bool.splits dest: kept_config_inner intro!: silently staying)
qed

lemma kept_end_turn_usage: "P m \<Longrightarrow> P (record_end_turn_usage u m)"
  by (auto simp: record_end_turn_usage_def intro!: commit keeping_all)

lemma kept_cancel_request: "P m \<Longrightarrow> P (record_user_cancel_request m)"
  by (auto simp: record_user_cancel_request_def intro!: silently staying)

end

end
