(* ===== verification/Acp_Observed.thy ===== *)
theory Acp_Observed
  imports Acp_Persistence Acp_Law
begin

text \<open>
  Every operation of the aggregate tells the consumer of its events what it changed of the
  observed state. The law is a locale that each operation satisfies; the manager's operations
  keep the row in step because they change the session only through such operations and
  commit the events.
\<close>

named_theorems observed_kept \<open>operations of the aggregate keep the row in step\<close>
named_theorems silently_kept \<open>operations that change nothing the row shows\<close>

section \<open>The contract of the operations\<close>

definition row_shows :: "runtime_row \<Rightarrow> acp_session \<Rightarrow> bool" where
  "row_shows row s \<longleftrightarrow>
     row_mode row = observed_mode s \<and> row_model row = observed_model s \<and>
     (case row_config row of Some c \<Rightarrow> c | None \<Rightarrow> []) = observed_config s \<and>
     row_usage row = adv_context_usage s \<and>
     (session_id s = None \<or> row_session_id row = session_id s)"

definition keeps_row :: "acp_session \<Rightarrow> acp_session \<Rightarrow> bool" where
  "keeps_row s s' \<longleftrightarrow>
     (\<forall>row. row_shows (fold write_event (pending_events s) row) s \<longrightarrow>
       row_shows (fold write_event (pending_events s') row) s')"

definition silent_change :: "acp_session \<Rightarrow> acp_session \<Rightarrow> bool" where
  "silent_change s s' \<longleftrightarrow>
     keeps_row s s' \<and>
     (\<forall>row. fold write_event (pending_events s') row = fold write_event (pending_events s) row)"

lemma keeps_row_refl [observed_kept]: "keeps_row s s"
  by (simp add: keeps_row_def)

lemma keeps_row_trans: "keeps_row s s' \<Longrightarrow> keeps_row s' s'' \<Longrightarrow> keeps_row s s''"
  by (simp add: keeps_row_def)

lemma silent_change_refl [silently_kept]: "silent_change s s"
  by (simp add: silent_change_def keeps_row_refl)

lemma silent_change_trans: "silent_change s s' \<Longrightarrow> silent_change s' s'' \<Longrightarrow> silent_change s s''"
  by (auto simp: silent_change_def intro: keeps_row_trans)

locale observed_operation =
  fixes f :: "acp_session \<Rightarrow> acp_session"
  assumes keeps: "keeps_row s (f s)"
begin

lemma kept [observed_kept]: "keeps_row s x \<Longrightarrow> keeps_row s (f x)"
  by (rule keeps_row_trans [OF _ keeps])

end

locale silent_operation =
  fixes f :: "acp_session \<Rightarrow> acp_session"
  assumes silent: "silent_change s (f s)"
begin

lemma silently_kept [silently_kept]: "silent_change s x \<Longrightarrow> silent_change s (f x)"
  by (rule silent_change_trans [OF _ silent])

end

sublocale silent_operation \<subseteq> observed_operation
  by unfold_locales (use silent in \<open>simp add: silent_change_def\<close>)

text \<open>Both are checked on the events that are added and the fields that are shown.\<close>

lemma keeps_rowI:
  assumes "pending_events s' = pending_events s @ es"
    and "\<And>row. row_shows row s \<Longrightarrow> row_shows (fold write_event es row) s'"
  shows "keeps_row s s'"
  using assms by (simp add: keeps_row_def)

lemma silent_changeI:
  assumes "pending_events s' = pending_events s @ es" and "\<And>row. fold write_event es row = row"
    and "\<And>row. row_shows row s \<Longrightarrow> row_shows row s'"
  shows "silent_change s s'"
  using assms by (simp add: silent_change_def keeps_row_def)

lemma hm_insert_same: "map_of m k = Some v \<Longrightarrow> hm_insert k v m = m"
  by (induction m) (auto split: if_splits)


lemma fold_optional_event: "fold write_event (if b then [e] else []) row = (if b then write_event e row else row)"
  by simp

lemma row_shows_if: "row_shows (if b then r1 else r2) s \<longleftrightarrow> (if b then row_shows r1 s else row_shows r2 s)"
  by simp

lemmas event_simps = fold_optional_event row_shows_if


section \<open>The operations satisfy it\<close>

interpretation op_observed_mode: observed_operation "apply_observed_mode i" for i
  by unfold_locales
    (rule keeps_rowI, simp add: apply_observed_mode_def,
     auto simp: event_simps apply_observed_mode_def row_shows_def)

interpretation op_observed_model: observed_operation "apply_observed_model i" for i
  by unfold_locales
    (rule keeps_rowI, simp add: apply_observed_model_def,
     auto simp: event_simps apply_observed_model_def row_shows_def)

interpretation op_observed_config: observed_operation "apply_observed_config k v" for k v
  by unfold_locales
    (rule keeps_rowI, simp add: apply_observed_config_def Let_def,
     auto simp: event_simps apply_observed_config_def row_shows_def Let_def hm_insert_same)

interpretation op_usage: observed_operation "apply_context_usage u" for u
  by unfold_locales
    (rule keeps_rowI, simp add: apply_context_usage_def,
     auto simp: event_simps apply_context_usage_def row_shows_def)

interpretation op_advertised_modes: observed_operation "apply_advertised_modes ms" for ms
  by unfold_locales
    (rule keeps_rowI, simp add: apply_advertised_modes_def Let_def,
     auto simp: event_simps apply_advertised_modes_def row_shows_def Let_def)

interpretation op_advertised_models: observed_operation "apply_advertised_models ms" for ms
  by unfold_locales
    (rule keeps_rowI, simp add: apply_advertised_models_def Let_def,
     auto simp: event_simps apply_advertised_models_def row_shows_def Let_def)

lemma observe_option_cases:
  "observe_option (c, sel) opt =
     (case extract_config_current_value (co_kind opt) of
        None \<Rightarrow> (c, sel)
      | Some v \<Rightarrow> (c \<or> map_of sel (co_id opt) \<noteq> Some v, hm_insert (co_id opt) v sel))"
  by (simp add: observe_option_def split: option.split)

lemma observe_options_unchanged:
  "foldl observe_option (c, sel) os = (False, sel') \<Longrightarrow> \<not> c \<and> sel' = sel"
proof (induction os arbitrary: c sel)
  case (Cons opt os)
  show ?case
  proof (cases "extract_config_current_value (co_kind opt)")
    case None
    then show ?thesis
      using Cons.prems Cons.IH [of c sel] by (simp add: observe_option_cases)
  next
    case (Some v)
    then show ?thesis
      using Cons.prems Cons.IH [of "c \<or> map_of sel (co_id opt) \<noteq> Some v" "hm_insert (co_id opt) v sel"]
      by (auto simp: observe_option_cases hm_insert_same)
  qed
qed simp

text \<open>The options are observed after the catalogs derived from them.\<close>

definition observe_config_options :: "config_option list \<Rightarrow> acp_session \<Rightarrow> acp_session" where
  "observe_config_options os s =
     (let (changed, selections) = foldl observe_option (False, observed_config s) os
      in acp_emit_if changed (ObservedConfigSynced selections)
           (s\<lparr>observed_config := selections, adv_config_options := Some os\<rparr>))"

interpretation op_observe_options: observed_operation "observe_config_options os" for os
proof unfold_locales
  fix s :: acp_session
  obtain c sel where fold: "foldl observe_option (False, observed_config s) os = (c, sel)"
    by fastforce
  then have "\<not> c \<Longrightarrow> sel = observed_config s"
    by (cases c) (auto dest: observe_options_unchanged)
  then show "keeps_row s (observe_config_options os s)"
    by (intro keeps_rowI [where es = "if c then [ObservedConfigSynced sel] else []"])
      (auto simp: observe_config_options_def fold event_simps row_shows_def)
qed

lemma apply_advertised_config_options_alt:
  "apply_advertised_config_options incoming s =
     (let os = merge_config_options (adv_config_options s) incoming;
          s1 = (case derive_modes_from_config_options os of
                  Some ms \<Rightarrow> apply_advertised_modes ms s | None \<Rightarrow> s);
          s2 = (case derive_models_from_config_options os of
                  Some ms \<Rightarrow> apply_advertised_models (preserve_desired_model s1 ms) s1 | None \<Rightarrow> s1)
      in observe_config_options os s2)"
  by (simp add: apply_advertised_config_options_def observe_config_options_def Let_def)

interpretation op_config_options: observed_operation "apply_advertised_config_options os" for os
  by unfold_locales
    (auto simp: apply_advertised_config_options_alt Let_def split: option.split intro!: observed_kept)

interpretation op_set_session_id: observed_operation "set_session_id sid" for sid
proof unfold_locales
  fix s :: acp_session
  show "keeps_row s (set_session_id sid s)"
    by (cases "session_id s")
      (auto simp: set_session_id_def intro: keeps_row_refl keeps_rowI [where es = "[SessionAssigned sid]"]
        simp: row_shows_def)
qed

text \<open>The others change nothing that the row shows.\<close>

interpretation op_mark_opened: silent_operation mark_opened
proof unfold_locales
  fix s :: acp_session
  show "silent_change s (mark_opened s)"
    by (rule silent_changeI [where es = "if opened s then [] else [SessionOpened]"])
      (auto simp: mark_opened_def row_shows_def)
qed

interpretation op_prelude: silent_operation mark_pending_session_new_prelude
  by unfold_locales
    (rule silent_changeI [where es = "[]"], auto simp: mark_pending_session_new_prelude_def row_shows_def)

interpretation op_clear_session_id: silent_operation clear_session_id
  by unfold_locales (rule silent_changeI [where es = "[]"], auto simp: clear_session_id_def row_shows_def)

interpretation op_close_reason: silent_operation "record_close_reason r" for r
  by unfold_locales (rule silent_changeI [where es = "[]"], auto simp: record_close_reason_def row_shows_def)

interpretation op_notice: silent_operation "set_pending_model_notice i" for i
  by unfold_locales (rule silent_changeI [where es = "[]"], auto simp: set_pending_model_notice_def row_shows_def)

interpretation op_capabilities: silent_operation "apply_advertised_capabilities c" for c
  by unfold_locales
    (rule silent_changeI [where es = "[]"], auto simp: apply_advertised_capabilities_def row_shows_def)

interpretation op_auth_methods: silent_operation "apply_advertised_auth_methods a" for a
  by unfold_locales
    (rule silent_changeI [where es = "[]"], auto simp: apply_advertised_auth_methods_def row_shows_def)

interpretation op_commands: silent_operation "apply_advertised_commands cs" for cs
  by unfold_locales
    (rule silent_changeI [where es = "[]"], auto simp: apply_advertised_commands_def row_shows_def)

interpretation op_config_guard: silent_operation drop_config_set_guard
  by unfold_locales (rule silent_changeI [where es = "[]"], auto simp: drop_config_set_guard_def row_shows_def)

interpretation op_desired_config: silent_operation "set_desired_config k v" for k v
proof unfold_locales
  fix s :: acp_session
  show "silent_change s (set_desired_config k v s)"
    by (rule silent_changeI [where es = "if map_of (desired_config s) k \<noteq> Some v
          then [DesiredConfigChanged (hm_insert k v (desired_config s))] else []"])
      (auto simp: set_desired_config_def row_shows_def Let_def)
qed

interpretation op_clear_mode: silent_operation "snd \<circ> clear_invalid_desired_mode"
  by unfold_locales
    (rule silent_changeI [where es = "[]"],
     auto simp: clear_invalid_desired_mode_def row_shows_def split: option.split)

interpretation op_clear_model: silent_operation "snd \<circ> clear_invalid_desired_model"
  by unfold_locales
    (rule silent_changeI [where es = "[]"],
     auto simp: clear_invalid_desired_model_def row_shows_def split: option.split)

interpretation op_seed: silent_operation "seed_pending_startup_config cat v" for cat v
  by unfold_locales
    (rule silent_changeI [where es = "[]"], auto simp: seed_pending_startup_config_def row_shows_def)

interpretation op_clear_legacy: silent_operation "clear_legacy_desired cat" for cat
  by unfold_locales (rule silent_changeI [where es = "[]"]; cases cat; auto simp: row_shows_def)

interpretation op_unresolved: silent_operation "handle_unresolved_seed sd b" for sd b
  by unfold_locales
    (auto simp: handle_unresolved_seed_def split: config_category.split
      intro!: silently_kept simp del: clear_legacy_desired.simps)


lemma resolve_seed_silent [silently_kept]:
  "silent_change s x \<Longrightarrow> silent_change s (snd (resolve_seed n sd x))"
  by (auto simp: resolve_seed_def Let_def split: option.split intro!: silently_kept
    simp del: clear_legacy_desired.simps)

lemma resolve_seeds_silent [silently_kept]:
  "silent_change s x \<Longrightarrow> silent_change s (snd (resolve_seeds n sds x))"
  by (induction sds arbitrary: x) (auto simp: split_def Let_def intro!: silently_kept)

interpretation op_take_seeds: silent_operation "\<lambda>s. s\<lparr>pending_startup_config := []\<rparr>"
  by unfold_locales (rule silent_changeI [where es = "[]"], auto simp: row_shows_def)

lemma refresh_desired_alt:
  "refresh_desired md s =
     (snd \<circ> clear_invalid_desired_model) ((snd \<circ> clear_invalid_desired_mode)
       (snd (resolve_seeds (normalize_for_available_values md) (pending_startup_config s)
          (s\<lparr>pending_startup_config := []\<rparr>))))"
  by (simp add: refresh_desired_def resolve_pending_startup_config_seeds_def split_def Let_def)

interpretation op_refresh_desired: silent_operation "refresh_desired md" for md
  by unfold_locales (unfold refresh_desired_alt, intro silently_kept)

lemma keeps_row_desired [observed_kept]:
  "keeps_row s x \<Longrightarrow> keeps_row s (x\<lparr>desired_mode := d\<rparr>)"
  "keeps_row s x \<Longrightarrow> keeps_row s (x\<lparr>desired_model := d\<rparr>)"
  by (simp_all add: keeps_row_def row_shows_def)

lemma keeps_row_option_value [observed_kept]:
  "keeps_row s x \<Longrightarrow> keeps_row s (update_advertised_config_option_value ids v x)"
  by (simp add: keeps_row_def row_shows_def update_advertised_config_option_value_def)

interpretation op_confirm_mode: observed_operation "confirm_mode i" for i
  by unfold_locales (unfold confirm_mode_def, intro observed_kept)

interpretation op_confirm_model: observed_operation "confirm_model i" for i
  by unfold_locales (unfold confirm_model_def, intro observed_kept)

section \<open>The manager keeps the row in step\<close>

definition manager_persisted :: "runtime_row \<Rightarrow> 'c acp_manager \<Rightarrow> bool" where
  "manager_persisted row m \<longleftrightarrow>
     row_shows (fold write_event (mgr_sent m) row) (mgr_session m) \<and>
     (\<forall>r. fold write_event (pending_events (mgr_session m)) r = r)"

lemma manager_persisted_commit:
  assumes "manager_persisted row m" and "keeps_row (mgr_session m) s"
  shows "manager_persisted row (commit_session_changes (m\<lparr>mgr_session := s\<rparr>))"
  using assms
  by (simp add: manager_persisted_def keeps_row_def commit_session_changes_def acp_drain_events_def row_shows_def)

lemma manager_persisted_silent:
  assumes "manager_persisted row m" and "silent_change (mgr_session m) s"
  shows "manager_persisted row (m\<lparr>mgr_session := s\<rparr>)"
proof -
  have "fold write_event (pending_events (mgr_session m)) r = r" for r
    using assms(1) by (simp add: manager_persisted_def)
  then show ?thesis
    using assms by (auto simp: manager_persisted_def silent_change_def keeps_row_def)
qed

lemmas observed_rules = op_observed_mode.keeps op_observed_model.keeps op_observed_config.keeps op_usage.keeps
  op_advertised_modes.keeps op_advertised_models.keeps op_config_options.keeps op_set_session_id.keeps
  op_confirm_mode.keeps op_confirm_model.keeps

lemmas silent_rules = op_mark_opened.silent op_prelude.silent op_clear_session_id.silent op_close_reason.silent
  op_notice.silent op_commands.silent op_config_guard.silent op_desired_config.silent op_refresh_desired.silent

text \<open>The laws of the manager hold for the row: every operation of the manager keeps it in step.\<close>

interpretation persisted: manager_law keeps_row silent_change "manager_persisted row" for row
proof unfold_locales
  fix s :: acp_session
  show "silent_change s (snd (take_pending_session_new_prelude s))"
    by (rule silent_changeI [where es = "[]"]) (auto simp: take_pending_session_new_prelude_def row_shows_def)
  show "silent_change s (snd (take_pending_model_notice s))"
    by (rule silent_changeI [where es = "[]"]) (auto simp: take_pending_model_notice_def row_shows_def)
  show "silent_change s (snd (try_begin_config_set s))"
    by (rule silent_changeI [where es = "[]"]) (auto simp: try_begin_config_set_def row_shows_def)
next
  show "manager_persisted row m \<Longrightarrow> keeps_row (mgr_session m) s \<Longrightarrow>
      manager_persisted row (commit_session_changes (m\<lparr>mgr_session := s\<rparr>))" for row s and m :: "'a acp_manager"
    by (rule manager_persisted_commit)
  show "manager_persisted row m \<Longrightarrow> silent_change (mgr_session m) s \<Longrightarrow>
      manager_persisted row (m\<lparr>mgr_session := s\<rparr>)" for row s and m :: "'a acp_manager"
    by (rule manager_persisted_silent)
  show "manager_persisted row (m\<lparr>mgr_agent := c\<rparr>) = manager_persisted row m" for row c and m :: "'a acp_manager"
    by (simp add: manager_persisted_def)
  show "silent_change s t \<Longrightarrow> keeps_row s t" for s t
    by (simp add: silent_change_def)
qed (rule keeps_row_refl silent_change_refl observed_rules silent_rules |
     erule keeps_row_trans silent_change_trans, assumption)+

end
