(* ===== verification/Acp_Reachable.thy ===== *)
theory Acp_Reachable
  imports Acp_Observed
begin

text \<open>
  The manager of one agent process: built from the persisted row, then any sequence of its
  operations, interleaved with the notifications that the tracker handles. Operations that
  reconcile take a step when they end.
\<close>

definition manager_built ::
  "acp_params \<Rightarrow> agent_capabilities option \<Rightarrow> string list option \<Rightarrow> runtime_row \<Rightarrow> 'c \<Rightarrow> 'c acp_manager" where
  "manager_built par caps auth row c =
     (let par' = par\<lparr>par_snapshot := Some (load_snapshot_state row)\<rparr>;
          m = manager_init par' caps auth (manager_new par' c)
      in case row_session_id row of Some sid \<Rightarrow> restore_session_id sid m | None \<Rightarrow> m)"

inductive manager_step :: "'c acp_agent \<Rightarrow> acp_params \<Rightarrow> 'c acp_manager \<Rightarrow> 'c acp_manager \<Rightarrow> bool"
  for ag :: "'c acp_agent" and par :: acp_params where
  step_notified: "manager_step ag par m (apply_notification n m)"
| step_opened: "ensure_session_opened ag par m = Some (r, m') \<Longrightarrow> manager_step ag par m m'"
| step_prompted: "ensure_session_and_prepare ag par inject prompt m = Some (r1, m') \<Longrightarrow> manager_step ag par m m'"
| step_usage: "manager_step ag par m (record_end_turn_usage u m)"
| step_set_mode: "set_mode ag (par_metadata par) i m = (r, m') \<Longrightarrow> manager_step ag par m m'"
| step_set_model: "set_model_confirmed ag (par_metadata par) i m = (r2, m') \<Longrightarrow> manager_step ag par m m'"
| step_set_config:
    "set_config_option_confirmed ag (par_metadata par) polls i v m = (r3, m') \<Longrightarrow> manager_step ag par m m'"
| step_cancel: "manager_step ag par m (record_user_cancel_request m)"

inductive manager_reachable ::
  "'c acp_agent \<Rightarrow> acp_params \<Rightarrow> 'c acp_manager \<Rightarrow> 'c acp_manager \<Rightarrow> bool"
  for ag :: "'c acp_agent" and par :: acp_params and m0 :: "'c acp_manager" where
  reach_start: "manager_reachable ag par m0 m0"
| reach_step: "manager_reachable ag par m0 m \<Longrightarrow> manager_step ag par m m' \<Longrightarrow> manager_reachable ag par m0 m'"

context manager_law
begin

lemma kept_manager_step: "manager_step ag par m m' \<Longrightarrow> P m \<Longrightarrow> P m'"
  by (induction rule: manager_step.induct)
    (auto intro: kept_notification kept_ensure kept_prepare kept_end_turn_usage
      kept_user_set_mode kept_user_set_model kept_user_config kept_cancel_request)

lemma kept_reachable: "manager_reachable ag par m0 m \<Longrightarrow> P m0 \<Longrightarrow> P m"
  by (induction rule: manager_reachable.induct) (auto intro: kept_manager_step)

end


section \<open>The start\<close>

text \<open>Building the aggregate observes nothing and emits no event.\<close>

definition fresh_observations :: "acp_session \<Rightarrow> bool" where
  "fresh_observations s \<longleftrightarrow>
     pending_events s = [] \<and> session_id s = None \<and> observed_mode s = None \<and> observed_model s = None \<and>
     observed_config s = [] \<and> adv_context_usage s = None"

lemma fresh_seed: "fresh_observations s \<Longrightarrow> fresh_observations (seed_preference cfg cat v s)"
  by (auto simp: seed_preference_def seed_pending_startup_config_def fresh_observations_def split: option.split)

lemma fresh_catalogs: "fresh_observations s \<Longrightarrow> fresh_observations (preload_metadata_catalogs par s)"
  by (auto simp: preload_metadata_catalogs_def preload_advertised_catalogs_def fresh_observations_def Let_def
      split: option.split)

lemma fresh_manager_new: "fresh_observations (mgr_session (manager_new par c))"
  by (simp add: manager_new_def seed_startup_config_preferences_def Let_def)
    (intro fresh_seed fresh_catalogs, simp add: fresh_observations_def acp_session_new_def)

lemma row_shows_preload:
  assumes "fresh_observations s"
  shows "row_shows row (preload_persisted (load_snapshot_state row) s)"
  using assms
  by (auto simp: preload_persisted_def load_snapshot_state_def row_shows_def fresh_observations_def Let_def
      split: option.split)

lemma pending_preload [simp]: "pending_events (preload_persisted p s) = pending_events s"
  by (auto simp: preload_persisted_def Let_def split: option.split)

lemma session_id_preload [simp]: "session_id (preload_persisted p s) = session_id s"
  by (auto simp: preload_persisted_def Let_def split: option.split)

definition row_model_is_normal :: "acp_params \<Rightarrow> runtime_row \<Rightarrow> bool" where
  "row_model_is_normal par row \<longleftrightarrow>
     normalize_persisted_model_id (backend (par_metadata par)) (row_model row) = row_model row"

lemma normalized_snapshot_id:
  "row_model_is_normal par row \<Longrightarrow>
   normalized_snapshot par (load_snapshot_state row) = load_snapshot_state row"
  by (simp add: row_model_is_normal_def normalized_snapshot_def load_snapshot_state_def)

lemma manager_init_shows:
  assumes "row_model_is_normal par row" and "par_snapshot par = Some (load_snapshot_state row)"
    and "fresh_observations (mgr_session m)" and "mgr_sent m = []"
  shows "manager_persisted row (manager_init par caps auth m)"
    and "pending_events (mgr_session (manager_init par caps auth m)) = []"
    and "session_id (mgr_session (manager_init par caps auth m)) = None"
    and "mgr_sent (manager_init par caps auth m) = []"
proof -
  let ?s = "(preload_persisted (load_snapshot_state row) (mgr_session m))\<lparr>pending_events := []\<rparr>"
  define m1 where "m1 = m\<lparr>mgr_session := ?s\<rparr>"
  have eq: "manager_init par caps auth m =
      (case auth of Some a \<Rightarrow> on_session (apply_advertised_auth_methods a) | None \<Rightarrow> id)
        ((case caps of Some c \<Rightarrow> on_session (apply_advertised_capabilities c) | None \<Rightarrow> id) m1)"
    using assms(2) normalized_snapshot_id [OF assms(1)]
    by (simp add: manager_init_def m1_def acp_drain_events_def Let_def split: option.split)
  have "manager_persisted row m1"
    using assms row_shows_preload [of "mgr_session m" row]
    by (simp add: m1_def manager_persisted_def row_shows_def)
  then show "manager_persisted row (manager_init par caps auth m)"
    by (auto simp: eq split: option.split intro!: manager_persisted_silent silently_kept)
  show "pending_events (mgr_session (manager_init par caps auth m)) = []"
    and "session_id (mgr_session (manager_init par caps auth m)) = None"
    and "mgr_sent (manager_init par caps auth m) = []"
    using assms(3,4)
    by (auto simp: eq m1_def fresh_observations_def apply_advertised_auth_methods_def
        apply_advertised_capabilities_def split: option.split)
qed

lemma persisted_restored:
  assumes "manager_persisted row m" and "pending_events (mgr_session m) = []"
    and "session_id (mgr_session m) = None" and "mgr_sent m = []" and "row_session_id row = Some sid"
  shows "manager_persisted row (restore_session_id sid m)"
  using assms
  by (simp add: restore_session_id_def set_session_id_def acp_drain_events_def manager_persisted_def row_shows_def)

lemma persisted_built:
  assumes "row_model_is_normal par row"
  shows "manager_persisted row (manager_built par caps auth row c)"
proof -
  let ?par = "par\<lparr>par_snapshot := Some (load_snapshot_state row)\<rparr>"
  have par: "row_model_is_normal ?par row" "par_snapshot ?par = Some (load_snapshot_state row)"
    and sent: "mgr_sent (manager_new ?par c) = []"
    using assms by (simp_all add: row_model_is_normal_def manager_new_def Let_def)
  note init = manager_init_shows [OF par fresh_manager_new sent]
  show ?thesis
    using init by (auto simp: manager_built_def Let_def split: option.split intro: persisted_restored)
qed

end
