(* ===== verification/Acp_Shape.thy ===== *)
theory Acp_Shape
  imports Acp_Reachable
begin

text \<open>
  The shape of a session in every reachable state: its maps have one value per key, no
  preference of the start is empty or kept twice, and what it shows as the agent's current
  mode and model is what was last observed.
\<close>

definition distinct_keys :: "('k, 'v) hash_map \<Rightarrow> bool" where
  "distinct_keys h \<longleftrightarrow> distinct (hm_keys h)"

definition shows_observed :: "acp_session \<Rightarrow> bool" where
  "shows_observed s \<longleftrightarrow>
     (case observed_mode s of None \<Rightarrow> True | Some i \<Rightarrow> map_option current_mode_id (adv_modes s) = Some i) \<and>
     (case observed_model s of None \<Rightarrow> True | Some i \<Rightarrow> map_option current_model_id (adv_models s) = Some i)"

definition session_well_formed :: "acp_session \<Rightarrow> bool" where
  "session_well_formed s \<longleftrightarrow>
     distinct_keys (desired_config s) \<and> distinct_keys (observed_config s) \<and>
     list_all (\<lambda>sd. seed_value sd \<noteq> [] \<and> seed_category sd \<in> {CatMode, CatModel, CatThoughtLevel})
       (pending_startup_config s) \<and>
     distinct (pending_startup_config s) \<and> shows_observed s"

definition stays_well_formed :: "acp_session \<Rightarrow> acp_session \<Rightarrow> bool" where
  "stays_well_formed s s' \<longleftrightarrow> (session_well_formed s \<longrightarrow> session_well_formed s')"

named_theorems shape_simps \<open>unfolding of the shape and of the operations that change it\<close>

lemma distinct_keys_insert [simp]: "distinct_keys h \<Longrightarrow> distinct_keys (hm_insert k v h)"
  by (simp add: distinct_keys_def)

lemma distinct_keys_observe: "distinct_keys (snd acc) \<Longrightarrow> distinct_keys (snd (observe_option acc opt))"
  by (auto simp: observe_option_def split: option.split)

lemma distinct_keys_observe_all: "distinct_keys (snd acc) \<Longrightarrow> distinct_keys (snd (foldl observe_option acc os))"
proof (induction os arbitrary: acc)
  case (Cons opt os)
  show ?case
    using Cons.IH [OF distinct_keys_observe [OF Cons.prems, of opt]] by simp
qed simp

lemma shows_observed_update [simp]:
  "shows_observed (s\<lparr>desired_config := c\<rparr>) = shows_observed s"
  "shows_observed (s\<lparr>desired_mode := d\<rparr>) = shows_observed s"
  "shows_observed (s\<lparr>desired_model := d\<rparr>) = shows_observed s"
  "shows_observed (s\<lparr>observed_config := c\<rparr>) = shows_observed s"
  "shows_observed (s\<lparr>pending_startup_config := ps\<rparr>) = shows_observed s"
  "shows_observed (s\<lparr>adv_config_options := os\<rparr>) = shows_observed s"
  "shows_observed (s\<lparr>adv_context_usage := u\<rparr>) = shows_observed s"
  "shows_observed (s\<lparr>pending_events := es\<rparr>) = shows_observed s"
  "shows_observed (s\<lparr>pending_model_notice := n\<rparr>) = shows_observed s"
  "shows_observed (s\<lparr>pending_session_new_prelude := b\<rparr>) = shows_observed s"
  "shows_observed (s\<lparr>session_id := sid\<rparr>) = shows_observed s"
  "shows_observed (s\<lparr>opened := b\<rparr>) = shows_observed s"
  "shows_observed (s\<lparr>last_close_reason := r\<rparr>) = shows_observed s"
  "shows_observed (s\<lparr>config_set_in_flight := b\<rparr>) = shows_observed s"
  "shows_observed (s\<lparr>adv_commands := cs\<rparr>) = shows_observed s"
  by (auto simp: shows_observed_def split: option.splits)

lemmas shape_defs [shape_simps] = stays_well_formed_def session_well_formed_def

lemma stays_refl: "stays_well_formed s s"
  by (simp add: stays_well_formed_def)

lemma stays_trans: "stays_well_formed s t \<Longrightarrow> stays_well_formed t u \<Longrightarrow> stays_well_formed s u"
  by (simp add: stays_well_formed_def)


section \<open>The operations keep it\<close>

lemma stays_fields:
  "desired_config s' = desired_config s \<Longrightarrow> observed_config s' = observed_config s \<Longrightarrow>
   pending_startup_config s' = pending_startup_config s \<Longrightarrow> shows_observed s' = shows_observed s \<Longrightarrow>
   stays_well_formed s s'"
  by (simp add: stays_well_formed_def session_well_formed_def)

lemma stays_observed_mode: "stays_well_formed s (apply_observed_mode i s)"
  by (auto simp: shape_simps apply_observed_mode_def shows_observed_def split: option.splits)

lemma stays_observed_model: "stays_well_formed s (apply_observed_model i s)"
  by (auto simp: shape_simps apply_observed_model_def shows_observed_def split: option.splits)

lemma stays_observed_config: "stays_well_formed s (apply_observed_config k v s)"
  by (simp add: shape_simps apply_observed_config_def Let_def)

lemma stays_modes: "stays_well_formed s (apply_advertised_modes ms s)"
  by (auto simp: shape_simps apply_advertised_modes_def shows_observed_def Let_def split: option.splits)

lemma stays_models: "stays_well_formed s (apply_advertised_models ms s)"
  by (auto simp: shape_simps apply_advertised_models_def shows_observed_def Let_def split: option.splits)

lemma stays_observe_options: "stays_well_formed s (observe_config_options os s)"
  using distinct_keys_observe_all [of "(False, observed_config s)" os]
  by (simp add: shape_simps observe_config_options_def split_def Let_def)

lemma stays_options: "stays_well_formed s (apply_advertised_config_options os s)"
  by (auto simp: apply_advertised_config_options_alt Let_def split: option.split
      intro: stays_observe_options stays_trans [OF stays_modes stays_observe_options]
        stays_trans [OF stays_models stays_observe_options]
        stays_trans [OF stays_modes stays_trans [OF stays_models stays_observe_options]])

lemma stays_desired_mode: "stays_well_formed s (s\<lparr>desired_mode := d\<rparr>)"
  by (rule stays_fields) (auto simp: shows_observed_def split: option.splits)

lemma stays_desired_model: "stays_well_formed s (s\<lparr>desired_model := d\<rparr>)"
  by (rule stays_fields) (auto simp: shows_observed_def split: option.splits)

lemma stays_option_value: "stays_well_formed s (update_advertised_config_option_value ids v s)"
  by (rule stays_fields) (auto simp: shows_observed_def update_advertised_config_option_value_def split: option.splits)

lemma stays_confirm_mode: "stays_well_formed s (confirm_mode i s)"
  unfolding confirm_mode_def by (rule stays_trans [OF stays_trans [OF stays_desired_mode stays_observed_mode] stays_option_value])

lemma stays_confirm_model: "stays_well_formed s (confirm_model i s)"
  unfolding confirm_model_def by (rule stays_trans [OF stays_trans [OF stays_desired_model stays_observed_model] stays_option_value])

lemma stays_set_desired_config: "stays_well_formed s (set_desired_config k v s)"
  by (simp add: shape_simps set_desired_config_def Let_def)

lemma stays_seed:
  "cat \<in> {CatMode, CatModel, CatThoughtLevel} \<Longrightarrow> stays_well_formed s (seed_pending_startup_config cat v s)"
  by (auto simp: shape_simps seed_pending_startup_config_def list_ex_iff split: option.splits)

lemma stays_clear_legacy: "stays_well_formed s (clear_legacy_desired cat s)"
  by (cases cat) (simp_all add: stays_refl stays_desired_mode stays_desired_model)

lemma stays_unresolved: "stays_well_formed s (handle_unresolved_seed sd b s)"
  by (auto simp: handle_unresolved_seed_def split: config_category.split
      intro: stays_refl stays_clear_legacy stays_seed simp del: clear_legacy_desired.simps)

lemma stays_resolve_seed: "stays_well_formed s (snd (resolve_seed n sd s))"
  by (auto simp: resolve_seed_def Let_def split: option.split simp del: clear_legacy_desired.simps
      intro: stays_unresolved stays_trans [OF stays_clear_legacy stays_set_desired_config])

lemma stays_resolve_seeds: "stays_well_formed s (snd (resolve_seeds n sds s))"
proof (induction sds arbitrary: s)
  case (Cons sd sds)
  then show ?case
    using stays_trans [OF stays_resolve_seed [of s n sd] Cons.IH] by (simp add: split_def Let_def)
qed (simp add: stays_refl)

lemma stays_clear_invalid:
  "stays_well_formed s (snd (clear_invalid_desired_mode s))" "stays_well_formed s (snd (clear_invalid_desired_model s))"
  by (auto simp: shape_simps clear_invalid_desired_mode_def clear_invalid_desired_model_def split: option.splits)

lemma stays_refresh: "stays_well_formed s (refresh_desired md s)"
proof -
  have "stays_well_formed s (s\<lparr>pending_startup_config := []\<rparr>)"
    by (auto simp: shape_simps split: option.splits)
  then show ?thesis
    unfolding refresh_desired_alt comp_def
    by (rule stays_trans [OF stays_trans [OF stays_trans [OF _ stays_resolve_seeds] stays_clear_invalid(1)] stays_clear_invalid(2)])
qed

lemmas stays_rules = stays_refl stays_observed_mode stays_observed_model stays_observed_config stays_modes
  stays_models stays_options stays_confirm_mode stays_confirm_model stays_set_desired_config stays_refresh

text \<open>The other operations touch none of these fields.\<close>

lemma stays_untouched:
  "stays_well_formed s (apply_context_usage u s)" "stays_well_formed s (set_session_id sid s)"
  "stays_well_formed s (mark_opened s)" "stays_well_formed s (mark_pending_session_new_prelude s)"
  "stays_well_formed s (snd (take_pending_session_new_prelude s))" "stays_well_formed s (clear_session_id s)"
  "stays_well_formed s (record_close_reason r s)" "stays_well_formed s (set_pending_model_notice i s)"
  "stays_well_formed s (snd (take_pending_model_notice s))" "stays_well_formed s (apply_advertised_commands cs s)"
  "stays_well_formed s (snd (try_begin_config_set s))" "stays_well_formed s (drop_config_set_guard s)"
  by (rule stays_fields;
      simp add: apply_context_usage_def set_session_id_def mark_opened_def mark_pending_session_new_prelude_def
        take_pending_session_new_prelude_def clear_session_id_def record_close_reason_def set_pending_model_notice_def
        take_pending_model_notice_def apply_advertised_commands_def try_begin_config_set_def drop_config_set_guard_def
        split: option.split)+

interpretation shaped: manager_law stays_well_formed stays_well_formed "\<lambda>m. session_well_formed (mgr_session m)"
proof unfold_locales
  fix m :: "'a acp_manager" and s :: acp_session
  assume "session_well_formed (mgr_session m)" and "stays_well_formed (mgr_session m) s"
  then show "session_well_formed (mgr_session (commit_session_changes (m\<lparr>mgr_session := s\<rparr>)))"
    and "session_well_formed (mgr_session (m\<lparr>mgr_session := s\<rparr>))"
    by (simp_all add: commit_session_changes_def acp_drain_events_def shape_simps)
qed (simp | rule stays_rules stays_untouched | erule stays_trans, assumption)+


section \<open>The start\<close>

lemma well_formed_seed_preference:
  "cat \<in> {CatMode, CatModel, CatThoughtLevel} \<Longrightarrow> session_well_formed s \<Longrightarrow>
   session_well_formed (seed_preference cfg cat v s)"
  using stays_seed by (auto simp: seed_preference_def stays_well_formed_def split: option.split)

lemma well_formed_catalogs:
  assumes "session_well_formed s" and "observed_mode s = None" and "observed_model s = None"
  shows "session_well_formed (preload_metadata_catalogs par s)"
  using assms
  by (auto simp: preload_metadata_catalogs_def preload_advertised_catalogs_def session_well_formed_def
      shows_observed_def Let_def split: option.splits)

lemma well_formed_manager_new:
  assumes "distinct_keys (initial_config_from_params par)"
  shows "session_well_formed (mgr_session (manager_new par c))"
  using assms
  by (simp add: manager_new_def seed_startup_config_preferences_def Let_def)
    (intro well_formed_seed_preference well_formed_catalogs,
     simp_all add: session_well_formed_def shows_observed_def acp_session_new_def distinct_keys_def)

lemma well_formed_preload:
  assumes "session_well_formed s" and "distinct_keys (ps_config p)"
  shows "session_well_formed (preload_persisted p s)"
  using assms
  by (auto simp: preload_persisted_def session_well_formed_def shows_observed_def Let_def split: option.splits)

lemma well_formed_update [simp]:
  "session_well_formed (s\<lparr>pending_events := es\<rparr>) = session_well_formed s"
  "session_well_formed (apply_advertised_capabilities cp s) = session_well_formed s"
  "session_well_formed (apply_advertised_auth_methods am s) = session_well_formed s"
  by (auto simp: session_well_formed_def shows_observed_def apply_advertised_capabilities_def
      apply_advertised_auth_methods_def split: option.splits)

lemma well_formed_built:
  assumes "case row_config row of None \<Rightarrow> True | Some c \<Rightarrow> distinct_keys c"
  shows "session_well_formed (mgr_session (manager_built par caps auth row c))"
proof -
  let ?p = "load_snapshot_state row"
  let ?par = "par\<lparr>par_snapshot := Some ?p\<rparr>"
  have config: "distinct_keys (ps_config ?p)"
    using assms by (auto simp: load_snapshot_state_def distinct_keys_def split: option.splits)
  then have new: "session_well_formed (mgr_session (manager_new ?par c))"
    by (intro well_formed_manager_new) (simp add: initial_config_from_params_def)
  have "distinct_keys (ps_config (normalized_snapshot ?par ?p))"
    using config by (simp add: normalized_snapshot_def)
  from well_formed_preload [OF new this]
  have "session_well_formed (mgr_session (manager_init ?par caps auth (manager_new ?par c)))"
    by (auto simp: manager_init_def acp_drain_events_def Let_def split: option.split)
  then show ?thesis
    using stays_untouched(2)
    by (auto simp: manager_built_def restore_session_id_def acp_drain_events_def Let_def stays_well_formed_def
        split: option.split)
qed

end
