(* ===== verification/Acp_Progress.thy ===== *)
theory Acp_Progress
  imports Acp_Observed
begin

text \<open>
  When reconciling ends. An agent is truthful if it keeps the value an option was set to until
  the option is set again, and reports no other values, at least for the option just set. For
  such an agent a settled option (wanted, observed, kept and advertised with the same value)
  stays settled, which makes the loop end although it appends the whole plan to its queue
  after every option.
\<close>

section \<open>Truthful agents\<close>

definition reports_truly :: "(string \<Rightarrow> string option) \<Rightarrow> config_option list \<Rightarrow> bool" where
  "reports_truly v os \<longleftrightarrow>
     distinct (map co_id os) \<and>
     (\<forall>opt \<in> set os. \<forall>x \<in> set_option (extract_config_current_value (co_kind opt)). v (co_id opt) = Some x)"

fun truthful_notification :: "(string \<Rightarrow> string option) \<Rightarrow> acp_notification \<Rightarrow> bool" where
  "truthful_notification v (NotifyConfigOptions os) = reports_truly v os"
| "truthful_notification v _ = True"

definition truthful_agent :: "'c acp_agent \<Rightarrow> string \<Rightarrow> ('c \<Rightarrow> string \<Rightarrow> string option) \<Rightarrow> bool" where
  "truthful_agent ag sid cur \<longleftrightarrow>
     (\<forall>i c r ns c'. call_set_mode ag sid i c = (r, ns, c') \<longrightarrow>
        cur c' = cur c \<and> (\<forall>n \<in> set ns. truthful_notification (cur c') n)) \<and>
     (\<forall>i c r ns c'. call_set_model ag sid i c = (r, ns, c') \<longrightarrow>
        cur c' = cur c \<and> (\<forall>n \<in> set ns. truthful_notification (cur c') n)) \<and>
     (\<forall>k v c r ns c'. call_set_config_option ag sid k v c = (r, ns, c') \<longrightarrow>
        (\<forall>n \<in> set ns. truthful_notification (cur c') n) \<and>
        (case r of
           Inl _ \<Rightarrow> cur c' = cur c
         | Inr os \<Rightarrow> cur c' = (cur c)(k \<mapsto> v) \<and> reports_truly (cur c') os \<and> k \<in> co_id ` set os))"

text \<open>A value that is sent as it is, whatever modes are offered.\<close>

definition stable_value :: "agent_metadata \<Rightarrow> string \<Rightarrow> string \<Rightarrow> bool" where
  "stable_value md k v \<longleftrightarrow>
     (if k = ''mode''
      then normalize_requested_mode md v = v \<and> \<not> (is_codex md \<and> is_codex_full_access_semantic_value (str_trim v))
      else str_trim v = v)"

lemma resolve_stable_value: "stable_value md k v \<Longrightarrow> resolve_config_value md s k v = v"
  by (auto simp: stable_value_def resolve_config_value_def resolve_mode_for_def
      normalize_for_available_values_def Let_def split: if_splits)


section \<open>Settled options\<close>

definition advertised_as :: "acp_session \<Rightarrow> string \<Rightarrow> string \<Rightarrow> bool" where
  "advertised_as s k v \<longleftrightarrow>
     (\<forall>os \<in> set_option (adv_config_options s). \<forall>opt \<in> set os. co_id opt = k \<longrightarrow>
        extract_config_current_value (co_kind opt) \<in> {None, Some v})"

definition settled :: "('c \<Rightarrow> string \<Rightarrow> string option) \<Rightarrow> 'c acp_manager \<Rightarrow> string \<Rightarrow> bool" where
  "settled cur m k \<longleftrightarrow>
     (\<exists>v. map_of (desired_config (mgr_session m)) k = Some v \<and>
       map_of (observed_config (mgr_session m)) k = Some v \<and>
       cur (mgr_agent m) k = Some v \<and> advertised_as (mgr_session m) k v)"

text \<open>What the loop relies on: distinct keys, no pending preferences, and only values that are
  sent as they are.\<close>

definition plannable :: "agent_metadata \<Rightarrow> acp_session \<Rightarrow> bool" where
  "plannable md s \<longleftrightarrow>
     distinct (hm_keys (desired_config s)) \<and> pending_startup_config s = [] \<and>
     (\<forall>(k, v) \<in> set (desired_config s). stable_value md k v) \<and>
     (\<forall>os \<in> set_option (adv_config_options s). distinct (map co_id os))"

definition reconcile_advances ::
  "agent_metadata \<Rightarrow> ('c \<Rightarrow> string \<Rightarrow> string option) \<Rightarrow> 'c acp_manager \<Rightarrow> 'c acp_manager \<Rightarrow> bool" where
  "reconcile_advances md cur m m' \<longleftrightarrow>
     (plannable md (mgr_session m) \<longrightarrow>
       plannable md (mgr_session m') \<and>
       desired_config (mgr_session m') = desired_config (mgr_session m) \<and>
       (\<forall>k. settled cur m k \<longrightarrow> settled cur m' k))"

lemma reconcile_advances_refl: "reconcile_advances md cur m m"
  by (simp add: reconcile_advances_def)

lemma reconcile_advances_trans: "reconcile_advances md cur m m' \<Longrightarrow> reconcile_advances md cur m' m'' \<Longrightarrow> reconcile_advances md cur m m''"
  by (auto simp: reconcile_advances_def)

text \<open>Changes that leave the config alone.\<close>

definition same_config :: "acp_session \<Rightarrow> acp_session \<Rightarrow> bool" where
  "same_config s s' \<longleftrightarrow>
     desired_config s' = desired_config s \<and> observed_config s' = observed_config s \<and>
     adv_config_options s' = adv_config_options s \<and> pending_startup_config s' = pending_startup_config s"

lemma advances_same_config:
  assumes "same_config (mgr_session m) (mgr_session m')" and "cur (mgr_agent m') = cur (mgr_agent m)"
  shows "reconcile_advances md cur m m'"
  using assms by (simp add: reconcile_advances_def same_config_def plannable_def settled_def advertised_as_def)

lemma same_config_operations:
  "same_config s (apply_observed_mode i s)" "same_config s (apply_observed_model i s)"
  "same_config s (apply_advertised_modes ms s)" "same_config s (apply_advertised_models ml s)"
  "same_config s (apply_context_usage u s)" "same_config s (apply_advertised_commands cs s)"
  "same_config s (set_pending_model_notice i s)" "same_config s (s\<lparr>pending_events := es\<rparr>)"
  by (simp_all add: same_config_def apply_observed_mode_def apply_observed_model_def
      apply_advertised_modes_def apply_advertised_models_def apply_context_usage_def
      apply_advertised_commands_def set_pending_model_notice_def Let_def)

lemma same_config_refresh: "pending_startup_config s = [] \<Longrightarrow> same_config s (refresh_desired md s)"
  by (auto simp: refresh_desired_def resolve_pending_startup_config_seeds_def same_config_def
      clear_invalid_desired_mode_def clear_invalid_desired_model_def split: option.split)

lemma advances_commit: "reconcile_advances md cur m (commit_session_changes m)"
  by (rule advances_same_config)
    (simp_all add: commit_session_changes_def acp_drain_events_def same_config_def)


section \<open>Reports and observations\<close>

lemma merge_option_elements:
  "distinct (map co_id es) \<Longrightarrow> x \<in> set (merge_option es opt) \<Longrightarrow> x = opt \<or> (x \<in> set es \<and> co_id x \<noteq> co_id opt)"
  by (induction es) (auto split: if_splits intro: rev_image_eqI)

lemma merge_option_ids: "set (map co_id (merge_option es opt)) = insert (co_id opt) (set (map co_id es))"
  by (induction es) auto

lemma distinct_merge_option: "distinct (map co_id es) \<Longrightarrow> distinct (map co_id (merge_option es opt))"
proof (induction es)
  case (Cons e es)
  then show ?case
    using merge_option_ids [of es opt] by auto
qed simp

lemma distinct_merge_fold: "distinct (map co_id es) \<Longrightarrow> distinct (map co_id (foldl merge_option es os))"
  by (induction os arbitrary: es) (auto simp: distinct_merge_option)

lemma merge_fold_elements:
  "distinct (map co_id es) \<Longrightarrow> x \<in> set (foldl merge_option es os) \<Longrightarrow>
   x \<in> set os \<or> (x \<in> set es \<and> co_id x \<notin> co_id ` set os)"
proof (induction os arbitrary: es)
  case (Cons opt os)
  then show ?case
    using merge_option_elements [of es x opt] distinct_merge_option [of es opt]
    by fastforce
qed simp

lemma merge_config_elements:
  assumes "\<forall>es \<in> set_option old. distinct (map co_id es)" and "x \<in> set (merge_config_options old os)"
  shows "x \<in> set os \<or> (\<exists>es. old = Some es \<and> x \<in> set es \<and> co_id x \<notin> co_id ` set os)"
  using assms by (auto simp: merge_config_options_def dest: merge_fold_elements split: option.splits)

lemma distinct_merge_config:
  "\<forall>es \<in> set_option old. distinct (map co_id es) \<Longrightarrow> distinct (map co_id os) \<Longrightarrow>
   distinct (map co_id (merge_config_options old os))"
  by (auto simp: merge_config_options_def distinct_merge_fold split: option.split)

lemma observe_options_keeps:
  assumes "\<forall>opt \<in> set os. co_id opt = k \<longrightarrow> extract_config_current_value (co_kind opt) \<in> {None, Some v}"
    and "map_of sel k = Some v"
  shows "map_of (snd (foldl observe_option (c, sel) os)) k = Some v"
  using assms
proof (induction os arbitrary: c sel)
  case (Cons opt os)
  then show ?case
    by (cases "extract_config_current_value (co_kind opt)") (auto simp: observe_option_cases)
qed simp

lemma config_options_fields:
  fixes s :: acp_session and os :: "config_option list"
  defines "s' \<equiv> apply_advertised_config_options os s"
  shows "adv_config_options s' = Some (merge_config_options (adv_config_options s) os)"
    and "observed_config s' =
      snd (foldl observe_option (False, observed_config s) (merge_config_options (adv_config_options s) os))"
    and "desired_config s' = desired_config s" and "pending_startup_config s' = pending_startup_config s"
  unfolding s'_def
  by (auto simp: apply_advertised_config_options_def Let_def apply_advertised_modes_def
      apply_advertised_models_def split_def split: option.split)

text \<open>A report that is true of the agent keeps what is settled.\<close>

lemma advances_report:
  assumes true: "reports_truly (cur (mgr_agent m)) os"
  shows "reconcile_advances md cur m (on_session (apply_advertised_config_options os) m)" (is "reconcile_advances md cur m ?m")
proof -
  let ?s = "mgr_session m"
  have "plannable md (mgr_session ?m) \<and> (\<forall>k. settled cur m k \<longrightarrow> settled cur ?m k)" if pl: "plannable md ?s"
  proof
    have dist: "\<forall>es \<in> set_option (adv_config_options ?s). distinct (map co_id es)"
      using pl by (simp add: plannable_def)
    show "plannable md (mgr_session ?m)"
      using pl true distinct_merge_config [OF dist, of os]
      by (auto simp: plannable_def config_options_fields reports_truly_def)
    show "\<forall>k. settled cur m k \<longrightarrow> settled cur ?m k"
    proof (intro allI impI)
      fix k
      assume "settled cur m k"
      then obtain v where v: "map_of (desired_config ?s) k = Some v" "map_of (observed_config ?s) k = Some v"
        "cur (mgr_agent m) k = Some v" "advertised_as ?s k v"
        by (auto simp: settled_def)
      have "extract_config_current_value (co_kind opt) \<in> {None, Some v}"
        if "opt \<in> set (merge_config_options (adv_config_options ?s) os)" "co_id opt = k" for opt
        using merge_config_elements [OF dist that(1)]
      proof
        assume "opt \<in> set os"
        then show ?thesis
          using that(2) true v(3)
          by (cases "extract_config_current_value (co_kind opt)") (auto simp: reports_truly_def)
      next
        assume "\<exists>es. adv_config_options ?s = Some es \<and> opt \<in> set es \<and> co_id opt \<notin> co_id ` set os"
        then show ?thesis
          using that(2) v(4) unfolding advertised_as_def by fastforce
      qed
      then show "settled cur ?m k"
        using v observe_options_keeps
          [of "merge_config_options (adv_config_options ?s) os" k v "observed_config ?s" False]
        by (auto simp: settled_def config_options_fields advertised_as_def)
    qed
  qed
  then show ?thesis
    by (simp add: reconcile_advances_def config_options_fields)
qed

lemma advances_notification:
  assumes "truthful_notification (cur (mgr_agent m)) n"
  shows "reconcile_advances md cur m (apply_notification n m)"
proof (cases n)
  case (NotifyConfigOptions os)
  then show ?thesis
    using assms reconcile_advances_trans [OF advances_report [of cur m os md] advances_commit]
    by (simp add: apply_notification_def)
qed (auto simp: apply_notification_def
  intro!: reconcile_advances_trans [OF advances_same_config advances_commit] reconcile_advances_refl same_config_operations)

lemma agent_notification [simp]: "mgr_agent (apply_notification n m) = mgr_agent m"
  by (cases n) (simp_all add: apply_notification_def commit_session_changes_def split_def Let_def)

lemma agent_notifications [simp]: "mgr_agent (fold apply_notification ns m) = mgr_agent m"
  by (induction ns arbitrary: m) simp_all

lemma advances_notifications:
  "\<forall>n \<in> set ns. truthful_notification (cur (mgr_agent m)) n \<Longrightarrow>
   reconcile_advances md cur m (fold apply_notification ns m)"
proof (induction ns arbitrary: m)
  case (Cons n ns)
  have "reconcile_advances md cur m (apply_notification n m)"
    using Cons.prems by (simp add: advances_notification)
  moreover have "reconcile_advances md cur (apply_notification n m) (fold apply_notification ns (apply_notification n m))"
    using Cons.prems by (intro Cons.IH) simp
  ultimately show ?case
    by (auto intro: reconcile_advances_trans)
qed (simp add: reconcile_advances_refl)


section \<open>One action\<close>

lemma advances_call_mode:
  assumes "truthful_agent ag sid cur" and "call_agent (call_set_mode ag sid i) m = (a, m')"
  shows "reconcile_advances md cur m m'"
proof -
  obtain r ns c' where call: "call_set_mode ag sid i (mgr_agent m) = (r, ns, c')"
    by (metis prod_cases3)
  then have "cur c' = cur (mgr_agent m)" and "\<forall>n \<in> set ns. truthful_notification (cur c') n"
    using assms(1) unfolding truthful_agent_def by blast+
  then have "reconcile_advances md cur m (m\<lparr>mgr_agent := c'\<rparr>)"
    and "reconcile_advances md cur (m\<lparr>mgr_agent := c'\<rparr>) (fold apply_notification ns (m\<lparr>mgr_agent := c'\<rparr>))"
    by (auto intro!: advances_same_config advances_notifications simp: same_config_def)
  then show ?thesis
    using assms(2) call by (auto simp: call_agent_def intro: reconcile_advances_trans)
qed

lemma advances_call_model:
  assumes "truthful_agent ag sid cur" and "call_agent (call_set_model ag sid i) m = (a, m')"
  shows "reconcile_advances md cur m m'"
proof -
  obtain r ns c' where call: "call_set_model ag sid i (mgr_agent m) = (r, ns, c')"
    by (metis prod_cases3)
  then have "cur c' = cur (mgr_agent m)" and "\<forall>n \<in> set ns. truthful_notification (cur c') n"
    using assms(1) unfolding truthful_agent_def by blast+
  then have "reconcile_advances md cur m (m\<lparr>mgr_agent := c'\<rparr>)"
    and "reconcile_advances md cur (m\<lparr>mgr_agent := c'\<rparr>) (fold apply_notification ns (m\<lparr>mgr_agent := c'\<rparr>))"
    by (auto intro!: advances_same_config advances_notifications simp: same_config_def)
  then show ?thesis
    using assms(2) call by (auto simp: call_agent_def intro: reconcile_advances_trans)
qed

lemma advances_set_mode:
  assumes "truthful_agent ag sid cur" and "reconcile_set_mode ag md sid i m = (Inr fs, m')"
  shows "reconcile_advances md cur m m' \<and> fs = []"
  using assms(2)
  by (auto simp: reconcile_set_mode_def Let_def intro: reconcile_advances_refl same_config_operations
      split: if_splits prod.splits sum.splits dest!: advances_call_mode [OF assms(1), where md = md]
      intro!: reconcile_advances_trans [OF _ reconcile_advances_trans [OF advances_same_config advances_commit]])

lemma same_config_notice: "same_config s (set_pending_model_notice j (apply_observed_model i s))"
  by (simp add: same_config_def set_pending_model_notice_def apply_observed_model_def)

lemma advances_set_model:
  assumes "truthful_agent ag sid cur" and "reconcile_set_model ag md sid i m = (Inr fs, m')"
  shows "reconcile_advances md cur m m' \<and> fs = []"
  using assms(2)
  by (auto simp: reconcile_set_model_def intro: same_config_operations same_config_notice
      split: if_splits prod.splits sum.splits dest!: advances_call_model [OF assms(1), where md = md]
      intro!: reconcile_advances_trans [OF _ reconcile_advances_trans [OF advances_same_config advances_commit]])

lemma advances_call_config:
  assumes "truthful_agent ag sid cur" and "call_agent (call_set_config_option ag sid k v) m = (a, m')"
    and desired: "map_of (desired_config (mgr_session m)) k = Some v"
  shows "reconcile_advances md cur m m'"
    and "a = Inr os \<Longrightarrow> cur (mgr_agent m') k = Some v \<and> reports_truly (cur (mgr_agent m')) os \<and> k \<in> co_id ` set os"
proof -
  obtain r ns c' where call: "call_set_config_option ag sid k v (mgr_agent m) = (r, ns, c')"
    by (metis prod_cases3)
  have ns: "\<forall>n \<in> set ns. truthful_notification (cur c') n"
    and refused: "\<And>e. r = Inl e \<Longrightarrow> cur c' = cur (mgr_agent m)"
    and taken: "\<And>os. r = Inr os \<Longrightarrow>
       cur c' = (cur (mgr_agent m))(k \<mapsto> v) \<and> reports_truly (cur c') os \<and> k \<in> co_id ` set os"
    using assms(1) call unfolding truthful_agent_def by fastforce+
  have "cur c' j = Some w" if "cur (mgr_agent m) j = Some w"
    "map_of (desired_config (mgr_session m)) j = Some w" for j w
    using that desired refused taken by (cases r) auto
  then have "reconcile_advances md cur m (m\<lparr>mgr_agent := c'\<rparr>)"
    by (auto simp: reconcile_advances_def settled_def)
  moreover have "reconcile_advances md cur (m\<lparr>mgr_agent := c'\<rparr>) (fold apply_notification ns (m\<lparr>mgr_agent := c'\<rparr>))"
    using ns by (intro advances_notifications) simp
  moreover have res: "a = r" "m' = fold apply_notification ns (m\<lparr>mgr_agent := c'\<rparr>)"
    using assms(2) call by (auto simp: call_agent_def)
  ultimately show "reconcile_advances md cur m m'"
    by (auto intro: reconcile_advances_trans)
  show "a = Inr os \<Longrightarrow> cur (mgr_agent m') k = Some v \<and> reports_truly (cur (mgr_agent m')) os \<and> k \<in> co_id ` set os"
  proof -
    assume "a = Inr os"
    then have "r = Inr os"
      using res(1) by simp
    note taken [OF this]
    then have "cur c' = (cur (mgr_agent m))(k \<mapsto> v)" and "reports_truly (cur c') os" and "k \<in> co_id ` set os"
      by blast+
    moreover have "mgr_agent m' = c'"
      by (simp add: res(2))
    moreover have "cur c' k = Some v"
      by (simp add: calculation(1))
    ultimately show ?thesis
      by blast
  qed
qed

lemma advances_observed_config:
  assumes "map_of (desired_config (mgr_session m)) k = Some v"
  shows "reconcile_advances md cur m (on_session (apply_observed_config k v) m)"
  using assms
  by (auto simp: reconcile_advances_def plannable_def settled_def advertised_as_def apply_observed_config_def Let_def)

lemma plan_config_iff:
  "SetConfigOption k v \<in> set (plan_reconcile s) \<longleftrightarrow>
     (k, v) \<in> set (desired_config s) \<and> map_of (observed_config s) k \<noteq> Some v"
  by (auto simp: plan_reconcile_def)

lemma plannable_desired: "plannable md s \<Longrightarrow> (k, v) \<in> set (desired_config s) \<longleftrightarrow> map_of (desired_config s) k = Some v"
  by (auto simp: plannable_def map_of_eq_Some_iff)

lemma plan_is_desired:
  "plannable md (mgr_session m) \<Longrightarrow> SetConfigOption k v \<in> set (plan_reconcile (mgr_session m)) \<Longrightarrow>
   map_of (desired_config (mgr_session m)) k = Some v \<and> \<not> settled cur m k"
  by (auto simp: plan_config_iff settled_def plannable_desired)

lemma refused_config:
  assumes "reconcile_set_config_option ag md sid k v m = (Inr fs, m')"
    and "resolve_config_value md (mgr_session m) k v = v"
  obtains e where "call_agent (call_set_config_option ag sid k v) m = (Inl e, m')" and "fs = []"
  | os m2 where "call_agent (call_set_config_option ag sid k v) m = (Inr os, m2)"
    and "fs = filter (\<lambda>a. a \<noteq> SetConfigOption k v)
      (plan_reconcile (refresh_desired md (apply_advertised_config_options os (mgr_session m2))))"
    and "m' = commit_session_changes (on_session (apply_observed_config k v)
      (commit_session_changes (on_session (\<lambda>s. refresh_desired md (apply_advertised_config_options os s)) m2)))"
proof -
  obtain a m2 where call: "call_agent (call_set_config_option ag sid k v) m = (a, m2)"
    by fastforce
  show thesis
  proof (cases a)
    case (Inl e)
    then show thesis
      using assms call that(1) by (auto simp: reconcile_set_config_option_def Let_def split: if_splits)
  next
    case (Inr os)
    then show thesis
      using assms call that(2) by (auto simp: reconcile_set_config_option_def Let_def)
  qed
qed

lemma settled_after_option:
  assumes "plannable md (mgr_session m)" and "map_of (desired_config (mgr_session m)) k = Some v"
    and "cur (mgr_agent m) k = Some v" and "reports_truly (cur (mgr_agent m)) os" and "k \<in> co_id ` set os"
  shows "settled cur (on_session (apply_observed_config k v) (on_session (apply_advertised_config_options os) m)) k"
proof -
  let ?s = "mgr_session m"
  have dist: "\<forall>es \<in> set_option (adv_config_options ?s). distinct (map co_id es)"
    using assms(1) by (simp add: plannable_def)
  have "extract_config_current_value (co_kind opt) \<in> {None, Some v}"
    if "opt \<in> set (merge_config_options (adv_config_options ?s) os)" "co_id opt = k" for opt
    using merge_config_elements [OF dist that(1)] that(2) assms(3,4,5)
    by (cases "extract_config_current_value (co_kind opt)") (auto simp: reports_truly_def)
  then show ?thesis
    using assms(2,3)
    by (auto simp: settled_def advertised_as_def apply_observed_config_def config_options_fields Let_def)
qed


text \<open>An option that the agent accepts is settled, and only unsettled ones are planned again.\<close>

lemma advances_set_config:
  assumes "truthful_agent ag sid cur" and pl: "plannable md (mgr_session m)"
    and desired: "map_of (desired_config (mgr_session m)) k = Some v"
    and res: "reconcile_set_config_option ag md sid k v m = (Inr fs, m')"
  shows "reconcile_advances md cur m m'"
    and "fs = [] \<or> settled cur m' k \<and>
      (\<forall>j w. SetConfigOption j w \<in> set fs \<longrightarrow>
        map_of (desired_config (mgr_session m)) j = Some w \<and> \<not> settled cur m j)"
proof -
  have "stable_value md k v"
    using pl desired by (auto simp: plannable_def dest: map_of_SomeD)
  then have "resolve_config_value md (mgr_session m) k v = v"
    by (rule resolve_stable_value)
  then consider e where "call_agent (call_set_config_option ag sid k v) m = (Inl e, m')" and "fs = []"
    | os m2 where "call_agent (call_set_config_option ag sid k v) m = (Inr os, m2)"
      and "fs = filter (\<lambda>a. a \<noteq> SetConfigOption k v)
        (plan_reconcile (refresh_desired md (apply_advertised_config_options os (mgr_session m2))))"
      and "m' = commit_session_changes (on_session (apply_observed_config k v)
        (commit_session_changes (on_session (\<lambda>s. refresh_desired md (apply_advertised_config_options os s)) m2)))"
    by (rule refused_config [OF res]) blast+
  then have "reconcile_advances md cur m m' \<and> (fs = [] \<or> settled cur m' k \<and>
      (\<forall>j w. SetConfigOption j w \<in> set fs \<longrightarrow>
        map_of (desired_config (mgr_session m)) j = Some w \<and> \<not> settled cur m j))"
  proof cases
    case 1
    then show ?thesis
      using advances_call_config(1) [OF assms(1) 1(1) desired] by simp
  next
    case (2 os m2)
    note call = advances_call_config [OF assms(1) 2(1) desired]
    let ?m3 = "on_session (apply_advertised_config_options os) m2"
    let ?m4 = "on_session (refresh_desired md) ?m3"
    let ?m5 = "on_session (apply_observed_config k v) (commit_session_changes ?m4)"
    have cur: "cur (mgr_agent m2) k = Some v" "reports_truly (cur (mgr_agent m2)) os" "k \<in> co_id ` set os"
      using call(2) by blast+
    have a2: "reconcile_advances md cur m m2"
      by (rule call(1))
    then have a3: "reconcile_advances md cur m ?m3"
      by (rule reconcile_advances_trans) (rule advances_report, rule cur(2))
    have pl2: "plannable md (mgr_session m2)" "desired_config (mgr_session m2) = desired_config (mgr_session m)"
      and pl3: "plannable md (mgr_session ?m3)"
      using a2 a3 pl by (simp_all add: reconcile_advances_def)
    then have same: "same_config (mgr_session ?m3) (mgr_session ?m4)"
      by (simp add: plannable_def same_config_refresh)
    then have "reconcile_advances md cur ?m3 ?m4"
      by (intro advances_same_config) simp_all
    then have a4: "reconcile_advances md cur m ?m4"
      using a3 by (rule reconcile_advances_trans [rotated])
    then have pl4: "plannable md (mgr_session ?m4)" "desired_config (mgr_session ?m4) = desired_config (mgr_session m)"
      using pl by (simp_all add: reconcile_advances_def)
    have a5: "reconcile_advances md cur m ?m5"
      using pl4(2) desired
      by (intro reconcile_advances_trans [OF a4 reconcile_advances_trans [OF advances_commit advances_observed_config]])
        (simp add: commit_session_changes_def acp_drain_events_def)
    have m': "m' = commit_session_changes ?m5"
      using 2(3) by simp
    have "settled cur m' k"
    proof -
      have "settled cur (on_session (apply_observed_config k v) ?m3) k"
        using pl2 desired cur by (intro settled_after_option) simp_all
      then show ?thesis
        using same
        by (simp add: m' settled_def same_config_def commit_session_changes_def acp_drain_events_def
            apply_observed_config_def advertised_as_def Let_def)
    qed
    moreover have "map_of (desired_config (mgr_session m)) j = Some w \<and> \<not> settled cur m j"
      if "SetConfigOption j w \<in> set fs" for j w
    proof -
      have "SetConfigOption j w \<in> set (plan_reconcile (mgr_session ?m4))"
        using that 2(2) by simp
      then have "map_of (desired_config (mgr_session ?m4)) j = Some w" and "\<not> settled cur ?m4 j"
        using plan_is_desired [OF pl4(1)] by blast+
      then show ?thesis
        using a4 pl pl4(2) by (auto simp: reconcile_advances_def)
    qed
    moreover have "reconcile_advances md cur m m'"
      unfolding m' using a5 advances_commit by (rule reconcile_advances_trans)
    ultimately show ?thesis
      by blast
  qed
  then show "reconcile_advances md cur m m'"
    and "fs = [] \<or> settled cur m' k \<and>
      (\<forall>j w. SetConfigOption j w \<in> set fs \<longrightarrow>
        map_of (desired_config (mgr_session m)) j = Some w \<and> \<not> settled cur m j)"
    by blast+
qed


section \<open>The loop ends\<close>

definition unsettled :: "('c \<Rightarrow> string \<Rightarrow> string option) \<Rightarrow> 'c acp_manager \<Rightarrow> string set" where
  "unsettled cur m = {k \<in> fst ` set (desired_config (mgr_session m)). \<not> settled cur m k}"

fun settled_action :: "('c \<Rightarrow> string \<Rightarrow> string option) \<Rightarrow> 'c acp_manager \<Rightarrow> reconcile_action \<Rightarrow> bool" where
  "settled_action cur m (SetConfigOption k v) = settled cur m k"
| "settled_action cur m _ = False"

definition queue_is_desired :: "reconcile_action list \<Rightarrow> acp_session \<Rightarrow> bool" where
  "queue_is_desired queue s \<longleftrightarrow>
     (\<forall>k v. SetConfigOption k v \<in> set queue \<longrightarrow> map_of (desired_config s) k = Some v)"

lemma finite_unsettled [simp]: "finite (unsettled cur m)"
  by (simp add: unsettled_def)

lemma unsettled_advances:
  "reconcile_advances md cur m m' \<Longrightarrow> plannable md (mgr_session m) \<Longrightarrow> unsettled cur m' \<subseteq> unsettled cur m"
  by (auto simp: reconcile_advances_def unsettled_def)

lemma step_progress:
  assumes "truthful_agent ag sid cur" and pl: "plannable md (mgr_session m)"
    and q: "queue_is_desired (a # rest) (mgr_session m)"
    and res: "reconcile_step ag md sid a m = (Inr fs, m')"
  shows "plannable md (mgr_session m')" and "queue_is_desired (rest @ fs) (mgr_session m')"
    and "((rest @ fs, m'), (a # rest, m)) \<in> measures
      [\<lambda>(q, m). card (unsettled cur m), \<lambda>(q, m). length (filter (settled_action cur m) q), \<lambda>(q, m). length q]"
proof -
  have "reconcile_advances md cur m m' \<and> (fs = [] \<or>
      (\<exists>k v. a = SetConfigOption k v \<and> map_of (desired_config (mgr_session m)) k = Some v
        \<and> settled cur m' k \<and> (\<forall>j w. SetConfigOption j w \<in> set fs \<longrightarrow>
          map_of (desired_config (mgr_session m)) j = Some w \<and> \<not> settled cur m j)))"
  proof (cases a)
    case (SetMode i)
    then show ?thesis
      using res advances_set_mode [OF assms(1)] by simp
  next
    case (SetModel i)
    then show ?thesis
      using res advances_set_model [OF assms(1)] by simp
  next
    case (SetConfigOption k v)
    have desired: "map_of (desired_config (mgr_session m)) k = Some v"
      using q SetConfigOption by (simp add: queue_is_desired_def)
    have "reconcile_set_config_option ag md sid k v m = (Inr fs, m')"
      using res SetConfigOption by simp
    from advances_set_config [OF assms(1) pl desired this] show ?thesis
      using SetConfigOption desired by blast
  qed
  then have adv: "reconcile_advances md cur m m'" and
    more: "fs = [] \<or> (\<exists>k v. a = SetConfigOption k v \<and> map_of (desired_config (mgr_session m)) k = Some v
      \<and> settled cur m' k \<and> (\<forall>j w. SetConfigOption j w \<in> set fs \<longrightarrow>
        map_of (desired_config (mgr_session m)) j = Some w \<and> \<not> settled cur m j))"
    by blast+
  then show "plannable md (mgr_session m')" and "queue_is_desired (rest @ fs) (mgr_session m')"
    using pl q by (auto simp: reconcile_advances_def queue_is_desired_def)
  have sub: "unsettled cur m' \<subseteq> unsettled cur m"
    by (rule unsettled_advances [OF adv pl])
  show "((rest @ fs, m'), (a # rest, m)) \<in> measures
      [\<lambda>(q, m). card (unsettled cur m), \<lambda>(q, m). length (filter (settled_action cur m) q), \<lambda>(q, m). length q]"
  proof (cases "unsettled cur m' = unsettled cur m")
    case False
    then have "card (unsettled cur m') < card (unsettled cur m)"
      using sub by (intro psubset_card_mono) auto
    then show ?thesis by simp
  next
    case True
    have dom: "fst ` set (desired_config (mgr_session m)) = {k. map_of (desired_config (mgr_session m)) k \<noteq> None}"
      by (auto simp: map_of_eq_None_iff)
    have same: "settled cur m' k \<longleftrightarrow> settled cur m k"
      if "map_of (desired_config (mgr_session m)) k = Some v" for k v
      using True that adv pl by (auto simp: unsettled_def reconcile_advances_def dom)
    have rest: "filter (settled_action cur m') rest = filter (settled_action cur m) rest"
    proof (rule filter_cong [OF refl])
      fix b
      assume "b \<in> set rest"
      then show "settled_action cur m' b = settled_action cur m b"
        using q same by (cases b rule: reconcile_action.exhaust) (auto simp: queue_is_desired_def)
    qed
    show ?thesis
      using more
    proof
      assume "fs = []"
      then show ?thesis
        using True rest by (cases "settled_action cur m a") simp_all
    next
      assume "\<exists>k v. a = SetConfigOption k v \<and> map_of (desired_config (mgr_session m)) k = Some v
        \<and> settled cur m' k \<and> (\<forall>j w. SetConfigOption j w \<in> set fs \<longrightarrow>
          map_of (desired_config (mgr_session m)) j = Some w \<and> \<not> settled cur m j)"
      then obtain k v where a: "a = SetConfigOption k v" "settled_action cur m a"
        and fs: "\<And>j w. SetConfigOption j w \<in> set fs \<Longrightarrow>
          map_of (desired_config (mgr_session m)) j = Some w \<and> \<not> settled cur m j"
        using same by auto
      have "filter (settled_action cur m') fs = []"
        unfolding filter_empty_conv
      proof
        fix b
        assume "b \<in> set fs"
        then show "\<not> settled_action cur m' b"
          using fs same by (cases b rule: reconcile_action.exhaust) auto
      qed
      then show ?thesis
        using True rest a by simp
    qed
  qed
qed

lemma reconcile_loop_ends:
  assumes "truthful_agent ag sid cur" and "plannable md (mgr_session m)"
    and "queue_is_desired queue (mgr_session m)"
  shows "\<exists>r. reconcile_loop ag md sid queue m = Some r"
  using assms(2,3)
proof (induction "(queue, m)" arbitrary: queue m rule: wf_induct_rule
    [OF wf_measures [of "[\<lambda>(q, m). card (unsettled cur m), \<lambda>(q, m). length (filter (settled_action cur m) q),
      \<lambda>(q, m). length q]"]])
  case 1
  show ?case
  proof (cases queue)
    case (Cons a rest)
    obtain r m' where step: "reconcile_step ag md sid a m = (r, m')"
      by fastforce
    show ?thesis
    proof (cases r)
      case (Inr fs)
      note progress = step_progress
        [OF assms(1) 1(2) 1(3) [unfolded Cons] step [unfolded Inr]]
      have "\<exists>r. reconcile_loop ag md sid (rest @ fs) m' = Some r"
        by (rule 1(1) [OF progress(3) [folded Cons] progress(1,2)])
      then show ?thesis
        using Cons step Inr by (simp add: reconcile_loop.simps [of ag md sid "a # rest"])
    qed (use Cons step in \<open>simp add: reconcile_loop.simps [of ag md sid "a # rest"]\<close>)
  qed (simp add: reconcile_loop.simps)
qed

lemma plannable_refresh:
  "plannable md s \<Longrightarrow> plannable md (refresh_desired md s) \<and> desired_config (refresh_desired md s) = desired_config s"
  using same_config_refresh [of s md] by (simp add: plannable_def same_config_def)

lemma plan_queue: "plannable md s \<Longrightarrow> queue_is_desired (plan_reconcile s) s"
  by (auto simp: queue_is_desired_def plan_config_iff plannable_desired)

lemma reconcile_session_ends:
  assumes "truthful_agent ag sid cur" and "plannable md (mgr_session m)"
  shows "\<exists>r. reconcile_session ag md sid m = Some r"
  unfolding reconcile_session_def Let_def
  using assms(2) by (intro reconcile_loop_ends [OF assms(1)]) (auto simp: plannable_refresh intro!: plan_queue [of md])


section \<open>What holds at its end\<close>

text \<open>An agent that takes every option and tells of no other changes of its options.\<close>

fun is_config_notification :: "acp_notification \<Rightarrow> bool" where
  "is_config_notification (NotifyConfigOptions _) = True"
| "is_config_notification _ = False"

definition accepting_agent :: "'c acp_agent \<Rightarrow> string \<Rightarrow> bool" where
  "accepting_agent ag sid \<longleftrightarrow>
     (\<forall>i c. \<forall>n \<in> set (fst (snd (call_set_mode ag sid i c))). \<not> is_config_notification n) \<and>
     (\<forall>i c. \<forall>n \<in> set (fst (snd (call_set_model ag sid i c))). \<not> is_config_notification n) \<and>
     (\<forall>k v c. (\<forall>n \<in> set (fst (snd (call_set_config_option ag sid k v c))). \<not> is_config_notification n) \<and>
        \<not> isl (fst (call_set_config_option ag sid k v c)))"

definition config_aligned :: "acp_session \<Rightarrow> bool" where
  "config_aligned s \<longleftrightarrow> list_all (\<lambda>(k, v). map_of (observed_config s) k = Some v) (desired_config s)"

definition queue_covers :: "reconcile_action list \<Rightarrow> acp_session \<Rightarrow> bool" where
  "queue_covers queue s \<longleftrightarrow>
     (\<forall>(k, v) \<in> set (desired_config s). map_of (observed_config s) k \<noteq> Some v \<longrightarrow>
        SetConfigOption k v \<in> set queue)"

lemma queue_covers_Nil: "queue_covers [] s \<longleftrightarrow> config_aligned s"
  by (auto simp: queue_covers_def config_aligned_def list_all_iff)

lemma queue_covers_same:
  "same_config s s' \<Longrightarrow> queue_covers q s \<Longrightarrow> queue_covers q s'"
  by (simp add: queue_covers_def same_config_def)

lemma same_config_trans: "same_config s s' \<Longrightarrow> same_config s' s'' \<Longrightarrow> same_config s s''"
  by (simp add: same_config_def)

lemma same_config_commit [simp]: "same_config s (mgr_session (commit_session_changes m)) = same_config s (mgr_session m)"
  by (simp add: commit_session_changes_def acp_drain_events_def same_config_def)

lemma same_config_notification:
  "\<not> is_config_notification n \<Longrightarrow> same_config (mgr_session m) (mgr_session (apply_notification n m))"
  by (cases n) (auto simp: apply_notification_def same_config_operations, simp add: same_config_def)

lemma same_config_notifications:
  "\<forall>n \<in> set ns. \<not> is_config_notification n \<Longrightarrow>
   same_config (mgr_session m) (mgr_session (fold apply_notification ns m))"
proof (induction ns arbitrary: m)
  case (Cons n ns)
  then show ?case
    using same_config_notification [of n m] by (fastforce intro: same_config_trans)
qed (simp add: same_config_def)

lemma same_config_call:
  assumes "\<forall>n \<in> set (fst (snd (f (mgr_agent m)))). \<not> is_config_notification n"
    and "call_agent f m = (a, m')"
  shows "same_config (mgr_session m) (mgr_session m')"
  using assms same_config_notifications [of "fst (snd (f (mgr_agent m)))" "m\<lparr>mgr_agent := snd (snd (f (mgr_agent m)))\<rparr>"]
  by (auto simp: call_agent_def split_def Let_def)

lemma covers_set_mode:
  assumes "accepting_agent ag sid" and "reconcile_set_mode ag md sid i m = (Inr fs, m')"
  shows "same_config (mgr_session m) (mgr_session m')"
proof -
  have call: "same_config (mgr_session m) (mgr_session m1)"
    if "call_agent (call_set_mode ag sid j) m = (a, m1)" for a j m1
    by (rule same_config_call [OF _ that]) (use assms(1) in \<open>simp add: accepting_agent_def\<close>)
  show ?thesis
    using assms(2)
    by (auto simp: reconcile_set_mode_def Let_def split: if_splits prod.splits sum.splits
        intro: same_config_trans [OF call same_config_operations(1)] call)
      (simp_all add: same_config_def)
qed

lemma covers_set_model:
  assumes "accepting_agent ag sid" and "reconcile_set_model ag md sid i m = (Inr fs, m')"
  shows "same_config (mgr_session m) (mgr_session m')"
proof -
  have call: "same_config (mgr_session m) (mgr_session m1)"
    if "call_agent (call_set_model ag sid j) m = (a, m1)" for a j m1
    by (rule same_config_call [OF _ that]) (use assms(1) in \<open>simp add: accepting_agent_def\<close>)
  show ?thesis
    using assms(2)
    by (auto simp: reconcile_set_model_def split: if_splits prod.splits sum.splits
        intro: same_config_trans [OF call same_config_operations(2)] same_config_trans [OF call same_config_notice] call)
qed

lemma covers_set_config:
  assumes "truthful_agent ag sid cur" and "accepting_agent ag sid" and pl: "plannable md (mgr_session m)"
    and desired: "map_of (desired_config (mgr_session m)) k = Some v"
    and res: "reconcile_set_config_option ag md sid k v m = (Inr fs, m')"
  shows "queue_covers fs (mgr_session m')"
proof -
  have "stable_value md k v"
    using pl desired by (auto simp: plannable_def dest: map_of_SomeD)
  then have resolved: "resolve_config_value md (mgr_session m) k v = v"
    by (rule resolve_stable_value)
  have taken: "\<not> isl (fst (call_agent (call_set_config_option ag sid k v) m))"
    using assms(2) by (simp add: accepting_agent_def call_agent_def split_def Let_def)
  obtain os m2 where call: "call_agent (call_set_config_option ag sid k v) m = (Inr os, m2)"
    and fs: "fs = filter (\<lambda>a. a \<noteq> SetConfigOption k v)
      (plan_reconcile (refresh_desired md (apply_advertised_config_options os (mgr_session m2))))"
    and m': "m' = commit_session_changes (on_session (apply_observed_config k v)
      (commit_session_changes (on_session (\<lambda>s. refresh_desired md (apply_advertised_config_options os s)) m2)))"
    by (rule refused_config [OF res resolved]) (use taken in auto)
  note truth = advances_call_config [OF assms(1) call desired]
  let ?m3 = "on_session (apply_advertised_config_options os) m2"
  have "reconcile_advances md cur m ?m3"
    using truth by (intro reconcile_advances_trans [OF truth(1)] advances_report) blast
  then have pl3: "plannable md (mgr_session ?m3)" "desired_config (mgr_session ?m3) = desired_config (mgr_session m)"
    using pl by (simp_all add: reconcile_advances_def)
  then have "same_config (mgr_session ?m3) (refresh_desired md (mgr_session ?m3))"
    by (simp add: plannable_def same_config_refresh)
  then show ?thesis
    using desired pl3 plannable_desired [OF pl3(1)]
    by (auto simp: queue_covers_def fs m' plan_config_iff same_config_def commit_session_changes_def
        acp_drain_events_def apply_observed_config_def Let_def split: if_splits)
qed

lemma step_covers:
  assumes "truthful_agent ag sid cur" and "accepting_agent ag sid" and "plannable md (mgr_session m)"
    and q: "queue_is_desired (a # rest) (mgr_session m)" and cov: "queue_covers (a # rest) (mgr_session m)"
    and res: "reconcile_step ag md sid a m = (Inr fs, m')"
  shows "queue_covers (rest @ fs) (mgr_session m')"
proof (cases a)
  case (SetMode i)
  then show ?thesis
    using res cov queue_covers_same [OF covers_set_mode [OF assms(2)]]
    by (fastforce simp: queue_covers_def)
next
  case (SetModel i)
  then show ?thesis
    using res cov queue_covers_same [OF covers_set_model [OF assms(2)]]
    by (fastforce simp: queue_covers_def)
next
  case (SetConfigOption k v)
  then have "queue_covers fs (mgr_session m')"
    using res q by (intro covers_set_config [OF assms(1-3), of k v]) (simp_all add: queue_is_desired_def)
  then show ?thesis
    by (auto simp: queue_covers_def)
qed

lemma reconcile_loop_aligns:
  fixes m m' :: "'c acp_manager"
  assumes "truthful_agent ag sid cur" and "accepting_agent ag sid"
    and "plannable md (mgr_session m)" and "queue_is_desired queue (mgr_session m)"
    and "queue_covers queue (mgr_session m)" and "reconcile_loop ag md sid queue m = Some (Inr (), m')"
  shows "config_aligned (mgr_session m')"
proof -
  have "truthful_agent ag sid cur \<longrightarrow> accepting_agent ag sid \<longrightarrow> plannable md (mgr_session m) \<longrightarrow>
      queue_is_desired queue (mgr_session m) \<longrightarrow> queue_covers queue (mgr_session m) \<longrightarrow>
      fst (Inr () :: acp_error + unit, m') = Inr () \<longrightarrow>
      config_aligned (mgr_session (snd (Inr () :: acp_error + unit, m')))"
  proof (rule reconcile_loop.raw_induct
      [where P = "\<lambda>ag md sid queue m res. truthful_agent ag sid cur \<longrightarrow> accepting_agent ag sid \<longrightarrow>
          plannable md (mgr_session m) \<longrightarrow> queue_is_desired queue (mgr_session m) \<longrightarrow>
          queue_covers queue (mgr_session m) \<longrightarrow> fst res = Inr () \<longrightarrow> config_aligned (mgr_session (snd res))",
        OF _ assms(6)], intro impI)
    fix f ag md sid queue m and res :: "(acp_error + unit) \<times> 'c acp_manager"
    assume IH: "\<And>ag md sid queue m res. f ag md sid queue m = Some res \<Longrightarrow>
          truthful_agent ag sid cur \<longrightarrow> accepting_agent ag sid \<longrightarrow>
          plannable md (mgr_session m) \<longrightarrow> queue_is_desired queue (mgr_session m) \<longrightarrow>
          queue_covers queue (mgr_session m) \<longrightarrow> fst res = Inr () \<longrightarrow> config_aligned (mgr_session (snd res))"
      and eq: "(case queue of [] \<Rightarrow> Some (Inr (), m)
        | a # rest \<Rightarrow> (case reconcile_step ag md sid a m of
            (Inl e, m1) \<Rightarrow> Some (Inl e, m1)
          | (Inr followups, m1) \<Rightarrow> f ag md sid (rest @ followups) m1)) = Some res"
      and agent: "truthful_agent ag sid cur" "accepting_agent ag sid"
      and state: "plannable md (mgr_session m)" "queue_is_desired queue (mgr_session m)"
        "queue_covers queue (mgr_session m)" and ok: "fst res = Inr ()"
    show "config_aligned (mgr_session (snd res))"
    proof (cases queue)
      case Nil
      then show ?thesis
        using eq state(3) by (auto simp: queue_covers_Nil)
    next
      case (Cons a rest)
      obtain r m1 where step: "reconcile_step ag md sid a m = (r, m1)"
        by fastforce
      show ?thesis
      proof (cases r)
        case (Inl e)
        then show ?thesis
          using eq Cons step ok by auto
      next
        case (Inr fs)
        note step = step [unfolded Inr] and state = state [unfolded Cons]
        have "f ag md sid (rest @ fs) m1 = Some res"
          using eq Cons step by simp
        then show ?thesis
          using IH agent ok step_progress(1,2) [OF agent(1) state(1,2) step]
            step_covers [OF agent state step] by blast
      qed
    qed
  qed
  then show ?thesis
    using assms by simp
qed

lemma reconcile_session_aligns:
  assumes "truthful_agent ag sid cur" and "accepting_agent ag sid" and "plannable md (mgr_session m)"
    and "reconcile_session ag md sid m = Some (Inr (), m')"
  shows "config_aligned (mgr_session m')"
proof (rule reconcile_loop_aligns [OF assms(1,2)])
  let ?m = "on_session (refresh_desired md) m"
  show "plannable md (mgr_session ?m)"
    using assms(3) by (simp add: plannable_refresh)
  then show "queue_is_desired (plan_reconcile (mgr_session ?m)) (mgr_session ?m)"
    by (rule plan_queue)
  show "queue_covers (plan_reconcile (mgr_session ?m)) (mgr_session ?m)"
    by (auto simp: queue_covers_def plan_config_iff)
  show "reconcile_loop ag md sid (plan_reconcile (mgr_session ?m)) ?m = Some (Inr (), m')"
    using assms(4) by (simp add: reconcile_session_def Let_def)
qed

end
