(* ===== verification/Acp_Properties.thy ===== *)
theory Acp_Properties
  imports Acp_Shape Acp_Progress
begin

text \<open>
  The properties of the ACP session: what is persisted, when reconciling ends and what it
  leaves behind, and what resuming and changing options do. The concrete agents at the start
  serve the witnesses and the examples of what goes wrong.
\<close>

section \<open>Concrete agents\<close>

definition plain_select :: "string \<Rightarrow> string \<Rightarrow> config_option" where
  "plain_select k v =
     \<lparr>co_id = k, co_name = k, co_description = None, co_category = None,
      co_kind = KindSelect \<lparr>cs_current_value = v, cs_options = Ungrouped []\<rparr>\<rparr>"

definition plain_metadata :: agent_metadata where
  "plain_metadata =
     \<lparr>backend = None, yolo_id = None, self_identity_sticky = False, session_load_via_meta_field = False\<rparr>"

text \<open>An agent that stores its options.\<close>

definition storing_agent :: "(string \<times> string) list acp_agent" where
  "storing_agent =
     \<lparr>is_connected = (\<lambda>c. True),
      call_set_mode = (\<lambda>sid i c. (Inr (), [], c)),
      call_set_model = (\<lambda>sid i c. (Inr (), [], c)),
      call_set_config_option = (\<lambda>sid k v c. (Inr [plain_select k v], [], hm_insert k v c)),
      call_new_session = (\<lambda>resume c. (Inr \<lparr>resp_session_id = ''s1'', resp_models = None,
        resp_modes = None, resp_config_options = None\<rparr>, [], c)),
      call_load_session = (\<lambda>sid c. (Inl (OtherProtocolError 0 [] None), [], c)),
      call_fork_session = (\<lambda>sid c. (Inl (OtherProtocolError 0 [] None), [], c))\<rparr>"



text \<open>An agent that acknowledges every option and goes on reporting its own values.\<close>

definition stubborn_agent :: "unit acp_agent" where
  "stubborn_agent =
     \<lparr>is_connected = (\<lambda>c. True),
      call_set_mode = (\<lambda>sid i c. (Inr (), [], c)),
      call_set_model = (\<lambda>sid i c. (Inr (), [], c)),
      call_set_config_option =
        (\<lambda>sid k v c. (Inr [plain_select ''a'' ''0'', plain_select ''b'' ''0''], [], c)),
      call_new_session = (\<lambda>resume c. (Inr \<lparr>resp_session_id = ''s1'', resp_models = None,
        resp_modes = None, resp_config_options = None\<rparr>, [], c)),
      call_load_session = (\<lambda>sid c. (Inl (OtherProtocolError 0 [] None), [], c)),
      call_fork_session = (\<lambda>sid c. (Inl (OtherProtocolError 0 [] None), [], c))\<rparr>"

definition manager_with :: "acp_session \<Rightarrow> 'c \<Rightarrow> 'c acp_manager" where
  "manager_with s c = \<lparr>mgr_session = s, mgr_sent = [], mgr_agent = c\<rparr>"



definition two_wishes :: acp_session where
  "two_wishes = acp_session_new None None [(''a'', ''1''), (''b'', ''2'')]"



section \<open>Reconciling\<close>






section \<open>The livelock\<close>

text \<open>The agent and the two wishes of the example: what every round of the loop keeps.\<close>

fun other_wish :: "string \<Rightarrow> reconcile_action" where
  "other_wish k = (if k = ''a'' then SetConfigOption ''b'' ''2'' else SetConfigOption ''a'' ''1'')"

definition stubborn_report :: "config_option list" where
  "stubborn_report = [plain_select ''a'' ''0'', plain_select ''b'' ''0'']"

definition stays_unhappy :: "acp_session \<Rightarrow> bool" where
  "stays_unhappy s \<longleftrightarrow>
     desired_mode s = None \<and> desired_model s = None \<and> pending_startup_config s = [] \<and>
     desired_config s = [(''a'', ''1''), (''b'', ''2'')] \<and>
     adv_config_options s \<in> {None, Some stubborn_report}"

lemma stubborn_merge: "stays_unhappy s \<Longrightarrow> merge_config_options (adv_config_options s) stubborn_report = stubborn_report"
  by (auto simp: stays_unhappy_def merge_config_options_def stubborn_report_def plain_select_def)

lemma stubborn_derive:
  "derive_modes_from_config_options stubborn_report = None" "derive_models_from_config_options stubborn_report = None"
  by (simp_all add: derive_modes_from_config_options_def derive_models_from_config_options_def
      find_select_def stubborn_report_def plain_select_def)

lemma desired_config_options:
  "desired_mode (apply_advertised_config_options os s) = desired_mode s"
  "desired_model (apply_advertised_config_options os s) = desired_model s"
  by (auto simp: apply_advertised_config_options_def Let_def apply_advertised_modes_def
      apply_advertised_models_def split_def split: option.split)

lemma refresh_nothing:
  "pending_startup_config s = [] \<Longrightarrow> desired_mode s = None \<Longrightarrow> desired_model s = None \<Longrightarrow>
   refresh_desired md s = s"
  by (cases s) (simp add: refresh_desired_def resolve_pending_startup_config_seeds_def
    clear_invalid_desired_mode_def clear_invalid_desired_model_def)

lemma stubborn_absorbed:
  fixes s :: acp_session and md :: agent_metadata
  assumes "stays_unhappy s"
  defines "s' \<equiv> refresh_desired md (apply_advertised_config_options stubborn_report s)"
  shows "stays_unhappy s'" and "map_of (observed_config s') ''a'' = Some ''0''"
    and "map_of (observed_config s') ''b'' = Some ''0''"
proof -
  let ?s = "apply_advertised_config_options stubborn_report s"
  have fields: "adv_config_options ?s = Some stubborn_report" "desired_config ?s = desired_config s"
    "pending_startup_config ?s = []" "desired_mode ?s = None" "desired_model ?s = None"
    using assms(1)
    by (simp_all add: config_options_fields stubborn_merge stays_unhappy_def desired_config_options)
  then have s': "s' = ?s"
    unfolding s'_def by (intro refresh_nothing)
  show "stays_unhappy s'"
    using assms(1) fields by (simp add: s' stays_unhappy_def)
  show "map_of (observed_config s') ''a'' = Some ''0''" and "map_of (observed_config s') ''b'' = Some ''0''"
    using stubborn_merge [OF assms(1)]
    by (simp_all add: s' config_options_fields)
      (simp_all add: stubborn_report_def plain_select_def observe_option_def)
qed

lemma stubborn_step:
  assumes "stays_unhappy (mgr_session m)" and "(k, v) \<in> {(''a'', ''1''), (''b'', ''2'')}"
  shows "\<exists>m'. reconcile_step stubborn_agent md sid (SetConfigOption k v) m = (Inr [other_wish k], m')
    \<and> stays_unhappy (mgr_session m')"
proof -
  have "str_trim v = v" and "k \<noteq> ''mode''"
    using assms(2) by (auto simp: str_trim_printable printable_def)
  then have resolved: "resolve_config_value md (mgr_session m) k v = v"
    by (simp add: resolve_config_value_def)
  let ?s = "refresh_desired md (apply_advertised_config_options stubborn_report (mgr_session m))"
  have plan: "filter (\<lambda>a. a \<noteq> SetConfigOption k v) (plan_reconcile ?s) = [other_wish k]"
    using stubborn_absorbed [OF assms(1), of md] assms(2)
    by (auto simp: stays_unhappy_def plan_reconcile_def)
  have kept: "stays_unhappy (apply_observed_config k v (?s\<lparr>pending_events := es\<rparr>))" for es
    using stubborn_absorbed(1) [OF assms(1), of md]
    by (simp add: stays_unhappy_def apply_observed_config_def Let_def)
  show ?thesis
    using plan kept \<open>k \<noteq> ''mode''\<close> resolved
    by (auto simp: reconcile_set_config_option_def call_agent_def stubborn_agent_def
        stubborn_report_def [symmetric] Let_def commit_session_changes_def acp_drain_events_def)
      (simp add: stays_unhappy_def)
qed

lemma stubborn_loop:
  assumes "reconcile_loop stubborn_agent md sid queue m = Some res"
    and "stays_unhappy (mgr_session m)" and "queue \<noteq> []"
    and "set queue \<subseteq> {SetConfigOption ''a'' ''1'', SetConfigOption ''b'' ''2''}"
  shows False
proof -
  have "stubborn_agent = stubborn_agent \<longrightarrow> stays_unhappy (mgr_session m) \<longrightarrow> queue \<noteq> [] \<longrightarrow>
      set queue \<subseteq> {SetConfigOption ''a'' ''1'', SetConfigOption ''b'' ''2''} \<longrightarrow> False"
  proof (rule reconcile_loop.raw_induct [where P = "\<lambda>ag md sid queue m (res :: (acp_error + unit) \<times> unit acp_manager).
      ag = stubborn_agent \<longrightarrow> stays_unhappy (mgr_session m) \<longrightarrow> queue \<noteq> [] \<longrightarrow>
      set queue \<subseteq> {SetConfigOption ''a'' ''1'', SetConfigOption ''b'' ''2''} \<longrightarrow> False", OF _ assms(1)], intro impI)
    fix f md sid queue and ag :: "unit acp_agent" and m and res :: "(acp_error + unit) \<times> unit acp_manager"
    assume IH: "\<And>ag md sid queue m res. f ag md sid queue m = Some res \<Longrightarrow>
        ag = stubborn_agent \<longrightarrow> stays_unhappy (mgr_session m) \<longrightarrow> queue \<noteq> [] \<longrightarrow>
        set queue \<subseteq> {SetConfigOption ''a'' ''1'', SetConfigOption ''b'' ''2''} \<longrightarrow> False"
      and eq: "(case queue of [] \<Rightarrow> Some (Inr (), m)
        | a # rest \<Rightarrow> (case reconcile_step ag md sid a m of
            (Inl e, m1) \<Rightarrow> Some (Inl e, m1)
          | (Inr followups, m1) \<Rightarrow> f ag md sid (rest @ followups) m1)) = Some res"
      and ag: "ag = stubborn_agent" and state: "stays_unhappy (mgr_session m)"
      and queue: "queue \<noteq> []" "set queue \<subseteq> {SetConfigOption ''a'' ''1'', SetConfigOption ''b'' ''2''}"
    obtain k v rest where q: "queue = SetConfigOption k v # rest" and kv: "(k, v) \<in> {(''a'', ''1''), (''b'', ''2'')}"
      using queue by (cases queue) auto
    obtain m1 where "reconcile_step ag md sid (SetConfigOption k v) m = (Inr [other_wish k], m1)"
      and m1: "stays_unhappy (mgr_session m1)"
      using stubborn_step [OF state kv] ag by blast
    then have "f ag md sid (rest @ [other_wish k]) m1 = Some res"
      using eq q by simp
    from IH [OF this] ag m1 queue(2) q show False
      by auto
  qed
  then show False
    using assms by simp
qed

text \<open>
  C37. An agent that acknowledges two options but goes on reporting its own values keeps the
  reconciliation busy for ever: each acknowledgement puts the other option back on the queue.
\<close>

theorem reconcile_never_ends:
  "reconcile_session stubborn_agent plain_metadata ''s1'' (manager_with two_wishes ()) = None"
proof -
  let ?s = "refresh_desired plain_metadata two_wishes"
  have "stays_unhappy ?s \<and> plan_reconcile ?s = [SetConfigOption ''a'' ''1'', SetConfigOption ''b'' ''2'']"
    by (simp add: stays_unhappy_def two_wishes_def acp_session_new_def refresh_desired_def plan_reconcile_def
        resolve_pending_startup_config_seeds_def clear_invalid_desired_mode_def clear_invalid_desired_model_def)
  then have "reconcile_session stubborn_agent plain_metadata ''s1'' (manager_with two_wishes ()) \<noteq> Some res" for res
    by (auto simp: reconcile_session_def manager_with_def Let_def dest: stubborn_loop)
  then show ?thesis
    by blast
qed


section \<open>What reconciling records\<close>

definition same_wishes :: "acp_session \<Rightarrow> acp_session \<Rightarrow> bool" where
  "same_wishes s s' \<longleftrightarrow>
     desired_config s' = desired_config s \<and> pending_startup_config s' = pending_startup_config s \<and>
     session_id s' = session_id s \<and> opened s' = opened s"

lemma same_wishes_operations:
  "same_wishes s (apply_observed_mode i s)" "same_wishes s (apply_observed_model i s)"
  "same_wishes s (apply_advertised_modes ms s)" "same_wishes s (apply_advertised_models ml s)"
  "same_wishes s (apply_context_usage u s)" "same_wishes s (apply_advertised_commands cs s)"
  by (simp_all add: same_wishes_def apply_observed_mode_def apply_observed_model_def apply_advertised_modes_def
      apply_advertised_models_def apply_context_usage_def apply_advertised_commands_def Let_def)

lemma same_wishes_options: "same_wishes s (apply_advertised_config_options os s)"
  by (auto simp: same_wishes_def apply_advertised_config_options_def Let_def apply_advertised_modes_def
      apply_advertised_models_def split_def split: option.split)

lemma same_wishes_trans: "same_wishes s s' \<Longrightarrow> same_wishes s' s'' \<Longrightarrow> same_wishes s s''"
  by (simp add: same_wishes_def)

lemma same_wishes_commit [simp]: "same_wishes s (mgr_session (commit_session_changes m)) = same_wishes s (mgr_session m)"
  by (simp add: same_wishes_def commit_session_changes_def acp_drain_events_def)

lemma same_wishes_notifications: "same_wishes (mgr_session m) (mgr_session (fold apply_notification ns m))"
proof (induction ns arbitrary: m)
  case (Cons n ns)
  have "same_wishes (mgr_session m) (mgr_session (apply_notification n m))"
    by (cases n) (simp_all add: apply_notification_def same_wishes_operations same_wishes_options,
      simp add: same_wishes_def)
  then show ?case
    using Cons.IH by (auto intro: same_wishes_trans)
qed (simp add: same_wishes_def)

lemma same_wishes_call: "call_agent f m = (a, m') \<Longrightarrow> same_wishes (mgr_session m) (mgr_session m')"
  using same_wishes_notifications [of "m\<lparr>mgr_agent := c\<rparr>" for c]
  by (auto simp: call_agent_def split: prod.splits)

text \<open>
  When a wanted mode is sent under another name (an alias that the agent knows by its own
  name), the session records the alias as the observed value: the option still counts as not
  aligned, and the next reconciliation sends it again.
\<close>

theorem reconcile_records_the_alias:
  assumes "resolve_mode_for md (mgr_session m) alias = native" and "native \<noteq> alias"
    and "pending_startup_config (mgr_session m) = []"
    and "call_agent (call_set_config_option ag sid ''mode'' native)
      (m\<lparr>mgr_session := set_desired_config ''mode'' native (mgr_session m)\<rparr>) = (Inr os, m1)"
  shows "\<exists>followups m'. reconcile_step ag md sid (SetConfigOption ''mode'' alias) m = (Inr followups, m')
    \<and> map_of (observed_config (mgr_session m')) ''mode'' = Some alias
    \<and> map_of (desired_config (mgr_session m')) ''mode'' = Some native"
proof -
  have "same_wishes (set_desired_config ''mode'' native (mgr_session m)) (mgr_session m1)"
    using same_wishes_call [OF assms(4)] by simp
  then have "same_wishes (set_desired_config ''mode'' native (mgr_session m))
      (apply_advertised_config_options os (mgr_session m1))" (is "same_wishes _ ?s")
    by (rule same_wishes_trans) (rule same_wishes_options)
  then have "pending_startup_config ?s = []" and "map_of (desired_config ?s) ''mode'' = Some native"
    using assms(3) by (simp_all add: same_wishes_def set_desired_config_def Let_def)
  then have "map_of (desired_config (refresh_desired md ?s)) ''mode'' = Some native"
    using same_config_refresh [of ?s md] by (simp add: same_config_def)
  then show ?thesis
    using assms(1,2,4)
    by (simp add: reconcile_set_config_option_def resolve_config_value_def Let_def commit_session_changes_def
        acp_drain_events_def apply_observed_config_def)
qed

theorem reconcile_records_the_alias_witness:
  "\<exists>followups m'. reconcile_step storing_agent (plain_metadata\<lparr>yolo_id := Some ''bypass''\<rparr>) ''s1''
       (SetConfigOption ''mode'' ''yolo'')
       (manager_with (acp_session_new None None [(''mode'', ''yolo'')]) []) = (Inr followups, m')
    \<and> map_of (observed_config (mgr_session m')) ''mode'' = Some ''yolo''
    \<and> map_of (desired_config (mgr_session m')) ''mode'' = Some ''bypass''"
proof (rule reconcile_records_the_alias)
  show "resolve_mode_for (plain_metadata\<lparr>yolo_id := Some ''bypass''\<rparr>)
      (mgr_session (manager_with (acp_session_new None None [(''mode'', ''yolo'')]) [])) ''yolo'' = ''bypass''"
    by (simp add: resolve_mode_for_def normalize_for_available_values_def normalize_requested_mode_def
        is_codex_def plain_metadata_def str_trim_printable printable_def)
qed (simp_all add: manager_with_def acp_session_new_def call_agent_def storing_agent_def)


section \<open>Resuming\<close>

text \<open>Refreshing changes neither the identity nor the observed mode, and wishes for no new mode.\<close>

definition same_identity :: "acp_session \<Rightarrow> acp_session \<Rightarrow> bool" where
  "same_identity s s' \<longleftrightarrow>
     session_id s' = session_id s \<and> opened s' = opened s \<and> observed_mode s' = observed_mode s \<and>
     desired_mode s' \<in> {None, desired_mode s}"

lemma same_identity_refl: "same_identity s s"
  by (simp add: same_identity_def)

lemma same_identity_trans: "same_identity s s' \<Longrightarrow> same_identity s' s'' \<Longrightarrow> same_identity s s''"
  by (auto simp: same_identity_def)

lemma same_identity_clear: "same_identity s (clear_legacy_desired cat s)"
  by (cases cat) (simp_all add: same_identity_def)

lemma same_identity_seed: "same_identity s (snd (resolve_seed n sd s))"
proof -
  have "same_identity s (set_desired_config k v (clear_legacy_desired cat s))" for k v cat
    using same_identity_clear [of s cat] by (simp add: same_identity_def set_desired_config_def Let_def)
  moreover have "same_identity s (handle_unresolved_seed sd b s)" for b
    using same_identity_clear [of s]
    by (auto simp: handle_unresolved_seed_def seed_pending_startup_config_def same_identity_refl
        simp del: clear_legacy_desired.simps split: config_category.split)
      (simp add: same_identity_def)
  ultimately show ?thesis
    by (auto simp: resolve_seed_def Let_def simp del: clear_legacy_desired.simps split: option.split)
qed

lemma same_identity_seeds: "same_identity s (snd (resolve_seeds n sds s))"
proof (induction sds arbitrary: s)
  case (Cons sd sds)
  have "snd (resolve_seeds n (sd # sds) s) = snd (resolve_seeds n sds (snd (resolve_seed n sd s)))"
    by (simp add: split_def Let_def)
  then show ?case
    using same_identity_trans [OF same_identity_seed Cons.IH] by simp
qed (simp add: same_identity_refl)

lemma same_identity_refresh: "same_identity s (refresh_desired md s)"
proof -
  let ?s1 = "s\<lparr>pending_startup_config := []\<rparr>"
  let ?s2 = "snd (resolve_seeds (normalize_for_available_values md) (pending_startup_config s) ?s1)"
  have mode: "same_identity s' (snd (clear_invalid_desired_mode s'))"
    and model: "same_identity s' (snd (clear_invalid_desired_model s'))" for s'
    by (simp_all add: same_identity_def clear_invalid_desired_mode_def clear_invalid_desired_model_def split: option.split)
  have "same_identity s ?s1"
    by (simp add: same_identity_def)
  then have "same_identity s ?s2"
    using same_identity_seeds by (rule same_identity_trans)
  then have "same_identity s (snd (clear_invalid_desired_mode ?s2))"
    using mode by (rule same_identity_trans)
  then show ?thesis
    unfolding refresh_desired_alt comp_apply using model by (rule same_identity_trans)
qed

lemma identity_refresh [simp]:
  "session_id (refresh_desired md s) = session_id s" "opened (refresh_desired md s) = opened s"
  using same_identity_refresh [of s md] by (auto simp: same_identity_def)

lemma identity_commit [simp]:
  "session_id (mgr_session (commit_session_changes m)) = session_id (mgr_session m)"
  "opened (mgr_session (commit_session_changes m)) = opened (mgr_session m)"
  by (simp_all add: commit_session_changes_def acp_drain_events_def)

lemma identity_operations [simp]:
  "session_id (apply_observed_mode i s) = session_id s" "session_id (apply_observed_model i s) = session_id s"
  "session_id (apply_observed_config k v s) = session_id s" "session_id (set_pending_model_notice i s) = session_id s"
  "session_id (apply_advertised_config_options os s) = session_id s" "session_id (set_desired_config k v s) = session_id s"
  using same_wishes_operations(1-4) same_wishes_options
  by (simp_all add: same_wishes_def apply_observed_config_def set_pending_model_notice_def set_desired_config_def Let_def)

lemma identity_call: "call_agent f m = (a, m') \<Longrightarrow> session_id (mgr_session m') = session_id (mgr_session m)"
  using same_wishes_call by (auto simp: same_wishes_def)

lemma identity_step:
  "reconcile_step ag md sid a m = (r, m') \<Longrightarrow> session_id (mgr_session m') = session_id (mgr_session m)"
  by (cases a)
    (auto simp: reconcile_set_mode_def reconcile_set_model_def reconcile_set_config_option_def Let_def
      dest!: identity_call split: if_splits prod.splits sum.splits)

lemma identity_reconcile:
  assumes "reconcile_session ag md sid m = Some (r, m')"
  shows "session_id (mgr_session m') = session_id (mgr_session m)"
proof -
  have "session_id (mgr_session (snd (r, m'))) = session_id (mgr_session (on_session (refresh_desired md) m))"
  proof (rule reconcile_loop.raw_induct
      [where P = "\<lambda>ag md sid queue m res. session_id (mgr_session (snd res)) = session_id (mgr_session m)",
        OF _ assms [unfolded reconcile_session_def Let_def]])
    fix f ag md sid queue m res
    assume IH: "\<And>ag md sid queue m res. f ag md sid queue m = Some res \<Longrightarrow>
        session_id (mgr_session (snd res)) = session_id (mgr_session m)"
      and eq: "(case queue of [] \<Rightarrow> Some (Inr (), m)
        | a # rest \<Rightarrow> (case reconcile_step ag md sid a m of
            (Inl e, m1) \<Rightarrow> Some (Inl e, m1)
          | (Inr followups, m1) \<Rightarrow> f ag md sid (rest @ followups) m1)) = Some res"
    show "session_id (mgr_session (snd res)) = session_id (mgr_session m)"
      using eq by (auto split: list.splits prod.splits sum.splits dest!: identity_step IH)
  qed
  then show ?thesis
    by simp
qed

lemma identity_absorb: "session_id (absorb_catalogs r s) = session_id s"
  using same_wishes_operations(3,4) same_wishes_options
  by (auto simp: absorb_catalogs_def same_wishes_def Let_def split: option.split)

text \<open>
  When an agent that resumes through \<open>session/new\<close> answers with a new session id, the id is
  used for the current turn only: the aggregate keeps the old id, so the row does too, and the
  next turn addresses the old session.
\<close>

theorem resumed_session_id_is_lost:
  assumes "session_load_via_meta_field (par_metadata par)"
    and "session_id (mgr_session m) = Some old" and "\<not> opened (mgr_session m)"
    and connected: "is_connected ag = (\<lambda>c. True)"
    and call: "call_agent (call_new_session ag (Some old)) m = (Inr resp, m1)"
    and new: "resp_session_id resp \<noteq> old"
    and reconciled: "reconcile_session ag (par_metadata par) (resp_session_id resp)
      (commit_session_changes
        (m1\<lparr>mgr_session := set_session_id (resp_session_id resp) (absorb_catalogs resp (mgr_session m1))\<rparr>))
      = Some (Inr (), m2)"
  shows "\<exists>m' m''. ensure_session_opened ag par m = Some (Inr (resp_session_id resp), m')
    \<and> session_id (mgr_session m') = Some old
    \<and> ensure_session_opened ag par m' = Some (Inr old, m'')"
proof -
  have "session_id (mgr_session m1) = Some old"
    using identity_call [OF call] assms(2) by simp
  then have id2: "session_id (mgr_session m2) = Some old"
    using identity_reconcile [OF reconciled] by (simp add: set_session_id_def identity_absorb)
  have resume: "resume_via_meta ag par old m = Some (Inr (resp_session_id resp), m2)"
    using call reconciled by (simp add: resume_via_meta_def reconcile_or_rebuild_def)
  define m' where "m' = commit_session_changes (on_session mark_opened m2)"
  have m': "session_id (mgr_session m') = Some old" "opened (mgr_session m')"
    using id2 by (simp_all add: m'_def mark_opened_def)
  have "ensure_session_opened ag par m = Some (Inr (resp_session_id resp), m')"
    using assms(1-3) connected resume
    by (simp add: ensure_session_opened_def open_session_resume_def mark_opened_when_connected_def m'_def)
  moreover have "\<exists>m''. ensure_session_opened ag par m' = Some (Inr old, m'')"
    using m' connected by (simp add: ensure_session_opened_def mark_opened_when_connected_def)
  ultimately show ?thesis
    using m'(1) by blast
qed

text \<open>An agent that resumes under a new id.\<close>

definition renaming_agent :: "unit acp_agent" where
  "renaming_agent = stubborn_agent\<lparr>call_new_session :=
     (\<lambda>resume c. (Inr \<lparr>resp_session_id = ''new'', resp_models = None, resp_modes = None,
        resp_config_options = None\<rparr>, [], c))\<rparr>"

definition resuming_params :: acp_params where
  "resuming_params =
     \<lparr>par_metadata = plain_metadata\<lparr>session_load_via_meta_field := True\<rparr>, par_snapshot = None,
      par_session_mode = None, par_current_model_id = None, par_thought_level = None, par_fork = None,
      par_handshake_modes = None, par_handshake_models = None\<rparr>"

definition old_session :: acp_session where
  "old_session = (acp_session_new None None [])\<lparr>session_id := Some ''old''\<rparr>"

theorem resumed_session_id_is_lost_witness:
  "\<exists>m' m''. ensure_session_opened renaming_agent resuming_params (manager_with old_session ()) = Some (Inr ''new'', m')
    \<and> session_id (mgr_session m') = Some ''old''
    \<and> ensure_session_opened renaming_agent resuming_params m' = Some (Inr ''old'', m'')"
proof -
  let ?resp = "\<lparr>resp_session_id = ''new'', resp_models = None, resp_modes = None, resp_config_options = None\<rparr>"
  have "call_agent (call_new_session renaming_agent (Some ''old'')) (manager_with old_session ())
      = (Inr ?resp, manager_with old_session ())"
    by (simp add: call_agent_def renaming_agent_def manager_with_def)
  moreover have "reconcile_session renaming_agent (par_metadata resuming_params) ''new''
      (commit_session_changes ((manager_with old_session ())\<lparr>mgr_session := old_session\<rparr>))
      = Some (Inr (), manager_with old_session ())"
    by (simp add: reconcile_session_def manager_with_def commit_session_changes_def acp_drain_events_def
        old_session_def acp_session_new_def refresh_nothing plan_reconcile_def reconcile_loop.simps)
  ultimately show ?thesis
    using resumed_session_id_is_lost
      [of resuming_params "manager_with old_session ()" "''old''" renaming_agent ?resp "manager_with old_session ()"
        "manager_with old_session ()"]
    by (simp add: resuming_params_def manager_with_def old_session_def acp_session_new_def renaming_agent_def
        stubborn_agent_def set_session_id_def absorb_catalogs_def)
qed


text \<open>
  A session that is resumed with \<open>session/load\<close> is taken to be in the mode the aggregate
  had before, whatever mode the agent reports: if that is the wanted mode, the reconciliation
  that follows plans no request for a mode.
\<close>

theorem loaded_mode_is_not_requested:
  assumes "\<not> session_load_via_meta_field (par_metadata par)"
    and "adv_capabilities (mgr_session m) = Some caps" and "load_session caps"
    and "adv_modes (mgr_session m) = Some before" and "desired_mode (mgr_session m) = Some (current_mode_id before)"
    and "call_load_session ag sid (mgr_agent m) = (Inr resp, [], c)"
    and "resp_modes resp = Some reported" and "resp_config_options resp = None"
  shows "\<exists>m'. open_session_resume ag par sid m = reconcile_or_rebuild ag par sid m'
    \<and> observed_mode (mgr_session m') = Some (current_mode_id before)
    \<and> (\<forall>i. SetMode i \<notin> set (plan_reconcile (refresh_desired (par_metadata par) (mgr_session m'))))"
proof -
  let ?resp = "keep_current_mode (Some (current_mode_id before)) resp"
  let ?s = "set_session_id sid (absorb_catalogs ?resp (mgr_session m))"
  define m' where "m' = commit_session_changes (m\<lparr>mgr_agent := c, mgr_session := ?s\<rparr>)"
  have "open_session_resume ag par sid m = reconcile_or_rebuild ag par sid m'"
    using assms(1-4,6) by (simp add: open_session_resume_def resume_via_load_def call_agent_def m'_def)
  moreover have observed: "observed_mode (mgr_session m') = Some (current_mode_id before)"
    and desired: "desired_mode (mgr_session m') = Some (current_mode_id before)"
    using assms(5,7,8)
    by (auto simp: m'_def commit_session_changes_def acp_drain_events_def set_session_id_def absorb_catalogs_def
        keep_current_mode_def apply_advertised_modes_def apply_advertised_models_def
        preserve_existing_mode_catalog_def Let_def split: option.split)
  moreover have "SetMode i \<notin> set (plan_reconcile (refresh_desired (par_metadata par) (mgr_session m')))" for i
    using same_identity_refresh [of "mgr_session m'" "par_metadata par"] observed desired
    by (auto simp: plan_reconcile_def same_identity_def)
  ultimately show ?thesis
    by blast
qed

definition loading_agent :: "unit acp_agent" where
  "loading_agent = stubborn_agent\<lparr>call_load_session :=
     (\<lambda>sid c. (Inr \<lparr>resp_session_id = sid, resp_models = None,
        resp_modes = Some \<lparr>current_mode_id = ''default'', available_modes = []\<rparr>,
        resp_config_options = None\<rparr>, [], c))\<rparr>"

definition planning_session :: acp_session where
  "planning_session = (acp_session_new (Some ''plan'') None [])
     \<lparr>adv_capabilities := Some \<lparr>load_session = True, fork_supported = False\<rparr>,
      adv_modes := Some \<lparr>current_mode_id = ''plan'', available_modes = []\<rparr>\<rparr>"

theorem loaded_mode_is_not_requested_witness:
  "\<exists>par m'. open_session_resume loading_agent par ''s1'' (manager_with planning_session ())
      = reconcile_or_rebuild loading_agent par ''s1'' m'
    \<and> observed_mode (mgr_session m') = Some ''plan''
    \<and> (\<forall>i. SetMode i \<notin> set (plan_reconcile (refresh_desired (par_metadata par) (mgr_session m'))))"
  using loaded_mode_is_not_requested
    [of "resuming_params\<lparr>par_metadata := plain_metadata\<rparr>" "manager_with planning_session ()"
      "\<lparr>load_session = True, fork_supported = False\<rparr>" "\<lparr>current_mode_id = ''plan'', available_modes = []\<rparr>"
      loading_agent "''s1''" _ "()" "\<lparr>current_mode_id = ''default'', available_modes = []\<rparr>"]
  by (fastforce simp: resuming_params_def plain_metadata_def manager_with_def planning_session_def
      acp_session_new_def loading_agent_def)


section \<open>Persistence\<close>


definition empty_row :: runtime_row where
  "empty_row = \<lparr>row_session_id = None, row_mode = None, row_model = None, row_config = None, row_usage = None\<rparr>"

definition planned_manager :: "unit acp_manager" where
  "planned_manager = apply_notification (NotifyCurrentMode ''plan'')
     (manager_built resuming_params None None empty_row ())"



section \<open>The shape of a session\<close>

lemma observed_mode_is_shown:
  "session_well_formed s \<Longrightarrow> observed_mode s = Some i \<Longrightarrow> agent_mode md s = i"
  by (auto simp: session_well_formed_def shows_observed_def agent_mode_def)

text \<open>
  C40. Whatever the operations and the notifications, the maps of a session have one value per
  key, no preference of the start is empty, of another category than mode, model and thought
  level, or kept twice, and the current mode and model that clients are shown are the last
  observed ones.
\<close>

theorem session_stays_well_formed:
  assumes "case row_config row of None \<Rightarrow> True | Some c \<Rightarrow> distinct_keys c"
    and "manager_reachable ag par (manager_built par caps auth row c) m"
  shows "session_well_formed (mgr_session m) \<and>
    (\<forall>i. observed_mode (mgr_session m) = Some i \<longrightarrow> agent_mode (par_metadata par) (mgr_session m) = i)"
proof -
  have "session_well_formed (mgr_session m)"
    using assms(2) well_formed_built [OF assms(1)] by (rule shaped.kept_reachable)
  then show ?thesis
    by (simp add: observed_mode_is_shown)
qed

theorem session_stays_well_formed_witness:
  "session_well_formed (mgr_session planned_manager) \<and>
   agent_mode (par_metadata resuming_params) (mgr_session planned_manager) = ''plan''"
proof -
  have reach: "manager_reachable stubborn_agent resuming_params (manager_built resuming_params None None empty_row ()) planned_manager"
    unfolding planned_manager_def by (rule reach_step [OF reach_start step_notified])
  have row: "case row_config empty_row of None \<Rightarrow> True | Some c \<Rightarrow> distinct_keys c"
    by (simp add: empty_row_def)
  have "observed_mode (mgr_session planned_manager) = Some ''plan''"
    by (simp add: planned_manager_def apply_notification_def apply_observed_mode_def commit_session_changes_def
        acp_drain_events_def)
  then show ?thesis
    using session_stays_well_formed [OF row reach] by simp
qed


section \<open>Confirmed changes\<close>

lemma snapshot_updates [simp]:
  "session_snapshot (s\<lparr>pending_events := es\<rparr>) = session_snapshot s"
  "session_snapshot (s\<lparr>config_set_in_flight := b\<rparr>) = session_snapshot s"
  by (simp_all add: session_snapshot_def split: option.split)

lemma snapshot_commit [simp]:
  "session_snapshot (mgr_session (commit_session_changes m)) = session_snapshot (mgr_session m)"
  by (simp add: commit_session_changes_def acp_drain_events_def)








end
