(* ===== verification/Fs_Path.thy ===== *)
theory Fs_Path
  imports Prelude
begin

text \<open>
  Paths of the standard library on Unix, and the identity of project resources: lexical
  canonicalization (\<open>canonical.rs\<close>), references relative to a folder (\<open>containment.rs\<close>) and the
  check of real paths before a command (\<open>monitor/dispatch.rs\<close>). URLs are those of the \<open>url\<close>
  crate, a parameter. Paths are valid UTF-8.
\<close>

section \<open>Components of a path\<close>

datatype path_component = RootDir | CurDir | ParentDir | NormalSeg string

fun split_slash :: "string \<Rightarrow> string list" where
  "split_slash [] = [[]]"
| "split_slash (c # cs) =
     (if c = CHR ''/'' then [] # split_slash cs
      else (case split_slash cs of s # ss \<Rightarrow> (c # s) # ss | [] \<Rightarrow> [[c]]))"

definition component_of_seg :: "string \<Rightarrow> path_component option" where
  "component_of_seg s =
     (if s = [] \<or> s = ''.'' then None else if s = ''..'' then Some ParentDir else Some (NormalSeg s))"

definition path_is_absolute :: "string \<Rightarrow> bool" where
  "path_is_absolute p \<longleftrightarrow> p \<noteq> [] \<and> hd p = CHR ''/''"

definition path_components :: "string \<Rightarrow> path_component list" where
  "path_components p =
     (if path_is_absolute p then [RootDir] else if hd (split_slash p) = ''.'' then [CurDir] else []) @
     filter_map component_of_seg (split_slash p)"

fun component_str :: "path_component \<Rightarrow> string" where
  "component_str RootDir = ''/''"
| "component_str CurDir = ''.''"
| "component_str ParentDir = ''..''"
| "component_str (NormalSeg s) = s"

definition path_join :: "string \<Rightarrow> string \<Rightarrow> string" where
  "path_join p q =
     (if path_is_absolute q then q
      else if p = [] \<or> last p = CHR ''/'' then p @ q else p @ ''/'' @ q)"

definition path_of_components :: "path_component list \<Rightarrow> string" where
  "path_of_components cs = foldl path_join [] (map component_str cs)"

definition path_file_name :: "string \<Rightarrow> string option" where
  "path_file_name p =
     (case rev (path_components p) of NormalSeg s # _ \<Rightarrow> Some s | _ \<Rightarrow> None)"

text \<open>Up to redundant separators, which no use of it sees.\<close>

definition path_parent :: "string \<Rightarrow> string option" where
  "path_parent p =
     (case rev (path_components p) of
        [] \<Rightarrow> None | RootDir # _ \<Rightarrow> None | _ # cs \<Rightarrow> Some (path_of_components (rev cs)))"

definition path_starts_with :: "string \<Rightarrow> string \<Rightarrow> bool" where
  "path_starts_with p q \<longleftrightarrow>
     take (length (path_components q)) (path_components p) = path_components q"


section \<open>Errors and URLs\<close>

datatype project_error =
    FolderNotFound string
  | FolderNotDirectory string
  | FolderPermissionDenied string
  | FolderCanonicalizeFailed string
  | TempDirExists string
  | WorkspaceMissing
  | WorkspaceFolderMismatch string string
  | StandardProjectConflict string
  | ProjectExplorerDuplicate string string
  | ProjectExplorerOverlap string
  | ProjectNotFound string
  | ProjectExplorerNotFound string
  | WorkspaceEntryImmutable string
  | InvalidRelativePath string
  | ResourceOutsideFolder string
  | UnsupportedResourceScheme string
  | UploadPathOutsideRoot string
  | ChatFileMissing string
  | LocalPathNotReadable string
  | ProjectDatabase string

text \<open>What is used of the crate: the scheme of a URL, the path of a file URL, and back.\<close>

record url_lib =
  url_scheme :: "string \<Rightarrow> string option"
  url_to_path :: "string \<Rightarrow> string option"
  url_from_path :: "string \<Rightarrow> string option"

datatype resource_scheme = SchemeFile

definition parse_scheme :: "url_lib \<Rightarrow> string \<Rightarrow> project_error + resource_scheme" where
  "parse_scheme ul uri =
     (case url_scheme ul uri of
        None \<Rightarrow> Inl (FolderCanonicalizeFailed uri)
      | Some s \<Rightarrow> if s = ''file'' then Inr SchemeFile else Inl (UnsupportedResourceScheme s))"

definition uri_to_path :: "url_lib \<Rightarrow> string \<Rightarrow> project_error + string" where
  "uri_to_path ul uri =
     (case url_to_path ul uri of Some p \<Rightarrow> Inr p | None \<Rightarrow> Inl (FolderCanonicalizeFailed uri))"

definition to_file_uri :: "url_lib \<Rightarrow> string \<Rightarrow> project_error + string" where
  "to_file_uri ul p =
     (case url_from_path ul p of Some u \<Rightarrow> Inr u | None \<Rightarrow> Inl (FolderCanonicalizeFailed p))"


section \<open>Canonical resources\<close>

definition normalize_step :: "path_component list \<Rightarrow> path_component \<Rightarrow> path_component list" where
  "normalize_step out c =
     (case c of
        CurDir \<Rightarrow> out
      | ParentDir \<Rightarrow> (case rev out of NormalSeg _ # _ \<Rightarrow> butlast out | _ \<Rightarrow> out)
      | _ \<Rightarrow> out @ [c])"

definition normalize_lexical :: "string \<Rightarrow> string" where
  "normalize_lexical p = path_of_components (foldl normalize_step [] (path_components p))"

text \<open>\<open>fold_case\<close> is the constant \<open>IGNORE_PATH_CASING\<close> of the platform.\<close>

definition canonicalize :: "url_lib \<Rightarrow> bool \<Rightarrow> string \<Rightarrow> project_error + string" where
  "canonicalize ul fold_case uri =
     (case parse_scheme ul uri of
        Inl e \<Rightarrow> Inl e
      | Inr _ \<Rightarrow>
          (case url_to_path ul uri of
             None \<Rightarrow> Inl (FolderCanonicalizeFailed uri)
           | Some p \<Rightarrow>
               let normalized = normalize_lexical p;
                   folded = (if fold_case then ascii_lower normalized else normalized)
               in case url_from_path ul folded of
                    None \<Rightarrow> Inl (FolderCanonicalizeFailed uri)
                  | Some u \<Rightarrow> Inr u))"


section \<open>References relative to a folder\<close>

record resolved_relative =
  rr_relative_path :: string
  rr_resource_uri :: string
  rr_absolute_path :: string

fun resolve_segs :: "path_component list \<Rightarrow> string list \<Rightarrow> string list option" where
  "resolve_segs [] segs = Some segs"
| "resolve_segs (RootDir # cs) segs = None"
| "resolve_segs (CurDir # cs) segs = resolve_segs cs segs"
| "resolve_segs (ParentDir # cs) segs = (if segs = [] then None else resolve_segs cs (butlast segs))"
| "resolve_segs (NormalSeg s # cs) segs = resolve_segs cs (segs @ [s])"

definition resolve_relative :: "url_lib \<Rightarrow> string \<Rightarrow> string \<Rightarrow> project_error + resolved_relative" where
  "resolve_relative ul root rel =
     (case resolve_segs (path_components rel) [] of
        None \<Rightarrow> Inl (InvalidRelativePath rel)
      | Some segs \<Rightarrow>
          let normalized = str_join ''/'' segs
          in case uri_to_path ul root of
               Inl e \<Rightarrow> Inl e
             | Inr root_path \<Rightarrow>
                 let absolute = (if normalized = [] then root_path else path_join root_path normalized)
                 in if \<not> path_starts_with absolute root_path then Inl (ResourceOutsideFolder rel)
                    else (case to_file_uri ul absolute of
                        Inl e \<Rightarrow> Inl e
                      | Inr uri \<Rightarrow> Inr \<lparr>rr_relative_path = normalized, rr_resource_uri = uri,
                          rr_absolute_path = absolute\<rparr>))"


section \<open>Lemmas on components\<close>

lemma split_slash_nonempty [simp]: "split_slash p \<noteq> []"
  by (induction p) (auto split: list.splits)

lemma split_slash_append: "split_slash (p @ CHR ''/'' # q) = split_slash p @ split_slash q"
  by (induction p) (auto split: list.splits)

lemma split_slash_no_slash: "s \<in> set (split_slash p) \<Longrightarrow> CHR ''/'' \<notin> set s"
proof (induction p arbitrary: s)
  case (Cons c p)
  then show ?case
    by (cases "split_slash p") (auto split: if_splits)
qed simp

lemma split_slash_plain: "CHR ''/'' \<notin> set p \<Longrightarrow> split_slash p = [p]"
  by (induction p) auto

text \<open>What a segment must be to be its own component.\<close>

definition plain_seg :: "string \<Rightarrow> bool" where
  "plain_seg s \<longleftrightarrow> s \<noteq> [] \<and> s \<noteq> ''.'' \<and> s \<noteq> ''..'' \<and> CHR ''/'' \<notin> set s"

lemma component_of_plain [simp]: "plain_seg s \<Longrightarrow> component_of_seg s = Some (NormalSeg s)"
  by (simp add: plain_seg_def component_of_seg_def)

lemma NormalSeg_plain: "NormalSeg s \<in> set (path_components p) \<Longrightarrow> plain_seg s"
  using split_slash_no_slash
  by (auto simp: path_components_def component_of_seg_def plain_seg_def split: if_splits)

lemma path_components_join:
  assumes "p \<noteq> []" and "\<not> path_is_absolute q"
  shows "path_components (path_join p q) = path_components p @ filter_map component_of_seg (split_slash q)"
proof (cases "last p = CHR ''/''")
  case False
  then have "path_join p q = p @ CHR ''/'' # q"
    using assms by (simp add: path_join_def)
  then show ?thesis
    using assms(1)
    by (simp add: path_components_def path_is_absolute_def split_slash_append filter_map_append)
next
  case True
  obtain p' where p: "p = p' @ ''/''"
    using True assms(1) by (metis append_butlast_last_id)
  have split_p: "split_slash p = split_slash p' @ [[]]"
    using split_slash_append [of p' "[]"] by (simp add: p)
  have "path_join p q = p' @ CHR ''/'' # q"
    using assms by (simp add: path_join_def p)
  then have "path_components (path_join p q) =
      (if path_is_absolute p then [RootDir] else if hd (split_slash p) = ''.'' then [CurDir] else []) @
      filter_map component_of_seg (split_slash p' @ split_slash q)"
    by (simp add: path_components_def path_is_absolute_def split_slash_append p split_p [unfolded p] hd_append)
  then show ?thesis
    by (simp add: path_components_def [of p] split_p filter_map_append component_of_seg_def)
qed

lemma plain_seg_hd: "plain_seg s \<Longrightarrow> s \<noteq> [] \<and> hd s \<noteq> CHR ''/''"
  by (cases s) (auto simp: plain_seg_def)

lemma plain_not_absolute: "plain_seg s \<Longrightarrow> \<not> path_is_absolute (s @ q)"
  by (cases s) (auto simp: plain_seg_def path_is_absolute_def)

lemma split_slash_join: "list_all plain_seg segs \<Longrightarrow> segs \<noteq> [] \<Longrightarrow> split_slash (str_join ''/'' segs) = segs"
proof (induction segs)
  case (Cons s segs)
  then show ?case
    by (cases segs) (simp_all add: plain_seg_def split_slash_plain split_slash_append)
qed simp

lemma filter_map_plain: "list_all plain_seg segs \<Longrightarrow> filter_map component_of_seg segs = map NormalSeg segs"
  by (induction segs) auto

lemma join_segs_not_absolute: "list_all plain_seg segs \<Longrightarrow> \<not> path_is_absolute (str_join ''/'' segs)"
  by (cases "(''/'', segs)" rule: str_join.cases) (auto simp: path_is_absolute_def dest: plain_seg_hd)

lemma join_segs_empty: "list_all plain_seg segs \<Longrightarrow> str_join ''/'' segs = [] \<longleftrightarrow> segs = []"
  by (cases "(''/'', segs)" rule: str_join.cases) (auto simp: plain_seg_def)

lemma components_join_segs:
  assumes "list_all plain_seg segs" and "p \<noteq> []" and "segs \<noteq> []"
  shows "path_components (path_join p (str_join ''/'' segs)) = path_components p @ map NormalSeg segs"
  using assms
  by (simp add: path_components_join join_segs_not_absolute split_slash_join filter_map_plain)


section \<open>Rebuilding a path from its components\<close>

text \<open>The lists that are the components of some path.\<close>

definition component_list :: "path_component list \<Rightarrow> bool" where
  "component_list cs \<longleftrightarrow>
     (\<forall>s. NormalSeg s \<in> set cs \<longrightarrow> plain_seg s) \<and>
     RootDir \<notin> set (tl cs) \<and> CurDir \<notin> set (tl cs)"

lemma component_of_seg_inner: "component_of_seg s = Some c \<Longrightarrow> c \<noteq> RootDir \<and> c \<noteq> CurDir"
  by (auto simp: component_of_seg_def split: if_splits)

lemma path_components_list: "component_list (path_components p)"
proof -
  let ?ss = "filter_map component_of_seg (split_slash p)"
  have inner: "RootDir \<notin> set ?ss \<and> CurDir \<notin> set ?ss"
    using component_of_seg_inner by fastforce
  then have "RootDir \<notin> set (tl ?ss) \<and> CurDir \<notin> set (tl ?ss)"
    by (metis list.set_sel(2) tl_Nil)
  then have "RootDir \<notin> set (tl (path_components p)) \<and> CurDir \<notin> set (tl (path_components p))"
    using inner by (simp add: path_components_def del: set_filter_map)
  then show ?thesis
    using NormalSeg_plain [of _ p] by (simp add: component_list_def)
qed

lemma component_str_head: "component_list (c # cs) \<Longrightarrow> component_str c \<noteq> []"
  by (cases c) (auto simp: component_list_def plain_seg_def)

lemma component_str_plain: "plain_seg s \<Longrightarrow> filter_map component_of_seg (split_slash s) = [NormalSeg s]"
  by (simp add: split_slash_plain [of s] plain_seg_def component_of_seg_def)

lemma component_str_split:
  assumes "component_list (c # cs)" and "d \<in> set cs"
  shows "\<not> path_is_absolute (component_str d) \<and>
    filter_map component_of_seg (split_slash (component_str d)) = [d]"
proof (cases d)
  case (NormalSeg s)
  then have "plain_seg s"
    using assms by (auto simp: component_list_def)
  then show ?thesis
    using plain_not_absolute [of s "[]"] by (simp add: NormalSeg component_str_plain)
qed (use assms in \<open>auto simp: component_list_def path_is_absolute_def component_of_seg_def\<close>)

lemma path_join_nonempty: "p \<noteq> [] \<Longrightarrow> path_join p q \<noteq> []"
  by (auto simp: path_join_def path_is_absolute_def)

lemma components_foldl_join:
  assumes "p \<noteq> []" and "\<And>d. d \<in> set ds \<Longrightarrow> \<not> path_is_absolute (component_str d) \<and>
      filter_map component_of_seg (split_slash (component_str d)) = [d]"
  shows "path_components (foldl path_join p (map component_str ds)) = path_components p @ ds"
  using assms
proof (induction ds arbitrary: p)
  case (Cons d ds)
  then show ?case
    using path_components_join [OF Cons.prems(1)] path_join_nonempty [OF Cons.prems(1)] by simp
qed simp

lemma path_components_inverse:
  assumes "component_list cs"
  shows "path_components (path_of_components cs) = cs"
proof (cases cs)
  case Nil
  then show ?thesis
    by (simp add: path_of_components_def path_components_def path_is_absolute_def component_of_seg_def)
next
  case (Cons c ds)
  have "path_join [] (component_str c) = component_str c"
    by (simp add: path_join_def)
  moreover have "path_components (component_str c) = [c]"
  proof (cases c)
    case (NormalSeg s)
    then have "plain_seg s"
      using assms by (simp add: Cons component_list_def)
    then show ?thesis
      using plain_not_absolute [of s "[]"]
      by (simp add: NormalSeg path_components_def component_str_plain)
        (simp add: split_slash_plain [of s] plain_seg_def)
  qed (auto simp: path_components_def path_is_absolute_def component_of_seg_def)
  ultimately show ?thesis
    using components_foldl_join [OF component_str_head component_str_split] assms
    by (simp add: Cons path_of_components_def)
qed

lemma component_list_butlast: "component_list cs \<Longrightarrow> component_list (butlast cs)"
  by (cases cs) (auto simp: component_list_def dest: in_set_butlastD)

lemma path_parent_components:
  assumes "path_parent p = Some q"
  shows "path_components q = butlast (path_components p) \<and> path_components p \<noteq> []"
proof -
  let ?cs = "path_components p"
  obtain c rest where rev: "rev ?cs = c # rest" and q: "q = path_of_components (rev rest)"
    using assms by (auto simp: path_parent_def split: list.splits path_component.splits)
  then have "?cs = rev rest @ [c]"
    by (metis rev.simps(2) rev_rev_ident)
  then show ?thesis
    using path_components_inverse component_list_butlast [OF path_components_list [of p]]
    by (simp add: q)
qed


section \<open>Real paths\<close>

text \<open>
  \<open>realpath\<close> is the operating system's at the moment of the check. The deepest existing
  ancestor of the target must be inside the folder.
\<close>

function probe_within :: "(string \<Rightarrow> string option) \<Rightarrow> string \<Rightarrow> string \<Rightarrow> bool" where
  "probe_within realpath root_real probe =
     (case realpath probe of
        Some real \<Rightarrow> path_starts_with real root_real
      | None \<Rightarrow>
          (case path_parent probe of Some p \<Rightarrow> probe_within realpath root_real p | None \<Rightarrow> False))"
  by pat_completeness auto
termination
  by (relation "measure (\<lambda>(_, _, p). length (path_components p))") (auto dest: path_parent_components)

declare probe_within.simps [simp del]

definition realpath_within :: "url_lib \<Rightarrow> (string \<Rightarrow> string option) \<Rightarrow> string \<Rightarrow> string \<Rightarrow> bool" where
  "realpath_within ul realpath root_uri target =
     (case uri_to_path ul root_uri of
        Inl _ \<Rightarrow> False
      | Inr root_path \<Rightarrow>
          (case realpath root_path of
             None \<Rightarrow> False
           | Some root_real \<Rightarrow> probe_within realpath root_real target))"


section \<open>References stay inside\<close>

lemma resolve_segs_plain:
  "resolve_segs cs segs = Some out \<Longrightarrow> list_all plain_seg segs \<Longrightarrow>
   (\<And>s. NormalSeg s \<in> set cs \<Longrightarrow> plain_seg s) \<Longrightarrow> list_all plain_seg out"
proof (induction cs segs rule: resolve_segs.induct)
  case (4 cs segs)
  then show ?case
    by (auto simp: list_all_iff split: if_splits dest: in_set_butlastD)
qed auto

lemma resolved_segs_plain: "resolve_segs (path_components rel) [] = Some segs \<Longrightarrow> list_all plain_seg segs"
  using resolve_segs_plain [of "path_components rel" "[]" segs] NormalSeg_plain by auto

text \<open>What it means for a reference to climb out: some prefix has more \<open>..\<close> than names.\<close>

fun net_depth :: "path_component list \<Rightarrow> int" where
  "net_depth [] = 0"
| "net_depth (ParentDir # cs) = net_depth cs - 1"
| "net_depth (NormalSeg _ # cs) = net_depth cs + 1"
| "net_depth (_ # cs) = net_depth cs"

lemma ex_take_Cons: "(\<exists>n. P (take n (x # xs))) \<longleftrightarrow> P [] \<or> (\<exists>n. P (x # take n xs))"
  by (metis take_0 take_Suc_Cons not0_implies_Suc)

definition climbs_out :: "int \<Rightarrow> path_component list \<Rightarrow> bool" where
  "climbs_out k cs \<longleftrightarrow> RootDir \<in> set cs \<or> k + net_depth cs < 0"

lemma climbs_out_simps [simp]:
  "climbs_out k [] \<longleftrightarrow> k < 0"
  "climbs_out k (RootDir # cs)"
  "climbs_out k (CurDir # cs) = climbs_out k cs"
  "climbs_out k (ParentDir # cs) = climbs_out (k - 1) cs"
  "climbs_out k (NormalSeg s # cs) = climbs_out (k + 1) cs"
  by (auto simp: climbs_out_def)

lemma resolve_segs_None:
  "resolve_segs cs segs = None \<longleftrightarrow> (\<exists>n. climbs_out (int (length segs)) (take n cs))"
proof (induction cs segs rule: resolve_segs.induct)
  case (4 cs segs)
  have "int (length segs) - 1 = int (length (butlast segs))" if "segs \<noteq> []"
    using that by (simp add: of_nat_diff Suc_leI)
  then show ?case
    using 4 by (auto simp: ex_take_Cons [where P = "climbs_out k" for k] intro: exI [of _ 0])
next
  case (5 s cs segs)
  then show ?case
    by (auto simp: ex_take_Cons [where P = "climbs_out k" for k] add.commute)
qed (auto simp: ex_take_Cons [where P = "climbs_out k" for k])

definition stays_under :: "string \<Rightarrow> string \<Rightarrow> bool" where
  "stays_under root p \<longleftrightarrow>
     (\<exists>segs. list_all plain_seg segs \<and> path_components p = path_components root @ map NormalSeg segs)"

lemma stays_under_starts_with: "stays_under root p \<Longrightarrow> path_starts_with p root"
  by (auto simp: stays_under_def path_starts_with_def)

lemma resolve_relative_Some:
  assumes "resolve_segs (path_components rel) [] = Some segs" and "uri_to_path ul root = Inr rp" and "rp \<noteq> []"
  shows "resolve_relative ul root rel =
    (let p = (if segs = [] then rp else path_join rp (str_join ''/'' segs))
     in case to_file_uri ul p of Inl e \<Rightarrow> Inl e
        | Inr uri \<Rightarrow> Inr \<lparr>rr_relative_path = str_join ''/'' segs, rr_resource_uri = uri, rr_absolute_path = p\<rparr>)"
    and "stays_under rp (if segs = [] then rp else path_join rp (str_join ''/'' segs))"
proof -
  have plain: "list_all plain_seg segs"
    using assms(1) by (rule resolved_segs_plain)
  show under: "stays_under rp (if segs = [] then rp else path_join rp (str_join ''/'' segs))"
    using plain assms(3) components_join_segs [OF plain assms(3)]
    by (auto simp: stays_under_def intro: exI [of _ segs] exI [of _ "[]"])
  show "resolve_relative ul root rel =
    (let p = (if segs = [] then rp else path_join rp (str_join ''/'' segs))
     in case to_file_uri ul p of Inl e \<Rightarrow> Inl e
        | Inr uri \<Rightarrow> Inr \<lparr>rr_relative_path = str_join ''/'' segs, rr_resource_uri = uri, rr_absolute_path = p\<rparr>)"
    using stays_under_starts_with [OF under] assms join_segs_empty [OF plain]
    by (simp add: resolve_relative_def Let_def)
qed

end
