(* ===== verification/Fs_Types.thy ===== *)
theory Fs_Types
  imports Fs_Path
begin

text \<open>
  The data of the file-system monitor, \<open>crates/aionui-project/src/runtime\<close>: facts about
  directory entries (\<open>provider.rs\<close>), raw events and the attribution of what the operating system
  reports (\<open>watcher.rs\<close>), the names that are never shown (\<open>noise.rs\<close>), what the tree reports
  (\<open>tree_model.rs\<close>) and the commands of a shard (\<open>actor.rs\<close>). A \<open>HashSet\<close> is a list without
  duplicates whose order stands for the order of iteration.
\<close>

datatype fs_kind = KindFile | KindDir | KindSymlink

record entry_fact =
  fact_kind :: fs_kind
  fact_inode :: u64
  fact_target :: "string option"

type_synonym listing = "(string, entry_fact) btree_map"

datatype fs_error =
    FsNotFound string
  | FsAlreadyExists string
  | FsPermissionDenied string
  | FsNotADirectory string
  | FsUnsupportedScheme string
  | FsIo string string

datatype tree_change =
    ChangeAdded string fs_kind
  | ChangeRemoved string
  | ChangeRenamed string string

record delta_batch =
  delta_canonical :: string
  delta_changes :: "tree_change list"

record dir_snapshot =
  snap_canonical :: string
  snap_entries :: "(string \<times> entry_fact) list"

datatype apply_hint = HintChildNames "string list" | HintAll

type_synonym millis = u64

record subscriber =
  sub_session :: string
  sub_pe_id :: string
  sub_rel :: string

datatype fs_command =
    CmdSubscribe subscriber string millis
  | CmdUnsubscribe subscriber string millis
  | CmdApply string apply_hint
  | CmdOverflow string
  | CmdDropSession string millis
  | CmdReapTick millis

datatype shard_output =
    OutSnapshot "subscriber list" dir_snapshot
  | OutDelta "subscriber list" delta_batch


section \<open>Hidden names\<close>

definition hidden_exact :: "string list" where
  "hidden_exact =
     [''.git'', ''.ds_store'', ''.spotlight-v100'', ''.trashes'', ''.fseventsd'', ''.appledouble'', ''.apdisk'',
      ''thumbs.db'', ''ehthumbs.db'', ''desktop.ini'', ''$recycle.bin'', ''.directory'']"

definition hidden_prefix :: "string list" where
  "hidden_prefix = [''._'', ''.trash-'']"

definition should_hide :: "string \<Rightarrow> bool" where
  "should_hide name =
     (let lower = ascii_lower name
      in lower \<in> set hidden_exact \<or> list_ex (\<lambda>p. take (length p) lower = p) hidden_prefix)"


section \<open>Raw events\<close>

datatype raw_event = RawChanged string "string list" | RawOverflow string

text \<open>An event of the \<open>notify\<close> crate: whether it asks for a rescan, and its paths.\<close>

record notify_event =
  ev_need_rescan :: bool
  ev_paths :: "string list"

definition collect_owner :: "string list \<Rightarrow> string \<Rightarrow> string list" where
  "collect_owner seen c = (if c \<in> set seen then seen else seen @ [c])"

fun add_path :: "string \<Rightarrow> string \<Rightarrow> (string \<times> string list) list \<Rightarrow> (string \<times> string list) list" where
  "add_path p c [] = [(c, [p])]"
| "add_path p c ((c', ps) # gs) = (if c' = c then (c', ps @ [p]) # gs else (c', ps) # add_path p c gs)"

definition map_event :: "notify_event \<Rightarrow> (string \<Rightarrow> string list) \<Rightarrow> raw_event list" where
  "map_event ev resolve =
     (if ev_need_rescan ev
      then map RawOverflow (foldl (\<lambda>seen p. foldl collect_owner seen (resolve p)) [] (ev_paths ev))
      else map (\<lambda>(c, ps). RawChanged c ps)
        (foldl (\<lambda>gs p. foldl (\<lambda>gs c. add_path p c gs) gs (resolve p)) [] (ev_paths ev)))"

text \<open>The names of children an event asks to check again.\<close>

definition child_names :: "string list \<Rightarrow> string list" where
  "child_names paths = filter_map path_file_name paths"

end
