(* ===== verification/Fs_Tree.thy ===== *)
theory Fs_Tree
  imports Fs_Types
begin

text \<open>
  The tree of mounted directories (\<open>tree_model.rs\<close>) over the runtimes of the registered schemes
  (\<open>fs_runtime.rs\<close>). What the operating system answers is a parameter: a function for each
  request, from the state of the world to the answer and the next state.
\<close>

section \<open>The environment\<close>

record 'w fs_runtime =
  rt_watch :: "string \<Rightarrow> 'w \<Rightarrow> (fs_error + unit) \<times> 'w"
  rt_unwatch :: "string \<Rightarrow> 'w \<Rightarrow> 'w"
  rt_read_dir :: "string \<Rightarrow> 'w \<Rightarrow> (fs_error + (string \<times> entry_fact) list) \<times> 'w"
  rt_stat :: "string \<Rightarrow> 'w \<Rightarrow> (fs_error + entry_fact option) \<times> 'w"
  rt_mkdir :: "string \<Rightarrow> 'w \<Rightarrow> (fs_error + unit) \<times> 'w"
  rt_remove :: "string \<Rightarrow> bool \<Rightarrow> 'w \<Rightarrow> (fs_error + unit) \<times> 'w"
  rt_rename :: "string \<Rightarrow> string \<Rightarrow> 'w \<Rightarrow> (fs_error + unit) \<times> 'w"
  rt_searches :: bool

record 'w fs_env =
  fe_url :: url_lib
  fe_runtimes :: "(string, 'w fs_runtime) hash_map"

definition runtime_for :: "'w fs_env \<Rightarrow> string \<Rightarrow> fs_error + 'w fs_runtime" where
  "runtime_for fe c =
     (case parse_scheme (fe_url fe) c of
        Inl _ \<Rightarrow> Inl (FsIo c ''cannot parse scheme'')
      | Inr SchemeFile \<Rightarrow>
          (case map_of (fe_runtimes fe) ''file'' of
             Some rt \<Rightarrow> Inr rt | None \<Rightarrow> Inl (FsUnsupportedScheme ''file'')))"

definition child_uri :: "'w fs_env \<Rightarrow> string \<Rightarrow> string \<Rightarrow> fs_error + string" where
  "child_uri fe c name =
     (case uri_to_path (fe_url fe) c of
        Inl _ \<Rightarrow> Inl (FsIo c ''invalid canonical'')
      | Inr dir \<Rightarrow>
          (case to_file_uri (fe_url fe) (path_join dir name) of
             Inl _ \<Rightarrow> Inl (FsIo c ''cannot build child uri'')
           | Inr uri \<Rightarrow> Inr uri))"


section \<open>Differences between two listings\<close>

definition removed_entries :: "listing \<Rightarrow> listing \<Rightarrow> (string \<times> entry_fact) list" where
  "removed_entries old fresh =
     filter (\<lambda>(name, f). case map_of fresh name of None \<Rightarrow> True | Some nf \<Rightarrow> fact_kind nf \<noteq> fact_kind f) old"

definition added_entries :: "listing \<Rightarrow> listing \<Rightarrow> (string \<times> entry_fact) list" where
  "added_entries old fresh =
     filter_map (\<lambda>(name, f). case map_of fresh name of
        Some nf \<Rightarrow> if fact_kind nf \<noteq> fact_kind f then Some (name, nf) else None
      | None \<Rightarrow> None) old @
     filter (\<lambda>(name, _). map_of old name = None) fresh"

text \<open>The added entries with the mark of those that a rename has used.\<close>

fun take_match :: "entry_fact \<Rightarrow> (bool \<times> string \<times> entry_fact) list \<Rightarrow>
    (string \<times> (bool \<times> string \<times> entry_fact) list) option" where
  "take_match rf [] = None"
| "take_match rf ((used, name, af) # added) =
     (if \<not> used \<and> fact_inode af = fact_inode rf \<and> fact_kind af = fact_kind rf
      then Some (name, (True, name, af) # added)
      else map_option (\<lambda>(n, added'). (n, (used, name, af) # added')) (take_match rf added))"

fun match_renames :: "(string \<times> entry_fact) list \<Rightarrow> (bool \<times> string \<times> entry_fact) list \<Rightarrow>
    tree_change list \<times> (string \<times> entry_fact) list \<times> (bool \<times> string \<times> entry_fact) list" where
  "match_renames [] added = ([], [], added)"
| "match_renames ((name, rf) # removed) added =
     (case (if fact_inode rf \<noteq> 0 then take_match rf added else None) of
        Some (to_name, added1) \<Rightarrow>
          let (renames, kept, added2) = match_renames removed added1
          in (ChangeRenamed name to_name # renames, kept, added2)
      | None \<Rightarrow>
          let (renames, kept, added2) = match_renames removed added
          in (renames, (name, rf) # kept, added2))"

definition tree_diff :: "listing \<Rightarrow> listing \<Rightarrow> tree_change list" where
  "tree_diff old fresh =
     (let (renames, kept, added) =
        match_renames (removed_entries old fresh) (map (Pair False) (added_entries old fresh))
      in renames @ map (\<lambda>(_, name, f). ChangeAdded name (fact_kind f)) (filter (\<lambda>(used, _). \<not> used) added) @
         map (\<lambda>(name, _). ChangeRemoved name) kept)"


section \<open>The tree\<close>

record tree_node =
  node_entries :: listing
  node_watch :: string

type_synonym tree = "(string, tree_node) hash_map"

definition tree_snapshot :: "string \<Rightarrow> tree \<Rightarrow> dir_snapshot option" where
  "tree_snapshot c t =
     map_option (\<lambda>n. \<lparr>snap_canonical = c, snap_entries = node_entries n\<rparr>) (map_of t c)"

definition to_btree :: "(string \<times> 'a) list \<Rightarrow> (string, 'a) btree_map" where
  "to_btree xs = foldl (\<lambda>m (k, v). bt_insert k v m) [] xs"

text \<open>The watch is armed before the listing is read.\<close>

definition tree_mount :: "'w fs_env \<Rightarrow> string \<Rightarrow> tree \<Rightarrow> 'w \<Rightarrow> (fs_error + dir_snapshot) \<times> tree \<times> 'w" where
  "tree_mount fe c t w =
     (case tree_snapshot c t of
        Some s \<Rightarrow> (Inr s, t, w)
      | None \<Rightarrow>
          (case runtime_for fe c of
             Inl e \<Rightarrow> (Inl e, t, w)
           | Inr rt \<Rightarrow>
               (case rt_watch rt c w of
                  (Inl e, w1) \<Rightarrow> (Inl e, t, w1)
                | (Inr _, w1) \<Rightarrow>
                    (case rt_read_dir rt c w1 of
                       (Inl e, w2) \<Rightarrow> (Inl e, t, w2)
                     | (Inr xs, w2) \<Rightarrow>
                         let n = \<lparr>node_entries = to_btree xs, node_watch = c\<rparr>
                         in (Inr \<lparr>snap_canonical = c, snap_entries = node_entries n\<rparr>, hm_insert c n t, w2)))))"

definition tree_unmount :: "'w fs_env \<Rightarrow> string \<Rightarrow> tree \<times> 'w \<Rightarrow> tree \<times> 'w" where
  "tree_unmount fe c tw =
     (case map_of (fst tw) c of
        None \<Rightarrow> tw
      | Some n \<Rightarrow>
          (hm_remove c (fst tw),
           case runtime_for fe c of Inl _ \<Rightarrow> snd tw | Inr rt \<Rightarrow> rt_unwatch rt (node_watch n) (snd tw)))"

fun stat_children ::
  "'w fs_env \<Rightarrow> 'w fs_runtime \<Rightarrow> string \<Rightarrow> string list \<Rightarrow> listing \<Rightarrow> 'w \<Rightarrow> (fs_error + listing) \<times> 'w" where
  "stat_children fe rt c [] m w = (Inr m, w)"
| "stat_children fe rt c (name # names) m w =
     (if should_hide name then stat_children fe rt c names m w
      else (case child_uri fe c name of
          Inl e \<Rightarrow> (Inl e, w)
        | Inr uri \<Rightarrow>
            (case rt_stat rt uri w of
               (Inl e, w1) \<Rightarrow> (Inl e, w1)
             | (Inr (Some f), w1) \<Rightarrow> stat_children fe rt c names (bt_insert name f m) w1
             | (Inr None, w1) \<Rightarrow> stat_children fe rt c names (hm_remove name m) w1)))"

definition read_fresh ::
  "'w fs_env \<Rightarrow> 'w fs_runtime \<Rightarrow> string \<Rightarrow> apply_hint \<Rightarrow> listing \<Rightarrow> 'w \<Rightarrow> (fs_error + listing) \<times> 'w" where
  "read_fresh fe rt c hint old w =
     (case hint of
        HintAll \<Rightarrow> (case rt_read_dir rt c w of (Inl e, w1) \<Rightarrow> (Inl e, w1) | (Inr xs, w1) \<Rightarrow> (Inr (to_btree xs), w1))
      | HintChildNames names \<Rightarrow> stat_children fe rt c names old w)"

definition tree_apply ::
  "'w fs_env \<Rightarrow> string \<Rightarrow> apply_hint \<Rightarrow> tree \<Rightarrow> 'w \<Rightarrow> (fs_error + delta_batch option) \<times> tree \<times> 'w" where
  "tree_apply fe c hint t w =
     (case map_of t c of
        None \<Rightarrow> (Inr None, t, w)
      | Some n \<Rightarrow>
          (case runtime_for fe c of
             Inl e \<Rightarrow> (Inl e, t, w)
           | Inr rt \<Rightarrow>
               (case read_fresh fe rt c hint (node_entries n) w of
                  (Inl e, w1) \<Rightarrow> (Inl e, t, w1)
                | (Inr fresh, w1) \<Rightarrow>
                    let changes = tree_diff (node_entries n) fresh
                    in if changes = [] then (Inr None, t, w1)
                       else (Inr (Some \<lparr>delta_canonical = c, delta_changes = changes\<rparr>),
                             hm_insert c (n\<lparr>node_entries := fresh\<rparr>) t, w1))))"

end
