(* ===== verification/Fs_Subscription.thy ===== *)
theory Fs_Subscription
  imports Fs_Types
begin

text \<open>
  Which sessions follow which directories (\<open>subscription.rs\<close>): the index of a session's
  directories, the subscribers of a directory, and the directories kept warm for a while after
  their last subscriber has left.
\<close>

section \<open>State and operations\<close>

definition grace_ttl_ms :: millis where
  "grace_ttl_ms = 300000"

datatype subscribe_outcome = SubMount | SubRescuedFromGrace | SubAlreadyLive

datatype unsubscribe_outcome = UnsubEnteredGrace | UnsubStillLive | UnsubNotSubscribed

record registry =
  reg_forward :: "(string, string list) hash_map"
  reg_reverse :: "(string, subscriber list) hash_map"
  reg_grace :: "(string, millis) hash_map"

definition subscriptions_new :: registry where
  "subscriptions_new = \<lparr>reg_forward = [], reg_reverse = [], reg_grace = []\<rparr>"

definition reg_subscribe :: "subscriber \<Rightarrow> string \<Rightarrow> registry \<Rightarrow> subscribe_outcome \<times> registry" where
  "reg_subscribe sub c reg =
     (let session = sub_session sub;
          forward = hm_insert session (List.insert c (or_default (map_of (reg_forward reg) session))) (reg_forward reg);
          rescued = (map_of (reg_grace reg) c \<noteq> None);
          subs = or_default (map_of (reg_reverse reg) c)
      in (if rescued then SubRescuedFromGrace else if subs = [] then SubMount else SubAlreadyLive,
          \<lparr>reg_forward = forward, reg_reverse = hm_insert c (List.insert sub subs) (reg_reverse reg),
           reg_grace = hm_remove c (reg_grace reg)\<rparr>))"

text \<open>A directory without subscribers moves to the grace map.\<close>

definition set_subscribers :: "string \<Rightarrow> millis \<Rightarrow> subscriber list \<Rightarrow> registry \<Rightarrow> registry" where
  "set_subscribers c now subs reg =
     (if subs = []
      then reg\<lparr>reg_reverse := hm_remove c (reg_reverse reg),
               reg_grace := hm_insert c (now + grace_ttl_ms) (reg_grace reg)\<rparr>
      else reg\<lparr>reg_reverse := hm_insert c subs (reg_reverse reg)\<rparr>)"

definition reg_unsubscribe :: "subscriber \<Rightarrow> string \<Rightarrow> millis \<Rightarrow> registry \<Rightarrow> unsubscribe_outcome \<times> registry" where
  "reg_unsubscribe sub c now reg =
     (let session = sub_session sub;
          forward = (case map_of (reg_forward reg) session of
              None \<Rightarrow> reg_forward reg
            | Some cs \<Rightarrow>
                let cs' = removeAll c cs
                in if cs' = [] then hm_remove session (reg_forward reg)
                   else hm_insert session cs' (reg_forward reg));
          reg1 = reg\<lparr>reg_forward := forward\<rparr>
      in case map_of (reg_reverse reg) c of
           None \<Rightarrow> (UnsubNotSubscribed, reg1)
         | Some subs \<Rightarrow>
             let subs' = removeAll sub subs
             in (if subs' = [] then UnsubEnteredGrace else UnsubStillLive, set_subscribers c now subs' reg1))"

definition drop_from :: "string \<Rightarrow> millis \<Rightarrow> string list \<times> registry \<Rightarrow> string \<Rightarrow> string list \<times> registry" where
  "drop_from session now acc c =
     (let (graced, reg) = acc
      in case map_of (reg_reverse reg) c of
           None \<Rightarrow> (graced, reg)
         | Some subs \<Rightarrow>
             let subs' = filter (\<lambda>s. sub_session s \<noteq> session) subs
             in (if subs' = [] then graced @ [c] else graced, set_subscribers c now subs' reg))"

definition reg_drop_session :: "string \<Rightarrow> millis \<Rightarrow> registry \<Rightarrow> string list \<times> registry" where
  "reg_drop_session session now reg =
     (let canonicals = or_default (map_of (reg_forward reg) session);
          (graced, reg1) = foldl (drop_from session now) ([], reg\<lparr>reg_forward := hm_remove session (reg_forward reg)\<rparr>) canonicals
      in (sort graced, reg1))"

definition reg_reap :: "millis \<Rightarrow> registry \<Rightarrow> string list \<times> registry" where
  "reg_reap now reg =
     (let expired = map fst (filter (\<lambda>(c, evict_at). evict_at \<le> now) (reg_grace reg))
      in (sort expired, reg\<lparr>reg_grace := fold hm_remove expired (reg_grace reg)\<rparr>))"

definition watched_count :: "registry \<Rightarrow> nat" where
  "watched_count reg = length (reg_reverse reg) + length (reg_grace reg)"

definition reg_is_watched :: "string \<Rightarrow> registry \<Rightarrow> bool" where
  "reg_is_watched c reg \<longleftrightarrow> map_of (reg_reverse reg) c \<noteq> None \<or> map_of (reg_grace reg) c \<noteq> None"

definition subscribers_of :: "string \<Rightarrow> registry \<Rightarrow> subscriber list option" where
  "subscribers_of c reg = map_of (reg_reverse reg) c"

text \<open>The entry with the least time, and the least name among those.\<close>

fun oldest_grace :: "(string, millis) hash_map \<Rightarrow> (string \<times> millis) option" where
  "oldest_grace [] = None"
| "oldest_grace ((c, t) # g) =
     (case oldest_grace g of
        None \<Rightarrow> Some (c, t)
      | Some (c', t') \<Rightarrow> if t < t' \<or> t = t' \<and> c \<le> c' then Some (c, t) else Some (c', t'))"

lemma oldest_grace_in: "oldest_grace g = Some (c, t) \<Longrightarrow> (c, t) \<in> set g"
  by (induction g arbitrary: c t) (auto split: option.splits if_splits)

lemma length_hm_remove: "k \<in> set (hm_keys m) \<Longrightarrow> length (hm_remove k m) < length m"
proof (induction m)
  case (Cons kv m)
  then show ?case
    by (cases "k \<in> set (hm_keys m)") (auto simp: less_Suc_eq_le length_delete_le)
qed simp

function enforce_watch_budget :: "nat \<Rightarrow> registry \<Rightarrow> string list \<times> registry" where
  "enforce_watch_budget budget reg =
     (case oldest_grace (reg_grace reg) of
        None \<Rightarrow> ([], reg)
      | Some (oldest, _) \<Rightarrow>
          if watched_count reg > budget
          then let (evicted, reg1) = enforce_watch_budget budget (reg\<lparr>reg_grace := hm_remove oldest (reg_grace reg)\<rparr>)
               in (oldest # evicted, reg1)
          else ([], reg))"
  by pat_completeness auto
termination
  by (relation "measure (\<lambda>(_, reg). length (reg_grace reg))")
    (auto intro!: length_hm_remove dest!: oldest_grace_in, force)

declare enforce_watch_budget.simps [simp del]

end
