(* ===== verification/Fs_Shard.thy ===== *)
theory Fs_Shard
  imports Fs_Tree Fs_Subscription
begin

text \<open>
  The shard (\<open>runtime/actor.rs\<close>): one worker that owns the tree and the registry and handles one
  command at a time, and the buffer that coalesces raw events before they become commands.
\<close>

section \<open>Coalescing\<close>

definition raw_to_command :: "raw_event \<Rightarrow> fs_command" where
  "raw_to_command ev =
     (case ev of
        RawChanged c paths \<Rightarrow> CmdApply c (HintChildNames (child_names paths))
      | RawOverflow c \<Rightarrow> CmdOverflow c)"

datatype pending_change = PendingChanged "string list" | PendingOverflow

type_synonym debouncer = "(string, pending_change) hash_map"

definition debounce_push :: "raw_event \<Rightarrow> debouncer \<Rightarrow> debouncer" where
  "debounce_push ev d =
     (case ev of
        RawOverflow c \<Rightarrow> hm_insert c PendingOverflow d
      | RawChanged c paths \<Rightarrow>
          (case map_of d c of
             Some PendingOverflow \<Rightarrow> d
           | Some (PendingChanged names) \<Rightarrow> hm_insert c (PendingChanged (btree_set (names @ child_names paths))) d
           | None \<Rightarrow> hm_insert c (PendingChanged (btree_set (child_names paths))) d))"

definition pending_command :: "string \<times> pending_change \<Rightarrow> fs_command" where
  "pending_command p =
     (case p of
        (c, PendingOverflow) \<Rightarrow> CmdOverflow c
      | (c, PendingChanged names) \<Rightarrow> CmdApply c (HintChildNames names))"

definition debounce_drain :: "debouncer \<Rightarrow> fs_command list \<times> debouncer" where
  "debounce_drain d = (map pending_command (sort_key fst d), [])"


section \<open>The shard\<close>

record shard =
  sh_tree :: tree
  sh_subs :: registry
  sh_warm_budget :: nat

definition shard_new :: "nat \<Rightarrow> shard" where
  "shard_new budget = \<lparr>sh_tree = [], sh_subs = subscriptions_new, sh_warm_budget = budget\<rparr>"

definition recipients :: "shard \<Rightarrow> string \<Rightarrow> subscriber list" where
  "recipients sh c = or_default (subscribers_of c (sh_subs sh))"

type_synonym 'w shard_result = "(fs_error + shard_output list) \<times> shard \<times> 'w"

definition handle_subscribe_command :: "'w fs_env \<Rightarrow> subscriber \<Rightarrow> string \<Rightarrow> shard \<Rightarrow> 'w \<Rightarrow> 'w shard_result" where
  "handle_subscribe_command fe sub c sh w =
     (let (outcome, subs) = reg_subscribe sub c (sh_subs sh);
          sh1 = sh\<lparr>sh_subs := subs\<rparr>;
          mounted = (if outcome = SubMount then None else tree_snapshot c (sh_tree sh1))
      in case mounted of
           Some s \<Rightarrow> (Inr [OutSnapshot [sub] s], sh1, w)
         | None \<Rightarrow>
             (case tree_mount fe c (sh_tree sh1) w of
                (Inl e, t, w1) \<Rightarrow> (Inl e, sh1\<lparr>sh_tree := t\<rparr>, w1)
              | (Inr s, t, w1) \<Rightarrow> (Inr [OutSnapshot [sub] s], sh1\<lparr>sh_tree := t\<rparr>, w1)))"

definition handle_apply_command :: "'w fs_env \<Rightarrow> string \<Rightarrow> apply_hint \<Rightarrow> shard \<Rightarrow> 'w \<Rightarrow> 'w shard_result" where
  "handle_apply_command fe c hint sh w =
     (case tree_apply fe c hint (sh_tree sh) w of
        (Inl e, t, w1) \<Rightarrow> (Inl e, sh\<lparr>sh_tree := t\<rparr>, w1)
      | (Inr None, t, w1) \<Rightarrow> (Inr [], sh\<lparr>sh_tree := t\<rparr>, w1)
      | (Inr (Some delta), t, w1) \<Rightarrow>
          let subs = recipients sh c
          in (Inr (if subs = [] then [] else [OutDelta subs delta]), sh\<lparr>sh_tree := t\<rparr>, w1))"

definition handle_overflow_command :: "'w fs_env \<Rightarrow> string \<Rightarrow> shard \<Rightarrow> 'w \<Rightarrow> 'w shard_result" where
  "handle_overflow_command fe c sh w =
     (if tree_snapshot c (sh_tree sh) = None then (Inr [], sh, w)
      else (case tree_apply fe c HintAll (sh_tree sh) w of
          (Inl e, t, w1) \<Rightarrow> (Inl e, sh\<lparr>sh_tree := t\<rparr>, w1)
        | (Inr _, t, w1) \<Rightarrow>
            let subs = recipients sh c
            in (Inr (case tree_snapshot c t of
                  Some s \<Rightarrow> if subs = [] then [] else [OutSnapshot subs s]
                | None \<Rightarrow> []), sh\<lparr>sh_tree := t\<rparr>, w1)))"

definition unmount_all :: "'w fs_env \<Rightarrow> string list \<Rightarrow> tree \<times> 'w \<Rightarrow> tree \<times> 'w" where
  "unmount_all fe cs tw = fold (tree_unmount fe) cs tw"

definition handle_reap_command :: "'w fs_env \<Rightarrow> millis \<Rightarrow> shard \<Rightarrow> 'w \<Rightarrow> 'w shard_result" where
  "handle_reap_command fe now sh w =
     (let (expired, subs1) = reg_reap now (sh_subs sh);
          tw1 = unmount_all fe expired (sh_tree sh, w);
          (evicted, subs2) = enforce_watch_budget (sh_warm_budget sh) subs1;
          (t, w2) = unmount_all fe evicted tw1
      in (Inr [], sh\<lparr>sh_tree := t, sh_subs := subs2\<rparr>, w2))"

fun shard_handle :: "'w fs_env \<Rightarrow> fs_command \<Rightarrow> shard \<Rightarrow> 'w \<Rightarrow> 'w shard_result" where
  "shard_handle fe (CmdSubscribe sub c now) sh w = handle_subscribe_command fe sub c sh w"
| "shard_handle fe (CmdUnsubscribe sub c now) sh w =
     (Inr [], sh\<lparr>sh_subs := snd (reg_unsubscribe sub c now (sh_subs sh))\<rparr>, w)"
| "shard_handle fe (CmdApply c hint) sh w = handle_apply_command fe c hint sh w"
| "shard_handle fe (CmdOverflow c) sh w = handle_overflow_command fe c sh w"
| "shard_handle fe (CmdDropSession session now) sh w =
     (Inr [], sh\<lparr>sh_subs := snd (reg_drop_session session now (sh_subs sh))\<rparr>, w)"
| "shard_handle fe (CmdReapTick now) sh w = handle_reap_command fe now sh w"

definition shard_is_watched :: "string \<Rightarrow> shard \<Rightarrow> bool" where
  "shard_is_watched c sh = reg_is_watched c (sh_subs sh)"

end
