(* ===== verification/Fs_Search.thy ===== *)
theory Fs_Search
  imports Fs_Types "HOL-Library.Multiset"
begin

text \<open>
  The search of file names (\<open>runtime/search.rs\<close>, \<open>walk_names\<close> of \<open>runtime/local_provider.rs\<close>,
  \<open>monitor/search.rs\<close>): one walk per root, all sharing a budget of hits, a token that cancels
  them and a collector that sends the hits in batches, and the coordinator that waits for the
  walks. Each step is one access to what they share; the steps of the walks interleave. What a
  walk finds is the iterator of the \<open>ignore\<close> crate, a parameter.
\<close>

section \<open>Matching a name\<close>

datatype match_mode = Substring | Subsequence

record name_matcher =
  nm_needle :: string
  nm_mode :: match_mode

definition name_matcher_new :: "text_lib \<Rightarrow> string \<Rightarrow> match_mode \<Rightarrow> name_matcher" where
  "name_matcher_new tx query mode = \<lparr>nm_needle = tl_lower tx query, nm_mode = mode\<rparr>"

fun is_subsequence :: "'c list \<Rightarrow> 'c list \<Rightarrow> bool" where
  "is_subsequence needle [] \<longleftrightarrow> needle = []"
| "is_subsequence needle (c # hay) \<longleftrightarrow>
     (case needle of
        [] \<Rightarrow> True
      | n # ns \<Rightarrow> if n = c then is_subsequence ns hay else is_subsequence needle hay)"

definition name_matches :: "text_lib \<Rightarrow> name_matcher \<Rightarrow> string \<Rightarrow> bool" where
  "name_matches tx m name =
     (if nm_needle m = [] then True
      else let hay = tl_lower tx name
        in case nm_mode m of
             Substring \<Rightarrow> str_contains (nm_needle m) hay
           | Subsequence \<Rightarrow> is_subsequence (tl_chars tx (nm_needle m)) (tl_chars tx hay))"


section \<open>State of a search\<close>

record search_hit =
  hit_pe :: string
  hit_rel :: string
  hit_name :: string

text \<open>What the iterator yields: an entry it cannot read, a directory, a file with its path
  relative to the root and its name.\<close>

datatype walk_entry = WalkUnreadable | WalkDir | WalkFile string string

definition cancel_check_stride :: nat where
  "cancel_check_stride = 128"

definition search_match_batch :: nat where
  "search_match_batch = 64"

datatype walk_pc =
    WalkNext
  | WalkMatched search_hit
  | WalkTake search_hit
  | WalkEmit search_hit
  | WalkSend "search_hit list"
  | WalkStopped

record walker =
  wk_pe :: string
  wk_entries :: "walk_entry list"
  wk_seen :: nat
  wk_pc :: walk_pc

datatype search_push = PushMatches "search_hit list" | PushTerminal bool nat

datatype coordinator_pc = CoJoin | CoFlush | CoDone bool | CoTerminal bool | CoEnd

record search_state =
  ss_walkers :: "walker list"
  ss_remaining :: nat
  ss_hit_cap :: bool
  ss_cancelled :: bool
  ss_buf :: "search_hit list"
  ss_total :: nat
  ss_pushed :: "search_push list"
  ss_done :: bool
  ss_pc :: coordinator_pc

text \<open>A root whose search fails before its walk has no entries: \<open>None\<close>.\<close>

definition walker_new :: "string \<times> walk_entry list option \<Rightarrow> walker" where
  "walker_new root =
     (case snd root of
        Some es \<Rightarrow> \<lparr>wk_pe = fst root, wk_entries = es, wk_seen = 0, wk_pc = WalkNext\<rparr>
      | None \<Rightarrow> \<lparr>wk_pe = fst root, wk_entries = [], wk_seen = 0, wk_pc = WalkStopped\<rparr>)"

definition search_start :: "nat \<Rightarrow> (string \<times> walk_entry list option) list \<Rightarrow> search_state" where
  "search_start limit roots =
     \<lparr>ss_walkers = map walker_new roots, ss_remaining = limit, ss_hit_cap = False, ss_cancelled = False,
      ss_buf = [], ss_total = 0, ss_pushed = [], ss_done = False, ss_pc = CoJoin\<rparr>"


section \<open>Steps of a walk\<close>

definition walk_next :: "text_lib \<Rightarrow> name_matcher \<Rightarrow> bool \<Rightarrow> walker \<Rightarrow> walker" where
  "walk_next tx m cancelled wk =
     (case wk_entries wk of
        [] \<Rightarrow> wk\<lparr>wk_pc := WalkStopped\<rparr>
      | e # es \<Rightarrow>
          if wk_seen wk mod cancel_check_stride = 0 \<and> cancelled then wk\<lparr>wk_pc := WalkStopped\<rparr>
          else wk\<lparr>wk_entries := es, wk_seen := Suc (wk_seen wk),
                  wk_pc := (case e of
                      WalkFile rel name \<Rightarrow>
                        if name_matches tx m name
                        then WalkMatched \<lparr>hit_pe = wk_pe wk, hit_rel = rel, hit_name = name\<rparr> else WalkNext
                    | _ \<Rightarrow> WalkNext)\<rparr>)"

definition budget_try_take :: "search_state \<Rightarrow> bool \<times> search_state" where
  "budget_try_take s =
     (if ss_remaining s = 0 then (False, s\<lparr>ss_hit_cap := True\<rparr>)
      else (True, s\<lparr>ss_remaining := ss_remaining s - 1\<rparr>))"

definition push_hit :: "search_hit \<Rightarrow> search_state \<Rightarrow> search_hit list option \<times> search_state" where
  "push_hit hit s =
     (let buf = ss_buf s @ [hit];
          s1 = s\<lparr>ss_total := Suc (ss_total s)\<rparr>
      in if length buf \<ge> search_match_batch then (Some buf, s1\<lparr>ss_buf := []\<rparr>)
         else (None, s1\<lparr>ss_buf := buf\<rparr>))"

definition emit_batch :: "search_hit list \<Rightarrow> search_state \<Rightarrow> search_state" where
  "emit_batch batch s = s\<lparr>ss_pushed := ss_pushed s @ [PushMatches batch]\<rparr>"

definition walk_step :: "text_lib \<Rightarrow> name_matcher \<Rightarrow> walker \<Rightarrow> search_state \<Rightarrow> walker \<times> search_state" where
  "walk_step tx m wk s =
     (case wk_pc wk of
        WalkNext \<Rightarrow> (walk_next tx m (ss_cancelled s) wk, s)
      | WalkMatched hit \<Rightarrow> (wk\<lparr>wk_pc := if ss_cancelled s then WalkStopped else WalkTake hit\<rparr>, s)
      | WalkTake hit \<Rightarrow>
          (let (taken, s1) = budget_try_take s
           in (wk\<lparr>wk_pc := if taken then WalkEmit hit else WalkStopped\<rparr>, s1))
      | WalkEmit hit \<Rightarrow>
          (let (batch, s1) = push_hit hit s
           in (wk\<lparr>wk_pc := case batch of Some b \<Rightarrow> WalkSend b | None \<Rightarrow> WalkNext\<rparr>, s1))
      | WalkSend batch \<Rightarrow> (wk\<lparr>wk_pc := WalkNext\<rparr>, emit_batch batch s)
      | WalkStopped \<Rightarrow> (wk, s))"

definition step_walker :: "text_lib \<Rightarrow> name_matcher \<Rightarrow> nat \<Rightarrow> search_state \<Rightarrow> search_state" where
  "step_walker tx m i s =
     (let (wk, s1) = walk_step tx m (ss_walkers s ! i) s
      in s1\<lparr>ss_walkers := (ss_walkers s1)[i := wk]\<rparr>)"


section \<open>Steps of the coordinator\<close>

definition coordinator_step :: "search_state \<Rightarrow> search_state" where
  "coordinator_step s =
     (case ss_pc s of
        CoJoin \<Rightarrow>
          if list_all (\<lambda>wk. wk_pc wk = WalkStopped) (ss_walkers s)
          then s\<lparr>ss_pc := if ss_cancelled s then CoEnd else CoFlush\<rparr> else s
      | CoFlush \<Rightarrow>
          (if ss_buf s = [] then s else emit_batch (ss_buf s) (s\<lparr>ss_buf := []\<rparr>))\<lparr>ss_pc := CoDone (ss_hit_cap s)\<rparr>
      | CoDone limit_reached \<Rightarrow> s\<lparr>ss_done := True, ss_pc := CoTerminal limit_reached\<rparr>
      | CoTerminal limit_reached \<Rightarrow>
          s\<lparr>ss_pushed := ss_pushed s @ [PushTerminal limit_reached (ss_total s)], ss_pc := CoEnd\<rparr>
      | CoEnd \<Rightarrow> s)"

inductive search_step :: "text_lib \<Rightarrow> name_matcher \<Rightarrow> search_state \<Rightarrow> search_state \<Rightarrow> bool" for tx m where
  walks: "i < length (ss_walkers s) \<Longrightarrow> search_step tx m s (step_walker tx m i s)"
| coordinates: "search_step tx m s (coordinator_step s)"
| cancels: "search_step tx m s (s\<lparr>ss_cancelled := True\<rparr>)"

definition search_reaches :: "text_lib \<Rightarrow> name_matcher \<Rightarrow> search_state \<Rightarrow> search_state \<Rightarrow> bool" where
  "search_reaches tx m = (search_step tx m)\<^sup>*\<^sup>*"

text \<open>A schedule as a list, for running it: a walk, the coordinator or the token.\<close>

datatype search_move = MoveWalk nat | MoveCoordinate | MoveCancel

fun run_search :: "text_lib \<Rightarrow> name_matcher \<Rightarrow> search_move list \<Rightarrow> search_state \<Rightarrow> search_state" where
  "run_search tx m [] s = s"
| "run_search tx m (MoveWalk i # ms) s =
     run_search tx m ms (if i < length (ss_walkers s) then step_walker tx m i s else s)"
| "run_search tx m (MoveCoordinate # ms) s = run_search tx m ms (coordinator_step s)"
| "run_search tx m (MoveCancel # ms) s = run_search tx m ms (s\<lparr>ss_cancelled := True\<rparr>)"

lemma run_search_reaches: "search_reaches tx m s (run_search tx m ms s)"
  unfolding search_reaches_def
proof (induction tx m ms s rule: run_search.induct)
  case (2 tx m i ms s)
  then show ?case
    using converse_rtranclp_into_rtranclp [where r = "search_step tx m", OF search_step.walks] by auto
next
  case (3 tx m ms s)
  then show ?case
    using converse_rtranclp_into_rtranclp [where r = "search_step tx m", OF search_step.coordinates] by simp
next
  case (4 tx m ms s)
  then show ?case
    using converse_rtranclp_into_rtranclp [where r = "search_step tx m", OF search_step.cancels] by simp
qed simp


section \<open>What is found and what is sent\<close>

lemma is_subsequence_Nil [simp]: "is_subsequence [] hay"
  by (cases hay) simp_all

fun entry_hits :: "text_lib \<Rightarrow> name_matcher \<Rightarrow> string \<Rightarrow> walk_entry list \<Rightarrow> search_hit list" where
  "entry_hits tx m pe [] = []"
| "entry_hits tx m pe (WalkFile rel name # es) =
     (if name_matches tx m name then \<lparr>hit_pe = pe, hit_rel = rel, hit_name = name\<rparr> # entry_hits tx m pe es
      else entry_hits tx m pe es)"
| "entry_hits tx m pe (e # es) = entry_hits tx m pe es"

text \<open>All the hits of a search, and those of a walk that are not in the buffer yet.\<close>

definition all_hits :: "text_lib \<Rightarrow> name_matcher \<Rightarrow> (string \<times> walk_entry list option) list \<Rightarrow> search_hit multiset" where
  "all_hits tx m roots =
     sum_list (map (\<lambda>(pe, es). mset (entry_hits tx m pe (case es of Some es \<Rightarrow> es | None \<Rightarrow> []))) roots)"

fun held_hits :: "walk_pc \<Rightarrow> search_hit list" where
  "held_hits (WalkMatched h) = [h]"
| "held_hits (WalkTake h) = [h]"
| "held_hits (WalkEmit h) = [h]"
| "held_hits _ = []"

fun taken_slots :: "walk_pc \<Rightarrow> nat" where
  "taken_slots (WalkEmit h) = 1"
| "taken_slots _ = 0"

fun batch_hits :: "walk_pc \<Rightarrow> search_hit list" where
  "batch_hits (WalkSend b) = b"
| "batch_hits _ = []"

definition hits_left :: "text_lib \<Rightarrow> name_matcher \<Rightarrow> walker \<Rightarrow> search_hit multiset" where
  "hits_left tx m wk = mset (held_hits (wk_pc wk)) + mset (entry_hits tx m (wk_pe wk) (wk_entries wk))"

fun pushed_hits :: "search_push list \<Rightarrow> search_hit list" where
  "pushed_hits [] = []"
| "pushed_hits (PushMatches b # ps) = b @ pushed_hits ps"
| "pushed_hits (PushTerminal l t # ps) = pushed_hits ps"

lemma pushed_hits_append [simp]: "pushed_hits (ps @ qs) = pushed_hits ps @ pushed_hits qs"
  by (induction ps rule: pushed_hits.induct) simp_all

end
