(* ===== verification/Fs_Wire.thy ===== *)
theory Fs_Wire
  imports Fs_Shard Fs_Search
begin

text \<open>
  The payload layer of the monitor's protocol (\<open>monitor/wire.rs\<close>) and the resolution of a
  reference to a resource (\<open>resolve_reference\<close> of \<open>service.rs\<close>). An identifier of a request is
  any JSON value, kept as its text. The stores of project entries and folders are a parameter.
\<close>

section \<open>Resolving a reference\<close>

datatype file_op = OpRead | OpWrite | OpRemove | OpRename | OpBrowse

record reference_input =
  ri_pe_id :: string
  ri_relative_path :: string
  ri_op :: file_op

record resolved_resource =
  rz_project_id :: string
  rz_pe_id :: string
  rz_folder_id :: string
  rz_root_resource_uri :: string
  rz_root_resource_canonical :: string
  rz_relative_path :: string
  rz_resource_uri :: string
  rz_absolute_path :: "string option"

record entry_row =
  er_project_id :: string
  er_pe_id :: string
  er_folder_id :: string

record folder_row =
  fr_resource_uri :: string
  fr_resource_canonical :: string

text \<open>The store answers for a user and an entry, and for a folder; an error is the database's.\<close>

record 'w project_store =
  ps_get_entry :: "string \<Rightarrow> string \<Rightarrow> 'w \<Rightarrow> (string + entry_row option) \<times> 'w"
  ps_get_folder :: "string \<Rightarrow> 'w \<Rightarrow> (string + folder_row option) \<times> 'w"

definition resolve_in_folder ::
  "url_lib \<Rightarrow> bool \<Rightarrow> entry_row \<Rightarrow> folder_row \<Rightarrow> string \<Rightarrow> project_error + resolved_resource" where
  "resolve_in_folder ul fold_case entry folder rel =
     (case canonicalize ul fold_case (fr_resource_canonical folder) of
        Inl e \<Rightarrow> Inl e
      | Inr root \<Rightarrow>
          (case resolve_relative ul root rel of
             Inl e \<Rightarrow> Inl e
           | Inr r \<Rightarrow> Inr \<lparr>rz_project_id = er_project_id entry, rz_pe_id = er_pe_id entry,
               rz_folder_id = er_folder_id entry, rz_root_resource_uri = fr_resource_uri folder,
               rz_root_resource_canonical = fr_resource_canonical folder,
               rz_relative_path = rr_relative_path r, rz_resource_uri = rr_resource_uri r,
               rz_absolute_path = Some (rr_absolute_path r)\<rparr>))"

definition resolve_reference ::
  "'w project_store \<Rightarrow> url_lib \<Rightarrow> bool \<Rightarrow> string \<Rightarrow> reference_input \<Rightarrow> 'w \<Rightarrow> (project_error + resolved_resource) \<times> 'w" where
  "resolve_reference ps ul fold_case user input w =
     (case ps_get_entry ps user (ri_pe_id input) w of
        (Inl e, w1) \<Rightarrow> (Inl (ProjectDatabase e), w1)
      | (Inr None, w1) \<Rightarrow> (Inl (ProjectExplorerNotFound (ri_pe_id input)), w1)
      | (Inr (Some entry), w1) \<Rightarrow>
          (case ps_get_folder ps (er_folder_id entry) w1 of
             (Inl e, w2) \<Rightarrow> (Inl (ProjectDatabase e), w2)
           | (Inr None, w2) \<Rightarrow> (Inl (ProjectDatabase (''folder '' @ er_folder_id entry)), w2)
           | (Inr (Some folder), w2) \<Rightarrow> (resolve_in_folder ul fold_case entry folder (ri_relative_path input), w2)))"


section \<open>Codes\<close>

type_synonym rpc_error = "int \<times> string"

definition code_invalid_request :: int where "code_invalid_request = -32600"
definition code_method_not_found :: int where "code_method_not_found = -32601"
definition code_invalid_params :: int where "code_invalid_params = -32602"
definition code_out_of_scope :: int where "code_out_of_scope = -32000"
definition code_unsupported_resource_scheme :: int where "code_unsupported_resource_scheme = -32001"
definition code_resource_not_found :: int where "code_resource_not_found = -32002"
definition code_resource_outside_folder :: int where "code_resource_outside_folder = -32003"
definition code_invalid_relative_path :: int where "code_invalid_relative_path = -32004"
definition code_provider_unavailable :: int where "code_provider_unavailable = -32006"
definition code_protocol_version_unsupported :: int where "code_protocol_version_unsupported = -32010"

fun project_error_to_rpc :: "project_error \<Rightarrow> rpc_error" where
  "project_error_to_rpc (ProjectExplorerNotFound _) = (code_out_of_scope, ''out_of_scope'')"
| "project_error_to_rpc (ProjectNotFound _) = (code_out_of_scope, ''out_of_scope'')"
| "project_error_to_rpc (InvalidRelativePath _) = (code_invalid_relative_path, ''invalid_relative_path'')"
| "project_error_to_rpc (ResourceOutsideFolder _) = (code_resource_outside_folder, ''resource_outside_folder'')"
| "project_error_to_rpc (UnsupportedResourceScheme _) =
     (code_unsupported_resource_scheme, ''unsupported_resource_scheme'')"
| "project_error_to_rpc (FolderNotFound _) = (code_resource_not_found, ''resource_not_found'')"
| "project_error_to_rpc (FolderPermissionDenied _) = (code_provider_unavailable, ''provider_unavailable'')"
| "project_error_to_rpc _ = (code_provider_unavailable, ''provider_unavailable'')"

fun fs_error_to_rpc :: "fs_error \<Rightarrow> rpc_error" where
  "fs_error_to_rpc (FsNotFound _) = (code_resource_not_found, ''resource_not_found'')"
| "fs_error_to_rpc (FsUnsupportedScheme _) = (code_unsupported_resource_scheme, ''unsupported_resource_scheme'')"
| "fs_error_to_rpc _ = (code_provider_unavailable, ''provider_unavailable'')"


section \<open>Requests\<close>

type_synonym json_id = string
type_synonym wire_u32 = "32 word"

definition protocol_version :: wire_u32 where
  "protocol_version = 1"

record resource_ref =
  rf_pe_id :: string
  rf_relative_path :: string

record remove_params =
  rp_target :: resource_ref
  rp_recursive :: bool

record rename_params =
  rn_from :: resource_ref
  rn_to :: resource_ref

record search_params =
  sp_roots :: "resource_ref list"
  sp_query :: string
  sp_limit :: "nat option"

text \<open>
  The parameters of a frame: what \<open>serde\<close> reads the JSON value as, for each type of parameters;
  a type it cannot be read as is \<open>None\<close>.
\<close>

record rpc_params =
  as_initialize :: "wire_u32 option"
  as_targets :: "resource_ref list option"
  as_mkdir :: "resource_ref option"
  as_remove :: "remove_params option"
  as_rename :: "rename_params option"
  as_search :: "search_params option"
  as_search_cancel :: "json_id option"

record incoming_frame =
  in_id :: "json_id option"
  in_method :: string
  in_params :: rpc_params


section \<open>Frames that are sent\<close>

datatype wire_kind = WireFile | WireDir | WireSymlink

fun wire_kind_of :: "fs_kind \<Rightarrow> wire_kind" where
  "wire_kind_of KindFile = WireFile"
| "wire_kind_of KindDir = WireDir"
| "wire_kind_of KindSymlink = WireSymlink"

record wire_entry =
  we_name :: string
  we_kind :: wire_kind
  we_symlink_target :: "string option"

definition wire_entry_of :: "string \<times> entry_fact \<Rightarrow> wire_entry" where
  "wire_entry_of e =
     \<lparr>we_name = fst e, we_kind = wire_kind_of (fact_kind (snd e)), we_symlink_target = fact_target (snd e)\<rparr>"

datatype wire_change = WireAdded string wire_kind | WireRemoved string | WireRenamed string string

fun change_to_wire :: "tree_change \<Rightarrow> wire_change" where
  "change_to_wire (ChangeAdded name k) = WireAdded name (wire_kind_of k)"
| "change_to_wire (ChangeRemoved name) = WireRemoved name"
| "change_to_wire (ChangeRenamed from_name to_name) = WireRenamed from_name to_name"

type_synonym wire_snapshot = "resource_ref \<times> wire_entry list"

definition snapshot_params :: "dir_snapshot \<Rightarrow> resource_ref \<Rightarrow> wire_snapshot" where
  "snapshot_params s target = (target, map wire_entry_of (snap_entries s))"

definition delta_params :: "delta_batch \<Rightarrow> resource_ref \<Rightarrow> resource_ref \<times> wire_change list" where
  "delta_params d target = (target, map change_to_wire (delta_changes d))"

datatype rpc_result =
    ResVersion wire_u32
  | ResSnapshots "wire_snapshot list"
  | ResEmpty
  | ResSearch bool nat

datatype rpc_notification =
    NoteSnapshot wire_snapshot
  | NoteDelta "resource_ref \<times> wire_change list"
  | NoteSearchMatch json_id "search_hit list"

text \<open>A response of an identifier, or a notification. The context of an error is a reference.\<close>

datatype wire_frame =
    FrameSuccess "json_id option" rpc_result
  | FrameError "json_id option" rpc_error "resource_ref option"
  | FrameNotification rpc_notification

definition invalid_params :: "json_id option \<Rightarrow> wire_frame" where
  "invalid_params i = FrameError i (code_invalid_params, ''invalid_params'') None"

text \<open>What a search sends, as frames of the request it answers.\<close>

fun search_frame :: "json_id \<Rightarrow> search_push \<Rightarrow> wire_frame" where
  "search_frame sid (PushMatches batch) = FrameNotification (NoteSearchMatch sid batch)"
| "search_frame sid (PushTerminal limit_reached hits) = FrameSuccess (Some sid) (ResSearch limit_reached hits)"

end
