(* ===== verification/Fs_Monitor.thy ===== *)
theory Fs_Monitor
  imports Fs_Wire
begin

text \<open>
  The monitor actor (\<open>monitor/actor.rs\<close>) and its dispatch of requests (\<open>monitor/dispatch.rs\<close>):
  one worker that owns the shard, the buffer of raw events and the searches that run, and
  handles one event at a time. An operation returns what it pushes, with the session each frame
  goes to, the state and the world.
\<close>

section \<open>State\<close>

record active_search =
  as_search_id :: json_id
  as_cancel :: nat

record search_root =
  sr_root_uri :: string
  sr_pe_id :: string

record search_job =
  sj_session :: string
  sj_search_id :: json_id
  sj_roots :: "search_root list"
  sj_matcher :: name_matcher
  sj_budget :: nat
  sj_cancel :: nat

text \<open>A token is a number; the tokens that were cancelled and the searches that were spawned
  are kept beside the fields of the actor.\<close>

record fs_monitor =
  mo_shard :: shard
  mo_debouncer :: debouncer
  mo_searches :: "(string, active_search) hash_map"
  mo_cancelled :: "nat list"
  mo_next_token :: nat
  mo_spawned :: "search_job list"

record 'w monitor_env =
  me_fs :: "'w fs_env"
  me_runtime :: "'w fs_runtime"
  me_store :: "'w project_store"
  me_realpath :: "'w \<Rightarrow> string \<Rightarrow> string option"
  me_fold_case :: bool
  me_text :: text_lib

type_synonym push = "string \<times> wire_frame"

type_synonym 'w monitor_result = "push list \<times> fs_monitor \<times> 'w"

definition monitor_new :: "nat \<Rightarrow> fs_monitor" where
  "monitor_new warm_budget =
     \<lparr>mo_shard = shard_new warm_budget, mo_debouncer = [], mo_searches = [], mo_cancelled = [],
      mo_next_token = 0, mo_spawned = []\<rparr>"


section \<open>Pushing what the shard reports\<close>

definition sub_ref :: "subscriber \<Rightarrow> resource_ref" where
  "sub_ref sub = \<lparr>rf_pe_id = sub_pe_id sub, rf_relative_path = sub_rel sub\<rparr>"

fun output_frames :: "shard_output \<Rightarrow> push list" where
  "output_frames (OutSnapshot subs s) =
     map (\<lambda>sub. (sub_session sub, FrameNotification (NoteSnapshot (snapshot_params s (sub_ref sub))))) subs"
| "output_frames (OutDelta subs d) =
     map (\<lambda>sub. (sub_session sub, FrameNotification (NoteDelta (delta_params d (sub_ref sub))))) subs"

definition fan_out :: "shard_output list \<Rightarrow> push list" where
  "fan_out outs = concat (map output_frames outs)"

definition drive :: "'w monitor_env \<Rightarrow> fs_command \<Rightarrow> fs_monitor \<Rightarrow> 'w \<Rightarrow> 'w monitor_result" where
  "drive me cmd mo w =
     (case shard_handle (me_fs me) cmd (mo_shard mo) w of
        (Inl _, sh, w1) \<Rightarrow> ([], mo\<lparr>mo_shard := sh\<rparr>, w1)
      | (Inr outs, sh, w1) \<Rightarrow> (fan_out outs, mo\<lparr>mo_shard := sh\<rparr>, w1))"

fun drive_all :: "'w monitor_env \<Rightarrow> fs_command list \<Rightarrow> fs_monitor \<Rightarrow> 'w \<Rightarrow> 'w monitor_result" where
  "drive_all me [] mo w = ([], mo, w)"
| "drive_all me (cmd # cmds) mo w =
     (let (ps, mo1, w1) = drive me cmd mo w;
          (qs, mo2, w2) = drive_all me cmds mo1 w1
      in (ps @ qs, mo2, w2))"

definition flush_debounced :: "'w monitor_env \<Rightarrow> fs_monitor \<Rightarrow> 'w \<Rightarrow> 'w monitor_result" where
  "flush_debounced me mo w =
     (if mo_debouncer mo = [] then ([], mo, w)
      else let (cmds, d) = debounce_drain (mo_debouncer mo)
        in drive_all me cmds (mo\<lparr>mo_debouncer := d\<rparr>) w)"


section \<open>Searches that run\<close>

definition cancel_token :: "nat \<Rightarrow> fs_monitor \<Rightarrow> fs_monitor" where
  "cancel_token t mo = mo\<lparr>mo_cancelled := List.insert t (mo_cancelled mo)\<rparr>"

definition register_search :: "string \<Rightarrow> active_search \<Rightarrow> fs_monitor \<Rightarrow> fs_monitor" where
  "register_search session active mo =
     (let mo1 = mo\<lparr>mo_searches := hm_insert session active (mo_searches mo)\<rparr>
      in case map_of (mo_searches mo) session of
           Some prev \<Rightarrow> cancel_token (as_cancel prev) mo1
         | None \<Rightarrow> mo1)"

definition cancel_search :: "string \<Rightarrow> json_id \<Rightarrow> fs_monitor \<Rightarrow> bool \<times> fs_monitor" where
  "cancel_search session sid mo =
     (case map_of (mo_searches mo) session of
        Some a \<Rightarrow>
          if as_search_id a = sid
          then (True, cancel_token (as_cancel a) (mo\<lparr>mo_searches := hm_remove session (mo_searches mo)\<rparr>))
          else (False, mo)
      | None \<Rightarrow> (False, mo))"

definition drop_session_search :: "string \<Rightarrow> fs_monitor \<Rightarrow> fs_monitor" where
  "drop_session_search session mo =
     (case map_of (mo_searches mo) session of
        Some a \<Rightarrow> cancel_token (as_cancel a) (mo\<lparr>mo_searches := hm_remove session (mo_searches mo)\<rparr>)
      | None \<Rightarrow> mo)"

definition on_search_done :: "string \<Rightarrow> json_id \<Rightarrow> fs_monitor \<Rightarrow> fs_monitor" where
  "on_search_done session sid mo =
     (case map_of (mo_searches mo) session of
        Some a \<Rightarrow> if as_search_id a = sid then mo\<lparr>mo_searches := hm_remove session (mo_searches mo)\<rparr> else mo
      | None \<Rightarrow> mo)"


section \<open>Resolving with the codes of the protocol\<close>

definition resolve_target ::
  "'w monitor_env \<Rightarrow> string \<Rightarrow> resource_ref \<Rightarrow> file_op \<Rightarrow> 'w \<Rightarrow> (rpc_error + resolved_resource) \<times> 'w" where
  "resolve_target me user target op w =
     (case resolve_reference (me_store me) (fe_url (me_fs me)) (me_fold_case me) user
        \<lparr>ri_pe_id = rf_pe_id target, ri_relative_path = rf_relative_path target, ri_op = op\<rparr> w of
        (Inl e, w1) \<Rightarrow> (Inl (project_error_to_rpc e), w1)
      | (Inr r, w1) \<Rightarrow> (Inr r, w1))"

definition guard_realpath :: "'w monitor_env \<Rightarrow> resolved_resource \<Rightarrow> 'w \<Rightarrow> rpc_error + unit" where
  "guard_realpath me r w =
     (case rz_absolute_path r of
        None \<Rightarrow> Inr ()
      | Some p \<Rightarrow>
          if realpath_within (fe_url (me_fs me)) (me_realpath me w) (rz_root_resource_canonical r) p then Inr ()
          else Inl (code_resource_outside_folder, ''resource_outside_folder''))"

definition resolve_guarded ::
  "'w monitor_env \<Rightarrow> string \<Rightarrow> resource_ref \<Rightarrow> file_op \<Rightarrow> 'w \<Rightarrow> (rpc_error + resolved_resource) \<times> 'w" where
  "resolve_guarded me user target op w =
     (case resolve_target me user target op w of
        (Inl e, w1) \<Rightarrow> (Inl e, w1)
      | (Inr r, w1) \<Rightarrow>
          (case guard_realpath me r w1 of Inl e \<Rightarrow> (Inl e, w1) | Inr _ \<Rightarrow> (Inr r, w1)))"


section \<open>Requests\<close>

definition handle_initialize :: "string \<Rightarrow> json_id option \<Rightarrow> rpc_params \<Rightarrow> push list" where
  "handle_initialize session i params =
     [(session,
       case as_initialize params of
         Some v \<Rightarrow>
           if v \<ge> protocol_version then FrameSuccess i (ResVersion protocol_version)
           else FrameError i (code_protocol_version_unsupported, ''protocol_version_unsupported'') None
       | None \<Rightarrow> invalid_params i)]"

text \<open>The first phase of a subscription: nothing is changed before every target is resolved.\<close>

fun plan_targets ::
  "'w monitor_env \<Rightarrow> string \<Rightarrow> resource_ref list \<Rightarrow> 'w \<Rightarrow>
   (rpc_error \<times> resource_ref + (resource_ref \<times> string) list) \<times> 'w" where
  "plan_targets me user [] w = (Inr [], w)"
| "plan_targets me user (target # targets) w =
     (case resolve_target me user target OpBrowse w of
        (Inl e, w1) \<Rightarrow> (Inl (e, target), w1)
      | (Inr r, w1) \<Rightarrow>
          (case canonicalize (fe_url (me_fs me)) (me_fold_case me) (rz_resource_uri r) of
             Inl _ \<Rightarrow> (Inl ((code_provider_unavailable, ''provider_unavailable''), target), w1)
           | Inr c \<Rightarrow>
               (case plan_targets me user targets w1 of
                  (Inl e, w2) \<Rightarrow> (Inl e, w2)
                | (Inr plan, w2) \<Rightarrow> (Inr ((target, c) # plan), w2))))"

definition output_snapshots :: "resource_ref \<Rightarrow> shard_output list \<Rightarrow> wire_snapshot list" where
  "output_snapshots target outs =
     filter_map (\<lambda>out. case out of OutSnapshot _ s \<Rightarrow> Some (snapshot_params s target) | _ \<Rightarrow> None) outs"

definition ref_subscriber :: "string \<Rightarrow> resource_ref \<Rightarrow> subscriber" where
  "ref_subscriber session target =
     \<lparr>sub_session = session, sub_pe_id = rf_pe_id target, sub_rel = rf_relative_path target\<rparr>"

text \<open>The second phase: the first target that fails ends it.\<close>

fun subscribe_targets ::
  "'w monitor_env \<Rightarrow> string \<Rightarrow> millis \<Rightarrow> (resource_ref \<times> string) list \<Rightarrow> shard \<Rightarrow> 'w \<Rightarrow>
   (rpc_error \<times> resource_ref + wire_snapshot list) \<times> shard \<times> 'w" where
  "subscribe_targets me session now [] sh w = (Inr [], sh, w)"
| "subscribe_targets me session now ((target, c) # plan) sh w =
     (case shard_handle (me_fs me) (CmdSubscribe (ref_subscriber session target) c now) sh w of
        (Inl e, sh1, w1) \<Rightarrow> (Inl (fs_error_to_rpc e, target), sh1, w1)
      | (Inr outs, sh1, w1) \<Rightarrow>
          (case subscribe_targets me session now plan sh1 w1 of
             (Inl e, sh2, w2) \<Rightarrow> (Inl e, sh2, w2)
           | (Inr snaps, sh2, w2) \<Rightarrow> (Inr (output_snapshots target outs @ snaps), sh2, w2)))"

definition handle_subscribe ::
  "'w monitor_env \<Rightarrow> millis \<Rightarrow> string \<Rightarrow> string \<Rightarrow> json_id option \<Rightarrow> rpc_params \<Rightarrow> fs_monitor \<Rightarrow> 'w \<Rightarrow> 'w monitor_result" where
  "handle_subscribe me now session user i params mo w =
     (case as_targets params of
        None \<Rightarrow> ([(session, invalid_params i)], mo, w)
      | Some targets \<Rightarrow>
          (case plan_targets me user targets w of
             (Inl (e, target), w1) \<Rightarrow> ([(session, FrameError i e (Some target))], mo, w1)
           | (Inr plan, w1) \<Rightarrow>
               (case subscribe_targets me session now plan (mo_shard mo) w1 of
                  (Inl (e, target), sh, w2) \<Rightarrow> ([(session, FrameError i e (Some target))], mo\<lparr>mo_shard := sh\<rparr>, w2)
                | (Inr snaps, sh, w2) \<Rightarrow> ([(session, FrameSuccess i (ResSnapshots snaps))], mo\<lparr>mo_shard := sh\<rparr>, w2))))"

fun unsubscribe_targets ::
  "'w monitor_env \<Rightarrow> string \<Rightarrow> string \<Rightarrow> millis \<Rightarrow> resource_ref list \<Rightarrow> shard \<Rightarrow> 'w \<Rightarrow> shard \<times> 'w" where
  "unsubscribe_targets me session user now [] sh w = (sh, w)"
| "unsubscribe_targets me session user now (target # targets) sh w =
     (case resolve_target me user target OpBrowse w of
        (Inl _, w1) \<Rightarrow> unsubscribe_targets me session user now targets sh w1
      | (Inr r, w1) \<Rightarrow>
          (case canonicalize (fe_url (me_fs me)) (me_fold_case me) (rz_resource_uri r) of
             Inl _ \<Rightarrow> unsubscribe_targets me session user now targets sh w1
           | Inr c \<Rightarrow>
               (case shard_handle (me_fs me) (CmdUnsubscribe (ref_subscriber session target) c now) sh w1 of
                  (_, sh1, w2) \<Rightarrow> unsubscribe_targets me session user now targets sh1 w2)))"

definition handle_unsubscribe ::
  "'w monitor_env \<Rightarrow> millis \<Rightarrow> string \<Rightarrow> string \<Rightarrow> rpc_params \<Rightarrow> fs_monitor \<Rightarrow> 'w \<Rightarrow> 'w monitor_result" where
  "handle_unsubscribe me now session user params mo w =
     (case as_targets params of
        None \<Rightarrow> ([], mo, w)
      | Some targets \<Rightarrow>
          (case unsubscribe_targets me session user now targets (mo_shard mo) w of
             (sh, w1) \<Rightarrow> ([], mo\<lparr>mo_shard := sh\<rparr>, w1)))"


section \<open>Commands on files\<close>

definition reply_unit :: "string \<Rightarrow> json_id option \<Rightarrow> resource_ref \<Rightarrow> fs_error + unit \<Rightarrow> push list" where
  "reply_unit session i target outcome =
     [(session,
       case outcome of
         Inr _ \<Rightarrow> FrameSuccess i ResEmpty
       | Inl e \<Rightarrow> FrameError i (fs_error_to_rpc e) (Some target))]"

definition handle_mkdir ::
  "'w monitor_env \<Rightarrow> string \<Rightarrow> string \<Rightarrow> json_id option \<Rightarrow> rpc_params \<Rightarrow> 'w \<Rightarrow> push list \<times> 'w" where
  "handle_mkdir me session user i params w =
     (case as_mkdir params of
        None \<Rightarrow> ([(session, invalid_params i)], w)
      | Some dir \<Rightarrow>
          (case resolve_guarded me user dir OpWrite w of
             (Inl e, w1) \<Rightarrow> ([(session, FrameError i e (Some dir))], w1)
           | (Inr r, w1) \<Rightarrow>
               (let (outcome, w2) = rt_mkdir (me_runtime me) (rz_resource_uri r) w1
                in (reply_unit session i dir outcome, w2))))"

definition handle_remove ::
  "'w monitor_env \<Rightarrow> string \<Rightarrow> string \<Rightarrow> json_id option \<Rightarrow> rpc_params \<Rightarrow> 'w \<Rightarrow> push list \<times> 'w" where
  "handle_remove me session user i params w =
     (case as_remove params of
        None \<Rightarrow> ([(session, invalid_params i)], w)
      | Some p \<Rightarrow>
          (case resolve_guarded me user (rp_target p) OpRemove w of
             (Inl e, w1) \<Rightarrow> ([(session, FrameError i e (Some (rp_target p)))], w1)
           | (Inr r, w1) \<Rightarrow>
               (let (outcome, w2) = rt_remove (me_runtime me) (rz_resource_uri r) (rp_recursive p) w1
                in (reply_unit session i (rp_target p) outcome, w2))))"

definition handle_rename ::
  "'w monitor_env \<Rightarrow> string \<Rightarrow> string \<Rightarrow> json_id option \<Rightarrow> rpc_params \<Rightarrow> 'w \<Rightarrow> push list \<times> 'w" where
  "handle_rename me session user i params w =
     (case as_rename params of
        None \<Rightarrow> ([(session, invalid_params i)], w)
      | Some p \<Rightarrow>
          (case resolve_guarded me user (rn_from p) OpRename w of
             (Inl e, w1) \<Rightarrow> ([(session, FrameError i e (Some (rn_from p)))], w1)
           | (Inr src, w1) \<Rightarrow>
               (case resolve_guarded me user (rn_to p) OpRename w1 of
                  (Inl e, w2) \<Rightarrow> ([(session, FrameError i e (Some (rn_to p)))], w2)
                | (Inr dst, w2) \<Rightarrow>
                    (let (outcome, w3) = rt_rename (me_runtime me) (rz_resource_uri src) (rz_resource_uri dst) w2
                     in (reply_unit session i (rn_from p) outcome, w3)))))"


section \<open>Search requests\<close>

definition default_search_limit :: nat where
  "default_search_limit = 1000"

fun resolve_roots ::
  "'w monitor_env \<Rightarrow> string \<Rightarrow> resource_ref list \<Rightarrow> 'w \<Rightarrow> (rpc_error \<times> resource_ref + search_root list) \<times> 'w" where
  "resolve_roots me user [] w = (Inr [], w)"
| "resolve_roots me user (root # roots) w =
     (case resolve_target me user root OpBrowse w of
        (Inl e, w1) \<Rightarrow> (Inl (e, root), w1)
      | (Inr r, w1) \<Rightarrow>
          (case resolve_roots me user roots w1 of
             (Inl e, w2) \<Rightarrow> (Inl e, w2)
           | (Inr rs, w2) \<Rightarrow> (Inr (\<lparr>sr_root_uri = rz_resource_uri r, sr_pe_id = rf_pe_id root\<rparr> # rs), w2)))"

definition handle_search ::
  "'w monitor_env \<Rightarrow> string \<Rightarrow> string \<Rightarrow> json_id option \<Rightarrow> rpc_params \<Rightarrow> fs_monitor \<Rightarrow> 'w \<Rightarrow> 'w monitor_result" where
  "handle_search me session user i params mo w =
     (case i of
        None \<Rightarrow> ([], mo, w)
      | Some sid \<Rightarrow>
          (case as_search params of
             None \<Rightarrow> ([(session, invalid_params (Some sid))], mo, w)
           | Some p \<Rightarrow>
               (case resolve_roots me user (sp_roots p) w of
                  (Inl (e, root), w1) \<Rightarrow> ([(session, FrameError (Some sid) e (Some root))], mo, w1)
                | (Inr roots, w1) \<Rightarrow>
                    if \<not> rt_searches (me_runtime me)
                    then ([(session, FrameError (Some sid) (code_provider_unavailable, ''provider_unavailable'') None)], mo, w1)
                    else let t = mo_next_token mo;
                             job = \<lparr>sj_session = session, sj_search_id = sid, sj_roots = roots,
                                    sj_matcher = name_matcher_new (me_text me) (sp_query p) Substring,
                                    sj_budget = (case sp_limit p of Some l \<Rightarrow> l | None \<Rightarrow> default_search_limit),
                                    sj_cancel = t\<rparr>;
                             mo1 = register_search session \<lparr>as_search_id = sid, as_cancel = t\<rparr> mo
                         in ([], mo1\<lparr>mo_next_token := Suc t, mo_spawned := mo_spawned mo1 @ [job]\<rparr>, w1))))"

definition handle_search_cancel :: "string \<Rightarrow> rpc_params \<Rightarrow> fs_monitor \<Rightarrow> fs_monitor" where
  "handle_search_cancel session params mo =
     (case as_search_cancel params of
        None \<Rightarrow> mo
      | Some sid \<Rightarrow> snd (cancel_search session sid mo))"


section \<open>Dispatch\<close>

text \<open>\<open>None\<close> is a frame that does not decode.\<close>

definition dispatch_frame ::
  "'w monitor_env \<Rightarrow> millis \<Rightarrow> string \<Rightarrow> string \<Rightarrow> incoming_frame option \<Rightarrow> fs_monitor \<Rightarrow> 'w \<Rightarrow> 'w monitor_result" where
  "dispatch_frame me now session user frame mo w =
     (case frame of
        None \<Rightarrow> ([(session, FrameError None (code_invalid_request, ''invalid_request'') None)], mo, w)
      | Some f \<Rightarrow>
          let i = in_id f; params = in_params f; m = in_method f
          in if m = ''initialize'' then (handle_initialize session i params, mo, w)
             else if m = ''fs/subscribe'' then handle_subscribe me now session user i params mo w
             else if m = ''fs/unsubscribe'' then handle_unsubscribe me now session user params mo w
             else if m = ''fs/mkdir'' then (case handle_mkdir me session user i params w of (ps, w1) \<Rightarrow> (ps, mo, w1))
             else if m = ''fs/remove'' then (case handle_remove me session user i params w of (ps, w1) \<Rightarrow> (ps, mo, w1))
             else if m = ''fs/rename'' then (case handle_rename me session user i params w of (ps, w1) \<Rightarrow> (ps, mo, w1))
             else if m = ''fs/search'' then handle_search me session user i params mo w
             else if m = ''fs/searchCancel'' then ([], handle_search_cancel session params mo, w)
             else ([(session, FrameError i (code_method_not_found, ''method_not_found'') None)], mo, w))"

text \<open>The events of the loop: a frame, the end of a connection, a raw event of the watcher, the
  end of a search, and the two timers.\<close>

datatype monitor_event =
    EvFrame string string "incoming_frame option"
  | EvDisconnect string
  | EvRaw raw_event
  | EvSearchDone string json_id
  | EvFlush
  | EvReap

fun monitor_step :: "'w monitor_env \<Rightarrow> millis \<Rightarrow> monitor_event \<Rightarrow> fs_monitor \<Rightarrow> 'w \<Rightarrow> 'w monitor_result" where
  "monitor_step me now (EvFrame session user frame) mo w = dispatch_frame me now session user frame mo w"
| "monitor_step me now (EvDisconnect session) mo w =
     drive me (CmdDropSession session now) (drop_session_search session mo) w"
| "monitor_step me now (EvRaw ev) mo w = ([], mo\<lparr>mo_debouncer := debounce_push ev (mo_debouncer mo)\<rparr>, w)"
| "monitor_step me now (EvSearchDone session sid) mo w = ([], on_search_done session sid mo, w)"
| "monitor_step me now EvFlush mo w = flush_debounced me mo w"
| "monitor_step me now EvReap mo w = drive me (CmdReapTick now) mo w"

end
