(* ===== verification/Fs_Mirror.thy ===== *)
theory Fs_Mirror
  imports Fs_Shard
begin

text \<open>
  What a batch of changes means to a client that applies it in order: the listing it had, with
  the kind of each name, becomes the new one, as long as no name changes its kind. A name that
  does change its kind, and is not taken for renamed, is lost.
\<close>

section \<open>Replaying a batch\<close>

type_synonym kinds = "string \<rightharpoonup> fs_kind"

definition kinds_of :: "listing \<Rightarrow> kinds" where
  "kinds_of l n = map_option fact_kind (map_of l n)"

fun replay_change :: "tree_change \<Rightarrow> kinds \<Rightarrow> kinds" where
  "replay_change (ChangeAdded n k) m = m(n \<mapsto> k)"
| "replay_change (ChangeRemoved n) m = m(n := None)"
| "replay_change (ChangeRenamed n n') m = m(n := None, n' := m n)"

definition replay :: "tree_change list \<Rightarrow> kinds \<Rightarrow> kinds" where
  "replay cs m = fold replay_change cs m"

lemma replay_simps [simp]:
  "replay [] m = m" "replay (c # cs) m = replay cs (replay_change c m)"
  "replay (cs @ ds) m = replay ds (replay cs m)"
  by (simp_all add: replay_def)

definition additions :: "(bool \<times> string \<times> entry_fact) list \<Rightarrow> tree_change list" where
  "additions added = map (\<lambda>(_, name, f). ChangeAdded name (fact_kind f)) (filter (\<lambda>(used, _). \<not> used) added)"

definition removals :: "(string \<times> entry_fact) list \<Rightarrow> tree_change list" where
  "removals kept = map (\<lambda>(name, _). ChangeRemoved name) kept"

definition unused :: "(bool \<times> string \<times> entry_fact) list \<Rightarrow> (string \<times> entry_fact) list" where
  "unused added = map snd (filter (\<lambda>(used, _). \<not> used) added)"

abbreviation added_names :: "(bool \<times> string \<times> entry_fact) list \<Rightarrow> string list" where
  "added_names added \<equiv> map (\<lambda>(_, name, _). name) added"

lemma unused_simps [simp]:
  "unused [] = []" "unused ((u, x) # added) = (if u then unused added else x # unused added)"
  by (auto simp: unused_def)

lemma replay_removals: "replay (removals kept) m = (\<lambda>n. if n \<in> fst ` set kept then None else m n)"
  by (induction kept arbitrary: m) (auto simp: removals_def)

lemma replay_removals_Cons: "replay (removals (x # kept)) m = (replay (removals kept) m)(fst x := None)"
  by (auto simp: replay_removals fun_eq_iff)

lemma unused_names: "fst ` set (unused added) \<subseteq> set (added_names added)"
  by (force simp: unused_def)

lemma unused_None: "n \<notin> set (added_names added) \<Longrightarrow> map_of (unused added) n = None"
  using unused_names [of added] by (auto simp: map_of_eq_None_iff)

lemma distinct_unused: "distinct (added_names added) \<Longrightarrow> distinct (map fst (unused added))"
  using unused_names by (induction added) (force split: if_splits)+

lemma replay_additions:
  "distinct (added_names added) \<Longrightarrow>
   replay (additions added) m = (\<lambda>n. case map_of (unused added) n of Some f \<Rightarrow> Some (fact_kind f) | None \<Rightarrow> m n)"
proof (induction added arbitrary: m)
  case (Cons a added)
  obtain u name f where a: "a = (u, name, f)"
    by (cases a)
  have "map_of (unused added) name = None"
    using Cons.prems by (intro unused_None) (simp add: a)
  moreover have "replay (additions added) m = (\<lambda>n. case map_of (unused added) n of Some f \<Rightarrow> Some (fact_kind f) | None \<Rightarrow> m n)"
    for m using Cons by simp
  ultimately show ?case
    by (auto simp: a additions_def split: option.split)
qed (simp add: additions_def)

lemma take_match_marks:
  assumes "take_match rf added = Some (t, added')" and "distinct (added_names added)"
  shows "added_names added' = added_names added \<and>
    (\<exists>af. (t, af) \<in> set (unused added) \<and> fact_kind af = fact_kind rf) \<and>
    map_of (unused added') = (map_of (unused added))(t := None)"
  using assms
proof (induction added arbitrary: added')
  case (Cons a added)
  obtain u name f where a: "a = (u, name, f)"
    by (cases a)
  have name: "map_of (unused added) name = None"
    using Cons.prems(2) by (intro unused_None) (simp add: a)
  show ?case
  proof (cases "\<not> u \<and> fact_inode f = fact_inode rf \<and> fact_kind f = fact_kind rf")
    case True
    then have "t = name" and "added' = (True, name, f) # added"
      using Cons.prems(1) by (auto simp: a)
    then show ?thesis
      using True name by (auto simp: a fun_upd_idem)
  next
    case False
    then obtain added1 where rest: "take_match rf added = Some (t, added1)" and eq: "added' = (u, name, f) # added1"
      using Cons.prems(1) by (auto simp: a split: if_splits)
    have dist: "distinct (added_names added)"
      using Cons.prems(2) by (simp add: a)
    note IH = Cons.IH [OF rest dist]
    then have "t \<in> set (added_names added)"
      using unused_names [of added] by force
    moreover have "name \<notin> set (added_names added)"
      using Cons.prems(2) by (simp add: a)
    ultimately have "t \<noteq> name"
      by blast
    then show ?thesis
      using IH by (auto simp: a eq fun_upd_twist)
  qed
qed simp

text \<open>The renames, then the additions that are left, then the removals that are left.\<close>

lemma replay_matched:
  assumes "match_renames removed added = (renames, kept, added')"
    and "distinct (map fst removed)" and "distinct (added_names added)"
    and "fst ` set removed \<inter> set (added_names added) = {}"
    and "\<And>n f. (n, f) \<in> set removed \<Longrightarrow> m n = Some (fact_kind f)"
  shows "replay (renames @ additions added' @ removals kept) m =
    (\<lambda>n. if n \<in> fst ` set removed then None
          else case map_of (unused added) n of Some f \<Rightarrow> Some (fact_kind f) | None \<Rightarrow> m n)"
  using assms
proof (induction removed arbitrary: added renames kept added' m)
  case Nil
  then show ?case
    using replay_additions [of added m] by (simp add: removals_def)
next
  case (Cons r removed)
  obtain name rf where r: "r = (name, rf)"
    by (cases r)
  show ?case
  proof (cases "if fact_inode rf \<noteq> 0 then take_match rf added else None")
    case None
    obtain renames1 kept1 where rest: "match_renames removed added = (renames1, kept1, added')"
      and eq: "renames = renames1" "kept = (name, rf) # kept1"
      using Cons.prems(1) None by (auto simp: r split: prod.splits option.splits)
    have "replay (renames1 @ additions added' @ removals kept1) m =
      (\<lambda>n. if n \<in> fst ` set removed then None
          else case map_of (unused added) n of Some f \<Rightarrow> Some (fact_kind f) | None \<Rightarrow> m n)"
      using Cons.prems by (intro Cons.IH [OF rest]) (auto simp: r)
    then have "replay (renames @ additions added' @ removals kept) m =
      (\<lambda>n. if n \<in> fst ` set removed then None
          else case map_of (unused added) n of Some f \<Rightarrow> Some (fact_kind f) | None \<Rightarrow> m n)(name := None)"
      by (simp add: eq replay_removals_Cons)
    then show ?thesis
      by (simp only: r) (auto simp: fun_eq_iff)
  next
    case (Some x)
    obtain t added1 where x: "x = (t, added1)"
      by (cases x)
    have match: "take_match rf added = Some (t, added1)"
      using Some by (simp add: x split: if_splits)
    have marks: "added_names added1 = added_names added"
        "\<exists>af. (t, af) \<in> set (unused added) \<and> fact_kind af = fact_kind rf"
        "map_of (unused added1) = (map_of (unused added))(t := None)"
      using take_match_marks [OF match Cons.prems(3)] by blast+
    obtain renames1 where rest: "match_renames removed added1 = (renames1, kept, added')"
      and eq: "renames = ChangeRenamed name t # renames1"
      using Cons.prems(1) Some by (auto simp: r x split: prod.splits)
    obtain af where af: "(t, af) \<in> set (unused added)" "fact_kind af = fact_kind rf"
      using marks(2) by blast
    have t: "t \<in> set (added_names added)"
      using af(1) unused_names [of added] by force
    have look: "map_of (unused added) t = Some af"
      using af(1) distinct_unused [OF Cons.prems(3)] by simp
    have name: "name \<notin> fst ` set removed" "name \<notin> set (added_names added)"
        and disj: "fst ` set removed \<inter> set (added_names added) = {}"
      using Cons.prems(2,4) by (simp_all add: r)
    let ?m = "m(name := None, t := m name)"
    have "replay (renames1 @ additions added' @ removals kept) ?m =
      (\<lambda>n. if n \<in> fst ` set removed then None
          else case map_of (unused added1) n of Some f \<Rightarrow> Some (fact_kind f) | None \<Rightarrow> ?m n)"
    proof (rule Cons.IH [OF rest])
      fix n f assume nf: "(n, f) \<in> set removed"
      then have "n \<in> fst ` set removed"
        by force
      then have "n \<noteq> name \<and> n \<noteq> t"
        using t name disj by blast
      then show "?m n = Some (fact_kind f)"
        using Cons.prems(5) [of n f] nf by simp
    qed (use Cons.prems(2,3,4) marks(1) in \<open>auto simp: r\<close>)
    moreover have "name \<noteq> t" "t \<notin> fst ` set removed" "name \<notin> fst ` set removed"
      using t name disj by blast+
    moreover have "m name = Some (fact_kind rf)"
      using Cons.prems(5) by (simp add: r)
    moreover have "map_of (unused added) name = None"
      using name(2) by (rule unused_None)
    ultimately show ?thesis
      using look af(2) marks(3) by (auto simp: eq r fun_eq_iff split: option.split)
  qed
qed

section \<open>A batch between two listings\<close>

definition kind_stable :: "listing \<Rightarrow> listing \<Rightarrow> bool" where
  "kind_stable old fresh \<longleftrightarrow>
     list_all (\<lambda>(n, f). case map_of fresh n of Some g \<Rightarrow> fact_kind g = fact_kind f | None \<Rightarrow> True) old"

lemma tree_diff_eq:
  "tree_diff old fresh =
     (let (renames, kept, added) =
        match_renames (removed_entries old fresh) (map (Pair False) (added_entries old fresh))
      in renames @ additions added @ removals kept)"
  by (simp add: tree_diff_def additions_def removals_def)

lemma kind_stableD:
  "kind_stable old fresh \<Longrightarrow> (n, f) \<in> set old \<Longrightarrow> map_of fresh n = Some g \<Longrightarrow> fact_kind g = fact_kind f"
  by (auto simp: kind_stable_def list_all_iff split: option.splits)

lemma stable_entries:
  assumes "kind_stable old fresh"
  shows "removed_entries old fresh = filter (\<lambda>(n, f). map_of fresh n = None) old"
    and "added_entries old fresh = filter (\<lambda>(n, f). map_of old n = None) fresh"
proof -
  have "(case map_of fresh n of None \<Rightarrow> True | Some g \<Rightarrow> fact_kind g \<noteq> fact_kind f) \<longleftrightarrow> map_of fresh n = None"
    if "(n, f) \<in> set old" for n f
    using kind_stableD [OF assms that] by (cases "map_of fresh n") auto
  then show "removed_entries old fresh = filter (\<lambda>(n, f). map_of fresh n = None) old"
    unfolding removed_entries_def by (intro filter_cong refl) auto
  have "filter_map (\<lambda>(n, f). case map_of fresh n of
        Some nf \<Rightarrow> if fact_kind nf \<noteq> fact_kind f then Some (n, nf) else None
      | None \<Rightarrow> None) old = []"
    by (auto simp: filter_map_Nil split: option.split dest: kind_stableD [OF assms])
  then show "added_entries old fresh = filter (\<lambda>(n, f). map_of old n = None) fresh"
    by (simp add: added_entries_def)
qed

lemma unused_fresh: "unused (map (Pair False) xs) = xs"
  by (induction xs) auto

lemma map_of_filter_name:
  "map_of (filter (\<lambda>(n, f). P n) l) n = (if P n then map_of l n else None)"
  by (induction l) auto

theorem diff_replays:
  assumes "distinct (hm_keys old)" and "distinct (hm_keys fresh)" and "kind_stable old fresh"
  shows "replay (tree_diff old fresh) (kinds_of old) = kinds_of fresh"
proof -
  let ?removed = "filter (\<lambda>(n, f). map_of fresh n = None) old"
  let ?added = "filter (\<lambda>(n, f). map_of old n = None) fresh"
  obtain renames kept added where match: "match_renames ?removed (map (Pair False) ?added) = (renames, kept, added)"
    by (metis prod_cases3)
  have names: "fst ` set ?removed = {n. map_of old n \<noteq> None \<and> map_of fresh n = None}"
    by (force simp: map_of_eq_None_iff)
  have "replay (renames @ additions added @ removals kept) (kinds_of old) =
    (\<lambda>n. if n \<in> fst ` set ?removed then None
          else case map_of (unused (map (Pair False) ?added)) n of Some f \<Rightarrow> Some (fact_kind f) | None \<Rightarrow> kinds_of old n)"
  proof (rule replay_matched [OF match])
    show "distinct (map fst ?removed)" and "distinct (added_names (map (Pair False) ?added))"
      using assms(1,2) by (auto simp: distinct_map_filter split_def comp_def)
    show "fst ` set ?removed \<inter> set (added_names (map (Pair False) ?added)) = {}"
      by (force simp: map_of_eq_None_iff)
    show "kinds_of old n = Some (fact_kind f)" if "(n, f) \<in> set ?removed" for n f
      using that map_of_is_SomeI [OF assms(1)] by (auto simp: kinds_of_def)
  qed
  also have "\<dots> = kinds_of fresh"
  proof
    fix n
    show "(if n \<in> fst ` set ?removed then None
          else case map_of (unused (map (Pair False) ?added)) n of Some f \<Rightarrow> Some (fact_kind f) | None \<Rightarrow> kinds_of old n)
        = kinds_of fresh n"
    proof (cases "map_of old n = None \<or> map_of fresh n = None")
      case True
      then show ?thesis
        unfolding names unused_fresh map_of_filter_name
        by (auto simp: kinds_of_def split: option.splits)
    next
      case False
      then obtain f g where fg: "map_of old n = Some f" "map_of fresh n = Some g"
        by auto
      have "fact_kind g = fact_kind f"
        by (rule kind_stableD [OF assms(3) map_of_SomeD [OF fg(1)] fg(2)])
      then show ?thesis
        unfolding names unused_fresh map_of_filter_name by (simp add: kinds_of_def fg)
    qed
  qed
  finally show ?thesis
    by (simp add: tree_diff_eq stable_entries [OF assms(3)] match)
qed

lemma match_renames_length:
  "match_renames removed added = (renames, kept, added') \<Longrightarrow> length renames + length kept = length removed"
  by (induction removed added arbitrary: renames kept added' rule: match_renames.induct)
    (auto split: option.splits prod.splits)

lemma diff_Nil:
  assumes "distinct (hm_keys old)" and "distinct (hm_keys fresh)" and "tree_diff old fresh = []"
  shows "kinds_of fresh = kinds_of old"
proof -
  obtain renames kept added where
    match: "match_renames (removed_entries old fresh) (map (Pair False) (added_entries old fresh)) = (renames, kept, added)"
    by (metis prod_cases3)
  then have "renames = []" and "kept = []"
    using assms(3) by (simp_all add: tree_diff_eq removals_def)
  then have "removed_entries old fresh = []"
    using match_renames_length [OF match] by simp
  then have "kind_stable old fresh"
    by (auto simp: removed_entries_def kind_stable_def list_all_iff filter_empty_conv split: option.splits)
  then show ?thesis
    using diff_replays [OF assms(1,2)] assms(3) by simp
qed


section \<open>A name that changes its kind\<close>

definition no_candidate :: "entry_fact \<Rightarrow> (string \<times> entry_fact) list \<Rightarrow> bool" where
  "no_candidate f l \<longleftrightarrow>
     fact_inode f = 0 \<or> list_all (\<lambda>(_, g). fact_inode g \<noteq> fact_inode f \<or> fact_kind g \<noteq> fact_kind f) l"

lemma take_match_None: "no_candidate f (map snd added) \<Longrightarrow> (if fact_inode f \<noteq> 0 then take_match f added else None) = None"
  by (induction added) (auto simp: no_candidate_def)

lemma take_match_entries: "take_match rf added = Some (t, added') \<Longrightarrow> map snd added' = map snd added"
  by (induction added arbitrary: added') (auto split: if_splits)

lemma match_renames_keeps:
  "match_renames removed added = (renames, kept, added') \<Longrightarrow> (n, f) \<in> set removed \<Longrightarrow>
   no_candidate f (map snd added) \<Longrightarrow> (n, f) \<in> set kept"
proof (induction removed added arbitrary: renames kept added' rule: match_renames.induct)
  case (2 name rf removed added)
  show ?case
  proof (cases "if fact_inode rf \<noteq> 0 then take_match rf added else None")
    case None
    then show ?thesis
      using 2 by (auto split: prod.splits option.splits)
  next
    case (Some x)
    obtain t added1 where x: "x = (t, added1)"
      by (cases x)
    then have "map snd added1 = map snd added"
      using Some take_match_entries by (auto split: if_splits)
    moreover have "(n, f) \<noteq> (name, rf)"
      using 2(5) Some take_match_None by fastforce
    ultimately show ?thesis
      using 2(2) [OF Some x [symmetric]] 2(3,4,5) Some by (auto simp: x split: prod.splits)
  qed
qed simp

lemma no_candidate_added:
  assumes "no_candidate f fresh"
  shows "no_candidate f (added_entries old fresh)"
proof -
  have "set (added_entries old fresh) \<subseteq> set fresh"
    using map_of_SomeD [of fresh] by (auto simp: added_entries_def split: option.splits if_splits)
  then show ?thesis
    using assms by (auto simp: no_candidate_def list_all_iff)
qed

lemma diff_removes:
  assumes "(n, f) \<in> set old" and "map_of fresh n = Some g" and "fact_kind g \<noteq> fact_kind f"
    and "no_candidate f fresh"
  shows "replay (tree_diff old fresh) m n = None"
proof -
  obtain renames kept added where
    match: "match_renames (removed_entries old fresh) (map (Pair False) (added_entries old fresh)) = (renames, kept, added)"
    by (metis prod_cases3)
  have "(n, f) \<in> set (removed_entries old fresh)"
    using assms(1,2,3) by (simp add: removed_entries_def)
  then have "(n, f) \<in> set kept"
    by (rule match_renames_keeps [OF match]) (simp add: comp_def no_candidate_added assms(4))
  then have "n \<in> fst ` set kept"
    by force
  then show ?thesis
    by (simp add: tree_diff_eq match replay_removals)
qed

end
