(* ===== verification/Fs_Registry.thy ===== *)
theory Fs_Registry
  imports Fs_Subscription
begin

text \<open>
  The invariant of the registry: a directory has subscribers or is kept warm, never both, and
  no list of subscribers is empty; with what each operation does to who is watched.
\<close>

section \<open>Invariant\<close>

definition reg_ok :: "registry \<Rightarrow> bool" where
  "reg_ok reg \<longleftrightarrow>
     distinct (hm_keys (reg_reverse reg)) \<and> distinct (hm_keys (reg_grace reg)) \<and>
     list_all (\<lambda>(c, subs). subs \<noteq> [] \<and> map_of (reg_grace reg) c = None) (reg_reverse reg)"

lemma reg_ok_new [simp]: "reg_ok subscriptions_new"
  by (simp add: reg_ok_def subscriptions_new_def)

lemma reg_okI:
  assumes "distinct (hm_keys (reg_reverse reg))" and "distinct (hm_keys (reg_grace reg))"
    and "\<And>c subs. map_of (reg_reverse reg) c = Some subs \<Longrightarrow> subs \<noteq> [] \<and> map_of (reg_grace reg) c = None"
  shows "reg_ok reg"
proof -
  have "subs \<noteq> [] \<and> map_of (reg_grace reg) c = None" if "(c, subs) \<in> set (reg_reverse reg)" for c subs
    by (rule assms(3)) (rule map_of_is_SomeI [OF assms(1) that])
  then show ?thesis
    using assms(1,2) by (auto simp: reg_ok_def list_all_iff)
qed

lemma reg_okD:
  assumes "reg_ok reg"
  shows "distinct (hm_keys (reg_reverse reg))" and "distinct (hm_keys (reg_grace reg))"
    and "map_of (reg_reverse reg) c = Some subs \<Longrightarrow> subs \<noteq> [] \<and> map_of (reg_grace reg) c = None"
  using assms map_of_SomeD [of "reg_reverse reg" c subs] by (auto simp: reg_ok_def list_all_iff)

lemma reg_ok_simps [simp]:
  "reg_ok (reg\<lparr>reg_forward := x\<rparr>) = reg_ok reg"
  by (simp add: reg_ok_def)

lemma or_default_simps [simp]: "or_default None = []" "or_default (Some xs) = xs"
  by (simp_all add: or_default_def)

definition watched :: "registry \<Rightarrow> string set" where
  "watched reg = {c. reg_is_watched c reg}"

lemma watched_new [simp]: "watched subscriptions_new = {}"
  by (simp add: watched_def reg_is_watched_def subscriptions_new_def)

lemma watched_forward [simp]: "watched (reg\<lparr>reg_forward := x\<rparr>) = watched reg"
  by (simp add: watched_def reg_is_watched_def)

abbreviation subscribers_in :: "registry \<Rightarrow> string \<Rightarrow> subscriber list" where
  "subscribers_in reg c \<equiv> or_default (map_of (reg_reverse reg) c)"


lemma insert_not_Nil [simp]: "List.insert x xs \<noteq> []"
  by (cases xs) (auto simp: List.insert_def)


section \<open>Operations\<close>

lemma subscribe_ok: "reg_ok reg \<Longrightarrow> reg_ok (snd (reg_subscribe sub c reg))"
  by (rule reg_okI) (auto simp: reg_subscribe_def Let_def dest: reg_okD split: if_splits)

lemma subscribe_watched: "watched (snd (reg_subscribe sub c reg)) = insert c (watched reg)"
  by (auto simp: reg_subscribe_def Let_def watched_def reg_is_watched_def)

lemma subscribe_subscribed:
  "set (subscribers_in (snd (reg_subscribe sub c reg)) d) = set (subscribers_in reg d) \<union> (if d = c then {sub} else {})"
  by (auto simp: reg_subscribe_def Let_def)

lemma set_subscribers_ok: "reg_ok reg \<Longrightarrow> map_of (reg_reverse reg) c \<noteq> None \<Longrightarrow> reg_ok (set_subscribers c now subs reg)"
  by (rule reg_okI) (auto simp: set_subscribers_def dest: reg_okD split: if_splits)

lemma set_subscribers_watched:
  "map_of (reg_reverse reg) c \<noteq> None \<Longrightarrow> watched (set_subscribers c now subs reg) = watched reg"
  by (auto simp: set_subscribers_def watched_def reg_is_watched_def)

lemma set_subscribers_subscribed:
  "subscribers_in (set_subscribers c now subs reg) d = (if d = c then subs else subscribers_in reg d)"
  by (simp add: set_subscribers_def)

lemma unsubscribe_eq:
  "\<exists>fw. snd (reg_unsubscribe sub c now reg) =
    (case map_of (reg_reverse reg) c of
       None \<Rightarrow> reg\<lparr>reg_forward := fw\<rparr>
     | Some subs \<Rightarrow> set_subscribers c now (removeAll sub subs) (reg\<lparr>reg_forward := fw\<rparr>))"
  by (rule exI [of _ "case map_of (reg_forward reg) (sub_session sub) of
      None \<Rightarrow> reg_forward reg
    | Some cs \<Rightarrow> if removeAll c cs = [] then hm_remove (sub_session sub) (reg_forward reg)
        else hm_insert (sub_session sub) (removeAll c cs) (reg_forward reg)"])
    (simp add: reg_unsubscribe_def Let_def split: option.split)

lemma unsubscribe_ok: "reg_ok reg \<Longrightarrow> reg_ok (snd (reg_unsubscribe sub c now reg))"
  using unsubscribe_eq [of sub c now reg] by (auto intro!: set_subscribers_ok split: option.split)

lemma unsubscribe_watched: "watched (snd (reg_unsubscribe sub c now reg)) = watched reg"
  using unsubscribe_eq [of sub c now reg]
  by (cases "map_of (reg_reverse reg) c") (auto simp: set_subscribers_watched)

lemma unsubscribe_subscribed:
  "set (subscribers_in (snd (reg_unsubscribe sub c now reg)) d) = set (subscribers_in reg d) - (if d = c then {sub} else {})"
  using unsubscribe_eq [of sub c now reg]
  by (cases "map_of (reg_reverse reg) c") (auto simp: set_subscribers_subscribed)

lemma drop_from_ok: "reg_ok (snd acc) \<Longrightarrow> reg_ok (snd (drop_from session now acc c))"
  by (auto simp: drop_from_def Let_def split: prod.splits option.split intro: set_subscribers_ok)

lemma drop_from_watched: "watched (snd (drop_from session now acc c)) = watched (snd acc)"
  by (auto simp: drop_from_def Let_def set_subscribers_watched split: prod.splits option.split)

lemma drop_from_subscribed:
  "subscribers_in (snd (drop_from session now acc c)) d =
    (if d = c then filter (\<lambda>s. sub_session s \<noteq> session) (subscribers_in (snd acc) d) else subscribers_in (snd acc) d)"
  by (auto simp: drop_from_def Let_def set_subscribers_subscribed split: prod.splits option.split)

lemma drop_all:
  "reg_ok (snd acc) \<Longrightarrow> reg_ok (snd (foldl (drop_from session now) acc cs))"
  "watched (snd (foldl (drop_from session now) acc cs)) = watched (snd acc)"
  "subscribers_in (snd (foldl (drop_from session now) acc cs)) d =
    (if d \<in> set cs then filter (\<lambda>s. sub_session s \<noteq> session) (subscribers_in (snd acc) d) else subscribers_in (snd acc) d)"
  by (induction cs arbitrary: acc) (auto simp: drop_from_ok drop_from_watched drop_from_subscribed)

lemma drop_session_eq:
  "snd (reg_drop_session session now reg) =
    snd (foldl (drop_from session now) ([], reg\<lparr>reg_forward := hm_remove session (reg_forward reg)\<rparr>)
      (or_default (map_of (reg_forward reg) session)))"
  by (simp add: reg_drop_session_def Let_def split: prod.split)

lemma drop_session_ok: "reg_ok reg \<Longrightarrow> reg_ok (snd (reg_drop_session session now reg))"
  by (simp add: drop_session_eq drop_all)

lemma drop_session_watched: "watched (snd (reg_drop_session session now reg)) = watched reg"
  by (simp add: drop_session_eq drop_all)

lemma drop_session_subscribed:
  "subscribers_in (snd (reg_drop_session session now reg)) d =
    (if d \<in> set (or_default (map_of (reg_forward reg) session))
     then filter (\<lambda>s. sub_session s \<noteq> session) (subscribers_in reg d) else subscribers_in reg d)"
  by (simp add: drop_session_eq drop_all)


section \<open>Leaving the grace period\<close>

lemma reap_ok: "reg_ok reg \<Longrightarrow> reg_ok (snd (reg_reap now reg))"
  by (rule reg_okI) (auto simp: reg_reap_def Let_def distinct_fold_hm_remove map_of_fold_hm_remove dest: reg_okD)

lemma reap_reverse [simp]: "reg_reverse (snd (reg_reap now reg)) = reg_reverse reg"
  by (simp add: reg_reap_def Let_def)

lemma grace_is_free:
  assumes "reg_ok reg" and "(c, t) \<in> set (reg_grace reg)"
  shows "map_of (reg_reverse reg) c = None"
proof (rule ccontr)
  assume "map_of (reg_reverse reg) c \<noteq> None"
  then have "map_of (reg_grace reg) c = None"
    using reg_okD(3) [OF assms(1), of c] by auto
  then show False
    using assms(2) by (force simp: map_of_eq_None_iff)
qed

lemma reap_watched:
  assumes "reg_ok reg"
  shows "watched (snd (reg_reap now reg)) = watched reg - set (fst (reg_reap now reg))"
    and "c \<in> set (fst (reg_reap now reg)) \<Longrightarrow> subscribers_in reg c = []"
proof -
  have warm: "map_of (reg_reverse reg) c = None" if "(c, t) \<in> set (reg_grace reg)" for c t
    using that by (rule grace_is_free [OF assms])
  then show "watched (snd (reg_reap now reg)) = watched reg - set (fst (reg_reap now reg))"
    by (auto simp: reg_reap_def Let_def watched_def reg_is_watched_def map_of_fold_hm_remove)
  show "c \<in> set (fst (reg_reap now reg)) \<Longrightarrow> subscribers_in reg c = []"
    by (auto simp: reg_reap_def Let_def dest!: warm)
qed

text \<open>The budget evicts warm directories only, and stops when it is met or none is left.\<close>

lemma budget_all:
  "reg_ok reg \<Longrightarrow>
   reg_ok (snd (enforce_watch_budget b reg)) \<and>
   reg_reverse (snd (enforce_watch_budget b reg)) = reg_reverse reg \<and>
   watched (snd (enforce_watch_budget b reg)) = watched reg - set (fst (enforce_watch_budget b reg)) \<and>
   (\<forall>c \<in> set (fst (enforce_watch_budget b reg)). map_of (reg_reverse reg) c = None) \<and>
   (watched_count (snd (enforce_watch_budget b reg)) \<le> b \<or> reg_grace (snd (enforce_watch_budget b reg)) = [])"
proof (induction b reg rule: enforce_watch_budget.induct)
  case (1 b reg)
  show ?case
  proof (cases "oldest_grace (reg_grace reg)")
    case None
    then have "reg_grace reg = []"
      by (cases "reg_grace reg") (auto split: option.splits if_splits)
    then show ?thesis
      using None 1(2) by (simp add: enforce_watch_budget.simps [of b reg])
  next
    case (Some x)
    obtain c0 t where x: "x = (c0, t)"
      by (cases x)
    have in_grace: "(c0, t) \<in> set (reg_grace reg)"
      using Some by (simp add: x oldest_grace_in)
    show ?thesis
    proof (cases "watched_count reg > b")
      case False
      then show ?thesis
        using Some 1(2) by (simp add: enforce_watch_budget.simps [of b reg] x)
    next
      case True
      let ?reg = "reg\<lparr>reg_grace := hm_remove c0 (reg_grace reg)\<rparr>"
      have dead: "map_of (reg_reverse reg) c0 = None"
        using 1(2) in_grace by (rule grace_is_free)
      have "reg_ok ?reg"
        by (rule reg_okI) (use reg_okD [OF 1(2)] in auto)
      moreover have "watched ?reg = watched reg - {c0}"
        using dead by (auto simp: watched_def reg_is_watched_def)
      moreover have "enforce_watch_budget b reg =
          (c0 # fst (enforce_watch_budget b ?reg), snd (enforce_watch_budget b ?reg))"
        using Some True by (simp add: enforce_watch_budget.simps [of b reg] x split: prod.split)
      ultimately show ?thesis
        using 1(1) [OF Some x [symmetric] True] dead by auto
    qed
  qed
qed

lemma budget_ok:
  assumes "reg_ok reg"
  shows "reg_ok (snd (enforce_watch_budget b reg))"
    and "reg_reverse (snd (enforce_watch_budget b reg)) = reg_reverse reg"
    and "watched (snd (enforce_watch_budget b reg)) = watched reg - set (fst (enforce_watch_budget b reg))"
    and "c \<in> set (fst (enforce_watch_budget b reg)) \<Longrightarrow> map_of (reg_reverse reg) c = None"
    and "watched_count (snd (enforce_watch_budget b reg)) \<le> b \<or> reg_grace (snd (enforce_watch_budget b reg)) = []"
  using budget_all [OF assms, of b] by auto

end
