(* ===== verification/Fs_Follow.thy ===== *)
theory Fs_Follow
  imports Fs_Mirror Fs_Registry
begin

text \<open>
  The shard under any sequence of commands and any answers of the operating system: what is
  mounted is watched, and a client that replays what it is sent has the kinds of the directory
  it follows.
\<close>

section \<open>The tree\<close>

lemma to_btree_sorted: "bt_sorted (to_btree xs)"
proof -
  have "bt_sorted m \<Longrightarrow> bt_sorted (foldl (\<lambda>m (k, v). bt_insert k v m) m xs)" for m :: "(string, 'a) btree_map"
    by (induction xs arbitrary: m) auto
  then show ?thesis
    by (simp add: to_btree_def)
qed

lemma bt_sorted_remove: "bt_sorted m \<Longrightarrow> bt_sorted (hm_remove k m)"
  by (induction m) (auto simp: AList.delete_eq)

lemma stat_children_sorted:
  "stat_children fe rt c names m w = (Inr m', w') \<Longrightarrow> bt_sorted m \<Longrightarrow> bt_sorted m'"
proof (induction names arbitrary: m w)
  case (Cons name names)
  then show ?case
    using bt_sorted_remove [of m name]
    by (auto split: if_splits sum.splits prod.splits option.splits)
qed simp

lemma read_fresh_sorted: "read_fresh fe rt c hint m w = (Inr m', w') \<Longrightarrow> bt_sorted m \<Longrightarrow> bt_sorted m'"
  by (auto simp: read_fresh_def to_btree_sorted stat_children_sorted
      split: apply_hint.splits sum.splits prod.splits)

definition tree_ok :: "tree \<Rightarrow> bool" where
  "tree_ok t \<longleftrightarrow> (\<forall>c n. map_of t c = Some n \<longrightarrow> bt_sorted (node_entries n))"

text \<open>Mounting adds at most the directory; a change replaces its listing.\<close>

lemma tree_mount_cases:
  assumes "tree_mount fe c t w = (r, t', w')"
  obtains (error) e where "r = Inl e" "t' = t"
  | (mounted) n where "map_of t c = Some n" "t' = t" "r = Inr \<lparr>snap_canonical = c, snap_entries = node_entries n\<rparr>"
  | (fresh) n where "map_of t c = None" "t' = hm_insert c n t" "bt_sorted (node_entries n)"
      "r = Inr \<lparr>snap_canonical = c, snap_entries = node_entries n\<rparr>"
proof (cases "map_of t c")
  case None
  then consider (failed) e where "r = Inl e" "t' = t"
    | (read) xs where "t' = hm_insert c \<lparr>node_entries = to_btree xs, node_watch = c\<rparr> t"
        "r = Inr \<lparr>snap_canonical = c, snap_entries = to_btree xs\<rparr>"
    using assms by (auto simp: tree_mount_def tree_snapshot_def Let_def split: sum.splits prod.splits)
  then show ?thesis
  proof cases
    case (read xs)
    then show ?thesis
      by (intro fresh [of "\<lparr>node_entries = to_btree xs, node_watch = c\<rparr>"]) (simp_all add: None to_btree_sorted)
  qed (rule error)
next
  case (Some n)
  then show ?thesis
    using assms by (intro mounted [OF Some]) (auto simp: tree_mount_def tree_snapshot_def)
qed

lemma tree_apply_cases:
  assumes "tree_apply fe c hint t w = (r, t', w')" and "tree_ok t"
  obtains (error) e where "r = Inl e" "t' = t"
  | (same) "r = Inr None" "t' = t"
  | (changed) n fresh where "map_of t c = Some n" "bt_sorted fresh" "t' = hm_insert c (n\<lparr>node_entries := fresh\<rparr>) t"
      "r = Inr (Some \<lparr>delta_canonical = c, delta_changes = tree_diff (node_entries n) fresh\<rparr>)"
proof (cases "map_of t c")
  case None
  then show ?thesis
    using assms(1) same by (simp add: tree_apply_def)
next
  case (Some n)
  then have sorted: "bt_sorted (node_entries n)"
    using assms(2) by (simp add: tree_ok_def)
  consider (failed) e where "r = Inl e" "t' = t" | (none) "r = Inr None" "t' = t"
    | (read) rt fresh where "read_fresh fe rt c hint (node_entries n) w = (Inr fresh, w')"
        "t' = hm_insert c (n\<lparr>node_entries := fresh\<rparr>) t"
        "r = Inr (Some \<lparr>delta_canonical = c, delta_changes = tree_diff (node_entries n) fresh\<rparr>)"
    using assms(1) Some by (auto simp: tree_apply_def Let_def split: sum.splits prod.splits if_splits)
  then show ?thesis
  proof cases
    case (read rt fresh)
    then show ?thesis
      using changed [OF Some read_fresh_sorted [OF read(1) sorted]] by simp
  qed (use error same in blast)+
qed

lemma tree_unmount_lookup: "map_of (fst (tree_unmount fe c tw)) = (map_of (fst tw))(c := None)"
  by (cases tw) (auto simp: tree_unmount_def fun_eq_iff split: option.split)

lemma unmount_all_lookup:
  "map_of (fst (unmount_all fe cs tw)) = (\<lambda>c. if c \<in> set cs then None else map_of (fst tw) c)"
  by (induction cs arbitrary: tw) (auto simp: unmount_all_def tree_unmount_lookup fun_eq_iff)


section \<open>The invariant of the shard\<close>

definition shard_ok :: "shard \<Rightarrow> bool" where
  "shard_ok sh \<longleftrightarrow> reg_ok (sh_subs sh) \<and> tree_ok (sh_tree sh) \<and> dom (map_of (sh_tree sh)) \<subseteq> watched (sh_subs sh)"

lemma shard_ok_new: "shard_ok (shard_new b)"
  by (simp add: shard_ok_def shard_new_def tree_ok_def)

lemma shard_ok_subs:
  assumes "shard_ok sh" and "reg_ok subs" and "watched (sh_subs sh) \<subseteq> watched subs"
  shows "shard_ok (sh\<lparr>sh_subs := subs\<rparr>)"
  using assms by (auto simp: shard_ok_def)

lemma shard_ok_insert:
  "shard_ok sh \<Longrightarrow> c \<in> watched (sh_subs sh) \<Longrightarrow> bt_sorted (node_entries n) \<Longrightarrow>
   shard_ok (sh\<lparr>sh_tree := hm_insert c n (sh_tree sh)\<rparr>)"
  by (auto simp: shard_ok_def tree_ok_def)

lemma subscribe_command_cases:
  assumes "handle_subscribe_command fe sub c sh w = (r, sh', w')" and "shard_ok sh"
  obtains (error) e where "r = Inl e" "sh' = sh\<lparr>sh_subs := snd (reg_subscribe sub c (sh_subs sh))\<rparr>"
  | (mounted) n where "map_of (sh_tree sh) c = Some n"
      "sh' = sh\<lparr>sh_subs := snd (reg_subscribe sub c (sh_subs sh))\<rparr>"
      "r = Inr [OutSnapshot [sub] \<lparr>snap_canonical = c, snap_entries = node_entries n\<rparr>]"
  | (fresh) n where "map_of (sh_tree sh) c = None" "bt_sorted (node_entries n)"
      "sh' = sh\<lparr>sh_subs := snd (reg_subscribe sub c (sh_subs sh)), sh_tree := hm_insert c n (sh_tree sh)\<rparr>"
      "r = Inr [OutSnapshot [sub] \<lparr>snap_canonical = c, snap_entries = node_entries n\<rparr>]"
proof -
  obtain outcome subs where sub: "reg_subscribe sub c (sh_subs sh) = (outcome, subs)"
    by fastforce
  obtain r1 t w1 where mount: "tree_mount fe c (sh_tree sh) w = (r1, t, w1)"
    by (metis prod_cases3)
  consider n where "map_of (sh_tree sh) c = Some n" "outcome \<noteq> SubMount"
    | "map_of (sh_tree sh) c = None \<or> outcome = SubMount"
    by (cases "map_of (sh_tree sh) c") auto
  then show ?thesis
  proof cases
    case 1
    then show ?thesis
      using assms(1) mounted by (auto simp: handle_subscribe_command_def sub tree_snapshot_def)
  next
    case 2
    then have step: "handle_subscribe_command fe sub c sh w =
      (case r1 of Inl e \<Rightarrow> (Inl e, sh\<lparr>sh_subs := subs, sh_tree := t\<rparr>, w1)
       | Inr s \<Rightarrow> (Inr [OutSnapshot [sub] s], sh\<lparr>sh_subs := subs, sh_tree := t\<rparr>, w1))"
      by (auto simp: handle_subscribe_command_def sub tree_snapshot_def mount Let_def split: sum.split)
    have keep: "sh\<lparr>sh_subs := subs, sh_tree := sh_tree sh\<rparr> = sh\<lparr>sh_subs := subs\<rparr>"
      by simp
    show ?thesis
      using mount
    proof (cases rule: tree_mount_cases)
      case (error e)
      then show ?thesis
        using assms(1) step keep by (intro that(1) [of e]) (auto simp: sub)
    next
      case (mounted n)
      then show ?thesis
        using assms(1) step keep that(2) by (simp add: sub)
    next
      case (fresh n)
      then show ?thesis
        using assms(1) step that(3) by (simp add: sub)
    qed
  qed
qed

lemma apply_command_cases:
  assumes "handle_apply_command fe c hint sh w = (r, sh', w')" and "shard_ok sh"
  obtains (error) e where "r = Inl e" "sh' = sh"
  | (same) "r = Inr []" "sh' = sh"
  | (changed) n fresh where "map_of (sh_tree sh) c = Some n" "bt_sorted fresh"
      "sh' = sh\<lparr>sh_tree := hm_insert c (n\<lparr>node_entries := fresh\<rparr>) (sh_tree sh)\<rparr>"
      "r = Inr (if recipients sh c = [] then []
        else [OutDelta (recipients sh c) \<lparr>delta_canonical = c, delta_changes = tree_diff (node_entries n) fresh\<rparr>])"
proof -
  obtain r1 t w1 where app: "tree_apply fe c hint (sh_tree sh) w = (r1, t, w1)"
    by (metis prod_cases3)
  have "tree_ok (sh_tree sh)"
    using assms(2) by (simp add: shard_ok_def)
  with app show ?thesis
  proof (cases rule: tree_apply_cases)
    case (changed n fresh)
    then show ?thesis
      using assms(1) by (intro that(3) [OF changed(1,2)]) (auto simp: handle_apply_command_def app Let_def)
  qed (use assms(1) that(1,2) in \<open>auto simp: handle_apply_command_def app\<close>)
qed

lemma overflow_command_cases:
  assumes "handle_overflow_command fe c sh w = (r, sh', w')" and "shard_ok sh"
  obtains (silent) "sh' = sh" "r = Inr [] \<or> (\<exists>e. r = Inl e)"
  | (snapshot) n where "map_of (sh_tree sh') c = Some n" "bt_sorted (node_entries n)" "map_of (sh_tree sh) c \<noteq> None"
      "sh' = sh \<or> sh' = sh\<lparr>sh_tree := hm_insert c n (sh_tree sh)\<rparr>"
      "r = Inr (if recipients sh c = [] then []
        else [OutSnapshot (recipients sh c) \<lparr>snap_canonical = c, snap_entries = node_entries n\<rparr>])"
proof (cases "map_of (sh_tree sh) c")
  case None
  then show ?thesis
    using assms(1) that(1) by (auto simp: handle_overflow_command_def tree_snapshot_def)
next
  case (Some n)
  obtain r1 t w1 where app: "tree_apply fe c HintAll (sh_tree sh) w = (r1, t, w1)"
    by (metis prod_cases3)
  have trees: "tree_ok (sh_tree sh)"
    using assms(2) by (simp add: shard_ok_def)
  then have sorted: "bt_sorted (node_entries n)"
    using Some by (simp add: tree_ok_def)
  from app trees show ?thesis
  proof (cases rule: tree_apply_cases)
    case (error e)
    then show ?thesis
      using assms(1) Some that(1) by (auto simp: handle_overflow_command_def tree_snapshot_def app)
  next
    case same
    then have "sh' = sh"
      using assms(1) Some by (auto simp: handle_overflow_command_def tree_snapshot_def app Let_def)
    then show ?thesis
      using assms(1) Some sorted same
      by (intro that(2) [of n]) (auto simp: handle_overflow_command_def tree_snapshot_def app Let_def)
  next
    case (changed n' fresh)
    then show ?thesis
      using assms(1) Some
      by (intro that(2) [of "n'\<lparr>node_entries := fresh\<rparr>"])
        (auto simp: handle_overflow_command_def tree_snapshot_def app Let_def)
  qed
qed

lemma reap_command:
  assumes "handle_reap_command fe now sh w = (r, sh', w')" and "shard_ok sh"
  shows "shard_ok sh'" and "r = Inr []" and "reg_reverse (sh_subs sh') = reg_reverse (sh_subs sh)"
    and "map_of (sh_tree sh) c = Some n \<Longrightarrow> subscribers_in (sh_subs sh) c \<noteq> [] \<Longrightarrow> map_of (sh_tree sh') c = Some n"
    and "watched_count (sh_subs sh') \<le> sh_warm_budget sh \<or> reg_grace (sh_subs sh') = []"
proof -
  obtain expired subs1 where reap: "reg_reap now (sh_subs sh) = (expired, subs1)"
    by fastforce
  obtain evicted subs2 where budget: "enforce_watch_budget (sh_warm_budget sh) subs1 = (evicted, subs2)"
    by fastforce
  have sh': "sh_subs sh' = subs2"
      "map_of (sh_tree sh') = (\<lambda>c. if c \<in> set expired \<or> c \<in> set evicted then None else map_of (sh_tree sh) c)"
      "r = Inr []"
    using assms(1) unmount_all_lookup [of fe evicted "unmount_all fe expired (sh_tree sh, w)"]
      unmount_all_lookup [of fe expired "(sh_tree sh, w)"]
    by (auto simp: handle_reap_command_def reap budget fun_eq_iff split: prod.splits)
  have regs: "reg_ok (sh_subs sh)"
    using assms(2) by (simp add: shard_ok_def)
  have subs1: "reg_ok subs1" "watched subs1 = watched (sh_subs sh) - set expired" "reg_reverse subs1 = reg_reverse (sh_subs sh)"
    using reap_ok [OF regs, of now] reap_watched(1) [OF regs, of now] reap_reverse [of now "sh_subs sh"]
    by (simp_all add: reap del: reap_reverse)
  have subs2: "reg_ok subs2" "watched subs2 = watched subs1 - set evicted" "reg_reverse subs2 = reg_reverse subs1"
    using budget_ok(1,2,3) [OF subs1(1), of "sh_warm_budget sh"] by (simp_all add: budget)
  show "shard_ok sh'"
    using assms(2) subs1(2) subs2 by (auto simp: shard_ok_def tree_ok_def sh' split: if_splits)
  show "r = Inr []" and "reg_reverse (sh_subs sh') = reg_reverse (sh_subs sh)"
    using sh'(1,3) subs1(3) subs2(3) by simp_all
  show "watched_count (sh_subs sh') \<le> sh_warm_budget sh \<or> reg_grace (sh_subs sh') = []"
    using budget_ok(5) [OF subs1(1), of "sh_warm_budget sh"] by (simp add: budget sh')
  assume "map_of (sh_tree sh) c = Some n" and live: "subscribers_in (sh_subs sh) c \<noteq> []"
  have "c \<notin> set expired"
    using reap_watched(2) [OF regs, of c now] live by (auto simp: reap)
  moreover have "c \<notin> set evicted"
    using budget_ok(4) [OF subs1(1), of c "sh_warm_budget sh"] live by (auto simp: budget subs1(3))
  ultimately show "map_of (sh_tree sh') c = Some n"
    using \<open>map_of (sh_tree sh) c = Some n\<close> by (simp add: sh'(2))
qed

lemma shard_ok_handle:
  assumes "shard_handle fe cmd sh w = (r, sh', w')" and "shard_ok sh"
  shows "shard_ok sh'"
proof -
  have regs: "reg_ok (sh_subs sh)"
    using assms(2) by (simp add: shard_ok_def)
  show ?thesis
  proof (cases cmd)
    case (CmdSubscribe sub c now)
    have subs: "shard_ok (sh\<lparr>sh_subs := snd (reg_subscribe sub c (sh_subs sh))\<rparr>)"
      by (rule shard_ok_subs [OF assms(2) subscribe_ok [OF regs]]) (auto simp: subscribe_watched)
    have "handle_subscribe_command fe sub c sh w = (r, sh', w')"
      using assms(1) by (simp add: CmdSubscribe)
    then show ?thesis
      using assms(2)
    proof (cases rule: subscribe_command_cases)
      case (fresh n)
      then show ?thesis
        using shard_ok_insert [OF subs, of c n] by (simp add: subscribe_watched)
    qed (use subs in simp_all)
  next
    case (CmdUnsubscribe sub c now)
    then show ?thesis
      using assms(1) shard_ok_subs [OF assms(2) unsubscribe_ok [OF regs]] by (auto simp: unsubscribe_watched)
  next
    case (CmdApply c hint)
    then have "handle_apply_command fe c hint sh w = (r, sh', w')"
      using assms(1) by simp
    then show ?thesis
      using assms(2)
    proof (cases rule: apply_command_cases)
      case (changed n fresh)
      then have "c \<in> watched (sh_subs sh)"
        using assms(2) by (auto simp: shard_ok_def)
      then show ?thesis
        using shard_ok_insert [OF assms(2)] changed by simp
    qed (use assms(2) in simp_all)
  next
    case (CmdOverflow c)
    then have "handle_overflow_command fe c sh w = (r, sh', w')"
      using assms(1) by simp
    then show ?thesis
      using assms(2)
    proof (cases rule: overflow_command_cases)
      case (snapshot n)
      then have "c \<in> watched (sh_subs sh)"
        using assms(2) by (auto simp: shard_ok_def)
      then show ?thesis
        using shard_ok_insert [OF assms(2), of c n] snapshot assms(2) by auto
    qed (use assms(2) in simp_all)
  next
    case (CmdDropSession session now)
    then show ?thesis
      using assms(1) shard_ok_subs [OF assms(2) drop_session_ok [OF regs]] by (auto simp: drop_session_watched)
  next
    case (CmdReapTick now)
    then show ?thesis
      using assms reap_command(1) by simp
  qed
qed


section \<open>Clients that follow\<close>

text \<open>
  What a client knows of each directory it follows: nothing before its first snapshot, then
  what the snapshot says and the batches make of it.
\<close>

type_synonym mirrors = "subscriber \<times> string \<Rightarrow> kinds option"

fun forget :: "fs_command \<Rightarrow> mirrors \<Rightarrow> mirrors" where
  "forget (CmdSubscribe sub c now) mir = mir((sub, c) := None)"
| "forget (CmdUnsubscribe sub c now) mir = mir((sub, c) := None)"
| "forget (CmdDropSession session now) mir = (\<lambda>(sub, c). if sub_session sub = session then None else mir (sub, c))"
| "forget _ mir = mir"

fun observe :: "shard_output \<Rightarrow> mirrors \<Rightarrow> mirrors" where
  "observe (OutSnapshot subs s) mir = (\<lambda>(sub, c).
     if sub \<in> set subs \<and> c = snap_canonical s then Some (kinds_of (snap_entries s)) else mir (sub, c))"
| "observe (OutDelta subs d) mir = (\<lambda>(sub, c).
     if sub \<in> set subs \<and> c = delta_canonical d then map_option (replay (delta_changes d)) (mir (sub, c))
     else mir (sub, c))"

definition observe_result :: "fs_error + shard_output list \<Rightarrow> mirrors \<Rightarrow> mirrors" where
  "observe_result r mir = (case r of Inl _ \<Rightarrow> mir | Inr outs \<Rightarrow> fold observe outs mir)"

text \<open>No name of a listing that a command replaces changes its kind.\<close>

definition kinds_stable :: "shard \<Rightarrow> shard \<Rightarrow> bool" where
  "kinds_stable sh sh' \<longleftrightarrow>
     list_all (\<lambda>(c, n). case map_of (sh_tree sh') c of
       Some n' \<Rightarrow> kind_stable (node_entries n) (node_entries n') | None \<Rightarrow> True) (sh_tree sh)"

definition batch_stable :: "fs_command \<Rightarrow> shard \<Rightarrow> shard \<Rightarrow> bool" where
  "batch_stable cmd sh sh' \<longleftrightarrow> (case cmd of CmdApply c hint \<Rightarrow> kinds_stable sh sh' | _ \<Rightarrow> True)"

inductive mirrored :: "'w fs_env \<Rightarrow> shard \<Rightarrow> mirrors \<Rightarrow> bool" for fe where
  start: "mirrored fe (shard_new budget) (\<lambda>_. None)"
| step: "mirrored fe sh mir \<Longrightarrow> shard_handle fe cmd sh w = (r, sh', w') \<Longrightarrow> batch_stable cmd sh sh' \<Longrightarrow>
    mirrored fe sh' (observe_result r (forget cmd mir))"

definition mirrors_ok :: "shard \<Rightarrow> mirrors \<Rightarrow> bool" where
  "mirrors_ok sh mir \<longleftrightarrow> (\<forall>sub c m. sub \<in> set (subscribers_in (sh_subs sh) c) \<longrightarrow> mir (sub, c) = Some m \<longrightarrow>
     (\<exists>n. map_of (sh_tree sh) c = Some n \<and> m = kinds_of (node_entries n)))"

lemma mirrors_okD:
  "mirrors_ok sh mir \<Longrightarrow> sub \<in> set (subscribers_in (sh_subs sh) c) \<Longrightarrow> mir (sub, c) = Some m \<Longrightarrow>
   \<exists>n. map_of (sh_tree sh) c = Some n \<and> m = kinds_of (node_entries n)"
  by (simp add: mirrors_ok_def)

lemma mirrors_ok_step:
  assumes "shard_handle fe cmd sh w = (r, sh', w')" and "batch_stable cmd sh sh'"
    and "shard_ok sh" and "mirrors_ok sh mir"
  shows "mirrors_ok sh' (observe_result r (forget cmd mir))"
proof (cases cmd)
  case (CmdSubscribe sub c now)
  have "handle_subscribe_command fe sub c sh w = (r, sh', w')"
    using assms(1) by (simp add: CmdSubscribe)
  then show ?thesis
    using assms(3)
  proof (cases rule: subscribe_command_cases)
    case (fresh n)
    then show ?thesis
      using mirrors_okD [OF assms(4)]
      by (fastforce simp: mirrors_ok_def CmdSubscribe observe_result_def subscribe_subscribed split: if_splits)
  next
    case (mounted n)
    then show ?thesis
      using mirrors_okD [OF assms(4)]
      by (fastforce simp: mirrors_ok_def CmdSubscribe observe_result_def subscribe_subscribed split: if_splits)
  next
    case (error e)
    then show ?thesis
      using mirrors_okD [OF assms(4)]
      by (fastforce simp: mirrors_ok_def CmdSubscribe observe_result_def subscribe_subscribed split: if_splits)
  qed
next
  case (CmdUnsubscribe sub c now)
  then show ?thesis
    using assms(1) mirrors_okD [OF assms(4)]
    by (auto simp: mirrors_ok_def observe_result_def unsubscribe_subscribed split: if_splits)
next
  case (CmdApply c hint)
  have "handle_apply_command fe c hint sh w = (r, sh', w')"
    using assms(1) by (simp add: CmdApply)
  then show ?thesis
    using assms(3)
  proof (cases rule: apply_command_cases)
    case (changed n fresh)
    have "kind_stable (node_entries n) fresh"
      using assms(2) map_of_SomeD [OF changed(1)] by (auto simp: batch_stable_def kinds_stable_def list_all_iff changed(3) CmdApply)
    moreover have "bt_sorted (node_entries n)"
      using assms(3) changed(1) by (simp add: shard_ok_def tree_ok_def)
    ultimately have "replay (tree_diff (node_entries n) fresh) (kinds_of (node_entries n)) = kinds_of fresh"
      using changed(2) by (intro diff_replays) (auto intro: bt_sorted_distinct)
    then show ?thesis
      using mirrors_okD [OF assms(4)] changed(1)
      by (fastforce simp: mirrors_ok_def CmdApply changed(3,4) observe_result_def recipients_def subscribers_of_def
          split: if_splits)
  qed (use assms(4) in \<open>simp_all add: CmdApply observe_result_def\<close>)
next
  case (CmdOverflow c)
  have "handle_overflow_command fe c sh w = (r, sh', w')"
    using assms(1) by (simp add: CmdOverflow)
  then show ?thesis
    using assms(3)
  proof (cases rule: overflow_command_cases)
    case (snapshot n)
    have subs: "sh_subs sh' = sh_subs sh" and other: "\<And>d. d \<noteq> c \<Longrightarrow> map_of (sh_tree sh') d = map_of (sh_tree sh) d"
      using snapshot(4) by auto
    show ?thesis
      unfolding mirrors_ok_def
    proof (intro allI impI)
      fix sub d m
      assume sub: "sub \<in> set (subscribers_in (sh_subs sh') d)"
        and "observe_result r (forget cmd mir) (sub, d) = Some m"
      then have "if d = c then m = kinds_of (node_entries n) else mir (sub, d) = Some m"
        by (auto simp: CmdOverflow snapshot(5) observe_result_def recipients_def subscribers_of_def subs split: if_splits)
      then show "\<exists>n. map_of (sh_tree sh') d = Some n \<and> m = kinds_of (node_entries n)"
        using mirrors_okD [OF assms(4), of sub d m] sub snapshot(1) other by (cases "d = c") (auto simp: subs)
    qed
  qed (use assms(4) in \<open>auto simp: CmdOverflow observe_result_def\<close>)
next
  case (CmdDropSession session now)
  then show ?thesis
    using assms(1) mirrors_okD [OF assms(4)]
    by (auto simp: mirrors_ok_def observe_result_def drop_session_subscribed split: if_splits)
next
  case (CmdReapTick now)
  then have step: "handle_reap_command fe now sh w = (r, sh', w')"
    using assms(1) by simp
  show ?thesis
    unfolding mirrors_ok_def
  proof (intro allI impI)
    fix sub c m
    assume "sub \<in> set (subscribers_in (sh_subs sh') c)" and "observe_result r (forget cmd mir) (sub, c) = Some m"
    then have sub: "sub \<in> set (subscribers_in (sh_subs sh) c)" and "mir (sub, c) = Some m"
      using reap_command(2,3) [OF step assms(3)] by (simp_all add: CmdReapTick observe_result_def)
    then obtain n where "map_of (sh_tree sh) c = Some n" "m = kinds_of (node_entries n)"
      using mirrors_okD [OF assms(4)] by blast
    then show "\<exists>n. map_of (sh_tree sh') c = Some n \<and> m = kinds_of (node_entries n)"
      using reap_command(4) [OF step assms(3)] sub by fastforce
  qed
qed

lemma mirrored_ok: "mirrored fe sh mir \<Longrightarrow> shard_ok sh \<and> mirrors_ok sh mir"
proof (induction rule: mirrored.induct)
  case (start budget)
  then show ?case
    by (simp add: shard_ok_new mirrors_ok_def)
next
  case (step sh mir cmd w r sh' w')
  then show ?case
    using shard_ok_handle [OF step(2)] mirrors_ok_step [OF step(2,3)] by blast
qed


section \<open>A connection that is gone\<close>

text \<open>A sequence of commands, and those that a connection sends itself.\<close>

inductive shard_run :: "'w fs_env \<Rightarrow> shard \<Rightarrow> fs_command list \<Rightarrow> shard \<Rightarrow> bool" for fe where
  none: "shard_run fe sh [] sh"
| more: "shard_handle fe cmd sh w = (r, sh', w') \<Longrightarrow> shard_run fe sh' cmds sh'' \<Longrightarrow> shard_run fe sh (cmd # cmds) sh''"

inductive_cases shard_run_ConsE: "shard_run fe sh (cmd # cmds) sh'"

inductive_cases shard_run_NilE: "shard_run fe sh [] sh'"

lemma shard_run_split: "shard_run fe sh (cmds @ cmds') sh'' \<Longrightarrow> \<exists>sh'. shard_run fe sh cmds sh' \<and> shard_run fe sh' cmds' sh''"
proof (induction cmds arbitrary: sh)
  case (Cons cmd cmds)
  then show ?case
    by (auto elim!: shard_run_ConsE intro: shard_run.more) (meson shard_run.more)
qed (auto intro: shard_run.none)

fun sent_by :: "string \<Rightarrow> fs_command \<Rightarrow> bool" where
  "sent_by session (CmdSubscribe sub c now) \<longleftrightarrow> sub_session sub = session"
| "sent_by session (CmdUnsubscribe sub c now) \<longleftrightarrow> sub_session sub = session"
| "sent_by session _ \<longleftrightarrow> False"

definition lingering :: "subscriber \<Rightarrow> string \<Rightarrow> registry \<Rightarrow> bool" where
  "lingering sub c reg \<longleftrightarrow> sub \<in> set (subscribers_in reg c) \<and>
     c \<notin> set (or_default (map_of (reg_forward reg) (sub_session sub)))"

lemma forward_subscribe:
  "or_default (map_of (reg_forward (snd (reg_subscribe sub c reg))) s) =
    (if s = sub_session sub then List.insert c (or_default (map_of (reg_forward reg) s)) else or_default (map_of (reg_forward reg) s))"
  by (simp add: reg_subscribe_def Let_def)

lemma set_subscribers_forward [simp]: "reg_forward (set_subscribers c now subs reg) = reg_forward reg"
  by (simp add: set_subscribers_def)

lemma forward_unsubscribe:
  "or_default (map_of (reg_forward (snd (reg_unsubscribe sub c now reg))) s) =
    (if s = sub_session sub then removeAll c (or_default (map_of (reg_forward reg) s)) else or_default (map_of (reg_forward reg) s))"
  by (auto simp: reg_unsubscribe_def Let_def split: option.split)

lemma forward_drop_from [simp]: "reg_forward (snd (foldl (drop_from session now) acc cs)) = reg_forward (snd acc)"
  by (induction cs arbitrary: acc) (auto simp: drop_from_def Let_def split: prod.splits option.split)

lemma forward_drop_session:
  "or_default (map_of (reg_forward (snd (reg_drop_session session now reg))) s) =
    (if s = session then [] else or_default (map_of (reg_forward reg) s))"
  by (simp add: drop_session_eq)

lemma forward_reap [simp]: "reg_forward (snd (reg_reap now reg)) = reg_forward reg"
  by (simp add: reg_reap_def Let_def)

lemma forward_budget [simp]: "reg_forward (snd (enforce_watch_budget b reg)) = reg_forward reg"
  by (induction b reg rule: enforce_watch_budget.induct)
    (subst enforce_watch_budget.simps, simp add: Let_def case_prod_beta split: option.split)

lemma forward_reap_command:
  "handle_reap_command fe now sh w = (r, sh', w') \<Longrightarrow> reg_forward (sh_subs sh') = reg_forward (sh_subs sh)"
  using forward_reap [of now "sh_subs sh"] forward_budget [of "sh_warm_budget sh" "snd (reg_reap now (sh_subs sh))"]
  by (auto simp: handle_reap_command_def simp del: forward_reap forward_budget split: prod.splits)

lemma lingering_step:
  assumes "shard_handle fe cmd sh w = (r, sh', w')" and "shard_ok sh"
    and "\<not> sent_by (sub_session sub) cmd" and "lingering sub c (sh_subs sh)"
  shows "lingering sub c (sh_subs sh')"
proof (cases cmd)
  case (CmdSubscribe sub1 d now)
  have "handle_subscribe_command fe sub1 d sh w = (r, sh', w')"
    using assms(1) by (simp add: CmdSubscribe)
  then have "sh_subs sh' = snd (reg_subscribe sub1 d (sh_subs sh))"
    using assms(2) by (cases rule: subscribe_command_cases) simp_all
  then show ?thesis
    using assms(3,4) by (auto simp: lingering_def CmdSubscribe forward_subscribe subscribe_subscribed)
next
  case (CmdUnsubscribe sub1 d now)
  then show ?thesis
    using assms(1,3,4) by (auto simp: lingering_def forward_unsubscribe unsubscribe_subscribed)
next
  case (CmdApply d hint)
  have "handle_apply_command fe d hint sh w = (r, sh', w')"
    using assms(1) by (simp add: CmdApply)
  then have "sh_subs sh' = sh_subs sh"
    using assms(2) by (cases rule: apply_command_cases) simp_all
  then show ?thesis
    using assms(4) by simp
next
  case (CmdOverflow d)
  have "handle_overflow_command fe d sh w = (r, sh', w')"
    using assms(1) by (simp add: CmdOverflow)
  then have "sh_subs sh' = sh_subs sh"
    using assms(2) by (cases rule: overflow_command_cases) auto
  then show ?thesis
    using assms(4) by simp
next
  case (CmdDropSession session now)
  then show ?thesis
    using assms(1,4) by (auto simp: lingering_def forward_drop_session drop_session_subscribed split: if_splits)
next
  case (CmdReapTick now)
  then have step: "handle_reap_command fe now sh w = (r, sh', w')"
    using assms(1) by simp
  show ?thesis
    using assms(4) reap_command(3) [OF step assms(2)] forward_reap_command [OF step] by (simp add: lingering_def)
qed

lemma lingering_run:
  "shard_run fe sh cmds sh' \<Longrightarrow> shard_ok sh \<Longrightarrow> list_all (\<lambda>cmd. \<not> sent_by (sub_session sub) cmd) cmds \<Longrightarrow>
   lingering sub c (sh_subs sh) \<Longrightarrow> lingering sub c (sh_subs sh')"
proof (induction rule: shard_run.induct)
  case (more cmd sh w r sh' w' cmds sh'')
  then show ?case
    using shard_ok_handle [OF more(1)] lingering_step [OF more(1)] by simp
qed


section \<open>Reachable shards\<close>

lemma shard_run_ok: "shard_run fe sh cmds sh' \<Longrightarrow> shard_ok sh \<Longrightarrow> shard_ok sh'"
  by (induction rule: shard_run.induct) (auto dest: shard_ok_handle)

lemma shard_run_append: "shard_run fe sh cmds sh' \<Longrightarrow> shard_run fe sh' cmds' sh'' \<Longrightarrow> shard_run fe sh (cmds @ cmds') sh''"
  by (induction rule: shard_run.induct) (auto intro: shard_run.more)

lemma shard_run_one: "shard_handle fe cmd sh w = (r, sh', w') \<Longrightarrow> shard_run fe sh [cmd] sh'"
  by (rule shard_run.more [OF _ shard_run.none])

lemma budget_handle:
  assumes "shard_handle fe cmd sh w = (r, sh', w')" and "shard_ok sh"
  shows "sh_warm_budget sh' = sh_warm_budget sh"
proof (cases cmd)
  case (CmdSubscribe sub c now)
  have "handle_subscribe_command fe sub c sh w = (r, sh', w')"
    using assms(1) by (simp add: CmdSubscribe)
  then show ?thesis
    using assms(2) by (cases rule: subscribe_command_cases) simp_all
next
  case (CmdApply c hint)
  have "handle_apply_command fe c hint sh w = (r, sh', w')"
    using assms(1) by (simp add: CmdApply)
  then show ?thesis
    using assms(2) by (cases rule: apply_command_cases) simp_all
next
  case (CmdOverflow c)
  have "handle_overflow_command fe c sh w = (r, sh', w')"
    using assms(1) by (simp add: CmdOverflow)
  then show ?thesis
    using assms(2) by (cases rule: overflow_command_cases) auto
next
  case (CmdReapTick now)
  then show ?thesis
    using assms(1) by (auto simp: handle_reap_command_def split: prod.splits)
qed (use assms(1) in auto)

lemma budget_run: "shard_run fe sh cmds sh' \<Longrightarrow> shard_ok sh \<Longrightarrow> sh_warm_budget sh' = sh_warm_budget sh"
proof (induction rule: shard_run.induct)
  case (more cmd sh w r sh' w' cmds sh'')
  then show ?case
    using budget_handle [OF more(1)] shard_ok_handle [OF more(1)] by simp
qed simp

text \<open>A run as a function of the commands and the worlds they meet.\<close>

fun shard_exec :: "'w fs_env \<Rightarrow> (fs_command \<times> 'w) list \<Rightarrow> shard \<Rightarrow> shard" where
  "shard_exec fe [] sh = sh"
| "shard_exec fe ((cmd, w) # steps) sh = shard_exec fe steps (fst (snd (shard_handle fe cmd sh w)))"

lemma shard_exec_run: "shard_run fe sh (map fst steps) (shard_exec fe steps sh)"
proof (induction fe steps sh rule: shard_exec.induct)
  case (2 fe cmd w steps sh)
  then show ?case
    by (cases "shard_handle fe cmd sh w") (auto intro: shard_run.more)
qed (simp add: shard_run.none)

fun mirror_exec :: "'w fs_env \<Rightarrow> (fs_command \<times> 'w) list \<Rightarrow> shard \<times> mirrors \<Rightarrow> (shard \<times> mirrors) option" where
  "mirror_exec fe [] st = Some st"
| "mirror_exec fe ((cmd, w) # steps) (sh, mir) =
     (case shard_handle fe cmd sh w of
        (r, sh', _) \<Rightarrow>
          if batch_stable cmd sh sh' then mirror_exec fe steps (sh', observe_result r (forget cmd mir)) else None)"

lemma mirror_exec_mirrored:
  "mirror_exec fe steps (sh, mir) = Some (sh', mir') \<Longrightarrow> mirrored fe sh mir \<Longrightarrow> mirrored fe sh' mir'"
proof (induction steps arbitrary: sh mir)
  case (Cons p steps)
  obtain cmd w where p: "p = (cmd, w)"
    by (cases p)
  obtain r sh1 w1 where h: "shard_handle fe cmd sh w = (r, sh1, w1)"
    by (metis prod_cases3)
  show ?case
    using Cons mirrored.step [OF Cons(3) h] by (auto simp: p h split: if_splits)
qed simp

end
