(* ===== verification/Fs_Reply.thy ===== *)
theory Fs_Reply
  imports Fs_Monitor Fs_Follow
begin

text \<open>
  What is answered to a request, and what a subscription of several targets leaves behind.
\<close>

section \<open>One answer for each request\<close>

fun answers :: "json_id option \<Rightarrow> wire_frame \<Rightarrow> bool" where
  "answers i (FrameSuccess j r) \<longleftrightarrow> j = i"
| "answers i (FrameError j e t) \<longleftrightarrow> j = i"
| "answers i (FrameNotification n) \<longleftrightarrow> False"

definition answered_once :: "string \<Rightarrow> json_id option \<Rightarrow> push list \<Rightarrow> bool" where
  "answered_once session i ps \<longleftrightarrow> (case ps of [(s, f)] \<Rightarrow> s = session \<and> answers i f | _ \<Rightarrow> False)"

lemma answered_once_single [simp]: "answered_once session i [(s, f)] \<longleftrightarrow> s = session \<and> answers i f"
  by (simp add: answered_once_def)

lemma reply_unit_once: "answered_once session i (reply_unit session i target outcome)"
  by (simp add: reply_unit_def split: sum.split)

lemma initialize_once: "answered_once session i (handle_initialize session i params)"
  by (simp add: handle_initialize_def invalid_params_def split: option.split)

lemma mkdir_once: "handle_mkdir me session user i params w = (ps, w') \<Longrightarrow> answered_once session i ps"
  by (auto simp: handle_mkdir_def invalid_params_def reply_unit_once split: option.splits prod.splits sum.splits)

lemma remove_once: "handle_remove me session user i params w = (ps, w') \<Longrightarrow> answered_once session i ps"
  by (auto simp: handle_remove_def invalid_params_def reply_unit_once split: option.splits prod.splits sum.splits)

lemma rename_once: "handle_rename me session user i params w = (ps, w') \<Longrightarrow> answered_once session i ps"
  by (auto simp: handle_rename_def invalid_params_def reply_unit_once split: option.splits prod.splits sum.splits)

lemma subscribe_once: "handle_subscribe me now session user i params mo w = (ps, mo', w') \<Longrightarrow> answered_once session i ps"
  by (auto simp: handle_subscribe_def invalid_params_def split: option.splits prod.splits sum.splits)

lemma search_once:
  assumes "handle_search me session user i params mo w = (ps, mo', w')"
  shows "i = None \<and> ps = [] \<and> mo' = mo \<or> answered_once session i ps \<and> mo' = mo \<or>
    ps = [] \<and> (\<exists>job. mo_spawned mo' = mo_spawned mo @ [job] \<and> sj_session job = session \<and>
      Some (sj_search_id job) = i \<and> map_of (mo_searches mo') session = Some \<lparr>as_search_id = sj_search_id job, as_cancel = sj_cancel job\<rparr>)"
  using assms
  by (auto simp: handle_search_def invalid_params_def register_search_def cancel_token_def Let_def
      split: option.splits prod.splits sum.splits if_splits)


lemma resolve_target_op: "resolve_target me user target op w = resolve_target me user target op' w"
  by (simp add: resolve_target_def resolve_reference_def cong: option.case_cong sum.case_cong)


section \<open>Subscriptions\<close>

lemma subscribe_keeps_others:
  assumes "shard_handle fe (CmdSubscribe sub c now) sh w = (r, sh', w')" and "shard_ok sh"
  shows "set (recipients sh' d) = set (recipients sh d) \<union> (if d = c then {sub} else {})"
proof -
  have "handle_subscribe_command fe sub c sh w = (r, sh', w')"
    using assms(1) by simp
  then have "sh_subs sh' = snd (reg_subscribe sub c (sh_subs sh))"
    using assms(2) by (cases rule: subscribe_command_cases) simp_all
  then show ?thesis
    by (simp add: recipients_def subscribers_of_def subscribe_subscribed)
qed

definition followed :: "string \<Rightarrow> (resource_ref \<times> string) list \<Rightarrow> shard \<Rightarrow> bool" where
  "followed session plan sh \<longleftrightarrow>
     list_all (\<lambda>(target, c). ref_subscriber session target \<in> set (recipients sh c)) plan"

lemma subscribe_targets_cases:
  assumes "subscribe_targets me session now ((target, d) # plan) sh w = (r, sh', w')"
  obtains (failed) e w1 where
    "shard_handle (me_fs me) (CmdSubscribe (ref_subscriber session target) d now) sh w = (Inl e, sh', w1)"
    "r = Inl (fs_error_to_rpc e, target)"
  | (rest) outs sh1 w1 r2 where
    "shard_handle (me_fs me) (CmdSubscribe (ref_subscriber session target) d now) sh w = (Inr outs, sh1, w1)"
    "subscribe_targets me session now plan sh1 w1 = (r2, sh', w')"
    "r = (case r2 of Inl e \<Rightarrow> Inl e | Inr snaps \<Rightarrow> Inr (output_snapshots target outs @ snaps))"
  using assms by (auto split: prod.splits sum.splits)

lemma subscribe_targets_grow:
  "subscribe_targets me session now plan sh w = (r, sh', w') \<Longrightarrow> shard_ok sh \<Longrightarrow>
   shard_ok sh' \<and> set (recipients sh c) \<subseteq> set (recipients sh' c)"
proof (induction plan arbitrary: sh w r)
  case (Cons p plan)
  obtain target d where p: "p = (target, d)"
    by (cases p)
  from Cons(2)[unfolded p] show ?case
  proof (cases rule: subscribe_targets_cases)
    case (failed e w1)
    then show ?thesis
      using shard_ok_handle [OF failed(1) Cons(3)] subscribe_keeps_others [OF failed(1) Cons(3), of c] by blast
  next
    case (rest outs sh1 w1 r2)
    then show ?thesis
      using shard_ok_handle [OF rest(1) Cons(3)] subscribe_keeps_others [OF rest(1) Cons(3), of c] Cons(1) by blast
  qed
qed simp

lemma subscribe_targets_follow:
  "subscribe_targets me session now plan sh w = (r, sh', w') \<Longrightarrow> shard_ok sh \<Longrightarrow>
   (case r of
      Inr snaps \<Rightarrow> followed session plan sh'
    | Inl (e, target) \<Rightarrow> \<exists>pre d post. plan = pre @ (target, d) # post \<and> followed session (pre @ [(target, d)]) sh')"
proof (induction plan arbitrary: sh w r)
  case (Cons p plan)
  obtain target d where p: "p = (target, d)"
    by (cases p)
  from Cons(2)[unfolded p] show ?case
  proof (cases rule: subscribe_targets_cases)
    case (failed e w1)
    then have "followed session ([] @ [(target, d)]) sh'"
      using subscribe_keeps_others [OF failed(1) Cons(3), of d] by (simp add: followed_def)
    moreover have "p # plan = [] @ (target, d) # plan"
      by (simp add: p)
    ultimately show ?thesis
      unfolding failed(2) by (simp only: sum.case prod.case) blast
  next
    case (rest outs sh1 w1 r2)
    have ok: "shard_ok sh1"
      using shard_ok_handle [OF rest(1) Cons(3)] .
    have first: "ref_subscriber session target \<in> set (recipients sh' d)"
      using subscribe_keeps_others [OF rest(1) Cons(3), of d] subscribe_targets_grow [OF rest(2) ok, of d] by auto
    note IH = Cons(1) [OF rest(2) ok]
    show ?thesis
    proof (cases r2)
      case (Inr snaps)
      then show ?thesis
        using IH first rest(3) by (simp add: p followed_def)
    next
      case (Inl x)
      obtain e t where x: "x = (e, t)"
        by (cases x)
      then obtain pre d' post where plan: "plan = pre @ (t, d') # post" and pre: "followed session (pre @ [(t, d')]) sh'"
        using IH Inl by auto
      have "p # plan = ((target, d) # pre) @ (t, d') # post \<and> followed session (((target, d) # pre) @ [(t, d')]) sh'"
        using pre first by (simp add: plan p followed_def)
      then show ?thesis
        unfolding rest(3) Inl x by (simp only: sum.case prod.case) blast
    qed
  qed
qed (simp add: followed_def)

lemma subscribe_targets_run:
  "subscribe_targets me session now plan sh w = (r, sh', w') \<Longrightarrow>
   \<exists>cmds. shard_run (me_fs me) sh cmds sh' \<and> list_all (sent_by session) cmds"
proof (induction me session now plan sh w arbitrary: r rule: subscribe_targets.induct)
  case (1 me session now sh w)
  then show ?case
    by (auto intro!: exI [of _ "[]"] shard_run.none)
next
  case (2 me session now target d plan sh w)
  obtain r1 sh1 w1 where one:
    "shard_handle (me_fs me) (CmdSubscribe (ref_subscriber session target) d now) sh w = (r1, sh1, w1)"
    by (metis prod_cases3)
  have sent: "sent_by session (CmdSubscribe (ref_subscriber session target) d now)"
    by (simp add: ref_subscriber_def)
  show ?case
  proof (cases r1)
    case (Inl e)
    then have "sh' = sh1"
      using 2(2) one by auto
    then show ?thesis
      using one sent by (auto intro!: exI [of _ "[CmdSubscribe (ref_subscriber session target) d now]"] shard_run.intros)
  next
    case (Inr outs)
    obtain r2 where rest: "subscribe_targets me session now plan sh1 w1 = (r2, sh', w')"
      using 2(2) one Inr by (auto split: prod.splits sum.splits)
    then obtain cmds where "shard_run (me_fs me) sh1 cmds sh'" "list_all (sent_by session) cmds"
      using 2(1) [OF one [symmetric] Inr refl rest] by blast
    then show ?thesis
      using shard_run.more [OF one] sent
      by (intro exI [of _ "CmdSubscribe (ref_subscriber session target) d now # cmds"]) simp
  qed
qed

end
