(* ===== verification/Fs_Demo.thy ===== *)
theory Fs_Demo
  imports Fs_Reply
begin

text \<open>
  A small file system on which the properties are exercised: a world lists the entries of each
  directory, by its URI.
\<close>

type_synonym fs_world = "(string \<times> (string \<times> entry_fact) list) list"

definition demo_url :: url_lib where
  "demo_url =
     \<lparr>url_scheme = (\<lambda>u. if take 7 u = ''file://'' then Some ''file'' else None),
      url_to_path = (\<lambda>u. if take 7 u = ''file://'' then Some (drop 7 u) else None),
      url_from_path = (\<lambda>p. if path_is_absolute p then Some (''file://'' @ p) else None)\<rparr>"

definition demo_children :: "fs_world \<Rightarrow> (string \<times> entry_fact) list" where
  "demo_children w = concat (map (\<lambda>(d, es). map (\<lambda>(n, f). (d @ ''/'' @ n, f)) es) w)"

definition demo_runtime :: "fs_world fs_runtime" where
  "demo_runtime =
     \<lparr>rt_watch = (\<lambda>u w. (Inr (), w)),
      rt_unwatch = (\<lambda>u w. w),
      rt_read_dir = (\<lambda>u w. (case map_of w u of Some es \<Rightarrow> Inr es | None \<Rightarrow> Inl (FsNotFound u), w)),
      rt_stat = (\<lambda>u w. (Inr (map_of (demo_children w) u), w)),
      rt_mkdir = (\<lambda>u w. (Inr (), (u, []) # w)),
      rt_remove = (\<lambda>u r w. (Inr (), hm_remove u w)),
      rt_rename = (\<lambda>u v w. (Inr (), map (\<lambda>(d, es). (if d = u then v else d, es)) w)),
      rt_searches = True\<rparr>"

definition demo_fs :: "fs_world fs_env" where
  "demo_fs = \<lparr>fe_url = demo_url, fe_runtimes = [(''file'', demo_runtime)]\<rparr>"

definition demo_file :: "u64 \<Rightarrow> entry_fact" where
  "demo_file i = \<lparr>fact_kind = KindFile, fact_inode = i, fact_target = None\<rparr>"

definition demo_dir :: "u64 \<Rightarrow> entry_fact" where
  "demo_dir i = \<lparr>fact_kind = KindDir, fact_inode = i, fact_target = None\<rparr>"

definition demo_sub :: "string \<Rightarrow> string \<Rightarrow> subscriber" where
  "demo_sub session rel = \<lparr>sub_session = session, sub_pe_id = ''p'', sub_rel = rel\<rparr>"

definition demo_root :: string where
  "demo_root = ''file:///r''"

text \<open>A directory with a file that is renamed and a directory that is added.\<close>

definition demo_steps :: "(fs_command \<times> fs_world) list" where
  "demo_steps =
     [(CmdSubscribe (demo_sub ''s'' ''.'') demo_root 0, [(demo_root, [(''a'', demo_file 1)])]),
      (CmdApply demo_root (HintChildNames [''a'', ''b'', ''d'']), [(demo_root, [(''b'', demo_file 1), (''d'', demo_dir 2)])])]"

text \<open>Entries and folders: one user, one entry, one folder.\<close>

definition demo_store :: "'w project_store" where
  "demo_store =
     \<lparr>ps_get_entry = (\<lambda>user pe w. (Inr (if user = ''u'' \<and> pe = ''p'' then Some \<lparr>er_project_id = ''x'', er_pe_id = ''p'', er_folder_id = ''f''\<rparr> else None), w)),
      ps_get_folder = (\<lambda>f w. (Inr (if f = ''f'' then Some \<lparr>fr_resource_uri = demo_root, fr_resource_canonical = demo_root\<rparr> else None), w))\<rparr>"

definition demo_text :: text_lib where
  "demo_text = \<lparr>tl_lower = ascii_lower, tl_chars = map of_char\<rparr>"

definition fs_demo_env :: "fs_world monitor_env" where
  "fs_demo_env =
     \<lparr>me_fs = demo_fs, me_runtime = demo_runtime, me_store = demo_store,
      me_realpath = (\<lambda>w p. if map_of w (''file://'' @ p) \<noteq> None then Some p else None),
      me_fold_case = False, me_text = demo_text\<rparr>"

text \<open>A folder with a link that leads out of it.\<close>

definition demo_link_env :: "fs_world monitor_env" where
  "demo_link_env = fs_demo_env\<lparr>me_realpath := (\<lambda>w. map_of [(''/r'', ''/r''), (''/r/l'', ''/etc'')])\<rparr>"

definition demo_params :: rpc_params where
  "demo_params = \<lparr>as_initialize = None, as_targets = None, as_mkdir = None, as_remove = None, as_rename = None,
     as_search = None, as_search_cancel = None\<rparr>"

definition demo_ref :: "string \<Rightarrow> resource_ref" where
  "demo_ref rel = \<lparr>rf_pe_id = ''p'', rf_relative_path = rel\<rparr>"

definition fs_demo_request :: "string \<Rightarrow> rpc_params \<Rightarrow> incoming_frame" where
  "fs_demo_request m params = \<lparr>in_id = Some ''1'', in_method = m, in_params = params\<rparr>"

definition demo_links :: "string \<Rightarrow> string option" where
  "demo_links = map_of [(''/l'', ''/r''), (''/r'', ''/r'')]"

end
