(* ===== verification/Fs_Facts.thy ===== *)
theory Fs_Facts
  imports Fs_Monitor
begin

text \<open>
  Lemmas of the monitor: the normal form of a path, the check of real paths, what the buffer of
  raw events makes of them, and what is answered to a request.
\<close>

section \<open>Normal forms of paths\<close>

definition lower_char :: "char \<Rightarrow> char" where
  "lower_char c = (if CHR ''A'' \<le> c \<and> c \<le> CHR ''Z'' then char_of (of_char c + 32 :: nat) else c)"

lemma ascii_lower_map: "ascii_lower = map lower_char"
  by (simp add: ascii_lower_def lower_char_def fun_eq_iff)

lemma lower_char_code:
  "of_char (lower_char c) = (if 65 \<le> (of_char c :: nat) \<and> (of_char c :: nat) \<le> 90 then of_char c + 32 else (of_char c :: nat))"
  by (auto simp: lower_char_def less_eq_char_def of_char_of)

lemma lower_char_eq [simp]:
  "lower_char c = CHR ''/'' \<longleftrightarrow> c = CHR ''/''" "lower_char c = CHR ''.'' \<longleftrightarrow> c = CHR ''.''"
  using lower_char_code [of c]
  by (auto simp: of_char_eq_iff [symmetric, where 'a = nat] simp del: of_char_eq_iff split: if_splits)

lemma lower_char_slash [simp]: "lower_char (CHR ''/'') = CHR ''/''" "lower_char (CHR ''.'') = CHR ''.''"
  by simp_all

lemma lower_char_idem [simp]: "lower_char (lower_char c) = lower_char c"
  using lower_char_code [of c] lower_char_code [of "lower_char c"]
  by (auto simp: of_char_eq_iff [symmetric, where 'a = nat] simp del: of_char_eq_iff split: if_splits)


lemma ascii_lower_idem [simp]: "ascii_lower (ascii_lower s) = ascii_lower s"
  by (simp add: ascii_lower_map)

lemma split_slash_lower: "split_slash (ascii_lower s) = map ascii_lower (split_slash s)"
  unfolding ascii_lower_map by (induction s) (auto split: list.splits)

definition lower_component :: "path_component \<Rightarrow> path_component" where
  "lower_component c = (case c of NormalSeg s \<Rightarrow> NormalSeg (ascii_lower s) | _ \<Rightarrow> c)"

lemma lower_dots [simp]:
  "ascii_lower s = [] \<longleftrightarrow> s = []" "ascii_lower s = ''.'' \<longleftrightarrow> s = ''.''" "ascii_lower s = ''..'' \<longleftrightarrow> s = ''..''"
  by (auto simp: ascii_lower_map map_eq_Cons_conv)

lemma component_of_lower: "component_of_seg (ascii_lower s) = map_option lower_component (component_of_seg s)"
  by (simp add: component_of_seg_def lower_component_def)

lemma option_list_map: "option_list (map_option f x) = map f (option_list x)"
  by (cases x) simp_all

lemma filter_map_lower: "filter_map component_of_seg (map ascii_lower ss) = map lower_component (filter_map component_of_seg ss)"
  by (induction ss) (auto simp: component_of_lower option_list_map)

lemma absolute_lower [simp]: "path_is_absolute (ascii_lower s) = path_is_absolute s"
  by (cases s) (auto simp: path_is_absolute_def ascii_lower_map)

lemma path_components_lower: "path_components (ascii_lower p) = map lower_component (path_components p)"
  by (simp add: path_components_def split_slash_lower filter_map_lower hd_map lower_component_def)

lemma component_str_lower: "component_str (lower_component c) = ascii_lower (component_str c)"
  by (cases c) (simp_all add: lower_component_def ascii_lower_map)

lemma path_join_lower: "path_join (ascii_lower p) (ascii_lower q) = ascii_lower (path_join p q)"
  using absolute_lower [of q] by (cases "p = []") (auto simp: path_join_def ascii_lower_map last_map)

lemma path_of_components_lower: "path_of_components (map lower_component cs) = ascii_lower (path_of_components cs)"
proof -
  have "foldl path_join (ascii_lower p) (map component_str (map lower_component cs)) =
      ascii_lower (foldl path_join p (map component_str cs))" for p
    by (induction cs arbitrary: p) (simp_all add: component_str_lower path_join_lower)
  moreover have "ascii_lower [] = []"
    by simp
  ultimately show ?thesis
    by (metis path_of_components_def)
qed

text \<open>A list of components without \<open>.\<close> and \<open>..\<close> is its own normal form.\<close>

definition normal_list :: "path_component list \<Rightarrow> bool" where
  "normal_list cs \<longleftrightarrow> component_list cs \<and> CurDir \<notin> set cs \<and> ParentDir \<notin> set cs"

lemma normal_list_fixed:
  "CurDir \<notin> set cs \<Longrightarrow> ParentDir \<notin> set cs \<Longrightarrow> foldl normalize_step acc cs = acc @ cs"
proof (induction cs arbitrary: acc)
  case (Cons c cs)
  then show ?case
    by (cases c) (auto simp: normalize_step_def)
qed simp

lemma normal_list_step:
  assumes "normal_list acc" and "c \<noteq> RootDir" and "\<And>s. c = NormalSeg s \<Longrightarrow> plain_seg s"
  shows "normal_list (normalize_step acc c)"
proof (cases c)
  case (NormalSeg s)
  then show ?thesis
    using assms by (cases acc) (auto simp: normal_list_def component_list_def normalize_step_def)
next
  case ParentDir
  then show ?thesis
    using assms(1) component_list_butlast [of acc]
    by (auto simp: normal_list_def normalize_step_def dest: in_set_butlastD split: list.split path_component.split)
qed (use assms in \<open>auto simp: normalize_step_def\<close>)

lemma normal_list_normalized: "normal_list (foldl normalize_step [] (path_components p))"
proof -
  have fold: "normal_list (foldl normalize_step acc cs)"
    if "normal_list acc" "RootDir \<notin> set cs" "\<And>s. NormalSeg s \<in> set cs \<Longrightarrow> plain_seg s" for acc cs
    using that
  proof (induction cs arbitrary: acc)
    case (Cons c cs)
    then show ?case
      using normal_list_step [of acc c] by auto
  qed simp
  show ?thesis
  proof (cases "path_components p")
    case (Cons c cs)
    have list: "component_list (c # cs)"
      using path_components_list [of p] by (simp add: Cons)
    have "normal_list (normalize_step [] c)"
      using list by (cases c) (auto simp: normal_list_def component_list_def normalize_step_def)
    then show ?thesis
      using fold [of "normalize_step [] c" cs] list by (simp add: Cons component_list_def)
  qed (simp add: normal_list_def component_list_def)
qed

lemma normalized_components: "path_components (normalize_lexical p) = foldl normalize_step [] (path_components p)"
  using normal_list_normalized [of p] by (simp add: normalize_lexical_def path_components_inverse normal_list_def)

lemma normalize_idem: "normalize_lexical (normalize_lexical p) = normalize_lexical p"
  using normal_list_normalized [of p] normal_list_fixed [of "foldl normalize_step [] (path_components p)" "[]"]
  by (simp add: normalize_lexical_def [of "normalize_lexical p"] normalized_components)
    (simp add: normalize_lexical_def normal_list_def)

lemma normalize_lower: "normalize_lexical (ascii_lower (normalize_lexical p)) = ascii_lower (normalize_lexical p)"
proof -
  let ?cs = "foldl normalize_step [] (path_components p)"
  have "CurDir \<notin> set (map lower_component ?cs) \<and> ParentDir \<notin> set (map lower_component ?cs)"
    using normal_list_normalized [of p]
    by (auto simp: normal_list_def lower_component_def split: path_component.splits)
  then have "foldl normalize_step [] (map lower_component ?cs) = map lower_component ?cs"
    using normal_list_fixed [of "map lower_component ?cs" "[]"] by simp
  then have "normalize_lexical (ascii_lower (normalize_lexical p)) = path_of_components (map lower_component ?cs)"
    by (simp add: normalize_lexical_def [of "ascii_lower (normalize_lexical p)"] path_components_lower
        normalized_components)
  then show ?thesis
    by (simp add: path_of_components_lower normalize_lexical_def)
qed

text \<open>The URL crate: a URL made from a path is a file URL of that path.\<close>

definition url_round_trip :: "url_lib \<Rightarrow> bool" where
  "url_round_trip ul \<longleftrightarrow>
     (\<forall>p u. url_from_path ul p = Some u \<longrightarrow> url_scheme ul u = Some ''file'' \<and> url_to_path ul u = Some p)"

lemma canonicalize_eq:
  "url_scheme ul uri = Some ''file'' \<Longrightarrow> url_to_path ul uri = Some p \<Longrightarrow>
   canonicalize ul fold_case uri =
     (case url_from_path ul (if fold_case then ascii_lower (normalize_lexical p) else normalize_lexical p) of
        None \<Rightarrow> Inl (FolderCanonicalizeFailed uri) | Some u \<Rightarrow> Inr u)"
  by (simp add: canonicalize_def parse_scheme_def Let_def)

lemma canonicalize_SomeD:
  assumes "canonicalize ul fold_case uri = Inr c"
  obtains p where "url_scheme ul uri = Some ''file''" "url_to_path ul uri = Some p"
    "url_from_path ul (if fold_case then ascii_lower (normalize_lexical p) else normalize_lexical p) = Some c"
  using assms
  by (auto simp: canonicalize_def parse_scheme_def Let_def split: option.splits if_splits)


section \<open>The check of real paths\<close>

fun ancestor :: "nat \<Rightarrow> string \<Rightarrow> string option" where
  "ancestor 0 p = Some p"
| "ancestor (Suc k) p = (case path_parent p of None \<Rightarrow> None | Some q \<Rightarrow> ancestor k q)"

lemma probe_within_iff:
  "probe_within realpath root p \<longleftrightarrow>
    (\<exists>k q real. ancestor k p = Some q \<and> realpath q = Some real \<and> path_starts_with real root \<and>
       (\<forall>j<k. \<exists>a. ancestor j p = Some a \<and> realpath a = None))"
proof (induction realpath root p rule: probe_within.induct)
  case (1 realpath root p)
  show ?case
  proof (cases "realpath p")
    case (Some real)
    have "k = 0" if "\<forall>j<k. \<exists>a. ancestor j p = Some a \<and> realpath a = None" for k
      using that Some by (cases k) force+
    then show ?thesis
      using Some by (subst probe_within.simps) (force intro!: exI [of _ 0])
  next
    case None
    show ?thesis
    proof (cases "path_parent p")
      case none: None
      have "\<not> (ancestor k p = Some q \<and> realpath q = Some real)" for k q real
        using none None by (cases k) auto
      then show ?thesis
        using None none by (subst probe_within.simps) fastforce
    next
      case (Some p')
      have "(\<exists>k q real. ancestor k p = Some q \<and> realpath q = Some real \<and> path_starts_with real root \<and>
          (\<forall>j<k. \<exists>a. ancestor j p = Some a \<and> realpath a = None)) \<longleftrightarrow>
        (\<exists>k q real. ancestor k p' = Some q \<and> realpath q = Some real \<and> path_starts_with real root \<and>
          (\<forall>j<k. \<exists>a. ancestor j p' = Some a \<and> realpath a = None))" (is "?lhs = ?rhs")
      proof
        assume ?lhs
        then obtain k q real where k: "ancestor k p = Some q" "realpath q = Some real" "path_starts_with real root"
          "\<forall>j<k. \<exists>a. ancestor j p = Some a \<and> realpath a = None"
          by blast
        then obtain k' where "k = Suc k'"
          using None by (cases k) auto
        have "\<exists>a. ancestor j p' = Some a \<and> realpath a = None" if "j < k'" for j
          using k(4) [rule_format, of "Suc j"] that Some by (simp add: \<open>k = Suc k'\<close>)
        then show ?rhs
          using k(1,2,3) Some by (intro exI [of _ k'] exI [of _ q] exI [of _ real]) (simp add: \<open>k = Suc k'\<close>)
      next
        assume ?rhs
        then obtain k q real where k: "ancestor k p' = Some q" "realpath q = Some real" "path_starts_with real root"
          "\<forall>j<k. \<exists>a. ancestor j p' = Some a \<and> realpath a = None"
          by blast
        have "\<exists>a. ancestor j p = Some a \<and> realpath a = None" if "j < Suc k" for j
          using that k(4) None Some by (cases j) auto
        then show ?lhs
          using k(1,2,3) Some by (intro exI [of _ "Suc k"]) auto
      qed
      then show ?thesis
        using 1 [OF None Some] None Some by (subst probe_within.simps) simp
    qed
  qed
qed



section \<open>Coalescing raw events\<close>

fun raw_canonical :: "raw_event \<Rightarrow> string" where
  "raw_canonical (RawChanged c ps) = c"
| "raw_canonical (RawOverflow c) = c"

fun raw_names :: "string \<Rightarrow> raw_event \<Rightarrow> string list" where
  "raw_names c (RawChanged c' ps) = (if c' = c then child_names ps else [])"
| "raw_names c (RawOverflow c') = []"

text \<open>One command for each directory, in order: a rescan if any event asks for one.\<close>

definition coalesced :: "raw_event list \<Rightarrow> fs_command list" where
  "coalesced evs =
     map (\<lambda>c. if RawOverflow c \<in> set evs then CmdOverflow c
          else CmdApply c (HintChildNames (btree_set (concat (map (raw_names c) evs)))))
       (btree_set (map raw_canonical evs))"

definition pending_of :: "raw_event list \<Rightarrow> string \<Rightarrow> pending_change option" where
  "pending_of evs c =
     (if RawOverflow c \<in> set evs then Some PendingOverflow
      else if c \<in> raw_canonical ` set evs then Some (PendingChanged (btree_set (concat (map (raw_names c) evs))))
      else None)"

definition debounce_all :: "raw_event list \<Rightarrow> debouncer" where
  "debounce_all evs = fold debounce_push evs []"

lemma raw_names_none: "c \<notin> raw_canonical ` set evs \<Longrightarrow> concat (map (raw_names c) evs) = []"
proof (induction evs)
  case (Cons ev evs)
  then show ?case
    by (cases ev) auto
qed simp

lemma btree_set_set: "btree_set (btree_set xs @ ys) = btree_set (xs @ ys)"
  by (rule btree_set_cong) simp

lemma debounce_all_lookup: "map_of (debounce_all evs) c = pending_of evs c"
proof (induction evs rule: rev_induct)
  case (snoc ev evs)
  have all: "debounce_all (evs @ [ev]) = debounce_push ev (debounce_all evs)"
    by (simp add: debounce_all_def)
  show ?case
  proof (cases ev)
    case (RawOverflow d)
    show ?thesis
      using snoc unfolding all unfolding RawOverflow by (auto simp: debounce_push_def pending_of_def)
  next
    case (RawChanged d ps)
    have d: "map_of (debounce_all evs) d = pending_of evs d"
      if "c = d" using that snoc by simp
    show ?thesis
    proof (cases "c = d")
      case True
      then show ?thesis
        using d raw_names_none [of d evs] unfolding all unfolding RawChanged
        by (auto simp: debounce_push_def pending_of_def btree_set_set simp del: concat_eq_Nil_conv
            split: option.split pending_change.split)
    next
      case False
      then have "map_of (debounce_push ev (debounce_all evs)) c = map_of (debounce_all evs) c"
        by (auto simp: RawChanged debounce_push_def split: option.split pending_change.split)
      then show ?thesis
        using False snoc unfolding all by (simp add: RawChanged pending_of_def)
    qed
  qed
qed (simp add: debounce_all_def pending_of_def)

lemma debounce_push_distinct: "distinct (hm_keys d) \<Longrightarrow> distinct (hm_keys (debounce_push ev d))"
  by (cases ev) (auto simp: debounce_push_def split: option.split pending_change.split)

lemma debounce_all_distinct: "distinct (hm_keys (debounce_all evs))"
proof -
  have "distinct (hm_keys d) \<Longrightarrow> distinct (hm_keys (fold debounce_push evs d))" for d
    by (induction evs arbitrary: d) (auto simp: debounce_push_distinct)
  then show ?thesis
    by (simp add: debounce_all_def)
qed

lemma debounce_all_keys: "set (hm_keys (debounce_all evs)) = raw_canonical ` set evs"
proof -
  have "c \<in> set (hm_keys (debounce_all evs)) \<longleftrightarrow> c \<in> raw_canonical ` set evs" for c
    using debounce_all_lookup [of evs c] map_of_eq_None_iff [of "debounce_all evs" c]
    by (force simp: pending_of_def split: if_splits)
  then show ?thesis
    by blast
qed

lemma sorted_entries:
  assumes "distinct (hm_keys m)"
  shows "sort_key fst m = map (\<lambda>c. (c, the (map_of m c))) (btree_set (hm_keys m))"
proof -
  have "map fst (sort_key fst m) = btree_set (hm_keys m)"
    using assms
    by (intro sorted_distinct_set_unique) (simp_all add: distinct_map)
  moreover have "map (\<lambda>kv. (fst kv, the (map_of m (fst kv)))) (sort_key fst m) = sort_key fst m"
  proof (rule map_idI)
    fix kv assume "kv \<in> set (sort_key fst m)"
    then show "(fst kv, the (map_of m (fst kv))) = kv"
      using map_of_is_SomeI [OF assms, of "fst kv" "snd kv"] by simp
  qed
  ultimately show ?thesis
    by (metis (no_types, lifting) comp_apply map_eq_conv map_map)
qed

lemma debounce_drain_coalesced: "fst (debounce_drain (debounce_all evs)) = coalesced evs"
proof -
  have keys: "btree_set (hm_keys (debounce_all evs)) = btree_set (map raw_canonical evs)"
    by (rule btree_set_cong) (use debounce_all_keys in simp)
  have "map pending_command (sort_key fst (debounce_all evs)) =
      map (\<lambda>c. pending_command (c, the (pending_of evs c))) (btree_set (map raw_canonical evs))"
    by (simp add: sorted_entries [OF debounce_all_distinct] keys debounce_all_lookup comp_def)
  also have "\<dots> = coalesced evs"
    unfolding coalesced_def by (rule map_cong) (auto simp: pending_of_def pending_command_def)
  finally show ?thesis
    by (simp add: debounce_drain_def)
qed

end
