(* ===== verification/Fs_Watch.thy ===== *)
theory Fs_Watch
  imports Fs_Types
begin

text \<open>
  The watcher of local directories (\<open>runtime/local_watcher.rs\<close>): the directories it watches,
  keyed by the names under which the operating system may report them, and the attribution of
  an event to the directories whose listing it may change. The \<open>notify\<close> crate, which may refuse
  a watch, is a parameter.
\<close>

record watch_entry =
  wt_lexical :: string
  wt_notify_path :: string

type_synonym watched_map = "(string, watch_entry) hash_map"

definition canonical_of :: "url_lib \<Rightarrow> bool \<Rightarrow> string \<Rightarrow> string option" where
  "canonical_of ul fold_case p =
     (case to_file_uri ul p of
        Inl _ \<Rightarrow> None
      | Inr u \<Rightarrow> (case canonicalize ul fold_case u of Inl _ \<Rightarrow> None | Inr c \<Rightarrow> Some c))"

definition realpath_canonical :: "url_lib \<Rightarrow> bool \<Rightarrow> (string \<Rightarrow> string option) \<Rightarrow> string \<Rightarrow> string option" where
  "realpath_canonical ul fold_case realpath p =
     (case realpath p of None \<Rightarrow> None | Some r \<Rightarrow> canonical_of ul fold_case r)"

text \<open>The watched directory of a canonical name.\<close>

definition owner_of :: "url_lib \<Rightarrow> bool \<Rightarrow> watched_map \<Rightarrow> string \<Rightarrow> string option" where
  "owner_of ul fold_case m p =
     (case canonical_of ul fold_case p of
        None \<Rightarrow> None
      | Some c \<Rightarrow> map_option wt_lexical (map_of m c))"

definition resolve_owner :: "url_lib \<Rightarrow> bool \<Rightarrow> watched_map \<Rightarrow> string \<Rightarrow> string list" where
  "resolve_owner ul fold_case m p =
     (let owners = option_list (owner_of ul fold_case m p)
      in case path_parent p of
           None \<Rightarrow> owners
         | Some parent \<Rightarrow>
             (case owner_of ul fold_case m parent of
                None \<Rightarrow> owners
              | Some c \<Rightarrow> if c \<in> set owners then owners else owners @ [c]))"

text \<open>What the callback sends for an event.\<close>

definition watcher_events :: "url_lib \<Rightarrow> bool \<Rightarrow> watched_map \<Rightarrow> notify_event \<Rightarrow> raw_event list" where
  "watcher_events ul fold_case m ev = map_event ev (resolve_owner ul fold_case m)"

definition lw_watch ::
  "url_lib \<Rightarrow> bool \<Rightarrow> (string \<Rightarrow> string option) \<Rightarrow> (string \<Rightarrow> string option) \<Rightarrow> string \<Rightarrow> watched_map \<Rightarrow>
   (fs_error + string) \<times> watched_map" where
  "lw_watch ul fold_case realpath notify_refuses c m =
     (case uri_to_path ul c of
        Inl _ \<Rightarrow> (Inl (FsIo c ''invalid file uri''), m)
      | Inr p \<Rightarrow>
          (case notify_refuses p of
             Some msg \<Rightarrow> (Inl (FsIo c msg), m)
           | None \<Rightarrow>
               let entry = \<lparr>wt_lexical = c, wt_notify_path = p\<rparr>;
                   m1 = hm_insert c entry m
               in (Inr c,
                   case realpath_canonical ul fold_case realpath p of
                     None \<Rightarrow> m1
                   | Some r \<Rightarrow> if map_of m1 r = None then hm_insert r entry m1 else m1)))"

text \<open>The map after a watch is stopped, and the path \<open>notify\<close> is told to stop.\<close>

definition lw_unwatch :: "string \<Rightarrow> watched_map \<Rightarrow> string option \<times> watched_map" where
  "lw_unwatch handle m =
     (map_option wt_notify_path (List.find (\<lambda>e. wt_lexical e = handle) (hm_values m)),
      filter (\<lambda>(_, e). wt_lexical e \<noteq> handle) m)"

lemma map_of_unwatch:
  assumes "distinct (hm_keys m)"
  shows "map_of (snd (lw_unwatch handle m)) c =
    (case map_of m c of Some e \<Rightarrow> if wt_lexical e = handle then None else Some e | None \<Rightarrow> None)"
  using assms by (induction m) (auto simp: lw_unwatch_def map_of_eq_None_iff image_iff split: option.splits)

text \<open>Two directories that are one on disk, reached by a link and directly.\<close>

lemma watch_lookup:
  assumes "uri_to_path ul c = Inr p" and "notify_refuses p = None"
  shows "map_of (snd (lw_watch ul fold_case realpath notify_refuses c m)) c = Some \<lparr>wt_lexical = c, wt_notify_path = p\<rparr>"
  using assms by (auto simp: lw_watch_def Let_def split: option.split)

lemma watch_distinct:
  "distinct (hm_keys m) \<Longrightarrow> distinct (hm_keys (snd (lw_watch ul fold_case realpath notify_refuses c m)))"
  by (auto simp: lw_watch_def Let_def split: sum.split option.split)

lemma map_event_changed:
  assumes "\<not> ev_need_rescan ev" and "p \<in> set (ev_paths ev)" and "c \<in> set (resolve p)"
  shows "\<exists>ps. RawChanged c ps \<in> set (map_event ev resolve) \<and> p \<in> set ps"
proof -
  define has where "has gs \<longleftrightarrow> (\<exists>ps. (c, ps) \<in> set gs \<and> p \<in> set ps)" for gs :: "(string \<times> string list) list"
  have [simp]: "\<not> has []" "has ((d, ps) # gs) \<longleftrightarrow> d = c \<and> p \<in> set ps \<or> has gs" for d ps gs
    by (auto simp: has_def)
  have add_keeps: "has gs \<Longrightarrow> has (add_path q d gs)" for q d gs
    by (induction gs) auto
  have add_adds: "has (add_path p c gs)" for gs
    by (induction gs) auto
  have inner_keeps: "has (foldl (\<lambda>gs c. add_path q c gs) gs ds)" if "has gs" for q gs ds
    using that by (induction ds arbitrary: gs) (auto simp: add_keeps)
  have inner_adds: "has (foldl (\<lambda>gs c. add_path p c gs) gs ds)" if "c \<in> set ds" for gs ds
    using that by (induction ds arbitrary: gs) (auto simp: add_adds inner_keeps)
  have outer_keeps: "has (foldl (\<lambda>gs p. foldl (\<lambda>gs c. add_path p c gs) gs (resolve p)) gs qs)" if "has gs" for gs qs
    using that by (induction qs arbitrary: gs) (auto simp: inner_keeps)
  have "has (foldl (\<lambda>gs p. foldl (\<lambda>gs c. add_path p c gs) gs (resolve p)) gs qs)" if "p \<in> set qs" for gs qs
    using that assms(3) by (induction qs arbitrary: gs) (auto simp: outer_keeps inner_adds)
  then have "has (foldl (\<lambda>gs p. foldl (\<lambda>gs c. add_path p c gs) gs (resolve p)) [] (ev_paths ev))"
    using assms(2) .
  then show ?thesis
    using assms(1) by (force simp: map_event_def has_def)
qed

end
