(* ===== verification/Fs_Search_Law.thy ===== *)
theory Fs_Search_Law
  imports Fs_Search
begin

text \<open>
  The invariant of a search under any interleaving: no slot of the budget is lost, each hit is
  in one place, batches have their sizes, and the coordinator's answer is about a search whose
  walks have stopped.
\<close>

section \<open>One step of a walk\<close>

definition hits_out :: "search_state \<Rightarrow> search_hit multiset" where
  "hits_out s = mset (pushed_hits (ss_pushed s)) + mset (ss_buf s)"

definition batch_size_ok :: "search_push \<Rightarrow> bool" where
  "batch_size_ok p \<longleftrightarrow> (case p of PushMatches b \<Rightarrow> b \<noteq> [] \<and> length b \<le> search_match_batch | _ \<Rightarrow> True)"

lemma entry_hits_Cons:
  "mset (entry_hits tx m pe (e # es)) =
    mset (case e of WalkFile rel name \<Rightarrow>
      if name_matches tx m name then [\<lparr>hit_pe = pe, hit_rel = rel, hit_name = name\<rparr>] else [] | _ \<Rightarrow> []) +
    mset (entry_hits tx m pe es)"
  by (cases e) simp_all

lemma walk_next_hits:
  assumes "wk_pc wk = WalkNext"
  shows "hits_left tx m (walk_next tx m cancelled wk) \<subseteq># hits_left tx m wk"
    and "\<not> cancelled \<Longrightarrow> hits_left tx m (walk_next tx m cancelled wk) = hits_left tx m wk"
    and "batch_hits (wk_pc (walk_next tx m cancelled wk)) = []"
    and "taken_slots (wk_pc (walk_next tx m cancelled wk)) = 0"
proof -
  have "hits_left tx m (walk_next tx m cancelled wk) \<subseteq># hits_left tx m wk \<and>
    (\<not> cancelled \<longrightarrow> hits_left tx m (walk_next tx m cancelled wk) = hits_left tx m wk) \<and>
    batch_hits (wk_pc (walk_next tx m cancelled wk)) = [] \<and>
    taken_slots (wk_pc (walk_next tx m cancelled wk)) = 0"
  proof (cases "wk_entries wk")
    case (Cons e es)
    then show ?thesis
      using assms by (cases e) (auto simp: walk_next_def hits_left_def)
  qed (use assms in \<open>simp add: walk_next_def hits_left_def\<close>)
  then show "hits_left tx m (walk_next tx m cancelled wk) \<subseteq># hits_left tx m wk"
    and "\<not> cancelled \<Longrightarrow> hits_left tx m (walk_next tx m cancelled wk) = hits_left tx m wk"
    and "batch_hits (wk_pc (walk_next tx m cancelled wk)) = []"
    and "taken_slots (wk_pc (walk_next tx m cancelled wk)) = 0"
    by blast+
qed

text \<open>What a step keeps, with the walk's own share of it.\<close>

definition share :: "walker \<Rightarrow> search_hit multiset" where
  "share wk = mset (batch_hits (wk_pc wk))"

definition walker_sized :: "walker \<Rightarrow> bool" where
  "walker_sized wk \<longleftrightarrow> (case wk_pc wk of WalkSend b \<Rightarrow> length b = search_match_batch | _ \<Rightarrow> True)"

definition exhausted :: "walker \<Rightarrow> bool" where
  "exhausted wk \<longleftrightarrow> (wk_pc wk = WalkStopped \<longrightarrow> wk_entries wk = [])"

definition step_keeps :: "text_lib \<Rightarrow> name_matcher \<Rightarrow> walker \<Rightarrow> search_state \<Rightarrow> walker \<Rightarrow> search_state \<Rightarrow> bool" where
  "step_keeps tx m wk s wk' s' \<longleftrightarrow>
     ss_walkers s' = ss_walkers s \<and> ss_pc s' = ss_pc s \<and> ss_cancelled s' = ss_cancelled s \<and>
     ss_remaining s' + ss_total s' + taken_slots (wk_pc wk') = ss_remaining s + ss_total s + taken_slots (wk_pc wk) \<and>
     ss_total s' + size (hits_out s + share wk) = ss_total s + size (hits_out s' + share wk') \<and>
     hits_out s' + share wk' + hits_left tx m wk' \<subseteq># hits_out s + share wk + hits_left tx m wk \<and>
     (ss_hit_cap s' \<longrightarrow> ss_hit_cap s \<and> ss_remaining s' \<le> ss_remaining s \<or> ss_remaining s' = 0) \<and>
     (ss_hit_cap s \<longrightarrow> ss_hit_cap s') \<and>
     (ss_pushed s' = ss_pushed s \<or> (\<exists>b. wk_pc wk = WalkSend b \<and> ss_pushed s' = ss_pushed s @ [PushMatches b]))"

lemma walk_step_keeps:
  assumes "walk_step tx m wk s = (wk', s')"
  shows "step_keeps tx m wk s wk' s'"
proof (cases "wk_pc wk")
  case WalkNext
  then show ?thesis
    using assms walk_next_hits [OF WalkNext, where tx = tx and m = m and cancelled = "ss_cancelled s"]
    by (auto simp: walk_step_def step_keeps_def share_def)
next
  case (WalkEmit hit)
  then show ?thesis
    using assms
    by (auto simp: walk_step_def step_keeps_def share_def push_hit_def Let_def hits_left_def hits_out_def
        search_match_batch_def split: if_splits)
next
  case (WalkSend b)
  then show ?thesis
    using assms by (auto simp: walk_step_def step_keeps_def share_def emit_batch_def hits_left_def hits_out_def)
qed (use assms in \<open>auto simp: walk_step_def step_keeps_def share_def hits_left_def hits_out_def budget_try_take_def
    split: if_splits\<close>)

text \<open>Nothing is dropped while the search is neither cancelled nor out of slots.\<close>

lemma walk_step_complete:
  assumes "walk_step tx m wk s = (wk', s')" and "\<not> ss_cancelled s" and "\<not> ss_hit_cap s'"
  shows "hits_out s' + share wk' + hits_left tx m wk' = hits_out s + share wk + hits_left tx m wk"
    and "exhausted wk \<Longrightarrow> exhausted wk'"
proof -
  have "hits_out s' + share wk' + hits_left tx m wk' = hits_out s + share wk + hits_left tx m wk \<and>
    (exhausted wk \<longrightarrow> exhausted wk')"
  proof (cases "wk_pc wk")
    case WalkNext
    have "exhausted (walk_next tx m False wk)"
    proof (cases "wk_entries wk")
      case (Cons e es)
      then show ?thesis
        by (cases e) (simp_all add: exhausted_def walk_next_def)
    qed (simp add: exhausted_def walk_next_def)
    then show ?thesis
      using assms walk_next_hits [OF WalkNext, where tx = tx and m = m and cancelled = "ss_cancelled s"] WalkNext
      by (auto simp: walk_step_def share_def)
  next
    case (WalkEmit hit)
    then show ?thesis
      using assms(1)
      by (auto simp: walk_step_def share_def push_hit_def Let_def hits_left_def hits_out_def exhausted_def
          search_match_batch_def split: if_splits)
  next
    case (WalkSend b)
    then show ?thesis
      using assms(1) by (auto simp: walk_step_def share_def emit_batch_def hits_left_def hits_out_def exhausted_def)
  qed (use assms in \<open>auto simp: walk_step_def share_def hits_left_def hits_out_def budget_try_take_def exhausted_def
      split: if_splits\<close>)
  then show "hits_out s' + share wk' + hits_left tx m wk' = hits_out s + share wk + hits_left tx m wk"
    and "exhausted wk \<Longrightarrow> exhausted wk'"
    by blast+
qed

lemma walk_step_sized:
  assumes "walk_step tx m wk s = (wk', s')" and "length (ss_buf s) < search_match_batch" and "walker_sized wk"
  shows "walker_sized wk' \<and> length (ss_buf s') < search_match_batch"
proof (cases "wk_pc wk")
  case WalkNext
  have "walker_sized (walk_next tx m c wk)" for c
  proof (cases "wk_entries wk")
    case (Cons e es)
    then show ?thesis
      by (cases e) (simp_all add: walker_sized_def walk_next_def)
  qed (simp add: walker_sized_def walk_next_def)
  then show ?thesis
    using assms WalkNext by (auto simp: walk_step_def)
next
  case (WalkEmit hit)
  then show ?thesis
    using assms(1,2)
    by (auto simp: walk_step_def push_hit_def Let_def walker_sized_def search_match_batch_def split: if_splits)
qed (use assms in \<open>auto simp: walk_step_def budget_try_take_def walker_sized_def emit_batch_def split: if_splits\<close>)

lemma stopped_step: "wk_pc wk = WalkStopped \<Longrightarrow> walk_step tx m wk s = (wk, s)"
  by (simp add: walk_step_def)


section \<open>The invariant\<close>

definition total_share :: "search_state \<Rightarrow> search_hit multiset" where
  "total_share s = sum_list (map share (ss_walkers s))"

definition total_left :: "text_lib \<Rightarrow> name_matcher \<Rightarrow> search_state \<Rightarrow> search_hit multiset" where
  "total_left tx m s = sum_list (map (hits_left tx m) (ss_walkers s))"

definition total_taken :: "search_state \<Rightarrow> nat" where
  "total_taken s = sum_list (map (\<lambda>wk. taken_slots (wk_pc wk)) (ss_walkers s))"

definition all_stopped :: "search_state \<Rightarrow> bool" where
  "all_stopped s \<longleftrightarrow> list_all (\<lambda>wk. wk_pc wk = WalkStopped) (ss_walkers s)"

fun is_terminal_push :: "search_push \<Rightarrow> bool" where
  "is_terminal_push (PushTerminal l t) \<longleftrightarrow> True"
| "is_terminal_push _ \<longleftrightarrow> False"

text \<open>Slots of the budget, places of hits, sizes of batches.\<close>

definition slots_ok :: "nat \<Rightarrow> search_state \<Rightarrow> bool" where
  "slots_ok limit s \<longleftrightarrow> ss_remaining s + ss_total s + total_taken s = limit \<and> (ss_hit_cap s \<longrightarrow> ss_remaining s = 0)"

definition places_ok :: "text_lib \<Rightarrow> name_matcher \<Rightarrow> search_hit multiset \<Rightarrow> search_state \<Rightarrow> bool" where
  "places_ok tx m every s \<longleftrightarrow>
     ss_total s = size (hits_out s + total_share s) \<and> hits_out s + total_share s + total_left tx m s \<subseteq># every"

definition sizes_ok :: "search_state \<Rightarrow> bool" where
  "sizes_ok s \<longleftrightarrow> length (ss_buf s) < search_match_batch \<and> list_all walker_sized (ss_walkers s) \<and>
     list_all batch_size_ok (ss_pushed s)"

definition complete :: "text_lib \<Rightarrow> name_matcher \<Rightarrow> search_hit multiset \<Rightarrow> search_state \<Rightarrow> bool" where
  "complete tx m every s \<longleftrightarrow> (\<not> ss_hit_cap s \<longrightarrow>
     hits_out s + total_share s + total_left tx m s = every \<and> list_all exhausted (ss_walkers s))"

text \<open>The coordinator: before its answer nothing but matches is sent; its answer is last.\<close>

definition answered :: "nat \<Rightarrow> search_hit multiset \<Rightarrow> search_push list \<Rightarrow> bool" where
  "answered limit every ps \<longleftrightarrow>
     (\<exists>qs l. ps = qs @ [PushTerminal l (length (pushed_hits qs))] \<and> \<not> list_ex is_terminal_push qs \<and>
       (if l then length (pushed_hits qs) = limit else mset (pushed_hits qs) = every))"

definition unanswered :: "search_state \<Rightarrow> bool" where
  "unanswered s \<longleftrightarrow> \<not> list_ex is_terminal_push (ss_pushed s)"

fun phase_ok :: "text_lib \<Rightarrow> name_matcher \<Rightarrow> nat \<Rightarrow> search_hit multiset \<Rightarrow> coordinator_pc \<Rightarrow> search_state \<Rightarrow> bool" where
  "phase_ok tx m limit every CoJoin s \<longleftrightarrow> unanswered s \<and> (\<not> ss_cancelled s \<longrightarrow> complete tx m every s)"
| "phase_ok tx m limit every CoFlush s \<longleftrightarrow> unanswered s \<and> all_stopped s \<and> complete tx m every s"
| "phase_ok tx m limit every (CoDone l) s \<longleftrightarrow>
     unanswered s \<and> all_stopped s \<and> complete tx m every s \<and> ss_buf s = [] \<and> l = ss_hit_cap s"
| "phase_ok tx m limit every (CoTerminal l) s \<longleftrightarrow>
     unanswered s \<and> all_stopped s \<and> complete tx m every s \<and> ss_buf s = [] \<and> l = ss_hit_cap s"
| "phase_ok tx m limit every CoEnd s \<longleftrightarrow>
     all_stopped s \<and> (unanswered s \<and> ss_cancelled s \<or> answered limit every (ss_pushed s))"

definition search_ok :: "text_lib \<Rightarrow> name_matcher \<Rightarrow> nat \<Rightarrow> search_hit multiset \<Rightarrow> search_state \<Rightarrow> bool" where
  "search_ok tx m limit every s \<longleftrightarrow>
     slots_ok limit s \<and> places_ok tx m every s \<and> sizes_ok s \<and> phase_ok tx m limit every (ss_pc s) s"


section \<open>Every step keeps it\<close>

lemma sum_list_update_split:
  fixes f :: "'b \<Rightarrow> 'a::comm_monoid_add"
  assumes "i < length xs"
  shows "\<exists>R. \<forall>x. sum_list (map f (xs[i := x])) = f x + R"
  using assms
proof (induction xs arbitrary: i)
  case (Cons y ys)
  show ?case
  proof (cases i)
    case 0
    then show ?thesis
      by auto
  next
    case (Suc j)
    then obtain R where "\<forall>x. sum_list (map f (ys[j := x])) = f x + R"
      using Cons by auto
    then show ?thesis
      by (intro exI [of _ "f y + R"]) (simp add: Suc add.left_commute)
  qed
qed simp

lemma step_walker_split:
  assumes "i < length (ss_walkers s)" and "walk_step tx m (ss_walkers s ! i) s = (wk, s1)"
  obtains A B C where
    "total_share s = share (ss_walkers s ! i) + A" "total_share (step_walker tx m i s) = share wk + A"
    "total_left tx m s = hits_left tx m (ss_walkers s ! i) + B"
    "total_left tx m (step_walker tx m i s) = hits_left tx m wk + B"
    "total_taken s = taken_slots (wk_pc (ss_walkers s ! i)) + C"
    "total_taken (step_walker tx m i s) = taken_slots (wk_pc wk) + C"
proof -
  have walkers: "ss_walkers s1 = ss_walkers s"
    using walk_step_keeps [OF assms(2)] by (simp add: step_keeps_def)
  obtain A where A: "\<And>x. sum_list (map share ((ss_walkers s)[i := x])) = share x + A"
    using sum_list_update_split [OF assms(1)] by metis
  obtain B where B: "\<And>x. sum_list (map (hits_left tx m) ((ss_walkers s)[i := x])) = hits_left tx m x + B"
    using sum_list_update_split [OF assms(1)] by metis
  obtain C where C: "\<And>x. sum_list (map (\<lambda>wk. taken_slots (wk_pc wk)) ((ss_walkers s)[i := x])) = taken_slots (wk_pc x) + C"
    using sum_list_update_split [OF assms(1), of "\<lambda>wk. taken_slots (wk_pc wk)"] by metis
  have "ss_walkers (step_walker tx m i s) = (ss_walkers s)[i := wk]"
    using assms(2) walkers by (simp add: step_walker_def)
  then show ?thesis
    using that [of A B C] A [of "ss_walkers s ! i"] A [of wk] B [of "ss_walkers s ! i"] B [of wk]
      C [of "ss_walkers s ! i"] C [of wk]
    by (simp add: total_share_def total_left_def total_taken_def)
qed

lemma step_walker_fields:
  assumes "walk_step tx m (ss_walkers s ! i) s = (wk, s1)"
  shows "hits_out (step_walker tx m i s) = hits_out s1"
    and "ss_remaining (step_walker tx m i s) = ss_remaining s1" and "ss_total (step_walker tx m i s) = ss_total s1"
    and "ss_hit_cap (step_walker tx m i s) = ss_hit_cap s1" and "ss_buf (step_walker tx m i s) = ss_buf s1"
    and "ss_pushed (step_walker tx m i s) = ss_pushed s1" and "ss_pc (step_walker tx m i s) = ss_pc s1"
    and "ss_cancelled (step_walker tx m i s) = ss_cancelled s1"
    and "ss_walkers (step_walker tx m i s) = (ss_walkers s1)[i := wk]"
  by (simp_all add: step_walker_def assms hits_out_def)


text \<open>A step of a walk, with what the other walks hold.\<close>

lemma walk_keeps_all:
  assumes "i < length (ss_walkers s)"
  shows "slots_ok limit s \<Longrightarrow> slots_ok limit (step_walker tx m i s)"
    and "places_ok tx m every s \<Longrightarrow> places_ok tx m every (step_walker tx m i s)"
    and "sizes_ok s \<Longrightarrow> sizes_ok (step_walker tx m i s)"
    and "complete tx m every s \<Longrightarrow> \<not> ss_cancelled s \<Longrightarrow> complete tx m every (step_walker tx m i s)"
    and "unanswered s \<Longrightarrow> unanswered (step_walker tx m i s)"
    and "ss_pc (step_walker tx m i s) = ss_pc s" and "ss_cancelled (step_walker tx m i s) = ss_cancelled s"
proof -
  let ?wk = "ss_walkers s ! i" and ?s = "step_walker tx m i s"
  obtain wk s1 where walk: "walk_step tx m ?wk s = (wk, s1)"
    by fastforce
  note keeps = walk_step_keeps [OF walk, unfolded step_keeps_def]
  note fields = step_walker_fields [OF walk]
  obtain A B C where
    split: "total_share s = share ?wk + A" "total_share ?s = share wk + A"
      "total_left tx m s = hits_left tx m ?wk + B" "total_left tx m ?s = hits_left tx m wk + B"
      "total_taken s = taken_slots (wk_pc ?wk) + C" "total_taken ?s = taken_slots (wk_pc wk) + C"
    using step_walker_split [OF assms walk] by metis
  have member: "?wk \<in> set (ss_walkers s)"
    using assms by simp
  have walkers: "ss_walkers ?s = (ss_walkers s)[i := wk]"
    using keeps by (simp add: fields)
  have updated: "P wk \<Longrightarrow> list_all P (ss_walkers s) \<Longrightarrow> list_all P (ss_walkers ?s)" for P
    using set_update_subset_insert [of "ss_walkers s" i wk] by (auto simp: list_all_iff walkers)
  show "ss_pc ?s = ss_pc s" and "ss_cancelled ?s = ss_cancelled s"
    using keeps by (simp_all add: fields)
  show "slots_ok limit ?s" if "slots_ok limit s"
    using that keeps by (auto simp: slots_ok_def split fields)
  show "places_ok tx m every ?s" if places: "places_ok tx m every s"
  proof -
    have "hits_out s1 + share wk + hits_left tx m wk + (A + B) \<subseteq>#
        hits_out s + share ?wk + hits_left tx m ?wk + (A + B)"
      using keeps by (intro subset_mset.add_right_mono) blast
    also have "\<dots> = hits_out s + total_share s + total_left tx m s"
      by (simp add: split ac_simps)
    also have "\<dots> \<subseteq># every"
      using places by (simp add: places_ok_def)
    finally have "hits_out ?s + total_share ?s + total_left tx m ?s \<subseteq># every"
      by (simp add: split fields ac_simps)
    moreover have "ss_total ?s = size (hits_out ?s + total_share ?s)"
      using places keeps by (simp add: places_ok_def split fields)
    ultimately show ?thesis
      by (simp add: places_ok_def)
  qed
  show "sizes_ok ?s" if sizes: "sizes_ok s"
  proof -
    have "walker_sized ?wk"
      using sizes member by (simp add: sizes_ok_def list_all_iff)
    then have "walker_sized wk \<and> length (ss_buf s1) < search_match_batch"
      using sizes walk_step_sized [OF walk] by (simp add: sizes_ok_def)
    moreover have "batch_size_ok (PushMatches b)" if "wk_pc ?wk = WalkSend b" for b
      using \<open>walker_sized ?wk\<close> that by (auto simp: walker_sized_def batch_size_ok_def search_match_batch_def)
    then have "list_all batch_size_ok (ss_pushed s1)"
      using sizes keeps by (auto simp: sizes_ok_def)
    ultimately show ?thesis
      using sizes updated [of walker_sized] by (simp add: sizes_ok_def fields)
  qed
  show "unanswered ?s" if "unanswered s"
    using that keeps by (auto simp: unanswered_def fields)
  show "complete tx m every ?s" if compl: "complete tx m every s" and live: "\<not> ss_cancelled s"
    unfolding complete_def
  proof
    assume "\<not> ss_hit_cap ?s"
    then have cap: "\<not> ss_hit_cap s1" "\<not> ss_hit_cap s"
      using keeps by (auto simp: fields)
    have before: "hits_out s + total_share s + total_left tx m s = every" "list_all exhausted (ss_walkers s)"
      using compl cap(2) by (simp_all add: complete_def)
    note step = walk_step_complete [OF walk live cap(1)]
    have "hits_out ?s + total_share ?s + total_left tx m ?s =
        hits_out s1 + share wk + hits_left tx m wk + (A + B)"
      by (simp add: split fields ac_simps)
    also have "\<dots> = hits_out s + share ?wk + hits_left tx m ?wk + (A + B)"
      by (simp only: step(1))
    also have "\<dots> = every"
      using before(1) by (simp add: split ac_simps)
    finally show "hits_out ?s + total_share ?s + total_left tx m ?s = every \<and> list_all exhausted (ss_walkers ?s)"
      using step(2) updated [of exhausted] before(2) member by (simp add: list_all_iff)
  qed
qed

lemma stopped_walk: "all_stopped s \<Longrightarrow> i < length (ss_walkers s) \<Longrightarrow> step_walker tx m i s = s"
  by (simp add: step_walker_def stopped_step all_stopped_def list_all_length)

lemma search_ok_walk:
  assumes "search_ok tx m limit every s" and "i < length (ss_walkers s)"
  shows "search_ok tx m limit every (step_walker tx m i s)"
proof (cases "ss_pc s")
  case CoJoin
  then show ?thesis
    using assms(1) walk_keeps_all [OF assms(2)] by (simp add: search_ok_def)
qed (use assms stopped_walk [of s i tx m] in \<open>simp_all add: search_ok_def\<close>)

lemma sum_list_map_zero: "(\<And>x. x \<in> set xs \<Longrightarrow> f x = 0) \<Longrightarrow> sum_list (map f xs) = (0 :: 'a::comm_monoid_add)"
  by (induction xs) auto

lemma stopped_nothing:
  assumes "all_stopped s"
  shows "total_share s = {#}" and "total_taken s = 0"
    and "list_all exhausted (ss_walkers s) \<Longrightarrow> total_left tx m s = {#}"
  using assms unfolding total_share_def total_taken_def total_left_def
  by (auto simp: all_stopped_def share_def hits_left_def exhausted_def list_all_iff intro!: sum_list_map_zero)

lemma search_ok_coordinate:
  assumes "search_ok tx m limit every s"
  shows "search_ok tx m limit every (coordinator_step s)"
proof (cases "ss_pc s")
  case CoJoin
  then show ?thesis
    using assms
    by (auto simp: search_ok_def coordinator_step_def slots_ok_def places_ok_def sizes_ok_def complete_def
        all_stopped_def unanswered_def hits_out_def total_share_def total_left_def total_taken_def)
next
  case CoFlush
  then show ?thesis
    using assms
    by (auto simp: search_ok_def coordinator_step_def slots_ok_def places_ok_def sizes_ok_def complete_def
        all_stopped_def unanswered_def hits_out_def total_share_def total_left_def total_taken_def
        emit_batch_def batch_size_ok_def)
next
  case (CoDone l)
  then show ?thesis
    using assms
    by (auto simp: search_ok_def coordinator_step_def slots_ok_def places_ok_def sizes_ok_def complete_def
        all_stopped_def unanswered_def hits_out_def total_share_def total_left_def total_taken_def)
next
  case (CoTerminal l)
  have stopped: "all_stopped s" and slots: "slots_ok limit s" and places: "places_ok tx m every s"
    and buf: "ss_buf s = []" and l: "l = ss_hit_cap s" and compl: "complete tx m every s" and none: "unanswered s"
    using assms by (simp_all add: search_ok_def CoTerminal)
  have share: "total_share s = {#}" and taken: "total_taken s = 0"
    using stopped_nothing(1,2) [OF stopped] .
  have total: "ss_total s = length (pushed_hits (ss_pushed s))"
    using places by (simp add: places_ok_def hits_out_def buf share)
  have "l \<Longrightarrow> ss_total s = limit"
    using slots taken by (simp add: slots_ok_def l)
  moreover have "\<not> l \<Longrightarrow> mset (pushed_hits (ss_pushed s)) = every"
    using compl stopped_nothing(3) [OF stopped] share by (simp add: complete_def l hits_out_def buf)
  ultimately have "answered limit every (ss_pushed s @ [PushTerminal l (ss_total s)])"
    using none total by (auto simp: answered_def unanswered_def intro!: exI [of _ "ss_pushed s"] exI [of _ l])
  moreover have "slots_ok limit (coordinator_step s)" "all_stopped (coordinator_step s)"
    using slots stopped by (auto simp: CoTerminal coordinator_step_def slots_ok_def total_taken_def all_stopped_def)
  moreover have "places_ok tx m every (coordinator_step s)"
    using places
    by (auto simp: CoTerminal coordinator_step_def places_ok_def hits_out_def total_share_def total_left_def)
  moreover have "sizes_ok (coordinator_step s)"
    using assms by (auto simp: search_ok_def CoTerminal coordinator_step_def sizes_ok_def batch_size_ok_def)
  ultimately show ?thesis
    by (simp add: search_ok_def coordinator_step_def CoTerminal)
next
  case CoEnd
  then show ?thesis
    using assms by (simp add: coordinator_step_def)
qed

lemma search_ok_cancel:
  "search_ok tx m limit every s \<Longrightarrow> search_ok tx m limit every (s\<lparr>ss_cancelled := True\<rparr>)"
  by (cases "ss_pc s")
    (auto simp: search_ok_def slots_ok_def places_ok_def sizes_ok_def complete_def
        all_stopped_def unanswered_def hits_out_def total_share_def total_left_def total_taken_def)

lemma search_ok_start: "search_ok tx m limit (all_hits tx m roots) (search_start limit roots)"
proof -
  let ?s = "search_start limit roots"
  have none: "total_share ?s = {#}" "total_taken ?s = 0"
    unfolding total_share_def total_taken_def search_start_def
    by (auto simp: walker_new_def share_def intro!: sum_list_map_zero split: option.split)
  have "total_left tx m ?s = all_hits tx m roots"
    unfolding total_left_def all_hits_def search_start_def
    by (auto simp: comp_def walker_new_def hits_left_def intro!: arg_cong [where f = sum_list] split: option.split prod.split)
  moreover have "list_all exhausted (ss_walkers ?s)" "list_all walker_sized (ss_walkers ?s)"
    by (auto simp: search_start_def walker_new_def exhausted_def walker_sized_def list_all_iff split: option.split)
  ultimately show ?thesis
    using none
    by (simp add: search_ok_def slots_ok_def places_ok_def sizes_ok_def complete_def unanswered_def hits_out_def
        search_match_batch_def search_start_def)
qed

lemma search_reaches_ok:
  assumes "search_reaches tx m (search_start limit roots) s"
  shows "search_ok tx m limit (all_hits tx m roots) s"
  using assms unfolding search_reaches_def
proof (induction rule: rtranclp_induct)
  case base
  then show ?case
    by (rule search_ok_start)
next
  case (step s s')
  from step(2) show ?case
    using step(3) by cases (simp_all add: search_ok_walk search_ok_coordinate search_ok_cancel)
qed


section \<open>Searches end\<close>

definition pc_work :: "walk_pc \<Rightarrow> nat" where
  "pc_work pc = (case pc of WalkStopped \<Rightarrow> 0 | WalkNext \<Rightarrow> 1 | WalkSend _ \<Rightarrow> 2 | WalkEmit _ \<Rightarrow> 3
     | WalkTake _ \<Rightarrow> 4 | WalkMatched _ \<Rightarrow> 5)"

definition walker_work :: "walker \<Rightarrow> nat" where
  "walker_work wk = 5 * length (wk_entries wk) + pc_work (wk_pc wk)"

definition coordinator_work :: "coordinator_pc \<Rightarrow> nat" where
  "coordinator_work pc = (case pc of CoJoin \<Rightarrow> 4 | CoFlush \<Rightarrow> 3 | CoDone _ \<Rightarrow> 2 | CoTerminal _ \<Rightarrow> 1 | CoEnd \<Rightarrow> 0)"

definition search_work :: "search_state \<Rightarrow> nat" where
  "search_work s =
     sum_list (map walker_work (ss_walkers s)) + coordinator_work (ss_pc s) + (if ss_cancelled s then 0 else 1)"

lemma walk_step_work:
  assumes "walk_step tx m wk s = (wk', s')" and "wk_pc wk \<noteq> WalkStopped"
  shows "walker_work wk' < walker_work wk"
proof (cases "wk_pc wk")
  case WalkNext
  then show ?thesis
    using assms(1)
    by (cases "wk_entries wk") (auto simp: walk_step_def walk_next_def walker_work_def pc_work_def
        split: walk_entry.split)
next
  case (WalkEmit hit)
  then show ?thesis
    using assms(1) by (auto simp: walk_step_def push_hit_def Let_def walker_work_def pc_work_def split: if_splits)
qed (use assms in \<open>auto simp: walk_step_def walker_work_def pc_work_def budget_try_take_def split: if_splits\<close>)

lemma step_walker_work:
  assumes "i < length (ss_walkers s)" and "wk_pc (ss_walkers s ! i) \<noteq> WalkStopped"
  shows "search_work (step_walker tx m i s) < search_work s"
proof -
  obtain wk s1 where walk: "walk_step tx m (ss_walkers s ! i) s = (wk, s1)"
    by fastforce
  note keeps = walk_step_keeps [OF walk, unfolded step_keeps_def]
  obtain R where R: "\<And>x. sum_list (map walker_work ((ss_walkers s)[i := x])) = walker_work x + R"
    using sum_list_update_split [OF assms(1), of walker_work] by metis
  have "sum_list (map walker_work (ss_walkers s)) = walker_work (ss_walkers s ! i) + R"
    using R [of "ss_walkers s ! i"] by simp
  then show ?thesis
    using walk_step_work [OF walk assms(2)] keeps R [of wk] step_walker_fields [OF walk] by (simp add: search_work_def)
qed

lemma coordinator_step_work:
  "coordinator_step s = s \<or> search_work (coordinator_step s) < search_work s"
  by (cases "ss_pc s") (auto simp: coordinator_step_def search_work_def coordinator_work_def emit_batch_def)

lemma search_step_work:
  assumes "search_step tx m s s'" and "s' \<noteq> s"
  shows "search_work s' < search_work s"
  using assms(1)
proof cases
  case (walks i)
  have "wk_pc (ss_walkers s ! i) \<noteq> WalkStopped"
  proof
    assume stopped: "wk_pc (ss_walkers s ! i) = WalkStopped"
    then have "step_walker tx m i s = s"
      by (simp add: step_walker_def stopped_step)
    then show False
      using assms(2) walks by simp
  qed
  then show ?thesis
    using step_walker_work walks by simp
next
  case coordinates
  then show ?thesis
    using coordinator_step_work [of s] assms(2) by auto
next
  case cancels
  then show ?thesis
    using assms(2) by (cases "ss_cancelled s") (auto simp: search_work_def)
qed

lemma search_can_move:
  assumes "ss_pc s \<noteq> CoEnd"
  shows "(\<exists>i < length (ss_walkers s). search_work (step_walker tx m i s) < search_work s) \<or>
    search_work (coordinator_step s) < search_work s"
proof (cases "all_stopped s")
  case True
  then have "coordinator_step s \<noteq> s"
    using assms
    by (cases "ss_pc s") (auto simp: coordinator_step_def all_stopped_def emit_batch_def dest: arg_cong [where f = ss_pc])
  then show ?thesis
    using coordinator_step_work by auto
next
  case False
  then obtain i where "i < length (ss_walkers s)" "wk_pc (ss_walkers s ! i) \<noteq> WalkStopped"
    by (auto simp: all_stopped_def list_all_length)
  then show ?thesis
    using step_walker_work by blast
qed

end
