(* ===== verification/Fs_Properties.thy ===== *)
theory Fs_Properties
  imports Fs_Demo Fs_Facts Fs_Watch Fs_Search_Law
begin

text \<open>
  The properties of the project file monitor: clients that replay what they are sent, the
  registry of subscriptions, references and commands that stay inside a folder, answers to
  requests and searches.
\<close>

section \<open>Following a directory\<close>

text \<open>C2. A client that applies the frames of a directory it follows in order knows the kind of
  each of its entries: whatever commands are handled and whatever the operating system answers,
  as long as no batch changes the kind of a name, the directory of a subscriber that has had a
  snapshot is mounted and the listing replayed from the snapshots and batches sent to it is the
  listing of the tree.\<close>

theorem mirror_follows_tree:
  assumes "mirrored fe sh mir" and "sub \<in> set (recipients sh c)" and "mir (sub, c) = Some m"
  shows "\<exists>n. map_of (sh_tree sh) c = Some n \<and> m = kinds_of (node_entries n)"
  using mirrored_ok [OF assms(1)] assms(2,3) by (auto simp: mirrors_ok_def recipients_def subscribers_of_def)

lemma mirror_follows_tree_witness:
  "(case mirror_exec demo_fs demo_steps (shard_new 0, \<lambda>_. None) of
      None \<Rightarrow> False
    | Some (sh, mir) \<Rightarrow>
        \<exists>n m. mir (demo_sub ''s'' ''.'', demo_root) = Some m \<and> map_of (sh_tree sh) demo_root = Some n \<and>
          m = kinds_of (node_entries n) \<and> m ''a'' = None \<and> m ''b'' = Some KindFile \<and> m ''d'' = Some KindDir)"
proof -
  have run: "case mirror_exec demo_fs demo_steps (shard_new 0, \<lambda>_. None) of
      None \<Rightarrow> False
    | Some (sh, mir) \<Rightarrow> demo_sub ''s'' ''.'' \<in> set (recipients sh demo_root) \<and>
        (case mir (demo_sub ''s'' ''.'', demo_root) of None \<Rightarrow> False
         | Some m \<Rightarrow> m ''a'' = None \<and> m ''b'' = Some KindFile \<and> m ''d'' = Some KindDir)"
    by code_simp
  then obtain sh mir m where exec: "mirror_exec demo_fs demo_steps (shard_new 0, \<lambda>_. None) = Some (sh, mir)"
    and sub: "demo_sub ''s'' ''.'' \<in> set (recipients sh demo_root)" "mir (demo_sub ''s'' ''.'', demo_root) = Some m"
      "m ''a'' = None" "m ''b'' = Some KindFile" "m ''d'' = Some KindDir"
    by (auto split: option.splits)
  have "mirrored demo_fs sh mir"
    using mirror_exec_mirrored [OF exec mirrored.start] .
  from mirror_follows_tree [OF this sub(1,2)] show ?thesis
    using sub by (auto simp: exec)
qed


text \<open>A name whose kind changes is lost to such a client: the batch adds it before it removes
  it, so that replaying it leaves the client without an entry that the directory has, unless the
  old entry was taken for renamed.\<close>

theorem kind_change_hides_entry:
  assumes "tree_apply fe c hint t w = (Inr (Some d), t', w')" and "tree_ok t"
    and "map_of t c = Some n" and "map_of t' c = Some n'"
    and "map_of (node_entries n) x = Some f" and "map_of (node_entries n') x = Some g"
    and "fact_kind g \<noteq> fact_kind f" and "no_candidate f (node_entries n')"
  shows "kinds_of (node_entries n') x = Some (fact_kind g) \<and>
    replay (delta_changes d) (kinds_of (node_entries n)) x = None"
  using assms(1,2)
proof (cases rule: tree_apply_cases)
  case (changed n0 fresh)
  then have "delta_changes d = tree_diff (node_entries n) (node_entries n')"
    using assms(3,4) by auto
  then show ?thesis
    using diff_removes [OF map_of_SomeD [OF assms(5)] assms(6,7,8)] assms(6) by (simp add: kinds_of_def)
qed (use assms in simp_all)

lemma kind_change_hides_entry_witness:
  "kinds_of [(''x'', demo_dir 2)] ''x'' = Some KindDir \<and>
   replay [ChangeAdded ''x'' KindDir, ChangeRemoved ''x''] (kinds_of [(''x'', demo_file 1)]) ''x'' = None"
proof -
  let ?t = "[(demo_root, \<lparr>node_entries = [(''x'', demo_file 1)], node_watch = demo_root\<rparr>)]"
  let ?t' = "[(demo_root, \<lparr>node_entries = [(''x'', demo_dir 2)], node_watch = demo_root\<rparr>)]"
  let ?w = "[(demo_root, [(''x'', demo_dir 2)])]"
  have "tree_apply demo_fs demo_root (HintChildNames [''x'']) ?t ?w =
      (Inr (Some \<lparr>delta_canonical = demo_root, delta_changes = [ChangeAdded ''x'' KindDir, ChangeRemoved ''x'']\<rparr>), ?t', ?w)"
    by code_simp
  from kind_change_hides_entry [OF this, of "\<lparr>node_entries = [(''x'', demo_file 1)], node_watch = demo_root\<rparr>"
      "\<lparr>node_entries = [(''x'', demo_dir 2)], node_watch = demo_root\<rparr>" "''x''" "demo_file 1" "demo_dir 2"]
  show ?thesis
    by (simp add: tree_ok_def demo_file_def demo_dir_def no_candidate_def)
qed

text \<open>C13. Whatever commands a shard has handled and whatever the operating system answered, a
  mounted directory is watched on behalf of someone: it has subscribers, or it is kept warm and
  has none, never both; and its listing is sorted by name.\<close>

theorem mounted_is_watched:
  assumes "shard_run fe (shard_new budget) cmds sh" and "map_of (sh_tree sh) c = Some n"
  shows "shard_is_watched c sh \<and> (recipients sh c = [] \<longleftrightarrow> map_of (reg_grace (sh_subs sh)) c \<noteq> None) \<and>
    bt_sorted (node_entries n)"
proof -
  have ok: "shard_ok sh"
    using shard_run_ok [OF assms(1) shard_ok_new] .
  then have "c \<in> watched (sh_subs sh)" and sorted: "bt_sorted (node_entries n)" and regs: "reg_ok (sh_subs sh)"
    using assms(2) by (auto simp: shard_ok_def tree_ok_def)
  then show ?thesis
    using reg_okD(3) [OF regs, of c]
    by (cases "map_of (reg_reverse (sh_subs sh)) c")
      (auto simp: watched_def shard_is_watched_def reg_is_watched_def recipients_def subscribers_of_def)
qed

lemma mounted_is_watched_witness:
  "let sh = shard_exec demo_fs (demo_steps @ [(CmdDropSession ''s'' 5, [])]) (shard_new 0)
   in map_of (sh_tree sh) demo_root \<noteq> None \<and> shard_is_watched demo_root sh \<and>
      (recipients sh demo_root = [] \<longleftrightarrow> map_of (reg_grace (sh_subs sh)) demo_root \<noteq> None)"
proof -
  let ?sh = "shard_exec demo_fs (demo_steps @ [(CmdDropSession ''s'' 5, [])]) (shard_new 0)"
  have "map_of (sh_tree ?sh) demo_root \<noteq> None"
    by code_simp
  then obtain n where "map_of (sh_tree ?sh) demo_root = Some n"
    by blast
  from mounted_is_watched [OF shard_exec_run this] show ?thesis
    using \<open>map_of (sh_tree ?sh) demo_root \<noteq> None\<close> by (simp only: Let_def simp_thms)
qed

text \<open>After a sweep no more directories are mounted than the budget allows, or none is mounted
  that is not followed: the number of mounted directories is at most the greater of the budget
  and the number of directories with subscribers.\<close>

theorem reap_respects_budget:
  assumes "shard_run fe (shard_new budget) cmds sh"
    and "shard_handle fe (CmdReapTick now) sh w = (r, sh', w')"
  shows "card (dom (map_of (sh_tree sh'))) \<le> max budget (card (dom (map_of (reg_reverse (sh_subs sh')))))"
proof -
  have ok: "shard_ok sh"
    using shard_run_ok [OF assms(1) shard_ok_new] .
  then have ok': "shard_ok sh'"
    using shard_ok_handle [OF assms(2)] by blast
  have step: "handle_reap_command fe now sh w = (r, sh', w')"
    using assms(2) by simp
  let ?live = "dom (map_of (reg_reverse (sh_subs sh')))" and ?warm = "dom (map_of (reg_grace (sh_subs sh')))"
  have cards: "card ?live = length (reg_reverse (sh_subs sh'))" "card ?warm = length (reg_grace (sh_subs sh'))"
    using ok' reg_okD(1,2) [of "sh_subs sh'"] distinct_card [of "hm_keys (reg_reverse (sh_subs sh'))"]
      distinct_card [of "hm_keys (reg_grace (sh_subs sh'))"]
    by (simp_all add: shard_ok_def dom_map_of_conv_image_fst)
  have "dom (map_of (sh_tree sh')) \<subseteq> ?live \<union> ?warm"
    using ok' by (auto simp: shard_ok_def watched_def reg_is_watched_def)
  then have "card (dom (map_of (sh_tree sh'))) \<le> card ?live + card ?warm"
    by (meson card_Un_le card_mono finite_UnI finite_dom_map_of le_trans)
  moreover have "card ?live + card ?warm \<le> budget \<or> card ?warm = 0"
    using reap_command(5) [OF step ok] budget_run [OF assms(1) shard_ok_new]
    by (auto simp: watched_count_def cards shard_new_def)
  ultimately show ?thesis
    by auto
qed

lemma reap_respects_budget_witness:
  "let sh = shard_exec demo_fs (demo_steps @ [(CmdDropSession ''s'' 5, [])]) (shard_new 0);
       sh' = fst (snd (shard_handle demo_fs (CmdReapTick 6) sh []))
   in sh_tree sh \<noteq> [] \<and> card (dom (map_of (sh_tree sh'))) \<le> max 0 (card (dom (map_of (reg_reverse (sh_subs sh')))))"
proof -
  let ?sh = "shard_exec demo_fs (demo_steps @ [(CmdDropSession ''s'' 5, [])]) (shard_new 0)"
  obtain r sh' w' where step: "shard_handle demo_fs (CmdReapTick 6) ?sh [] = (r, sh', w')"
    by (metis prod_cases3)
  have "sh_tree ?sh \<noteq> []"
    by code_simp
  with reap_respects_budget [OF shard_exec_run step] show ?thesis
    by (simp add: step del: shard_handle.simps shard_exec.simps)
qed

text \<open>C38. A connection that refers to one directory twice and gives up one of the references is
  never released: its second reference outlives the end of the connection, whatever commands of
  others, rescans and sweeps follow, so that the directory is watched for ever on its behalf.\<close>

theorem second_reference_outlives_session:
  assumes "shard_run fe (shard_new budget) cmds sh" and "sub_session s1 = sub_session s2" and "s1 \<noteq> s2"
    and "shard_run fe sh [CmdSubscribe s1 c t1, CmdSubscribe s2 c t2, CmdUnsubscribe s1 c t3,
        CmdDropSession (sub_session s2) t4] sh1"
    and "shard_run fe sh1 cmds' sh2" and "list_all (\<lambda>cmd. \<not> sent_by (sub_session s2) cmd) cmds'"
  shows "s2 \<in> set (recipients sh2 c) \<and> shard_is_watched c sh2"
proof -
  obtain a where a: "shard_run fe sh [CmdSubscribe s1 c t1, CmdSubscribe s2 c t2] a"
    and rest: "shard_run fe a [CmdUnsubscribe s1 c t3, CmdDropSession (sub_session s2) t4] sh1"
    using shard_run_split [of fe sh "[CmdSubscribe s1 c t1, CmdSubscribe s2 c t2]"] assms(4) by auto
  have ok: "shard_ok a"
    using shard_run_ok [OF a] shard_run_ok [OF assms(1) shard_ok_new] by blast
  obtain a0 where a0: "shard_run fe sh [CmdSubscribe s1 c t1] a0" and "shard_run fe a0 [CmdSubscribe s2 c t2] a"
    using shard_run_split [of fe sh "[CmdSubscribe s1 c t1]"] a by auto
  then obtain w r w' where "shard_handle fe (CmdSubscribe s2 c t2) a0 w = (r, a, w')"
    by (elim shard_run_ConsE shard_run_NilE) blast
  then have "s2 \<in> set (recipients a c)"
    using subscribe_keeps_others shard_run_ok [OF a0] shard_run_ok [OF assms(1) shard_ok_new] by fastforce
  then have "lingering s2 c (sh_subs sh1)"
    using rest assms(2,3)
    by (auto elim!: shard_run_ConsE shard_run_NilE simp: lingering_def forward_drop_session drop_session_subscribed
        forward_unsubscribe unsubscribe_subscribed recipients_def subscribers_of_def split: if_splits)
  then have "lingering s2 c (sh_subs sh2)"
    using lingering_run [OF assms(5) shard_run_ok [OF rest ok]] assms(6) by blast
  then show ?thesis
    by (cases "map_of (reg_reverse (sh_subs sh2)) c")
      (auto simp: lingering_def recipients_def subscribers_of_def shard_is_watched_def reg_is_watched_def)
qed


lemma second_reference_outlives_session_witness:
  "demo_sub ''s'' ''./.'' \<in> set (recipients (shard_exec demo_fs
      [(CmdSubscribe (demo_sub ''s'' ''.'') demo_root 0, [(demo_root, [])]),
       (CmdSubscribe (demo_sub ''s'' ''./.'') demo_root 0, []),
       (CmdUnsubscribe (demo_sub ''s'' ''.'') demo_root 1, []),
       (CmdDropSession ''s'' 2, []), (CmdReapTick 400000, [])] (shard_new 0)) demo_root)"
proof -
  let ?steps = "[(CmdSubscribe (demo_sub ''s'' ''.'') demo_root 0, [(demo_root, [])]),
       (CmdSubscribe (demo_sub ''s'' ''./.'') demo_root 0, []),
       (CmdUnsubscribe (demo_sub ''s'' ''.'') demo_root 1, []), (CmdDropSession ''s'' 2, [])]"
  have "shard_run demo_fs (shard_exec demo_fs ?steps (shard_new 0)) (map fst [(CmdReapTick 400000, [] :: fs_world)])
      (shard_exec demo_fs [(CmdReapTick 400000, [])] (shard_exec demo_fs ?steps (shard_new 0)))"
    by (rule shard_exec_run)
  moreover have "sub_session (demo_sub ''s'' r) = ''s''" for r
    by (simp add: demo_sub_def)
  ultimately have "demo_sub ''s'' ''./.'' \<in> set (recipients
      (shard_exec demo_fs [(CmdReapTick 400000, [])] (shard_exec demo_fs ?steps (shard_new 0))) demo_root)"
    using second_reference_outlives_session [OF shard_run.none, of "demo_sub ''s'' ''.''" "demo_sub ''s'' ''./.''"
        demo_fs 0 demo_root 0 0 1 2 "shard_exec demo_fs ?steps (shard_new 0)"
        "[CmdReapTick 400000]"] shard_exec_run [of demo_fs "shard_new 0" ?steps]
    by (simp add: demo_sub_def del: shard_exec.simps)
  then show ?thesis
    by simp
qed



section \<open>Names, references and commands\<close>



text \<open>C31. A reference never leaves its folder: what it resolves to is the folder's path followed by
  plain names, and it is refused exactly when it is absolute or some prefix of it has more steps
  up than names; the error for a resource outside its folder cannot occur.\<close>

theorem reference_stays_inside:
  assumes "uri_to_path ul root = Inr rp" and "rp \<noteq> []"
  shows "case resolve_relative ul root rel of
      Inr r \<Rightarrow> stays_under rp (rr_absolute_path r) \<and> \<not> (\<exists>k. climbs_out 0 (take k (path_components rel)))
    | Inl e \<Rightarrow>
        if \<exists>k. climbs_out 0 (take k (path_components rel)) then e = InvalidRelativePath rel
        else \<exists>p. stays_under rp p \<and> url_from_path ul p = None \<and> e = FolderCanonicalizeFailed p"
proof (cases "resolve_segs (path_components rel) []")
  case None
  then show ?thesis
    using resolve_segs_None [of "path_components rel" "[]"] by (simp add: resolve_relative_def)
next
  case (Some segs)
  define p where "p = (if segs = [] then rp else path_join rp (str_join ''/'' segs))"
  have "resolve_relative ul root rel =
    (case url_from_path ul p of None \<Rightarrow> Inl (FolderCanonicalizeFailed p)
     | Some uri \<Rightarrow> Inr \<lparr>rr_relative_path = str_join ''/'' segs, rr_resource_uri = uri, rr_absolute_path = p\<rparr>)"
    using resolve_relative_Some(1) [OF Some assms]
    by (cases "url_from_path ul p") (simp_all add: p_def [symmetric] Let_def to_file_uri_def)
  moreover have "stays_under rp p"
    using resolve_relative_Some(2) [OF Some assms] by (simp add: p_def)
  moreover have "\<not> (\<exists>k. climbs_out 0 (take k (path_components rel)))"
    using resolve_segs_None [of "path_components rel" "[]"] Some by simp
  ultimately show ?thesis
    by (cases "url_from_path ul p") auto
qed

lemma reference_stays_inside_witness:
  "uri_to_path demo_url demo_root = Inr ''/r'' \<and>
   resolve_relative demo_url demo_root ''a/../../b'' = Inl (InvalidRelativePath ''a/../../b'') \<and>
   (\<exists>r. resolve_relative demo_url demo_root ''a/.././b'' = Inr r \<and> stays_under ''/r'' (rr_absolute_path r))"
proof -
  have path: "uri_to_path demo_url demo_root = Inr ''/r''"
    by code_simp
  have out: "resolve_relative demo_url demo_root ''a/../../b'' = Inl (InvalidRelativePath ''a/../../b'')"
    by code_simp
  obtain r where r: "resolve_relative demo_url demo_root ''a/.././b'' = Inr r"
  proof -
    have "case resolve_relative demo_url demo_root ''a/.././b'' of Inl _ \<Rightarrow> False | Inr _ \<Rightarrow> True"
      by code_simp
    then show ?thesis
      using that by (auto split: sum.splits)
  qed
  show ?thesis
    using reference_stays_inside [OF path, of "''a/.././b''"] path out r by simp
qed



text \<open>C25. Every request is answered once: a frame that carries one gets exactly one response, to
  its connection and with its identifier, whatever fails; the two notifications get none; and a
  search that is accepted is spawned with the identifier it will answer and registered as the one
  search of its connection.\<close>

theorem request_is_answered_once:
  assumes "dispatch_frame me now session user (Some f) mo w = (ps, mo', w')"
  shows "if in_method f = ''fs/unsubscribe'' \<or> in_method f = ''fs/searchCancel'' then ps = []
    else answered_once session (in_id f) ps \<or>
      in_method f = ''fs/search'' \<and> ps = [] \<and>
        (in_id f = None \<and> mo' = mo \<or>
         (\<exists>job. mo_spawned mo' = mo_spawned mo @ [job] \<and> sj_session job = session \<and> Some (sj_search_id job) = in_id f \<and>
           map_of (mo_searches mo') session = Some \<lparr>as_search_id = sj_search_id job, as_cancel = sj_cancel job\<rparr>))"
proof (cases "in_method f = ''fs/search''")
  case True
  then have "handle_search me session user (in_id f) (in_params f) mo w = (ps, mo', w')"
    using assms by (simp add: dispatch_frame_def)
  from search_once [OF this] True show ?thesis
    by auto
next
  case False
  then show ?thesis
    using assms mkdir_once remove_once rename_once subscribe_once [of me now session user "in_id f" "in_params f" mo w ps mo' w']
    by (auto simp: dispatch_frame_def Let_def handle_unsubscribe_def initialize_once
        split: if_splits prod.splits option.splits)
qed


lemma request_is_answered_once_witness:
  "(let (ps, mo', w') = dispatch_frame fs_demo_env 0 ''s'' ''u'' (Some (fs_demo_request ''fs/subscribe''
        (demo_params\<lparr>as_targets := Some [demo_ref ''.'', demo_ref ''missing'']\<rparr>))) (monitor_new 0) [(demo_root, [])]
    in answered_once ''s'' (Some ''1'') ps)"
proof -
  let ?f = "fs_demo_request ''fs/subscribe'' (demo_params\<lparr>as_targets := Some [demo_ref ''.'', demo_ref ''missing'']\<rparr>)"
  obtain ps mo' w' where step: "dispatch_frame fs_demo_env 0 ''s'' ''u'' (Some ?f) (monitor_new 0) [(demo_root, [])] = (ps, mo', w')"
    by (metis prod_cases3)
  have "in_method ?f = ''fs/subscribe''" "in_id ?f = Some ''1''"
    by (simp_all add: fs_demo_request_def)
  then show ?thesis
    using request_is_answered_once [OF step] by (simp only: step) simp
qed

text \<open>A subscription of several targets is not undone when one of them fails in its second
  phase: the reply is a single error, and the targets before the one that failed, and that one
  itself, are subscribed.\<close>

theorem failed_subscription_stays:
  assumes "handle_subscribe me now session user i params mo w = ([(session, FrameError i e (Some target))], mo', w')"
    and "as_targets params = Some targets" and "plan_targets me user targets w = (Inr plan, w1)"
    and "shard_ok (mo_shard mo)"
  shows "\<exists>pre c post. plan = pre @ (target, c) # post \<and> followed session (pre @ [(target, c)]) (mo_shard mo')"
proof -
  obtain r sh w2 where run: "subscribe_targets me session now plan (mo_shard mo) w1 = (r, sh, w2)"
    by (metis prod_cases3)
  obtain e' where "r = Inl (e', target)" and "mo_shard mo' = sh"
    using assms(1) by (cases r) (auto simp: handle_subscribe_def assms(2,3) run)
  then show ?thesis
    using subscribe_targets_follow [OF run assms(4)] by simp
qed

lemma failed_subscription_stays_witness:
  "\<exists>mo'. fst (snd (handle_subscribe fs_demo_env 0 ''s'' ''u'' (Some ''1'')
        (demo_params\<lparr>as_targets := Some [demo_ref ''.'', demo_ref ''missing'']\<rparr>) (monitor_new 0) [(demo_root, [])])) = mo' \<and>
      ref_subscriber ''s'' (demo_ref ''missing'') \<in> set (recipients (mo_shard mo') ''file:///r/missing'')"
proof -
  let ?params = "demo_params\<lparr>as_targets := Some [demo_ref ''.'', demo_ref ''missing'']\<rparr>"
  let ?plan = "[(demo_ref ''.'', demo_root), (demo_ref ''missing'', ''file:///r/missing'')]"
  obtain ps mo' w' where step: "handle_subscribe fs_demo_env 0 ''s'' ''u'' (Some ''1'') ?params (monitor_new 0) [(demo_root, [])] = (ps, mo', w')"
    by (metis prod_cases3)
  have "fst (handle_subscribe fs_demo_env 0 ''s'' ''u'' (Some ''1'') ?params (monitor_new 0) [(demo_root, [])]) =
      [(''s'', FrameError (Some ''1'') (code_resource_not_found, ''resource_not_found'') (Some (demo_ref ''missing'')))]"
    by code_simp
  then have reply: "handle_subscribe fs_demo_env 0 ''s'' ''u'' (Some ''1'') ?params (monitor_new 0) [(demo_root, [])] =
      ([(''s'', FrameError (Some ''1'') (code_resource_not_found, ''resource_not_found'') (Some (demo_ref ''missing'')))], mo', w')"
    using step by simp
  have plan: "plan_targets fs_demo_env ''u'' [demo_ref ''.'', demo_ref ''missing''] [(demo_root, [])] =
      (Inr ?plan, [(demo_root, [])])"
    by code_simp
  have "\<exists>pre c post. ?plan = pre @ (demo_ref ''missing'', c) # post \<and>
      followed ''s'' (pre @ [(demo_ref ''missing'', c)]) (mo_shard mo')"
    using failed_subscription_stays [OF reply _ plan] by (simp add: monitor_new_def shard_ok_new)
  then have "ref_subscriber ''s'' (demo_ref ''missing'') \<in> set (recipients (mo_shard mo') ''file:///r/missing'')"
    by (auto simp: Cons_eq_append_conv followed_def demo_ref_def)
  then show ?thesis
    by (simp add: step)
qed



section \<open>Events of the watcher\<close>

text \<open>C29. Coalescing is exact: after any sequence of raw events the buffer drains to one command
  for each directory that had an event, in order of the directories, a rescan if any of its events
  was an overflow and otherwise the re-check of the sorted union of the names of its events; and
  the buffer is empty again.\<close>

theorem coalescing_is_exact:
  "debounce_drain (fold debounce_push evs []) = (coalesced evs, [])"
  using debounce_drain_coalesced [of evs] by (simp add: debounce_all_def debounce_drain_def)

text \<open>A rescan that names no path, which is how an overflow of the kernel's queue arrives on
  Linux, raises no event at all.\<close>

lemma pathless_rescan_is_lost: "watcher_events ul fold_case m \<lparr>ev_need_rescan = True, ev_paths = []\<rparr> = []"
  by (simp add: watcher_events_def map_event_def)

text \<open>A change in a directory that the watcher knows, under whichever name the operating
  system reports it, becomes a raw event of the directory it was watched as, with the path that
  changed.\<close>

theorem watched_change_is_reported:
  assumes "path_parent p = Some q" and "canonical_of ul fold_case q = Some c" and "map_of m c = Some e"
    and "p \<in> set (ev_paths ev)" and "\<not> ev_need_rescan ev"
  shows "\<exists>ps. RawChanged (wt_lexical e) ps \<in> set (watcher_events ul fold_case m ev) \<and> p \<in> set ps"
proof -
  have "owner_of ul fold_case m q = Some (wt_lexical e)"
    using assms(2,3) by (simp add: owner_of_def)
  then have "wt_lexical e \<in> set (resolve_owner ul fold_case m p)"
    using assms(1) by (auto simp: resolve_owner_def Let_def)
  then show ?thesis
    unfolding watcher_events_def by (rule map_event_changed [OF assms(5,4)])
qed

lemma watched_change_is_reported_witness:
  "\<exists>ps. RawChanged demo_root ps \<in> set (watcher_events demo_url False
      (snd (lw_watch demo_url False (\<lambda>p. Some ''/real'') (\<lambda>p. None) demo_root []))
      \<lparr>ev_need_rescan = False, ev_paths = [''/real/x'']\<rparr>) \<and> ''/real/x'' \<in> set ps"
proof -
  let ?m = "snd (lw_watch demo_url False (\<lambda>p. Some ''/real'') (\<lambda>p. None) demo_root [])"
  have "path_parent ''/real/x'' = Some ''/real''" "canonical_of demo_url False ''/real'' = Some ''file:///real''"
    "map_of ?m ''file:///real'' = Some \<lparr>wt_lexical = demo_root, wt_notify_path = ''/r''\<rparr>"
    by code_simp+
  from watched_change_is_reported [OF this, of "\<lparr>ev_need_rescan = False, ev_paths = [''/real/x'']\<rparr>"]
  show ?thesis
    by simp
qed

text \<open>A link that is watched loses its events when the directory it leads to is watched too:
  from then on changes are attributed to the directory alone, and when that one is given up, to
  nobody, although the link is still watched.\<close>

theorem real_directory_silences_link:
  assumes "uri_to_path ul link = Inr pl" and "uri_to_path ul dir = Inr pd" and "link \<noteq> dir"
    and "realpath pl = Some pd" and "realpath pd = Some pd" and "canonical_of ul fold_case pd = Some dir"
    and "refuses pl = None" and "refuses pd = None" and "canonical_of ul fold_case q = Some dir"
    and "distinct (hm_keys m)" and "map_of m dir = None"
  defines "m1 \<equiv> snd (lw_watch ul fold_case realpath refuses link m)"
  defines "m2 \<equiv> snd (lw_watch ul fold_case realpath refuses dir m1)"
  defines "m3 \<equiv> snd (lw_unwatch dir m2)"
  shows "owner_of ul fold_case m1 q = Some link \<and> owner_of ul fold_case m2 q = Some dir \<and>
    owner_of ul fold_case m3 q = None \<and> map_of m3 link \<noteq> None"
proof -
  have real: "realpath_canonical ul fold_case realpath pl = Some dir" "realpath_canonical ul fold_case realpath pd = Some dir"
    using assms(4,5,6) by (simp_all add: realpath_canonical_def)
  have m1: "map_of m1 = (map_of m)(link \<mapsto> \<lparr>wt_lexical = link, wt_notify_path = pl\<rparr>, dir \<mapsto> \<lparr>wt_lexical = link, wt_notify_path = pl\<rparr>)"
    using assms(1,3,7,11) real(1) by (simp add: m1_def lw_watch_def Let_def)
  have m2: "map_of m2 = (map_of m1)(dir \<mapsto> \<lparr>wt_lexical = dir, wt_notify_path = pd\<rparr>)"
    using assms(2,8) real(2) by (simp add: m2_def lw_watch_def Let_def)
  have "distinct (hm_keys m2)"
    using assms(10) watch_distinct by (simp add: m1_def m2_def)
  then have m3: "map_of m3 c = (case map_of m2 c of Some e \<Rightarrow> if wt_lexical e = dir then None else Some e | None \<Rightarrow> None)" for c
    unfolding m3_def by (rule map_of_unwatch)
  show ?thesis
    using assms(3,9) by (simp add: owner_of_def m3 m2 m1)
qed

lemma real_directory_silences_link_witness:
  "let m1 = snd (lw_watch demo_url False demo_links (\<lambda>p. None) ''file:///l'' []);
       m3 = snd (lw_unwatch demo_root (snd (lw_watch demo_url False demo_links (\<lambda>p. None) demo_root m1)))
   in owner_of demo_url False m1 ''/r'' = Some ''file:///l'' \<and> owner_of demo_url False m3 ''/r'' = None \<and>
      map_of m3 ''file:///l'' \<noteq> None"
proof -
  have paths: "uri_to_path demo_url ''file:///l'' = Inr ''/l''" "uri_to_path demo_url demo_root = Inr ''/r''"
    "''file:///l'' \<noteq> demo_root"
    by code_simp+
  have reals: "demo_links ''/l'' = Some ''/r''" "demo_links ''/r'' = Some ''/r''"
    by (simp_all add: demo_links_def)
  have canon: "canonical_of demo_url False ''/r'' = Some demo_root"
    by code_simp
  show ?thesis
    using real_directory_silences_link [OF paths reals canon, of "\<lambda>p. None" "''/r''" "[]"] canon
    by (simp add: Let_def)
qed


section \<open>Searching for files\<close>

text \<open>C5. The answer of a search tells the truth under every interleaving of its walks: once it is
  sent nothing more is sent, its total is the number of hits sent before it, and either it reports
  that the limit was reached and exactly that many hits were sent, or the hits sent are exactly
  the matching files of all roots.\<close>

theorem search_answer_is_true:
  assumes "search_reaches tx m (search_start limit roots) s" and "PushTerminal limit_reached hits \<in> set (ss_pushed s)"
  shows "\<exists>ps. ss_pushed s = ps @ [PushTerminal limit_reached hits] \<and> hits = length (pushed_hits ps) \<and>
    (if limit_reached then hits = limit else mset (pushed_hits ps) = all_hits tx m roots)"
proof -
  have ok: "search_ok tx m limit (all_hits tx m roots) s"
    using assms(1) by (rule search_reaches_ok)
  have answered: "\<not> unanswered s"
    using assms(2) by (force simp: unanswered_def list_ex_iff)
  then have "answered limit (all_hits tx m roots) (ss_pushed s)"
    using ok by (cases "ss_pc s") (auto simp: search_ok_def)
  then obtain qs l where qs: "ss_pushed s = qs @ [PushTerminal l (length (pushed_hits qs))]" "\<not> list_ex is_terminal_push qs"
    "if l then length (pushed_hits qs) = limit else mset (pushed_hits qs) = all_hits tx m roots"
    by (auto simp: answered_def)
  moreover have "PushTerminal limit_reached hits \<notin> set qs"
    using qs(2) by (force simp: list_ex_iff)
  ultimately show ?thesis
    using assms(2) by auto
qed

definition demo_search :: search_state where
  "demo_search = run_search demo_text (name_matcher_new demo_text ''A'' Substring)
     ([MoveWalk 1, MoveWalk 0, MoveWalk 0, MoveWalk 1, MoveWalk 1, MoveWalk 0, MoveWalk 1, MoveWalk 0] @
      replicate 8 (MoveWalk 0) @ replicate 8 (MoveWalk 1) @ replicate 4 MoveCoordinate)
     (search_start 5 [(''p'', Some [WalkFile ''x/a.c'' ''a.c'', WalkDir, WalkFile ''b'' ''b'']), (''q'', Some [WalkUnreadable, WalkFile ''Ba'' ''Ba''])])"

lemma search_answer_is_true_witness:
  "\<exists>ps. ss_pushed demo_search = ps @ [PushTerminal False 2] \<and> 2 = length (pushed_hits ps)"
proof -
  have "PushTerminal False 2 \<in> set (ss_pushed demo_search)"
    by code_simp
  then show ?thesis
    using search_answer_is_true [OF run_search_reaches [of demo_text "name_matcher_new demo_text ''A'' Substring"
        "search_start 5 [(''p'', Some [WalkFile ''x/a.c'' ''a.c'', WalkDir, WalkFile ''b'' ''b'']), (''q'', Some [WalkUnreadable, WalkFile ''Ba'' ''Ba''])]"
        "[MoveWalk 1, MoveWalk 0, MoveWalk 0, MoveWalk 1, MoveWalk 1, MoveWalk 0, MoveWalk 1, MoveWalk 0] @
      replicate 8 (MoveWalk 0) @ replicate 8 (MoveWalk 1) @ replicate 4 MoveCoordinate"]]
    unfolding demo_search_def by blast
qed

text \<open>A search never sends more hits than its limit, never a file that does not match, and
  never an empty batch or one of more than 64 hits, at any moment of any interleaving.\<close>

theorem search_respects_limit:
  assumes "search_reaches tx m (search_start limit roots) s"
  shows "length (pushed_hits (ss_pushed s)) \<le> limit \<and> mset (pushed_hits (ss_pushed s)) \<subseteq># all_hits tx m roots \<and>
    list_all (\<lambda>p. case p of PushMatches b \<Rightarrow> b \<noteq> [] \<and> length b \<le> 64 | PushTerminal _ _ \<Rightarrow> True) (ss_pushed s)"
proof -
  have ok: "slots_ok limit s" "places_ok tx m (all_hits tx m roots) s" "sizes_ok s"
    using search_reaches_ok [OF assms] by (simp_all add: search_ok_def)
  have "mset (pushed_hits (ss_pushed s)) \<subseteq># hits_out s + total_share s + total_left tx m s"
    by (simp add: hits_out_def add.assoc)
  then have "mset (pushed_hits (ss_pushed s)) \<subseteq># all_hits tx m roots"
    using ok(2) unfolding places_ok_def by (blast intro: subset_mset.order_trans)
  moreover have "length (pushed_hits (ss_pushed s)) \<le> limit"
    using ok(1,2) by (simp add: slots_ok_def places_ok_def hits_out_def)
  moreover have "list_all (\<lambda>p. case p of PushMatches b \<Rightarrow> b \<noteq> [] \<and> length b \<le> 64 | PushTerminal _ _ \<Rightarrow> True) (ss_pushed s)"
    using ok(3) by (auto simp: sizes_ok_def batch_size_ok_def search_match_batch_def list_all_iff split: search_push.splits)
  ultimately show ?thesis
    by simp
qed

lemma search_respects_limit_witness:
  "length (pushed_hits (ss_pushed (run_search demo_text (name_matcher_new demo_text [] Substring)
      (replicate 9 (MoveWalk 0) @ replicate 4 MoveCoordinate)
      (search_start 1 [(''p'', Some [WalkFile ''a'' ''a'', WalkFile ''b'' ''b''])])))) \<le> 1"
  using search_respects_limit [OF run_search_reaches] by blast

text \<open>C20. A search always ends: its work is finite, whatever the order of the steps, and until
  the coordinator has ended some walk or the coordinator itself can go on without a cancellation.\<close>

theorem search_terminates:
  "wf {(s', s). search_step tx m s s' \<and> s' \<noteq> s} \<and>
   (ss_pc s = CoEnd \<or> (\<exists>s'. search_step tx m s s' \<and> s' \<noteq> s \<and> ss_cancelled s' = ss_cancelled s))"
proof
  have "{(s', s). search_step tx m s s' \<and> s' \<noteq> s} \<subseteq> measure search_work"
    by (auto dest: search_step_work)
  then show "wf {(s', s). search_step tx m s s' \<and> s' \<noteq> s}"
    by (rule wf_subset [OF wf_measure])
  show "ss_pc s = CoEnd \<or> (\<exists>s'. search_step tx m s s' \<and> s' \<noteq> s \<and> ss_cancelled s' = ss_cancelled s)"
  proof (cases "ss_pc s = CoEnd")
    case False
    then consider (walk) i where "i < length (ss_walkers s)" "search_work (step_walker tx m i s) < search_work s"
      | (coordinator) "search_work (coordinator_step s) < search_work s"
      using search_can_move by blast
    then show ?thesis
    proof cases
      case (walk i)
      then show ?thesis
        using search_step.walks [OF walk(1)] walk_keeps_all(7) [OF walk(1)] by (metis less_irrefl)
    next
      case coordinator
      have "ss_cancelled (coordinator_step s) = ss_cancelled s"
        by (cases "ss_pc s") (simp_all add: coordinator_step_def emit_batch_def)
      then show ?thesis
        using search_step.coordinates [of tx m s] coordinator by (metis less_irrefl)
    qed
  qed simp
qed

end
