(* ===== verification/Ext_Types.thy ===== *)
theory Ext_Types
  imports Prelude
begin

text \<open>
  The data of extensions (\<open>crates/aionui-extension/src/types.rs\<close>, \<open>error.rs\<close>): manifests, permissions,
  persisted states, loaded extensions and the errors of the operations that are modelled. Of a
  manifest the fields that only the resolvers of contributions read are left out.
\<close>

section \<open>Permissions and risk\<close>

datatype network_permission = Unrestricted bool | Scoped "string list" string

datatype filesystem_scope = ExtensionOnly | WorkspaceScope | FullScope

record ext_permissions =
  xp_storage :: "bool option"
  xp_network :: "network_permission option"
  xp_shell :: "bool option"
  xp_filesystem :: "filesystem_scope option"
  xp_clipboard :: "bool option"
  xp_active_user :: "bool option"
  xp_events :: "bool option"

datatype risk_level = RiskSafe | RiskModerate | RiskDangerous

datatype permission_level = LevelNone | LevelLimited | LevelFull

record permission_detail =
  pd_permission :: string
  pd_level :: permission_level
  pd_description :: string

record permission_summary =
  ps_permissions :: ext_permissions
  ps_risk_level :: risk_level
  ps_details :: "permission_detail list"

section \<open>Manifests and loaded extensions\<close>

record engine_config =
  ec_aionui :: "string option"

record lifecycle_hooks =
  lh_on_install :: "string option"
  lh_on_uninstall :: "string option"
  lh_on_activate :: "string option"
  lh_on_deactivate :: "string option"

record ext_manifest =
  em_name :: string
  em_version :: string
  em_display_name :: "string option"
  em_description :: "string option"
  em_engine :: "engine_config option"
  em_api_version :: "string option"
  em_dependencies :: "(string, string) hash_map"
  em_permissions :: "ext_permissions option"
  em_lifecycle :: "lifecycle_hooks option"

datatype ext_source = SourceLocal | SourceAppdata | SourceEnv

record ext_state =
  es_name :: string
  es_version :: string
  es_enabled :: bool
  es_installed_at :: "timestamp_ms option"
  es_last_activated_at :: "timestamp_ms option"

record loaded_extension =
  le_manifest :: ext_manifest
  le_directory :: string
  le_source :: ext_source
  le_state :: ext_state

abbreviation ext_name :: "loaded_extension \<Rightarrow> string" where
  "ext_name e \<equiv> em_name (le_manifest e)"

abbreviation ext_deps :: "loaded_extension \<Rightarrow> string list" where
  "ext_deps e \<equiv> hm_keys (em_dependencies (le_manifest e))"

datatype ext_system_event = ExtensionActivated | ExtensionDeactivated | ExtensionInstalled
  | ExtensionUninstalled | RegistryReloaded | StatesPersisted

section \<open>Errors\<close>

datatype ext_error =
    ManifestValidation string
  | ReservedNamePrefix string string
  | InvalidVersion string
  | UndefinedEnvVariable string
  | FileReferenceNotFound string
  | PathTraversal string
  | HookTimeout string string nat
  | HookFailed string string string
  | HookNotFound string
  | ExtensionNotFound string
  | StatePersistence string
  | ExtIo
  | ExtJson

section \<open>Versions\<close>

text \<open>The semver crate: versions and requirements are what it parses them to.\<close>

record ('v, 'r) semver =
  sv_version :: "string \<Rightarrow> 'v option"
  sv_req :: "string \<Rightarrow> 'r option"
  sv_matches :: "'r \<Rightarrow> 'v \<Rightarrow> bool"
  sv_major :: "'v \<Rightarrow> u64"
  sv_le :: "'v \<Rightarrow> 'v \<Rightarrow> bool"

end
