(* ===== verification/Ext_Manifest.thy ===== *)
theory Ext_Manifest
  imports Ext_Types Fs_Path
begin

text \<open>
  Reading a manifest (\<open>crates/aionui-extension/src/manifest.rs\<close>) and the templates in its values
  (\<open>template.rs\<close>): references to files below the extension, the renaming of the keys of older
  formats, validation. A JSON value is what serde\_json makes of a text; an object is a map ordered
  by its keys. The files are a finite tree: a canonical path has a content or none.
\<close>

section \<open>JSON and files\<close>

datatype json =
    JNull
  | JBool bool
  | JNumber string
  | JString string
  | JArray "json list"
  | JObject "(string \<times> json) list"

type_synonym json_map = "(string, json) btree_map"

record json_lib =
  js_parse :: "string \<Rightarrow> json option"
  js_manifest :: "json \<Rightarrow> ext_manifest option"

record file_tree =
  ft_exists :: "string \<Rightarrow> bool"
  ft_canonicalize :: "string \<Rightarrow> string option"
  ft_files :: "(string \<times> string) list"

definition str_starts_with :: "string \<Rightarrow> string \<Rightarrow> bool" where
  "str_starts_with s prefix \<longleftrightarrow> take (length prefix) s = prefix"

text \<open>\<open>Path::extension\<close>: what follows the last dot of the file name, unless the dot is its first
  character.\<close>

definition path_extension :: "string \<Rightarrow> string option" where
  "path_extension p =
     (case path_file_name p of
        None \<Rightarrow> None
      | Some name \<Rightarrow>
          let ext = takeWhile (\<lambda>c. c \<noteq> CHR ''.'') (rev name)
          in if Suc (length ext) < length name then Some (rev ext) else None)"

section \<open>References to files\<close>

definition file_ref_prefix :: string where
  "file_ref_prefix = ''$file:''"

definition is_file_ref :: "string \<Rightarrow> bool" where
  "is_file_ref value = str_starts_with value file_ref_prefix"

function trim_ref_prefix :: "string \<Rightarrow> string" where
  "trim_ref_prefix s = (if str_starts_with s file_ref_prefix then trim_ref_prefix (drop 6 s) else s)"
  by pat_completeness auto

termination
proof (relation "measure length")
  fix s assume "str_starts_with s file_ref_prefix"
  then have "length (take (length file_ref_prefix) s) = 6"
    by (simp add: str_starts_with_def file_ref_prefix_def)
  then show "(drop 6 s, s) \<in> measure length"
    by (simp add: file_ref_prefix_def split: if_splits)
qed simp

declare trim_ref_prefix.simps [simp del]

definition trim_end_newlines :: "string \<Rightarrow> string" where
  "trim_end_newlines s = rev (dropWhile (\<lambda>c. c = CHR 0x0A) (rev s))"

text \<open>Where a reference leads to: its trimmed text and the canonical path of the file.\<close>

definition file_ref_target :: "file_tree \<Rightarrow> string \<Rightarrow> string \<Rightarrow> ext_error + string \<times> string" where
  "file_ref_target ft dir reference =
     (let relative = str_trim (trim_ref_prefix reference);
          absolute = path_join dir relative
      in case ft_canonicalize ft dir of
           None \<Rightarrow> Inl ExtIo
         | Some base \<Rightarrow>
             (case ft_canonicalize ft absolute of
                None \<Rightarrow> Inl (FileReferenceNotFound relative)
              | Some path \<Rightarrow>
                  if path_starts_with path base then Inr (relative, path) else Inl (PathTraversal relative)))"

definition is_json_path :: "string \<Rightarrow> bool" where
  "is_json_path path \<longleftrightarrow> path_extension path \<in> {Some ''json'', Some ''jsonc'', Some ''json5''}"

text \<open>The set of visited files holds the references being resolved: a file is inserted before its
  content is resolved and removed afterwards, so that what follows it sees the set as it was; an
  error ends everything.\<close>

function (sequential) resolve_file_refs ::
    "json_lib \<Rightarrow> file_tree \<Rightarrow> string \<Rightarrow> string list \<Rightarrow> json \<Rightarrow> ext_error + json"
  and resolve_array_refs ::
    "json_lib \<Rightarrow> file_tree \<Rightarrow> string \<Rightarrow> string list \<Rightarrow> json list \<Rightarrow> ext_error + json list"
  and resolve_object_refs ::
    "json_lib \<Rightarrow> file_tree \<Rightarrow> string \<Rightarrow> string list \<Rightarrow> (string \<times> json) list \<Rightarrow> ext_error + (string \<times> json) list"
where
  "resolve_file_refs jl ft dir visited (JString text) =
     (if \<not> is_file_ref text then Inr (JString text)
      else case file_ref_target ft dir text of
        Inl e \<Rightarrow> Inl e
      | Inr (relative, path) \<Rightarrow>
          if path \<in> set visited then Inl (ManifestValidation (''circular $file reference detected: '' @ relative))
          else case map_of (ft_files ft) path of
              None \<Rightarrow> Inl ExtIo
            | Some content \<Rightarrow>
                if \<not> is_json_path path then Inr (JString (trim_end_newlines content))
                else case js_parse jl content of
                    None \<Rightarrow> Inl ExtJson
                  | Some parsed \<Rightarrow> resolve_file_refs jl ft dir (path # visited) parsed)"
| "resolve_file_refs jl ft dir visited (JArray values) =
     (case resolve_array_refs jl ft dir visited values of Inl e \<Rightarrow> Inl e | Inr resolved \<Rightarrow> Inr (JArray resolved))"
| "resolve_file_refs jl ft dir visited (JObject m) =
     (case resolve_object_refs jl ft dir visited m of Inl e \<Rightarrow> Inl e | Inr resolved \<Rightarrow> Inr (JObject resolved))"
| "resolve_file_refs jl ft dir visited v = Inr v"
| "resolve_array_refs jl ft dir visited [] = Inr []"
| "resolve_array_refs jl ft dir visited (v # vs) =
     (case resolve_file_refs jl ft dir visited v of
        Inl e \<Rightarrow> Inl e
      | Inr r \<Rightarrow> (case resolve_array_refs jl ft dir visited vs of Inl e \<Rightarrow> Inl e | Inr rs \<Rightarrow> Inr (r # rs)))"
| "resolve_object_refs jl ft dir visited [] = Inr []"
| "resolve_object_refs jl ft dir visited ((k, v) # m) =
     (case resolve_file_refs jl ft dir visited v of
        Inl e \<Rightarrow> Inl e
      | Inr r \<Rightarrow> (case resolve_object_refs jl ft dir visited m of Inl e \<Rightarrow> Inl e | Inr rs \<Rightarrow> Inr ((k, r) # rs)))"
  by pat_completeness auto

definition unread_files :: "file_tree \<Rightarrow> string list \<Rightarrow> nat" where
  "unread_files ft visited = card (fst ` set (ft_files ft) - set visited)"

lemma unread_files_decreases:
  assumes "map_of (ft_files ft) path = Some content" and "path \<notin> set visited"
  shows "unread_files ft (path # visited) < unread_files ft visited"
proof -
  have "path \<in> fst ` set (ft_files ft)"
    using assms(1) by (metis map_of_eq_None_iff option.distinct(1))
  then show ?thesis
    unfolding unread_files_def using assms(2) by (intro psubset_card_mono) auto
qed

termination resolve_file_refs
  by (relation "measures
      [case_sum (\<lambda>(jl, ft, dir, visited, v). unread_files ft visited)
        (case_sum (\<lambda>(jl, ft, dir, visited, vs). unread_files ft visited) (\<lambda>(jl, ft, dir, visited, m). unread_files ft visited)),
       case_sum (\<lambda>(jl, ft, dir, visited, v). size v)
        (case_sum (\<lambda>(jl, ft, dir, visited, vs). size_list size vs)
          (\<lambda>(jl, ft, dir, visited, m). size_list (size_prod (\<lambda>_. 0) size) m))]")
    (auto intro: unread_files_decreases)

section \<open>Older formats\<close>

definition move_key :: "string \<Rightarrow> string \<Rightarrow> json_map \<Rightarrow> json_map" where
  "move_key old_key new_key m =
     (if map_of m new_key \<noteq> None then hm_remove old_key m
      else case map_of m old_key of
          Some value \<Rightarrow> bt_insert new_key value (hm_remove old_key m)
        | None \<Rightarrow> m)"

definition move_keys :: "(string \<times> string) list \<Rightarrow> json_map \<Rightarrow> json_map" where
  "move_keys moves m = fold (\<lambda>(old_key, new_key). move_key old_key new_key) moves m"

definition on_object :: "(json_map \<Rightarrow> json_map) \<Rightarrow> json \<Rightarrow> json" where
  "on_object f value = (case value of JObject m \<Rightarrow> JObject (f m) | _ \<Rightarrow> value)"

definition json_object :: "(string \<times> json) list \<Rightarrow> json" where
  "json_object kvs = JObject (fold (\<lambda>(k, v). bt_insert k v) kvs [])"

definition normalize_i18n :: "json \<Rightarrow> json" where
  "normalize_i18n = on_object (\<lambda>m.
     let m1 = move_key ''localesDir'' ''directory'' m
     in if map_of m1 ''locales'' = None
        then (case map_of m1 ''defaultLocale'' of
                Some default_locale \<Rightarrow> bt_insert ''locales'' (JArray [default_locale]) (hm_remove ''defaultLocale'' m1)
              | None \<Rightarrow> m1)
        else hm_remove ''defaultLocale'' m1)"

definition normalize_lifecycle :: "json \<Rightarrow> json" where
  "normalize_lifecycle = on_object (move_keys
     [(''onInstall'', ''on_install''), (''onUninstall'', ''on_uninstall''), (''onActivate'', ''on_activate''),
      (''onDeactivate'', ''on_deactivate'')])"

definition normalize_acp_adapter :: "json \<Rightarrow> json" where
  "normalize_acp_adapter = on_object (move_keys
     [(''cliCommand'', ''cli_command''), (''defaultCliPath'', ''default_cli_path''), (''acpArgs'', ''acp_args''),
      (''authRequired'', ''auth_required''), (''supportsStreaming'', ''supports_streaming''),
      (''connectionType'', ''connection_type''), (''apiKeyFields'', ''api_key_fields''), (''yoloMode'', ''yolo_mode''),
      (''healthCheck'', ''health_check''), (''icon'', ''avatar'')])"

definition normalize_mcp_server :: "json \<Rightarrow> json" where
  "normalize_mcp_server = on_object (\<lambda>m.
     if map_of m ''id'' = None
     then (case map_of m ''name'' of Some (JString name) \<Rightarrow> bt_insert ''id'' (JString name) m | _ \<Rightarrow> m)
     else m)"

definition context_of_file :: "json_map \<Rightarrow> json_map" where
  "context_of_file m =
     (if map_of m ''context'' = None
      then (case map_of m ''contextFile'' of
              Some (JString path) \<Rightarrow> bt_insert ''context'' (JString (''@file:'' @ path)) (hm_remove ''contextFile'' m)
            | _ \<Rightarrow> hm_remove ''contextFile'' m)
      else hm_remove ''contextFile'' m)"

definition normalize_assistant :: "json \<Rightarrow> json" where
  "normalize_assistant = on_object (\<lambda>m.
     context_of_file (move_keys [(''avatar'', ''icon''), (''systemPrompt'', ''system_prompt'')] m))"

definition normalize_agent :: "json \<Rightarrow> json" where
  "normalize_agent v = on_object (move_key ''agentType'' ''agent_type'') (normalize_assistant v)"

definition normalize_skill :: "json \<Rightarrow> json" where
  "normalize_skill = on_object (move_key ''file'' ''path'')"

definition normalize_channel_plugin :: "json \<Rightarrow> json" where
  "normalize_channel_plugin = on_object (\<lambda>m.
     move_key ''entryPoint'' ''entry_point'' (if map_of m ''id'' = None then move_key ''type'' ''id'' m else m))"

definition normalize_theme :: "json \<Rightarrow> json" where
  "normalize_theme = on_object (move_keys [(''file'', ''css_file''), (''cover'', ''cover_image'')])"

definition normalize_settings_tab :: "json \<Rightarrow> json" where
  "normalize_settings_tab = on_object (\<lambda>m.
     hm_modify ''position'' (on_object (move_key ''anchor'' ''relativeTo''))
       (move_keys [(''name'', ''label''), (''entryPoint'', ''url'')] m))"

definition normalize_model_provider :: "json \<Rightarrow> json" where
  "normalize_model_provider = on_object (move_keys [(''baseUrl'', ''base_url''), (''platform'', ''protocol'')])"

subsection \<open>Web interfaces\<close>

definition as_array :: "json \<Rightarrow> json list" where
  "as_array v = (case v of JArray vs \<Rightarrow> vs | _ \<Rightarrow> [])"

text \<open>\<open>remove(a).or_else(|| remove(b))\<close>, an array or nothing.\<close>

definition legacy_array :: "string \<Rightarrow> string \<Rightarrow> json_map \<Rightarrow> json list" where
  "legacy_array a b m =
     (case map_of m a of
        Some v \<Rightarrow> as_array v
      | None \<Rightarrow> (case map_of m b of Some v \<Rightarrow> as_array v | None \<Rightarrow> []))"

definition normalize_route :: "json \<Rightarrow> json" where
  "normalize_route = on_object (\<lambda>m.
     let m1 = move_key ''entryPoint'' ''handler'' m
     in if map_of m1 ''method'' = None then bt_insert ''method'' (JString ''GET'') m1 else m1)"

fun nat_decimal :: "nat \<Rightarrow> string" where
  "nat_decimal n = (if n < 10 then [char_of (48 + n)] else nat_decimal (n div 10) @ [char_of (48 + n mod 10)])"

declare nat_decimal.simps [simp del]

definition trim_slashes :: "string \<Rightarrow> string" where
  "trim_slashes s = rev (dropWhile (\<lambda>c. c = CHR ''/'') (rev (dropWhile (\<lambda>c. c = CHR ''/'') s)))"

definition asset_id :: "nat \<Rightarrow> json_map \<Rightarrow> string" where
  "asset_id index m =
     (case (case map_of m ''urlPrefix'' of Some v \<Rightarrow> Some v | None \<Rightarrow> map_of m ''url_prefix'') of
        Some (JString prefix) \<Rightarrow>
          let name = map (\<lambda>c. if c \<in> {CHR ''/'', CHR ''.'', CHR ''_''} then CHR ''-'' else c) (trim_slashes prefix)
          in if name \<noteq> [] then name else ''legacy-webui-assets-'' @ nat_decimal index
      | _ \<Rightarrow> ''legacy-webui-assets-'' @ nat_decimal index)"

definition asset_entry :: "nat \<times> json \<Rightarrow> json option" where
  "asset_entry = (\<lambda>(index, asset).
     case asset of
       JObject m \<Rightarrow> Some (json_object
         [(''id'', JString (asset_id index m)),
          (''directory'', case map_of m ''directory'' of Some d \<Rightarrow> d | None \<Rightarrow> JString ''.''),
          (''routes'', JArray [])])
     | _ \<Rightarrow> None)"

definition normalize_webui :: "json \<Rightarrow> json" where
  "normalize_webui value =
     (case value of
        JObject m \<Rightarrow>
          if map_of m ''directory'' \<noteq> None \<and> map_of m ''routes'' \<noteq> None then value
          else
            let api_routes = legacy_array ''apiRoutes'' ''api_routes'' m;
                static_assets = legacy_array ''staticAssets'' ''static_assets'' m
            in JArray
              ((if api_routes = [] then []
                else [json_object [(''id'', JString ''legacy-webui-routes''), (''directory'', JString ''.''),
                        (''routes'', JArray (map normalize_route api_routes))]]) @
               filter_map asset_entry (zip [0..<length static_assets] static_assets))
      | _ \<Rightarrow> value)"

subsection \<open>The whole manifest\<close>

definition normalize_array_entries :: "(json \<Rightarrow> json) \<Rightarrow> json \<Rightarrow> json" where
  "normalize_array_entries f v = (case v of JArray items \<Rightarrow> JArray (map f items) | _ \<Rightarrow> v)"

definition normalize_parts :: "(string \<times> (json \<Rightarrow> json)) list \<Rightarrow> json_map \<Rightarrow> json_map" where
  "normalize_parts parts m = fold (\<lambda>(key, f). hm_modify key f) parts m"

definition contribution_parts :: "(string \<times> (json \<Rightarrow> json)) list" where
  "contribution_parts =
     [(''acp_adapters'', normalize_array_entries normalize_acp_adapter),
      (''mcp_servers'', normalize_array_entries normalize_mcp_server),
      (''assistants'', normalize_array_entries normalize_assistant),
      (''agents'', normalize_array_entries normalize_agent),
      (''skills'', normalize_array_entries normalize_skill),
      (''channel_plugins'', normalize_array_entries normalize_channel_plugin),
      (''themes'', normalize_array_entries normalize_theme),
      (''settings_tabs'', normalize_array_entries normalize_settings_tab),
      (''model_providers'', normalize_array_entries normalize_model_provider),
      (''webui'', normalize_webui)]"

definition normalize_contributes :: "json \<Rightarrow> json" where
  "normalize_contributes = on_object (\<lambda>m. normalize_parts contribution_parts (move_keys
     [(''acpAdapters'', ''acp_adapters''), (''mcpServers'', ''mcp_servers''), (''channelPlugins'', ''channel_plugins''),
      (''settingsTabs'', ''settings_tabs''), (''modelProviders'', ''model_providers'')] m))"

definition normalize_manifest_json :: "json \<Rightarrow> json" where
  "normalize_manifest_json = on_object (\<lambda>m. normalize_parts
     [(''i18n'', normalize_i18n), (''lifecycle'', normalize_lifecycle), (''contributes'', normalize_contributes)]
     (move_keys [(''displayName'', ''display_name''), (''apiVersion'', ''api_version''), (''entryPoint'', ''entry_point'')] m))"

section \<open>Validation\<close>

definition reserved_name_prefixes :: "string list" where
  "reserved_name_prefixes = [''aion-'', ''internal-'', ''builtin-'', ''system-'']"

definition validate_name :: "text_lib \<Rightarrow> string \<Rightarrow> ext_error + unit" where
  "validate_name tx name =
     (if name = [] then Inl (ManifestValidation ''extension name must not be empty'')
      else case find (str_starts_with (tl_lower tx name)) reserved_name_prefixes of
          Some prefix \<Rightarrow> Inl (ReservedNamePrefix name prefix)
        | None \<Rightarrow> Inr ())"

definition validate_version :: "('v, 'r) semver \<Rightarrow> string \<Rightarrow> ext_error + unit" where
  "validate_version sv version =
     (if version = [] then Inl (ManifestValidation ''extension version must not be empty'')
      else if sv_version sv version = None then Inl (InvalidVersion version)
      else Inr ())"

definition validate_manifest :: "text_lib \<Rightarrow> ('v, 'r) semver \<Rightarrow> ext_manifest \<Rightarrow> ext_error + unit" where
  "validate_manifest tx sv m =
     (case validate_name tx (em_name m) of Inl e \<Rightarrow> Inl e | Inr _ \<Rightarrow> validate_version sv (em_version m))"

definition parse_manifest_inner ::
  "text_lib \<Rightarrow> ('v, 'r) semver \<Rightarrow> json_lib \<Rightarrow> file_tree \<Rightarrow> string \<Rightarrow> string option \<Rightarrow> ext_error + ext_manifest" where
  "parse_manifest_inner tx sv jl ft bytes extension_dir =
     (case js_parse jl bytes of
        None \<Rightarrow> Inl ExtJson
      | Some manifest_json \<Rightarrow>
          (case (case extension_dir of
                   Some dir \<Rightarrow> resolve_file_refs jl ft dir [] manifest_json
                 | None \<Rightarrow> Inr manifest_json) of
             Inl e \<Rightarrow> Inl e
           | Inr resolved \<Rightarrow>
               (case js_manifest jl (normalize_manifest_json resolved) of
                  None \<Rightarrow> Inl ExtJson
                | Some manifest \<Rightarrow>
                    (case validate_manifest tx sv manifest of Inl e \<Rightarrow> Inl e | Inr _ \<Rightarrow> Inr manifest))))"

section \<open>Templates\<close>

text \<open>A placeholder ends at the next brace or with the string; an empty one is copied.\<close>

function (sequential) resolve_env_templates :: "(string \<Rightarrow> string option) \<Rightarrow> bool \<Rightarrow> string \<Rightarrow> ext_error + string" where
  "resolve_env_templates env strict [] = Inr []"
| "resolve_env_templates env strict (c # cs) =
     (if c = CHR ''$'' \<and> take 1 cs = ''{'' then
        let var_name = takeWhile (\<lambda>x. x \<noteq> CHR ''}'') (tl cs);
            rest = drop (Suc (length var_name)) (tl cs);
            put = (\<lambda>s. case resolve_env_templates env strict rest of Inl e \<Rightarrow> Inl e | Inr r \<Rightarrow> Inr (s @ r))
        in if var_name = [] then put ''${}''
           else case env var_name of
               Some val \<Rightarrow> put val
             | None \<Rightarrow> if strict then Inl (UndefinedEnvVariable var_name) else put []
      else case resolve_env_templates env strict cs of Inl e \<Rightarrow> Inl e | Inr r \<Rightarrow> Inr (c # r))"
  by pat_completeness auto

termination
  by (relation "measure (\<lambda>(env, strict, s). length s)") auto

fun resolve_env_map ::
  "(string \<Rightarrow> string option) \<Rightarrow> bool \<Rightarrow> (string, string) hash_map \<Rightarrow> ext_error + (string, string) hash_map" where
  "resolve_env_map env strict [] = Inr []"
| "resolve_env_map env strict ((k, v) # m) =
     (case resolve_env_templates env strict v of
        Inl e \<Rightarrow> Inl e
      | Inr r \<Rightarrow> (case resolve_env_map env strict m of Inl e \<Rightarrow> Inl e | Inr rs \<Rightarrow> Inr ((k, r) # rs)))"

definition resolve_file_reference :: "file_tree \<Rightarrow> string \<Rightarrow> string \<Rightarrow> ext_error + string" where
  "resolve_file_reference ft dir value =
     (if \<not> str_starts_with value ''@file:'' then Inr value
      else
        let rel_path = drop 6 value; full_path = path_join dir rel_path
        in if rel_path = [] then Inl (FileReferenceNotFound ''@file: with empty path'')
           else if \<not> ft_exists ft full_path then Inl (FileReferenceNotFound full_path)
           else case ft_canonicalize ft dir of
               None \<Rightarrow> Inl ExtIo
             | Some canonical_dir \<Rightarrow>
                 (case ft_canonicalize ft full_path of
                    None \<Rightarrow> Inl ExtIo
                  | Some canonical_file \<Rightarrow>
                      if \<not> path_starts_with canonical_file canonical_dir then Inl (PathTraversal rel_path)
                      else case map_of (ft_files ft) canonical_file of Some content \<Rightarrow> Inr content | None \<Rightarrow> Inl ExtIo))"

end
