(* ===== verification/Ext_Normal.thy ===== *)
theory Ext_Normal
  imports Ext_Manifest
begin

text \<open>
  The normal form of a manifest: renaming the keys of older formats a second time changes nothing,
  because the old keys are gone. And what the resolution of file references can depend on: the
  files below the extension's directory.
\<close>

section \<open>Moved keys\<close>

definition lacks :: "string list \<Rightarrow> json_map \<Rightarrow> bool" where
  "lacks ks m \<longleftrightarrow> (\<forall>k \<in> set ks. map_of m k = None)"

lemma hm_remove_absent: "map_of m k = None \<Longrightarrow> hm_remove k m = m"
  by (simp add: delete_id map_of_eq_None_iff)

lemma map_of_move_key:
  "map_of (move_key old new m) k =
     (if k = old then None
      else if k = new \<and> map_of m new = None then map_of m old else map_of m k)"
  by (auto simp: move_key_def split: option.splits)

lemma move_key_absent: "map_of m old = None \<Longrightarrow> move_key old new m = m"
  by (auto simp: move_key_def hm_remove_absent)

lemma move_keys_simps [simp]:
  "move_keys [] m = m" "move_keys ((old, new) # moves) m = move_keys moves (move_key old new m)"
  by (simp_all add: move_keys_def)

lemma move_keys_absent: "lacks (map fst moves) m \<Longrightarrow> move_keys moves m = m"
  by (induction moves) (auto simp: lacks_def move_key_absent)

lemma map_of_move_keys_other:
  "k \<notin> fst ` set moves \<Longrightarrow> k \<notin> snd ` set moves \<Longrightarrow> map_of (move_keys moves m) k = map_of m k"
  by (induction moves arbitrary: m) (auto simp: map_of_move_key)

lemma move_keys_lacks_one:
  "map_of m k = None \<Longrightarrow> k \<notin> snd ` set moves \<Longrightarrow> map_of (move_keys moves m) k = None"
  by (induction moves arbitrary: m) (auto simp: map_of_move_key)

lemma lacks_move_keys:
  "set (map fst moves) \<inter> set (map snd moves) = {} \<Longrightarrow> lacks (map fst moves) (move_keys moves m)"
proof (induction moves arbitrary: m)
  case (Cons move moves)
  obtain old new where move: "move = (old, new)"
    by fastforce
  have "map_of (move_key old new m) old = None"
    using Cons.prems move by (auto simp: map_of_move_key)
  then have "map_of (move_keys moves (move_key old new m)) old = None"
    using Cons.prems move by (intro move_keys_lacks_one) auto
  moreover have "lacks (map fst moves) (move_keys moves (move_key old new m))"
    using Cons.prems by (intro Cons.IH) auto
  ultimately show ?case
    by (simp add: move lacks_def)
qed (simp add: lacks_def)

lemma move_keys_idem:
  "set (map fst moves) \<inter> set (map snd moves) = {} \<Longrightarrow> move_keys moves (move_keys moves m) = move_keys moves m"
  by (intro move_keys_absent lacks_move_keys)

section \<open>Parts\<close>

definition idempotent :: "('a \<Rightarrow> 'a) \<Rightarrow> bool" where
  "idempotent f \<longleftrightarrow> (\<forall>x. f (f x) = f x)"

lemma idempotentD: "idempotent f \<Longrightarrow> f (f x) = f x"
  by (simp add: idempotent_def)

lemma on_object_idem: "(\<And>m. f (f m) = f m) \<Longrightarrow> idempotent (on_object f)"
  by (auto simp: idempotent_def on_object_def split: json.splits)

lemma normalize_array_entries_idem: "idempotent f \<Longrightarrow> idempotent (normalize_array_entries f)"
  by (auto simp: idempotent_def normalize_array_entries_def split: json.splits)

lemma normalize_parts_map:
  "distinct (map fst parts) \<Longrightarrow>
     normalize_parts parts m = map (\<lambda>(k, v). (k, case map_of parts k of Some f \<Rightarrow> f v | None \<Rightarrow> v)) m"
proof (induction parts arbitrary: m)
  case Nil
  then show ?case by (simp add: normalize_parts_def)
next
  case (Cons part parts)
  obtain key f where part: "part = (key, f)"
    by fastforce
  have none: "map_of parts key = None"
    using Cons.prems part by (simp add: map_of_eq_None_iff)
  have "normalize_parts (part # parts) m = normalize_parts parts (hm_modify key f m)"
    by (simp add: normalize_parts_def part)
  also have "\<dots> = map (\<lambda>(k, v). (k, case map_of parts k of Some f \<Rightarrow> f v | None \<Rightarrow> v)) (hm_modify key f m)"
    using Cons by simp
  also have "\<dots> = map (\<lambda>(k, v). (k, case map_of (part # parts) k of Some f \<Rightarrow> f v | None \<Rightarrow> v)) m"
    using none by (auto simp: hm_modify_def part split: option.splits)
  finally show ?case .
qed

lemma map_of_normalize_parts:
  "distinct (map fst parts) \<Longrightarrow> map_of (normalize_parts parts m) k =
     map_option (\<lambda>v. case map_of parts k of Some f \<Rightarrow> f v | None \<Rightarrow> v) (map_of m k)"
  unfolding normalize_parts_map by (induction m) (auto split: option.splits)

lemma normalize_parts_idem:
  assumes "distinct (map fst parts)" and "list_all (\<lambda>(_, f). idempotent f) parts"
  shows "normalize_parts parts (normalize_parts parts m) = normalize_parts parts m"
proof -
  have "f (f v) = f v" if "map_of parts k = Some f" for k f v
    using assms(2) map_of_SomeD [OF that] by (auto simp: list_all_iff dest: idempotentD)
  then show ?thesis
    unfolding normalize_parts_map [OF assms(1)] by (auto split: option.splits)
qed

lemma moves_and_parts_idem:
  assumes "set (map fst moves) \<inter> set (map snd moves) = {}"
    and "distinct (map fst parts)" and "list_all (\<lambda>(_, f). idempotent f) parts"
  shows "idempotent (on_object (\<lambda>m. normalize_parts parts (move_keys moves m)))"
proof (rule on_object_idem)
  fix m
  have "lacks (map fst moves) (normalize_parts parts (move_keys moves m))"
    using lacks_move_keys [OF assms(1), of m] by (simp add: lacks_def map_of_normalize_parts [OF assms(2)])
  then show "normalize_parts parts (move_keys moves (normalize_parts parts (move_keys moves m))) =
      normalize_parts parts (move_keys moves m)"
    by (simp add: move_keys_absent normalize_parts_idem assms(2,3))
qed

section \<open>The normal forms\<close>

named_theorems normal_forms \<open>the normalizers are idempotent\<close>

lemma normalize_i18n_idem [normal_forms]: "idempotent normalize_i18n"
  unfolding normalize_i18n_def
  by (rule on_object_idem)
    (auto simp: Let_def map_of_move_key move_key_absent hm_remove_absent split: option.splits if_splits)

lemma simple_moves_idem [normal_forms]:
  "idempotent normalize_lifecycle" "idempotent normalize_acp_adapter" "idempotent normalize_theme"
  "idempotent normalize_model_provider"
  unfolding normalize_lifecycle_def normalize_acp_adapter_def normalize_theme_def normalize_model_provider_def
  by (rule on_object_idem, rule move_keys_idem, simp)+

lemma normalize_skill_idem [normal_forms]: "idempotent normalize_skill"
  unfolding normalize_skill_def by (rule on_object_idem) (simp add: move_key_absent map_of_move_key)

lemma normalize_mcp_server_idem [normal_forms]: "idempotent normalize_mcp_server"
  unfolding normalize_mcp_server_def by (rule on_object_idem) (auto split: option.splits json.splits)

lemma map_of_context_of_file:
  "map_of (context_of_file m) ''contextFile'' = None"
  "k \<noteq> ''context'' \<Longrightarrow> k \<noteq> ''contextFile'' \<Longrightarrow> map_of (context_of_file m) k = map_of m k"
  by (auto simp: context_of_file_def split: option.splits json.splits)

lemma context_of_file_absent: "map_of m ''contextFile'' = None \<Longrightarrow> context_of_file m = m"
  by (simp add: context_of_file_def hm_remove_absent)

lemma normalize_assistant_idem [normal_forms]: "idempotent normalize_assistant"
  unfolding normalize_assistant_def
  by (rule on_object_idem)
    (simp add: map_of_move_key move_key_absent map_of_context_of_file context_of_file_absent)

lemma normalize_agent_idem [normal_forms]: "idempotent normalize_agent"
  unfolding idempotent_def
proof
  fix v
  show "normalize_agent (normalize_agent v) = normalize_agent v"
    by (cases v) (simp_all add: normalize_agent_def normalize_assistant_def on_object_def map_of_move_key
        move_key_absent map_of_context_of_file context_of_file_absent)
qed

lemma normalize_channel_plugin_idem [normal_forms]: "idempotent normalize_channel_plugin"
  unfolding normalize_channel_plugin_def
  by (rule on_object_idem) (auto simp: map_of_move_key move_key_absent)

lemma position_idem: "idempotent (on_object (move_key ''anchor'' ''relativeTo''))"
  by (rule on_object_idem) (simp add: move_key_absent map_of_move_key)

lemma normalize_settings_tab_idem [normal_forms]: "idempotent normalize_settings_tab"
proof -
  have "normalize_settings_tab = on_object (\<lambda>m. normalize_parts
      [(''position'', on_object (move_key ''anchor'' ''relativeTo''))]
      (move_keys [(''name'', ''label''), (''entryPoint'', ''url'')] m))"
    by (simp add: normalize_settings_tab_def normalize_parts_def)
  moreover have "idempotent \<dots>"
    by (rule moves_and_parts_idem) (simp_all add: position_idem)
  ultimately show ?thesis
    by simp
qed

lemma normalize_webui_idem [normal_forms]: "idempotent normalize_webui"
  by (auto simp: idempotent_def normalize_webui_def Let_def split: json.splits)

lemma normalize_contributes_idem [normal_forms]: "idempotent normalize_contributes"
  unfolding normalize_contributes_def
  by (rule moves_and_parts_idem)
    (simp_all add: contribution_parts_def normalize_array_entries_idem normal_forms)

lemma normalize_manifest_json_idem: "idempotent normalize_manifest_json"
  unfolding normalize_manifest_json_def by (rule moves_and_parts_idem) (simp_all add: normal_forms)

section \<open>What references can reach\<close>

definition same_below :: "string \<Rightarrow> file_tree \<Rightarrow> file_tree \<Rightarrow> bool" where
  "same_below base ft ft' \<longleftrightarrow> ft_canonicalize ft' = ft_canonicalize ft \<and>
     (\<forall>p. path_starts_with p base \<longrightarrow> map_of (ft_files ft') p = map_of (ft_files ft) p)"

lemma file_ref_target_same:
  assumes "same_below base ft ft'"
  shows "file_ref_target ft' dir reference = file_ref_target ft dir reference"
proof -
  have same: "ft_canonicalize ft' = ft_canonicalize ft"
    using assms by (simp add: same_below_def)
  show ?thesis
    unfolding file_ref_target_def same ..
qed

lemma file_ref_target_inside:
  "file_ref_target ft dir reference = Inr (rel, path) \<Longrightarrow> ft_canonicalize ft dir = Some base \<Longrightarrow> path_starts_with path base"
  by (auto simp: file_ref_target_def Let_def split: option.splits if_splits)

lemma resolve_refs_same:
  assumes "same_below base ft ft'" and "ft_canonicalize ft dir = Some base"
  shows "resolve_file_refs jl ft' dir visited v = resolve_file_refs jl ft dir visited v"
    and "resolve_array_refs jl ft' dir visited vs = resolve_array_refs jl ft dir visited vs"
    and "resolve_object_refs jl ft' dir visited m = resolve_object_refs jl ft dir visited m"
  using assms
proof (induction jl ft dir visited v and jl ft dir visited vs and jl ft dir visited m
    rule: resolve_file_refs_resolve_array_refs_resolve_object_refs.induct)
  case (1 jl ft dir visited reference)
  have "map_of (ft_files ft') path = map_of (ft_files ft) path" if "file_ref_target ft dir reference = Inr (rel, path)" for rel path
    using file_ref_target_inside [OF that "1.prems"(2)] "1.prems"(1) by (simp add: same_below_def)
  then show ?case
    using 1 file_ref_target_same [OF "1.prems"(1)] by (auto split: sum.splits option.splits)
qed (auto split: sum.splits)

lemma file_reference_same:
  assumes "same_below base ft ft'" and "ft_canonicalize ft dir = Some base" and "ft_exists ft' = ft_exists ft"
  shows "resolve_file_reference ft' dir value = resolve_file_reference ft dir value"
  using assms by (auto simp: resolve_file_reference_def same_below_def Let_def split: option.splits)

section \<open>Templates\<close>

lemma env_template_plain: "CHR ''$'' \<notin> set s \<Longrightarrow> resolve_env_templates env strict s = Inr s"
  by (induction s) auto

lemma env_template_lenient: "\<exists>r. resolve_env_templates env False s = Inr r"
proof (induction "length s" arbitrary: s rule: less_induct)
  case less
  show ?case
  proof (cases s)
    case (Cons c cs)
    let ?name = "takeWhile (\<lambda>x. x \<noteq> CHR ''}'') (tl cs)"
    have IH: "\<exists>r. resolve_env_templates env False s' = Inr r" if "length s' \<le> length cs" for s'
      by (rule less) (use that Cons in simp)
    obtain r where "resolve_env_templates env False cs = Inr r"
      using IH [of cs] by blast
    moreover obtain r' where "resolve_env_templates env False (drop (Suc (length ?name)) (tl cs)) = Inr r'"
      using IH [of "drop (Suc (length ?name)) (tl cs)"] by auto
    moreover obtain r'' where "resolve_env_templates env False (drop (Suc 0) (tl cs)) = Inr r''"
      using IH [of "drop (Suc 0) (tl cs)"] by auto
    ultimately show ?thesis
      by (simp add: Cons Let_def split: option.splits)
  qed simp
qed

lemma env_template_unclosed: "resolve_env_templates env strict ''a${'' = Inr ''a${}''"
  by simp

end
