(* ===== verification/Ext_Dependency.thy ===== *)
theory Ext_Dependency
  imports Ext_Types
begin

text \<open>
  Dependencies between extensions (\<open>crates/aionui-extension/src/dependency.rs\<close>): missing and
  mismatched ones, the order in which extensions load (Kahn's algorithm) and the cycles that a
  depth-first search reports.
\<close>

datatype dependency_issue =
    IssueMissing string string string
  | IssueVersionMismatch string string string string
  | IssueCircular "string list"

record dependency_result =
  dr_valid :: bool
  dr_issues :: "dependency_issue list"
  dr_load_order :: "string list"

definition is_ascii_digit :: "char \<Rightarrow> bool" where
  "is_ascii_digit c \<longleftrightarrow> CHR ''0'' \<le> c \<and> c \<le> CHR ''9''"

definition version_matches :: "('v, 'r) semver \<Rightarrow> string \<Rightarrow> string \<Rightarrow> bool" where
  "version_matches sv requirement actual =
     (case sv_version sv actual of
        None \<Rightarrow> False
      | Some version \<Rightarrow>
          let req_str = (case requirement of
                c # _ \<Rightarrow> if is_ascii_digit c then ''='' @ requirement else requirement
              | [] \<Rightarrow> requirement)
          in case sv_req sv req_str of None \<Rightarrow> False | Some req \<Rightarrow> sv_matches sv req version)"

section \<open>The graph of dependencies\<close>

definition known_names :: "loaded_extension list \<Rightarrow> string list" where
  "known_names exts = remdups (map ext_name exts)"

type_synonym adjacency = "(string, string list) hash_map"
type_synonym in_degrees = "(string, nat) hash_map"

definition add_dependency :: "string \<Rightarrow> string \<Rightarrow> adjacency \<times> in_degrees \<Rightarrow> adjacency \<times> in_degrees" where
  "add_dependency name dep = (\<lambda>(adj, degree).
     (hm_insert dep (or_default (map_of adj dep) @ [name]) adj,
      hm_insert name (case map_of degree name of Some d \<Rightarrow> Suc d | None \<Rightarrow> 1) degree))"

definition add_extension ::
  "string list \<Rightarrow> loaded_extension \<Rightarrow> adjacency \<times> in_degrees \<Rightarrow> adjacency \<times> in_degrees" where
  "add_extension known e = (\<lambda>(adj, degree).
     fold (add_dependency (ext_name e)) (filter (\<lambda>d. d \<in> set known) (ext_deps e))
       (adj, if map_of degree (ext_name e) = None then hm_insert (ext_name e) 0 degree else degree))"

definition dependency_graph :: "loaded_extension list \<Rightarrow> adjacency \<times> in_degrees" where
  "dependency_graph exts = fold (add_extension (known_names exts)) exts ([], [])"

section \<open>The order of loading\<close>

text \<open>A decrement below zero and a node without a degree are panics.\<close>

fun release_dependents :: "string list \<Rightarrow> in_degrees \<Rightarrow> string list \<Rightarrow> (string list \<times> in_degrees) may_panic" where
  "release_dependents [] degree ready = Some (ready, degree)"
| "release_dependents (dep # deps) degree ready =
     (case map_of degree dep of
        None \<Rightarrow> None
      | Some d \<Rightarrow>
          if d = 0 then None
          else release_dependents deps (hm_insert dep (d - 1) degree) (if d - 1 = 0 then ready @ [dep] else ready))"

definition total_degree :: "in_degrees \<Rightarrow> nat" where
  "total_degree degree = sum_list (hm_values degree)"

lemma total_degree_decrement:
  "map_of degree dep = Some d \<Longrightarrow> d \<noteq> 0 \<Longrightarrow> Suc (total_degree (hm_insert dep (d - 1) degree)) = total_degree degree"
  by (induction degree) (auto simp: total_degree_def split: if_splits)

lemma release_dependents_decreases:
  "release_dependents deps degree ready = Some (ready', degree') \<Longrightarrow>
     length ready' + total_degree degree' \<le> length ready + total_degree degree"
proof (induction deps arbitrary: degree ready)
  case (Cons dep deps)
  obtain d where d: "map_of degree dep = Some d" "d \<noteq> 0"
    and rest: "release_dependents deps (hm_insert dep (d - 1) degree) (if d - 1 = 0 then ready @ [dep] else ready)
      = Some (ready', degree')"
    using Cons.prems by (auto split: option.splits if_splits)
  have "Suc (total_degree (hm_insert dep (d - 1) degree)) = total_degree degree"
    by (rule total_degree_decrement [OF d])
  then show ?case
    using Cons.IH [OF rest] by (auto split: if_splits)
qed simp

function kahn_loop :: "adjacency \<Rightarrow> string list \<Rightarrow> in_degrees \<Rightarrow> string list \<Rightarrow> string list may_panic" where
  "kahn_loop adj [] degree order = Some order"
| "kahn_loop adj (node # queue) degree order =
     (case release_dependents (or_default (map_of adj node)) degree [] of
        None \<Rightarrow> None
      | Some (ready, degree1) \<Rightarrow> kahn_loop adj (queue @ sort ready) degree1 (order @ [node]))"
  by pat_completeness auto

termination
proof (relation "measure (\<lambda>(adj, queue, degree, order). length queue + total_degree degree)")
  fix adj :: adjacency and node queue degree order x ready degree1
  assume "release_dependents (or_default (map_of adj node)) degree [] = Some x" and "(ready, degree1) = x"
  then have "length ready + total_degree degree1 \<le> total_degree degree"
    using release_dependents_decreases by fastforce
  then show "((adj, queue @ sort ready, degree1, order @ [node]), adj, node # queue, degree, order)
      \<in> measure (\<lambda>(adj, queue, degree, order). length queue + total_degree degree)"
    by simp
qed simp

section \<open>Cycles\<close>

record dfs =
  df_visited :: "string list"
  df_on_stack :: "string list"
  df_path :: "string list"
  df_cycles :: "string list list"

definition dfs_enter :: "string \<Rightarrow> dfs \<Rightarrow> dfs" where
  "dfs_enter node s = s\<lparr>df_visited := List.insert node (df_visited s), df_on_stack := List.insert node (df_on_stack s),
     df_path := df_path s @ [node]\<rparr>"

definition dfs_leave :: "string \<Rightarrow> dfs \<Rightarrow> dfs" where
  "dfs_leave node s = s\<lparr>df_path := butlast (df_path s), df_on_stack := removeAll node (df_on_stack s)\<rparr>"

definition dfs_back_edge :: "string \<Rightarrow> dfs \<Rightarrow> dfs" where
  "dfs_back_edge next s =
     (if next \<in> set (df_path s)
      then s\<lparr>df_cycles := df_cycles s @ [dropWhile (\<lambda>n. n \<noteq> next) (df_path s) @ [next]]\<rparr> else s)"

text \<open>The loop over the neighbours of a node, with the recursive call for one that was not
  visited.\<close>

function (sequential) dfs_neighbors :: "adjacency \<Rightarrow> string list \<Rightarrow> dfs \<Rightarrow> dfs" where
  "dfs_neighbors adj [] s = s"
| "dfs_neighbors adj (next # ns) s =
     dfs_neighbors adj ns
       (if next \<notin> set (df_visited s)
        then dfs_leave next (dfs_neighbors adj (or_default (map_of adj next)) (dfs_enter next s))
        else if next \<in> set (df_on_stack s) then dfs_back_edge next s else s)"
  by pat_completeness auto

lemma dfs_visited_simps [simp]:
  "set (df_visited (dfs_enter node s)) = insert node (set (df_visited s))"
  "df_visited (dfs_leave node s) = df_visited s"
  "df_visited (dfs_back_edge node s) = df_visited s"
  by (simp_all add: dfs_enter_def dfs_leave_def dfs_back_edge_def)

lemma dfs_neighbors_visited_dom:
  "dfs_neighbors_dom (adj, ns, s) \<Longrightarrow> set (df_visited s) \<subseteq> set (df_visited (dfs_neighbors adj ns s))"
proof (induction rule: dfs_neighbors.pinduct)
  case (1 adj s)
  then show ?case by (simp add: dfs_neighbors.psimps)
next
  case (2 adj "next" ns s)
  then show ?case
    by (auto simp: dfs_neighbors.psimps split: if_splits)
qed

definition dfs_unvisited :: "adjacency \<Rightarrow> string list \<Rightarrow> dfs \<Rightarrow> nat" where
  "dfs_unvisited adj ns s = card ((set ns \<union> (\<Union>v \<in> set (hm_values adj). set v)) - set (df_visited s))"

lemma or_default_values: "set (or_default (map_of adj n)) \<subseteq> (\<Union>v \<in> set (hm_values adj). set v)"
  by (cases "map_of adj n") (force simp: or_default_def dest: map_of_SomeD)+

termination dfs_neighbors
proof (relation "measures [\<lambda>(adj, ns, s). dfs_unvisited adj ns s, \<lambda>(adj, ns, s). length ns]")
  fix adj :: adjacency and "next" ns and s :: dfs
  assume new: "next \<notin> set (df_visited s)"
  have "dfs_unvisited adj (or_default (map_of adj next)) (dfs_enter next s) < dfs_unvisited adj (next # ns) s"
    unfolding dfs_unvisited_def
    by (rule psubset_card_mono) (use new or_default_values [of adj "next"] in auto)
  then show "((adj, or_default (map_of adj next), dfs_enter next s), adj, next # ns, s)
      \<in> measures [\<lambda>(adj, ns, s). dfs_unvisited adj ns s, \<lambda>(adj, ns, s). length ns]"
    by simp
next
  fix adj :: adjacency and "next" ns and s :: dfs
  let ?s = "if next \<notin> set (df_visited s)
        then dfs_leave next (dfs_neighbors adj (or_default (map_of adj next)) (dfs_enter next s))
        else if next \<in> set (df_on_stack s) then dfs_back_edge next s else s"
  assume dom: "next \<notin> set (df_visited s) \<Longrightarrow> dfs_neighbors_dom (adj, or_default (map_of adj next), dfs_enter next s)"
  have "set (df_visited s) \<subseteq> set (df_visited ?s)"
    using dfs_neighbors_visited_dom [OF dom] by auto
  then have "dfs_unvisited adj ns ?s \<le> dfs_unvisited adj (next # ns) s"
    unfolding dfs_unvisited_def by (intro card_mono) auto
  then show "((adj, ns, ?s), adj, next # ns, s)
      \<in> measures [\<lambda>(adj, ns, s). dfs_unvisited adj ns s, \<lambda>(adj, ns, s). length ns]"
    by auto
qed simp

lemma dfs_neighbors_visited: "set (df_visited s) \<subseteq> set (df_visited (dfs_neighbors adj ns s))"
proof (induction adj ns s rule: dfs_neighbors.induct)
  case (2 adj "next" ns s)
  then show ?case
    by (auto split: if_splits)
qed simp

definition dfs_find_cycles :: "adjacency \<Rightarrow> string \<Rightarrow> dfs \<Rightarrow> dfs" where
  "dfs_find_cycles adj node s =
     dfs_leave node (dfs_neighbors adj (or_default (map_of adj node)) (dfs_enter node s))"

definition cycle_graph :: "loaded_extension list \<Rightarrow> string list \<Rightarrow> adjacency" where
  "cycle_graph exts involved =
     fold (\<lambda>e adj. if ext_name e \<in> set involved
        then hm_insert (ext_name e) (sort (filter (\<lambda>d. d \<in> set involved) (ext_deps e))) adj else adj) exts []"

definition find_cycles :: "loaded_extension list \<Rightarrow> string list \<Rightarrow> string list list" where
  "find_cycles exts involved =
     df_cycles (fold (\<lambda>node s. if node \<in> set (df_visited s) then s else dfs_find_cycles (cycle_graph exts involved) node s)
       (btree_set involved) \<lparr>df_visited = [], df_on_stack = [], df_path = [], df_cycles = []\<rparr>)"

section \<open>Validation\<close>

definition compute_topological_order :: "loaded_extension list \<Rightarrow> (string list \<times> string list list) may_panic" where
  "compute_topological_order exts =
     (let (adj, degree) = dependency_graph exts;
          seeds = sort (map fst (filter (\<lambda>(_, d). d = 0) degree))
      in case kahn_loop adj seeds degree [] of
           None \<Rightarrow> None
         | Some order \<Rightarrow>
             let remaining = filter (\<lambda>n. n \<notin> set order) (known_names exts);
                 cycles = (if remaining = [] then [] else find_cycles exts remaining)
             in Some (order @ sort remaining, cycles))"

definition topological_sort :: "loaded_extension list \<Rightarrow> string list may_panic" where
  "topological_sort exts = map_option fst (compute_topological_order exts)"

definition dependency_issues_of ::
  "('v, 'r) semver \<Rightarrow> (string, string) hash_map \<Rightarrow> loaded_extension \<Rightarrow> dependency_issue list" where
  "dependency_issues_of sv versions e =
     filter_map (\<lambda>(dep, req).
       case map_of versions dep of
         None \<Rightarrow> Some (IssueMissing (ext_name e) dep req)
       | Some actual \<Rightarrow>
           if version_matches sv req actual then None else Some (IssueVersionMismatch (ext_name e) dep req actual))
     (em_dependencies (le_manifest e))"

definition validate_dependencies :: "('v, 'r) semver \<Rightarrow> loaded_extension list \<Rightarrow> dependency_result may_panic" where
  "validate_dependencies sv exts =
     (let versions = fold (\<lambda>e. hm_insert (ext_name e) (em_version (le_manifest e))) exts [];
          issues = concat (map (dependency_issues_of sv versions) exts)
      in case compute_topological_order exts of
           None \<Rightarrow> None
         | Some (load_order, cycles) \<Rightarrow>
             let all_issues = issues @ map IssueCircular cycles
             in Some \<lparr>dr_valid = (all_issues = []), dr_issues = all_issues, dr_load_order = load_order\<rparr>)"

end
