(* ===== verification/Ext_Order.thy ===== *)
theory Ext_Order
  imports Ext_Dependency
begin

text \<open>
  Why the order of loading is right: what Kahn's algorithm keeps of the graph while it runs, which
  nodes it leaves behind, and why the search among these finds a cycle, and only cycles.
\<close>

section \<open>The graph as a list of edges\<close>

text \<open>An edge leads from a dependency to its dependent.\<close>

definition dependency_edges :: "loaded_extension list \<Rightarrow> (string \<times> string) list" where
  "dependency_edges exts =
     concat (map (\<lambda>e. map (\<lambda>d. (d, ext_name e)) (filter (\<lambda>d. d \<in> set (known_names exts)) (ext_deps e))) exts)"

definition depends_on :: "loaded_extension list \<Rightarrow> (string \<times> string) set" where
  "depends_on exts = {(n, d). \<exists>e \<in> set exts. ext_name e = n \<and> d \<in> set (ext_deps e) \<and> d \<in> ext_name ` set exts}"

lemma set_known_names [simp]: "set (known_names exts) = ext_name ` set exts"
  by (simp add: known_names_def)

lemma set_dependency_edges: "(d, n) \<in> set (dependency_edges exts) \<longleftrightarrow> (n, d) \<in> depends_on exts"
  by (auto simp: dependency_edges_def depends_on_def)

definition graph_of :: "(string \<times> string) list \<Rightarrow> string list \<Rightarrow> adjacency \<times> in_degrees \<Rightarrow> bool" where
  "graph_of es ns g \<longleftrightarrow>
     (\<forall>d. or_default (map_of (fst g) d) = map snd (filter (\<lambda>(a, b). a = d) es)) \<and>
     (\<forall>n. map_of (snd g) n = (if n \<in> set ns then Some (length (filter (\<lambda>(a, b). b = n) es)) else None)) \<and>
     distinct (hm_keys (snd g))"

lemma graph_of_dependency:
  assumes "graph_of es ns g" and "n \<in> set ns"
  shows "graph_of (es @ [(d, n)]) ns (add_dependency n d g)"
  using assms by (cases g) (auto simp: graph_of_def add_dependency_def or_default_def)

lemma graph_of_dependencies:
  "graph_of es ns g \<Longrightarrow> n \<in> set ns \<Longrightarrow> graph_of (es @ map (\<lambda>d. (d, n)) ds) ns (fold (add_dependency n) ds g)"
proof (induction ds arbitrary: es g)
  case (Cons d ds)
  from Cons.IH [OF graph_of_dependency [OF Cons.prems] Cons.prems(2)] show ?case
    by simp
qed simp

lemma graph_of_extension:
  assumes "graph_of es ns g" and "snd ` set es \<subseteq> set ns"
  shows "graph_of (es @ map (\<lambda>d. (d, ext_name e)) (filter (\<lambda>d. d \<in> set known) (ext_deps e))) (ns @ [ext_name e])
    (add_extension known e g)"
proof -
  have "graph_of es (ns @ [ext_name e])
    (fst g, if map_of (snd g) (ext_name e) = None then hm_insert (ext_name e) 0 (snd g) else snd g)"
    using assms by (fastforce simp: graph_of_def filter_empty_conv)
  from graph_of_dependencies [OF this, of "ext_name e"] show ?thesis
    by (simp add: add_extension_def case_prod_unfold)
qed

lemma graph_of_dependency_graph:
  "graph_of (dependency_edges exts) (map ext_name exts) (dependency_graph exts)"
proof -
  let ?known = "known_names exts"
  let ?edges = "\<lambda>xs. concat (map (\<lambda>e. map (\<lambda>d. (d, ext_name e)) (filter (\<lambda>d. d \<in> set ?known) (ext_deps e))) xs)"
  have "graph_of (?edges xs) (map ext_name xs) (fold (add_extension ?known) xs ([], []))" for xs
  proof (induction xs rule: rev_induct)
    case Nil
    then show ?case by (simp add: graph_of_def or_default_def)
  next
    case (snoc e xs)
    have "snd ` set (?edges xs) \<subseteq> set (map ext_name xs)"
      by auto
    from graph_of_extension [OF snoc this, of e ?known] show ?case
      by simp
  qed
  then show ?thesis
    by (simp add: dependency_graph_def dependency_edges_def)
qed

section \<open>Kahn's algorithm\<close>

lemma release_dependents_Some:
  assumes "\<And>n. n \<in> set deps \<Longrightarrow> \<exists>k. map_of degree n = Some k \<and> count_list deps n \<le> k"
    and "distinct (hm_keys degree)"
  shows "\<exists>rs degree'. release_dependents deps degree ready = Some (ready @ rs, degree') \<and> distinct rs \<and>
    set rs = {n \<in> set deps. map_of degree n = Some (count_list deps n)} \<and>
    (\<forall>n. map_of degree' n = map_option (\<lambda>k. k - count_list deps n) (map_of degree n)) \<and> distinct (hm_keys degree')"
  using assms
proof (induction deps arbitrary: degree ready)
  case Nil
  then show ?case
    by (auto simp: option.map_ident)
next
  case (Cons dep deps)
  obtain k where k: "map_of degree dep = Some k" "Suc (count_list deps dep) \<le> k"
    using Cons.prems(1) [of dep] by auto
  let ?degree = "hm_insert dep (k - 1) degree"
  define ready1 where "ready1 = (if k - 1 = 0 then [dep] else [])"
  have dom: "\<exists>j. map_of ?degree n = Some j \<and> count_list deps n \<le> j" if "n \<in> set deps" for n
    using that Cons.prems(1) [of n] k by (cases "n = dep") auto
  have keys: "distinct (hm_keys ?degree)"
    using Cons.prems(2) by simp
  obtain rs degree' where
    run: "release_dependents deps ?degree (ready @ ready1) = Some ((ready @ ready1) @ rs, degree')"
    and rs: "distinct rs" "set rs = {n \<in> set deps. map_of ?degree n = Some (count_list deps n)}"
    and degree': "\<forall>n. map_of degree' n = map_option (\<lambda>k. k - count_list deps n) (map_of ?degree n)" "distinct (hm_keys degree')"
    using Cons.IH [OF dom keys, of "ready @ ready1"] by blast
  have last: "dep \<notin> set deps" if "k = 1"
    using k that by (simp add: count_list_0_iff)
  have one: "k = 1 \<longleftrightarrow> ready1 = [dep]" "k \<noteq> 1 \<longleftrightarrow> ready1 = []"
    using k by (auto simp: ready1_def)
  have "release_dependents (dep # deps) degree ready = Some (ready @ (ready1 @ rs), degree')"
    using k run one by (cases "k = 1") auto
  moreover have "distinct (ready1 @ rs)"
    using rs last one by (cases "k = 1") auto
  moreover have "n \<in> set (ready1 @ rs) \<longleftrightarrow> n \<in> {n \<in> set (dep # deps). map_of degree n = Some (count_list (dep # deps) n)}" for n
    using rs(2) last one k by (cases "n = dep"; cases "k = 1") (auto simp: count_list_0_iff)
  then have "set (ready1 @ rs) = {n \<in> set (dep # deps). map_of degree n = Some (count_list (dep # deps) n)}"
    by blast
  moreover have "\<forall>n. map_of degree' n = map_option (\<lambda>k. k - count_list (dep # deps) n) (map_of degree n)"
    using degree'(1) k(1) by auto
  ultimately show ?case
    using degree'(2) by blast
qed

text \<open>The degrees count the dependencies that have not been emitted, the nodes of degree zero are
  those emitted or queued, and what was emitted comes after its dependencies.\<close>

definition topological :: "(string \<times> string) set \<Rightarrow> string list \<Rightarrow> bool" where
  "topological E order \<longleftrightarrow> (\<forall>xs x ys a. order = xs @ x # ys \<and> (a, x) \<in> E \<longrightarrow> a \<in> set xs)"

lemma topological_Nil [simp]: "topological E []"
  by (simp add: topological_def)

lemma topological_snoc:
  "topological E (order @ [n]) \<longleftrightarrow> topological E order \<and> (\<forall>a. (a, n) \<in> E \<longrightarrow> a \<in> set order)"
proof
  assume "topological E (order @ [n])"
  then show "topological E order \<and> (\<forall>a. (a, n) \<in> E \<longrightarrow> a \<in> set order)"
    unfolding topological_def by (metis append_Cons append_assoc)
next
  assume ok: "topological E order \<and> (\<forall>a. (a, n) \<in> E \<longrightarrow> a \<in> set order)"
  show "topological E (order @ [n])"
    unfolding topological_def
  proof (intro allI impI, elim conjE)
    fix xs x ys a
    assume split: "order @ [n] = xs @ x # ys" and edge: "(a, x) \<in> E"
    show "a \<in> set xs"
    proof (cases ys rule: rev_cases)
      case Nil
      then show ?thesis using ok split edge by auto
    next
      case (snoc ys' y)
      then have "order = xs @ x # ys'"
        using split by simp
      then show ?thesis
        using ok edge unfolding topological_def by blast
    qed
  qed
qed

definition pending :: "(string \<times> string) list \<Rightarrow> string list \<Rightarrow> string \<Rightarrow> nat" where
  "pending es order n = length (filter (\<lambda>(a, b). b = n \<and> a \<notin> set order) es)"

definition kahn_ok ::
  "(string \<times> string) list \<Rightarrow> string set \<Rightarrow> string list \<Rightarrow> in_degrees \<Rightarrow> string list \<Rightarrow> bool" where
  "kahn_ok es N queue degree order \<longleftrightarrow>
     (\<forall>n. map_of degree n = (if n \<in> N then Some (pending es order n) else None)) \<and> distinct (hm_keys degree) \<and>
     distinct (order @ queue) \<and> set (order @ queue) = {n \<in> N. pending es order n = 0} \<and> topological (set es) order"

lemma pending_0: "pending es order n = 0 \<longleftrightarrow> (\<forall>a. (a, n) \<in> set es \<longrightarrow> a \<in> set order)"
  by (auto simp: pending_def filter_empty_conv)

lemma pending_snoc:
  assumes "node \<notin> set order"
  shows "pending es order n = pending es (order @ [node]) n + count_list (map snd (filter (\<lambda>(a, b). a = node) es)) n"
  using assms by (induction es) (auto simp: pending_def)

lemma kahn_step:
  assumes ok: "kahn_ok es N (node # queue) degree order" and N: "snd ` set es \<subseteq> N"
    and adj: "or_default (map_of adj node) = map snd (filter (\<lambda>(a, b). a = node) es)"
  shows "\<exists>ready degree1. release_dependents (or_default (map_of adj node)) degree [] = Some (ready, degree1) \<and>
    kahn_ok es N (queue @ sort ready) degree1 (order @ [node])"
proof -
  let ?deps = "map snd (filter (\<lambda>(a, b). a = node) es)"
  have node: "node \<notin> set order" and deg: "\<And>n. map_of degree n = (if n \<in> N then Some (pending es order n) else None)"
    and zero: "set (order @ node # queue) = {n \<in> N. pending es order n = 0}"
    and dist: "distinct (hm_keys degree)" "distinct (order @ node # queue)" and topo: "topological (set es) order"
    using ok by (auto simp: kahn_ok_def)
  note split = pending_snoc [OF node, of es]
  have "\<exists>k. map_of degree n = Some k \<and> count_list ?deps n \<le> k" if "n \<in> set ?deps" for n
    using that N split [of n] by (force simp: deg)
  from release_dependents_Some [OF this dist(1), of "[]"] obtain ready degree1 where
    r: "release_dependents ?deps degree [] = Some (ready, degree1)" "distinct ready"
      "set ready = {n \<in> set ?deps. map_of degree n = Some (count_list ?deps n)}"
      "\<forall>n. map_of degree1 n = map_option (\<lambda>k. k - count_list ?deps n) (map_of degree n)" "distinct (hm_keys degree1)"
    by auto
  have ready: "set ready = {n \<in> N. pending es order n \<noteq> 0 \<and> pending es (order @ [node]) n = 0}"
  proof (intro equalityI subsetI)
    fix n assume "n \<in> set ready"
    then have n: "n \<in> set ?deps" "map_of degree n = Some (count_list ?deps n)"
      using r(3) by auto
    then have "count_list ?deps n \<noteq> 0"
      by (simp add: count_list_0_iff)
    with n(2) split [of n] show "n \<in> {n \<in> N. pending es order n \<noteq> 0 \<and> pending es (order @ [node]) n = 0}"
      by (auto simp: deg split: if_splits)
  next
    fix n assume "n \<in> {n \<in> N. pending es order n \<noteq> 0 \<and> pending es (order @ [node]) n = 0}"
    then have n: "n \<in> N" "count_list ?deps n = pending es order n" "count_list ?deps n \<noteq> 0"
      using split [of n] by auto
    then have "n \<in> set ?deps"
      by (metis count_list_0_iff)
    with n r(3) show "n \<in> set ready"
      by (simp add: deg)
  qed
  have "{n \<in> N. pending es (order @ [node]) n = 0} = {n \<in> N. pending es order n = 0} \<union> set ready"
    using ready split by auto
  moreover have "set ready \<inter> set (order @ node # queue) = {}"
    using ready zero by auto
  moreover have "topological (set es) (order @ [node])"
  proof -
    have "pending es order node = 0"
      using zero by auto
    then show ?thesis
      using topo by (simp add: topological_snoc pending_0)
  qed
  ultimately have "kahn_ok es N (queue @ sort ready) degree1 (order @ [node])"
    using dist(2) r(2,4,5) zero split by (auto simp: kahn_ok_def deg)
  then show ?thesis
    using r(1) by (simp add: adj)
qed

lemma kahn_loop_Some:
  assumes "kahn_ok es N queue degree order" and "snd ` set es \<subseteq> N"
    and "\<And>d. or_default (map_of adj d) = map snd (filter (\<lambda>(a, b). a = d) es)"
  shows "\<exists>order' degree'. kahn_loop adj queue degree order = Some order' \<and> kahn_ok es N [] degree' order'"
  using assms(1,3)
proof (induction adj queue degree order rule: kahn_loop.induct)
  case (2 adj' node queue degree order)
  obtain ready degree1 where "release_dependents (or_default (map_of adj' node)) degree [] = Some (ready, degree1)"
    "kahn_ok es N (queue @ sort ready) degree1 (order @ [node])"
    using kahn_step [OF "2.prems"(1) assms(2) "2.prems"(2)] by blast
  then show ?case
    using "2.IH" "2.prems"(2) by simp
qed auto

section \<open>What is left over\<close>

definition reaches_cycle :: "(string \<times> string) set \<Rightarrow> string \<Rightarrow> bool" where
  "reaches_cycle R n \<longleftrightarrow> (\<exists>c. (n, c) \<in> R\<^sup>* \<and> (c, c) \<in> R\<^sup>+)"

lemma acc_no_cycle: "n \<in> Wellfounded.acc (R\<inverse>) \<Longrightarrow> (n, n) \<notin> R\<^sup>+"
proof (erule acc_induct)
  fix n
  assume IH: "\<forall>d. (d, n) \<in> R\<inverse> \<longrightarrow> (d, d) \<notin> R\<^sup>+"
  show "(n, n) \<notin> R\<^sup>+"
  proof
    assume "(n, n) \<in> R\<^sup>+"
    then obtain d where d: "(n, d) \<in> R" "(d, n) \<in> R\<^sup>*"
      by (metis tranclD)
    then have "(d, d) \<in> R\<^sup>+"
      by (metis rtrancl_into_trancl1)
    with d(1) IH show False
      by blast
  qed
qed

lemma acc_reaches_no_cycle:
  assumes "n \<in> Wellfounded.acc (R\<inverse>)"
  shows "\<not> reaches_cycle R n"
proof
  assume "reaches_cycle R n"
  then obtain c where c: "(n, c) \<in> R\<^sup>*" "(c, c) \<in> R\<^sup>+"
    unfolding reaches_cycle_def by iprover
  have "(c, n) \<in> (R\<inverse>)\<^sup>*"
    using c(1) by (rule rtrancl_converseI)
  with assms have "c \<in> Wellfounded.acc (R\<inverse>)"
    by (rule acc_downwards)
  then show False
    by (rule notE [OF acc_no_cycle c(2)])
qed

lemma topological_acc: "topological (R\<inverse>) order \<Longrightarrow> set order \<subseteq> Wellfounded.acc (R\<inverse>)"
proof (induction order rule: rev_induct)
  case Nil
  show ?case by (simp only: list.set empty_subsetI)
next
  case (snoc m order)
  note split = iffD1 [OF topological_snoc snoc.prems]
  have old: "set order \<subseteq> Wellfounded.acc (R\<inverse>)"
    by (rule snoc.IH [OF conjunct1 [OF split]])
  have "m \<in> Wellfounded.acc (R\<inverse>)"
    by (rule accI, rule subsetD [OF old], erule conjunct2 [OF split, THEN spec, THEN mp])
  then show ?case
    using old by (simp only: set_append list.set Un_subset_iff insert_subset empty_subsetI simp_thms)
qed

lemma stuck_reaches_cycle:
  assumes "finite R" and "n \<in> S" and stuck: "\<And>m. m \<in> S \<Longrightarrow> \<exists>d \<in> S. (m, d) \<in> R"
  shows "reaches_cycle R n"
proof (rule ccontr)
  assume none: "\<not> reaches_cycle R n"
  let ?below = "{m. (n, m) \<in> R\<^sup>*}"
  let ?R = "R \<inter> ?below \<times> ?below"
  have "acyclic ?R"
  proof (rule acyclicI, intro allI notI)
    fix c assume c: "(c, c) \<in> ?R\<^sup>+"
    then have "(c, c) \<in> R\<^sup>+"
      by (rule trancl_mono) simp
    moreover have "(n, c) \<in> R\<^sup>*"
      using tranclD [OF c] by blast
    ultimately show False
      using none unfolding reaches_cycle_def by blast
  qed
  then have "wf (?R\<inverse>)"
    using assms(1) by (intro finite_acyclic_wf_converse) auto
  then obtain m where m: "m \<in> S \<inter> ?below" "\<And>d. (d, m) \<in> ?R\<inverse> \<Longrightarrow> d \<notin> S \<inter> ?below"
    using wfE_min [of "?R\<inverse>" n "S \<inter> ?below"] assms(2) by blast
  obtain d where d: "d \<in> S" "(m, d) \<in> R"
    using stuck m(1) by blast
  then have "d \<in> ?below"
    using m(1) by (auto intro: rtrancl_into_rtrancl)
  with d m show False
    by auto
qed

lemma topological_order_Some:
  obtains xs cycles where
    "compute_topological_order exts = Some (xs @ sorted_list_of_set {n \<in> ext_name ` set exts. reaches_cycle (depends_on exts) n}, cycles)"
    "distinct xs" "set xs = {n \<in> ext_name ` set exts. \<not> reaches_cycle (depends_on exts) n}"
    "topological ((depends_on exts)\<inverse>) xs"
    "cycles = (if {n \<in> ext_name ` set exts. reaches_cycle (depends_on exts) n} = {} then []
       else find_cycles exts (filter (\<lambda>n. n \<notin> set xs) (known_names exts)))"
proof -
  let ?es = "dependency_edges exts"
  let ?N = "ext_name ` set exts"
  let ?R = "depends_on exts"
  have es: "set ?es = ?R\<inverse>"
    by (auto simp: set_dependency_edges)
  obtain adj degree where g: "dependency_graph exts = (adj, degree)"
    by fastforce
  have graph: "graph_of ?es (map ext_name exts) (adj, degree)"
    using graph_of_dependency_graph [of exts] by (simp add: g)
  have N: "snd ` set ?es \<subseteq> ?N"
    by (auto simp: es depends_on_def)
  let ?seeds = "sort (map fst (filter (\<lambda>(_, d). d = 0) degree))"
  have deg: "map_of degree n = (if n \<in> ?N then Some (pending ?es [] n) else None)" for n
    using graph by (auto simp: graph_of_def pending_def)
  have keys: "distinct (hm_keys degree)"
    using graph by (simp add: graph_of_def)
  have "n \<in> set ?seeds \<longleftrightarrow> map_of degree n = Some 0" for n
    using keys by (force simp: map_of_eq_Some_iff)
  then have "n \<in> set ?seeds \<longleftrightarrow> n \<in> {n \<in> ?N. pending ?es [] n = 0}" for n
    unfolding deg by (simp del: set_sort)
  then have "set ?seeds = {n \<in> ?N. pending ?es [] n = 0}"
    by blast
  moreover have "distinct ?seeds"
    using keys by (simp add: distinct_map_filter)
  ultimately have "kahn_ok ?es ?N ?seeds degree []"
    using keys deg by (simp add: kahn_ok_def)
  then obtain order degree' where run: "kahn_loop adj ?seeds degree [] = Some order" and ok: "kahn_ok ?es ?N [] degree' order"
    using kahn_loop_Some [of ?es ?N ?seeds degree "[]" adj] N graph by (auto simp: graph_of_def)
  have topo: "topological (?R\<inverse>) order" and order: "set order = {n \<in> ?N. \<forall>d. (n, d) \<in> ?R \<longrightarrow> d \<in> set order}" and dist: "distinct order"
    using ok by (auto simp: kahn_ok_def es pending_0)
  have "finite (?R\<inverse>)"
    unfolding es [symmetric] by (rule List.finite_set)
  then have fin: "finite ?R"
    by (simp only: finite_converse)
  have left: "reaches_cycle ?R n" if "n \<in> ?N - set order" for n
  proof (rule stuck_reaches_cycle [OF fin that])
    fix m assume "m \<in> ?N - set order"
    then obtain d where "(m, d) \<in> ?R" "d \<notin> set order"
      using order by blast
    then show "\<exists>d \<in> ?N - set order. (m, d) \<in> ?R"
      by (auto simp: depends_on_def)
  qed
  have emitted: "\<not> reaches_cycle ?R n" if "n \<in> set order" for n
    using acc_reaches_no_cycle [OF subsetD [OF topological_acc [OF topo] that]] .
  have rest: "set (filter (\<lambda>n. n \<notin> set order) (known_names exts)) = {n \<in> ?N. reaches_cycle ?R n}"
    using left emitted by auto
  have sorted: "sort (filter (\<lambda>n. n \<notin> set order) (known_names exts)) = sorted_list_of_set {n \<in> ?N. reaches_cycle ?R n}"
    unfolding rest [symmetric] sorted_list_of_set_sort_remdups by (simp add: known_names_def distinct_remdups_id del: set_filter)
  show ?thesis
  proof (rule that)
    show "compute_topological_order exts = Some (order @ sorted_list_of_set {n \<in> ?N. reaches_cycle ?R n},
        if {n \<in> ?N. reaches_cycle ?R n} = {} then [] else find_cycles exts (filter (\<lambda>n. n \<notin> set order) (known_names exts)))"
      using rest by (simp add: compute_topological_order_def g run sorted Let_def flip: set_empty)
    show "set order = {n \<in> ?N. \<not> reaches_cycle ?R n}"
      using left emitted order by auto
  qed (use topo dist in simp_all)
qed

end
