(* ===== verification/Ext_Cycles.thy ===== *)
theory Ext_Cycles
  imports Ext_Order
begin

text \<open>
  What the depth-first search for cycles keeps: its path is a path of the graph, what it reports
  are cycles, and as long as it has reported none every node it has left leads to no cycle.
\<close>

definition successors :: "adjacency \<Rightarrow> string \<Rightarrow> string list" where
  "successors adj n = or_default (map_of adj n)"

definition chain :: "(string \<times> string) set \<Rightarrow> string list \<Rightarrow> bool" where
  "chain R p \<longleftrightarrow> (\<forall>xs a b ys. p = xs @ a # b # ys \<longrightarrow> (a, b) \<in> R)"

text \<open>A cycle starts and ends with the same node and has no other repetition.\<close>

definition closed_walk :: "(string \<times> string) set \<Rightarrow> string list \<Rightarrow> bool" where
  "closed_walk R c \<longleftrightarrow> (\<exists>p. p \<noteq> [] \<and> distinct p \<and> c = p @ [hd p] \<and> chain R c)"

definition successor_relation :: "adjacency \<Rightarrow> (string \<times> string) set" where
  "successor_relation adj = {(n, m). m \<in> set (successors adj n)}"

lemma chain_Nil [simp]: "chain R []"
  by (simp add: chain_def)

lemma chain_suffix: "chain R (xs @ ys) \<Longrightarrow> chain R ys"
  unfolding chain_def by (metis append.assoc)

lemma chain_prefix: "chain R (xs @ ys) \<Longrightarrow> chain R xs"
  unfolding chain_def by (metis append_Cons append_assoc)

lemma chain_snoc: "chain R p \<Longrightarrow> (p \<noteq> [] \<Longrightarrow> (last p, n) \<in> R) \<Longrightarrow> chain R (p @ [n])"
  unfolding chain_def
proof (intro allI impI)
  fix xs a b ys
  assume ok: "\<forall>xs a b ys. p = xs @ a # b # ys \<longrightarrow> (a, b) \<in> R" and l: "p \<noteq> [] \<Longrightarrow> (last p, n) \<in> R"
    and split: "p @ [n] = xs @ a # b # ys"
  show "(a, b) \<in> R"
  proof (cases ys rule: rev_cases)
    case Nil
    then have "p = xs @ [a]" "n = b"
      using split by (metis append_butlast_last_id butlast.simps(2) butlast_append last_ConsL last_ConsR last_append last_snoc butlast_snoc list.distinct(1))+
    then show ?thesis using l by simp
  next
    case (snoc ys' y)
    then have "p = xs @ a # b # ys'"
      using split by simp
    then show ?thesis using ok by blast
  qed
qed

lemma chain_trancl: "chain R (a # p) \<Longrightarrow> b \<in> set p \<Longrightarrow> (a, b) \<in> R\<^sup>+"
proof (induction p arbitrary: a)
  case (Cons c p)
  have "(a, c) \<in> R"
    using Cons.prems(1) unfolding chain_def by (metis append_Nil)
  moreover have "chain R (c # p)"
    using chain_suffix [of R "[a]" "c # p"] Cons.prems(1) by simp
  ultimately show ?case
    using Cons.IH [of c] Cons.prems(2) by (auto intro: trancl_into_trancl2)
qed simp

lemma closed_walk_trancl:
  assumes "closed_walk R c"
  shows "(hd c, hd c) \<in> R\<^sup>+"
proof -
  obtain a p where "c = (a # p) @ [a]" "chain R c"
    using assms unfolding closed_walk_def by (metis list.exhaust_sel list.sel(1))
  then show ?thesis
    using chain_trancl [of R a "p @ [a]" a] by simp
qed

section \<open>The invariant\<close>

text \<open>A node is acyclic_below when everything it leads to is.\<close>

inductive acyclic_below :: "adjacency \<Rightarrow> string \<Rightarrow> bool" for adj where
  acyclic_belowI: "(\<And>m. m \<in> set (successors adj n) \<Longrightarrow> acyclic_below adj m) \<Longrightarrow> acyclic_below adj n"

definition dfs_ok :: "adjacency \<Rightarrow> dfs \<Rightarrow> bool" where
  "dfs_ok adj s \<longleftrightarrow>
     set (df_on_stack s) = set (df_path s) \<and> distinct (df_path s) \<and> chain (successor_relation adj) (df_path s) \<and>
     set (df_path s) \<subseteq> set (df_visited s) \<and>
     (\<forall>c \<in> set (df_cycles s). closed_walk (successor_relation adj) c) \<and>
     (df_cycles s = [] \<longrightarrow> (\<forall>n \<in> set (df_visited s) - set (df_path s). acyclic_below adj n))"

lemma dfs_ok_enter:
  assumes "dfs_ok adj s" and "next \<notin> set (df_visited s)"
    and "df_path s \<noteq> [] \<Longrightarrow> next \<in> set (successors adj (last (df_path s)))"
  shows "dfs_ok adj (dfs_enter next s)"
  using assms by (auto simp: dfs_ok_def dfs_enter_def successor_relation_def intro!: chain_snoc)

lemma dfs_ok_leave:
  assumes "dfs_ok adj s" and "df_path s = p @ [node]"
    and "df_cycles s = [] \<Longrightarrow> acyclic_below adj node"
  shows "dfs_ok adj (dfs_leave node s)"
  using assms by (auto simp: dfs_ok_def dfs_leave_def dest: chain_prefix)

lemma dfs_ok_back_edge:
  assumes ok: "dfs_ok adj s" and on: "next \<in> set (df_on_stack s)"
    and edge: "next \<in> set (successors adj (last (df_path s)))"
  shows "dfs_ok adj (dfs_back_edge next s) \<and> df_cycles (dfs_back_edge next s) \<noteq> []"
proof -
  have "next \<in> set (df_path s)"
    using ok on by (auto simp: dfs_ok_def)
  then obtain xs ys where path: "df_path s = xs @ next # ys" "next \<notin> set xs"
    by (meson split_list_first)
  have drop: "dropWhile (\<lambda>n. n \<noteq> next) (df_path s) = next # ys"
    unfolding path(1) using path(2) by (subst dropWhile_append2) auto
  have "chain (successor_relation adj) ((next # ys) @ [next])"
    using ok edge path(1) by (intro chain_snoc) (auto simp: dfs_ok_def successor_relation_def dest: chain_suffix)
  then have "closed_walk (successor_relation adj) ((next # ys) @ [next])"
    unfolding closed_walk_def using ok path(1) by (intro exI [of _ "next # ys"]) (auto simp: dfs_ok_def)
  then show ?thesis
    using ok path(1) drop by (auto simp: dfs_ok_def dfs_back_edge_def)
qed

lemma dfs_cycles_simps [simp]:
  "df_cycles (dfs_enter n s) = df_cycles s" "df_cycles (dfs_leave n s) = df_cycles s"
  "df_path (dfs_enter n s) = df_path s @ [n]" "df_path (dfs_back_edge n s) = df_path s"
  by (simp_all add: dfs_enter_def dfs_leave_def dfs_back_edge_def)

lemma dfs_neighbors_ok:
  assumes "dfs_ok adj s" and "df_path s \<noteq> []" and "set ns \<subseteq> set (successors adj (last (df_path s)))"
  shows "dfs_ok adj (dfs_neighbors adj ns s) \<and> df_path (dfs_neighbors adj ns s) = df_path s \<and>
    (df_cycles (dfs_neighbors adj ns s) = [] \<longrightarrow> df_cycles s = [] \<and> (\<forall>n \<in> set ns. acyclic_below adj n))"
  using assms
proof (induction adj ns s rule: dfs_neighbors.induct)
  case (2 adj "next" ns s)
  have edge: "next \<in> set (successors adj (last (df_path s)))"
    using "2.prems"(3) by simp
  let ?s = "if next \<notin> set (df_visited s)
        then dfs_leave next (dfs_neighbors adj (or_default (map_of adj next)) (dfs_enter next s))
        else if next \<in> set (df_on_stack s) then dfs_back_edge next s else s"
  have "dfs_ok adj ?s \<and> df_path ?s = df_path s \<and> (df_cycles ?s = [] \<longrightarrow> df_cycles s = [] \<and> acyclic_below adj next)"
  proof (cases "next \<in> set (df_visited s)")
    case True
    show ?thesis
    proof (cases "next \<in> set (df_on_stack s)")
      case on: True
      then show ?thesis
        using dfs_ok_back_edge [OF "2.prems"(1) on edge] True by simp
    next
      case False
      then show ?thesis
        using True "2.prems"(1) by (auto simp: dfs_ok_def)
    qed
  next
    case False
    let ?t = "dfs_neighbors adj (or_default (map_of adj next)) (dfs_enter next s)"
    have "dfs_ok adj (dfs_enter next s)"
      using dfs_ok_enter [OF "2.prems"(1) False] edge by simp
    then have t: "dfs_ok adj ?t" "df_path ?t = df_path s @ [next]"
      "df_cycles ?t = [] \<Longrightarrow> df_cycles s = [] \<and> (\<forall>n \<in> set (successors adj next). acyclic_below adj n)"
      using "2.IH"(1) [OF False] by (simp_all add: successors_def)
    have acyclic_below: "acyclic_below adj next" if "df_cycles ?t = []"
      by (rule acyclic_belowI) (use t(3) [OF that] in blast)
    have "dfs_ok adj (dfs_leave next ?t)"
      by (rule dfs_ok_leave [OF t(1,2) acyclic_below])
    moreover have "df_path (dfs_leave next ?t) = df_path s"
      using t(2) by (simp add: dfs_leave_def)
    ultimately show ?thesis
      using False t(3) acyclic_below by simp
  qed
  then have s: "dfs_ok adj ?s" "df_path ?s = df_path s" "df_cycles ?s = [] \<Longrightarrow> df_cycles s = [] \<and> acyclic_below adj next"
    by blast+
  have "set ns \<subseteq> set (successors adj (last (df_path ?s)))"
    using s(2) "2.prems"(3) by simp
  from "2.IH"(2) [OF s(1) _ this] s(2,3) "2.prems"(2) show ?case
    by (simp only: dfs_neighbors.simps list.set) blast
qed simp

lemma dfs_find_cycles_ok:
  assumes "dfs_ok adj s" and "df_path s = []" and "node \<notin> set (df_visited s)"
  shows "dfs_ok adj (dfs_find_cycles adj node s) \<and> df_path (dfs_find_cycles adj node s) = [] \<and>
    insert node (set (df_visited s)) \<subseteq> set (df_visited (dfs_find_cycles adj node s))"
proof -
  let ?t = "dfs_neighbors adj (or_default (map_of adj node)) (dfs_enter node s)"
  have "dfs_ok adj (dfs_enter node s)"
    using dfs_ok_enter [OF assms(1,3)] assms(2) by simp
  then have t: "dfs_ok adj ?t" "df_path ?t = [] @ [node]"
    "df_cycles ?t = [] \<Longrightarrow> (\<forall>n \<in> set (successors adj node). acyclic_below adj n)"
    using dfs_neighbors_ok [of adj "dfs_enter node s" "or_default (map_of adj node)"] assms(2)
    by (simp_all add: successors_def)
  have "acyclic_below adj node" if "df_cycles ?t = []"
    by (rule acyclic_belowI) (use t(3) [OF that] in blast)
  from dfs_ok_leave [OF t(1,2) this] have "dfs_ok adj (dfs_leave node ?t)" .
  moreover have "set (df_visited (dfs_enter node s)) \<subseteq> set (df_visited ?t)"
    by (rule dfs_neighbors_visited)
  ultimately show ?thesis
    using t(2) by (auto simp: dfs_find_cycles_def dfs_leave_def)
qed

lemma find_cycles_ok:
  fixes exts involved
  defines "adj \<equiv> cycle_graph exts involved"
  shows "c \<in> set (find_cycles exts involved) \<Longrightarrow> closed_walk (successor_relation adj) c"
    and "find_cycles exts involved = [] \<Longrightarrow> n \<in> set involved \<Longrightarrow> acyclic_below adj n"
proof -
  let ?start = "\<lparr>df_visited = [], df_on_stack = [], df_path = [], df_cycles = []\<rparr>"
  define visit where "visit = (\<lambda>node s. if node \<in> set (df_visited s) then s else dfs_find_cycles adj node s)"
  have "dfs_ok adj s \<Longrightarrow> df_path s = [] \<Longrightarrow> dfs_ok adj (fold visit ns s) \<and> df_path (fold visit ns s) = [] \<and>
      set (df_visited s) \<union> set ns \<subseteq> set (df_visited (fold visit ns s))" for ns s
  proof (induction ns arbitrary: s)
    case (Cons n ns)
    have "dfs_ok adj (visit n s) \<and> df_path (visit n s) = [] \<and> insert n (set (df_visited s)) \<subseteq> set (df_visited (visit n s))"
      using dfs_find_cycles_ok [OF Cons.prems, of n] Cons.prems by (auto simp: visit_def)
    with Cons.IH [of "visit n s"] show ?case
      by (simp, blast)
  qed simp
  from this [of ?start "btree_set involved"] have fin: "dfs_ok adj (fold visit (btree_set involved) ?start)"
    "df_path (fold visit (btree_set involved) ?start) = []"
    "set involved \<subseteq> set (df_visited (fold visit (btree_set involved) ?start))"
    by (simp_all add: dfs_ok_def)
  have found: "find_cycles exts involved = df_cycles (fold visit (btree_set involved) ?start)"
    unfolding find_cycles_def visit_def adj_def ..
  show "closed_walk (successor_relation adj) c" if "c \<in> set (find_cycles exts involved)"
    using that fin(1) unfolding found by (simp add: dfs_ok_def)
  show "acyclic_below adj n" if "find_cycles exts involved = []" "n \<in> set involved"
    using that fin unfolding found by (auto simp: dfs_ok_def)
qed

section \<open>The cycles of the dependencies\<close>

lemma successors_cycle_graph:
  assumes "distinct (map ext_name exts)"
  shows "set (successors (cycle_graph exts involved) n) =
    {d. n \<in> set involved \<and> d \<in> set involved \<and> (\<exists>e \<in> set exts. ext_name e = n \<and> d \<in> set (ext_deps e))}"
proof -
  define add where "add = (\<lambda>e adj. if ext_name e \<in> set involved
        then hm_insert (ext_name e) (sort (filter (\<lambda>d. d \<in> set involved) (ext_deps e))) adj else adj)"
  have "distinct (map ext_name xs) \<Longrightarrow> set (successors (fold add xs []) n) =
    {d. n \<in> set involved \<and> d \<in> set involved \<and> (\<exists>e \<in> set xs. ext_name e = n \<and> d \<in> set (ext_deps e))}" for xs
  proof (induction xs rule: rev_induct)
    case Nil
    then show ?case by (simp add: successors_def or_default_def)
  next
    case (snoc e xs)
    then show ?case
      by (auto simp: successors_def or_default_def add_def image_iff)
  qed
  from this [OF assms] show ?thesis
    by (simp add: cycle_graph_def add_def)
qed

lemma find_cycles_of_remaining:
  assumes "distinct (map ext_name exts)" and "set involved = {n \<in> ext_name ` set exts. reaches_cycle (depends_on exts) n}"
  shows "c \<in> set (find_cycles exts involved) \<Longrightarrow> closed_walk (depends_on exts) c"
    and "involved \<noteq> [] \<Longrightarrow> find_cycles exts involved \<noteq> []"
proof -
  let ?adj = "cycle_graph exts involved"
  have sub: "successor_relation ?adj \<subseteq> depends_on exts"
    using assms(2) by (auto simp: successor_relation_def successors_cycle_graph [OF assms(1)] depends_on_def)
  then show "closed_walk (depends_on exts) c" if "c \<in> set (find_cycles exts involved)"
    using find_cycles_ok(1) [OF that] unfolding closed_walk_def chain_def by blast
  show "find_cycles exts involved \<noteq> []" if "involved \<noteq> []"
  proof
    assume "find_cycles exts involved = []"
    then have acyclic_below: "\<And>n. n \<in> set involved \<Longrightarrow> acyclic_below ?adj n"
      by (rule find_cycles_ok(2))
    have "False" if "acyclic_below ?adj n" "n \<in> set involved" for n
      using that
    proof (induction rule: acyclic_below.induct)
      case (acyclic_belowI n)
      obtain c where c: "(n, c) \<in> (depends_on exts)\<^sup>*" "(c, c) \<in> (depends_on exts)\<^sup>+"
        using acyclic_belowI.prems assms(2) by (auto simp: reaches_cycle_def)
      obtain d where d: "(n, d) \<in> depends_on exts" "(d, c) \<in> (depends_on exts)\<^sup>*"
        using c by (metis converse_rtranclE tranclD)
      then have "d \<in> set involved"
        using assms(2) c(2) by (auto simp: reaches_cycle_def depends_on_def)
      moreover have "d \<in> set (successors ?adj n)"
        using d(1) \<open>d \<in> set involved\<close> acyclic_belowI.prems by (auto simp: successors_cycle_graph [OF assms(1)] depends_on_def)
      ultimately show ?case
        using acyclic_belowI.IH by blast
    qed
    with acyclic_below show False
      using that by (metis list.set_intros(1) neq_Nil_conv)
  qed
qed

end
