(* ===== verification/Ext_Loader.thy ===== *)
theory Ext_Loader
  imports Ext_Manifest Ext_Cycles
begin

text \<open>
  Finding and loading extensions (\<open>crates/aionui-extension/src/loader.rs\<close>, \<open>load_and_validate\<close> and
  \<open>sort_by_load_order\<close> of \<open>registry_helpers.rs\<close>) and the analysis of their permissions
  (\<open>permission.rs\<close>). What the environment, the home directory and the disk hold is a parameter.
\<close>

section \<open>Where extensions are looked for\<close>

record scan_path =
  scp_path :: string
  scp_source :: ext_source

record ext_system =
  xs_home_dir :: "string option"
  xs_data_dir :: "string option"
  xs_canonicalize :: "string \<Rightarrow> string option"

definition extensions_dir_name :: string where
  "extensions_dir_name = ''extensions''"

definition extension_manifest_file :: string where
  "extension_manifest_file = ''aion-extension.json''"

text \<open>\<open>split_paths\<close> on Unix; paths are equal when their components are.\<close>

fun split_paths :: "string \<Rightarrow> string list" where
  "split_paths [] = [[]]"
| "split_paths (c # cs) =
     (if c = CHR '':'' then [] # split_paths cs
      else (case split_paths cs of s # ss \<Rightarrow> (c # s) # ss | [] \<Rightarrow> [[c]]))"

definition push_scan_path :: "ext_source \<Rightarrow> string \<Rightarrow> scan_path list \<Rightarrow> scan_path list" where
  "push_scan_path source path paths =
     (if path_components path \<in> (\<lambda>p. path_components (scp_path p)) ` set paths then paths
      else paths @ [\<lparr>scp_path = path, scp_source = source\<rparr>])"

definition derive_legacy_appdata_extensions_dir :: "ext_system \<Rightarrow> string \<Rightarrow> string option" where
  "derive_legacy_appdata_extensions_dir xs data_dir =
     (let resolved = (case xs_canonicalize xs data_dir of Some p \<Rightarrow> p | None \<Rightarrow> data_dir)
      in if path_file_name resolved \<noteq> Some ''aionui'' then None
         else map_option (\<lambda>parent. path_join parent extensions_dir_name) (path_parent resolved))"

definition push_scan_path_if :: "ext_source \<Rightarrow> string option \<Rightarrow> scan_path list \<Rightarrow> scan_path list" where
  "push_scan_path_if source path paths = (case path of Some p \<Rightarrow> push_scan_path source p paths | None \<Rightarrow> paths)"

definition resolve_scan_paths_inner :: "ext_system \<Rightarrow> string option \<Rightarrow> bool \<Rightarrow> string option \<Rightarrow> scan_path list" where
  "resolve_scan_paths_inner xs env_path e2e_mode data_dir =
     (let paths = (case env_path of
            Some p \<Rightarrow> fold (push_scan_path SourceEnv) (filter (\<lambda>q. q \<noteq> []) (split_paths p)) []
          | None \<Rightarrow> [])
      in if e2e_mode then paths
         else case data_dir of
             Some dir \<Rightarrow>
               push_scan_path_if SourceAppdata (derive_legacy_appdata_extensions_dir xs dir)
                 (push_scan_path SourceLocal (path_join dir extensions_dir_name) paths)
           | None \<Rightarrow>
               push_scan_path_if SourceAppdata
                 (map_option (\<lambda>d. path_join (path_join d ''aionui'') extensions_dir_name) (xs_data_dir xs))
                 (push_scan_path_if SourceLocal
                   (map_option (\<lambda>h. path_join (path_join h ''.aionui'') extensions_dir_name) (xs_home_dir xs)) paths))"

definition resolve_install_target_dir :: "ext_system \<Rightarrow> string option \<Rightarrow> bool \<Rightarrow> string \<Rightarrow> string" where
  "resolve_install_target_dir xs env_path e2e_mode data_dir =
     (case resolve_scan_paths_inner xs env_path e2e_mode (Some data_dir) of
        p # _ \<Rightarrow> scp_path p
      | [] \<Rightarrow> path_join data_dir extensions_dir_name)"

section \<open>Loading\<close>

text \<open>The entries of a directory with whether they are directories, and the bytes of a manifest.\<close>

record ext_disk =
  xd_entries :: "string \<Rightarrow> (string \<times> bool) list option"
  xd_read :: "string \<Rightarrow> string option"
  xd_tree :: file_tree

record ('v, 'r) ext_libs =
  xl_text :: text_lib
  xl_semver :: "('v, 'r) semver"
  xl_json :: json_lib

definition load_single_extension ::
  "('v, 'r) ext_libs \<Rightarrow> ext_disk \<Rightarrow> string \<Rightarrow> ext_source \<Rightarrow> ext_error + loaded_extension" where
  "load_single_extension xl disk ext_dir source =
     (case xd_read disk (path_join ext_dir extension_manifest_file) of
        None \<Rightarrow> Inl ExtIo
      | Some bytes \<Rightarrow>
          (case parse_manifest_inner (xl_text xl) (xl_semver xl) (xl_json xl) (xd_tree disk) bytes (Some ext_dir) of
             Inl e \<Rightarrow> Inl e
           | Inr manifest \<Rightarrow> Inr \<lparr>le_manifest = manifest, le_directory = ext_dir, le_source = source,
               le_state = \<lparr>es_name = em_name manifest, es_version = em_version manifest, es_enabled = True,
                 es_installed_at = None, es_last_activated_at = None\<rparr>\<rparr>))"

definition scan_directory :: "('v, 'r) ext_libs \<Rightarrow> ext_disk \<Rightarrow> scan_path \<Rightarrow> loaded_extension list" where
  "scan_directory xl disk sp =
     (case xd_entries disk (scp_path sp) of
        None \<Rightarrow> []
      | Some entries \<Rightarrow>
          filter_map (\<lambda>(path, is_dir).
            if \<not> is_dir then None
            else case load_single_extension xl disk path (scp_source sp) of Inr e \<Rightarrow> Some e | Inl _ \<Rightarrow> None) entries)"

definition add_loaded :: "loaded_extension \<Rightarrow> loaded_extension list \<Rightarrow> loaded_extension list" where
  "add_loaded e result = (if ext_name e \<in> ext_name ` set result then result else result @ [e])"

definition load_all :: "('v, 'r) ext_libs \<Rightarrow> ext_disk \<Rightarrow> scan_path list \<Rightarrow> loaded_extension list" where
  "load_all xl disk scan_paths = fold add_loaded (concat (map (scan_directory xl disk) scan_paths)) []"

definition extension_api_version :: string where
  "extension_api_version = ''1.0.0''"

definition is_engine_compatible :: "('v, 'r) semver \<Rightarrow> loaded_extension \<Rightarrow> 'v \<Rightarrow> bool" where
  "is_engine_compatible sv e app_version =
     (case em_engine (le_manifest e) of
        None \<Rightarrow> True
      | Some engine \<Rightarrow>
          (case ec_aionui engine of
             None \<Rightarrow> True
           | Some required \<Rightarrow>
               (case sv_req sv required of None \<Rightarrow> False | Some req \<Rightarrow> sv_matches sv req app_version)))"

definition is_api_version_compatible :: "('v, 'r) semver \<Rightarrow> loaded_extension \<Rightarrow> bool" where
  "is_api_version_compatible sv e =
     (case em_api_version (le_manifest e) of
        None \<Rightarrow> True
      | Some api_ver \<Rightarrow>
          (case sv_version sv api_ver of
             None \<Rightarrow> False
           | Some declared \<Rightarrow>
               (case sv_version sv extension_api_version of
                  None \<Rightarrow> True
                | Some supported \<Rightarrow> sv_major sv declared = sv_major sv supported \<and> sv_le sv declared supported)))"

definition filter_by_engine_compatibility ::
  "('v, 'r) semver \<Rightarrow> loaded_extension list \<Rightarrow> string \<Rightarrow> loaded_extension list" where
  "filter_by_engine_compatibility sv exts app_version =
     (case sv_version sv app_version of
        None \<Rightarrow> exts
      | Some app_ver \<Rightarrow> filter (\<lambda>e. is_engine_compatible sv e app_ver \<and> is_api_version_compatible sv e) exts)"

section \<open>The order of the registry\<close>

text \<open>A later extension of the same name replaces an earlier one in the map; what is not in the
  order follows by name.\<close>

definition sort_by_load_order :: "loaded_extension list \<Rightarrow> string list \<Rightarrow> loaded_extension list" where
  "sort_by_load_order exts load_order =
     (let by_name = fold (\<lambda>e. hm_insert (ext_name e) e) exts [];
          (sorted, rest) = foldl (\<lambda>(sorted, m) name. case map_of m name of
              Some e \<Rightarrow> (sorted @ [e], hm_remove name m)
            | None \<Rightarrow> (sorted, m)) ([], by_name) load_order
      in sorted @ sort_key ext_name (hm_values rest))"

definition load_and_validate ::
  "('v, 'r) ext_libs \<Rightarrow> ext_disk \<Rightarrow> scan_path list \<Rightarrow> string \<Rightarrow> (loaded_extension list \<times> dependency_result) may_panic" where
  "load_and_validate xl disk scan_paths app_version =
     (let filtered = filter_by_engine_compatibility (xl_semver xl) (load_all xl disk scan_paths) app_version
      in case validate_dependencies (xl_semver xl) filtered of
           None \<Rightarrow> None
         | Some dep_result \<Rightarrow> Some (sort_by_load_order filtered (dr_load_order dep_result), dep_result))"

section \<open>Permissions\<close>

definition calculate_risk_level :: "ext_permissions \<Rightarrow> risk_level" where
  "calculate_risk_level p =
     (if xp_shell p = Some True then RiskDangerous
      else if xp_filesystem p = Some FullScope then RiskDangerous
      else if xp_network p = Some (Unrestricted True) then RiskDangerous
      else if (case xp_network p of Some (Scoped _ _) \<Rightarrow> True | _ \<Rightarrow> False) then RiskModerate
      else if xp_filesystem p \<in> {Some WorkspaceScope, Some ExtensionOnly} then RiskModerate
      else RiskSafe)"

definition build_storage_detail :: "bool option \<Rightarrow> permission_detail" where
  "build_storage_detail storage =
     (if storage = Some True
      then \<lparr>pd_permission = ''storage'', pd_level = LevelFull, pd_description = ''Persistent key-value storage access''\<rparr>
      else \<lparr>pd_permission = ''storage'', pd_level = LevelNone, pd_description = ''No storage access''\<rparr>)"

definition build_network_detail :: "network_permission option \<Rightarrow> permission_detail" where
  "build_network_detail network =
     (case network of
        Some (Unrestricted True) \<Rightarrow>
          \<lparr>pd_permission = ''network'', pd_level = LevelFull, pd_description = ''Unrestricted network access''\<rparr>
      | Some (Scoped domains _) \<Rightarrow>
          \<lparr>pd_permission = ''network'', pd_level = LevelLimited,
            pd_description = ''Network access limited to: '' @ str_join '', '' domains\<rparr>
      | _ \<Rightarrow> \<lparr>pd_permission = ''network'', pd_level = LevelNone, pd_description = ''No network access''\<rparr>)"

definition build_shell_detail :: "bool option \<Rightarrow> permission_detail" where
  "build_shell_detail shell =
     (if shell = Some True
      then \<lparr>pd_permission = ''shell'', pd_level = LevelFull, pd_description = ''System command execution''\<rparr>
      else \<lparr>pd_permission = ''shell'', pd_level = LevelNone, pd_description = ''No shell access''\<rparr>)"

definition build_filesystem_detail :: "filesystem_scope option \<Rightarrow> permission_detail" where
  "build_filesystem_detail filesystem =
     (let detail = (\<lambda>level description.
        \<lparr>pd_permission = ''filesystem'', pd_level = level, pd_description = description\<rparr>)
      in case filesystem of
           Some FullScope \<Rightarrow> detail LevelFull ''Full filesystem access''
         | Some WorkspaceScope \<Rightarrow> detail LevelLimited ''Workspace directory access''
         | Some ExtensionOnly \<Rightarrow> detail LevelLimited ''Extension directory access only''
         | None \<Rightarrow> detail LevelNone ''No filesystem access'')"

definition build_bool_detail :: "string \<Rightarrow> bool option \<Rightarrow> string \<Rightarrow> permission_detail" where
  "build_bool_detail name val granted_desc =
     (if val = Some True then \<lparr>pd_permission = name, pd_level = LevelFull, pd_description = granted_desc\<rparr>
      else \<lparr>pd_permission = name, pd_level = LevelNone, pd_description = ''No '' @ name @ '' access''\<rparr>)"

definition build_details :: "ext_permissions \<Rightarrow> permission_detail list" where
  "build_details p =
     [build_storage_detail (xp_storage p), build_network_detail (xp_network p), build_shell_detail (xp_shell p),
      build_filesystem_detail (xp_filesystem p),
      build_bool_detail ''clipboard'' (xp_clipboard p) ''Clipboard read/write access'',
      build_bool_detail ''activeUser'' (xp_active_user p) ''Access to current user information'',
      build_bool_detail ''events'' (xp_events p) ''Extension event bus communication'']"

definition build_permission_summary :: "ext_permissions \<Rightarrow> permission_summary" where
  "build_permission_summary p =
     \<lparr>ps_permissions = p, ps_risk_level = calculate_risk_level p, ps_details = build_details p\<rparr>"

text \<open>The risk is read off the levels of the three permissions that carry one.\<close>

definition risky :: "permission_detail \<Rightarrow> bool" where
  "risky d \<longleftrightarrow> pd_permission d \<in> {''network'', ''shell'', ''filesystem''}"

lemma detail_permissions:
  "pd_permission (build_storage_detail a) = ''storage''" "pd_permission (build_network_detail b) = ''network''"
  "pd_permission (build_shell_detail c) = ''shell''" "pd_permission (build_filesystem_detail d) = ''filesystem''"
  "pd_permission (build_bool_detail n v g) = n"
  by (simp_all add: build_storage_detail_def build_network_detail_def build_shell_detail_def build_filesystem_detail_def
      build_bool_detail_def Let_def split: option.splits network_permission.splits filesystem_scope.splits bool.splits)

lemma risky_details:
  "filter risky (build_details p) =
     [build_network_detail (xp_network p), build_shell_detail (xp_shell p), build_filesystem_detail (xp_filesystem p)]"
  by (simp add: build_details_def risky_def detail_permissions)

lemma network_level:
  "pd_level (build_network_detail n) =
     (case n of Some (Unrestricted b) \<Rightarrow> if b then LevelFull else LevelNone | Some (Scoped _ _) \<Rightarrow> LevelLimited | None \<Rightarrow> LevelNone)"
  by (simp add: build_network_detail_def split: option.splits network_permission.splits bool.splits)

lemma shell_level: "pd_level (build_shell_detail s) = (if s = Some True then LevelFull else LevelNone)"
  by (simp add: build_shell_detail_def)

lemma filesystem_level:
  "pd_level (build_filesystem_detail f) =
     (case f of Some FullScope \<Rightarrow> LevelFull | Some _ \<Rightarrow> LevelLimited | None \<Rightarrow> LevelNone)"
  by (simp add: build_filesystem_detail_def Let_def split: option.splits filesystem_scope.splits)

lemma risk_of_details:
  "ps_risk_level (build_permission_summary p) =
     (let levels = map pd_level (filter risky (ps_details (build_permission_summary p)))
      in if LevelFull \<in> set levels then RiskDangerous else if LevelLimited \<in> set levels then RiskModerate else RiskSafe)"
proof (cases "xp_shell p = Some True \<or> xp_filesystem p = Some FullScope \<or> xp_network p = Some (Unrestricted True)")
  case True
  then show ?thesis
    by (auto simp: build_permission_summary_def calculate_risk_level_def risky_details network_level shell_level filesystem_level)
next
  case False
  then show ?thesis
    by (auto simp: build_permission_summary_def calculate_risk_level_def risky_details network_level shell_level
        filesystem_level split: option.splits network_permission.splits filesystem_scope.splits)
qed

end
