(* ===== verification/Ext_Registry.thy ===== *)
theory Ext_Registry
  imports Ext_Loader
begin

text \<open>
  The registry of extensions (\<open>crates/aionui-extension/src/registry.rs\<close>, \<open>registry_helpers.rs\<close>), its
  lifecycle hooks (\<open>lifecycle.rs\<close>) and the store of their states with its files (\<open>state.rs\<close>). The
  processes of the hooks and the bytes of the files are parameters; the contributions that the
  resolvers make of a manifest are left out.
\<close>

section \<open>Lifecycle hooks\<close>

datatype hook_kind = OnInstall | OnUninstall | OnActivate | OnDeactivate

fun hook_timeout_secs :: "hook_kind \<Rightarrow> nat" where
  "hook_timeout_secs OnInstall = 120"
| "hook_timeout_secs OnUninstall = 60"
| "hook_timeout_secs OnActivate = 30"
| "hook_timeout_secs OnDeactivate = 30"

fun hook_label :: "hook_kind \<Rightarrow> string" where
  "hook_label OnInstall = ''onInstall''"
| "hook_label OnUninstall = ''onUninstall''"
| "hook_label OnActivate = ''onActivate''"
| "hook_label OnDeactivate = ''onDeactivate''"

definition resolve_hook_path :: "lifecycle_hooks \<Rightarrow> hook_kind \<Rightarrow> string option" where
  "resolve_hook_path hooks kind =
     (case (case kind of
              OnInstall \<Rightarrow> lh_on_install hooks
            | OnUninstall \<Rightarrow> lh_on_uninstall hooks
            | OnActivate \<Rightarrow> lh_on_activate hooks
            | OnDeactivate \<Rightarrow> lh_on_deactivate hooks) of
        Some path \<Rightarrow> if path = [] then None else Some path
      | None \<Rightarrow> None)"

text \<open>What running a script ends with: the exit code is none after a signal.\<close>

datatype hook_outcome = HookElapsed | HookIoError string | HookExited bool "string option" string

record hook_system =
  hs_exists :: "string \<Rightarrow> bool"
  hs_run :: "string \<Rightarrow> hook_outcome"

definition execute_hook :: "hook_system \<Rightarrow> string \<Rightarrow> string \<Rightarrow> hook_kind \<Rightarrow> string \<Rightarrow> ext_error + unit" where
  "execute_hook hs ext_dir hook_path kind name =
     (let script = path_join ext_dir hook_path
      in if \<not> hs_exists hs script then Inl (HookNotFound script)
         else case hs_run hs script of
             HookElapsed \<Rightarrow> Inl (HookTimeout name (hook_label kind) (hook_timeout_secs kind))
           | HookIoError reason \<Rightarrow> Inl (HookFailed name (hook_label kind) reason)
           | HookExited success code stderr \<Rightarrow>
               if success then Inr ()
               else Inl (HookFailed name (hook_label kind)
                 (''exit code '' @ (case code of Some c \<Rightarrow> c | None \<Rightarrow> ''signal'') @ '': '' @ str_trim stderr)))"

definition needs_install_hook :: "string \<Rightarrow> string option \<Rightarrow> bool" where
  "needs_install_hook current_version persisted_version =
     (case persisted_version of None \<Rightarrow> True | Some prev \<Rightarrow> prev \<noteq> current_version)"

section \<open>The store of states\<close>

record persisted_extension =
  pe_enabled :: bool
  pe_installed :: "bool option"
  pe_last_version :: "string option"

record persisted_states =
  pst_version :: nat
  pst_extensions :: "(string, persisted_extension) btree_map"

record persisted_user_states =
  pus_version :: nat
  pus_users :: "(string, (string, bool) btree_map) btree_map"

text \<open>The JSON of serde: how values are written to and read from the bytes of a file.\<close>

record 'f state_codec =
  sc_print :: "persisted_states \<Rightarrow> 'f"
  sc_parse :: "'f \<Rightarrow> persisted_states option"
  sc_print_users :: "persisted_user_states \<Rightarrow> 'f"
  sc_parse_users :: "'f \<Rightarrow> persisted_user_states option"

datatype 'f state_file = FileMissing | FileUnreadable | FileBytes 'f

record 'f state_disk =
  sd_states :: "'f state_file"
  sd_users :: "'f state_file"

type_synonym user_states = "(string, (string, bool) hash_map) hash_map"

record ext_store =
  xt_states :: "(string, ext_state) hash_map"
  xt_user_states :: user_states
  xt_write_pending :: bool

definition system_default_user_id :: string where
  "system_default_user_id = ''system_default_user''"

definition load_states_from_file :: "'f state_codec \<Rightarrow> 'f state_file \<Rightarrow> ext_error + (string, ext_state) hash_map" where
  "load_states_from_file sc file =
     (case file of
        FileMissing \<Rightarrow> Inr []
      | FileUnreadable \<Rightarrow> Inl ExtIo
      | FileBytes bytes \<Rightarrow>
          (case sc_parse sc bytes of
             None \<Rightarrow> Inl ExtJson
           | Some persisted \<Rightarrow>
               if pst_version persisted \<noteq> 1 then Inl (StatePersistence ''unsupported extension state file version'')
               else Inr (map (\<lambda>(name, st). (name,
                 \<lparr>es_name = name, es_version = (case pe_last_version st of Some v \<Rightarrow> v | None \<Rightarrow> []),
                  es_enabled = pe_enabled st,
                  es_installed_at = (if pe_installed st = Some True then Some 0 else None),
                  es_last_activated_at = None\<rparr>)) (pst_extensions persisted))))"

definition load_user_states_from_file :: "'f state_codec \<Rightarrow> 'f state_file \<Rightarrow> ext_error + user_states" where
  "load_user_states_from_file sc file =
     (case file of
        FileMissing \<Rightarrow> Inr []
      | FileUnreadable \<Rightarrow> Inl ExtIo
      | FileBytes bytes \<Rightarrow>
          (case sc_parse_users sc bytes of
             None \<Rightarrow> Inl ExtJson
           | Some persisted \<Rightarrow>
               if pus_version persisted \<noteq> 1 then Inl (StatePersistence ''unsupported extension user state file version'')
               else Inr (pus_users persisted)))"

text \<open>A map collected into a \<open>BTreeMap\<close>.\<close>

definition bt_collect :: "('k::linorder, 'v) hash_map \<Rightarrow> ('k, 'v) btree_map" where
  "bt_collect m = fold (\<lambda>(k, v). bt_insert k v) m []"

definition persist_state :: "ext_state \<Rightarrow> persisted_extension" where
  "persist_state st = \<lparr>pe_enabled = es_enabled st, pe_installed = map_option (\<lambda>_. True) (es_installed_at st),
     pe_last_version = (if es_version st = [] then None else Some (es_version st))\<rparr>"

text \<open>A temporary file is renamed over the old one, so that a write that fails leaves the old one.\<close>

definition save_states_to_file ::
  "'f state_codec \<Rightarrow> bool \<Rightarrow> (string, ext_state) hash_map \<Rightarrow> 'f state_disk \<Rightarrow> (ext_error + unit) \<times> 'f state_disk" where
  "save_states_to_file sc io_ok states disk =
     (if io_ok then (Inr (), disk\<lparr>sd_states := FileBytes (sc_print sc
        \<lparr>pst_version = 1, pst_extensions = bt_collect (map (\<lambda>(name, st). (name, persist_state st)) states)\<rparr>)\<rparr>)
      else (Inl ExtIo, disk))"

definition save_user_states_to_file ::
  "'f state_codec \<Rightarrow> bool \<Rightarrow> user_states \<Rightarrow> 'f state_disk \<Rightarrow> (ext_error + unit) \<times> 'f state_disk" where
  "save_user_states_to_file sc io_ok states disk =
     (if io_ok then (Inr (), disk\<lparr>sd_users := FileBytes (sc_print_users sc
        \<lparr>pus_version = 1, pus_users = bt_collect (map (\<lambda>(user, m). (user, bt_collect m)) states)\<rparr>)\<rparr>)
      else (Inl ExtIo, disk))"

definition store_load :: "'f state_codec \<Rightarrow> 'f state_disk \<Rightarrow> ext_store \<Rightarrow> (ext_error + (string, ext_state) hash_map) \<times> ext_store" where
  "store_load sc disk store =
     (case load_states_from_file sc (sd_states disk) of
        Inl e \<Rightarrow> (Inl e, store)
      | Inr states \<Rightarrow>
          (case load_user_states_from_file sc (sd_users disk) of
             Inl e \<Rightarrow> (Inl e, store)
           | Inr user_states \<Rightarrow>
               let users1 = (if map_of user_states system_default_user_id = None
                     then hm_insert system_default_user_id (map (\<lambda>(name, st). (name, es_enabled st)) states) user_states
                     else user_states)
               in (Inr states, store\<lparr>xt_states := states, xt_user_states := users1\<rparr>)))"

definition get_user_enabled_all :: "string \<Rightarrow> ext_store \<Rightarrow> (string, bool) hash_map" where
  "get_user_enabled_all user store = or_default (map_of (xt_user_states store) user)"

definition get_user_enabled :: "string \<Rightarrow> string \<Rightarrow> ext_store \<Rightarrow> bool option" where
  "get_user_enabled user name store =
     (case map_of (xt_user_states store) user of Some states \<Rightarrow> map_of states name | None \<Rightarrow> None)"

definition store_set :: "ext_state \<Rightarrow> ext_store \<Rightarrow> ext_store" where
  "store_set st store = store\<lparr>xt_states := hm_insert (es_name st) st (xt_states store), xt_write_pending := True\<rparr>"

definition store_set_all :: "(string, ext_state) hash_map \<Rightarrow> ext_store \<Rightarrow> ext_store" where
  "store_set_all states store = store\<lparr>xt_states := states, xt_write_pending := True\<rparr>"

definition set_user_enabled :: "string \<Rightarrow> string \<Rightarrow> bool \<Rightarrow> ext_store \<Rightarrow> ext_store" where
  "set_user_enabled user name enabled store = store\<lparr>
     xt_user_states := hm_insert user (hm_insert name enabled (or_default (map_of (xt_user_states store) user)))
       (xt_user_states store),
     xt_write_pending := True\<rparr>"

definition store_remove :: "string \<Rightarrow> ext_store \<Rightarrow> ext_store" where
  "store_remove name store = store\<lparr>xt_states := hm_remove name (xt_states store), xt_write_pending := True\<rparr>"

definition store_flush ::
  "'f state_codec \<Rightarrow> bool \<times> bool \<Rightarrow> ext_store \<Rightarrow> 'f state_disk \<Rightarrow> (ext_error + unit) \<times> 'f state_disk" where
  "store_flush sc io store disk =
     (case save_states_to_file sc (fst io) (xt_states store) disk of
        (Inl e, disk1) \<Rightarrow> (Inl e, disk1)
      | (Inr _, disk1) \<Rightarrow> save_user_states_to_file sc (snd io) (xt_user_states store) disk1)"

text \<open>One turn of the background writer: it takes the notification and writes what it finds.\<close>

definition writer_step :: "'f state_codec \<Rightarrow> bool \<times> bool \<Rightarrow> ext_store \<times> 'f state_disk \<Rightarrow> ext_store \<times> 'f state_disk" where
  "writer_step sc io = (\<lambda>(store, disk).
     if xt_write_pending store
     then (store\<lparr>xt_write_pending := False\<rparr>, snd (store_flush sc io store disk)) else (store, disk))"

section \<open>The registry\<close>

datatype ext_event = EventStateChanged string string bool | EventLifecycle string ext_system_event timestamp_ms

text \<open>The events that were broadcast and the hooks that were run are kept in order.\<close>

record ext_registry =
  xr_extensions :: "loaded_extension list"
  xr_scan_paths :: "scan_path list"
  xr_initialized :: bool
  xr_store :: ext_store
  xr_events :: "ext_event list"
  xr_hooks :: "(string \<times> hook_kind \<times> (ext_error + unit)) list"

record ext_env =
  xe_disk :: ext_disk
  xe_hooks :: hook_system
  xe_now :: timestamp_ms

definition merge_persisted_states ::
  "loaded_extension list \<Rightarrow> (string, ext_state) hash_map \<Rightarrow> loaded_extension list" where
  "merge_persisted_states exts persisted =
     map (\<lambda>e. case map_of persisted (ext_name e) of
         Some saved \<Rightarrow> e\<lparr>le_state := (le_state e)\<lparr>es_enabled := es_enabled saved,
           es_installed_at := es_installed_at saved, es_last_activated_at := es_last_activated_at saved\<rparr>\<rparr>
       | None \<Rightarrow> e) exts"

definition build_state_map :: "loaded_extension list \<Rightarrow> (string, ext_state) hash_map" where
  "build_state_map exts = fold (\<lambda>e. hm_insert (es_name (le_state e)) (le_state e)) exts []"

type_synonym hook_call = "string \<times> hook_kind \<times> (ext_error + unit)"

text \<open>A hook that fails is logged and nothing else.\<close>

definition call_hook :: "hook_system \<Rightarrow> loaded_extension \<Rightarrow> lifecycle_hooks \<Rightarrow> hook_kind \<Rightarrow> hook_call list" where
  "call_hook hs e hooks kind =
     (case resolve_hook_path hooks kind of
        None \<Rightarrow> []
      | Some path \<Rightarrow> [(ext_name e, kind, execute_hook hs (le_directory e) path kind (ext_name e))])"

definition hooks_of_extension ::
  "hook_system \<Rightarrow> (string, ext_state) hash_map \<Rightarrow> loaded_extension \<Rightarrow> hook_call list" where
  "hooks_of_extension hs persisted e =
     (case em_lifecycle (le_manifest e) of
        None \<Rightarrow> []
      | Some hooks \<Rightarrow>
          (if needs_install_hook (em_version (le_manifest e)) (map_option es_version (map_of persisted (ext_name e)))
           then call_hook hs e hooks OnInstall else []) @
          call_hook hs e hooks OnActivate)"

definition activate_extension :: "timestamp_ms \<Rightarrow> loaded_extension \<Rightarrow> loaded_extension" where
  "activate_extension now e =
     (if \<not> es_enabled (le_state e) then e
      else e\<lparr>le_state := (le_state e)\<lparr>es_last_activated_at := Some now,
        es_installed_at := (case es_installed_at (le_state e) of None \<Rightarrow> Some now | Some t \<Rightarrow> Some t)\<rparr>\<rparr>)"

definition run_activation_hooks ::
  "hook_system \<Rightarrow> timestamp_ms \<Rightarrow> (string, ext_state) hash_map \<Rightarrow> loaded_extension list \<Rightarrow> ext_registry \<Rightarrow>
     loaded_extension list \<times> ext_registry" where
  "run_activation_hooks hs now persisted exts r =
     (let enabled = filter (\<lambda>e. es_enabled (le_state e)) exts
      in (map (activate_extension now) exts,
          r\<lparr>xr_hooks := xr_hooks r @ concat (map (hooks_of_extension hs persisted) enabled),
            xr_events := xr_events r @ map (\<lambda>e. EventLifecycle (ext_name e) ExtensionActivated now) enabled\<rparr>))"

definition run_deactivation_hooks :: "hook_system \<Rightarrow> loaded_extension list \<Rightarrow> hook_call list" where
  "run_deactivation_hooks hs exts =
     concat (map (\<lambda>e.
       if \<not> es_enabled (le_state e) then []
       else case em_lifecycle (le_manifest e) of
           None \<Rightarrow> []
         | Some hooks \<Rightarrow> call_hook hs e hooks OnDeactivate) exts)"

definition initialize_with_scan_paths ::
  "('v, 'r) ext_libs \<Rightarrow> 'f state_codec \<Rightarrow> string \<Rightarrow> ext_env \<Rightarrow> 'f state_disk \<Rightarrow> scan_path list \<Rightarrow> ext_registry \<Rightarrow>
     ((ext_error + unit) \<times> ext_registry) may_panic" where
  "initialize_with_scan_paths xl sc app_version ev disk scan_paths r =
     (case load_and_validate xl (xe_disk ev) scan_paths app_version of
        None \<Rightarrow> None
      | Some (exts, _) \<Rightarrow>
          (case store_load sc disk (xr_store r) of
             (Inl e, store) \<Rightarrow> Some (Inl e, r\<lparr>xr_store := store\<rparr>)
           | (Inr persisted, store) \<Rightarrow>
               let (exts1, r1) = run_activation_hooks (xe_hooks ev) (xe_now ev) persisted (merge_persisted_states exts persisted)
                     (r\<lparr>xr_store := store\<rparr>)
               in Some (Inr (), r1\<lparr>xr_store := store_set_all (build_state_map exts1) (xr_store r1),
                    xr_extensions := exts1, xr_scan_paths := scan_paths, xr_initialized := True\<rparr>)))"

definition hot_reload ::
  "('v, 'r) ext_libs \<Rightarrow> string \<Rightarrow> ext_env \<Rightarrow> ext_registry \<Rightarrow> ext_registry may_panic" where
  "hot_reload xl app_version ev r =
     (let r0 = r\<lparr>xr_hooks := xr_hooks r @ run_deactivation_hooks (xe_hooks ev) (xr_extensions r)\<rparr>
      in case load_and_validate xl (xe_disk ev) (xr_scan_paths r) app_version of
           None \<Rightarrow> None
         | Some (exts, _) \<Rightarrow>
             let persisted = xt_states (xr_store r0);
                 (exts1, r1) = run_activation_hooks (xe_hooks ev) (xe_now ev) persisted (merge_persisted_states exts persisted) r0
             in Some (r1\<lparr>xr_store := store_set_all (build_state_map exts1) (xr_store r1), xr_extensions := exts1,
                  xr_events := xr_events r1 @ [EventLifecycle ''registry'' RegistryReloaded (xe_now ev)]\<rparr>))"

definition require_installed :: "string \<Rightarrow> ext_registry \<Rightarrow> ext_error + unit" where
  "require_installed name r =
     (if list_ex (\<lambda>e. ext_name e = name) (xr_extensions r) then Inr () else Inl (ExtensionNotFound name))"

definition extension_enabled_for_user :: "string \<Rightarrow> string \<Rightarrow> ext_registry \<Rightarrow> bool" where
  "extension_enabled_for_user user name r =
     (case get_user_enabled user name (xr_store r) of
        Some enabled \<Rightarrow> enabled
      | None \<Rightarrow>
          if user \<noteq> system_default_user_id then True
          else case find (\<lambda>e. ext_name e = name) (xr_extensions r) of
              None \<Rightarrow> True
            | Some e \<Rightarrow> es_enabled (le_state e))"

definition set_extension_for_user :: "bool \<Rightarrow> string \<Rightarrow> string \<Rightarrow> ext_registry \<Rightarrow> (ext_error + unit) \<times> ext_registry" where
  "set_extension_for_user enabled user name r =
     (case require_installed name r of
        Inl e \<Rightarrow> (Inl e, r)
      | Inr _ \<Rightarrow>
          if extension_enabled_for_user user name r = enabled then (Inr (), r)
          else (Inr (), r\<lparr>xr_store := set_user_enabled user name enabled (xr_store r),
            xr_events := xr_events r @ [EventStateChanged user name enabled]\<rparr>))"

definition enable_extension_for_user :: "string \<Rightarrow> string \<Rightarrow> ext_registry \<Rightarrow> (ext_error + unit) \<times> ext_registry" where
  "enable_extension_for_user = set_extension_for_user True"

definition disable_extension_for_user :: "string \<Rightarrow> string \<Rightarrow> ext_registry \<Rightarrow> (ext_error + unit) \<times> ext_registry" where
  "disable_extension_for_user = set_extension_for_user False"

definition enable_extension :: "string \<Rightarrow> ext_registry \<Rightarrow> (ext_error + unit) \<times> ext_registry" where
  "enable_extension = enable_extension_for_user system_default_user_id"

definition disable_extension :: "string \<Rightarrow> ext_registry \<Rightarrow> (ext_error + unit) \<times> ext_registry" where
  "disable_extension = disable_extension_for_user system_default_user_id"

definition extensions_for_user :: "string \<Rightarrow> ext_registry \<Rightarrow> loaded_extension list" where
  "extensions_for_user user r =
     (let overrides = get_user_enabled_all user (xr_store r)
      in map (\<lambda>e. e\<lparr>le_state := (le_state e)\<lparr>es_enabled := (case map_of overrides (ext_name e) of
            Some enabled \<Rightarrow> enabled
          | None \<Rightarrow> user \<noteq> system_default_user_id \<or> es_enabled (le_state e))\<rparr>\<rparr>) (xr_extensions r))"

record extension_summary =
  xm_name :: string
  xm_version :: string
  xm_display_name :: "string option"
  xm_description :: "string option"
  xm_enabled :: bool
  xm_source :: ext_source

definition to_summary :: "loaded_extension \<Rightarrow> extension_summary" where
  "to_summary e = \<lparr>xm_name = ext_name e, xm_version = em_version (le_manifest e),
     xm_display_name = em_display_name (le_manifest e), xm_description = em_description (le_manifest e),
     xm_enabled = es_enabled (le_state e), xm_source = le_source e\<rparr>"

definition get_loaded_extensions_for_user :: "string \<Rightarrow> ext_registry \<Rightarrow> extension_summary list" where
  "get_loaded_extensions_for_user user r = map to_summary (extensions_for_user user r)"

definition get_extension_by_name :: "string \<Rightarrow> ext_registry \<Rightarrow> loaded_extension option" where
  "get_extension_by_name name r = find (\<lambda>e. ext_name e = name) (xr_extensions r)"

definition get_extension_by_name_for_user :: "string \<Rightarrow> string \<Rightarrow> ext_registry \<Rightarrow> loaded_extension option" where
  "get_extension_by_name_for_user user name r = find (\<lambda>e. ext_name e = name) (extensions_for_user user r)"

definition ext_registry_new :: ext_registry where
  "ext_registry_new = \<lparr>xr_extensions = [], xr_scan_paths = [], xr_initialized = False,
     xr_store = \<lparr>xt_states = [], xt_user_states = [], xt_write_pending = False\<rparr>, xr_events = [], xr_hooks = []\<rparr>"

end
