(* ===== verification/Ext_Facts.thy ===== *)
theory Ext_Facts
  imports Ext_Registry
begin

text \<open>
  What loading and the registry keep: loaded extensions have distinct names and are listed in the
  order of their dependencies, the maps of states say what the extensions say, and a choice of a
  user stays in memory or on the disk.
\<close>

section \<open>Loading\<close>

lemma set_fold_add_loaded:
  "set (fold add_loaded es acc) \<subseteq> set acc \<union> set es"
proof (induction es arbitrary: acc)
  case (Cons e es)
  have "set (add_loaded e acc) \<subseteq> insert e (set acc)"
    by (auto simp: add_loaded_def)
  with Cons [of "add_loaded e acc"] show ?case
    by auto
qed simp

lemma distinct_fold_add_loaded:
  "distinct (map ext_name acc) \<Longrightarrow> distinct (map ext_name (fold add_loaded es acc))"
  by (induction es arbitrary: acc) (auto simp: add_loaded_def)

lemma load_all_distinct: "distinct (map ext_name (load_all xl disk sps))"
  unfolding load_all_def by (rule distinct_fold_add_loaded) simp

definition fresh_state :: "loaded_extension \<Rightarrow> bool" where
  "fresh_state e \<longleftrightarrow> es_name (le_state e) = ext_name e \<and> es_version (le_state e) = em_version (le_manifest e)"

lemma load_single_fresh: "load_single_extension xl disk path source = Inr e \<Longrightarrow> fresh_state e"
  by (auto simp: load_single_extension_def fresh_state_def split: option.splits sum.splits)

lemma scan_directory_fresh:
  assumes "e \<in> set (scan_directory xl disk sp)"
  shows "fresh_state e"
proof -
  obtain path where "load_single_extension xl disk path (scp_source sp) = Inr e"
    using assms unfolding scan_directory_def
    by (cases "xd_entries disk (scp_path sp)") (auto split: if_splits sum.splits)
  then show ?thesis
    by (rule load_single_fresh)
qed

lemma load_all_fresh: "e \<in> set (load_all xl disk sps) \<Longrightarrow> fresh_state e"
  unfolding load_all_def using set_fold_add_loaded [of "concat (map (scan_directory xl disk) sps)" "[]"]
  by (auto intro: scan_directory_fresh)

definition loaded :: "('v, 'r) ext_libs \<Rightarrow> ext_disk \<Rightarrow> scan_path list \<Rightarrow> string \<Rightarrow> loaded_extension list" where
  "loaded xl disk sps app_version =
     filter_by_engine_compatibility (xl_semver xl) (load_all xl disk sps) app_version"

lemma loaded_distinct: "distinct (map ext_name (loaded xl disk sps v))"
  unfolding loaded_def filter_by_engine_compatibility_def
  by (auto intro: load_all_distinct distinct_map_filter split: option.splits)

lemma loaded_fresh: "e \<in> set (loaded xl disk sps v) \<Longrightarrow> fresh_state e"
  unfolding loaded_def filter_by_engine_compatibility_def by (auto intro: load_all_fresh split: option.splits)

section \<open>The listed order\<close>

lemma find_name_None: "n \<notin> ext_name ` set exts \<Longrightarrow> find (\<lambda>e. ext_name e = n) exts = None"
  by (induction exts) auto

lemma find_snoc: "find P (xs @ [x]) = (case find P xs of Some y \<Rightarrow> Some y | None \<Rightarrow> if P x then Some x else None)"
  by (induction xs) auto

lemma map_of_by_name:
  assumes "distinct (map ext_name exts)"
  shows "map_of (fold (\<lambda>e. hm_insert (ext_name e) (f e)) exts []) n =
    map_option f (find (\<lambda>e. ext_name e = n) exts)"
  using assms
proof (induction exts rule: rev_induct)
  case (snoc e exts)
  have "find (\<lambda>e. ext_name e = n) exts = None" if "n = ext_name e"
    using snoc.prems that by (intro find_name_None) auto
  then show ?case
    using snoc by (auto simp: find_snoc split: option.splits)
qed simp

lemma find_in: "find P xs = Some x \<Longrightarrow> x \<in> set xs \<and> P x"
  by (induction xs) (auto split: if_splits)

lemma find_name:
  "distinct (map ext_name exts) \<Longrightarrow> e \<in> set exts \<Longrightarrow> find (\<lambda>x. ext_name x = ext_name e) exts = Some e"
  by (induction exts) (auto simp: image_iff)

lemma sorted_prefix:
  assumes "distinct lo"
  shows "foldl (\<lambda>(sorted, m) name. case map_of m name of Some e \<Rightarrow> (sorted @ [e], hm_remove name m) | None \<Rightarrow> (sorted, m))
      (acc, m) lo = (acc @ filter_map (map_of m) lo, fold hm_remove lo m)"
  using assms
proof (induction lo arbitrary: acc m)
  case (Cons n lo)
  have "filter_map (map_of (hm_remove n m)) lo = filter_map (map_of m) lo"
    using Cons.prems by (auto simp: filter_map_def intro!: arg_cong2 [of _ _ _ _ "\<lambda>f. concat"] map_cong)
  moreover have "hm_remove n m = m" if "map_of m n = None"
    using that by (simp add: delete_id map_of_eq_None_iff)
  ultimately show ?case
    using Cons by (auto split: option.splits)
qed simp

lemma map_of_all_None:
  assumes "\<And>n. map_of m n = None"
  shows "m = []"
proof (cases m)
  case (Cons kv m')
  then show ?thesis
    using assms [of "fst kv"] by (cases kv) simp
qed simp

lemma map_of_fold_remove: "map_of (fold hm_remove lo m) n = (if n \<in> set lo then None else map_of m n)"
  by (induction lo arbitrary: m) auto

lemma sort_by_load_order_permutation:
  assumes exts: "distinct (map ext_name exts)" and lo: "distinct lo" "set lo = ext_name ` set exts"
  shows "map ext_name (sort_by_load_order exts lo) = lo" and "set (sort_by_load_order exts lo) = set exts"
proof -
  let ?m = "fold (\<lambda>e. hm_insert (ext_name e) e) exts []"
  have m: "map_of ?m n = find (\<lambda>e. ext_name e = n) exts" for n
    using map_of_by_name [OF exts, of "\<lambda>e. e" n] by (simp add: option.map_ident)
  have "map_of (fold hm_remove lo ?m) n = None" for n
  proof (cases "n \<in> set lo")
    case False
    then have "find (\<lambda>e. ext_name e = n) exts = None"
      using lo(2) by (intro find_name_None) simp
    then show ?thesis
      by (simp add: map_of_fold_remove m)
  qed (simp add: map_of_fold_remove)
  then have empty: "fold hm_remove lo ?m = []"
    by (rule map_of_all_None)
  have sorted: "sort_by_load_order exts lo = filter_map (map_of ?m) lo"
    unfolding sort_by_load_order_def by (simp add: Let_def sorted_prefix [OF lo(1)] empty)
  have "\<exists>e. map_of ?m n = Some e \<and> ext_name e = n" if n: "n \<in> set lo" for n
  proof -
    obtain e where "e \<in> set exts" "n = ext_name e"
      using n lo(2) by auto
    then show ?thesis
      using find_name [OF exts] by (auto simp: m)
  qed
  then have names: "\<forall>n \<in> set lo. \<exists>e. map_of ?m n = Some e \<and> ext_name e = n"
    by blast
  have "map ext_name (filter_map (map_of ?m) ns) = ns" if "\<forall>n \<in> set ns. \<exists>e. map_of ?m n = Some e \<and> ext_name e = n" for ns
    using that by (induction ns) auto
  then show "map ext_name (sort_by_load_order exts lo) = lo"
    using names by (simp add: sorted)
  show "set (sort_by_load_order exts lo) = set exts"
  proof (rule set_eqI)
    fix e
    have "e \<in> set exts" if "find (\<lambda>x. ext_name x = n) exts = Some e" for n
      using find_in [OF that] by simp
    moreover have "find (\<lambda>x. ext_name x = ext_name e) exts = Some e \<and> ext_name e \<in> set lo" if "e \<in> set exts"
      using find_name [OF exts that] that lo(2) by auto
    ultimately show "e \<in> set (sort_by_load_order exts lo) \<longleftrightarrow> e \<in> set exts"
      unfolding sorted by (auto simp: m)
  qed
qed

lemma depends_on_cong: "set exts = set exts' \<Longrightarrow> depends_on exts = depends_on exts'"
  by (simp add: depends_on_def)

text \<open>What loading returns.\<close>

lemma load_and_validate_Some:
  obtains exts dr xs where "load_and_validate xl disk sps v = Some (exts, dr)"
    "set exts = set (loaded xl disk sps v)" "distinct (map ext_name exts)"
    "validate_dependencies (xl_semver xl) (loaded xl disk sps v) = Some dr"
    "map ext_name exts = xs @ sorted_list_of_set {n \<in> ext_name ` set exts. reaches_cycle (depends_on exts) n}"
    "set xs = {n \<in> ext_name ` set exts. \<not> reaches_cycle (depends_on exts) n}"
    "topological ((depends_on exts)\<inverse>) xs"
proof -
  let ?l = "loaded xl disk sps v"
  let ?C = "{n \<in> ext_name ` set ?l. reaches_cycle (depends_on ?l) n}"
  obtain xs cycles where top: "compute_topological_order ?l = Some (xs @ sorted_list_of_set ?C, cycles)"
    and xs: "distinct xs" "set xs = {n \<in> ext_name ` set ?l. \<not> reaches_cycle (depends_on ?l) n}"
      "topological ((depends_on ?l)\<inverse>) xs"
    by (rule topological_order_Some)
  obtain dr where dr: "validate_dependencies (xl_semver xl) ?l = Some dr" "dr_load_order dr = xs @ sorted_list_of_set ?C"
    by (simp add: validate_dependencies_def top Let_def)
  have lo: "distinct (dr_load_order dr)" "set (dr_load_order dr) = ext_name ` set ?l"
    using xs by (auto simp: dr(2))
  note sort = sort_by_load_order_permutation [OF loaded_distinct lo]
  have dep: "depends_on (sort_by_load_order ?l (dr_load_order dr)) = depends_on ?l"
    by (rule depends_on_cong [OF sort(2)])
  have names: "ext_name ` set (sort_by_load_order ?l (dr_load_order dr)) = ext_name ` set ?l"
    by (simp only: sort(2))
  show ?thesis
  proof (rule that [of _ dr xs])
    show "load_and_validate xl disk sps v = Some (sort_by_load_order ?l (dr_load_order dr), dr)"
      using dr(1) by (simp add: load_and_validate_def loaded_def Let_def)
    show "set (sort_by_load_order ?l (dr_load_order dr)) = set ?l"
      by (rule sort(2))
    show "distinct (map ext_name (sort_by_load_order ?l (dr_load_order dr)))"
      unfolding sort(1) by (rule lo(1))
  qed (unfold dep names sort(1), rule dr(1), rule dr(2), rule xs(2), rule xs(3))
qed

section \<open>What validation reports\<close>

lemma validate_dependencies_issues:
  assumes "distinct (map ext_name exts)" and "validate_dependencies sv exts = Some dr"
  shows "IssueCircular c \<in> set (dr_issues dr) \<Longrightarrow> closed_walk (depends_on exts) c"
    and "(\<exists>c. IssueCircular c \<in> set (dr_issues dr)) \<longleftrightarrow> (\<exists>n. (n, n) \<in> (depends_on exts)\<^sup>+)"
    and "dr_valid dr \<longleftrightarrow> (\<forall>n. (n, n) \<notin> (depends_on exts)\<^sup>+) \<and>
      (\<forall>e \<in> set exts. \<forall>(dep, req) \<in> set (em_dependencies (le_manifest e)).
        \<exists>d \<in> set exts. ext_name d = dep \<and> version_matches sv req (em_version (le_manifest d)))"
proof -
  let ?C = "{n \<in> ext_name ` set exts. reaches_cycle (depends_on exts) n}"
  let ?versions = "fold (\<lambda>e. hm_insert (ext_name e) (em_version (le_manifest e))) exts []"
  let ?issues = "concat (map (dependency_issues_of sv ?versions) exts)"
  obtain xs cycles where top: "compute_topological_order exts = Some (xs @ sorted_list_of_set ?C, cycles)"
    and xs: "set xs = {n \<in> ext_name ` set exts. \<not> reaches_cycle (depends_on exts) n}"
    and cycles: "cycles = (if ?C = {} then [] else find_cycles exts (filter (\<lambda>n. n \<notin> set xs) (known_names exts)))"
    by (rule topological_order_Some)
  have dr: "dr_issues dr = ?issues @ map IssueCircular cycles" "dr_valid dr \<longleftrightarrow> dr_issues dr = []"
    using assms(2) by (auto simp: validate_dependencies_def top Let_def)
  have involved: "set (filter (\<lambda>n. n \<notin> set xs) (known_names exts)) = ?C"
    using xs by auto
  note found = find_cycles_of_remaining [OF assms(1) involved]
  have circular: "IssueCircular c \<in> set (dr_issues dr) \<longleftrightarrow> c \<in> set cycles" for c
    by (auto simp: dr(1) dependency_issues_of_def split: option.splits if_splits)
  show walk: "closed_walk (depends_on exts) c" if "IssueCircular c \<in> set (dr_issues dr)" for c
    using that found(1) unfolding circular cycles by (auto split: if_splits)
  have none: "cycles = [] \<longleftrightarrow> ?C = {}"
    using found(2) involved unfolding cycles by (auto simp: filter_empty_conv)
  have "(\<exists>n. (n, n) \<in> (depends_on exts)\<^sup>+) \<longleftrightarrow> ?C \<noteq> {}"
  proof
    assume "\<exists>n. (n, n) \<in> (depends_on exts)\<^sup>+"
    then obtain n where n: "(n, n) \<in> (depends_on exts)\<^sup>+" ..
    then have "n \<in> ext_name ` set exts"
      by (induction rule: converse_trancl_induct) (auto simp: depends_on_def)
    with n show "?C \<noteq> {}"
      by (auto simp: reaches_cycle_def)
  qed (auto simp: reaches_cycle_def)
  then show iff: "(\<exists>c. IssueCircular c \<in> set (dr_issues dr)) \<longleftrightarrow> (\<exists>n. (n, n) \<in> (depends_on exts)\<^sup>+)"
    unfolding circular using none by (cases cycles) auto
  have version: "map_of ?versions n = map_option (\<lambda>e. em_version (le_manifest e)) (find (\<lambda>e. ext_name e = n) exts)" for n
    by (rule map_of_by_name [OF assms(1)])
  have ok: "(case map_of ?versions dep of None \<Rightarrow> False | Some actual \<Rightarrow> version_matches sv req actual) \<longleftrightarrow>
    (\<exists>d \<in> set exts. ext_name d = dep \<and> version_matches sv req (em_version (le_manifest d)))" for dep req
  proof (cases "find (\<lambda>e. ext_name e = dep) exts")
    case None
    have "False" if "d \<in> set exts" "ext_name d = dep" for d
      using find_name [OF assms(1) that(1)] None unfolding that(2) by simp
    then show ?thesis
      unfolding version None option.map option.case by blast
  next
    case (Some d)
    then have d: "d \<in> set exts" "ext_name d = dep"
      using find_in by fast+
    have uniq: "x = d" if "x \<in> set exts" "ext_name x = dep" for x
    proof -
      have "find (\<lambda>e. ext_name e = dep) exts = Some x"
        using find_name [OF assms(1) that(1)] unfolding that(2) .
      then show ?thesis
        using Some by simp
    qed
    have "version_matches sv req (em_version (le_manifest d)) \<longleftrightarrow>
        (\<exists>x \<in> set exts. ext_name x = dep \<and> version_matches sv req (em_version (le_manifest x)))"
      using d uniq by blast
    then show ?thesis
      unfolding version Some option.map option.case .
  qed
  have issue: "dependency_issues_of sv ?versions e = [] \<longleftrightarrow>
      (\<forall>(dep, req) \<in> set (em_dependencies (le_manifest e)).
        \<exists>d \<in> set exts. ext_name d = dep \<and> version_matches sv req (em_version (le_manifest d)))" for e
    unfolding ok [symmetric] dependency_issues_of_def filter_map_Nil by (auto split: option.splits if_splits)
  show "dr_valid dr \<longleftrightarrow> (\<forall>n. (n, n) \<notin> (depends_on exts)\<^sup>+) \<and>
      (\<forall>e \<in> set exts. \<forall>(dep, req) \<in> set (em_dependencies (le_manifest e)).
        \<exists>d \<in> set exts. ext_name d = dep \<and> version_matches sv req (em_version (le_manifest d)))"
    using iff circular unfolding dr(2) issue [symmetric] dr(1) by (cases cycles) auto
qed

end
