(* ===== verification/Ext_Choices.thy ===== *)
theory Ext_Choices
  imports Ext_Facts
begin

text \<open>
  The registry in use: users enable and disable extensions, the registry reloads, the background
  writer saves the states and the application is started again. Choices of users survive, and what
  they choose does not reach the hooks.
\<close>

section \<open>Steps\<close>

definition codec_ok :: "'f state_codec \<Rightarrow> bool" where
  "codec_ok sc \<longleftrightarrow> (\<forall>x. sc_parse sc (sc_print sc x) = Some x) \<and> (\<forall>x. sc_parse_users sc (sc_print_users sc x) = Some x)"

text \<open>The pairs of users and names in the set may be changed. The writer succeeds, and the
  application ends when nothing is left to write.\<close>

inductive ext_step ::
  "('v, 'r) ext_libs \<Rightarrow> 'f state_codec \<Rightarrow> string \<Rightarrow> (string \<times> string) set \<Rightarrow>
     ext_registry \<times> 'f state_disk \<Rightarrow> ext_registry \<times> 'f state_disk \<Rightarrow> bool"
  for xl sc app_version U where
  enables: "(user, name) \<in> U \<Longrightarrow>
    ext_step xl sc app_version U (r, d) (snd (enable_extension_for_user user name r), d)"
| disables: "(user, name) \<in> U \<Longrightarrow>
    ext_step xl sc app_version U (r, d) (snd (disable_extension_for_user user name r), d)"
| reloads: "hot_reload xl app_version ev r = Some r' \<Longrightarrow> ext_step xl sc app_version U (r, d) (r', d)"
| writes: "writer_step sc (True, True) (xr_store r, d) = (store, d') \<Longrightarrow>
    ext_step xl sc app_version U (r, d) (r\<lparr>xr_store := store\<rparr>, d')"
| restarts: "\<not> xt_write_pending (xr_store r) \<Longrightarrow>
    initialize_with_scan_paths xl sc app_version ev d sps ext_registry_new = Some (res, r') \<Longrightarrow>
    ext_step xl sc app_version U (r, d) (r', d)"

section \<open>Lookups\<close>

lemma map_of_bt_collect_aux: "map_of (fold (\<lambda>(k, v). bt_insert k v) m acc) k =
    (case map_of (rev m) k of Some v \<Rightarrow> Some v | None \<Rightarrow> map_of acc k)"
  by (induction m arbitrary: acc) (auto simp: map_add_Some_iff map_add_def split: option.splits)

lemma map_of_bt_collect:
  assumes "distinct (map fst m)"
  shows "map_of (bt_collect m) k = map_of m k"
proof -
  have "map_of (rev m) = map_of m"
    by (rule map_of_inject_set [THEN iffD2]) (use assms in \<open>auto simp: rev_map [symmetric]\<close>)
  then show ?thesis
    by (auto simp: bt_collect_def map_of_bt_collect_aux split: option.splits)
qed

lemma map_of_map_values: "map_of (map (\<lambda>(k, v). (k, f k v)) m) k = map_option (f k) (map_of m k)"
  by (induction m) auto

definition user_maps_ok :: "user_states \<Rightarrow> bool" where
  "user_maps_ok us \<longleftrightarrow> distinct (map fst us) \<and> (\<forall>u m. map_of us u = Some m \<longrightarrow> distinct (map fst m))"

definition lookup_choice :: "user_states \<Rightarrow> string \<Rightarrow> string \<Rightarrow> bool option" where
  "lookup_choice us user name = (case map_of us user of Some m \<Rightarrow> map_of m name | None \<Rightarrow> None)"

lemma get_user_enabled_choice: "get_user_enabled user name store = lookup_choice (xt_user_states store) user name"
  by (simp add: get_user_enabled_def lookup_choice_def)

lemma lookup_choice_set:
  "lookup_choice (xt_user_states (set_user_enabled user name b store)) u n =
     (if u = user \<and> n = name then Some b else lookup_choice (xt_user_states store) u n)"
  by (auto simp: lookup_choice_def set_user_enabled_def or_default_def split: option.splits)

lemma user_maps_ok_insert:
  "user_maps_ok us \<Longrightarrow> distinct (map fst m) \<Longrightarrow> user_maps_ok (hm_insert user m us)"
  by (simp add: user_maps_ok_def distinct_update)

lemma user_maps_ok_set:
  assumes "user_maps_ok (xt_user_states store)"
  shows "user_maps_ok (xt_user_states (set_user_enabled user name b store))"
proof -
  have "distinct (map fst (or_default (map_of (xt_user_states store) user)))"
    using assms by (cases "map_of (xt_user_states store) user") (auto simp: or_default_def user_maps_ok_def)
  then show ?thesis
    using user_maps_ok_insert [OF assms] by (simp add: set_user_enabled_def distinct_update)
qed

lemma bt_collect_sorted: "bt_sorted (bt_collect m)"
proof -
  have "bt_sorted acc \<Longrightarrow> bt_sorted (fold (\<lambda>(k, v). bt_insert k v) m acc)" for acc
    by (induction m arbitrary: acc) auto
  then show ?thesis
    by (simp add: bt_collect_def)
qed

definition saved_users :: "user_states \<Rightarrow> (string, (string, bool) btree_map) btree_map" where
  "saved_users us = bt_collect (map (\<lambda>(user, m). (user, bt_collect m)) us)"

lemma saved_users_lookup:
  assumes "user_maps_ok us"
  shows "user_maps_ok (saved_users us)" and "lookup_choice (saved_users us) u n = lookup_choice us u n"
proof -
  have keys: "distinct (map fst (map (\<lambda>(user, m). (user, bt_collect m)) us))"
    using assms by (simp add: user_maps_ok_def case_prod_unfold comp_def)
  have look: "map_of (saved_users us) user = map_option bt_collect (map_of us user)" for user
    unfolding saved_users_def map_of_bt_collect [OF keys] by (induction us) auto
  have "distinct (map fst (saved_users us))"
    unfolding saved_users_def by (rule bt_sorted_distinct [OF bt_collect_sorted])
  moreover have "distinct (map fst (bt_collect m))" for m :: "(string, bool) hash_map"
    by (rule bt_sorted_distinct [OF bt_collect_sorted])
  ultimately show "user_maps_ok (saved_users us)"
    by (auto simp: user_maps_ok_def look)
  show "lookup_choice (saved_users us) u n = lookup_choice us u n"
  proof (cases "map_of us u")
    case (Some m)
    then have "distinct (map fst m)"
      using assms by (simp add: user_maps_ok_def)
    then show ?thesis
      by (simp add: lookup_choice_def look Some map_of_bt_collect)
  qed (simp add: lookup_choice_def look)
qed

section \<open>A choice in memory or on the disk\<close>

definition on_disk :: "'f state_codec \<Rightarrow> string \<Rightarrow> string \<Rightarrow> bool \<Rightarrow> 'f state_disk \<Rightarrow> bool" where
  "on_disk sc u n b d \<longleftrightarrow> (\<exists>states users.
     sd_states d = FileBytes (sc_print sc \<lparr>pst_version = 1, pst_extensions = states\<rparr>) \<and> distinct (map fst states) \<and>
     sd_users d = FileBytes (sc_print_users sc \<lparr>pus_version = 1, pus_users = users\<rparr>) \<and> user_maps_ok users \<and>
     lookup_choice users u n = Some b)"

definition choice_kept :: "'f state_codec \<Rightarrow> string \<Rightarrow> string \<Rightarrow> bool \<Rightarrow> ext_registry \<times> 'f state_disk \<Rightarrow> bool" where
  "choice_kept sc u n b = (\<lambda>(r, d).
     user_maps_ok (xt_user_states (xr_store r)) \<and> lookup_choice (xt_user_states (xr_store r)) u n = Some b \<and>
     (xt_write_pending (xr_store r) \<or> on_disk sc u n b d))"

lemma choice_kept_set_other:
  assumes "choice_kept sc u n b (r, d)" and "(user, name) \<noteq> (u, n)"
  shows "choice_kept sc u n b (snd (set_extension_for_user enabled user name r), d)"
proof -
  have "set_extension_for_user enabled user name r = (res, r') \<Longrightarrow> choice_kept sc u n b (r', d)" for res r'
    using assms user_maps_ok_set [of "xr_store r" user name enabled]
    by (auto simp: set_extension_for_user_def choice_kept_def lookup_choice_set split: sum.splits if_splits)
      (auto simp: set_user_enabled_def)
  then show ?thesis
    by (metis prod.collapse)
qed

lemma run_activation_hooks_store [simp]: "xr_store (snd (run_activation_hooks hs now p exts r)) = xr_store r"
  by (simp add: run_activation_hooks_def Let_def)

lemma hot_reload_store:
  assumes "hot_reload xl v ev r = Some r'"
  shows "xt_user_states (xr_store r') = xt_user_states (xr_store r) \<and> xt_write_pending (xr_store r')"
proof -
  obtain exts dr where load: "load_and_validate xl (xe_disk ev) (xr_scan_paths r) v = Some (exts, dr)"
    by (rule load_and_validate_Some)
  show ?thesis
    using assms by (auto simp: hot_reload_def load Let_def store_set_all_def run_activation_hooks_def)
qed

lemma choice_kept_write:
  assumes "choice_kept sc u n b (r, d)" and "writer_step sc (True, True) (xr_store r, d) = (store, d')"
  shows "choice_kept sc u n b (r\<lparr>xr_store := store\<rparr>, d')"
proof (cases "xt_write_pending (xr_store r)")
  case True
  have us: "user_maps_ok (xt_user_states (xr_store r))" "lookup_choice (xt_user_states (xr_store r)) u n = Some b"
    using assms(1) by (auto simp: choice_kept_def)
  let ?states = "bt_collect (map (\<lambda>(name, st). (name, persist_state st)) (xt_states (xr_store r)))"
  let ?users = "saved_users (xt_user_states (xr_store r))"
  have "distinct (map fst ?states)"
    by (rule bt_sorted_distinct [OF bt_collect_sorted])
  moreover have "user_maps_ok ?users" "lookup_choice ?users u n = Some b"
    using saved_users_lookup [OF us(1)] us(2) by simp_all
  moreover have "snd (store_flush sc (True, True) (xr_store r) d) =
      d\<lparr>sd_states := FileBytes (sc_print sc \<lparr>pst_version = 1, pst_extensions = ?states\<rparr>),
        sd_users := FileBytes (sc_print_users sc \<lparr>pus_version = 1, pus_users = ?users\<rparr>)\<rparr>"
    by (simp add: store_flush_def save_states_to_file_def save_user_states_to_file_def saved_users_def)
  ultimately have "on_disk sc u n b (snd (store_flush sc (True, True) (xr_store r) d))"
    unfolding on_disk_def by (intro exI [of _ ?states] exI [of _ ?users]) simp
  then show ?thesis
    using assms True us by (auto simp: writer_step_def choice_kept_def)
next
  case False
  then show ?thesis
    using assms by (auto simp: writer_step_def choice_kept_def)
qed

lemma load_choice:
  assumes "codec_ok sc" and "on_disk sc u n b d"
  shows "\<exists>states store'. store_load sc d store = (Inr states, store') \<and> user_maps_ok (xt_user_states store') \<and>
    lookup_choice (xt_user_states store') u n = Some b"
proof -
  obtain states users where d: "sd_states d = FileBytes (sc_print sc \<lparr>pst_version = 1, pst_extensions = states\<rparr>)"
    "distinct (map fst states)" "sd_users d = FileBytes (sc_print_users sc \<lparr>pus_version = 1, pus_users = users\<rparr>)"
    "user_maps_ok users" "lookup_choice users u n = Some b"
    using assms(2) by (auto simp: on_disk_def)
  obtain ls where ls: "load_states_from_file sc (sd_states d) = Inr ls" "map fst ls = map fst states"
    using assms(1) d(1) by (simp add: load_states_from_file_def codec_ok_def case_prod_unfold comp_def)
  have users: "load_user_states_from_file sc (sd_users d) = Inr users"
    using assms(1) d(3) by (simp add: load_user_states_from_file_def codec_ok_def)
  let ?m = "map (\<lambda>(name, st). (name, es_enabled st)) ls"
  have "map fst ?m = map fst ls"
    by (simp add: case_prod_unfold comp_def)
  then have "user_maps_ok (hm_insert system_default_user_id ?m users)"
    using user_maps_ok_insert [OF d(4), of ?m] ls(2) d(2) by simp
  moreover have "lookup_choice (hm_insert system_default_user_id ?m users) u n = Some b"
    if "map_of users system_default_user_id = None"
    using d(5) that by (auto simp: lookup_choice_def split: option.splits)
  ultimately show ?thesis
    using ls users d(4,5) by (simp add: store_load_def Let_def)
qed

lemma initialize_store:
  assumes "initialize_with_scan_paths xl sc v ev d sps r = Some (res, r')" and "store_load sc d (xr_store r) = (Inr states, store)"
  shows "xt_user_states (xr_store r') = xt_user_states store \<and> xt_write_pending (xr_store r')"
proof -
  obtain exts dr where load: "load_and_validate xl (xe_disk ev) sps v = Some (exts, dr)"
    by (rule load_and_validate_Some)
  show ?thesis
    using assms by (auto simp: initialize_with_scan_paths_def load Let_def store_set_all_def run_activation_hooks_def)
qed

lemma choice_kept_step:
  assumes "ext_step xl sc v U s s'" and "codec_ok sc" and "(u, n) \<notin> U" and "choice_kept sc u n b s"
  shows "choice_kept sc u n b s'"
  using assms(1)
proof cases
  case (enables user name r d)
  then show ?thesis
    using choice_kept_set_other [of sc u n b r d user name True] assms(3,4) by (auto simp: enable_extension_for_user_def)
next
  case (disables user name r d)
  then show ?thesis
    using choice_kept_set_other [of sc u n b r d user name False] assms(3,4) by (auto simp: disable_extension_for_user_def)
next
  case (reloads ev r r' d)
  then show ?thesis
    using hot_reload_store [OF reloads(3)] assms(4) by (auto simp: choice_kept_def)
next
  case (writes r d store d')
  then show ?thesis
    using choice_kept_write [OF _ writes(3)] assms(4) by auto
next
  case (restarts r ev d sps res r')
  have "on_disk sc u n b d"
    using assms(4) restarts by (auto simp: choice_kept_def)
  from load_choice [OF assms(2) this, of "xr_store ext_registry_new"] show ?thesis
    using initialize_store [OF restarts(4)] restarts by (auto simp: choice_kept_def)
qed

lemma choice_kept_steps:
  assumes "(ext_step xl sc v U)\<^sup>*\<^sup>* s s'" and "codec_ok sc" and "(u, n) \<notin> U" and "choice_kept sc u n b s"
  shows "choice_kept sc u n b s'"
  using assms(1,4) by (induction rule: rtranclp_induct) (auto intro: choice_kept_step [OF _ assms(2,3)])

text \<open>Two ways to ask whether an extension is enabled agree.\<close>

lemma enabled_views_agree:
  assumes "distinct (map ext_name (xr_extensions r))" and "e \<in> set (extensions_for_user user r)"
  shows "es_enabled (le_state e) \<longleftrightarrow> extension_enabled_for_user user (ext_name e) r"
proof -
  obtain e0 where e0: "e0 \<in> set (xr_extensions r)" "ext_name e0 = ext_name e"
    "es_enabled (le_state e) = (case map_of (get_user_enabled_all user (xr_store r)) (ext_name e0) of
            Some enabled \<Rightarrow> enabled | None \<Rightarrow> user \<noteq> system_default_user_id \<or> es_enabled (le_state e0))"
    using assms(2) by (auto simp: extensions_for_user_def Let_def)
  have "map_of (get_user_enabled_all user (xr_store r)) n = get_user_enabled user n (xr_store r)" for n
    by (simp add: get_user_enabled_all_def get_user_enabled_def or_default_def split: option.splits)
  moreover have "find (\<lambda>x. ext_name x = ext_name e) (xr_extensions r) = Some e0"
    using find_name [OF assms(1) e0(1)] e0(2) by simp
  ultimately show ?thesis
    using e0 by (simp add: extension_enabled_for_user_def split: option.splits)
qed

lemma choice_kept_shown:
  assumes "choice_kept sc u n b (r, d)"
  shows "extension_enabled_for_user u n r = b"
    and "list_all (\<lambda>e. ext_name e = n \<longrightarrow> es_enabled (le_state e) = b) (extensions_for_user u r)"
proof -
  have b: "lookup_choice (xt_user_states (xr_store r)) u n = Some b"
    using assms by (simp add: choice_kept_def)
  then show "extension_enabled_for_user u n r = b"
    by (simp add: extension_enabled_for_user_def get_user_enabled_choice)
  have "map_of (get_user_enabled_all u (xr_store r)) n = Some b"
    using b by (auto simp: lookup_choice_def get_user_enabled_all_def or_default_def split: option.splits)
  then show "list_all (\<lambda>e. ext_name e = n \<longrightarrow> es_enabled (le_state e) = b) (extensions_for_user u r)"
    by (auto simp: extensions_for_user_def Let_def list_all_iff)
qed

section \<open>Hooks\<close>

lemma hot_reload_ignores_choices:
  "hot_reload xl v ev (r\<lparr>xr_store := (xr_store r)\<lparr>xt_user_states := us\<rparr>\<rparr>) =
     map_option (\<lambda>r'. r'\<lparr>xr_store := (xr_store r')\<lparr>xt_user_states := us\<rparr>\<rparr>) (hot_reload xl v ev r)"
proof -
  obtain exts dr where load: "load_and_validate xl (xe_disk ev) (xr_scan_paths r) v = Some (exts, dr)"
    by (rule load_and_validate_Some)
  show ?thesis
    by (simp add: hot_reload_def load Let_def run_activation_hooks_def store_set_all_def)
qed

lemma ext_name_merge: "map ext_name (merge_persisted_states exts p) = map ext_name exts"
  by (induction exts) (auto simp: merge_persisted_states_def split: option.splits)

lemma ext_name_activate [simp]: "ext_name (activate_extension now e) = ext_name e"
  by (simp add: activate_extension_def)

lemma build_state_map_lookup:
  assumes "distinct (map ext_name exts)" and "\<And>e. e \<in> set exts \<Longrightarrow> es_name (le_state e) = ext_name e"
  shows "map_of (build_state_map exts) n = map_option le_state (find (\<lambda>e. ext_name e = n) exts)"
proof -
  have "build_state_map exts = fold (\<lambda>e. hm_insert (ext_name e) (le_state e)) exts []"
    unfolding build_state_map_def by (rule fold_cong) (simp_all add: assms(2))
  then show ?thesis
    by (simp add: map_of_by_name [OF assms(1)])
qed

lemma hooks_of_other: "(n, kind, res) \<in> set (hooks_of_extension hs p e) \<Longrightarrow> ext_name e = n"
  by (auto simp: hooks_of_extension_def call_hook_def split: option.splits if_splits)

lemma merge_disabled:
  assumes "map_of p n = Some st" and "\<not> es_enabled st" and "e \<in> set (merge_persisted_states exts p)" and "ext_name e = n"
  shows "\<not> es_enabled (le_state e)"
  using assms by (auto simp: merge_persisted_states_def split: option.splits)

lemma merge_fresh:
  assumes "e \<in> set (merge_persisted_states exts p)" and "\<And>x. x \<in> set exts \<Longrightarrow> fresh_state x"
  shows "fresh_state e"
proof -
  obtain x where x: "x \<in> set exts" "e = (case map_of p (ext_name x) of
         Some saved \<Rightarrow> x\<lparr>le_state := (le_state x)\<lparr>es_enabled := es_enabled saved,
           es_installed_at := es_installed_at saved, es_last_activated_at := es_last_activated_at saved\<rparr>\<rparr>
       | None \<Rightarrow> x)"
    using assms(1) unfolding merge_persisted_states_def by auto
  then show ?thesis
    using assms(2) [OF x(1)] by (auto simp: fresh_state_def split: option.splits)
qed

lemma hot_reload_disabled:
  assumes "map_of (xt_states (xr_store r)) n = Some st" and "\<not> es_enabled st" and "hot_reload xl v ev r = Some r'"
  shows "\<exists>calls. xr_hooks r' = xr_hooks r @ calls \<and> list_all (\<lambda>(m, kind, _). m = n \<longrightarrow> kind = OnDeactivate) calls"
    and "list_all (\<lambda>e. ext_name e = n \<longrightarrow> \<not> es_enabled (le_state e) \<and>
      es_version (le_state e) = em_version (le_manifest e) \<and> map_of (xt_states (xr_store r')) n = Some (le_state e)) (xr_extensions r')"
proof -
  let ?p = "xt_states (xr_store r)"
  obtain exts dr where load: "load_and_validate xl (xe_disk ev) (xr_scan_paths r) v = Some (exts, dr)"
    and exts: "set exts = set (loaded xl (xe_disk ev) (xr_scan_paths r) v)" "distinct (map ext_name exts)"
    by (rule load_and_validate_Some)
  let ?m = "merge_persisted_states exts ?p"
  let ?a = "map (activate_extension (xe_now ev)) ?m"
  have r': "xr_hooks r' = xr_hooks r @ (run_deactivation_hooks (xe_hooks ev) (xr_extensions r) @
      concat (map (hooks_of_extension (xe_hooks ev) ?p) (filter (\<lambda>e. es_enabled (le_state e)) ?m)))"
    "xr_extensions r' = ?a" "xt_states (xr_store r') = build_state_map ?a"
    using assms(3) by (auto simp: hot_reload_def load Let_def run_activation_hooks_def store_set_all_def)
  have "kind = OnDeactivate" if "(n, kind, res) \<in> set (run_deactivation_hooks (xe_hooks ev) (xr_extensions r))" for kind res
    using that by (auto simp: run_deactivation_hooks_def call_hook_def split: if_splits option.splits)
  moreover have "(n, kind, res) \<notin> set (concat (map (hooks_of_extension (xe_hooks ev) ?p)
      (filter (\<lambda>e. es_enabled (le_state e)) ?m)))" for kind res
    using merge_disabled [OF assms(1,2)] by (auto dest!: hooks_of_other)
  ultimately have "list_all (\<lambda>(m, kind, _). m = n \<longrightarrow> kind = OnDeactivate) (run_deactivation_hooks (xe_hooks ev) (xr_extensions r) @
      concat (map (hooks_of_extension (xe_hooks ev) ?p) (filter (\<lambda>e. es_enabled (le_state e)) ?m)))"
    unfolding list_all_iff by auto
  with r'(1) show "\<exists>calls. xr_hooks r' = xr_hooks r @ calls \<and> list_all (\<lambda>(m, kind, _). m = n \<longrightarrow> kind = OnDeactivate) calls"
    by blast
  have fresh: "fresh_state e" if "e \<in> set ?m" for e
    using merge_fresh [OF that] loaded_fresh exts(1) by blast
  have names: "map ext_name ?a = map ext_name exts"
    using ext_name_merge [of exts ?p] by (simp add: comp_def)
  have lookup: "map_of (build_state_map ?a) n = map_option le_state (find (\<lambda>e. ext_name e = n) ?a)"
  proof (rule build_state_map_lookup)
    show "distinct (map ext_name ?a)"
      unfolding names by (rule exts(2))
  next
    fix e assume "e \<in> set ?a"
    then show "es_name (le_state e) = ext_name e"
      using fresh by (auto simp: activate_extension_def fresh_state_def)
  qed
  have "\<not> es_enabled (le_state e) \<and> es_version (le_state e) = em_version (le_manifest e) \<and>
      map_of (xt_states (xr_store r')) n = Some (le_state e)" if e: "e \<in> set ?a" "ext_name e = n" for e
  proof -
    obtain e0 where e0: "e0 \<in> set ?m" "e = activate_extension (xe_now ev) e0"
      using e(1) by auto
    then have "\<not> es_enabled (le_state e0)"
      using merge_disabled [OF assms(1,2) e0(1)] e(2) by simp
    then have "e = e0"
      using e0(2) by (simp add: activate_extension_def)
    moreover have "find (\<lambda>x. ext_name x = n) ?a = Some e"
      using find_name [of ?a e] e names exts(2) by simp
    ultimately show ?thesis
      using \<open>\<not> es_enabled (le_state e0)\<close> fresh [OF e0(1)] lookup by (simp add: r'(3) fresh_state_def)
  qed
  then show "list_all (\<lambda>e. ext_name e = n \<longrightarrow> \<not> es_enabled (le_state e) \<and>
      es_version (le_state e) = em_version (le_manifest e) \<and> map_of (xt_states (xr_store r')) n = Some (le_state e)) (xr_extensions r')"
    unfolding r'(2) list_all_iff by blast
qed

end
