(* ===== verification/Ext_Properties.thy ===== *)
theory Ext_Properties
  imports Ext_Normal Ext_Choices
begin

text \<open>
  The properties of extensions: the order in which they load, the cycles that are reported, the
  files a manifest can reach, the normal form of manifests, and what users choose.
\<close>

section \<open>Concrete instances\<close>

definition ext_demo_manifest :: "string \<Rightarrow> (string \<times> string) list \<Rightarrow> ext_manifest" where
  "ext_demo_manifest name deps = \<lparr>em_name = name, em_version = ''1'', em_display_name = None, em_description = None,
     em_engine = None, em_api_version = None, em_dependencies = deps, em_permissions = None,
     em_lifecycle = Some \<lparr>lh_on_install = Some ''i'', lh_on_uninstall = None, lh_on_activate = Some ''a'', lh_on_deactivate = Some ''d''\<rparr>\<rparr>"

definition ext_demo_semver :: "(string, string) semver" where
  "ext_demo_semver = \<lparr>sv_version = Some, sv_req = Some, sv_matches = (\<lambda>r v. r = ''='' @ v), sv_major = (\<lambda>_. 1), sv_le = (\<lambda>_ _. True)\<rparr>"

text \<open>A manifest file holds the name of its extension: \<open>a\<close> depends on \<open>b\<close>, and \<open>c\<close> and \<open>d\<close> on each
  other.\<close>

definition ext_demo_json :: json_lib where
  "ext_demo_json = \<lparr>js_parse = (\<lambda>s. Some (if s = ''r'' then JArray [JString ''$file:x.txt''] else JString s)),
     js_manifest = (\<lambda>v. case v of JString s \<Rightarrow> Some (ext_demo_manifest s (case s of
         [x] \<Rightarrow> if x = CHR ''a'' then [(''b'', ''1'')] else if x = CHR ''c'' then [(''d'', ''1'')]
           else if x = CHR ''d'' then [(''c'', ''1'')] else []
       | _ \<Rightarrow> [])) | _ \<Rightarrow> None)\<rparr>"

definition ext_demo_text :: text_lib where
  "ext_demo_text = \<lparr>tl_lower = ascii_lower, tl_chars = map of_char\<rparr>"

definition ext_demo_libs :: "(string, string) ext_libs" where
  "ext_demo_libs = \<lparr>xl_text = ext_demo_text, xl_semver = ext_demo_semver, xl_json = ext_demo_json\<rparr>"

definition ext_demo_tree :: "(string \<times> string) list \<Rightarrow> file_tree" where
  "ext_demo_tree files = \<lparr>ft_exists = (\<lambda>_. True), ft_canonicalize = Some, ft_files = files\<rparr>"

definition ext_demo_disk :: "string list \<Rightarrow> ext_disk" where
  "ext_demo_disk names = \<lparr>xd_entries = (\<lambda>p. if p = ''/e'' then Some (map (\<lambda>n. (''/e/'' @ n, True)) names) else None),
     xd_read = (\<lambda>p. find (\<lambda>n. p = ''/e/'' @ n @ ''/aion-extension.json'') names), xd_tree = ext_demo_tree []\<rparr>"

definition ext_demo_env :: "string list \<Rightarrow> ext_env" where
  "ext_demo_env names = \<lparr>xe_disk = ext_demo_disk names,
     xe_hooks = \<lparr>hs_exists = (\<lambda>_. True), hs_run = (\<lambda>_. HookExited True (Some ''0'') [])\<rparr>, xe_now = 7\<rparr>"

definition ext_demo_paths :: "scan_path list" where
  "ext_demo_paths = [\<lparr>scp_path = ''/e'', scp_source = SourceLocal\<rparr>]"

definition ext_demo_codec :: "(persisted_states + persisted_user_states) state_codec" where
  "ext_demo_codec = \<lparr>sc_print = Inl, sc_parse = (\<lambda>x. case x of Inl s \<Rightarrow> Some s | Inr _ \<Rightarrow> None),
     sc_print_users = Inr, sc_parse_users = (\<lambda>x. case x of Inr s \<Rightarrow> Some s | Inl _ \<Rightarrow> None)\<rparr>"

section \<open>Dependencies\<close>

text \<open>C8. Extensions are loaded after what they depend on: loading never panics, the extensions it
  returns are those found and compatible, each name once, first those whose dependencies lead to no
  cycle, every one after all of its dependencies, then the others in alphabetical order.\<close>

theorem dependencies_load_first:
  "case load_and_validate xl disk scan_paths app_version of
     None \<Rightarrow> False
   | Some (exts, _) \<Rightarrow>
       set exts = set (filter_by_engine_compatibility (xl_semver xl) (load_all xl disk scan_paths) app_version) \<and>
       distinct (map ext_name exts) \<and>
       (\<exists>xs. map ext_name exts = xs @ sorted_list_of_set {n \<in> ext_name ` set exts. reaches_cycle (depends_on exts) n} \<and>
         set xs = {n \<in> ext_name ` set exts. \<not> reaches_cycle (depends_on exts) n} \<and> topological ((depends_on exts)\<inverse>) xs)"
proof -
  obtain exts dr xs where "load_and_validate xl disk scan_paths app_version = Some (exts, dr)"
    "set exts = set (loaded xl disk scan_paths app_version)" "distinct (map ext_name exts)"
    "map ext_name exts = xs @ sorted_list_of_set {n \<in> ext_name ` set exts. reaches_cycle (depends_on exts) n}"
    "set xs = {n \<in> ext_name ` set exts. \<not> reaches_cycle (depends_on exts) n}"
    "topological ((depends_on exts)\<inverse>) xs"
    by (rule load_and_validate_Some)
  then show ?thesis
    by (auto simp: loaded_def)
qed

text \<open>So a dependent of a cycle is not loaded after its own dependencies, although it is on no
  cycle: here \<open>a\<close> comes before \<open>b\<close>, which it needs.\<close>

lemma dependent_of_cycle_loads_early:
  "topological_sort (map (\<lambda>(n, deps). \<lparr>le_manifest = ext_demo_manifest n (map (\<lambda>d. (d, ''1'')) deps), le_directory = n,
      le_source = SourceLocal, le_state = \<lparr>es_name = n, es_version = ''1'', es_enabled = True, es_installed_at = None,
        es_last_activated_at = None\<rparr>\<rparr>)
     [(''a'', [''b'']), (''b'', [''c'']), (''c'', [''d'']), (''d'', [''c'']), (''e'', [])]) =
   Some [''e'', ''a'', ''b'', ''c'', ''d'']"
  by code_simp

text \<open>C18. Every cycle that validation reports is one: a closed walk along dependencies that repeats
  no extension but the first. One is reported exactly if the dependencies have a cycle, and the
  result is valid exactly if there is none and every dependency is met by a loaded extension of a
  version that matches.\<close>

theorem reported_cycles_are_cycles:
  "case load_and_validate xl disk scan_paths app_version of
     None \<Rightarrow> False
   | Some (exts, dr) \<Rightarrow>
       list_all (\<lambda>issue. case issue of IssueCircular c \<Rightarrow> closed_walk (depends_on exts) c | _ \<Rightarrow> True) (dr_issues dr) \<and>
       ((\<exists>c. IssueCircular c \<in> set (dr_issues dr)) \<longleftrightarrow> (\<exists>n. (n, n) \<in> (depends_on exts)\<^sup>+)) \<and>
       (dr_valid dr \<longleftrightarrow> \<not> (\<exists>n. (n, n) \<in> (depends_on exts)\<^sup>+) \<and>
         list_all (\<lambda>e. list_all (\<lambda>(dep, req). list_ex (\<lambda>d. ext_name d = dep \<and>
             version_matches (xl_semver xl) req (em_version (le_manifest d))) exts) (em_dependencies (le_manifest e))) exts)"
proof -
  obtain exts dr where load: "load_and_validate xl disk scan_paths app_version = Some (exts, dr)"
    and exts: "set exts = set (loaded xl disk scan_paths app_version)"
    and dr: "validate_dependencies (xl_semver xl) (loaded xl disk scan_paths app_version) = Some dr"
    by (rule load_and_validate_Some)
  note issues = validate_dependencies_issues [OF loaded_distinct dr]
  have walks: "list_all (\<lambda>issue. case issue of IssueCircular c \<Rightarrow> closed_walk (depends_on exts) c | _ \<Rightarrow> True) (dr_issues dr)"
    using issues(1) unfolding list_all_iff depends_on_cong [OF exts] by (auto split: dependency_issue.splits)
  have valid: "dr_valid dr \<longleftrightarrow> \<not> (\<exists>n. (n, n) \<in> (depends_on exts)\<^sup>+) \<and>
      list_all (\<lambda>e. list_all (\<lambda>(dep, req). list_ex (\<lambda>d. ext_name d = dep \<and>
        version_matches (xl_semver xl) req (em_version (le_manifest d))) exts) (em_dependencies (le_manifest e))) exts"
    unfolding issues(3) list_all_iff list_ex_iff exts depends_on_cong [OF exts] by blast
  show ?thesis
    unfolding load option.case prod.case
    by (intro conjI walks valid) (use issues(2) depends_on_cong [OF exts] in simp)
qed

section \<open>Manifests\<close>

text \<open>C32. Reading a manifest depends on no file outside the extension: with two trees that resolve
  names alike and agree on what lies below the real directory of the extension, the manifest is the
  same, whatever it refers to, and so is every file that one of its values names.\<close>

theorem file_references_stay_inside:
  assumes "ft_canonicalize ft dir = Some base" and "same_below base ft ft'" and "ft_exists ft' = ft_exists ft"
  shows "parse_manifest_inner tx sv jl ft' bytes (Some dir) = parse_manifest_inner tx sv jl ft bytes (Some dir) \<and>
    resolve_file_reference ft' dir val = resolve_file_reference ft dir val"
  unfolding parse_manifest_inner_def option.case resolve_refs_same(1) [OF assms(2,1)]
    file_reference_same [OF assms(2,1,3)] by simp

lemma file_references_stay_inside_witness:
  "resolve_file_reference (ext_demo_tree [(''/e/f'', ''in''), (''/s'', ''1'')]) ''/e'' ''@file:f'' = Inr ''in'' \<and>
   resolve_file_reference (ext_demo_tree [(''/e/f'', ''in''), (''/s'', ''2'')]) ''/e'' ''@file:f'' = Inr ''in''"
proof -
  let ?ft = "ext_demo_tree [(''/e/f'', ''in''), (''/s'', ''1'')]" and ?ft' = "ext_demo_tree [(''/e/f'', ''in''), (''/s'', ''2'')]"
  have "path_starts_with ''/s'' ''/e'' = False"
    by code_simp
  then have "same_below ''/e'' ?ft ?ft'"
    by (auto simp: same_below_def ext_demo_tree_def)
  moreover have "ft_canonicalize ?ft ''/e'' = Some ''/e''" "ft_exists ?ft' = ft_exists ?ft"
    by (simp_all add: ext_demo_tree_def)
  ultimately have "resolve_file_reference ?ft' ''/e'' ''@file:f'' = resolve_file_reference ?ft ''/e'' ''@file:f''"
    using file_references_stay_inside by blast
  moreover have "resolve_file_reference ?ft ''/e'' ''@file:f'' = Inr ''in''"
    by code_simp
  ultimately show ?thesis
    by simp
qed


section \<open>Choices of users\<close>


definition ext_demo_registry :: ext_registry where
  "ext_demo_registry = (case initialize_with_scan_paths ext_demo_libs ext_demo_codec ''1'' (ext_demo_env [''a'', ''b''])
     \<lparr>sd_states = FileMissing, sd_users = FileMissing\<rparr> ext_demo_paths ext_registry_new of Some (_, r) \<Rightarrow> r | None \<Rightarrow> ext_registry_new)"


text \<open>C39. What users choose does not reach the hooks: a reload is the same whatever they chose, and
  an extension whose recorded state is disabled is never installed or activated by it, even for
  users who enabled it, while the version that was found is recorded, so that its hook for a new
  version is not run later either.\<close>

theorem choices_do_not_reach_hooks:
  assumes "map_of (xt_states (xr_store r)) n = Some st" and "\<not> es_enabled st" and "hot_reload xl app_version ev r = Some r'"
  shows "hot_reload xl app_version ev (r\<lparr>xr_store := (xr_store r)\<lparr>xt_user_states := us\<rparr>\<rparr>) =
      Some (r'\<lparr>xr_store := (xr_store r')\<lparr>xt_user_states := us\<rparr>\<rparr>) \<and>
    (\<exists>calls. xr_hooks r' = xr_hooks r @ calls \<and> list_all (\<lambda>(m, kind, _). m = n \<longrightarrow> kind = OnDeactivate) calls) \<and>
    list_all (\<lambda>e. ext_name e = n \<longrightarrow> \<not> es_enabled (le_state e) \<and>
      es_version (le_state e) = em_version (le_manifest e) \<and> map_of (xt_states (xr_store r')) n = Some (le_state e)) (xr_extensions r')"
  unfolding hot_reload_ignores_choices assms(3) option.map
  by (intro conjI refl hot_reload_disabled [OF assms])

lemma choices_do_not_reach_hooks_witness:
  "let r = snd (enable_extension ''a'' (ext_demo_registry\<lparr>xr_store := \<lparr>xt_states = [(''a'', \<lparr>es_name = ''a'', es_version = ''0'',
       es_enabled = False, es_installed_at = None, es_last_activated_at = None\<rparr>)],
       xt_user_states = [(system_default_user_id, [(''a'', False)])], xt_write_pending = False\<rparr>\<rparr>))
   in extension_enabled_for_user system_default_user_id ''a'' r \<and>
      (\<exists>r' calls. hot_reload ext_demo_libs ''1'' (ext_demo_env [''a'', ''b'']) r = Some r' \<and> xr_hooks r' = xr_hooks r @ calls \<and>
        list_all (\<lambda>(m, kind, _). m = ''a'' \<longrightarrow> kind = OnDeactivate) calls)"
proof -
  let ?st = "\<lparr>es_name = ''a'', es_version = ''0'', es_enabled = False, es_installed_at = None, es_last_activated_at = None\<rparr>"
  let ?r = "snd (enable_extension ''a'' (ext_demo_registry\<lparr>xr_store := \<lparr>xt_states = [(''a'', ?st)],
       xt_user_states = [(system_default_user_id, [(''a'', False)])], xt_write_pending = False\<rparr>\<rparr>))"
  have enabled: "extension_enabled_for_user system_default_user_id ''a'' ?r"
    by code_simp
  have "map_of (xt_states (xr_store ?r)) ''a'' = Some ?st"
    by code_simp
  moreover have "\<not> es_enabled ?st"
    by simp
  moreover have "hot_reload ext_demo_libs ''1'' (ext_demo_env [''a'', ''b'']) ?r \<noteq> None"
    by code_simp
  then obtain r' where r': "hot_reload ext_demo_libs ''1'' (ext_demo_env [''a'', ''b'']) ?r = Some r'"
    by auto
  ultimately show ?thesis
    using choices_do_not_reach_hooks [of ?r "''a''" ?st ext_demo_libs "''1''" "ext_demo_env [''a'', ''b'']" r'] enabled
    by (auto simp: Let_def)
qed

end

